(* ===== verification/Prelude.thy ===== *)
theory Prelude
  imports Main "HOL-Library.Word"
begin

text \<open>
  Shared vocabulary of the development: the machine types of the sources, the two ways in
  which C++ code can leave a function (a returned value or an operation the language leaves
  undefined), HRESULTs, and the little-endian views of integers in byte buffers.
\<close>

unbundle bit_operations_syntax

section \<open>Machine types\<close>

type_synonym BYTE = "8 word"
type_synonym WCHAR = "16 word"
type_synonym USHORT = "16 word"
type_synonym ULONG = "32 word"
type_synonym DWORD = "32 word"
type_synonym INT8 = "8 word"
type_synonym INT16 = "16 word"
type_synonym INT32 = "32 word"
type_synonym INT64 = "64 word"
type_synonym mdToken = "32 word"
type_synonym HRESULT = "32 word"

section \<open>Outcomes\<close>

text \<open>
  A function either completes (\<open>Inr\<close>) or performs an operation the C++ language leaves
  undefined (\<open>Inl\<close>): an access outside a buffer or a container, a dereference of a null or
  dangling pointer, a read of a union member that is not the active one or of a variable nothing was
  assigned to (\<open>Indeterminate\<close>), or an uncaught C++ exception. \<open>OutOfFuel\<close> stands for a loop that has not ended within the steps its model grants;
  the theorems on a loop's completion exclude it.
\<close>

datatype fault = OutOfBounds | NullDeref | InactiveMember | Indeterminate | UncaughtException | OutOfFuel

type_synonym 'a outcome = "fault + 'a"

definition bindO :: "'e + 'a \<Rightarrow> ('a \<Rightarrow> 'e + 'b) \<Rightarrow> 'e + 'b" where
  "bindO m f = (case m of Inl e \<Rightarrow> Inl e | Inr x \<Rightarrow> f x)"

lemma bindO_simps [simp]:
  "bindO (Inl e) f = Inl e"
  "bindO (Inr x) f = f x"
  by (simp_all add: bindO_def)

lemma bindO_Inr_iff: "bindO m f = Inr y \<longleftrightarrow> (\<exists>x. m = Inr x \<and> f x = Inr y)"
  by (cases m) auto

lemma bindO_InrE [elim!]:
  assumes "bindO m f = Inr y"
  obtains x where "m = Inr x" and "f x = Inr y"
  using assms by (auto simp: bindO_Inr_iff)

lemma bindO_assoc: "bindO (bindO m f) g = bindO m (\<lambda>x. bindO (f x) g)"
  by (cases m) auto

lemma bindO_cong [fundef_cong]:
  assumes "m = m'" and "\<And>x. m' = Inr x \<Longrightarrow> f x = f' x"
  shows "bindO m f = bindO m' f'"
  using assms by (cases m') auto

text \<open>A \<open>for\<close> loop over a list whose body may fault.\<close>

fun foldO :: "('a \<Rightarrow> 's \<Rightarrow> 'e + 's) \<Rightarrow> 'a list \<Rightarrow> 's \<Rightarrow> 'e + 's" where
  "foldO f [] s = Inr s"
| "foldO f (x # xs) s = bindO (f x s) (foldO f xs)"

lemma foldO_append: "foldO f (xs @ ys) s = bindO (foldO f xs s) (foldO f ys)"
  by (induction xs arbitrary: s) (auto simp: bindO_def split: sum.splits)

lemma foldO_invariant:
  assumes "foldO f xs s = Inr s'" and "P s"
    and "\<And>x s s'. x \<in> set xs \<Longrightarrow> P s \<Longrightarrow> f x s = Inr s' \<Longrightarrow> P s'"
  shows "P s'"
  using assms
proof (induction xs arbitrary: s)
  case (Cons x xs)
  then obtain t where "f x s = Inr t" "foldO f xs t = Inr s'" by auto
  with Cons.prems show ?case by (intro Cons.IH [of t]) (auto 4 3)
qed simp

text \<open>Partial correctness of an outcome: if it completes, its result satisfies \<open>P\<close>. The rules in
  \<open>wp\<close> work backwards through a computation.\<close>

named_theorems wp \<open>rules that establish a property of the result of a computation\<close>

definition ensures :: "'e + 'a \<Rightarrow> ('a \<Rightarrow> bool) \<Rightarrow> bool" where
  "ensures m P \<longleftrightarrow> (case m of Inl _ \<Rightarrow> True | Inr x \<Rightarrow> P x)"

lemma ensuresD: "ensures m P \<Longrightarrow> m = Inr x \<Longrightarrow> P x"
  by (simp add: ensures_def)

lemma ensuresI: "(\<And>x. m = Inr x \<Longrightarrow> P x) \<Longrightarrow> ensures m P"
  by (cases m) (simp_all add: ensures_def)

lemma ensures_Inl [wp]: "ensures (Inl e) P"
  by (simp add: ensures_def)

lemma ensures_Inr [wp]: "P x \<Longrightarrow> ensures (Inr x) P"
  by (simp add: ensures_def)

lemma ensures_bind [wp]: "ensures m (\<lambda>x. ensures (f x) P) \<Longrightarrow> ensures (bindO m f) P"
  by (cases m) (simp_all add: ensures_def)

lemma ensures_if [wp]:
  "(b \<Longrightarrow> ensures m P) \<Longrightarrow> (\<not> b \<Longrightarrow> ensures n P) \<Longrightarrow> ensures (if b then m else n) P"
  by simp

lemma ensures_let [wp]: "(\<And>x. x = a \<Longrightarrow> ensures (f x) P) \<Longrightarrow> ensures (let x = a in f x) P"
  by simp

lemma ensures_prod [wp]:
  "(\<And>a b. p = (a, b) \<Longrightarrow> ensures (f a b) P) \<Longrightarrow> ensures (case p of (a, b) \<Rightarrow> f a b) P"
  by (cases p) simp

lemma ensures_prod_app [wp]:
  "(\<And>a b. p = (a, b) \<Longrightarrow> ensures (f a b c) P) \<Longrightarrow> ensures ((case p of (a, b) \<Rightarrow> f a b) c) P"
  by (cases p) simp

lemma ensures_option [wp]:
  "(v = None \<Longrightarrow> ensures m P) \<Longrightarrow> (\<And>x. v = Some x \<Longrightarrow> ensures (f x) P)
    \<Longrightarrow> ensures (case v of None \<Rightarrow> m | Some x \<Rightarrow> f x) P"
  by (cases v) simp_all

lemma ensures_mono: "ensures m Q \<Longrightarrow> (\<And>x. Q x \<Longrightarrow> P x) \<Longrightarrow> ensures m P"
  by (cases m) (simp_all add: ensures_def)

lemma ensures_any: "(\<And>x. P x) \<Longrightarrow> ensures m P"
  by (cases m) (simp_all add: ensures_def)

lemma ensures_fold:
  assumes "P s" and "\<And>x s. x \<in> set xs \<Longrightarrow> P s \<Longrightarrow> ensures (f x s) P"
  shows "ensures (foldO f xs s) P"
  using assms by (intro ensuresI) (erule foldO_invariant, auto dest: ensuresD)

text \<open>Completion of an outcome, as a predicate.\<close>

definition completes :: "'e + 'a \<Rightarrow> bool" where
  "completes m \<longleftrightarrow> (case m of Inl _ \<Rightarrow> False | Inr _ \<Rightarrow> True)"

lemma completes_simps [simp]:
  "completes (Inr x)" "\<not> completes (Inl e)"
  by (simp_all add: completes_def)

lemma completesE [elim]:
  assumes "completes m" obtains x where "m = Inr x"
  using assms by (cases m) auto

section \<open>HRESULT\<close>

definition S_OK :: HRESULT where "S_OK = 0"
definition E_FAIL :: HRESULT where "E_FAIL = 0x80004005"
definition E_NOINTERFACE :: HRESULT where "E_NOINTERFACE = 0x80004002"
definition E_OUTOFMEMORY :: HRESULT where "E_OUTOFMEMORY = 0x8007000E"
definition E_INVALIDARG :: HRESULT where "E_INVALIDARG = 0x80070057"
definition CLASS_E_NOAGGREGATION :: HRESULT where "CLASS_E_NOAGGREGATION = 0x80040110"
definition META_E_BAD_SIGNATURE :: HRESULT where "META_E_BAD_SIGNATURE = 0x80131192"
definition COR_E_INVALIDPROGRAM :: HRESULT where "COR_E_INVALIDPROGRAM = 0x8013153A"
definition COR_E_BADIMAGEFORMAT :: HRESULT where "COR_E_BADIMAGEFORMAT = 0x8007000B"

text \<open>\<open>FAILED(hr)\<close> is \<open>hr < 0\<close> on the signed reading.\<close>

definition FAILED :: "HRESULT \<Rightarrow> bool" where
  "FAILED hr \<longleftrightarrow> sint hr < 0"

abbreviation SUCCEEDED :: "HRESULT \<Rightarrow> bool" where
  "SUCCEEDED hr \<equiv> \<not> FAILED hr"

lemma FAILED_simps [simp]:
  "\<not> FAILED S_OK"
  "FAILED E_FAIL"
  "FAILED E_NOINTERFACE"
  "FAILED E_OUTOFMEMORY"
  "FAILED E_INVALIDARG"
  "FAILED META_E_BAD_SIGNATURE"
  "FAILED COR_E_INVALIDPROGRAM"
  "FAILED COR_E_BADIMAGEFORMAT"
  "FAILED CLASS_E_NOAGGREGATION"
  by (simp_all add: FAILED_def S_OK_def E_FAIL_def E_NOINTERFACE_def E_OUTOFMEMORY_def
      E_INVALIDARG_def META_E_BAD_SIGNATURE_def COR_E_INVALIDPROGRAM_def
      COR_E_BADIMAGEFORMAT_def CLASS_E_NOAGGREGATION_def)

lemma HRESULT_neq [simp]:
  "S_OK \<noteq> META_E_BAD_SIGNATURE" "META_E_BAD_SIGNATURE \<noteq> S_OK"
  "S_OK \<noteq> E_FAIL" "E_FAIL \<noteq> S_OK"
  "S_OK \<noteq> COR_E_INVALIDPROGRAM" "COR_E_INVALIDPROGRAM \<noteq> S_OK"
  "S_OK \<noteq> E_INVALIDARG" "E_INVALIDARG \<noteq> S_OK"
  "S_OK \<noteq> E_NOINTERFACE" "E_NOINTERFACE \<noteq> S_OK"
  "S_OK \<noteq> CLASS_E_NOAGGREGATION" "CLASS_E_NOAGGREGATION \<noteq> S_OK"
  by (simp_all add: S_OK_def META_E_BAD_SIGNATURE_def E_FAIL_def COR_E_INVALIDPROGRAM_def
      E_INVALIDARG_def E_NOINTERFACE_def CLASS_E_NOAGGREGATION_def)

section \<open>Little-endian integers in buffers\<close>

text \<open>
  \<open>put_le n w\<close> is the \<open>n\<close> bytes a store of \<open>w\<close> writes (least significant first) and
  \<open>get_le\<close> the value a load reads from a list of bytes.
\<close>

definition put_le :: "nat \<Rightarrow> 'a::len word \<Rightarrow> BYTE list" where
  "put_le n w = map (\<lambda>k. ucast (drop_bit (8 * k) w)) [0..<n]"

fun get_le :: "BYTE list \<Rightarrow> 'a::len word" where
  "get_le [] = 0"
| "get_le (b # bs) = ucast b OR push_bit 8 (get_le bs)"

lemma length_put_le [simp]: "length (put_le n w) = n"
  by (simp add: put_le_def)

lemma nth_put_le: "k < n \<Longrightarrow> put_le n w ! k = ucast (drop_bit (8 * k) w)"
  by (simp add: put_le_def)

lemma bit_get_le:
  "bit (get_le bs :: 'a::len word) n \<longleftrightarrow>
     n < LENGTH('a) \<and> n div 8 < length bs \<and> bit (bs ! (n div 8)) (n mod 8)"
proof (induction bs arbitrary: n)
  case Nil
  then show ?case by simp
next
  case (Cons b bs)
  show ?case
  proof (cases "n < 8")
    case True
    then show ?thesis by (simp add: bit_simps)
  next
    case False
    then obtain m where n: "n = 8 + m" by (metis le_add_diff_inverse not_less)
    have "\<not> bit b (8 + m)" using bit_imp_le_length [of b "8 + m"] by auto
    moreover have "(8 + m) div 8 = Suc (m div 8)" "(8 + m) mod 8 = m mod 8" by simp_all
    ultimately show ?thesis using Cons.IH [of m] by (auto simp: n bit_simps)
  qed
qed

lemma bit_put_le:
  "k < n \<Longrightarrow> bit (put_le n w ! k) i \<longleftrightarrow> i < 8 \<and> bit w (8 * k + i)"
  by (auto simp: nth_put_le bit_simps)

lemma get_put_le [simp]:
  assumes "LENGTH('a) \<le> 8 * n"
  shows "get_le (put_le n (w :: 'a::len word)) = w"
proof (rule bit_word_eqI)
  fix i assume i: "i < LENGTH('a)"
  then have "i div 8 < n" using assms by auto
  then show "bit (get_le (put_le n w) :: 'a word) i = bit w i"
    using i by (simp add: bit_get_le bit_put_le)
qed

lemma put_get_le:
  assumes "8 * length bs \<le> LENGTH('a::len)"
  shows "put_le (length bs) (get_le bs :: 'a word) = bs"
proof (rule nth_equalityI)
  show "length (put_le (length bs) (get_le bs :: 'a word)) = length bs" by simp
next
  fix k assume "k < length (put_le (length bs) (get_le bs :: 'a word))"
  then have k: "k < length bs" by simp
  show "put_le (length bs) (get_le bs :: 'a word) ! k = bs ! k"
  proof (rule bit_word_eqI)
    fix i assume i: "i < LENGTH(8)"
    then have "8 * k + i < LENGTH('a)" using k assms by simp
    moreover have "(8 * k + i) div 8 = k" "(8 * k + i) mod 8 = i" using i by simp_all
    ultimately show "bit (put_le (length bs) (get_le bs :: 'a word) ! k) i = bit (bs ! k) i"
      using i k by (simp add: bit_put_le bit_get_le)
  qed
qed

text \<open>A load of \<open>n\<close> bytes at an offset of a buffer, undefined outside it.\<close>

definition load_le :: "nat \<Rightarrow> BYTE list \<Rightarrow> nat \<Rightarrow> ('a::len word) outcome" where
  "load_le n buf off =
     (if off + n \<le> length buf then Inr (get_le (take n (drop off buf))) else Inl OutOfBounds)"

text \<open>A store of bytes at an offset of a buffer, undefined outside it.\<close>

definition store_bytes :: "BYTE list \<Rightarrow> nat \<Rightarrow> BYTE list \<Rightarrow> BYTE list outcome" where
  "store_bytes buf off bs =
     (if off + length bs \<le> length buf
      then Inr (take off buf @ bs @ drop (off + length bs) buf) else Inl OutOfBounds)"

lemma store_bytes_Inr_iff:
  "store_bytes buf off bs = Inr buf' \<longleftrightarrow>
     off + length bs \<le> length buf \<and> take off buf @ bs @ drop (off + length bs) buf = buf'"
  by (simp add: store_bytes_def)

lemma store_bytes_InrE:
  assumes "store_bytes buf off bs = Inr buf'"
  obtains "off + length bs \<le> length buf"
    and "buf' = take off buf @ bs @ drop (off + length bs) buf"
  using assms unfolding store_bytes_Inr_iff by metis

lemma store_bytes_length:
  assumes "store_bytes buf off bs = Inr buf'"
  shows "length buf' = length buf"
  using assms by (rule store_bytes_InrE) simp

lemma load_store_le:
  assumes "store_bytes buf off (put_le n w) = Inr buf'" and "LENGTH('a) \<le> 8 * n"
  shows "load_le n buf' off = Inr (w :: 'a::len word)"
proof (rule store_bytes_InrE [OF assms(1)])
  assume le: "off + length (put_le n w) \<le> length buf"
    and buf': "buf' = take off buf @ put_le n w @ drop (off + length (put_le n w)) buf"
  have "take n (drop off buf') = put_le n w" using le by (simp add: buf')
  moreover have "off + n \<le> length buf'" using le by (simp add: buf')
  ultimately show ?thesis using assms(2) by (simp add: load_le_def)
qed

lemma store_bytes_nth_other:
  assumes "store_bytes buf off bs = Inr buf'" and "i < off \<or> off + length bs \<le> i"
  shows "buf' ! i = buf ! i"
proof (rule store_bytes_InrE [OF assms(1)])
  assume le: "off + length bs \<le> length buf"
    and buf': "buf' = take off buf @ bs @ drop (off + length bs) buf"
  show ?thesis using assms(2) le by (auto simp: buf' nth_append)
qed

lemma load_le_skip: "length xs \<le> j \<Longrightarrow> load_le n (xs @ m) j = load_le n m (j - length xs)"
  by (auto simp: load_le_def)

lemma load_le_put [simp]:
  "LENGTH('a::len) \<le> 8 * n \<Longrightarrow> load_le n (put_le n (w :: 'a word) @ m) 0 = Inr w"
  by (simp add: load_le_def)

lemma load_le_put_skip [simp]:
  "k \<le> j \<Longrightarrow> load_le n (put_le k w @ m) j = load_le n m (j - k)"
  by (simp add: load_le_skip)

lemma length_concat_const: "(\<And>x. length (f x) = k) \<Longrightarrow> length (concat (map f xs)) = k * length xs"
  by (induction xs) simp_all

section \<open>Words from natural numbers\<close>

lemma unat_of_nat_32: "k < 2 ^ 32 \<Longrightarrow> unat (word_of_nat k :: 32 word) = k"
  by (simp add: unsigned_of_nat take_bit_nat_eq_self)

lemma div_of_nat_32:
  "k < 2 ^ 32 \<Longrightarrow> d < 2 ^ 32 \<Longrightarrow> (word_of_nat k :: 32 word) div word_of_nat d = word_of_nat (k div d)"
  by (rule word_unat_eq_iff [THEN iffD2])
    (simp add: unat_div unat_of_nat_32 le_less_trans [OF div_le_dividend])

lemma byte_of_nat_32: "k < 256 \<Longrightarrow> ucast (word_of_nat k :: BYTE) = (word_of_nat k :: 32 word)"
  by (rule word_unat_eq_iff [THEN iffD2])
    (simp add: unat_of_nat_32 unsigned_ucast_eq unsigned_of_nat take_bit_nat_eq_self)

lemma unat_neq_0: "unat w = k \<Longrightarrow> 0 < k \<Longrightarrow> w \<noteq> 0"
  by auto

lemma drop_4: "drop (4 + n) (a # b # c # d # xs) = drop n xs"
  by (simp add: numeral_eq_Suc)

lemma drop_4_append: "length xs = 3 \<Longrightarrow> drop (4 + n) (a # xs @ ys) = drop n ys"
proof -
  assume "length xs = 3"
  then have "4 + n = Suc (length xs + n)" by simp
  then show ?thesis unfolding \<open>4 + n = _\<close> drop_Suc_Cons by simp
qed

section \<open>Bits of numerals\<close>

text \<open>Masks and single bits of the sources as \<open>mask\<close> and powers of two, for bitwise proofs.\<close>

lemma mask_eq_numeral:
  "(0x03 :: 'a::len word) = mask 2" "(0x07 :: 'a::len word) = mask 3"
  "(0x0F :: 'a::len word) = mask 4" "(0x1F :: 'a::len word) = mask 5"
  "(0x3F :: 'a::len word) = mask 6" "(0x7F :: 'a::len word) = mask 7"
  "(0xFF :: 'a::len word) = mask 8" "(0x3FF :: 'a::len word) = mask 10"
  "(0x3FFF :: 'a::len word) = mask 14"
  "(0xFFFF :: 'a::len word) = mask 16" "(0x00FFFFFF :: 'a::len word) = mask 24"
  "(0x03FFFFFF :: 'a::len word) = mask 26" "(0x1FFFFFFF :: 'a::len word) = mask 29"
  by (simp_all add: mask_eq_exp_minus_1)

lemma word_le_mask_iff: "x \<le> mask k \<longleftrightarrow> take_bit k x = (x :: 'a::len word)"
proof (cases "k < LENGTH('a)")
  case True
  then have "uint (mask k :: 'a word) = 2 ^ k - 1"
    by (simp only: uint_mask_eq) (simp add: mask_eq_exp_minus_1 min_def)
  then have "x \<le> mask k \<longleftrightarrow> uint x < 2 ^ k" by (auto simp: word_le_def)
  also have "\<dots> \<longleftrightarrow> take_bit k (uint x) = uint x" by (simp add: take_bit_int_eq_self_iff)
  also have "\<dots> \<longleftrightarrow> take_bit k x = x"
    using True by (simp add: word_uint_eq_iff unsigned_take_bit_eq)
  finally show ?thesis .
next
  case False
  then have "take_bit k x = x" by (intro bit_word_eqI) (auto simp: bit_simps)
  moreover have "mask k = (-1 :: 'a word)"
    using False by (intro bit_word_eqI) (auto simp: bit_simps)
  ultimately show ?thesis by simp
qed

lemma le_mask_bit:
  "x \<le> mask k \<Longrightarrow> bit (x :: 'a::len word) n \<Longrightarrow> n < k"
  by (metis bit_take_bit_iff word_le_mask_iff)

lemma bits_above: "x \<le> mask k \<Longrightarrow> k \<le> n \<Longrightarrow> \<not> bit (x :: 'a::len word) n"
  using le_mask_bit [of x k n] by auto

lemma le_mask_iff_bits:
  "x \<le> mask k \<longleftrightarrow> (\<forall>n. bit (x :: 'a::len word) n \<longrightarrow> n < k)"
  using bit_imp_le_length [of x] by (auto simp: word_le_mask_iff bit_eq_iff bit_take_bit_iff)

lemma bit_int_numerals:
  "bit (0x80 :: int) n \<longleftrightarrow> n = 7"
  "bit (0xC0 :: int) n \<longleftrightarrow> n = 7 \<or> n = 6"
  "bit (0xE0 :: int) n \<longleftrightarrow> n = 7 \<or> n = 6 \<or> n = 5"
proof -
  have 1: "(0x80 :: int) = push_bit 7 (mask 1)" "(0xC0 :: int) = push_bit 6 (mask 2)"
    "(0xE0 :: int) = push_bit 5 (mask 3)"
    by (simp_all add: mask_eq_exp_minus_1 push_bit_eq_mult)
  show "bit (0x80 :: int) n \<longleftrightarrow> n = 7"
    unfolding 1 bit_push_bit_iff bit_mask_iff by auto
  show "bit (0xC0 :: int) n \<longleftrightarrow> n = 7 \<or> n = 6"
    unfolding 1 bit_push_bit_iff bit_mask_iff by auto
  show "bit (0xE0 :: int) n \<longleftrightarrow> n = 7 \<or> n = 6 \<or> n = 5"
    unfolding 1 bit_push_bit_iff bit_mask_iff by auto
qed

text \<open>The rules that turn an equation of words into one of bits.\<close>

lemmas wbits = bit_simps bit_int_numerals mask_eq_numeral

lemma word_neq_0I: "bit (w :: 'a::len word) n \<Longrightarrow> w \<noteq> 0"
  by auto

lemma word_neqI: "bit (v :: 'a::len word) n \<noteq> bit w n \<Longrightarrow> v \<noteq> w"
  by auto

lemma bit_imp_less: "bit (w :: 'a::len word) n \<Longrightarrow> LENGTH('a) \<le> k \<Longrightarrow> n < k"
  using bit_imp_le_length [of w n] by simp

lemma bit_int_8: "bit (8 :: int) n \<longleftrightarrow> n = 3"
proof -
  have m: "(8 :: int) = push_bit 3 (mask 1)" by (simp add: mask_eq_exp_minus_1 push_bit_eq_mult)
  show ?thesis unfolding m bit_push_bit_iff bit_mask_iff by auto
qed

lemma unat_ucast_byte [simp]: "unat (ucast (b :: 8 word) :: 32 word) = unat b"
proof -
  have "unat b < 2 ^ LENGTH(8)" by (rule unsigned_less)
  then show ?thesis by (simp add: unsigned_ucast_eq take_bit_nat_eq_self)
qed

end
