(* ===== verification/CorSig.thy ===== *)
theory CorSig
  imports Prelude
begin

text \<open>
  The compressed integers, tokens and signed integers of metadata signatures
  (\<^verbatim>\<open>lib/coreclr/src/inc/cor.h\<close>), which the profiler reads and writes in
  \<^verbatim>\<open>info/parser.cpp\<close>, \<^verbatim>\<open>util/helpers.cpp\<close> and \<^verbatim>\<open>rewriter/ILRewriterHelper.cpp\<close>.

  A \<open>PCCOR_SIGNATURE\<close> is the list of the bytes from the pointer to the end of its buffer; a
  read past that end is the fault \<open>OutOfBounds\<close>. A function that takes the pointer by
  reference returns the advanced one; a function that writes to \<open>pDataOut\<close> returns the bytes
  it stores beside its return value.
\<close>

section \<open>Tokens\<close>

text \<open>Token kinds and the token macros of \<^verbatim>\<open>corhdr.h\<close>.\<close>

definition mdtTypeRef :: mdToken where "mdtTypeRef = 0x01000000"
definition mdtTypeDef :: mdToken where "mdtTypeDef = 0x02000000"
definition mdtMethodDef :: mdToken where "mdtMethodDef = 0x06000000"
definition mdtMemberRef :: mdToken where "mdtMemberRef = 0x0a000000"
definition mdtModuleRef :: mdToken where "mdtModuleRef = 0x1a000000"
definition mdtTypeSpec :: mdToken where "mdtTypeSpec = 0x1b000000"
definition mdtMethodSpec :: mdToken where "mdtMethodSpec = 0x2b000000"
definition mdtBaseType :: mdToken where "mdtBaseType = 0x72000000"
definition mdTokenNil :: mdToken where "mdTokenNil = 0"

definition TokenFromRid :: "ULONG \<Rightarrow> mdToken \<Rightarrow> mdToken" where
  "TokenFromRid rid tktype = rid OR tktype"

definition RidFromToken :: "mdToken \<Rightarrow> ULONG" where
  "RidFromToken tk = tk AND 0x00ffffff"

definition TypeFromToken :: "mdToken \<Rightarrow> ULONG" where
  "TypeFromToken tk = tk AND 0xff000000"

definition g_tkCorEncodeToken :: "mdToken list" where
  "g_tkCorEncodeToken = [mdtTypeDef, mdtTypeRef, mdtTypeSpec, mdtBaseType]"

section \<open>Reading compressed data\<close>

text \<open>\<open>*p++\<close> on a signature pointer.\<close>

fun next_byte :: "BYTE list \<Rightarrow> (BYTE \<times> BYTE list) outcome" where
  "next_byte [] = Inl OutOfBounds"
| "next_byte (b # bs) = Inr (b, bs)"

definition peek_byte :: "BYTE list \<Rightarrow> BYTE outcome" where
  "peek_byte p = (case p of [] \<Rightarrow> Inl OutOfBounds | b # _ \<Rightarrow> Inr b)"

definition byte_at :: "BYTE list \<Rightarrow> nat \<Rightarrow> BYTE outcome" where
  "byte_at p i = (if i < length p then Inr (p ! i) else Inl OutOfBounds)"

text \<open>The values the two- and four-byte forms carry: \<open>(b0 & 0x3f) << 8 | b1\<close> and
  \<open>(b0 & 0x1f) << 24 | b1 << 16 | b2 << 8 | b3\<close>.\<close>

definition medium_data :: "BYTE \<Rightarrow> BYTE \<Rightarrow> ULONG" where
  "medium_data b0 b1 = push_bit 8 (ucast b0 AND 0x3f) OR ucast b1"

definition large_data :: "BYTE \<Rightarrow> BYTE \<Rightarrow> BYTE \<Rightarrow> BYTE \<Rightarrow> ULONG" where
  "large_data b0 b1 b2 b3 =
     push_bit 24 (ucast b0 AND 0x1f) OR push_bit 16 (ucast b1) OR push_bit 8 (ucast b2) OR ucast b3"

definition CorSigUncompressedDataSize :: "BYTE list \<Rightarrow> ULONG outcome" where
  "CorSigUncompressedDataSize p =
     bindO (peek_byte p) (\<lambda>b.
       if b AND 0x80 = 0 then Inr 1
       else if b AND 0xC0 = 0x80 then Inr 2
       else Inr 4)"

definition CorSigUncompressBigData :: "BYTE list \<Rightarrow> (ULONG \<times> BYTE list) outcome" where
  "CorSigUncompressBigData p =
     bindO (next_byte p) (\<lambda>(b0, p1).
       if b0 AND 0xC0 = 0x80 then
         bindO (next_byte p1) (\<lambda>(b1, p2).
           Inr (medium_data b0 b1, p2))
       else
         bindO (next_byte p1) (\<lambda>(b1, p2).
         bindO (next_byte p2) (\<lambda>(b2, p3).
         bindO (next_byte p3) (\<lambda>(b3, p4).
           Inr (large_data b0 b1 b2 b3, p4)))))"

text \<open>The overload that advances its pointer.\<close>

definition CorSigUncompressDataRef :: "BYTE list \<Rightarrow> (ULONG \<times> BYTE list) outcome" where
  "CorSigUncompressDataRef p =
     bindO (peek_byte p) (\<lambda>b.
       if b AND 0x80 = 0 then bindO (next_byte p) (\<lambda>(b0, p1). Inr (ucast b0, p1))
       else CorSigUncompressBigData p)"

text \<open>The overload with a length: (HRESULT, \<open>*pDataOut\<close>, \<open>*pDataLen\<close>).\<close>

definition CorSigUncompressDataLen ::
  "BYTE list \<Rightarrow> DWORD \<Rightarrow> (HRESULT \<times> ULONG \<times> ULONG) outcome" where
  "CorSigUncompressDataLen p len =
     bindO (peek_byte p) (\<lambda>b0.
       if b0 AND 0x80 = 0 then
         (if len < 1 then Inr (META_E_BAD_SIGNATURE, 0, 0)
          else Inr (S_OK, ucast b0, 1))
       else if b0 AND 0xC0 = 0x80 then
         (if len < 2 then Inr (META_E_BAD_SIGNATURE, 0, 0)
          else bindO (byte_at p 1) (\<lambda>b1.
            Inr (S_OK, medium_data b0 b1, 2)))
       else if b0 AND 0xE0 = 0xC0 then
         (if len < 4 then Inr (META_E_BAD_SIGNATURE, 0, 0)
          else bindO (byte_at p 1) (\<lambda>b1.
               bindO (byte_at p 2) (\<lambda>b2.
               bindO (byte_at p 3) (\<lambda>b3.
            Inr (S_OK, large_data b0 b1 b2 b3, 4)))))
       else Inr (META_E_BAD_SIGNATURE, 0, 0))"

text \<open>The overload without a length: (return value, \<open>*pDataOut\<close>); it returns -1 on bad data.\<close>

definition CorSigUncompressData :: "BYTE list \<Rightarrow> (ULONG \<times> ULONG) outcome" where
  "CorSigUncompressData p =
     bindO (CorSigUncompressDataLen p 0xff) (\<lambda>(hr, data, size).
       if FAILED hr then Inr (-1, 0) else Inr (size, data))"

section \<open>Reading compressed tokens\<close>

definition token_of_data :: "ULONG \<Rightarrow> mdToken" where
  "token_of_data d = TokenFromRid (drop_bit 2 d) (g_tkCorEncodeToken ! unat (d AND 0x3))"

definition CorSigUncompressTokenRef :: "BYTE list \<Rightarrow> (mdToken \<times> BYTE list) outcome" where
  "CorSigUncompressTokenRef p =
     bindO (CorSigUncompressDataRef p) (\<lambda>(tk, p'). Inr (token_of_data tk, p'))"

text \<open>(return value, \<open>*pToken\<close>).\<close>

definition CorSigUncompressToken :: "BYTE list \<Rightarrow> (ULONG \<times> mdToken) outcome" where
  "CorSigUncompressToken p =
     bindO (CorSigUncompressData p) (\<lambda>(cb, tk). Inr (cb, token_of_data tk))"

text \<open>(HRESULT, \<open>*pToken\<close>, \<open>*dwTokenLength\<close>).\<close>

definition CorSigUncompressTokenLen ::
  "BYTE list \<Rightarrow> DWORD \<Rightarrow> (HRESULT \<times> mdToken \<times> DWORD) outcome" where
  "CorSigUncompressTokenLen p len =
     bindO (CorSigUncompressDataLen p len) (\<lambda>(hr, tk, n).
       if SUCCEEDED hr then Inr (hr, token_of_data tk, n) else Inr (hr, mdTokenNil, n))"

section \<open>Calling conventions, signed integers and element types\<close>

definition CorSigUncompressCallingConvRef :: "BYTE list \<Rightarrow> (ULONG \<times> BYTE list) outcome" where
  "CorSigUncompressCallingConvRef p = bindO (next_byte p) (\<lambda>(b, p'). Inr (ucast b, p'))"

definition CorSigUncompressCallingConv ::
  "BYTE list \<Rightarrow> DWORD \<Rightarrow> (HRESULT \<times> ULONG) outcome" where
  "CorSigUncompressCallingConv p len =
     (if 0 < len then bindO (peek_byte p) (\<lambda>b. Inr (S_OK, ucast b))
      else Inr (META_E_BAD_SIGNATURE, 0))"

definition SIGN_MASK_ONEBYTE :: ULONG where "SIGN_MASK_ONEBYTE = 0xffffffc0"
definition SIGN_MASK_TWOBYTE :: ULONG where "SIGN_MASK_TWOBYTE = 0xffffe000"
definition SIGN_MASK_FOURBYTE :: ULONG where "SIGN_MASK_FOURBYTE = 0xf0000000"

text \<open>(return value, \<open>*pInt\<close> unless the return value is -1).\<close>

definition CorSigUncompressSignedInt :: "BYTE list \<Rightarrow> (ULONG \<times> INT32 option) outcome" where
  "CorSigUncompressSignedInt p =
     bindO (CorSigUncompressData p) (\<lambda>(cb, d).
       if cb = -1 then Inr (cb, None)
       else
         let ulSigned = d AND 0x1; iData = drop_bit 1 d in
         if ulSigned \<noteq> 0 then
           (if cb = 1 then Inr (cb, Some (iData OR SIGN_MASK_ONEBYTE))
            else if cb = 2 then Inr (cb, Some (iData OR SIGN_MASK_TWOBYTE))
            else Inr (cb, Some (iData OR SIGN_MASK_FOURBYTE)))
         else Inr (cb, Some iData))"

definition CorSigUncompressElementTypeRef :: "BYTE list \<Rightarrow> (BYTE \<times> BYTE list) outcome" where
  "CorSigUncompressElementTypeRef p = next_byte p"

definition CorSigUncompressElementType :: "BYTE list \<Rightarrow> (ULONG \<times> BYTE) outcome" where
  "CorSigUncompressElementType p = bindO (peek_byte p) (\<lambda>b. Inr (1, b AND 0x7f))"

section \<open>Writing compressed data\<close>

text \<open>(return value, bytes stored at \<open>pDataOut\<close>).\<close>

definition CorSigCompressData :: "ULONG \<Rightarrow> ULONG \<times> BYTE list" where
  "CorSigCompressData iLen =
     (if iLen \<le> 0x7F then (1, [ucast iLen])
      else if iLen \<le> 0x3FFF then
        (2, [ucast (drop_bit 8 iLen OR 0x80), ucast (iLen AND 0xff)])
      else if iLen \<le> 0x1FFFFFFF then
        (4, [ucast (drop_bit 24 iLen OR 0xC0), ucast (drop_bit 16 iLen AND 0xff),
             ucast (drop_bit 8 iLen AND 0xff), ucast (iLen AND 0xff)])
      else (-1, []))"

definition CorSigCompressToken :: "mdToken \<Rightarrow> ULONG \<times> BYTE list" where
  "CorSigCompressToken tk =
     (let rid = RidFromToken tk; ulTyp = TypeFromToken tk in
      if rid > 0x3FFFFFF then (-1, [])
      else
        let rid = push_bit 2 rid;
            rid = (if ulTyp = g_tkCorEncodeToken ! 1 then rid OR 0x1
                   else if ulTyp = g_tkCorEncodeToken ! 2 then rid OR 0x2
                   else if ulTyp = g_tkCorEncodeToken ! 3 then rid OR 0x3
                   else rid)
        in CorSigCompressData rid)"

definition CorSigCompressSignedInt :: "INT32 \<Rightarrow> ULONG \<times> BYTE list" where
  "CorSigCompressSignedInt iData =
     (let isSigned = (if sint iData < 0 then 1 else 0) in
      if iData AND SIGN_MASK_ONEBYTE = 0 \<or> iData AND SIGN_MASK_ONEBYTE = SIGN_MASK_ONEBYTE then
        let d = push_bit 1 (iData AND NOT SIGN_MASK_ONEBYTE) OR isSigned in
        (1, [ucast d])
      else if iData AND SIGN_MASK_TWOBYTE = 0 \<or> iData AND SIGN_MASK_TWOBYTE = SIGN_MASK_TWOBYTE
      then
        let d = push_bit 1 (iData AND NOT SIGN_MASK_TWOBYTE) OR isSigned in
        (2, [ucast (drop_bit 8 d OR 0x80), ucast (d AND 0xff)])
      else if iData AND SIGN_MASK_FOURBYTE = 0 \<or>
              iData AND SIGN_MASK_FOURBYTE = SIGN_MASK_FOURBYTE then
        let d = push_bit 1 (iData AND NOT SIGN_MASK_FOURBYTE) OR isSigned in
        (4, [ucast (drop_bit 24 d OR 0xC0), ucast (drop_bit 16 d AND 0xff),
             ucast (drop_bit 8 d AND 0xff), ucast (d AND 0xff)])
      else (-1, []))"

definition CorSigCompressElementType :: "BYTE \<Rightarrow> ULONG \<times> BYTE list" where
  "CorSigCompressElementType et = (1, [et])"

definition CorSigCompressPointer :: "64 word \<Rightarrow> ULONG \<times> BYTE list" where
  "CorSigCompressPointer pv = (8, put_le 8 pv)"

definition CorSigUncompressPointer :: "BYTE list \<Rightarrow> (ULONG \<times> 64 word) outcome" where
  "CorSigUncompressPointer p = bindO (load_le 8 p 0) (\<lambda>v. Inr (8, v))"

section \<open>Properties\<close>

lemma byte1_bytes:
  fixes x :: ULONG
  assumes "x \<le> 0x7F"
  shows "(ucast x :: BYTE) AND 0x80 = 0" and "ucast (ucast x :: BYTE) = x"
proof -
  note above = bits_above [OF assms [unfolded mask_eq_numeral]]
  show "(ucast x :: BYTE) AND 0x80 = 0"
    by (intro bit_word_eqI) (auto simp: wbits above)
  have "x \<le> mask 8" using assms unfolding mask_eq_numeral
    by (auto simp: le_mask_iff_bits dest: above intro: ccontr)
  then show "ucast (ucast x :: BYTE) = x"
    by (simp add: word_le_mask_iff unsigned_ucast_eq)
qed

lemma byte2_bytes:
  fixes x :: ULONG and b0 :: BYTE
  assumes "x \<le> 0x3FFF"
  defines "b0 \<equiv> ucast (drop_bit 8 x OR 0x80)"
  shows "b0 AND 0x80 \<noteq> 0" and "b0 AND 0xC0 = 0x80"
    and "medium_data b0 (ucast (x AND 0xff)) = x"
proof -
  note above = bits_above [OF assms(1) [unfolded mask_eq_numeral]]
  show "b0 AND 0x80 \<noteq> 0"
    unfolding b0_def by (rule word_neq_0I [of _ 7]) (simp add: wbits)
  show "b0 AND 0xC0 = 0x80"
    unfolding b0_def by (intro bit_word_eqI) (auto simp: wbits above not_less intro: ccontr)
  show "medium_data b0 (ucast (x AND 0xff)) = x"
    unfolding b0_def medium_data_def by (intro bit_word_eqI) (auto simp: wbits above not_less intro: ccontr)
qed

lemma byte4_bytes:
  fixes x :: ULONG and b0 :: BYTE
  assumes "x \<le> 0x1FFFFFFF"
  defines "b0 \<equiv> ucast (drop_bit 24 x OR 0xC0)"
  shows "b0 AND 0x80 \<noteq> 0" and "b0 AND 0xC0 \<noteq> 0x80" and "b0 AND 0xE0 = 0xC0"
    and "large_data b0 (ucast (drop_bit 16 x AND 0xff)) (ucast (drop_bit 8 x AND 0xff))
      (ucast (x AND 0xff)) = x"
proof -
  note above = bits_above [OF assms(1) [unfolded mask_eq_numeral]]
  show "b0 AND 0x80 \<noteq> 0"
    unfolding b0_def by (rule word_neq_0I [of _ 7]) (simp add: wbits)
  show "b0 AND 0xC0 \<noteq> 0x80"
    unfolding b0_def by (rule word_neqI [of _ 6]) (simp add: wbits)
  show "b0 AND 0xE0 = 0xC0"
    unfolding b0_def by (intro bit_word_eqI) (auto simp: wbits above not_less intro: ccontr)
  show "large_data b0 (ucast (drop_bit 16 x AND 0xff)) (ucast (drop_bit 8 x AND 0xff))
      (ucast (x AND 0xff)) = x"
    unfolding b0_def large_data_def by (intro bit_word_eqI) (auto simp: wbits above not_less intro: ccontr)
qed

lemma CorSigUncompressDataLen_1:
  assumes "x \<le> 0x7F" and "1 \<le> len"
  shows "CorSigUncompressDataLen (ucast x # rest) len = Inr (S_OK, x, 1)"
proof -
  have "\<not> len < 1" using assms(2) by (simp only: not_less)
  then show ?thesis
    by (simp only: CorSigUncompressDataLen_def peek_byte_def byte1_bytes [OF assms(1)]
        list.case bindO_simps if_True if_False simp_thms)
qed

lemma CorSigUncompressDataLen_2:
  assumes "x \<le> 0x3FFF" and "2 \<le> len"
  shows "CorSigUncompressDataLen
     (ucast (drop_bit 8 x OR 0x80) # ucast (x AND 0xff) # rest) len = Inr (S_OK, x, 2)"
  using assms(2)
  by (simp add: CorSigUncompressDataLen_def peek_byte_def byte_at_def byte2_bytes [OF assms(1)]
      not_less [symmetric])

lemma CorSigUncompressDataLen_4:
  assumes "x \<le> 0x1FFFFFFF" and "4 \<le> len"
  shows "CorSigUncompressDataLen
     (ucast (drop_bit 24 x OR 0xC0) # ucast (drop_bit 16 x AND 0xff) #
      ucast (drop_bit 8 x AND 0xff) # ucast (x AND 0xff) # rest) len = Inr (S_OK, x, 4)"
  using assms(2)
  by (simp add: CorSigUncompressDataLen_def peek_byte_def byte_at_def byte4_bytes [OF assms(1)]
      not_less [symmetric])

lemma signed_pack:
  fixes x :: INT32
  assumes k: "k < 31" and x: "x AND NOT (mask k) = 0 \<or> x AND NOT (mask k) = NOT (mask k)"
  defines "d \<equiv> push_bit 1 (x AND mask k) OR (if sint x < 0 then 1 else 0)"
  shows "d \<le> mask (Suc k)"
    and "(if d AND 1 \<noteq> 0 then drop_bit 1 d OR NOT (mask k) else drop_bit 1 d) = x"
proof -
  have sgn: "sint x < 0 \<longleftrightarrow> bit x 31"
    using bit_last_iff [of x] by simp
  have high: "bit x n = bit x 31" if "k \<le> n" "n < 32" for n
  proof -
    have "bit (x AND NOT (mask k)) n = bit x n" "bit (x AND NOT (mask k)) 31 = bit x 31"
      using that k by (auto simp: bit_simps)
    moreover have "bit (x AND NOT (mask k)) n = bit (x AND NOT (mask k)) 31"
      using x
    proof
      assume "x AND NOT (mask k) = 0"
      then show ?thesis by simp
    next
      assume "x AND NOT (mask k) = NOT (mask k)"
      then show ?thesis using that k by (simp add: bit_simps)
    qed
    ultimately show ?thesis by simp
  qed
  have dbit: "bit d n \<longleftrightarrow> (if n = 0 then bit x 31 else n \<le> k \<and> bit x (n - 1))" for n
  proof -
    have "bit d n \<longleftrightarrow> (1 \<le> n \<and> n < 32 \<and> bit x (n - 1) \<and> n - 1 < k) \<or> (n = 0 \<and> sint x < 0)"
      unfolding d_def bit_or_iff bit_push_bit_iff bit_and_iff bit_mask_iff
      by (auto simp: bit_simps)
    then show ?thesis using sgn k by (cases n) auto
  qed
  have d0: "d AND 1 \<noteq> 0 \<longleftrightarrow> bit x 31"
  proof -
    have "d AND 1 = (if bit d 0 then 1 else 0)"
      by (simp add: and_one_eq one_and_eq bit_0 mod_2_eq_odd)
    then show ?thesis by (simp add: dbit)
  qed
  show "d \<le> mask (Suc k)"
    unfolding le_mask_iff_bits by (simp add: dbit)
  show "(if d AND 1 \<noteq> 0 then drop_bit 1 d OR NOT (mask k) else drop_bit 1 d) = x"
  proof (rule bit_word_eqI)
    fix n assume n: "n < LENGTH(32)"
    show "bit (if d AND 1 \<noteq> 0 then drop_bit 1 d OR NOT (mask k) else drop_bit 1 d) n = bit x n"
      using n high [of n] d0 by (cases "n < k") (auto simp: bit_simps dbit)
  qed
qed

lemma le_0xff [simp]: "1 \<le> (0xff :: DWORD)" "2 \<le> (0xff :: DWORD)" "4 \<le> (0xff :: DWORD)"
  by simp_all

lemma CorSigUncompressDataLen_compress:
  assumes "CorSigCompressData x = (n, bs)" and "n \<noteq> -1" and "n \<le> len"
  shows "CorSigUncompressDataLen (bs @ rest) len = Inr (S_OK, x, n)"
proof -
  consider "x \<le> 0x7F" | "\<not> x \<le> 0x7F" "x \<le> 0x3FFF"
    | "\<not> x \<le> 0x7F" "\<not> x \<le> 0x3FFF" "x \<le> 0x1FFFFFFF" | "\<not> x \<le> 0x1FFFFFFF"
    by blast
  then show ?thesis
  proof cases
    case 1
    then have "n = 1" "bs = [ucast x]" using assms(1) by (simp_all add: CorSigCompressData_def)
    then show ?thesis using CorSigUncompressDataLen_1 [OF 1] assms(3) by simp
  next
    case 2
    then have "n = 2" "bs = [ucast (drop_bit 8 x OR 0x80), ucast (x AND 0xff)]"
      using assms(1) by (simp_all only: CorSigCompressData_def if_True if_False prod.inject)
    then show ?thesis using CorSigUncompressDataLen_2 [OF 2(2)] assms(3) by simp
  next
    case 3
    then have "n = 4" "bs = [ucast (drop_bit 24 x OR 0xC0), ucast (drop_bit 16 x AND 0xff),
             ucast (drop_bit 8 x AND 0xff), ucast (x AND 0xff)]"
      using assms(1) by (simp_all only: CorSigCompressData_def if_True if_False prod.inject)
    then show ?thesis using CorSigUncompressDataLen_4 [OF 3(3)] assms(3) by simp
  next
    case 4
    have "\<not> x \<le> 0x7F" "\<not> x \<le> 0x3FFF"
      using 4 by (auto dest: order_trans [where z = "0x1FFFFFFF :: ULONG"])
    then show ?thesis using 4 assms(1,2) by (simp add: CorSigCompressData_def)
  qed
qed

lemma CorSigCompressData_length:
  assumes "CorSigCompressData x = (n, bs)" and "x \<le> 0x1FFFFFFF"
  shows "n \<noteq> -1" and "n \<le> 4" and "unat n = length bs" and "1 \<le> n"
  using assms by (auto simp: CorSigCompressData_def split: if_splits)

lemma CorSigCompressData_fails:
  "fst (CorSigCompressData x) = -1 \<longleftrightarrow> 0x1FFFFFFF < x"
proof -
  have "\<not> x \<le> 0x7F" "\<not> x \<le> 0x3FFF" if "0x1FFFFFFF < x"
    using that by (auto dest: order_trans [where z = "0x1FFFFFFF :: ULONG"])
  then show ?thesis by (auto simp: CorSigCompressData_def not_le not_less)
qed

lemma CorSigData_reads:
  assumes "x \<le> 0x1FFFFFFF"
  shows "case CorSigCompressData x of (n, bs) \<Rightarrow>
     unat n = length bs \<and> CorSigUncompressData (bs @ rest) = Inr (n, x)"
proof -
  obtain n bs where c: "CorSigCompressData x = (n, bs)" by fastforce
  note len = CorSigCompressData_length [OF c assms]
  have "n \<le> 0xff" using len(2) by (rule order.trans) simp
  then show ?thesis
    using CorSigUncompressDataLen_compress [OF c len(1)] len(3)
    by (simp add: c CorSigUncompressData_def)
qed

text \<open>C21: every value up to \<open>0x1FFFFFFF\<close> that \<open>CorSigCompressData\<close> writes is read back by
  \<open>CorSigUncompressData\<close>, whatever follows it, and both report the number of bytes written.\<close>

theorem CorSigData_roundtrip:
  assumes "x \<le> 0x1FFFFFFF"
  shows "case CorSigCompressData x of (n, bs) \<Rightarrow>
     unat n = length bs \<and> CorSigUncompressData (bs @ rest) = Inr (n, x)"
  using assms by (rule CorSigData_reads)

theorem CorSigData_roundtrip_witness:
  "CorSigCompressData 0x80 = (2, [0x80, 0x80]) \<and>
     CorSigUncompressData [0x80, 0x80, 7] = Inr (2, 0x80)"
proof -
  have c: "CorSigCompressData 0x80 = (2, [0x80, 0x80])" by (simp add: CorSigCompressData_def)
  show ?thesis using CorSigData_roundtrip [of "0x80" "[7]"] by (simp add: c)
qed

text \<open>Every value the reader accepts is in range, and it takes 1, 2 or 4 bytes.\<close>

lemma medium_data_bound: "medium_data b0 b1 \<le> 0x3FFF"
  unfolding mask_eq_numeral le_mask_iff_bits medium_data_def
  by (auto simp: wbits dest: bit_imp_le_length)

lemma large_data_bound: "large_data b0 b1 b2 b3 \<le> 0x1FFFFFFF"
  unfolding mask_eq_numeral le_mask_iff_bits large_data_def
  by (auto simp: wbits dest: bit_imp_le_length)

lemma small_data_bound:
  assumes "b AND 0x80 = (0 :: BYTE)" shows "ucast b \<le> (0x7F :: ULONG)"
proof -
  have "\<not> bit b 7"
  proof
    assume "bit b 7"
    then have "bit (b AND 0x80) 7" by (simp add: wbits)
    then show False using assms by simp
  qed
  then show ?thesis unfolding mask_eq_numeral le_mask_iff_bits
    using bit_imp_le_length [of b] by (auto simp: wbits less_Suc_eq eval_nat_numeral)
qed

section \<open>Tokens\<close>

lemma mdt_defs:
  "mdtTypeDef = 0x02000000" "mdtTypeRef = 0x01000000" "mdtTypeSpec = 0x1b000000"
  "mdtBaseType = 0x72000000"
  by (simp_all add: mdtTypeDef_def mdtTypeRef_def mdtTypeSpec_def mdtBaseType_def)

lemma not_mask24: "(0xff000000 :: mdToken) = NOT (mask 24)"
  by (simp add: mask_eq_exp_minus_1)

lemma rid_le: "RidFromToken tk \<le> mask 24"
  unfolding RidFromToken_def mask_eq_numeral le_mask_iff_bits by (auto simp: bit_simps)

lemma rid_type: "RidFromToken tk OR TypeFromToken tk = tk"
  unfolding RidFromToken_def TypeFromToken_def not_mask24 mask_eq_numeral
  by (intro bit_word_eqI) (auto simp: bit_simps)

lemma tagged_rid:
  fixes r j :: ULONG
  assumes "r \<le> mask 24" and "j \<le> mask 2"
  shows "push_bit 2 r OR j \<le> 0x1FFFFFFF" and "drop_bit 2 (push_bit 2 r OR j) = r"
    and "(push_bit 2 r OR j) AND 0x3 = j"
proof -
  note r = bits_above [OF assms(1)] and j = bits_above [OF assms(2)]
  have b: "bit (push_bit 2 r OR j) n \<longleftrightarrow> (if n < 2 then bit j n else n < 26 \<and> bit r (n - 2))" for n
    unfolding bit_or_iff bit_push_bit_iff using r [of "n - 2"] j [of n] bit_imp_le_length [of r "n - 2"]
    by (cases "n < 26") (auto simp: not_less)
  show "push_bit 2 r OR j \<le> 0x1FFFFFFF"
    unfolding mask_eq_numeral le_mask_iff_bits b by auto
  show "drop_bit 2 (push_bit 2 r OR j) = r"
  proof (rule bit_word_eqI)
    fix n
    show "bit (drop_bit 2 (push_bit 2 r OR j)) n = bit r n"
      unfolding bit_drop_bit_eq o_apply b using r [of n] by (cases "n < 24") auto
  qed
  show "(push_bit 2 r OR j) AND 0x3 = j"
    unfolding mask_eq_numeral using j
    by (intro bit_word_eqI) (auto simp: bit_and_iff bit_mask_iff b not_less intro: ccontr)
qed

lemma token_of_data_tagged:
  assumes "r \<le> mask 24" and "j \<le> mask 2"
  shows "token_of_data (push_bit 2 r OR j) = r OR g_tkCorEncodeToken ! unat j"
  by (simp only: token_of_data_def TokenFromRid_def tagged_rid [OF assms])

text \<open>The two-bit tag of a token's kind.\<close>

definition token_tag :: "mdToken \<Rightarrow> ULONG" where
  "token_tag tk =
     (if TypeFromToken tk = mdtTypeRef then 1 else if TypeFromToken tk = mdtTypeSpec then 2
      else if TypeFromToken tk = mdtBaseType then 3 else 0)"

lemma token_tag_le: "token_tag tk \<le> mask 2"
  by (simp add: token_tag_def mask_eq_exp_minus_1)

lemma CorSigCompressToken_eq:
  "CorSigCompressToken tk = CorSigCompressData (push_bit 2 (RidFromToken tk) OR token_tag tk)"
proof -
  have "RidFromToken tk \<le> 0x3FFFFFF"
    using rid_le [of tk] by (rule order_trans) (simp add: mask_eq_exp_minus_1)
  then have "\<not> RidFromToken tk > 0x3FFFFFF" by (simp only: not_less)
  then show ?thesis
    by (simp add: CorSigCompressToken_def Let_def g_tkCorEncodeToken_def token_tag_def mdt_defs)
qed

lemma token_code_le: "push_bit 2 (RidFromToken tk) OR token_tag tk \<le> 0x1FFFFFFF"
  by (rule tagged_rid(1) [OF rid_le token_tag_le])

lemma token_of_code:
  assumes "TypeFromToken tk \<in> set g_tkCorEncodeToken"
  shows "token_of_data (push_bit 2 (RidFromToken tk) OR token_tag tk) = tk"
proof -
  have "g_tkCorEncodeToken ! unat (token_tag tk) = TypeFromToken tk"
    using assms by (auto simp: token_tag_def g_tkCorEncodeToken_def mdt_defs)
  then show ?thesis by (simp only: token_of_data_tagged [OF rid_le token_tag_le] rid_type)
qed

lemma CorSigToken_reads:
  assumes "TypeFromToken tk \<in> set g_tkCorEncodeToken"
  shows "case CorSigCompressToken tk of (n, bs) \<Rightarrow>
     unat n = length bs \<and> CorSigUncompressToken (bs @ rest) = Inr (n, tk)"
  using CorSigData_reads [OF token_code_le, of rest tk] token_of_code [OF assms]
  by (auto simp: CorSigCompressToken_eq CorSigUncompressToken_def split: prod.splits)

lemma CorSigToken_length:
  assumes "CorSigCompressToken tk = (n, bs)"
  shows "n \<noteq> -1" and "n \<le> 4" and "unat n = length bs" and "1 \<le> n"
  using assms CorSigCompressData_length [OF _ token_code_le] by (simp_all add: CorSigCompressToken_eq)

lemma CorSigTokenLen_reads:
  assumes "TypeFromToken tk \<in> set g_tkCorEncodeToken" and "CorSigCompressToken tk = (n, bs)" "n \<le> len"
  shows "CorSigUncompressTokenLen (bs @ rest) len = Inr (S_OK, tk, n)"
  using CorSigUncompressDataLen_compress [of _ n bs len rest] assms(2,3) CorSigToken_length(1) [OF assms(2)]
    token_of_code [OF assms(1)]
  by (simp add: CorSigCompressToken_eq CorSigUncompressTokenLen_def)

text \<open>Every token of one of the four kinds of \<open>g_tkCorEncodeToken\<close> survives
  \<open>CorSigCompressToken\<close> followed by \<open>CorSigUncompressToken\<close>, with the length written.\<close>

theorem CorSigToken_roundtrip:
  assumes "TypeFromToken tk \<in> set g_tkCorEncodeToken"
  shows "case CorSigCompressToken tk of (n, bs) \<Rightarrow>
     unat n = length bs \<and> CorSigUncompressToken (bs @ rest) = Inr (n, tk)"
  using assms by (rule CorSigToken_reads)

theorem CorSigToken_roundtrip_witness:
  "CorSigCompressToken 0x01000012 = (1, [0x49]) \<and>
     CorSigUncompressToken [0x49, 9] = Inr (1, 0x01000012)"
proof -
  have c: "CorSigCompressToken 0x01000012 = (1, [0x49])" by code_simp
  have "TypeFromToken 0x01000012 \<in> set g_tkCorEncodeToken" by code_simp
  from CorSigToken_roundtrip [OF this, of "[9]"] show ?thesis by (simp add: c)
qed

section \<open>Signed integers\<close>

lemma SIGN_MASK_not_mask:
  "SIGN_MASK_ONEBYTE = NOT (mask 6)" "SIGN_MASK_TWOBYTE = NOT (mask 13)"
  "SIGN_MASK_FOURBYTE = NOT (mask 28)"
  by (simp_all add: SIGN_MASK_ONEBYTE_def SIGN_MASK_TWOBYTE_def SIGN_MASK_FOURBYTE_def
      mask_eq_exp_minus_1)

text \<open>An integer fits \<open>k\<close> bits and a sign exactly when its high bits all equal its sign.\<close>

definition fits_signed :: "nat \<Rightarrow> INT32 \<Rightarrow> bool" where
  "fits_signed k x \<longleftrightarrow> x AND NOT (mask k) = 0 \<or> x AND NOT (mask k) = NOT (mask k)"

definition signed_code :: "nat \<Rightarrow> INT32 \<Rightarrow> ULONG" where
  "signed_code k x = push_bit 1 (x AND mask k) OR (if sint x < 0 then 1 else 0)"

lemma CorSigCompressSignedInt_eq:
  "CorSigCompressSignedInt x =
     (if fits_signed 6 x then (1, [ucast (signed_code 6 x)])
      else if fits_signed 13 x then
        (2, [ucast (drop_bit 8 (signed_code 13 x) OR 0x80), ucast (signed_code 13 x AND 0xff)])
      else if fits_signed 28 x then
        (4, [ucast (drop_bit 24 (signed_code 28 x) OR 0xC0),
             ucast (drop_bit 16 (signed_code 28 x) AND 0xff),
             ucast (drop_bit 8 (signed_code 28 x) AND 0xff), ucast (signed_code 28 x AND 0xff)])
      else (-1, []))"
  by (simp only: CorSigCompressSignedInt_def SIGN_MASK_not_mask fits_signed_def signed_code_def
      Let_def bit.double_compl)

text \<open>C22: every 32-bit integer whose sign extends from bit 28 survives
  \<open>CorSigCompressSignedInt\<close> followed by \<open>CorSigUncompressSignedInt\<close>.\<close>

theorem CorSigSignedInt_roundtrip:
  assumes "fits_signed 28 x"
  shows "case CorSigCompressSignedInt x of (n, bs) \<Rightarrow>
     unat n = length bs \<and> CorSigUncompressSignedInt (bs @ rest) = Inr (n, Some x)"
proof -
  have code: "signed_code k x \<le> mask (Suc k)"
    "(if signed_code k x AND 1 \<noteq> 0 then drop_bit 1 (signed_code k x) OR NOT (mask k)
      else drop_bit 1 (signed_code k x)) = x"
    if "fits_signed k x" "k < 31" for k
    using signed_pack [OF that(2)] that(1) by (simp_all only: fits_signed_def signed_code_def)
  have ff: "(1::ULONG) \<noteq> -1" "(2::ULONG) \<noteq> -1" "(4::ULONG) \<noteq> -1" by simp_all
  consider "fits_signed 6 x" | "\<not> fits_signed 6 x" "fits_signed 13 x"
    | "\<not> fits_signed 6 x" "\<not> fits_signed 13 x" by blast
  then show ?thesis
  proof cases
    case 1
    note c = code [OF 1] 
    from c(1) have le: "signed_code 6 x \<le> 0x7F" by (simp add: mask_eq_exp_minus_1)
    show ?thesis using c(2) CorSigUncompressDataLen_1 [OF le le_0xff(1)] 1
      by (simp add: CorSigCompressSignedInt_eq CorSigUncompressSignedInt_def
          CorSigUncompressData_def SIGN_MASK_not_mask Let_def split: if_splits)
  next
    case 2
    note c = code [OF 2(2)] 
    from c(1) have le: "signed_code 13 x \<le> 0x3FFF" by (simp add: mask_eq_exp_minus_1)
    show ?thesis using c(2) CorSigUncompressDataLen_2 [OF le le_0xff(2)] 2
      by (simp add: CorSigCompressSignedInt_eq CorSigUncompressSignedInt_def
          CorSigUncompressData_def SIGN_MASK_not_mask Let_def split: if_splits)
  next
    case 3
    note c = code [OF assms] 
    from c(1) have le: "signed_code 28 x \<le> 0x1FFFFFFF" by (simp add: mask_eq_exp_minus_1)
    show ?thesis using c(2) CorSigUncompressDataLen_4 [OF le le_0xff(3)] 3 assms
      by (simp add: CorSigCompressSignedInt_eq CorSigUncompressSignedInt_def
          CorSigUncompressData_def SIGN_MASK_not_mask Let_def split: if_splits)
  qed
qed

theorem CorSigSignedInt_roundtrip_witness:
  "CorSigCompressSignedInt (- 8192) = (2, [0x80, 1]) \<and>
     CorSigUncompressSignedInt [0x80, 1] = Inr (2, Some (- 8192))"
proof -
  have c: "CorSigCompressSignedInt (- 8192) = (2, [0x80, 1])" by code_simp
  have "fits_signed 28 (- 8192)" by code_simp
  from CorSigSignedInt_roundtrip [OF this, of "[]"] show ?thesis by (simp add: c)
qed

section \<open>The overloads against each other\<close>

lemma CorSigUncompressDataLen_OK_cases:
  assumes "CorSigUncompressDataLen p len = Inr (S_OK, d, n)"
  obtains (small) b r where "p = b # r" "b AND 0x80 = 0" "\<not> len < 1" "d = ucast b" "n = 1"
  | (medium) b b1 r where "p = b # b1 # r" "b AND 0x80 \<noteq> 0" "b AND 0xC0 = 0x80" "\<not> len < 2"
      "d = medium_data b b1" "n = 2"
  | (large) b b1 b2 b3 r where "p = b # b1 # b2 # b3 # r" "b AND 0x80 \<noteq> 0" "b AND 0xC0 \<noteq> 0x80"
      "b AND 0xE0 = 0xC0" "\<not> len < 4" "d = large_data b b1 b2 b3" "n = 4"
proof (cases p)
  case Nil
  then show ?thesis using assms by (simp add: CorSigUncompressDataLen_def peek_byte_def)
next
  case (Cons b r)
  consider "b AND 0x80 = 0" | "b AND 0x80 \<noteq> 0" "b AND 0xC0 = 0x80"
    | "b AND 0x80 \<noteq> 0" "b AND 0xC0 \<noteq> 0x80" "b AND 0xE0 = 0xC0"
    | "b AND 0x80 \<noteq> 0" "b AND 0xC0 \<noteq> 0x80" "b AND 0xE0 \<noteq> 0xC0" by blast
  then show ?thesis
  proof cases
    case 1
    then show ?thesis using assms Cons small [of b r]
      by (auto simp: CorSigUncompressDataLen_def peek_byte_def split: if_splits)
  next
    case 2
    then show ?thesis using assms Cons medium [of b "r ! 0" "drop 1 r"]
      by (cases r)
        (auto simp: CorSigUncompressDataLen_def peek_byte_def byte_at_def split: if_splits)
  next
    case 3
    then show ?thesis using assms Cons large [of b "r ! 0" "r ! 1" "r ! 2" "drop 3 r"]
      by (cases r; cases "tl r"; cases "tl (tl r)")
        (auto simp: CorSigUncompressDataLen_def peek_byte_def byte_at_def split: if_splits)
  next
    case 4
    then show ?thesis using assms Cons
      by (simp add: CorSigUncompressDataLen_def peek_byte_def)
  qed
qed

lemma CorSigUncompressDataLen_accepts:
  assumes "CorSigUncompressDataLen p len = Inr (S_OK, d, n)"
  shows "CorSigUncompressDataRef p = Inr (d, drop (unat n) p) \<and>
     CorSigUncompressedDataSize p = Inr n \<and> n \<le> len \<and> unat n \<le> length p \<and> d \<le> 0x1FFFFFFF"
  using assms
proof (cases rule: CorSigUncompressDataLen_OK_cases)
  case (small b r)
  have "d \<le> 0x1FFFFFFF"
    using small_data_bound [OF small(2)] by (simp add: small order_trans)
  then show ?thesis using small
    by (simp only: not_less) (simp add: CorSigUncompressDataRef_def CorSigUncompressedDataSize_def peek_byte_def)
next
  case (medium b b1 r)
  have "d \<le> 0x1FFFFFFF"
    using medium_data_bound [of b b1] by (simp add: medium order_trans)
  then show ?thesis using medium
    by (simp add: CorSigUncompressDataRef_def CorSigUncompressBigData_def
        CorSigUncompressedDataSize_def peek_byte_def not_less)
next
  case (large b b1 b2 b3 r)
  have "d \<le> 0x1FFFFFFF"
    using large_data_bound [of b b1 b2 b3] by (simp add: large)
  then show ?thesis using large
    by (simp add: CorSigUncompressDataRef_def CorSigUncompressBigData_def
        CorSigUncompressedDataSize_def peek_byte_def not_less)
qed

text \<open>Where the checked overload of \<open>CorSigUncompressData\<close> accepts, the unchecked overload
  reads the same value and advances by the length reported, which is the one
  \<open>CorSigUncompressedDataSize\<close> announces and within both the length argument and the buffer.\<close>

theorem CorSigUncompress_overloads_agree:
  assumes "CorSigUncompressDataLen p len = Inr (S_OK, d, n)"
  shows "CorSigUncompressDataRef p = Inr (d, drop (unat n) p) \<and>
     CorSigUncompressedDataSize p = Inr n \<and> n \<le> len \<and> unat n \<le> length p \<and> d \<le> 0x1FFFFFFF"
  using assms by (rule CorSigUncompressDataLen_accepts)

theorem CorSigUncompress_overloads_agree_witness:
  "CorSigUncompressDataLen [0x81, 0x02, 0x33] 3 = Inr (S_OK, 0x102, 2) \<and>
     CorSigUncompressDataRef [0x81, 0x02, 0x33] = Inr (0x102, [0x33])"
proof -
  have c: "CorSigUncompressDataLen [0x81, 0x02, 0x33] 3 = Inr (S_OK, 0x102, 2)" by code_simp
  have "drop (unat (2 :: ULONG)) [0x81, 0x02, 0x33 :: BYTE] = [0x33]" by simp
  with CorSigUncompress_overloads_agree [OF c] c show ?thesis by simp
qed

text \<open>On the reserved prefix 111 the overloads differ: the checked one rejects the data with
  \<open>META_E_BAD_SIGNATURE\<close>, the advancing one decodes it as a four-byte form.\<close>

theorem CorSigUncompress_reserved_prefix:
  assumes "b AND 0xE0 = 0xE0"
  shows "CorSigUncompressDataLen (b # b1 # b2 # b3 # r) len = Inr (META_E_BAD_SIGNATURE, 0, 0) \<and>
     CorSigUncompressDataRef (b # b1 # b2 # b3 # r) = Inr (large_data b b1 b2 b3, r)"
proof -
  have "bit (b AND 0xE0) 7" "bit (b AND 0xE0) 6" "bit (b AND 0xE0) 5"
    unfolding assms by (simp_all add: wbits)
  then have bits: "bit b 7" "bit b 6" "bit b 5" by (simp_all add: wbits)
  have "b AND 0x80 \<noteq> 0" by (rule word_neq_0I [of _ 7]) (simp add: wbits bits)
  moreover have "b AND 0xC0 \<noteq> 0x80" by (rule word_neqI [of _ 6]) (simp add: wbits bits)
  moreover have "b AND 0xE0 \<noteq> 0xC0" by (rule word_neqI [of _ 5]) (simp add: wbits bits)
  ultimately show ?thesis
    by (simp add: CorSigUncompressDataLen_def CorSigUncompressDataRef_def
        CorSigUncompressBigData_def peek_byte_def)
qed

theorem CorSigUncompress_reserved_prefix_witness:
  "CorSigUncompressDataRef [0xFF, 0, 0, 1] = Inr (0x1F000001, []) \<and>
     CorSigUncompressDataLen [0xFF, 0, 0, 1] 4 = Inr (META_E_BAD_SIGNATURE, 0, 0)"
proof -
  have "large_data 0xFF 0 0 1 = 0x1F000001" by code_simp
  moreover have "(0xFF :: BYTE) AND 0xE0 = 0xE0" by code_simp
  ultimately show ?thesis using CorSigUncompress_reserved_prefix [of "0xFF" 0 0 1 "[]" 4] by simp
qed

end
