(* ===== verification/ElementType.thy ===== *)
theory ElementType
  imports CorSig
begin

text \<open>
  The element types and calling conventions of signatures
  (\<^verbatim>\<open>lib/coreclr/src/inc/corhdr.h\<close>, \<^verbatim>\<open>corpriv.h\<close>), as the bytes they are stored as.
\<close>

section \<open>\<open>CorElementType\<close>\<close>

definition ELEMENT_TYPE_END :: BYTE where "ELEMENT_TYPE_END = 0x00"
definition ELEMENT_TYPE_VOID :: BYTE where "ELEMENT_TYPE_VOID = 0x01"
definition ELEMENT_TYPE_BOOLEAN :: BYTE where "ELEMENT_TYPE_BOOLEAN = 0x02"
definition ELEMENT_TYPE_CHAR :: BYTE where "ELEMENT_TYPE_CHAR = 0x03"
definition ELEMENT_TYPE_I1 :: BYTE where "ELEMENT_TYPE_I1 = 0x04"
definition ELEMENT_TYPE_U1 :: BYTE where "ELEMENT_TYPE_U1 = 0x05"
definition ELEMENT_TYPE_I2 :: BYTE where "ELEMENT_TYPE_I2 = 0x06"
definition ELEMENT_TYPE_U2 :: BYTE where "ELEMENT_TYPE_U2 = 0x07"
definition ELEMENT_TYPE_I4 :: BYTE where "ELEMENT_TYPE_I4 = 0x08"
definition ELEMENT_TYPE_U4 :: BYTE where "ELEMENT_TYPE_U4 = 0x09"
definition ELEMENT_TYPE_I8 :: BYTE where "ELEMENT_TYPE_I8 = 0x0a"
definition ELEMENT_TYPE_U8 :: BYTE where "ELEMENT_TYPE_U8 = 0x0b"
definition ELEMENT_TYPE_R4 :: BYTE where "ELEMENT_TYPE_R4 = 0x0c"
definition ELEMENT_TYPE_R8 :: BYTE where "ELEMENT_TYPE_R8 = 0x0d"
definition ELEMENT_TYPE_STRING :: BYTE where "ELEMENT_TYPE_STRING = 0x0e"
definition ELEMENT_TYPE_PTR :: BYTE where "ELEMENT_TYPE_PTR = 0x0f"
definition ELEMENT_TYPE_BYREF :: BYTE where "ELEMENT_TYPE_BYREF = 0x10"
definition ELEMENT_TYPE_VALUETYPE :: BYTE where "ELEMENT_TYPE_VALUETYPE = 0x11"
definition ELEMENT_TYPE_CLASS :: BYTE where "ELEMENT_TYPE_CLASS = 0x12"
definition ELEMENT_TYPE_VAR :: BYTE where "ELEMENT_TYPE_VAR = 0x13"
definition ELEMENT_TYPE_ARRAY :: BYTE where "ELEMENT_TYPE_ARRAY = 0x14"
definition ELEMENT_TYPE_GENERICINST :: BYTE where "ELEMENT_TYPE_GENERICINST = 0x15"
definition ELEMENT_TYPE_TYPEDBYREF :: BYTE where "ELEMENT_TYPE_TYPEDBYREF = 0x16"
definition ELEMENT_TYPE_I :: BYTE where "ELEMENT_TYPE_I = 0x18"
definition ELEMENT_TYPE_U :: BYTE where "ELEMENT_TYPE_U = 0x19"
definition ELEMENT_TYPE_FNPTR :: BYTE where "ELEMENT_TYPE_FNPTR = 0x1b"
definition ELEMENT_TYPE_OBJECT :: BYTE where "ELEMENT_TYPE_OBJECT = 0x1c"
definition ELEMENT_TYPE_SZARRAY :: BYTE where "ELEMENT_TYPE_SZARRAY = 0x1d"
definition ELEMENT_TYPE_MVAR :: BYTE where "ELEMENT_TYPE_MVAR = 0x1e"
definition ELEMENT_TYPE_CMOD_REQD :: BYTE where "ELEMENT_TYPE_CMOD_REQD = 0x1f"
definition ELEMENT_TYPE_CMOD_OPT :: BYTE where "ELEMENT_TYPE_CMOD_OPT = 0x20"
definition ELEMENT_TYPE_INTERNAL :: BYTE where "ELEMENT_TYPE_INTERNAL = 0x21"
definition ELEMENT_TYPE_MAX :: BYTE where "ELEMENT_TYPE_MAX = 0x22"
definition ELEMENT_TYPE_VAR_ZAPSIG :: BYTE where "ELEMENT_TYPE_VAR_ZAPSIG = 0x3b"
definition ELEMENT_TYPE_NATIVE_ARRAY_TEMPLATE_ZAPSIG :: BYTE where "ELEMENT_TYPE_NATIVE_ARRAY_TEMPLATE_ZAPSIG = 0x3c"
definition ELEMENT_TYPE_NATIVE_VALUETYPE_ZAPSIG :: BYTE where "ELEMENT_TYPE_NATIVE_VALUETYPE_ZAPSIG = 0x3d"
definition ELEMENT_TYPE_CANON_ZAPSIG :: BYTE where "ELEMENT_TYPE_CANON_ZAPSIG = 0x3e"
definition ELEMENT_TYPE_MODULE_ZAPSIG :: BYTE where "ELEMENT_TYPE_MODULE_ZAPSIG = 0x3f"
definition ELEMENT_TYPE_MODIFIER :: BYTE where "ELEMENT_TYPE_MODIFIER = 0x40"
definition ELEMENT_TYPE_SENTINEL :: BYTE where "ELEMENT_TYPE_SENTINEL = 0x01 OR ELEMENT_TYPE_MODIFIER"
definition ELEMENT_TYPE_PINNED :: BYTE where "ELEMENT_TYPE_PINNED = 0x05 OR ELEMENT_TYPE_MODIFIER"

text \<open>Their values as numerals, for the proofs that tell element types apart.\<close>

lemmas element_types =
  ELEMENT_TYPE_END_def ELEMENT_TYPE_VOID_def ELEMENT_TYPE_BOOLEAN_def ELEMENT_TYPE_CHAR_def
  ELEMENT_TYPE_I1_def ELEMENT_TYPE_U1_def ELEMENT_TYPE_I2_def ELEMENT_TYPE_U2_def
  ELEMENT_TYPE_I4_def ELEMENT_TYPE_U4_def ELEMENT_TYPE_I8_def ELEMENT_TYPE_U8_def
  ELEMENT_TYPE_R4_def ELEMENT_TYPE_R8_def ELEMENT_TYPE_STRING_def ELEMENT_TYPE_PTR_def
  ELEMENT_TYPE_BYREF_def ELEMENT_TYPE_VALUETYPE_def ELEMENT_TYPE_CLASS_def ELEMENT_TYPE_VAR_def
  ELEMENT_TYPE_ARRAY_def ELEMENT_TYPE_GENERICINST_def ELEMENT_TYPE_TYPEDBYREF_def
  ELEMENT_TYPE_I_def ELEMENT_TYPE_U_def ELEMENT_TYPE_FNPTR_def ELEMENT_TYPE_OBJECT_def
  ELEMENT_TYPE_SZARRAY_def ELEMENT_TYPE_MVAR_def ELEMENT_TYPE_CMOD_REQD_def
  ELEMENT_TYPE_CMOD_OPT_def ELEMENT_TYPE_INTERNAL_def ELEMENT_TYPE_MAX_def
  ELEMENT_TYPE_VAR_ZAPSIG_def ELEMENT_TYPE_NATIVE_ARRAY_TEMPLATE_ZAPSIG_def
  ELEMENT_TYPE_NATIVE_VALUETYPE_ZAPSIG_def ELEMENT_TYPE_CANON_ZAPSIG_def
  ELEMENT_TYPE_MODULE_ZAPSIG_def ELEMENT_TYPE_MODIFIER_def

lemma ELEMENT_TYPE_flagged: "ELEMENT_TYPE_SENTINEL = 0x41" "ELEMENT_TYPE_PINNED = 0x45"
  by (simp_all add: ELEMENT_TYPE_SENTINEL_def ELEMENT_TYPE_PINNED_def ELEMENT_TYPE_MODIFIER_def)

lemmas ets = element_types ELEMENT_TYPE_flagged

section \<open>\<open>CorCallingConvention\<close>\<close>

definition IMAGE_CEE_CS_CALLCONV_DEFAULT :: BYTE where "IMAGE_CEE_CS_CALLCONV_DEFAULT = 0x0"
definition IMAGE_CEE_CS_CALLCONV_LOCAL_SIG :: BYTE where "IMAGE_CEE_CS_CALLCONV_LOCAL_SIG = 0x7"
definition IMAGE_CEE_CS_CALLCONV_GENERICINST :: BYTE where "IMAGE_CEE_CS_CALLCONV_GENERICINST = 0xa"
definition IMAGE_CEE_CS_CALLCONV_MASK :: BYTE where "IMAGE_CEE_CS_CALLCONV_MASK = 0x0f"
definition IMAGE_CEE_CS_CALLCONV_HASTHIS :: BYTE where "IMAGE_CEE_CS_CALLCONV_HASTHIS = 0x20"
definition IMAGE_CEE_CS_CALLCONV_GENERIC :: BYTE where "IMAGE_CEE_CS_CALLCONV_GENERIC = 0x10"

lemmas callconvs =
  IMAGE_CEE_CS_CALLCONV_DEFAULT_def IMAGE_CEE_CS_CALLCONV_LOCAL_SIG_def
  IMAGE_CEE_CS_CALLCONV_GENERICINST_def IMAGE_CEE_CS_CALLCONV_MASK_def
  IMAGE_CEE_CS_CALLCONV_HASTHIS_def IMAGE_CEE_CS_CALLCONV_GENERIC_def

end
