(* ===== verification/SigParser.thy ===== *)
theory SigParser
  imports ElementType
begin

text \<open>
  The bounded reader of signatures, class \<open>SigParser\<close> of
  \<^verbatim>\<open>lib/coreclr/src/inc/sigparser.h\<close>, and the table \<open>CorTypeInfo\<close> declared beside it.

  The memory a parser points into is the argument \<open>mem\<close> of its methods and \<open>m_ptr\<close> an index of
  it, or no index for \<open>NULL\<close>. A method returns its HRESULT, the value it stores through its
  out-parameter and the parser it leaves; a caller that passes \<open>NULL\<close> for the out-parameter gets
  the same HRESULT and parser. The body of \<open>SkipExactlyOne\<close>, \<open>SkipMethodHeaderSignature\<close> and
  \<open>SkipSignature\<close> is in a file of the runtime that is not part of the repository.
\<close>

section \<open>The parser and its raw reads\<close>

record SigParser =
  m_ptr :: "nat option"
  m_dwLen :: DWORD

definition SigParser_NULL :: SigParser where
  "SigParser_NULL = \<lparr>m_ptr = None, m_dwLen = 0\<rparr>"

definition SigParser_of :: "nat option \<Rightarrow> SigParser" where
  "SigParser_of ptr = \<lparr>m_ptr = ptr, m_dwLen = 0xffffffff\<rparr>"

definition SigParser_len :: "nat option \<Rightarrow> DWORD \<Rightarrow> SigParser" where
  "SigParser_len ptr len = \<lparr>m_ptr = ptr, m_dwLen = len\<rparr>"

definition SetSig :: "SigParser \<Rightarrow> nat option \<Rightarrow> SigParser" where
  "SetSig s ptr = s\<lparr>m_ptr := ptr, m_dwLen := 0xffffffff\<rparr>"

definition SetSig_len :: "SigParser \<Rightarrow> nat option \<Rightarrow> DWORD \<Rightarrow> SigParser" where
  "SetSig_len s ptr len = s\<lparr>m_ptr := ptr, m_dwLen := len\<rparr>"

definition IsNull :: "SigParser \<Rightarrow> bool" where
  "IsNull s \<longleftrightarrow> m_ptr s = None"

definition GetSignature :: "SigParser \<Rightarrow> nat option \<times> DWORD" where
  "GetSignature s = (m_ptr s, m_dwLen s)"

definition GetPtr :: "SigParser \<Rightarrow> nat option" where
  "GetPtr s = m_ptr s"

definition Equals :: "SigParser \<Rightarrow> SigParser \<Rightarrow> bool" where
  "Equals s t \<longleftrightarrow> m_ptr s = m_ptr t"

text \<open>The bytes from the pointer on, and the byte it points to.\<close>

definition bytes_at :: "BYTE list \<Rightarrow> SigParser \<Rightarrow> BYTE list outcome" where
  "bytes_at mem s = (case m_ptr s of None \<Rightarrow> Inl NullDeref | Some i \<Rightarrow> Inr (drop i mem))"

definition deref :: "BYTE list \<Rightarrow> SigParser \<Rightarrow> BYTE outcome" where
  "deref mem s = bindO (bytes_at mem s) peek_byte"

definition SkipBytes :: "ULONG \<Rightarrow> SigParser \<Rightarrow> SigParser" where
  "SkipBytes cb s = s\<lparr>m_ptr := map_option (\<lambda>i. i + unat cb) (m_ptr s), m_dwLen := m_dwLen s - cb\<rparr>"

definition GetData :: "BYTE list \<Rightarrow> SigParser \<Rightarrow> (HRESULT \<times> ULONG \<times> SigParser) outcome" where
  "GetData mem s =
     bindO (bytes_at mem s) (\<lambda>p.
     bindO (CorSigUncompressDataLen p (m_dwLen s)) (\<lambda>(hr, data, sizeOfData).
       if SUCCEEDED hr then Inr (hr, data, SkipBytes sizeOfData s) else Inr (hr, data, s)))"

definition GetByte :: "BYTE list \<Rightarrow> SigParser \<Rightarrow> (HRESULT \<times> BYTE \<times> SigParser) outcome" where
  "GetByte mem s =
     (if m_dwLen s > 0 then bindO (deref mem s) (\<lambda>b. Inr (S_OK, b, SkipBytes 1 s))
      else Inr (META_E_BAD_SIGNATURE, 0, s))"

definition PeekByte :: "BYTE list \<Rightarrow> SigParser \<Rightarrow> (HRESULT \<times> BYTE) outcome" where
  "PeekByte mem s =
     (if m_dwLen s > 0 then bindO (deref mem s) (\<lambda>b. Inr (S_OK, b))
      else Inr (META_E_BAD_SIGNATURE, 0))"

definition PeekData :: "BYTE list \<Rightarrow> SigParser \<Rightarrow> (HRESULT \<times> ULONG) outcome" where
  "PeekData mem s =
     bindO (bytes_at mem s) (\<lambda>p.
     bindO (CorSigUncompressDataLen p (m_dwLen s)) (\<lambda>(hr, data, _). Inr (hr, data)))"

definition GetToken :: "BYTE list \<Rightarrow> SigParser \<Rightarrow> (HRESULT \<times> mdToken \<times> SigParser) outcome" where
  "GetToken mem s =
     bindO (bytes_at mem s) (\<lambda>p.
     bindO (CorSigUncompressTokenLen p (m_dwLen s)) (\<lambda>(hr, token, dwLen).
       if SUCCEEDED hr then Inr (hr, token, SkipBytes dwLen s) else Inr (hr, token, s)))"

text \<open>A pointer takes eight bytes; the loaded value is 0 when there are too few.\<close>

definition GetPointer :: "BYTE list \<Rightarrow> SigParser \<Rightarrow> (HRESULT \<times> 64 word \<times> SigParser) outcome" where
  "GetPointer mem s =
     (if m_dwLen s < 8 then Inr (META_E_BAD_SIGNATURE, 0, s)
      else bindO (bytes_at mem s) (\<lambda>p.
           bindO (load_le 8 p 0) (\<lambda>v. Inr (S_OK, v, SkipBytes 8 s))))"

text \<open>The value is stored through \<open>data\<close> on every path of the callee.\<close>

definition GetCallingConvInfo :: "BYTE list \<Rightarrow> SigParser \<Rightarrow> (HRESULT \<times> ULONG \<times> SigParser) outcome" where
  "GetCallingConvInfo mem s =
     bindO (if m_dwLen s > 0 then bytes_at mem s else Inr []) (\<lambda>p.
     bindO (CorSigUncompressCallingConv p (m_dwLen s)) (\<lambda>(hr, data).
       if SUCCEEDED hr then Inr (hr, data, SkipBytes 1 s) else Inr (hr, data, s)))"

text \<open>\<open>*data\<close> is left alone (\<open>None\<close>) on failure.\<close>

definition GetCallingConv :: "BYTE list \<Rightarrow> SigParser \<Rightarrow> (HRESULT \<times> ULONG option \<times> SigParser) outcome" where
  "GetCallingConv mem s =
     bindO (GetCallingConvInfo mem s) (\<lambda>(hr, info, s).
       Inr (hr, if SUCCEEDED hr then Some (ucast IMAGE_CEE_CS_CALLCONV_MASK AND info) else None, s))"

definition AtSentinel :: "BYTE list \<Rightarrow> SigParser \<Rightarrow> bool outcome" where
  "AtSentinel mem s =
     (if m_dwLen s > 0 then bindO (deref mem s) (\<lambda>b. Inr (b = ELEMENT_TYPE_SENTINEL)) else Inr False)"

section \<open>Modifiers\<close>

definition SkipAnyVASentinel :: "BYTE list \<Rightarrow> SigParser \<Rightarrow> (HRESULT \<times> SigParser) outcome" where
  "SkipAnyVASentinel mem s =
     bindO (PeekByte mem s) (\<lambda>(hr, bElementType).
       if FAILED hr then Inr (hr, s)
       else if bElementType = ELEMENT_TYPE_SENTINEL then Inr (hr, SkipBytes 1 s)
       else Inr (hr, s))"

lemma PeekByte_SUCCEEDED: "PeekByte mem s = Inr (hr, b) \<Longrightarrow> SUCCEEDED hr \<Longrightarrow> hr = S_OK \<and> 0 < m_dwLen s"
  by (auto simp: PeekByte_def split: if_splits)

lemma CorSigUncompressDataLen_hr:
  "CorSigUncompressDataLen p len = Inr (hr, d, n) \<Longrightarrow> hr = S_OK \<or> hr = META_E_BAD_SIGNATURE"
  by (auto simp: CorSigUncompressDataLen_def split: if_splits)

lemma CorSigUncompressTokenLen_OK:
  assumes "CorSigUncompressTokenLen p len = Inr (hr, tk, n)" and "SUCCEEDED hr"
  obtains d where "CorSigUncompressDataLen p len = Inr (S_OK, d, n)" and "hr = S_OK" and "tk = token_of_data d"
  using assms CorSigUncompressDataLen_hr [of p len]
  by (auto simp: CorSigUncompressTokenLen_def split: if_splits)

lemma GetToken_dwLen:
  assumes "GetToken mem s = Inr (hr, tk, s')" and "SUCCEEDED hr"
  shows "m_dwLen s' \<le> m_dwLen s"
proof -
  obtain p where p: "bytes_at mem s = Inr p" using assms(1) by (auto simp: GetToken_def)
  obtain hr0 t n where c: "CorSigUncompressTokenLen p (m_dwLen s) = Inr (hr0, t, n)"
    using assms(1) p by (auto simp: GetToken_def)
  have "hr0 = hr" and s': "s' = SkipBytes n s"
    using assms p c by (auto simp: GetToken_def split: if_splits)
  then obtain d where d: "CorSigUncompressDataLen p (m_dwLen s) = Inr (S_OK, d, n)"
    using CorSigUncompressTokenLen_OK [OF c] assms(2) by blast
  have "n \<le> m_dwLen s" using CorSigUncompressDataLen_accepts [OF d] by blast
  then show ?thesis by (simp add: s' SkipBytes_def word_le_nat_alt unat_sub)
qed

text \<open>The loop over the modifiers: each is one of the given bytes and a token. The byte it ends on is
  peeked at the loop's head, which stands for the two peeks of the source, before the loop and at the
  end of its body.\<close>

function skip_modifiers :: "BYTE list \<Rightarrow> BYTE list \<Rightarrow> SigParser \<Rightarrow> (HRESULT \<times> BYTE \<times> SigParser) outcome" where
  "skip_modifiers mem tags s =
     bindO (PeekByte mem s) (\<lambda>(hr, bElementType).
       if FAILED hr then Inr (hr, bElementType, s)
       else if bElementType \<in> set tags then
         bindO (GetToken mem (SkipBytes 1 s)) (\<lambda>(hr, token, s).
           if FAILED hr then Inr (hr, bElementType, s) else skip_modifiers mem tags s)
       else Inr (hr, bElementType, s))"
  by pat_completeness auto
termination
proof (relation "measure (\<lambda>(mem, tags, s). unat (m_dwLen s))", goal_cases)
  case (2 mem tags s x hr b y hr' z tk s')
  then have "0 < m_dwLen s" and g: "GetToken mem (SkipBytes 1 s) = Inr (hr', tk, s')" "SUCCEEDED hr'"
    using PeekByte_SUCCEEDED [of mem s hr b] by simp_all
  then have "unat (m_dwLen (SkipBytes 1 s)) < unat (m_dwLen s)"
    by (simp add: SkipBytes_def unat_minus_one unat_gt_0 word_neq_0_conv)
  moreover have "unat (m_dwLen s') \<le> unat (m_dwLen (SkipBytes 1 s))"
    using GetToken_dwLen [OF g] by (simp add: word_le_nat_alt)
  ultimately show ?case by simp
qed simp

declare skip_modifiers.simps [simp del]

definition SkipCustomModifiers :: "BYTE list \<Rightarrow> SigParser \<Rightarrow> (HRESULT \<times> SigParser) outcome" where
  "SkipCustomModifiers mem s =
     bindO (SkipAnyVASentinel mem s) (\<lambda>(hr, sigTemp).
       if FAILED hr then Inr (hr, s)
       else
         bindO (skip_modifiers mem [ELEMENT_TYPE_CMOD_REQD, ELEMENT_TYPE_CMOD_OPT] sigTemp)
           (\<lambda>(hr, bElementType, sigTemp).
         if FAILED hr then Inr (hr, s)
         else if bElementType \<ge> ELEMENT_TYPE_MAX \<and>
             bElementType \<notin> {ELEMENT_TYPE_VAR_ZAPSIG, ELEMENT_TYPE_NATIVE_ARRAY_TEMPLATE_ZAPSIG,
               ELEMENT_TYPE_NATIVE_VALUETYPE_ZAPSIG, ELEMENT_TYPE_CANON_ZAPSIG,
               ELEMENT_TYPE_MODULE_ZAPSIG, ELEMENT_TYPE_PINNED} then
           Inr (META_E_BAD_SIGNATURE, s)
         else Inr (hr, sigTemp)))"

definition SkipFunkyAndCustomModifiers :: "BYTE list \<Rightarrow> SigParser \<Rightarrow> (HRESULT \<times> SigParser) outcome" where
  "SkipFunkyAndCustomModifiers mem s =
     bindO (SkipAnyVASentinel mem s) (\<lambda>(hr, sigTemp).
       if FAILED hr then Inr (hr, s)
       else
         bindO (skip_modifiers mem [ELEMENT_TYPE_CMOD_REQD, ELEMENT_TYPE_CMOD_OPT, ELEMENT_TYPE_MODIFIER,
             ELEMENT_TYPE_PINNED] sigTemp)
           (\<lambda>(hr, bElementType, sigTemp).
         if FAILED hr then Inr (hr, s)
         else if bElementType \<ge> ELEMENT_TYPE_MAX \<and>
             bElementType \<notin> {ELEMENT_TYPE_NATIVE_ARRAY_TEMPLATE_ZAPSIG,
               ELEMENT_TYPE_NATIVE_VALUETYPE_ZAPSIG, ELEMENT_TYPE_CANON_ZAPSIG,
               ELEMENT_TYPE_MODULE_ZAPSIG, ELEMENT_TYPE_PINNED} then
           Inr (META_E_BAD_SIGNATURE, s)
         else Inr (hr, sigTemp)))"

section \<open>Element types\<close>

definition GetElemTypeSlow :: "BYTE list \<Rightarrow> SigParser \<Rightarrow> (HRESULT \<times> BYTE \<times> SigParser) outcome" where
  "GetElemTypeSlow mem s =
     bindO (SkipCustomModifiers mem s) (\<lambda>(hr, sigTemp).
       if SUCCEEDED hr then
         bindO (GetByte mem sigTemp) (\<lambda>(hr, bElemType, sigTemp).
           if SUCCEEDED hr then Inr (S_OK, bElemType, sigTemp)
           else Inr (META_E_BAD_SIGNATURE, ELEMENT_TYPE_END, s))
       else Inr (META_E_BAD_SIGNATURE, ELEMENT_TYPE_END, s))"

definition GetElemType :: "BYTE list \<Rightarrow> SigParser \<Rightarrow> (HRESULT \<times> BYTE \<times> SigParser) outcome" where
  "GetElemType mem s =
     (if m_dwLen s > 0 then
        bindO (deref mem s) (\<lambda>typ.
          if typ < ELEMENT_TYPE_CMOD_REQD then Inr (S_OK, typ, SkipBytes 1 s)
          else GetElemTypeSlow mem s)
      else GetElemTypeSlow mem s)"

definition PeekElemTypeSlow :: "BYTE list \<Rightarrow> SigParser \<Rightarrow> (HRESULT \<times> BYTE) outcome" where
  "PeekElemTypeSlow mem s =
     bindO (GetElemType mem s) (\<lambda>(hr, etype, _).
       Inr (hr, if SUCCEEDED hr \<and> (etype = ELEMENT_TYPE_STRING \<or> etype = ELEMENT_TYPE_OBJECT)
                then ELEMENT_TYPE_CLASS else etype))"

definition PeekElemType :: "BYTE list \<Rightarrow> SigParser \<Rightarrow> (HRESULT \<times> BYTE) outcome" where
  "PeekElemType mem s =
     (if m_dwLen s > 0 then
        bindO (deref mem s) (\<lambda>typ.
          if typ < ELEMENT_TYPE_CMOD_REQD then
            (if typ = ELEMENT_TYPE_STRING \<or> typ = ELEMENT_TYPE_OBJECT then Inr (S_OK, ELEMENT_TYPE_CLASS)
             else Inr (S_OK, typ))
          else PeekElemTypeSlow mem s)
      else PeekElemTypeSlow mem s)"

text \<open>The size is stored unless the sentinel check fails (\<open>None\<close>). \<open>_WIN64\<close> decides the size of the
  native integers; a pointer takes eight bytes on the 64-bit targets.\<close>

definition elem_type_size :: "bool \<Rightarrow> BYTE \<Rightarrow> HRESULT \<times> ULONG" where
  "elem_type_size WIN64 bElementType =
     (if bElementType \<in> {ELEMENT_TYPE_I8, ELEMENT_TYPE_U8, ELEMENT_TYPE_R8} \<or>
         WIN64 \<and> bElementType \<in> {ELEMENT_TYPE_I, ELEMENT_TYPE_U} then (S_OK, 8)
      else if bElementType \<in> {ELEMENT_TYPE_I4, ELEMENT_TYPE_U4, ELEMENT_TYPE_R4} \<or>
         \<not> WIN64 \<and> bElementType \<in> {ELEMENT_TYPE_I, ELEMENT_TYPE_U} then (S_OK, 4)
      else if bElementType \<in> {ELEMENT_TYPE_I2, ELEMENT_TYPE_U2, ELEMENT_TYPE_CHAR} then (S_OK, 2)
      else if bElementType \<in> {ELEMENT_TYPE_I1, ELEMENT_TYPE_U1, ELEMENT_TYPE_BOOLEAN} then (S_OK, 1)
      else if bElementType \<in> {ELEMENT_TYPE_STRING, ELEMENT_TYPE_PTR, ELEMENT_TYPE_BYREF, ELEMENT_TYPE_CLASS,
         ELEMENT_TYPE_OBJECT, ELEMENT_TYPE_FNPTR, ELEMENT_TYPE_TYPEDBYREF, ELEMENT_TYPE_ARRAY,
         ELEMENT_TYPE_SZARRAY} then (S_OK, 8)
      else if bElementType = ELEMENT_TYPE_VOID then (S_OK, 0)
      else if bElementType \<in> {ELEMENT_TYPE_END, ELEMENT_TYPE_CMOD_REQD, ELEMENT_TYPE_CMOD_OPT,
         ELEMENT_TYPE_VALUETYPE} then (E_INVALIDARG, 0)
      else (META_E_BAD_SIGNATURE, 0))"

definition PeekElemTypeSize :: "bool \<Rightarrow> BYTE list \<Rightarrow> SigParser \<Rightarrow> (HRESULT \<times> ULONG option) outcome" where
  "PeekElemTypeSize WIN64 mem s =
     bindO (SkipAnyVASentinel mem s) (\<lambda>(hr, sigTemp).
       if FAILED hr then Inr (hr, None)
       else bindO (GetByte mem sigTemp) (\<lambda>(hr, bElementType, _).
         if FAILED hr then Inr (hr, Some 0)
         else case elem_type_size WIN64 bElementType of (hr, n) \<Rightarrow> Inr (hr, Some n)))"

section \<open>The bounds of the reads\<close>

text \<open>The parser after \<open>k\<close> bytes were taken off its front, and the parsers all of whose bytes, and one
  more, are readable: the routines of \<^verbatim>\<open>cor.h\<close> look at the first byte before they look at the
  length.\<close>

definition consumed :: "SigParser \<Rightarrow> nat \<Rightarrow> SigParser \<Rightarrow> bool" where
  "consumed s k s' \<longleftrightarrow> k \<le> unat (m_dwLen s) \<and> m_ptr s' = map_option (\<lambda>i. i + k) (m_ptr s) \<and>
     unat (m_dwLen s') + k = unat (m_dwLen s)"

definition within :: "BYTE list \<Rightarrow> SigParser \<Rightarrow> bool" where
  "within mem s \<longleftrightarrow> (\<exists>i. m_ptr s = Some i \<and> i + unat (m_dwLen s) < length mem)"

lemma consumed_0 [simp]: "consumed s 0 s"
  by (simp add: consumed_def option.map_ident)

lemma unconsumed [simp]: "\<exists>k. consumed s k s"
  by (rule exI [of _ 0]) simp

lemma consumed_trans: "consumed s k t \<Longrightarrow> consumed t l u \<Longrightarrow> consumed s (k + l) u"
  by (cases "m_ptr s") (auto simp: consumed_def)

lemma consumed_SkipBytes: "n \<le> m_dwLen s \<Longrightarrow> consumed s (unat n) (SkipBytes n s)"
  by (simp add: consumed_def SkipBytes_def word_le_nat_alt unat_sub)

lemma consumed_SkipBytes_1: "0 < m_dwLen s \<Longrightarrow> consumed s (Suc 0) (SkipBytes 1 s)"
proof -
  assume "0 < m_dwLen s"
  then have "1 \<le> m_dwLen s" by (simp add: word_less_nat_alt word_le_nat_alt)
  from consumed_SkipBytes [OF this] show ?thesis by simp
qed

lemma consumed_within: "within mem s \<Longrightarrow> consumed s k s' \<Longrightarrow> within mem s'"
  by (auto simp: within_def consumed_def)

lemma within_bytes:
  assumes "within mem s"
  obtains p where "bytes_at mem s = Inr p" and "unat (m_dwLen s) < length p"
  using assms by (auto simp: within_def bytes_at_def)

lemma within_deref:
  assumes "within mem s"
  obtains b where "deref mem s = Inr b"
proof -
  obtain p where p: "bytes_at mem s = Inr p" "unat (m_dwLen s) < length p" using assms by (rule within_bytes)
  then obtain b r where "p = b # r" by (cases p) auto
  then show thesis using that [of b] p(1) by (simp add: deref_def peek_byte_def)
qed

lemma CorSigUncompressDataLen_within:
  assumes "unat len < length p"
  obtains hr d n where "CorSigUncompressDataLen p len = Inr (hr, d, n)" and "SUCCEEDED hr \<Longrightarrow> n \<le> len"
proof -
  obtain b r where p: "p = b # r" using assms by (cases p) auto
  have at: "byte_at p (unat (k :: ULONG) - 1) = Inr (p ! (unat k - 1))" if "\<not> len < k" for k
    using that assms by (auto simp: byte_at_def word_less_nat_alt)
  let ?thesis = "\<exists>hr d n. CorSigUncompressDataLen p len = Inr (hr, d, n) \<and> (SUCCEEDED hr \<longrightarrow> n \<le> len)"
  consider "b AND 0x80 = 0" | "b AND 0x80 \<noteq> 0" "b AND 0xC0 = 0x80"
    | "b AND 0x80 \<noteq> 0" "b AND 0xC0 \<noteq> 0x80" "b AND 0xE0 = 0xC0"
    | "b AND 0x80 \<noteq> 0" "b AND 0xC0 \<noteq> 0x80" "b AND 0xE0 \<noteq> 0xC0" by blast
  then have ?thesis
  proof cases
    case 1
    moreover have "1 \<le> len" if "len \<noteq> 0" using that by (simp add: word_le_nat_alt Suc_le_eq unat_gt_0)
    ultimately show ?thesis by (simp add: p CorSigUncompressDataLen_def peek_byte_def not_less)
  next
    case 2
    then show ?thesis using at [of 2]
      by (simp add: p CorSigUncompressDataLen_def peek_byte_def not_less)
  next
    case 3
    have "\<not> len < 3 \<and> \<not> len < 2" if "\<not> len < 4"
      using that by (simp add: word_less_nat_alt)
    then show ?thesis using 3 at [of 2] at [of 3] at [of 4]
      by (simp add: p CorSigUncompressDataLen_def peek_byte_def not_less)
  next
    case 4
    then show ?thesis by (simp add: p CorSigUncompressDataLen_def peek_byte_def)
  qed
  then show thesis using that by blast
qed

text \<open>What a caller of a read relies on.\<close>

locale sig_read =
  fixes rd :: "BYTE list \<Rightarrow> SigParser \<Rightarrow> (HRESULT \<times> 'a \<times> SigParser) outcome"
  assumes bounded: "within mem s \<Longrightarrow>
    \<exists>hr a s' k. rd mem s = Inr (hr, a, s') \<and> consumed s k s' \<and> (FAILED hr \<longrightarrow> s' = s)"
begin

lemma read_completes: "within mem s \<Longrightarrow> completes (rd mem s)"
  using bounded [of mem s] by auto

lemma read_within:
  assumes "within mem s" and "rd mem s = Inr (hr, a, s')"
  shows "within mem s'" and "\<exists>k. consumed s k s'" and "FAILED hr \<Longrightarrow> s' = s"
  using bounded [OF assms(1)] assms(2) consumed_within [OF assms(1)] by auto

end

lemma PeekByte_within:
  assumes "within mem s"
  obtains hr b where "PeekByte mem s = Inr (hr, b)" and "SUCCEEDED hr \<Longrightarrow> hr = S_OK \<and> 0 < m_dwLen s"
proof (cases "0 < m_dwLen s")
  case True
  obtain b where "deref mem s = Inr b" using assms by (rule within_deref)
  then show ?thesis using that [of S_OK b] True by (simp add: PeekByte_def)
next
  case False
  then show ?thesis using that [of META_E_BAD_SIGNATURE 0] by (simp add: PeekByte_def)
qed

lemma SkipAnyVASentinel_within:
  assumes "within mem s"
  obtains hr s' k where "SkipAnyVASentinel mem s = Inr (hr, s')" and "consumed s k s'" and "FAILED hr \<Longrightarrow> s' = s"
proof -
  obtain hr b where p: "PeekByte mem s = Inr (hr, b)" "SUCCEEDED hr \<Longrightarrow> hr = S_OK \<and> 0 < m_dwLen s"
    using PeekByte_within [OF assms] by blast
  show thesis
  proof (cases "SUCCEEDED hr \<and> b = ELEMENT_TYPE_SENTINEL")
    case True
    then show ?thesis
      using that [OF _ consumed_SkipBytes_1] p by (simp add: SkipAnyVASentinel_def)
  next
    case False
    then show ?thesis using that [OF _ consumed_0] p(1) by (auto simp: SkipAnyVASentinel_def)
  qed
qed

interpretation data: sig_read GetData
proof
  fix mem s
  assume "within mem s"
  then obtain p where p: "bytes_at mem s = Inr p" "unat (m_dwLen s) < length p" by (rule within_bytes)
  obtain hr d n where d: "CorSigUncompressDataLen p (m_dwLen s) = Inr (hr, d, n)" "SUCCEEDED hr \<Longrightarrow> n \<le> m_dwLen s"
    using CorSigUncompressDataLen_within [OF p(2)] by blast
  show "\<exists>hr a s' k. GetData mem s = Inr (hr, a, s') \<and> consumed s k s' \<and> (FAILED hr \<longrightarrow> s' = s)"
  proof (cases "FAILED hr")
    case True
    then show ?thesis using p(1) d(1) by (simp add: GetData_def)
  next
    case False
    then show ?thesis using p(1) d(1) consumed_SkipBytes [OF d(2)] by (auto simp: GetData_def)
  qed
qed

interpretation byte: sig_read GetByte
proof
  fix mem s
  assume w: "within mem s"
  show "\<exists>hr a s' k. GetByte mem s = Inr (hr, a, s') \<and> consumed s k s' \<and> (FAILED hr \<longrightarrow> s' = s)"
  proof (cases "0 < m_dwLen s")
    case True
    obtain b where "deref mem s = Inr b" using w by (rule within_deref)
    then show ?thesis using True consumed_SkipBytes_1 [OF True] by (auto simp: GetByte_def)
  next
    case False
    then show ?thesis using consumed_0 [of s] by (auto simp: GetByte_def)
  qed
qed

interpretation token: sig_read GetToken
proof
  fix mem s
  assume "within mem s"
  then obtain p where p: "bytes_at mem s = Inr p" "unat (m_dwLen s) < length p" by (rule within_bytes)
  obtain hr d n where d: "CorSigUncompressDataLen p (m_dwLen s) = Inr (hr, d, n)" "SUCCEEDED hr \<Longrightarrow> n \<le> m_dwLen s"
    using CorSigUncompressDataLen_within [OF p(2)] by blast
  show "\<exists>hr a s' k. GetToken mem s = Inr (hr, a, s') \<and> consumed s k s' \<and> (FAILED hr \<longrightarrow> s' = s)"
  proof (cases "FAILED hr")
    case True
    then show ?thesis using p(1) d(1) by (simp add: GetToken_def CorSigUncompressTokenLen_def)
  next
    case False
    then show ?thesis using p(1) d(1) consumed_SkipBytes [OF d(2)] by (auto simp: GetToken_def CorSigUncompressTokenLen_def)
  qed
qed

interpretation pointer: sig_read GetPointer
proof
  fix mem s
  assume w: "within mem s"
  then obtain p where p: "bytes_at mem s = Inr p" "unat (m_dwLen s) < length p" by (rule within_bytes)
  show "\<exists>hr a s' k. GetPointer mem s = Inr (hr, a, s') \<and> consumed s k s' \<and> (FAILED hr \<longrightarrow> s' = s)"
  proof (cases "m_dwLen s < 8")
    case True
    then show ?thesis using consumed_0 [of s] by (auto simp: GetPointer_def)
  next
    case False
    then have "8 \<le> unat (m_dwLen s)" by (simp add: word_less_nat_alt)
    then show ?thesis
      using False p consumed_SkipBytes [of 8 s] by (auto simp: GetPointer_def load_le_def not_less)
  qed
qed

interpretation callconv: sig_read GetCallingConvInfo
proof
  fix mem s
  assume w: "within mem s"
  then obtain p where p: "bytes_at mem s = Inr p" "unat (m_dwLen s) < length p" by (rule within_bytes)
  show "\<exists>hr a s' k. GetCallingConvInfo mem s = Inr (hr, a, s') \<and> consumed s k s' \<and> (FAILED hr \<longrightarrow> s' = s)"
  proof (cases "0 < m_dwLen s")
    case True
    then show ?thesis using p consumed_SkipBytes_1 [of s]
      by (cases p) (auto simp: GetCallingConvInfo_def CorSigUncompressCallingConv_def peek_byte_def)
  next
    case False
    then show ?thesis using consumed_0 [of s]
      by (auto simp: GetCallingConvInfo_def CorSigUncompressCallingConv_def)
  qed
qed

lemma skip_modifiers_within:
  assumes "within mem s"
  shows "\<exists>hr b s' k. skip_modifiers mem tags s = Inr (hr, b, s') \<and> consumed s k s'"
  using assms
proof (induction mem tags s rule: skip_modifiers.induct)
  case (1 mem tags s)
  obtain hr b where p: "PeekByte mem s = Inr (hr, b)" "SUCCEEDED hr \<Longrightarrow> hr = S_OK \<and> 0 < m_dwLen s"
    using PeekByte_within [OF 1(2)] by blast
  show ?case
  proof (cases "SUCCEEDED hr \<and> b \<in> set tags")
    case False
    then show ?thesis using p(1) consumed_0 [of s] by (auto simp: skip_modifiers.simps [of mem tags s])
  next
    case True
    then have c: "consumed s (Suc 0) (SkipBytes 1 s)" using p by (simp add: consumed_SkipBytes_1)
    have w: "within mem (SkipBytes 1 s)" by (rule consumed_within [OF 1(2) c])
    obtain hr' tk s' k where g: "GetToken mem (SkipBytes 1 s) = Inr (hr', tk, s')" "consumed (SkipBytes 1 s) k s'"
      using token.bounded [OF w] by blast
    note c' = consumed_trans [OF c g(2)]
    show ?thesis
    proof (cases "FAILED hr'")
      case True
      then show ?thesis using p(1) g(1) c' \<open>SUCCEEDED hr \<and> b \<in> set tags\<close>
        by (auto simp: skip_modifiers.simps [of mem tags s])
    next
      case False
      have w': "within mem s'" by (rule consumed_within [OF w g(2)])
      obtain hr'' b'' s'' k' where "skip_modifiers mem tags s' = Inr (hr'', b'', s'')" "consumed s' k' s''"
        using 1(1) [OF p(1) refl _ _ g(1) refl refl _ w'] True False by auto
      then show ?thesis using p(1) g(1) True False consumed_trans [OF c']
        by (auto simp: skip_modifiers.simps [of mem tags s])
    qed
  qed
qed

lemma SkipCustomModifiers_within:
  assumes "within mem s"
  obtains hr s' k where "SkipCustomModifiers mem s = Inr (hr, s')" and "consumed s k s'" and "FAILED hr \<Longrightarrow> s' = s"
proof -
  obtain hr t k where t: "SkipAnyVASentinel mem s = Inr (hr, t)" "consumed s k t"
    using SkipAnyVASentinel_within [OF assms] by blast
  obtain hr' b u l where u: "skip_modifiers mem [ELEMENT_TYPE_CMOD_REQD, ELEMENT_TYPE_CMOD_OPT] t = Inr (hr', b, u)"
    "consumed t l u"
    using skip_modifiers_within [OF consumed_within [OF assms t(2)]] by blast
  let ?bad = "b \<ge> ELEMENT_TYPE_MAX \<and> b \<notin> {ELEMENT_TYPE_VAR_ZAPSIG, ELEMENT_TYPE_NATIVE_ARRAY_TEMPLATE_ZAPSIG,
               ELEMENT_TYPE_NATIVE_VALUETYPE_ZAPSIG, ELEMENT_TYPE_CANON_ZAPSIG,
               ELEMENT_TYPE_MODULE_ZAPSIG, ELEMENT_TYPE_PINNED}"
  show thesis
  proof (cases "FAILED hr \<or> FAILED hr' \<or> ?bad")
    case True
    then show ?thesis using that [OF _ consumed_0] t(1) u(1)
      by (cases "FAILED hr"; cases "FAILED hr'") (simp_all add: SkipCustomModifiers_def)
  next
    case False
    then have "SkipCustomModifiers mem s = Inr (hr', u)"
      using t(1) u(1) by (simp only: SkipCustomModifiers_def) auto
    then show ?thesis using that [OF _ consumed_trans [OF t(2) u(2)]] False by blast
  qed
qed

lemma SkipFunkyAndCustomModifiers_within:
  assumes "within mem s"
  obtains hr s' k where "SkipFunkyAndCustomModifiers mem s = Inr (hr, s')" and "consumed s k s'" and "FAILED hr \<Longrightarrow> s' = s"
proof -
  obtain hr t k where t: "SkipAnyVASentinel mem s = Inr (hr, t)" "consumed s k t"
    using SkipAnyVASentinel_within [OF assms] by blast
  obtain hr' b u l where u: "skip_modifiers mem [ELEMENT_TYPE_CMOD_REQD, ELEMENT_TYPE_CMOD_OPT,
      ELEMENT_TYPE_MODIFIER, ELEMENT_TYPE_PINNED] t = Inr (hr', b, u)" "consumed t l u"
    using skip_modifiers_within [OF consumed_within [OF assms t(2)]] by blast
  let ?bad = "b \<ge> ELEMENT_TYPE_MAX \<and> b \<notin> {ELEMENT_TYPE_NATIVE_ARRAY_TEMPLATE_ZAPSIG,
               ELEMENT_TYPE_NATIVE_VALUETYPE_ZAPSIG, ELEMENT_TYPE_CANON_ZAPSIG,
               ELEMENT_TYPE_MODULE_ZAPSIG, ELEMENT_TYPE_PINNED}"
  show thesis
  proof (cases "FAILED hr \<or> FAILED hr' \<or> ?bad")
    case True
    then show ?thesis using that [OF _ consumed_0] t(1) u(1)
      by (cases "FAILED hr"; cases "FAILED hr'") (simp_all add: SkipFunkyAndCustomModifiers_def)
  next
    case False
    then have "SkipFunkyAndCustomModifiers mem s = Inr (hr', u)"
      using t(1) u(1) by (simp only: SkipFunkyAndCustomModifiers_def) auto
    then show ?thesis using that [OF _ consumed_trans [OF t(2) u(2)]] False by blast
  qed
qed

interpretation slow: sig_read GetElemTypeSlow
proof
  fix mem s
  assume w: "within mem s"
  obtain hr t k where t: "SkipCustomModifiers mem s = Inr (hr, t)" "consumed s k t"
    using SkipCustomModifiers_within [OF w] by blast
  obtain hr' b u l where u: "GetByte mem t = Inr (hr', b, u)" "consumed t l u"
    using byte.bounded [OF consumed_within [OF w t(2)]] by blast
  show "\<exists>hr a s' k. GetElemTypeSlow mem s = Inr (hr, a, s') \<and> consumed s k s' \<and> (FAILED hr \<longrightarrow> s' = s)"
    using t u consumed_trans [OF t(2) u(2)] by (cases "FAILED hr"; cases "FAILED hr'") (auto simp: GetElemTypeSlow_def)
qed

section \<open>The fast paths\<close>

text \<open>On a byte that is neither a modifier nor a sentinel the slow path takes that byte.\<close>

lemma GetElemTypeSlow_plain:
  assumes "0 < m_dwLen s" and "deref mem s = Inr typ" and "typ < ELEMENT_TYPE_CMOD_REQD"
  shows "GetElemTypeSlow mem s = Inr (S_OK, typ, SkipBytes 1 s)"
proof -
  have ne: "typ \<noteq> ELEMENT_TYPE_SENTINEL" "typ \<noteq> ELEMENT_TYPE_CMOD_REQD" "typ \<noteq> ELEMENT_TYPE_CMOD_OPT"
    "\<not> ELEMENT_TYPE_MAX \<le> typ"
    using assms(3) by (auto simp: ets dest: order.strict_trans1)
  have p: "PeekByte mem s = Inr (S_OK, typ)" using assms by (simp add: PeekByte_def)
  then have "SkipAnyVASentinel mem s = Inr (S_OK, s)" by (simp add: SkipAnyVASentinel_def ne)
  then have "SkipCustomModifiers mem s = Inr (S_OK, s)"
    using p by (simp add: SkipCustomModifiers_def skip_modifiers.simps [of mem _ s] ne)
  then show ?thesis using assms by (simp add: GetElemTypeSlow_def GetByte_def)
qed

lemma GetElemType_eq: "GetElemType mem s = GetElemTypeSlow mem s"
proof (cases "0 < m_dwLen s")
  case True
  show ?thesis
  proof (cases "deref mem s")
    case (Inl f)
    then have "PeekByte mem s = Inl f" using True by (simp add: PeekByte_def)
    then show ?thesis using Inl True
      by (simp add: GetElemType_def GetElemTypeSlow_def SkipCustomModifiers_def SkipAnyVASentinel_def)
  next
    case (Inr ty)
    then show ?thesis using True GetElemTypeSlow_plain [OF True Inr] by (simp add: GetElemType_def)
  qed
qed (simp add: GetElemType_def)

text \<open>The inlined \<open>GetElemType\<close> and \<open>PeekElemType\<close>, which take a byte below \<open>CMOD_REQD\<close> straight
  from the signature, agree with their general versions on every memory and every parser, faults and
  malformed signatures included.\<close>

theorem GetElemType_fast_path:
  "GetElemType mem s = GetElemTypeSlow mem s \<and> PeekElemType mem s = PeekElemTypeSlow mem s"
proof (cases "0 < m_dwLen s")
  case True
  show ?thesis
  proof (cases "deref mem s")
    case (Inl f)
    then have "GetElemType mem s = Inl f" using True by (simp add: GetElemType_def)
    then show ?thesis
      using Inl True GetElemType_eq [of mem s] by (simp add: PeekElemType_def PeekElemTypeSlow_def)
  next
    case (Inr ty)
    then have "GetElemType mem s = Inr (S_OK, ty, SkipBytes 1 s)" if "ty < ELEMENT_TYPE_CMOD_REQD"
      using True that by (simp add: GetElemType_def)
    then show ?thesis
      using Inr True GetElemType_eq [of mem s] by (simp add: PeekElemType_def PeekElemTypeSlow_def)
  qed
qed (simp add: PeekElemType_def GetElemType_eq)

interpretation elem_type: sig_read GetElemType
  unfolding sig_read_def using slow.bounded by (simp add: GetElemType_eq)

section \<open>Calls in any order\<close>

text \<open>One call of a method that moves the parser.\<close>

inductive sig_call :: "BYTE list \<Rightarrow> SigParser \<Rightarrow> SigParser \<Rightarrow> bool" for mem where
  call_GetData: "GetData mem s = Inr (hr, d, s') \<Longrightarrow> sig_call mem s s'"
| call_GetByte: "GetByte mem s = Inr (hr, b, s') \<Longrightarrow> sig_call mem s s'"
| call_GetToken: "GetToken mem s = Inr (hr, tk, s') \<Longrightarrow> sig_call mem s s'"
| call_GetPointer: "GetPointer mem s = Inr (hr, v, s') \<Longrightarrow> sig_call mem s s'"
| call_GetElemType: "GetElemType mem s = Inr (hr, et, s') \<Longrightarrow> sig_call mem s s'"
| call_GetCallingConv: "GetCallingConv mem s = Inr (hr, cc, s') \<Longrightarrow> sig_call mem s s'"
| call_SkipAnyVASentinel: "SkipAnyVASentinel mem s = Inr (hr, s') \<Longrightarrow> sig_call mem s s'"
| call_SkipCustomModifiers: "SkipCustomModifiers mem s = Inr (hr, s') \<Longrightarrow> sig_call mem s s'"
| call_SkipFunky: "SkipFunkyAndCustomModifiers mem s = Inr (hr, s') \<Longrightarrow> sig_call mem s s'"

text \<open>No call faults, whichever the parser's state.\<close>

definition no_call_faults :: "BYTE list \<Rightarrow> SigParser \<Rightarrow> bool" where
  "no_call_faults mem s \<longleftrightarrow> completes (GetData mem s) \<and> completes (GetByte mem s) \<and> completes (GetToken mem s) \<and>
     completes (GetPointer mem s) \<and> completes (GetElemType mem s) \<and> completes (GetCallingConv mem s) \<and>
     completes (SkipAnyVASentinel mem s) \<and> completes (SkipCustomModifiers mem s) \<and>
     completes (SkipFunkyAndCustomModifiers mem s)"

lemma sig_call_consumed:
  assumes "within mem s" and "sig_call mem s s'"
  shows "\<exists>k. consumed s k s'"
  using assms(2)
proof (cases rule: sig_call.cases)
  case (call_GetData hr d)
  then show ?thesis by (rule data.read_within(2) [OF assms(1)])
next
  case (call_GetByte hr b)
  then show ?thesis by (rule byte.read_within(2) [OF assms(1)])
next
  case (call_GetToken hr tk)
  then show ?thesis by (rule token.read_within(2) [OF assms(1)])
next
  case (call_GetPointer hr v)
  then show ?thesis by (rule pointer.read_within(2) [OF assms(1)])
next
  case (call_GetElemType hr et)
  then show ?thesis by (rule elem_type.read_within(2) [OF assms(1)])
next
  case (call_GetCallingConv hr cc)
  then obtain i where "GetCallingConvInfo mem s = Inr (hr, i, s')" by (auto simp: GetCallingConv_def)
  then show ?thesis by (rule callconv.read_within(2) [OF assms(1)])
next
  case (call_SkipAnyVASentinel hr)
  then show ?thesis using SkipAnyVASentinel_within [OF assms(1)] by auto
next
  case (call_SkipCustomModifiers hr)
  then show ?thesis using SkipCustomModifiers_within [OF assms(1)] by (metis Inr_inject prod.inject)
next
  case (call_SkipFunky hr)
  then show ?thesis using SkipFunkyAndCustomModifiers_within [OF assms(1)] by (metis Inr_inject prod.inject)
qed

lemma within_no_call_faults: "within mem s \<Longrightarrow> no_call_faults mem s"
proof -
  assume w: "within mem s"
  have "completes (GetCallingConv mem s)"
    using callconv.bounded [OF w] by (auto simp: GetCallingConv_def)
  moreover have "completes (SkipAnyVASentinel mem s)" "completes (SkipCustomModifiers mem s)"
    "completes (SkipFunkyAndCustomModifiers mem s)"
    using SkipAnyVASentinel_within [OF w] SkipCustomModifiers_within [OF w] SkipFunkyAndCustomModifiers_within [OF w]
    by (metis completes_simps(1))+
  ultimately show ?thesis
    using data.read_completes [OF w] byte.read_completes [OF w] token.read_completes [OF w]
      pointer.read_completes [OF w] elem_type.read_completes [OF w] by (simp add: no_call_faults_def)
qed

text \<open>C23: a parser over a signature with a readable byte behind it stays inside the signature through
  any sequence of calls: it only moves forward, its position and remaining length add up to the same
  end, and none of its methods reads outside the memory in any state reached.\<close>

theorem SigParser_stays_within:
  assumes "within mem s" and "(sig_call mem)\<^sup>*\<^sup>* s s'"
  shows "within mem s' \<and> (\<exists>k. consumed s k s') \<and> no_call_faults mem s'"
  using assms(2)
proof (induction rule: rtranclp_induct)
  case base
  then show ?case using assms(1) by (simp add: within_no_call_faults)
next
  case (step t u)
  then obtain k l where "consumed s k t" "consumed t l u" using sig_call_consumed by blast
  then have "consumed s (k + l) u" by (rule consumed_trans)
  with consumed_within [OF assms(1) this] show ?case by (auto simp: within_no_call_faults)
qed

theorem SigParser_stays_within_witness:
  "within [8, 0x0e, 0] (SigParser_len (Some 1) 1) \<and>
     no_call_faults [8, 0x0e, 0] (SkipBytes 1 (SigParser_len (Some 0) 2))"
proof -
  have w: "within [8, 0x0e, 0] (SigParser_len (Some 0) 2)" by (simp add: within_def SigParser_len_def)
  have g: "GetByte [8, 0x0e, 0] (SigParser_len (Some 0) 2) = Inr (S_OK, 8, SkipBytes 1 (SigParser_len (Some 0) 2))"
    by (simp add: GetByte_def SigParser_len_def deref_def bytes_at_def peek_byte_def)
  have e: "SkipBytes 1 (SigParser_len (Some 0) 2) = SigParser_len (Some 1) 1"
    by (simp add: SkipBytes_def SigParser_len_def)
  show ?thesis using SigParser_stays_within [OF w r_into_rtranclp, OF call_GetByte, OF g] by (simp add: e)
qed

section \<open>Reading what was written\<close>

text \<open>The parser over the bytes \<open>xs\<close> that follow \<open>pre\<close> in memory, and the bytes of a list of custom
  modifiers.\<close>

definition parser_over :: "BYTE list \<Rightarrow> BYTE list \<Rightarrow> SigParser" where
  "parser_over pre xs = SigParser_len (Some (length pre)) (word_of_nat (length xs))"

definition modifier_bytes :: "(BYTE \<times> mdToken) list \<Rightarrow> BYTE list" where
  "modifier_bytes ms = concat (map (\<lambda>(t, tk). t # snd (CorSigCompressToken tk)) ms)"

lemma bytes_at_over [simp]: "bytes_at (pre @ xs) (parser_over pre xs) = Inr xs"
  by (simp add: parser_over_def SigParser_len_def bytes_at_def)

lemma dwLen_over [simp]: "m_dwLen (parser_over pre xs) = word_of_nat (length xs)"
  by (simp add: parser_over_def SigParser_len_def)

lemma SkipBytes_over:
  assumes "unat n = length ys"
  shows "SkipBytes n (parser_over pre (ys @ xs)) = parser_over (pre @ ys) xs"
proof -
  have "n = word_of_nat (length ys)" using assms [symmetric] by simp
  then show ?thesis using assms by (simp add: SkipBytes_def parser_over_def SigParser_len_def)
qed

lemma dwLen_over_pos: "length xs < 2 ^ 32 \<Longrightarrow> 0 < (word_of_nat (length xs) :: 32 word) \<longleftrightarrow> xs \<noteq> []"
  using unat_of_nat_32 [of "length xs"] by (auto simp: word_less_nat_alt)

lemma PeekByte_over:
  assumes "length (b # xs) < 2 ^ 32"
  shows "PeekByte (pre @ b # xs) (parser_over pre (b # xs)) = Inr (S_OK, b)"
  using dwLen_over_pos [OF assms] by (simp add: PeekByte_def deref_def peek_byte_def)

lemma GetByte_over:
  assumes "length (b # xs) < 2 ^ 32"
  shows "GetByte (pre @ b # xs) (parser_over pre (b # xs)) = Inr (S_OK, b, parser_over (pre @ [b]) xs)"
  using dwLen_over_pos [OF assms] SkipBytes_over [of 1 "[b]" pre xs]
  by (simp add: GetByte_def deref_def peek_byte_def)

lemma GetToken_over:
  assumes "TypeFromToken tk \<in> set g_tkCorEncodeToken" and "length (snd (CorSigCompressToken tk) @ xs) < 2 ^ 32"
  shows "GetToken (pre @ snd (CorSigCompressToken tk) @ xs) (parser_over pre (snd (CorSigCompressToken tk) @ xs)) =
     Inr (S_OK, tk, parser_over (pre @ snd (CorSigCompressToken tk)) xs)"
proof -
  obtain n bs where c: "CorSigCompressToken tk = (n, bs)" by fastforce
  note len = CorSigToken_length [OF c]
  have "n \<le> word_of_nat (length (bs @ xs))"
    using assms(2) len(3) by (simp add: c word_le_nat_alt unat_of_nat_32 del: of_nat_add)
  from CorSigTokenLen_reads [OF assms(1) c this] show ?thesis
    by (simp add: GetToken_def c SkipBytes_over [OF len(3)] del: of_nat_add)
qed

lemma skip_modifiers_over:
  assumes "\<forall>(t, tk) \<in> set ms. t \<in> set tags \<and> TypeFromToken tk \<in> set g_tkCorEncodeToken"
    and "et \<notin> set tags" and "length (modifier_bytes ms @ et # xs) < 2 ^ 32"
  shows "skip_modifiers (pre @ modifier_bytes ms @ et # xs) tags (parser_over pre (modifier_bytes ms @ et # xs)) =
     Inr (S_OK, et, parser_over (pre @ modifier_bytes ms) (et # xs))"
  using assms
proof (induction ms arbitrary: pre)
  case Nil
  then show ?case
    using PeekByte_over [of et xs pre] by (simp add: skip_modifiers.simps [of _ tags] modifier_bytes_def)
next
  case (Cons m ms)
  obtain t tk where m: "m = (t, tk)" by fastforce
  let ?tb = "snd (CorSigCompressToken tk)" and ?r = "modifier_bytes ms @ et # xs"
  have b: "modifier_bytes (m # ms) @ et # xs = t # ?tb @ ?r" by (simp add: modifier_bytes_def m)
  have t: "t \<in> set tags" "TypeFromToken tk \<in> set g_tkCorEncodeToken" using Cons.prems(1) by (simp_all add: m)
  have len: "length (t # ?tb @ ?r) < 2 ^ 32" using Cons.prems(3) unfolding b .
  have g: "GetToken (pre @ t # ?tb @ ?r) (SkipBytes 1 (parser_over pre (t # ?tb @ ?r))) =
      Inr (S_OK, tk, parser_over ((pre @ [t]) @ ?tb) ?r)"
    using GetToken_over [OF t(2), of ?r "pre @ [t]"] len SkipBytes_over [of 1 "[t]" pre "?tb @ ?r"] by simp
  have ih: "skip_modifiers (pre @ t # ?tb @ ?r) tags (parser_over ((pre @ [t]) @ ?tb) ?r) =
      Inr (S_OK, et, parser_over (((pre @ [t]) @ ?tb) @ modifier_bytes ms) (et # xs))"
    using Cons.IH [of "(pre @ [t]) @ ?tb"] Cons.prems(1,2) len by simp
  have "((pre @ [t]) @ ?tb) @ modifier_bytes ms = pre @ modifier_bytes (m # ms)"
    by (simp add: modifier_bytes_def m)
  then show ?case
    unfolding b using PeekByte_over [OF len, of pre] t(1) g ih
    by (subst skip_modifiers.simps) simp
qed

text \<open>A parameter's custom modifiers, each a modifier byte and the compressed token of a type, and a
  sentinel before them are skipped: \<open>GetElemType\<close> returns the element type behind them and leaves the
  parser at the first byte after it, whatever follows.\<close>

theorem GetElemType_skips_modifiers:
  assumes mods: "\<forall>(t, tk) \<in> set ms. t \<in> {ELEMENT_TYPE_CMOD_REQD, ELEMENT_TYPE_CMOD_OPT} \<and>
      TypeFromToken tk \<in> set g_tkCorEncodeToken"
    and et: "et < ELEMENT_TYPE_MAX" "et \<notin> {ELEMENT_TYPE_CMOD_REQD, ELEMENT_TYPE_CMOD_OPT}"
    and sent: "sent = [] \<or> sent = [ELEMENT_TYPE_SENTINEL]"
    and sig: "sig = sent @ modifier_bytes ms @ et # xs" "length sig < 2 ^ 32"
  shows "GetElemType (pre @ sig) (parser_over pre sig) =
     Inr (S_OK, et, parser_over (pre @ sent @ modifier_bytes ms @ [et]) xs)"
proof -
  let ?tags = "[ELEMENT_TYPE_CMOD_REQD, ELEMENT_TYPE_CMOD_OPT]"
  let ?r = "modifier_bytes ms @ et # xs" and ?mem = "pre @ sig"
  have bounds: "\<not> ELEMENT_TYPE_MAX \<le> et" using et(1) by simp
  have ne: "et \<noteq> ELEMENT_TYPE_SENTINEL" using et(1) by (auto simp: ets)
  have s1: "SkipAnyVASentinel ?mem (parser_over pre sig) = Inr (S_OK, parser_over (pre @ sent) ?r)"
  proof (cases "sent = []")
    case True
    obtain b bs where b: "?r = b # bs" by (cases "modifier_bytes ms") auto
    have "b \<noteq> ELEMENT_TYPE_SENTINEL"
      using mods ne b by (cases ms) (auto simp: modifier_bytes_def ets)
    then show ?thesis
      using True sig PeekByte_over [of b bs pre] by (simp add: SkipAnyVASentinel_def b)
  next
    case False
    then have "sent = [ELEMENT_TYPE_SENTINEL]" using sent by simp
    then show ?thesis
      using sig PeekByte_over [of ELEMENT_TYPE_SENTINEL ?r pre] SkipBytes_over [of 1 "[ELEMENT_TYPE_SENTINEL]" pre ?r]
      by (simp add: SkipAnyVASentinel_def)
  qed
  have "skip_modifiers ?mem ?tags (parser_over (pre @ sent) ?r) =
      Inr (S_OK, et, parser_over ((pre @ sent) @ modifier_bytes ms) (et # xs))"
    using skip_modifiers_over [of ms ?tags et xs "pre @ sent"] mods et(2) sig by auto
  then have "SkipCustomModifiers ?mem (parser_over pre sig) =
      Inr (S_OK, parser_over ((pre @ sent) @ modifier_bytes ms) (et # xs))"
    using s1 bounds by (simp add: SkipCustomModifiers_def)
  moreover have "GetByte ?mem (parser_over ((pre @ sent) @ modifier_bytes ms) (et # xs)) =
      Inr (S_OK, et, parser_over (((pre @ sent) @ modifier_bytes ms) @ [et]) xs)"
    using GetByte_over [of et xs "(pre @ sent) @ modifier_bytes ms"] sig by simp
  ultimately show ?thesis by (simp add: GetElemType_eq GetElemTypeSlow_def)
qed

theorem GetElemType_skips_modifiers_witness:
  "GetElemType [0x41, 0x1f, 0x49, 0x08, 0x0e] (SigParser_len (Some 0) 5) =
     Inr (S_OK, ELEMENT_TYPE_I4, SigParser_len (Some 4) 1)"
proof -
  have c: "CorSigCompressToken 0x01000012 = (1, [0x49])" by code_simp
  have t: "TypeFromToken 0x01000012 \<in> set g_tkCorEncodeToken" by code_simp
  have 4: "(4 :: nat) = Suc (Suc (Suc (Suc 0)))" by simp
  show ?thesis
    unfolding 4 using GetElemType_skips_modifiers [of "[(ELEMENT_TYPE_CMOD_REQD, 0x01000012)]" ELEMENT_TYPE_I4
        "[ELEMENT_TYPE_SENTINEL]" "[0x41, 0x1f, 0x49, 0x08, 0x0e]" "[0x0e]" "[]"] c t
    by (simp add: ets modifier_bytes_def parser_over_def)
qed

text \<open>A number read from the bytes a length promises: only their absence makes it fault, whatever the length.\<close>

lemma CorSigUncompressDataLen_faults:
  assumes "unat len \<le> length p"
  shows "CorSigUncompressDataLen p len = Inl e \<longleftrightarrow> p = [] \<and> e = OutOfBounds"
proof (cases p)
  case (Cons b r)
  have at: "byte_at p k = Inr (p ! k)" if "\<not> len < n" "k < unat n" for k and n :: ULONG
    using that assms by (simp add: byte_at_def word_less_nat_alt)
  show ?thesis
    using at [of 2 1] at [of 4 1] at [of 4 2] at [of 4 3]
    by (auto simp: CorSigUncompressDataLen_def Cons peek_byte_def)
qed (auto simp: CorSigUncompressDataLen_def peek_byte_def)

lemma CorSigUncompressTokenLen_faults:
  "unat len \<le> length p \<Longrightarrow> CorSigUncompressTokenLen p len = Inl e \<longleftrightarrow> p = [] \<and> e = OutOfBounds"
  using CorSigUncompressDataLen_faults [of len p e]
  by (cases "CorSigUncompressDataLen p len") (auto simp: CorSigUncompressTokenLen_def split: if_splits)

lemma CorSigUncompressDataLen_0:
  "p \<noteq> [] \<Longrightarrow> CorSigUncompressDataLen p 0 = Inr (META_E_BAD_SIGNATURE, 0, 0)"
  by (cases p) (simp_all add: CorSigUncompressDataLen_def peek_byte_def)

text \<open>C24: the only read outside the signature. For every memory and every parser whose remaining bytes lie in it,
  \<open>GetByte\<close> never faults and reports a malformed signature exactly when no byte remains; \<open>GetData\<close> and \<open>GetToken\<close>
  read beyond the memory exactly when the parser is exhausted and the memory ends with its signature, since the routines
  they call look at the first byte before they compare the length. Where something readable follows the signature an
  exhausted parser reads it too, but answers \<open>META_E_BAD_SIGNATURE\<close> and stays where it is.\<close>

theorem exhausted_GetToken_reads_past_end:
  assumes "m_ptr s = Some i" and "i + unat (m_dwLen s) \<le> length mem"
  shows "GetByte mem s = (if m_dwLen s = 0 then Inr (META_E_BAD_SIGNATURE, 0, s) else Inr (S_OK, mem ! i, SkipBytes 1 s)) \<and>
     (GetData mem s = Inl e \<longleftrightarrow> m_dwLen s = 0 \<and> i = length mem \<and> e = OutOfBounds) \<and>
     (GetToken mem s = Inl e \<longleftrightarrow> m_dwLen s = 0 \<and> i = length mem \<and> e = OutOfBounds) \<and>
     (m_dwLen s = 0 \<and> i < length mem \<longrightarrow>
        GetData mem s = Inr (META_E_BAD_SIGNATURE, 0, s) \<and> GetToken mem s = Inr (META_E_BAD_SIGNATURE, mdTokenNil, s))"
proof -
  have le: "unat (m_dwLen s) \<le> length (drop i mem)" using assms(2) by simp
  have b: "bytes_at mem s = Inr (drop i mem)" by (simp add: bytes_at_def assms(1))
  have nil: "drop i mem = [] \<longleftrightarrow> m_dwLen s = 0 \<and> i = length mem" using assms(2) by (auto simp: unat_eq_0 [symmetric])
  have byte: "peek_byte (drop i mem) = Inr (mem ! i)" if "0 < m_dwLen s"
    using le that by (cases "drop i mem") (auto simp: peek_byte_def nth_via_drop word_less_nat_alt)
  have d: "GetData mem s = Inl e \<longleftrightarrow> drop i mem = [] \<and> e = OutOfBounds"
    using CorSigUncompressDataLen_faults [OF le, of e]
    by (cases "CorSigUncompressDataLen (drop i mem) (m_dwLen s)") (auto simp: GetData_def b split: if_splits)
  have t: "GetToken mem s = Inl e \<longleftrightarrow> drop i mem = [] \<and> e = OutOfBounds"
    using CorSigUncompressTokenLen_faults [OF le, of e]
    by (cases "CorSigUncompressTokenLen (drop i mem) (m_dwLen s)") (auto simp: GetToken_def b split: if_splits)
  have z: "GetData mem s = Inr (META_E_BAD_SIGNATURE, 0, s) \<and> GetToken mem s = Inr (META_E_BAD_SIGNATURE, mdTokenNil, s)"
    if "m_dwLen s = 0" "i < length mem"
    using that CorSigUncompressDataLen_0 [of "drop i mem"]
    by (simp add: GetData_def GetToken_def CorSigUncompressTokenLen_def b)
  show ?thesis
    using d t z byte unfolding nil by (auto simp: GetByte_def deref_def b word_gt_0)
qed

text \<open>A parser at the end of the memory of two bytes, and one with a byte behind it.\<close>

theorem exhausted_GetToken_reads_past_end_witness:
  "GetToken [0x12, 0x49] (SigParser_len (Some 2) 0) = Inl OutOfBounds \<and>
   GetData [0x12, 0x49] (SigParser_len (Some 1) 0) = Inr (META_E_BAD_SIGNATURE, 0, SigParser_len (Some 1) 0)"
  using exhausted_GetToken_reads_past_end [of "SigParser_len (Some 2) 0" 2 "[0x12, 0x49]" OutOfBounds]
    exhausted_GetToken_reads_past_end [of "SigParser_len (Some 1) 0" 1 "[0x12, 0x49]" OutOfBounds]
  by (simp add: SigParser_len_def)

section \<open>\<open>CorTypeInfo\<close>\<close>

text \<open>The table \<open>info\<close> is defined in a file of the runtime outside the repository; the accessors take it
  as an argument.\<close>

datatype CorInfoGCType = TYPE_GC_NONE | TYPE_GC_REF | TYPE_GC_BYREF | TYPE_GC_OTHER

type_synonym LPCUTF8 = "string option"

record CorTypeInfoEntry =
  nameSpace :: LPCUTF8
  className :: LPCUTF8
  entry_type :: "8 word"
  entry_size :: "8 word"
  gcType :: CorInfoGCType
  isArray :: bool
  isPrim :: bool
  isFloat :: bool
  isModifier :: bool
  isGenVar :: bool

definition CorTypeInfo_GetTypeInfo :: "CorTypeInfoEntry list \<Rightarrow> BYTE \<Rightarrow> CorTypeInfoEntry outcome" where
  "CorTypeInfo_GetTypeInfo info type =
     (if unat type \<ge> length info then Inl UncaughtException else Inr (info ! unat type))"

definition CorTypeInfo_GetTypeInfo_NoThrow :: "CorTypeInfoEntry list \<Rightarrow> BYTE \<Rightarrow> CorTypeInfoEntry" where
  "CorTypeInfo_GetTypeInfo_NoThrow info type =
     (if unat type \<ge> length info then info ! unat ELEMENT_TYPE_END else info ! unat type)"

definition CorTypeInfo_GetName :: "CorTypeInfoEntry list \<Rightarrow> BYTE \<Rightarrow> LPCUTF8 outcome" where
  "CorTypeInfo_GetName info type = bindO (CorTypeInfo_GetTypeInfo info type) (\<lambda>e. Inr (className e))"

definition CorTypeInfo_GetNamespace :: "CorTypeInfoEntry list \<Rightarrow> BYTE \<Rightarrow> LPCUTF8 outcome" where
  "CorTypeInfo_GetNamespace info type = bindO (CorTypeInfo_GetTypeInfo info type) (\<lambda>e. Inr (nameSpace e))"

definition CorTypeInfo_GetGCType :: "CorTypeInfoEntry list \<Rightarrow> BYTE \<Rightarrow> CorInfoGCType outcome" where
  "CorTypeInfo_GetGCType info type = bindO (CorTypeInfo_GetTypeInfo info type) (\<lambda>e. Inr (gcType e))"

definition CorTypeInfo_GetGCType_NoThrow :: "CorTypeInfoEntry list \<Rightarrow> BYTE \<Rightarrow> CorInfoGCType" where
  "CorTypeInfo_GetGCType_NoThrow info type = gcType (CorTypeInfo_GetTypeInfo_NoThrow info type)"

definition CorTypeInfo_IsObjRef :: "CorTypeInfoEntry list \<Rightarrow> BYTE \<Rightarrow> bool outcome" where
  "CorTypeInfo_IsObjRef info type = bindO (CorTypeInfo_GetGCType info type) (\<lambda>g. Inr (g = TYPE_GC_REF))"

definition CorTypeInfo_IsObjRef_NoThrow :: "CorTypeInfoEntry list \<Rightarrow> BYTE \<Rightarrow> bool" where
  "CorTypeInfo_IsObjRef_NoThrow info type \<longleftrightarrow> CorTypeInfo_GetGCType_NoThrow info type = TYPE_GC_REF"

definition CorTypeInfo_IsGenericVariable :: "CorTypeInfoEntry list \<Rightarrow> BYTE \<Rightarrow> bool outcome" where
  "CorTypeInfo_IsGenericVariable info type = bindO (CorTypeInfo_GetTypeInfo info type) (\<lambda>e. Inr (isGenVar e))"

definition CorTypeInfo_IsGenericVariable_NoThrow :: "CorTypeInfoEntry list \<Rightarrow> BYTE \<Rightarrow> bool" where
  "CorTypeInfo_IsGenericVariable_NoThrow info type = isGenVar (CorTypeInfo_GetTypeInfo_NoThrow info type)"

definition CorTypeInfo_IsArray :: "CorTypeInfoEntry list \<Rightarrow> BYTE \<Rightarrow> bool outcome" where
  "CorTypeInfo_IsArray info type = bindO (CorTypeInfo_GetTypeInfo info type) (\<lambda>e. Inr (isArray e))"

definition CorTypeInfo_IsArray_NoThrow :: "CorTypeInfoEntry list \<Rightarrow> BYTE \<Rightarrow> bool" where
  "CorTypeInfo_IsArray_NoThrow info type = isArray (CorTypeInfo_GetTypeInfo_NoThrow info type)"

definition CorTypeInfo_IsFloat :: "CorTypeInfoEntry list \<Rightarrow> BYTE \<Rightarrow> bool outcome" where
  "CorTypeInfo_IsFloat info type = bindO (CorTypeInfo_GetTypeInfo info type) (\<lambda>e. Inr (isFloat e))"

definition CorTypeInfo_IsFloat_NoThrow :: "CorTypeInfoEntry list \<Rightarrow> BYTE \<Rightarrow> bool" where
  "CorTypeInfo_IsFloat_NoThrow info type = isFloat (CorTypeInfo_GetTypeInfo_NoThrow info type)"

definition CorTypeInfo_IsModifier :: "CorTypeInfoEntry list \<Rightarrow> BYTE \<Rightarrow> bool outcome" where
  "CorTypeInfo_IsModifier info type = bindO (CorTypeInfo_GetTypeInfo info type) (\<lambda>e. Inr (isModifier e))"

definition CorTypeInfo_IsModifier_NoThrow :: "CorTypeInfoEntry list \<Rightarrow> BYTE \<Rightarrow> bool" where
  "CorTypeInfo_IsModifier_NoThrow info type = isModifier (CorTypeInfo_GetTypeInfo_NoThrow info type)"

definition CorTypeInfo_IsPrimitiveType :: "CorTypeInfoEntry list \<Rightarrow> BYTE \<Rightarrow> bool outcome" where
  "CorTypeInfo_IsPrimitiveType info type = bindO (CorTypeInfo_GetTypeInfo info type) (\<lambda>e. Inr (isPrim e))"

definition CorTypeInfo_IsPrimitiveType_NoThrow :: "CorTypeInfoEntry list \<Rightarrow> BYTE \<Rightarrow> bool" where
  "CorTypeInfo_IsPrimitiveType_NoThrow info type = isPrim (CorTypeInfo_GetTypeInfo_NoThrow info type)"

definition CorTypeInfo_Size :: "CorTypeInfoEntry list \<Rightarrow> BYTE \<Rightarrow> (8 word) outcome" where
  "CorTypeInfo_Size info type = bindO (CorTypeInfo_GetTypeInfo info type) (\<lambda>e. Inr (entry_size e))"

definition CorTypeInfo_Size_NoThrow :: "CorTypeInfoEntry list \<Rightarrow> BYTE \<Rightarrow> 8 word" where
  "CorTypeInfo_Size_NoThrow info type = entry_size (CorTypeInfo_GetTypeInfo_NoThrow info type)"

text \<open>Over a table with an entry for each type below \<open>ELEMENT_TYPE_MAX\<close> the throwing lookup accepts those
  types and then finds the entry the other one finds.\<close>

lemma CorTypeInfo_lookups_agree:
  assumes "length info = unat ELEMENT_TYPE_MAX"
  shows "CorTypeInfo_GetTypeInfo info type =
     (if type < ELEMENT_TYPE_MAX then Inr (CorTypeInfo_GetTypeInfo_NoThrow info type) else Inl UncaughtException)"
  using assms by (simp add: CorTypeInfo_GetTypeInfo_def CorTypeInfo_GetTypeInfo_NoThrow_def word_less_nat_alt not_less)

end
