(* ===== verification/TypeParser.thy ===== *)
theory TypeParser
  imports ElementType
begin

text \<open>
  The recursive-descent recogniser of type signatures, \<^verbatim>\<open>info/parser.cpp\<close>.

  An iterator of a byte vector is the list of the bytes from it to the end of the vector: \<open>*begin\<close> at
  the end is the fault \<open>OutOfBounds\<close>, and so is advancing past the end. A parser returns its verdict
  and the advanced iterator, which it leaves wherever it stopped when it fails.
\<close>

section \<open>The parsers\<close>

type_synonym parsed = "(bool \<times> BYTE list) outcome"

definition advance :: "nat \<Rightarrow> BYTE list \<Rightarrow> BYTE list outcome" where
  "advance n p = (if n \<le> length p then Inr (drop n p) else Inl OutOfBounds)"

definition ParseTypeDefOrRefEncoded :: "BYTE list \<Rightarrow> parsed" where
  "ParseTypeDefOrRefEncoded p =
     bindO (CorSigUncompressToken p) (\<lambda>(result, typeToken).
       if result = -1 then Inr (False, p)
       else bindO (advance (unat result) p) (\<lambda>p. Inr (True, p)))"

definition ParseCustomMod :: "BYTE list \<Rightarrow> parsed" where
  "ParseCustomMod p =
     bindO (peek_byte p) (\<lambda>b.
       if b = ELEMENT_TYPE_CMOD_OPT \<or> b = ELEMENT_TYPE_CMOD_REQD then
         bindO (advance 1 p) ParseTypeDefOrRefEncoded
       else Inr (False, p))"

text \<open>(verdict, \<open>number\<close>, iterator); \<open>number\<close> is 0 after a failure.\<close>

definition ParseNumber :: "BYTE list \<Rightarrow> (bool \<times> ULONG \<times> BYTE list) outcome" where
  "ParseNumber p =
     bindO (CorSigUncompressData p) (\<lambda>(result, number).
       if result = -1 then Inr (False, number, p)
       else bindO (advance (unat result) p) (\<lambda>p. Inr (True, number, p)))"

lemma advance_Inr: "advance n p = Inr q \<longleftrightarrow> n \<le> length p \<and> q = drop n p"
  by (auto simp: advance_def)

lemma drop_less: "n \<le> length p \<Longrightarrow> 0 < n \<Longrightarrow> length p - n < length p"
  by simp

lemma CorSigUncompressData_pos:
  assumes "CorSigUncompressData p = Inr (n, d)" and "n \<noteq> -1"
  shows "0 < unat n"
proof -
  obtain hr d' n' where c: "CorSigUncompressDataLen p 0xff = Inr (hr, d', n')" "SUCCEEDED hr" "n = n'"
    using assms by (auto simp: CorSigUncompressData_def split: if_splits)
  then have "hr = S_OK"
    by (auto simp: CorSigUncompressDataLen_def split: if_splits)
  then have "CorSigUncompressDataLen p 0xff = Inr (S_OK, d', n')" using c by simp
  then show ?thesis using c(3) by (cases rule: CorSigUncompressDataLen_OK_cases) auto
qed

lemma ParseTypeDefOrRefEncoded_shrinks:
  assumes "ParseTypeDefOrRefEncoded p = Inr (b, q)"
  shows "length q \<le> length p" and "b \<Longrightarrow> length q < length p"
  using assms CorSigUncompressData_pos [of p]
  by (auto simp: ParseTypeDefOrRefEncoded_def CorSigUncompressToken_def advance_Inr drop_less split: if_splits)

lemma ParseNumber_shrinks:
  assumes "ParseNumber p = Inr (b, n, q)"
  shows "length q \<le> length p" and "b \<Longrightarrow> length q < length p"
  using assms CorSigUncompressData_pos [of p]
  by (auto simp: ParseNumber_def advance_Inr drop_less split: if_splits)

lemma ParseCustomMod_shrinks:
  assumes "ParseCustomMod p = Inr (b, q)"
  shows "length q \<le> length p" and "b \<Longrightarrow> length q < length p"
  using assms ParseTypeDefOrRefEncoded_shrinks [of "drop 1 p" b q]
  by (auto simp: ParseCustomMod_def advance_Inr split: if_splits)

function ParseOptionalCustomMods :: "BYTE list \<Rightarrow> parsed" where
  "ParseOptionalCustomMods p =
     bindO (peek_byte p) (\<lambda>b.
       if b = ELEMENT_TYPE_CMOD_OPT \<or> b = ELEMENT_TYPE_CMOD_REQD then
         bindO (ParseCustomMod p) (\<lambda>(ok, q).
           if \<not> ok then Inr (False, q) else ParseOptionalCustomMods q)
       else Inr (True, p))"
  by pat_completeness auto
termination
  by (relation "measure length") (auto dest: ParseCustomMod_shrinks(2))

declare ParseOptionalCustomMods.simps [simp del]

text \<open>The \<open>for\<close> loops: a parser applied a number of times, up to its first failure.\<close>

fun parse_times :: "nat \<Rightarrow> (BYTE list \<Rightarrow> parsed) \<Rightarrow> BYTE list \<Rightarrow> parsed" where
  "parse_times 0 f p = Inr (True, p)"
| "parse_times (Suc n) f p = bindO (f p) (\<lambda>(ok, p). if \<not> ok then Inr (False, p) else parse_times n f p)"

definition skip_number :: "BYTE list \<Rightarrow> parsed" where
  "skip_number p = bindO (ParseNumber p) (\<lambda>(ok, _, p). Inr (ok, p))"

definition ParseArrayShape :: "BYTE list \<Rightarrow> parsed" where
  "ParseArrayShape p =
     bindO (ParseNumber p) (\<lambda>(ok, rank, p).
     if \<not> ok then Inr (False, p) else
     bindO (ParseNumber p) (\<lambda>(ok, numsizes, p).
     if \<not> ok then Inr (False, p) else
     bindO (parse_times (unat numsizes) skip_number p) (\<lambda>(ok, p).
     if \<not> ok then Inr (False, p) else
     bindO (ParseNumber p) (\<lambda>(ok, numsizes, p).
     if \<not> ok then Inr (False, p) else
       parse_times (unat numsizes) skip_number p))))"

text \<open>\<open>ParseParam\<close>, \<open>ParseRetType\<close> and \<open>ParseMethod\<close> over the parser \<open>T\<close> of types they call back.\<close>

definition parse_param :: "(BYTE list \<Rightarrow> parsed) \<Rightarrow> BYTE list \<Rightarrow> parsed" where
  "parse_param T p =
     bindO (ParseOptionalCustomMods p) (\<lambda>(ok, p).
     if \<not> ok then Inr (False, p) else
     bindO (peek_byte p) (\<lambda>b.
     if b = ELEMENT_TYPE_TYPEDBYREF then bindO (advance 1 p) (\<lambda>p. Inr (True, p))
     else bindO (if b = ELEMENT_TYPE_BYREF then advance 1 p else Inr p) T))"

definition parse_ret_type :: "(BYTE list \<Rightarrow> parsed) \<Rightarrow> BYTE list \<Rightarrow> parsed" where
  "parse_ret_type T p =
     bindO (ParseOptionalCustomMods p) (\<lambda>(ok, p).
     if \<not> ok then Inr (False, p) else
     bindO (peek_byte p) (\<lambda>b.
     if b = ELEMENT_TYPE_TYPEDBYREF \<or> b = ELEMENT_TYPE_VOID then bindO (advance 1 p) (\<lambda>p. Inr (True, p))
     else bindO (if b = ELEMENT_TYPE_BYREF then advance 1 p else Inr p) T))"

text \<open>The loop over the parameters carries \<open>sentinelFound\<close>.\<close>

fun parse_params :: "nat \<Rightarrow> (BYTE list \<Rightarrow> parsed) \<Rightarrow> bool \<Rightarrow> BYTE list \<Rightarrow> parsed" where
  "parse_params 0 T sentinelFound p = Inr (True, p)"
| "parse_params (Suc n) T sentinelFound p =
     bindO (peek_byte p) (\<lambda>b.
     if b = ELEMENT_TYPE_SENTINEL \<and> sentinelFound then Inr (False, p) else
     bindO (if b = ELEMENT_TYPE_SENTINEL then advance 1 p else Inr p) (\<lambda>p.
     bindO (parse_param T p) (\<lambda>(ok, p).
     if \<not> ok then Inr (False, p)
     else parse_params n T (sentinelFound \<or> b = ELEMENT_TYPE_SENTINEL) p)))"

definition parse_method :: "(BYTE list \<Rightarrow> parsed) \<Rightarrow> BYTE list \<Rightarrow> parsed" where
  "parse_method T p =
     bindO (peek_byte p) (\<lambda>b.
     bindO (advance 1 p) (\<lambda>p.
     bindO (if b = IMAGE_CEE_CS_CALLCONV_GENERIC then skip_number p else Inr (True, p)) (\<lambda>(ok, p).
     if \<not> ok then Inr (False, p) else
     bindO (ParseNumber p) (\<lambda>(ok, paramCount, p).
     if \<not> ok then Inr (False, p) else
     bindO (parse_ret_type T p) (\<lambda>(ok, p).
     if \<not> ok then Inr (False, p) else parse_params (unat paramCount) T False p)))))"

text \<open>The body of \<open>ParseType\<close> over its recursive calls.\<close>

definition parse_type_body :: "(BYTE list \<Rightarrow> parsed) \<Rightarrow> BYTE list \<Rightarrow> parsed" where
  "parse_type_body T p =
     bindO (peek_byte p) (\<lambda>elementType.
     bindO (advance 1 p) (\<lambda>p.
     if elementType \<in> {ELEMENT_TYPE_VOID, ELEMENT_TYPE_BOOLEAN, ELEMENT_TYPE_CHAR, ELEMENT_TYPE_I1,
         ELEMENT_TYPE_U1, ELEMENT_TYPE_I2, ELEMENT_TYPE_U2, ELEMENT_TYPE_I4, ELEMENT_TYPE_U4, ELEMENT_TYPE_I8,
         ELEMENT_TYPE_U8, ELEMENT_TYPE_R4, ELEMENT_TYPE_R8, ELEMENT_TYPE_STRING, ELEMENT_TYPE_OBJECT} then
       Inr (True, p)
     else if elementType = ELEMENT_TYPE_PTR then
       bindO (ParseOptionalCustomMods p) (\<lambda>(ok, p).
       if \<not> ok then Inr (False, p) else
       bindO (peek_byte p) (\<lambda>b.
       if b = ELEMENT_TYPE_VOID then bindO (advance 1 p) (\<lambda>p. Inr (True, p)) else T p))
     else if elementType = ELEMENT_TYPE_VALUETYPE \<or> elementType = ELEMENT_TYPE_CLASS then
       ParseTypeDefOrRefEncoded p
     else if elementType = ELEMENT_TYPE_FNPTR then parse_method T p
     else if elementType = ELEMENT_TYPE_ARRAY then
       bindO (T p) (\<lambda>(ok, p). if \<not> ok then Inr (False, p) else ParseArrayShape p)
     else if elementType = ELEMENT_TYPE_SZARRAY then
       bindO (ParseOptionalCustomMods p) (\<lambda>(ok, p). if \<not> ok then Inr (False, p) else T p)
     else if elementType = ELEMENT_TYPE_GENERICINST then
       bindO (peek_byte p) (\<lambda>b.
       if b \<noteq> ELEMENT_TYPE_VALUETYPE \<and> b \<noteq> ELEMENT_TYPE_CLASS then Inr (False, p) else
       bindO (advance 1 p) (\<lambda>p.
       bindO (ParseTypeDefOrRefEncoded p) (\<lambda>(ok, p).
       if \<not> ok then Inr (False, p) else
       bindO (ParseNumber p) (\<lambda>(ok, number, p).
       if \<not> ok then Inr (False, p) else parse_times (unat number) T p))))
     else if elementType = ELEMENT_TYPE_VAR \<or> elementType = ELEMENT_TYPE_MVAR then skip_number p
     else Inr (False, p)))"

text \<open>A call of \<open>ParseType\<close> starts behind a byte of its caller's, so the calls nest at most as deep as
  the signature is long; the fuel is that length.\<close>

fun parse_type :: "nat \<Rightarrow> BYTE list \<Rightarrow> parsed" where
  "parse_type 0 p = Inl OutOfFuel"
| "parse_type (Suc n) p = parse_type_body (parse_type n) p"

definition ParseType :: "BYTE list \<Rightarrow> parsed" where
  "ParseType p = parse_type (Suc (length p)) p"

definition ParseParam :: "BYTE list \<Rightarrow> parsed" where
  "ParseParam = parse_param ParseType"

definition ParseRetType :: "BYTE list \<Rightarrow> parsed" where
  "ParseRetType = parse_ret_type ParseType"

definition ParseMethod :: "BYTE list \<Rightarrow> parsed" where
  "ParseMethod = parse_method ParseType"

definition IsVoid :: "BYTE list \<Rightarrow> bool" where
  "IsVoid type \<longleftrightarrow> length type = 1 \<and> type ! 0 = ELEMENT_TYPE_VOID"

section \<open>Termination\<close>

text \<open>An outcome that is not for want of fuel, and whose result satisfies \<open>P\<close>.\<close>

definition ends :: "'a outcome \<Rightarrow> ('a \<Rightarrow> bool) \<Rightarrow> bool" where
  "ends m P \<longleftrightarrow> (case m of Inl e \<Rightarrow> e \<noteq> OutOfFuel | Inr x \<Rightarrow> P x)"

lemma ends_Inr [simp]: "ends (Inr x) P \<longleftrightarrow> P x"
  by (simp add: ends_def)

lemma ends_bind: "ends m Q \<Longrightarrow> (\<And>x. Q x \<Longrightarrow> ends (f x) P) \<Longrightarrow> ends (bindO m f) P"
  by (cases m) (simp_all add: ends_def)

lemma ends_if: "(b \<Longrightarrow> ends m P) \<Longrightarrow> (\<not> b \<Longrightarrow> ends n P) \<Longrightarrow> ends (if b then m else n) P"
  by simp

lemma ends_mono: "ends m Q \<Longrightarrow> (\<And>x. Q x \<Longrightarrow> P x) \<Longrightarrow> ends m P"
  by (cases m) (simp_all add: ends_def)

lemma ends_peek: "ends (peek_byte p) (\<lambda>b. p \<noteq> [])"
  by (cases p) (simp_all add: peek_byte_def ends_def)

lemma ends_advance: "ends (advance n p) (\<lambda>q. length q + n = length p)"
  by (simp add: advance_def ends_def)

lemma CorSigUncompressData_fuel: "CorSigUncompressData p \<noteq> Inl OutOfFuel"
  by (auto simp: CorSigUncompressData_def CorSigUncompressDataLen_def peek_byte_def byte_at_def bindO_def
      split: list.splits if_splits sum.splits)

text \<open>A parser that consumes, or consumes something when it accepts.\<close>

abbreviation shrunk :: "BYTE list \<Rightarrow> bool \<times> BYTE list \<Rightarrow> bool" where
  "shrunk p \<equiv> \<lambda>(ok, q). length q \<le> length p"

lemma ends_token: "ends (ParseTypeDefOrRefEncoded p) (shrunk p)"
proof (cases "ParseTypeDefOrRefEncoded p")
  case (Inl e)
  then have "e \<noteq> OutOfFuel"
    using CorSigUncompressData_fuel [of p]
    by (auto simp: ParseTypeDefOrRefEncoded_def CorSigUncompressToken_def advance_def bindO_def
        split: sum.splits if_splits)
  then show ?thesis by (simp add: Inl ends_def)
qed (auto dest: ParseTypeDefOrRefEncoded_shrinks(1))

lemma ends_number: "ends (ParseNumber p) (\<lambda>(ok, n, q). length q \<le> length p)"
proof (cases "ParseNumber p")
  case (Inl e)
  then have "e \<noteq> OutOfFuel"
    using CorSigUncompressData_fuel [of p]
    by (auto simp: ParseNumber_def advance_def bindO_def split: sum.splits if_splits)
  then show ?thesis by (simp add: Inl ends_def)
qed (auto dest: ParseNumber_shrinks(1))

lemma ends_skip_number: "ends (skip_number p) (shrunk p)"
  unfolding skip_number_def by (rule ends_bind [OF ends_number]) auto

lemma ends_mods: "ends (ParseOptionalCustomMods p) (shrunk p)"
proof (induction p rule: ParseOptionalCustomMods.induct)
  case (1 p)
  have step: "ends (ParseCustomMod p) (\<lambda>(ok, q). ParseCustomMod p = Inr (ok, q))"
  proof (cases "ParseCustomMod p")
    case (Inl e)
    then have "e \<noteq> OutOfFuel"
      using ends_token [of "drop 1 p"]
      by (auto simp: ParseCustomMod_def ends_def peek_byte_def advance_def split: list.splits if_splits)
    then show ?thesis by (simp add: Inl ends_def)
  qed (simp add: ends_def split: prod.splits)
  show ?case
    unfolding ParseOptionalCustomMods.simps [of p]
  proof (intro ends_bind [where Q = "\<lambda>b. peek_byte p = Inr b"] ends_if)
    show "ends (peek_byte p) (\<lambda>b. peek_byte p = Inr b)"
      by (cases p) (simp_all add: peek_byte_def ends_def)
    fix b
    assume b: "peek_byte p = Inr b" "b = ELEMENT_TYPE_CMOD_OPT \<or> b = ELEMENT_TYPE_CMOD_REQD"
    show "ends (bindO (ParseCustomMod p) (\<lambda>(ok, q). if \<not> ok then Inr (False, q) else ParseOptionalCustomMods q)) (shrunk p)"
    proof (rule ends_bind [OF step], clarify, intro ends_if)
      fix ok q
      assume q: "ParseCustomMod p = Inr (ok, q)"
      show "ends (Inr (False, q)) (shrunk p)" using ParseCustomMod_shrinks(1) [OF q] by simp
      assume "\<not> \<not> ok"
      then have "ends (ParseOptionalCustomMods q) (shrunk q)" by (intro 1 [OF b q refl]) simp
      then show "ends (ParseOptionalCustomMods q) (shrunk p)"
        by (rule ends_mono) (use ParseCustomMod_shrinks(1) [OF q] in auto)
    qed
  qed simp
qed

text \<open>Two computations that are the same one and end with \<open>P\<close>. The rules below run the combinators over
  two parsers that agree on the suffixes of length up to \<open>l\<close>, which shows both that they end and that
  they do not look further.\<close>

definition same :: "'a outcome \<Rightarrow> 'a outcome \<Rightarrow> ('a \<Rightarrow> bool) \<Rightarrow> bool" where
  "same m m' P \<longleftrightarrow> m = m' \<and> ends m P"

lemma same_refl: "ends m P \<Longrightarrow> same m m P"
  by (simp add: same_def)

lemma same_Inr: "P x \<Longrightarrow> same (Inr x) (Inr x) P"
  by (simp add: same_def)

lemma same_bind:
  assumes "same m m' Q" and "\<And>x. Q x \<Longrightarrow> same (f x) (f' x) P"
  shows "same (bindO m f) (bindO m' f') P"
proof (cases m)
  case (Inr b)
  then show ?thesis using assms(1) assms(2) [of b] by (auto simp: same_def)
qed (use assms(1) in \<open>auto simp: same_def ends_def\<close>)

lemma same_if:
  "(b \<Longrightarrow> same m m' P) \<Longrightarrow> (\<not> b \<Longrightarrow> same n n' P) \<Longrightarrow> same (if b then m else n) (if b then m' else n') P"
  by simp

lemma same_mono: "same m m' Q \<Longrightarrow> (\<And>x. Q x \<Longrightarrow> P x) \<Longrightarrow> same m m' P"
  by (auto simp: same_def intro: ends_mono)

definition same_upto :: "nat \<Rightarrow> (BYTE list \<Rightarrow> parsed) \<Rightarrow> (BYTE list \<Rightarrow> parsed) \<Rightarrow> bool" where
  "same_upto l T T' \<longleftrightarrow> (\<forall>q. length q \<le> l \<longrightarrow> same (T q) (T' q) (shrunk q))"

lemma same_le: "same m m' (shrunk q) \<Longrightarrow> length q \<le> length p \<Longrightarrow> same m m' (shrunk p)"
  by (erule same_mono) auto

lemma same_T: "same_upto l T T' \<Longrightarrow> length q \<le> l \<Longrightarrow> length q \<le> length p \<Longrightarrow> same (T q) (T' q) (shrunk p)"
  unfolding same_upto_def by (rule same_le) auto

lemma same_then:
  assumes "same m m' (shrunk p)" and "\<And>q. length q \<le> length p \<Longrightarrow> same (f q) (f' q) (shrunk p)"
  shows "same (bindO m (\<lambda>(ok, q). if \<not> ok then Inr (False, q) else f q))
    (bindO m' (\<lambda>(ok, q). if \<not> ok then Inr (False, q) else f' q)) (shrunk p)"
  using assms by (intro same_bind [OF assms(1)]) (auto intro: same_Inr)

lemma same_then_number:
  assumes "length r \<le> length p" and "\<And>n q. length q \<le> length p \<Longrightarrow> same (f n q) (f' n q) (shrunk p)"
  shows "same (bindO (ParseNumber r) (\<lambda>(ok, n, q). if \<not> ok then Inr (False, q) else f n q))
    (bindO (ParseNumber r) (\<lambda>(ok, n, q). if \<not> ok then Inr (False, q) else f' n q)) (shrunk p)"
  using assms by (intro same_bind [OF same_refl [OF ends_number]]) (auto intro!: same_Inr)

text \<open>A byte looked at, taken off, and taken off when it is there.\<close>

lemma same_look: "(\<And>b. p \<noteq> [] \<Longrightarrow> same (f b) (f' b) P) \<Longrightarrow> same (bindO (peek_byte p) f) (bindO (peek_byte p) f') P"
  by (rule same_bind [OF same_refl [OF ends_peek]])

lemma same_take:
  "(\<And>q. length q < length p \<Longrightarrow> same (f q) (f' q) P) \<Longrightarrow> same (bindO (advance 1 p) f) (bindO (advance 1 p) f') P"
  by (rule same_bind [OF same_refl [OF ends_advance]]) auto

lemma same_take_shrunk:
  "(\<And>q. length q < length p \<Longrightarrow> same (f q) (f' q) (shrunk q))
    \<Longrightarrow> same (bindO (advance 1 p) f) (bindO (advance 1 p) f') (shrunk p)"
  by (rule same_take, rule same_le) auto

lemma same_take_if:
  assumes "\<And>q. length q \<le> length p \<Longrightarrow> same (f q) (f' q) P"
  shows "same (bindO (if b then advance 1 p else Inr p) f) (bindO (if b then advance 1 p else Inr p) f') P"
  using assms by (intro same_bind [where Q = "\<lambda>q. length q \<le> length p"])
    (auto intro!: same_refl ends_mono [OF ends_advance])

lemma same_times:
  assumes "same_upto l T T'" and "length p \<le> l"
  shows "same (parse_times k T p) (parse_times k T' p) (shrunk p)"
  using assms(2)
proof (induction k arbitrary: p)
  case (Suc k)
  show ?case unfolding parse_times.simps
    by (intro same_then same_T [OF assms(1)] same_le [OF Suc.IH]) (use Suc.prems in auto)
qed (simp add: same_Inr)

lemma same_param:
  assumes "same_upto l T T'" and "length p \<le> l"
  shows "same (parse_param T p) (parse_param T' p) (shrunk p)"
  unfolding parse_param_def
  by (intro same_then same_refl [OF ends_mods] same_look same_if same_take same_take_if same_Inr same_T [OF assms(1)])
    (use assms(2) in auto)

lemma same_ret_type:
  assumes "same_upto l T T'" and "length p \<le> l"
  shows "same (parse_ret_type T p) (parse_ret_type T' p) (shrunk p)"
  unfolding parse_ret_type_def
  by (intro same_then same_refl [OF ends_mods] same_look same_if same_take same_take_if same_Inr same_T [OF assms(1)])
    (use assms(2) in auto)

lemma same_params:
  assumes "same_upto l T T'" and "length p \<le> l"
  shows "same (parse_params k T b p) (parse_params k T' b p) (shrunk p)"
  using assms(2)
proof (induction k arbitrary: p b)
  case (Suc k)
  show ?case unfolding parse_params.simps
    by (intro same_look same_if same_take_if same_then same_Inr same_le [OF same_param [OF assms(1)]]
        same_le [OF Suc.IH]) (use Suc.prems in auto)
qed (simp add: same_Inr)

lemma same_method:
  assumes "same_upto l T T'" and "length p \<le> l"
  shows "same (parse_method T p) (parse_method T' p) (shrunk p)"
  unfolding parse_method_def
  by (intro same_look same_take same_then same_then_number same_if same_Inr
      same_le [OF same_refl [OF ends_skip_number]] same_le [OF same_ret_type [OF assms(1)]]
      same_le [OF same_params [OF assms(1)]])
    (use assms(2) in auto)

lemma same_array_shape: "same (ParseArrayShape p) (ParseArrayShape p) (shrunk p)"
  unfolding ParseArrayShape_def
  by (intro same_then same_then_number same_le [OF same_times [OF _ order.refl]])
    (auto simp: same_upto_def intro: same_refl ends_skip_number)

lemma same_type_body:
  assumes T: "\<And>q. length q < length p \<Longrightarrow> same (T q) (T' q) (shrunk q)"
  shows "same (parse_type_body T p) (parse_type_body T' p) (shrunk p)"
proof -
  have up: "same_upto (length p - 1) T T'" if "p \<noteq> []"
    using that T by (auto simp: same_upto_def neq_Nil_conv)
  show ?thesis
    unfolding parse_type_body_def
    by (rule same_look, rule same_take_shrunk)
      (intro same_look same_take same_if same_then same_then_number same_Inr same_le [OF same_refl [OF ends_mods]]
        same_le [OF same_refl [OF ends_token]] same_le [OF same_refl [OF ends_skip_number]]
        same_le [OF same_array_shape] same_le [OF same_method [OF up]] same_T [OF up]
        same_le [OF same_times [OF up]]; auto)
qed

lemma same_parse_type: "length p < n \<Longrightarrow> length p < m \<Longrightarrow> same (parse_type n p) (parse_type m p) (shrunk p)"
proof (induction n arbitrary: m p)
  case (Suc n)
  then obtain k where "m = Suc k" by (cases m) auto
  with Suc show ?case by (auto intro!: same_type_body)
qed simp

lemma same_ParseType: "same (ParseType p) (ParseType p) (shrunk p)"
  unfolding ParseType_def by (rule same_parse_type) auto

text \<open>The equation of the source.\<close>

lemma ParseType_unfold: "ParseType p = parse_type_body ParseType p"
proof -
  have "same (parse_type_body (parse_type (length p)) p) (parse_type_body ParseType p) (shrunk p)"
    by (rule same_type_body) (simp add: ParseType_def same_parse_type del: parse_type.simps)
  then show ?thesis by (simp add: same_def ParseType_def)
qed

lemma advance_1 [simp]: "advance (Suc 0) (b # xs) = Inr xs"
  by (simp add: advance_def)

lemma peek_Cons [simp]: "peek_byte (b # xs) = Inr b"
  by (simp add: peek_byte_def)

text \<open>A parser leaves a suffix of what it was given: \<open>leaves p m\<close> says so of the outcome \<open>m\<close> of a parser on \<open>p\<close>.\<close>

definition suffix_of :: "BYTE list \<Rightarrow> BYTE list \<Rightarrow> bool" where
  "suffix_of q p \<longleftrightarrow> (\<exists>pre. p = pre @ q)"

definition leaves :: "BYTE list \<Rightarrow> parsed \<Rightarrow> bool" where
  "leaves p m \<longleftrightarrow> (\<forall>ok q. m = Inr (ok, q) \<longrightarrow> suffix_of q p)"

lemma suffix_of_refl [simp]: "suffix_of p p"
  by (simp add: suffix_of_def)

lemma suffix_of_trans: "suffix_of r q \<Longrightarrow> suffix_of q p \<Longrightarrow> suffix_of r p"
  unfolding suffix_of_def by (metis append_assoc)

lemma advance_suffix: "advance n p = Inr q \<Longrightarrow> suffix_of q p"
  unfolding advance_Inr suffix_of_def by (metis append_take_drop_id)

lemma leaves_Inr: "suffix_of q p \<Longrightarrow> leaves p (Inr (ok, q))"
  by (simp add: leaves_def)

lemma leaves_Inl: "leaves p (Inl e)"
  by (simp add: leaves_def)

lemma leaves_le: "leaves q m \<Longrightarrow> suffix_of q p \<Longrightarrow> leaves p m"
  by (auto simp: leaves_def intro: suffix_of_trans)

lemma leaves_bind: "(\<And>x. m = Inr x \<Longrightarrow> leaves p (f x)) \<Longrightarrow> leaves p (bindO m f)"
  by (cases m) (simp_all add: leaves_def)

lemma leaves_then:
  assumes "leaves q m" "suffix_of q p" "\<And>r. suffix_of r p \<Longrightarrow> leaves p (f r)"
  shows "leaves p (bindO m (\<lambda>(ok, r). if \<not> ok then Inr (False, r) else f r))"
proof (rule leaves_bind)
  fix x assume "m = Inr x"
  moreover obtain ok r where x: "x = (ok, r)" by (cases x)
  ultimately have "suffix_of r p" using assms(1,2) by (auto simp: leaves_def intro: suffix_of_trans)
  then show "leaves p (case x of (ok, r) \<Rightarrow> if \<not> ok then Inr (False, r) else f r)"
    using assms(3) by (cases ok) (simp_all add: x leaves_Inr)
qed

lemma leaves_take: "suffix_of q p \<Longrightarrow> (\<And>r. suffix_of r p \<Longrightarrow> leaves p (f r)) \<Longrightarrow> leaves p (bindO (advance n q) f)"
  by (rule leaves_bind) (blast dest: advance_suffix intro: suffix_of_trans)

lemma leaves_take_if:
  "suffix_of q p \<Longrightarrow> (\<And>r. suffix_of r p \<Longrightarrow> leaves p (f r)) \<Longrightarrow> leaves p (bindO (if b then advance n q else Inr q) f)"
  by (cases b) (simp_all add: leaves_take)

lemma leaves_number:
  assumes "suffix_of q p" "\<And>ok n r. suffix_of r p \<Longrightarrow> leaves p (f ok n r)"
  shows "leaves p (bindO (ParseNumber q) (\<lambda>(ok, n, r). f ok n r))"
proof (rule leaves_bind)
  fix x assume x: "ParseNumber q = Inr x"
  obtain ok n r where "x = (ok, n, r)" by (cases x)
  moreover from x have "suffix_of r q"
    unfolding ParseNumber_def \<open>x = (ok, n, r)\<close>
    by (cases "CorSigUncompressData q") (auto simp: bindO_def dest: advance_suffix split: sum.splits if_splits)
  ultimately show "leaves p (case x of (ok, n, r) \<Rightarrow> f ok n r)" using assms by (auto intro: suffix_of_trans)
qed

lemma leaves_peek: "(\<And>b. leaves p (f b)) \<Longrightarrow> leaves p (bindO (peek_byte q) f)"
  by (rule leaves_bind)

lemma leaves_if: "(b \<Longrightarrow> leaves p m) \<Longrightarrow> (\<not> b \<Longrightarrow> leaves p n) \<Longrightarrow> leaves p (if b then m else n)"
  by simp

lemma leaves_token: "leaves p (ParseTypeDefOrRefEncoded p)"
  unfolding ParseTypeDefOrRefEncoded_def
  by (rule leaves_bind) (auto intro!: leaves_Inr leaves_take)

lemma leaves_skip_number: "leaves p (skip_number p)"
  unfolding skip_number_def by (rule leaves_number) (auto intro: leaves_Inr)

lemma leaves_mods: "leaves p (ParseOptionalCustomMods p)"
proof (induction p rule: ParseOptionalCustomMods.induct)
  case (1 p)
  have m: "leaves p (ParseCustomMod p)" unfolding ParseCustomMod_def
    by (intro leaves_peek leaves_if leaves_take suffix_of_refl leaves_Inr leaves_le [OF leaves_token])
  show ?case
    unfolding ParseOptionalCustomMods.simps [of p]
  proof (rule leaves_bind, intro leaves_if leaves_Inr suffix_of_refl)
    fix b
    assume b: "peek_byte p = Inr b" "b = ELEMENT_TYPE_CMOD_OPT \<or> b = ELEMENT_TYPE_CMOD_REQD"
    show "leaves p (bindO (ParseCustomMod p) (\<lambda>(ok, q). if \<not> ok then Inr (False, q) else ParseOptionalCustomMods q))"
    proof (rule leaves_bind)
      fix x assume x: "ParseCustomMod p = Inr x"
      obtain ok q where xq: "x = (ok, q)" by (cases x)
      then have "suffix_of q p" using m x by (simp add: leaves_def)
      then show "leaves p (case x of (ok, q) \<Rightarrow> if \<not> ok then Inr (False, q) else ParseOptionalCustomMods q)"
        using 1 [OF b x xq [symmetric]] by (cases ok) (simp_all add: xq leaves_Inr leaves_le)
    qed
  qed
qed

lemma leaves_times: "(\<And>q. leaves q (f q)) \<Longrightarrow> leaves p (parse_times n f p)"
proof (induction n arbitrary: p)
  case (Suc n)
  show ?case unfolding parse_times.simps
    by (rule leaves_then [OF Suc.prems suffix_of_refl]) (blast intro: leaves_le Suc)
qed (simp add: leaves_Inr)

lemma leaves_T: "(\<And>q. leaves q (T q)) \<Longrightarrow> suffix_of q p \<Longrightarrow> leaves p (T q)"
  by (rule leaves_le)

lemma leaves_param:
  assumes "\<And>q. leaves q (T q)"
  shows "leaves p (parse_param T p)" "leaves p (parse_ret_type T p)"
  unfolding parse_param_def parse_ret_type_def
  by ((rule leaves_then [OF leaves_mods suffix_of_refl],
      intro leaves_peek leaves_if leaves_take leaves_take_if leaves_Inr leaves_T [OF assms]; blast)+)

lemma leaves_params:
  assumes "\<And>q. leaves q (T q)"
  shows "leaves p (parse_params n T b p)"
proof (induction n arbitrary: p b)
  case (Suc n)
  show ?case unfolding parse_params.simps
    by (intro leaves_peek leaves_if leaves_take_if leaves_Inr suffix_of_refl leaves_then [OF leaves_param(1) [OF assms]]
        leaves_le [OF Suc.IH]; blast)
qed (simp add: leaves_Inr)

lemma leaves_method:
  assumes "\<And>q. leaves q (T q)"
  shows "leaves p (parse_method T p)"
  unfolding parse_method_def
proof (intro leaves_peek leaves_take suffix_of_refl)
  fix b q
  assume q: "suffix_of q p"
  show "leaves p (bindO (if b = IMAGE_CEE_CS_CALLCONV_GENERIC then skip_number q else Inr (True, q)) (\<lambda>(ok, p).
     if \<not> ok then Inr (False, p) else bindO (ParseNumber p) (\<lambda>(ok, paramCount, p).
     if \<not> ok then Inr (False, p) else bindO (parse_ret_type T p) (\<lambda>(ok, p).
     if \<not> ok then Inr (False, p) else parse_params (unat paramCount) T False p))))"
    by (intro leaves_then [OF _ q] leaves_if leaves_skip_number leaves_Inr suffix_of_refl leaves_number
        leaves_then [OF leaves_param(2) [OF assms]] leaves_le [OF leaves_params [OF assms]])
qed

lemma leaves_array_shape: "leaves p (ParseArrayShape p)"
  unfolding ParseArrayShape_def
  by (intro leaves_number leaves_if leaves_Inr leaves_then [OF leaves_times [OF leaves_skip_number]]
      leaves_le [OF leaves_times [OF leaves_skip_number]] suffix_of_refl)

lemma leaves_type_body:
  assumes "\<And>q. leaves q (T q)"
  shows "leaves q (parse_type_body T (b # q))"
  unfolding parse_type_body_def peek_Cons One_nat_def advance_1 bindO_simps
  by (intro leaves_peek leaves_if leaves_Inr suffix_of_refl leaves_take leaves_token leaves_skip_number
      leaves_method [OF assms] leaves_then [OF leaves_mods] leaves_then [OF assms] leaves_then [OF leaves_token]
      leaves_le [OF leaves_array_shape] leaves_T [OF assms] leaves_number leaves_le [OF leaves_times [OF assms]])

lemma parse_type_body_Nil: "parse_type_body T [] = Inl OutOfBounds"
  by (simp add: parse_type_body_def peek_byte_def)

lemma leaves_parse_type: "leaves p (parse_type n p)"
proof (induction n arbitrary: p)
  case (Suc n)
  have "suffix_of xs (b # xs)" for xs and b :: BYTE by (simp add: suffix_of_def Cons_eq_append_conv)
  then show ?case
    using leaves_le [OF leaves_type_body [OF Suc.IH]] by (cases p) (simp_all add: parse_type_body_Nil leaves_Inl)
qed (simp add: leaves_Inl)

text \<open>C18: the parser of types ends on every byte vector: its recursion never runs out of the fuel of the vector's length,
  it satisfies the recursive equation of the source, which does not mention fuel, and whatever its verdict it has taken at
  least one byte from the front and leaves the rest, a suffix of its input.\<close>

theorem ParseType_terminates:
  "ParseType p \<noteq> Inl OutOfFuel \<and> ParseType p = parse_type_body ParseType p \<and>
   (case ParseType p of Inl _ \<Rightarrow> True | Inr (ok, q) \<Rightarrow> \<exists>b pre. p = b # pre @ q)"
proof (cases p)
  case (Cons b r)
  have "leaves q (ParseType q)" for q unfolding ParseType_def by (rule leaves_parse_type)
  from leaves_type_body [OF this, of r b] show ?thesis
    using same_ParseType [of p] ParseType_unfold [of p] Cons
    by (auto simp: same_def ends_def leaves_def suffix_of_def split: sum.splits)
qed (use same_ParseType [of p] ParseType_unfold [of p] in \<open>simp add: same_def ends_def parse_type_body_Nil\<close>)

section \<open>The signatures of the grammar\<close>

text \<open>The type signatures of ECMA-335 (II.23.2) the parser accepts, and their bytes.\<close>

type_synonym custom_mods = "(BYTE \<times> mdToken) list"

datatype sig_type =
    Simple BYTE
  | Pointer custom_mods sig_type
  | Named BYTE mdToken
  | FunctionPtr BYTE ULONG sig_param "sig_param list" "sig_param list"
  | ArrayOf sig_type ULONG "ULONG list" "ULONG list"
  | Vector custom_mods sig_type
  | Instance BYTE mdToken "sig_type list"
  | Variable BYTE ULONG
and sig_param =
    Param custom_mods bool sig_type
  | TypedByRef custom_mods

abbreviation token_bytes :: "mdToken \<Rightarrow> BYTE list" where
  "token_bytes tk \<equiv> snd (CorSigCompressToken tk)"

abbreviation number_bytes :: "ULONG \<Rightarrow> BYTE list" where
  "number_bytes n \<equiv> snd (CorSigCompressData n)"

definition mod_bytes :: "custom_mods \<Rightarrow> BYTE list" where
  "mod_bytes ms = concat (map (\<lambda>(t, tk). t # token_bytes tk) ms)"

abbreviation count_bytes :: "'a list \<Rightarrow> BYTE list" where
  "count_bytes xs \<equiv> number_bytes (word_of_nat (length xs))"

text \<open>A function pointer with the generic calling convention carries the number of its type parameters;
  a non-empty second list of parameters follows a sentinel.\<close>

primrec type_bytes :: "sig_type \<Rightarrow> BYTE list" and param_bytes :: "sig_param \<Rightarrow> BYTE list" where
  "type_bytes (Simple b) = [b]"
| "type_bytes (Pointer ms t) = ELEMENT_TYPE_PTR # mod_bytes ms @ type_bytes t"
| "type_bytes (Named k tk) = k # token_bytes tk"
| "type_bytes (FunctionPtr cc g r ps qs) = ELEMENT_TYPE_FNPTR # cc #
     (if cc = IMAGE_CEE_CS_CALLCONV_GENERIC then number_bytes g else []) @
     number_bytes (word_of_nat (length ps + length qs)) @ param_bytes r @
     concat (map param_bytes ps) @
     (if qs = [] then [] else ELEMENT_TYPE_SENTINEL # concat (map param_bytes qs))"
| "type_bytes (ArrayOf t rank sizes lows) = ELEMENT_TYPE_ARRAY # type_bytes t @ number_bytes rank @
     count_bytes sizes @ concat (map number_bytes sizes) @ count_bytes lows @ concat (map number_bytes lows)"
| "type_bytes (Vector ms t) = ELEMENT_TYPE_SZARRAY # mod_bytes ms @ type_bytes t"
| "type_bytes (Instance k tk ts) = ELEMENT_TYPE_GENERICINST # k # token_bytes tk @ count_bytes ts @
     concat (map type_bytes ts)"
| "type_bytes (Variable k n) = k # number_bytes n"
| "param_bytes (Param ms ref t) = mod_bytes ms @ (if ref then [ELEMENT_TYPE_BYREF] else []) @ type_bytes t"
| "param_bytes (TypedByRef ms) = mod_bytes ms @ [ELEMENT_TYPE_TYPEDBYREF]"

definition named_kind :: "BYTE \<Rightarrow> bool" where
  "named_kind k \<longleftrightarrow> k = ELEMENT_TYPE_VALUETYPE \<or> k = ELEMENT_TYPE_CLASS"

definition simple_kinds :: "BYTE list" where
  "simple_kinds = [ELEMENT_TYPE_VOID, ELEMENT_TYPE_BOOLEAN, ELEMENT_TYPE_CHAR, ELEMENT_TYPE_I1,
     ELEMENT_TYPE_U1, ELEMENT_TYPE_I2, ELEMENT_TYPE_U2, ELEMENT_TYPE_I4, ELEMENT_TYPE_U4, ELEMENT_TYPE_I8,
     ELEMENT_TYPE_U8, ELEMENT_TYPE_R4, ELEMENT_TYPE_R8, ELEMENT_TYPE_STRING, ELEMENT_TYPE_OBJECT]"

definition good_mods :: "custom_mods \<Rightarrow> bool" where
  "good_mods ms \<longleftrightarrow> (\<forall>(t, tk) \<in> set ms. (t = ELEMENT_TYPE_CMOD_OPT \<or> t = ELEMENT_TYPE_CMOD_REQD) \<and>
     TypeFromToken tk \<in> set g_tkCorEncodeToken)"

definition good_count :: "nat \<Rightarrow> bool" where
  "good_count n \<longleftrightarrow> n \<le> 0x1FFFFFFF"

primrec good_type :: "sig_type \<Rightarrow> bool" and good_param :: "sig_param \<Rightarrow> bool" where
  "good_type (Simple b) \<longleftrightarrow> b \<in> set simple_kinds"
| "good_type (Pointer ms t) \<longleftrightarrow> good_mods ms \<and> good_type t"
| "good_type (Named k tk) \<longleftrightarrow> named_kind k \<and> TypeFromToken tk \<in> set g_tkCorEncodeToken"
| "good_type (FunctionPtr cc g r ps qs) \<longleftrightarrow> g \<le> 0x1FFFFFFF \<and> good_count (length ps + length qs) \<and>
     good_param r \<and> list_all good_param ps \<and> list_all good_param qs"
| "good_type (ArrayOf t rank sizes lows) \<longleftrightarrow> good_type t \<and> rank \<le> 0x1FFFFFFF \<and> good_count (length sizes) \<and>
     good_count (length lows) \<and> (\<forall>n \<in> set sizes \<union> set lows. n \<le> 0x1FFFFFFF)"
| "good_type (Vector ms t) \<longleftrightarrow> good_mods ms \<and> good_type t"
| "good_type (Instance k tk ts) \<longleftrightarrow> named_kind k \<and> TypeFromToken tk \<in> set g_tkCorEncodeToken \<and>
     good_count (length ts) \<and> list_all good_type ts"
| "good_type (Variable k n) \<longleftrightarrow> (k = ELEMENT_TYPE_VAR \<or> k = ELEMENT_TYPE_MVAR) \<and> n \<le> 0x1FFFFFFF"
| "good_param (Param ms ref t) \<longleftrightarrow> good_mods ms \<and> good_type t"
| "good_param (TypedByRef ms) \<longleftrightarrow> good_mods ms"

text \<open>The pieces are read back.\<close>

lemma ParseNumber_bytes: "n \<le> 0x1FFFFFFF \<Longrightarrow> ParseNumber (number_bytes n @ xs) = Inr (True, n, xs)"
proof -
  assume n: "n \<le> 0x1FFFFFFF"
  obtain k bs where c: "CorSigCompressData n = (k, bs)" by fastforce
  have "CorSigUncompressData (bs @ xs) = Inr (k, n)" "unat k = length bs"
    using CorSigData_reads [OF n, of xs] by (simp_all add: c)
  moreover have "k \<noteq> -1" by (rule CorSigCompressData_length(1) [OF c n])
  ultimately show ?thesis by (simp add: ParseNumber_def c advance_def)
qed

lemma skip_number_bytes: "n \<le> 0x1FFFFFFF \<Longrightarrow> skip_number (number_bytes n @ xs) = Inr (True, xs)"
  by (simp add: skip_number_def ParseNumber_bytes)

lemma ParseTypeDefOrRef_bytes:
  "TypeFromToken tk \<in> set g_tkCorEncodeToken \<Longrightarrow> ParseTypeDefOrRefEncoded (token_bytes tk @ xs) = Inr (True, xs)"
proof -
  assume t: "TypeFromToken tk \<in> set g_tkCorEncodeToken"
  obtain k bs where c: "CorSigCompressToken tk = (k, bs)" by fastforce
  have "CorSigUncompressToken (bs @ xs) = Inr (k, tk)" "unat k = length bs"
    using CorSigToken_reads [OF t, of xs] by (simp_all add: c)
  then show ?thesis
    using CorSigToken_length(1) [OF c] by (simp add: ParseTypeDefOrRefEncoded_def c advance_def)
qed

lemma ParseMods_bytes:
  assumes "good_mods ms" and "b \<noteq> ELEMENT_TYPE_CMOD_OPT" "b \<noteq> ELEMENT_TYPE_CMOD_REQD"
  shows "ParseOptionalCustomMods (mod_bytes ms @ b # xs) = Inr (True, b # xs)"
  using assms(1)
proof (induction ms)
  case Nil
  then show ?case using assms(2,3) by (simp add: mod_bytes_def ParseOptionalCustomMods.simps [of "b # xs"])
next
  case (Cons m ms)
  obtain t tk where m: "m = (t, tk)" by fastforce
  have e: "mod_bytes (m # ms) @ b # xs = t # token_bytes tk @ mod_bytes ms @ b # xs"
    by (simp add: mod_bytes_def m)
  have t: "t = ELEMENT_TYPE_CMOD_OPT \<or> t = ELEMENT_TYPE_CMOD_REQD" "TypeFromToken tk \<in> set g_tkCorEncodeToken"
    "good_mods ms"
    using Cons.prems by (simp_all add: good_mods_def m)
  show ?case
    unfolding e using t(1) Cons.IH [OF t(3)]
    by (subst ParseOptionalCustomMods.simps) (simp add: ParseCustomMod_def ParseTypeDefOrRef_bytes [OF t(2)])
qed

lemma parse_times_bytes:
  assumes "\<And>x ys. x \<in> set xs \<Longrightarrow> f (g x @ ys) = Inr (True, ys)"
  shows "parse_times (length xs) f (concat (map g xs) @ ys) = Inr (True, ys)"
  using assms by (induction xs) simp_all

lemma count_unat: "good_count n \<Longrightarrow> unat (word_of_nat n :: ULONG) = n \<and> (word_of_nat n :: ULONG) \<le> 0x1FFFFFFF"
  by (auto simp: good_count_def unat_of_nat_32 word_le_nat_alt)

text \<open>What follows the modifiers of a parameter, or starts a type, is no modifier.\<close>

definition starts_type :: "BYTE \<Rightarrow> bool" where
  "starts_type b \<longleftrightarrow> b \<notin> {ELEMENT_TYPE_CMOD_OPT, ELEMENT_TYPE_CMOD_REQD, ELEMENT_TYPE_BYREF,
     ELEMENT_TYPE_TYPEDBYREF, ELEMENT_TYPE_SENTINEL}"

lemma type_bytes_start:
  assumes "good_type t"
  obtains b r where "type_bytes t = b # r" and "starts_type b"
proof (cases t)
  case (Simple b)
  then show ?thesis using assms that by (auto simp: simple_kinds_def starts_type_def ets)
qed (use assms that in \<open>auto simp: starts_type_def named_kind_def ets\<close>)

lemma param_bytes_start:
  assumes "good_param p"
  obtains b r where "param_bytes p = b # r" and "b \<noteq> ELEMENT_TYPE_SENTINEL"
proof -
  have mods: "\<exists>b r. mod_bytes ms @ c # s = b # r \<and> b \<noteq> ELEMENT_TYPE_SENTINEL"
    if "good_mods ms" "c \<noteq> ELEMENT_TYPE_SENTINEL" for ms c s
    using that by (cases ms) (auto simp: mod_bytes_def good_mods_def ets)
  show thesis
  proof (cases p)
    case (Param ms ref t)
    then obtain b r where t: "type_bytes t = b # r" "starts_type b" using assms type_bytes_start [of t] by auto
    show ?thesis
      using mods [of ms ELEMENT_TYPE_BYREF "type_bytes t"] mods [of ms b r] t that assms
      by (cases ref) (auto simp: Param starts_type_def ets)
  next
    case (TypedByRef ms)
    then show ?thesis using mods [of ms ELEMENT_TYPE_TYPEDBYREF "[]"] that assms by (auto simp: ets)
  qed
qed

lemma parse_params_bytes:
  assumes "\<And>p ys. p \<in> set ps \<Longrightarrow> parse_param T (param_bytes p @ ys) = Inr (True, ys)" and "list_all good_param ps"
  shows "parse_params (length ps + n) T s (concat (map param_bytes ps) @ ys) = parse_params n T s ys"
  using assms
proof (induction ps)
  case (Cons p ps)
  obtain b r where b: "param_bytes p = b # r" "b \<noteq> ELEMENT_TYPE_SENTINEL"
    using Cons.prems(2) param_bytes_start [of p] by auto
  then show ?case using Cons.prems(1) [of p "concat (map param_bytes ps) @ ys"] Cons by simp
qed simp

lemma parse_params_sentinel:
  assumes "\<And>p ys. p \<in> set qs \<Longrightarrow> parse_param T (param_bytes p @ ys) = Inr (True, ys)" and "list_all good_param qs"
  shows "parse_params (length qs) T False
     ((if qs = [] then [] else ELEMENT_TYPE_SENTINEL # concat (map param_bytes qs)) @ ys) = Inr (True, ys)"
proof (cases qs)
  case (Cons q qs')
  then show ?thesis
    using assms(1) [of q "concat (map param_bytes qs') @ ys"] parse_params_bytes [of qs' T 0 True ys] assms by simp
qed simp

text \<open>A parameter is read by either of the two parsers.\<close>

lemma parse_param_bytes:
  assumes "good_mods ms" and "good_type t" and "T (type_bytes t @ xs) = Inr (True, xs)"
  shows "parse_param T (param_bytes (Param ms ref t) @ xs) = Inr (True, xs)"
proof -
  obtain b r where b: "type_bytes t = b # r" "starts_type b" using type_bytes_start [OF assms(2)] .
  show ?thesis
    using ParseMods_bytes [OF assms(1), of ELEMENT_TYPE_BYREF] ParseMods_bytes [OF assms(1), of b] b assms(3)
    by (simp add: parse_param_def starts_type_def ets)
qed

lemma parse_ret_type_bytes:
  assumes "good_mods ms" and "good_type t" and "T (type_bytes t @ xs) = Inr (True, xs)"
  shows "parse_ret_type T (param_bytes (Param ms ref t) @ xs) = Inr (True, xs)"
proof -
  obtain b r where b: "type_bytes t = b # r" "starts_type b" using type_bytes_start [OF assms(2)] .
  have "t = Simple ELEMENT_TYPE_VOID" if "b = ELEMENT_TYPE_VOID"
    using that b(1) assms(2) by (cases t) (auto simp: named_kind_def ets)
  then have "r = []" if "b = ELEMENT_TYPE_VOID" using that b(1) by simp
  then show ?thesis
    using ParseMods_bytes [OF assms(1), of ELEMENT_TYPE_BYREF] ParseMods_bytes [OF assms(1), of b] b assms(3)
    by (auto simp: parse_ret_type_def starts_type_def ets)
qed

lemma parse_typed_by_ref:
  "good_mods ms \<Longrightarrow> parse_param T (param_bytes (TypedByRef ms) @ xs) = Inr (True, xs) \<and>
     parse_ret_type T (param_bytes (TypedByRef ms) @ xs) = Inr (True, xs)"
  using ParseMods_bytes [of ms ELEMENT_TYPE_TYPEDBYREF xs]
  by (simp add: parse_param_def parse_ret_type_def ets)

lemma ParseType_bytes:
  "good_type t \<Longrightarrow> ParseType (type_bytes t @ xs) = Inr (True, xs)"
  "good_param p \<Longrightarrow> parse_param ParseType (param_bytes p @ ys) = Inr (True, ys) \<and>
     parse_ret_type ParseType (param_bytes p @ ys) = Inr (True, ys)"
proof (induction t and p arbitrary: xs and ys rule: sig_type.induct sig_param.induct)
  case (Simple b)
  then show ?case by (subst ParseType_unfold) (auto simp: parse_type_body_def simple_kinds_def)
next
  case (Pointer ms t)
  obtain b r where b: "type_bytes t = b # r" "starts_type b" using Pointer.prems type_bytes_start [of t] by auto
  have "t = Simple ELEMENT_TYPE_VOID" if "b = ELEMENT_TYPE_VOID"
    using that b(1) Pointer.prems by (cases t) (auto simp: named_kind_def ets)
  then have r: "r = []" if "b = ELEMENT_TYPE_VOID" using that b(1) by simp
  have m: "ParseOptionalCustomMods (mod_bytes ms @ b # r @ xs) = Inr (True, b # r @ xs)"
    using Pointer.prems b(2) by (intro ParseMods_bytes) (auto simp: starts_type_def)
  show ?case
    using Pointer.IH [of xs] Pointer.prems m r
    by (subst ParseType_unfold) (auto simp: parse_type_body_def b ets)
next
  case (Named k tk)
  then show ?case
    by (subst ParseType_unfold) (auto simp: parse_type_body_def named_kind_def ParseTypeDefOrRef_bytes ets)
next
  case (FunctionPtr cc g r ps qs)
  note c = count_unat [of "length ps + length qs"]
  have ps: "parse_param ParseType (param_bytes p @ ys) = Inr (True, ys)" if "p \<in> set ps \<union> set qs" for p ys
    using that FunctionPtr by (auto simp: list_all_iff)
  have params: "parse_params (length ps + length qs) ParseType False (concat (map param_bytes ps) @
      (if qs = [] then [] else ELEMENT_TYPE_SENTINEL # concat (map param_bytes qs)) @ xs) = Inr (True, xs)"
    using parse_params_bytes [of ps ParseType "length qs" False "(if qs = [] then [] else
        ELEMENT_TYPE_SENTINEL # concat (map param_bytes qs)) @ xs"] parse_params_sentinel [of qs ParseType xs]
      ps FunctionPtr.prems by simp
  have "parse_method ParseType (cc # (if cc = IMAGE_CEE_CS_CALLCONV_GENERIC then number_bytes g else []) @
     number_bytes (word_of_nat (length ps + length qs)) @ param_bytes r @ concat (map param_bytes ps) @
     (if qs = [] then [] else ELEMENT_TYPE_SENTINEL # concat (map param_bytes qs)) @ xs) = Inr (True, xs)"
    using FunctionPtr.IH(1) FunctionPtr.prems c params
    by (simp add: parse_method_def skip_number_bytes ParseNumber_bytes del: of_nat_add)
  then show ?case
    by (subst ParseType_unfold) (simp add: parse_type_body_def ets del: of_nat_add)
next
  case (ArrayOf t rank sizes lows)
  have t: "parse_times (length ns) skip_number (concat (map number_bytes ns) @ ys) = Inr (True, ys)"
    if "\<forall>n \<in> set ns. n \<le> 0x1FFFFFFF" for ns ys
    using that by (intro parse_times_bytes) (simp add: skip_number_bytes)
  have "ParseArrayShape (number_bytes rank @ count_bytes sizes @ concat (map number_bytes sizes) @
      count_bytes lows @ concat (map number_bytes lows) @ xs) = Inr (True, xs)"
    using ArrayOf.prems t [of sizes] t [of lows] count_unat [of "length sizes"] count_unat [of "length lows"]
    by (simp add: ParseArrayShape_def ParseNumber_bytes)
  then show ?case
    using ArrayOf.IH ArrayOf.prems by (subst ParseType_unfold) (simp add: parse_type_body_def ets)
next
  case (Vector ms t)
  obtain b r where b: "type_bytes t = b # r" "starts_type b" using Vector.prems type_bytes_start [of t] by auto
  have m: "ParseOptionalCustomMods (mod_bytes ms @ b # r @ xs) = Inr (True, b # r @ xs)"
    using Vector.prems b(2) by (intro ParseMods_bytes) (auto simp: starts_type_def)
  show ?case
    using Vector.IH [of xs] Vector.prems m
    by (subst ParseType_unfold) (auto simp: parse_type_body_def b ets)
next
  case (Instance k tk ts)
  have "parse_times (length ts) ParseType (concat (map type_bytes ts) @ xs) = Inr (True, xs)"
    using Instance by (intro parse_times_bytes) (auto simp: list_all_iff)
  then show ?case
    using Instance.prems count_unat [of "length ts"]
    by (subst ParseType_unfold)
      (auto simp: parse_type_body_def named_kind_def ParseTypeDefOrRef_bytes ParseNumber_bytes ets)
next
  case (Variable k n)
  then show ?case
    by (subst ParseType_unfold) (auto simp: parse_type_body_def skip_number_bytes ets)
next
  case (Param ms ref t)
  then show ?case using parse_param_bytes [of ms t ParseType ys ref] parse_ret_type_bytes [of ms t ParseType ys ref] by simp
next
  case (TypedByRef ms)
  then show ?case using parse_typed_by_ref [of ms ParseType ys] by simp
qed

text \<open>C17: every type, parameter and return type of the grammar is accepted: the parsers read its bytes
  whatever follows them and stop at the first byte after them.\<close>

theorem ParseType_accepts:
  assumes "good_type t" and "good_param p"
  shows "ParseType (type_bytes t @ xs) = Inr (True, xs) \<and> ParseParam (param_bytes p @ xs) = Inr (True, xs) \<and>
     ParseRetType (param_bytes p @ xs) = Inr (True, xs)"
  using ParseType_bytes(1) [OF assms(1)] ParseType_bytes(2) [OF assms(2)] by (simp add: ParseParam_def ParseRetType_def)

text \<open>A generic class over two type arguments, the second an array, and a parameter of that type by
  reference.\<close>

theorem ParseType_accepts_witness:
  "ParseType [0x15, 0x12, 0x49, 2, 8, 0x1d, 0x0e, 0x2a] = Inr (True, [0x2a]) \<and>
   ParseParam [0x10, 8, 0x2a] = Inr (True, [0x2a]) \<and> ParseRetType [0x10, 8, 0x2a] = Inr (True, [0x2a])"
proof -
  let ?t = "Instance ELEMENT_TYPE_CLASS 0x01000012 [Simple ELEMENT_TYPE_I4, Vector [] (Simple ELEMENT_TYPE_STRING)]"
  let ?p = "Param [] True (Simple ELEMENT_TYPE_I4)"
  have c: "CorSigCompressToken 0x01000012 = (1, [0x49])" "CorSigCompressData 2 = (1, [2])" by code_simp+
  have t: "TypeFromToken 0x01000012 \<in> set g_tkCorEncodeToken" by code_simp
  have "good_type ?t" "good_param ?p"
    using t by (simp_all add: named_kind_def simple_kinds_def good_mods_def good_count_def)
  from ParseType_accepts [OF this, of "[0x2a]"] show ?thesis
    by (simp add: c mod_bytes_def ets)
qed

text \<open>Where a type stands inside another: as the element of a vector, of an array or of a pointer, or as an argument of a
  generic type, behind the good arguments before it.\<close>

inductive path_to_type :: "BYTE list \<Rightarrow> bool" where
  here: "path_to_type []"
| vector: "path_to_type s \<Longrightarrow> good_mods ms \<Longrightarrow> path_to_type (ELEMENT_TYPE_SZARRAY # mod_bytes ms @ s)"
| array: "path_to_type s \<Longrightarrow> path_to_type (ELEMENT_TYPE_ARRAY # s)"
| pointer: "path_to_type s \<Longrightarrow> good_mods ms \<Longrightarrow> path_to_type (ELEMENT_TYPE_PTR # mod_bytes ms @ s)"
| argument: "path_to_type s \<Longrightarrow> named_kind k \<Longrightarrow> TypeFromToken tk \<in> set g_tkCorEncodeToken \<Longrightarrow>
    n \<le> 0x1FFFFFFF \<Longrightarrow> list_all good_type ts \<Longrightarrow> length ts < unat n \<Longrightarrow>
    path_to_type (ELEMENT_TYPE_GENERICINST # k # token_bytes tk @ number_bytes n @ concat (map type_bytes ts) @ s)"

lemma path_start:
  assumes "path_to_type s" "b = ELEMENT_TYPE_I \<or> b = ELEMENT_TYPE_U"
  shows "\<exists>c r. s @ b # xs = c # r \<and> starts_type c \<and> c \<noteq> ELEMENT_TYPE_VOID"
  using assms by (cases s rule: path_to_type.cases) (auto simp: starts_type_def ets)

lemma parse_times_stops:
  assumes "\<And>x ys. x \<in> set xs \<Longrightarrow> f (g x @ ys) = Inr (True, ys)" "f p = Inr (False, q)" "length xs < n"
  shows "parse_times n f (concat (map g xs) @ p) = Inr (False, q)"
  using assms
proof (induction xs arbitrary: n)
  case Nil
  then show ?case by (cases n) simp_all
next
  case (Cons x xs)
  then show ?case by (cases n) simp_all
qed

lemma ParseType_native_int:
  assumes "path_to_type s" "b = ELEMENT_TYPE_I \<or> b = ELEMENT_TYPE_U"
  shows "ParseType (s @ b # xs) = Inr (False, xs)"
  using assms(1)
proof (induction rule: path_to_type.induct)
  case here
  show ?case using assms(2) by (subst ParseType_unfold) (auto simp: parse_type_body_def ets)
next
  case (vector s ms)
  then obtain c r where c: "s @ b # xs = c # r" "starts_type c" using path_start [OF _ assms(2)] by blast
  have "ParseOptionalCustomMods (mod_bytes ms @ c # r) = Inr (True, c # r)"
    using c(2) vector.hyps(2) by (intro ParseMods_bytes) (auto simp: starts_type_def)
  then show ?case using vector.IH c(1) by (subst ParseType_unfold) (simp add: parse_type_body_def ets)
next
  case (array s)
  then show ?case by (subst ParseType_unfold) (simp add: parse_type_body_def ets)
next
  case (pointer s ms)
  then obtain c r where c: "s @ b # xs = c # r" "starts_type c" "c \<noteq> ELEMENT_TYPE_VOID"
    using path_start [OF _ assms(2)] by blast
  have "ParseOptionalCustomMods (mod_bytes ms @ c # r) = Inr (True, c # r)"
    using c(2) pointer.hyps(2) by (intro ParseMods_bytes) (auto simp: starts_type_def)
  then show ?case using pointer.IH c(1,3) by (subst ParseType_unfold) (simp add: parse_type_body_def ets)
next
  case (argument s k tk n ts)
  have "parse_times (unat n) ParseType (concat (map type_bytes ts) @ s @ b # xs) = Inr (False, xs)"
    using argument by (intro parse_times_stops) (auto simp: list_all_iff ParseType_bytes(1))
  then show ?case using argument.hyps
    by (subst ParseType_unfold)
      (auto simp: parse_type_body_def named_kind_def ParseTypeDefOrRef_bytes ParseNumber_bytes ets)
qed

text \<open>C19: the native integers are not among the types the parsers accept: \<open>ELEMENT_TYPE_I\<close> or \<open>ELEMENT_TYPE_U\<close>, alone or
  at any depth as the element of a vector, an array or a pointer or as an argument of a generic type, behind good
  arguments, makes \<open>ParseType\<close> reject, and \<open>ParseParam\<close> and \<open>ParseRetType\<close> too, with any custom modifiers
  and by value or by reference.\<close>

theorem ParseType_rejects_native_int:
  assumes "b = ELEMENT_TYPE_I \<or> b = ELEMENT_TYPE_U" and "path_to_type s" and "good_mods ms"
  shows "ParseType (s @ b # xs) = Inr (False, xs) \<and>
     (\<forall>f \<in> {ParseParam, ParseRetType}. f (mod_bytes ms @ s @ b # xs) = Inr (False, xs) \<and>
        f (mod_bytes ms @ ELEMENT_TYPE_BYREF # s @ b # xs) = Inr (False, xs))"
proof -
  obtain c r where c: "s @ b # xs = c # r" "starts_type c" "c \<noteq> ELEMENT_TYPE_VOID"
    using path_start [OF assms(2,1)] by blast
  have t: "ParseType (c # r) = Inr (False, xs)" using ParseType_native_int [OF assms(2,1), of xs] c(1) by simp
  have m: "ParseOptionalCustomMods (mod_bytes ms @ d # ys) = Inr (True, d # ys)" if "d = c \<or> d = ELEMENT_TYPE_BYREF" for d ys
    using c(2) assms(3) that by (intro ParseMods_bytes) (auto simp: starts_type_def ets)
  show ?thesis unfolding c(1)
    using t m c(2,3) by (auto simp: ParseParam_def ParseRetType_def parse_param_def parse_ret_type_def starts_type_def ets)
qed

text \<open>A vector of native integers returned, and a generic type over \<open>int\<close> and a native integer by reference.\<close>

theorem ParseType_rejects_native_int_witness:
  "ParseRetType [0x1d, 0x18, 8] = Inr (False, [8]) \<and> ParseParam [0x10, 0x15, 0x12, 0x49, 2, 8, 0x19, 8] = Inr (False, [8])"
proof -
  have c: "CorSigCompressToken 0x01000012 = (1, [0x49])" "CorSigCompressData 2 = (1, [2])" by code_simp+
  have k: "TypeFromToken 0x01000012 \<in> set g_tkCorEncodeToken" by code_simp
  have m: "good_mods []" by (simp add: good_mods_def)
  have p: "path_to_type [0x1d]" "path_to_type [0x15, 0x12, 0x49, 2, 8]"
    using path_to_type.vector [OF path_to_type.here m]
      path_to_type.argument [OF path_to_type.here _ k, of "0x12" 2 "[Simple ELEMENT_TYPE_I4]"]
    by (simp_all add: mod_bytes_def c named_kind_def simple_kinds_def ets)
  show ?thesis
    using ParseType_rejects_native_int [OF _ p(1) m, of "0x18" "[8]"] ParseType_rejects_native_int [OF _ p(2) m, of "0x19" "[8]"]
    by (simp add: mod_bytes_def ets)
qed

text \<open>No bound is checked: a signature that ends where a type is expected is read past its end.\<close>

lemma ParseType_truncated: "ParseType (replicate n ELEMENT_TYPE_SZARRAY) = Inl OutOfBounds"
proof (induction n)
  case 0
  show ?case by (subst ParseType_unfold) (simp add: parse_type_body_def peek_byte_def)
next
  case (Suc n)
  have "ParseOptionalCustomMods (ELEMENT_TYPE_SZARRAY # xs) = Inr (True, ELEMENT_TYPE_SZARRAY # xs)" for xs
    by (subst ParseOptionalCustomMods.simps) (simp add: ets)
  then have "ParseOptionalCustomMods (replicate n ELEMENT_TYPE_SZARRAY) =
      (if n = 0 then Inl OutOfBounds else Inr (True, replicate n ELEMENT_TYPE_SZARRAY))"
    by (cases n) (simp_all add: ParseOptionalCustomMods.simps [of "[]"] peek_byte_def)
  then show ?case
    using Suc by (subst ParseType_unfold) (simp add: parse_type_body_def ets)
qed

end
