(* ===== verification/Opcode.thy ===== *)
theory Opcode
  imports Prelude
begin

text \<open>
  The IL instruction table \<^verbatim>\<open>lib/coreclr/src/inc/opcode.def\<close> and the two arrays
  \<^verbatim>\<open>rewriter/ILRewriter.cpp\<close> generates from it: \<open>s_OpCodeFlags\<close>, the size of an instruction's
  operand and whether it is a branch, and \<open>k_rgnStackPushes\<close>. The enumerators of \<open>OPCODE\<close> are
  the positions of the table, \<open>CEE_COUNT\<close> its length; the rewriter keeps an opcode as an
  \<open>unsigned\<close>. Only the columns the profiler reads are kept, with the length and the two
  encoding bytes, which justify the rewriter's use of a position as an encoding.
\<close>

type_synonym OPCODE = "32 word"

section \<open>The table\<close>

datatype OperandParams =
  InlineNone | ShortInlineVar | InlineVar | ShortInlineI | InlineI | InlineI8 | ShortInlineR
| InlineR | ShortInlineBrTarget | InlineBrTarget | InlineMethod | InlineField | InlineType
| InlineString | InlineSig | InlineRVA | InlineTok | InlineSwitch

datatype StackPush = Push0 | Push1 | PushI | PushI4 | PushR4 | PushI8 | PushR8 | PushRef | VarPush

text \<open>A row: the stack pushes, the operand kind, the length and bytes of the encoding.\<close>

datatype opdef = OPDEF (op_push: "StackPush list") (op_args: OperandParams) (op_len: nat)
  (op_s1: BYTE) (op_s2: BYTE)

definition opdefs_0 :: "opdef list" where
  "opdefs_0 = [
    OPDEF [Push0] InlineNone 1 0xFF 0x00,
    OPDEF [Push0] InlineNone 1 0xFF 0x01,
    OPDEF [Push1] InlineNone 1 0xFF 0x02,
    OPDEF [Push1] InlineNone 1 0xFF 0x03,
    OPDEF [Push1] InlineNone 1 0xFF 0x04,
    OPDEF [Push1] InlineNone 1 0xFF 0x05,
    OPDEF [Push1] InlineNone 1 0xFF 0x06,
    OPDEF [Push1] InlineNone 1 0xFF 0x07,
    OPDEF [Push1] InlineNone 1 0xFF 0x08,
    OPDEF [Push1] InlineNone 1 0xFF 0x09,
    OPDEF [Push0] InlineNone 1 0xFF 0x0A,
    OPDEF [Push0] InlineNone 1 0xFF 0x0B,
    OPDEF [Push0] InlineNone 1 0xFF 0x0C,
    OPDEF [Push0] InlineNone 1 0xFF 0x0D,
    OPDEF [Push1] ShortInlineVar 1 0xFF 0x0E,
    OPDEF [PushI] ShortInlineVar 1 0xFF 0x0F,
    OPDEF [Push0] ShortInlineVar 1 0xFF 0x10,
    OPDEF [Push1] ShortInlineVar 1 0xFF 0x11,
    OPDEF [PushI] ShortInlineVar 1 0xFF 0x12,
    OPDEF [Push0] ShortInlineVar 1 0xFF 0x13,
    OPDEF [PushRef] InlineNone 1 0xFF 0x14,
    OPDEF [PushI] InlineNone 1 0xFF 0x15,
    OPDEF [PushI] InlineNone 1 0xFF 0x16,
    OPDEF [PushI] InlineNone 1 0xFF 0x17,
    OPDEF [PushI] InlineNone 1 0xFF 0x18,
    OPDEF [PushI] InlineNone 1 0xFF 0x19,
    OPDEF [PushI] InlineNone 1 0xFF 0x1A,
    OPDEF [PushI] InlineNone 1 0xFF 0x1B,
    OPDEF [PushI] InlineNone 1 0xFF 0x1C,
    OPDEF [PushI] InlineNone 1 0xFF 0x1D,
    OPDEF [PushI] InlineNone 1 0xFF 0x1E,
    OPDEF [PushI] ShortInlineI 1 0xFF 0x1F,
    OPDEF [PushI] InlineI 1 0xFF 0x20,
    OPDEF [PushI8] InlineI8 1 0xFF 0x21,
    OPDEF [PushR4] ShortInlineR 1 0xFF 0x22,
    OPDEF [PushR8] InlineR 1 0xFF 0x23,
    OPDEF [Push0] InlineNone 1 0xFF 0x24,
    OPDEF [Push1, Push1] InlineNone 1 0xFF 0x25,
    OPDEF [Push0] InlineNone 1 0xFF 0x26,
    OPDEF [Push0] InlineMethod 1 0xFF 0x27,
    OPDEF [VarPush] InlineMethod 1 0xFF 0x28,
    OPDEF [VarPush] InlineSig 1 0xFF 0x29,
    OPDEF [Push0] InlineNone 1 0xFF 0x2A,
    OPDEF [Push0] ShortInlineBrTarget 1 0xFF 0x2B,
    OPDEF [Push0] ShortInlineBrTarget 1 0xFF 0x2C,
    OPDEF [Push0] ShortInlineBrTarget 1 0xFF 0x2D,
    OPDEF [Push0] ShortInlineBrTarget 1 0xFF 0x2E,
    OPDEF [Push0] ShortInlineBrTarget 1 0xFF 0x2F,
    OPDEF [Push0] ShortInlineBrTarget 1 0xFF 0x30]"

definition opdefs_1 :: "opdef list" where
  "opdefs_1 = [
    OPDEF [Push0] ShortInlineBrTarget 1 0xFF 0x31,
    OPDEF [Push0] ShortInlineBrTarget 1 0xFF 0x32,
    OPDEF [Push0] ShortInlineBrTarget 1 0xFF 0x33,
    OPDEF [Push0] ShortInlineBrTarget 1 0xFF 0x34,
    OPDEF [Push0] ShortInlineBrTarget 1 0xFF 0x35,
    OPDEF [Push0] ShortInlineBrTarget 1 0xFF 0x36,
    OPDEF [Push0] ShortInlineBrTarget 1 0xFF 0x37,
    OPDEF [Push0] InlineBrTarget 1 0xFF 0x38,
    OPDEF [Push0] InlineBrTarget 1 0xFF 0x39,
    OPDEF [Push0] InlineBrTarget 1 0xFF 0x3A,
    OPDEF [Push0] InlineBrTarget 1 0xFF 0x3B,
    OPDEF [Push0] InlineBrTarget 1 0xFF 0x3C,
    OPDEF [Push0] InlineBrTarget 1 0xFF 0x3D,
    OPDEF [Push0] InlineBrTarget 1 0xFF 0x3E,
    OPDEF [Push0] InlineBrTarget 1 0xFF 0x3F,
    OPDEF [Push0] InlineBrTarget 1 0xFF 0x40,
    OPDEF [Push0] InlineBrTarget 1 0xFF 0x41,
    OPDEF [Push0] InlineBrTarget 1 0xFF 0x42,
    OPDEF [Push0] InlineBrTarget 1 0xFF 0x43,
    OPDEF [Push0] InlineBrTarget 1 0xFF 0x44,
    OPDEF [Push0] InlineSwitch 1 0xFF 0x45,
    OPDEF [PushI] InlineNone 1 0xFF 0x46,
    OPDEF [PushI] InlineNone 1 0xFF 0x47,
    OPDEF [PushI] InlineNone 1 0xFF 0x48,
    OPDEF [PushI] InlineNone 1 0xFF 0x49,
    OPDEF [PushI] InlineNone 1 0xFF 0x4A,
    OPDEF [PushI] InlineNone 1 0xFF 0x4B,
    OPDEF [PushI8] InlineNone 1 0xFF 0x4C,
    OPDEF [PushI] InlineNone 1 0xFF 0x4D,
    OPDEF [PushR4] InlineNone 1 0xFF 0x4E,
    OPDEF [PushR8] InlineNone 1 0xFF 0x4F,
    OPDEF [PushRef] InlineNone 1 0xFF 0x50,
    OPDEF [Push0] InlineNone 1 0xFF 0x51,
    OPDEF [Push0] InlineNone 1 0xFF 0x52,
    OPDEF [Push0] InlineNone 1 0xFF 0x53,
    OPDEF [Push0] InlineNone 1 0xFF 0x54,
    OPDEF [Push0] InlineNone 1 0xFF 0x55,
    OPDEF [Push0] InlineNone 1 0xFF 0x56,
    OPDEF [Push0] InlineNone 1 0xFF 0x57,
    OPDEF [Push1] InlineNone 1 0xFF 0x58,
    OPDEF [Push1] InlineNone 1 0xFF 0x59,
    OPDEF [Push1] InlineNone 1 0xFF 0x5A,
    OPDEF [Push1] InlineNone 1 0xFF 0x5B,
    OPDEF [Push1] InlineNone 1 0xFF 0x5C,
    OPDEF [Push1] InlineNone 1 0xFF 0x5D,
    OPDEF [Push1] InlineNone 1 0xFF 0x5E,
    OPDEF [Push1] InlineNone 1 0xFF 0x5F,
    OPDEF [Push1] InlineNone 1 0xFF 0x60,
    OPDEF [Push1] InlineNone 1 0xFF 0x61]"

definition opdefs_2 :: "opdef list" where
  "opdefs_2 = [
    OPDEF [Push1] InlineNone 1 0xFF 0x62,
    OPDEF [Push1] InlineNone 1 0xFF 0x63,
    OPDEF [Push1] InlineNone 1 0xFF 0x64,
    OPDEF [Push1] InlineNone 1 0xFF 0x65,
    OPDEF [Push1] InlineNone 1 0xFF 0x66,
    OPDEF [PushI] InlineNone 1 0xFF 0x67,
    OPDEF [PushI] InlineNone 1 0xFF 0x68,
    OPDEF [PushI] InlineNone 1 0xFF 0x69,
    OPDEF [PushI8] InlineNone 1 0xFF 0x6A,
    OPDEF [PushR4] InlineNone 1 0xFF 0x6B,
    OPDEF [PushR8] InlineNone 1 0xFF 0x6C,
    OPDEF [PushI] InlineNone 1 0xFF 0x6D,
    OPDEF [PushI8] InlineNone 1 0xFF 0x6E,
    OPDEF [VarPush] InlineMethod 1 0xFF 0x6F,
    OPDEF [Push0] InlineType 1 0xFF 0x70,
    OPDEF [Push1] InlineType 1 0xFF 0x71,
    OPDEF [PushRef] InlineString 1 0xFF 0x72,
    OPDEF [PushRef] InlineMethod 1 0xFF 0x73,
    OPDEF [PushRef] InlineType 1 0xFF 0x74,
    OPDEF [PushI] InlineType 1 0xFF 0x75,
    OPDEF [PushR8] InlineNone 1 0xFF 0x76,
    OPDEF [Push0] InlineNone 1 0xFF 0x77,
    OPDEF [Push0] InlineNone 1 0xFF 0x78,
    OPDEF [PushI] InlineType 1 0xFF 0x79,
    OPDEF [Push0] InlineNone 1 0xFF 0x7A,
    OPDEF [Push1] InlineField 1 0xFF 0x7B,
    OPDEF [PushI] InlineField 1 0xFF 0x7C,
    OPDEF [Push0] InlineField 1 0xFF 0x7D,
    OPDEF [Push1] InlineField 1 0xFF 0x7E,
    OPDEF [PushI] InlineField 1 0xFF 0x7F,
    OPDEF [Push0] InlineField 1 0xFF 0x80,
    OPDEF [Push0] InlineType 1 0xFF 0x81,
    OPDEF [PushI] InlineNone 1 0xFF 0x82,
    OPDEF [PushI] InlineNone 1 0xFF 0x83,
    OPDEF [PushI] InlineNone 1 0xFF 0x84,
    OPDEF [PushI8] InlineNone 1 0xFF 0x85,
    OPDEF [PushI] InlineNone 1 0xFF 0x86,
    OPDEF [PushI] InlineNone 1 0xFF 0x87,
    OPDEF [PushI] InlineNone 1 0xFF 0x88,
    OPDEF [PushI8] InlineNone 1 0xFF 0x89,
    OPDEF [PushI] InlineNone 1 0xFF 0x8A,
    OPDEF [PushI] InlineNone 1 0xFF 0x8B,
    OPDEF [PushRef] InlineType 1 0xFF 0x8C,
    OPDEF [PushRef] InlineType 1 0xFF 0x8D,
    OPDEF [PushI] InlineNone 1 0xFF 0x8E,
    OPDEF [PushI] InlineType 1 0xFF 0x8F,
    OPDEF [PushI] InlineNone 1 0xFF 0x90,
    OPDEF [PushI] InlineNone 1 0xFF 0x91,
    OPDEF [PushI] InlineNone 1 0xFF 0x92]"

definition opdefs_3 :: "opdef list" where
  "opdefs_3 = [
    OPDEF [PushI] InlineNone 1 0xFF 0x93,
    OPDEF [PushI] InlineNone 1 0xFF 0x94,
    OPDEF [PushI] InlineNone 1 0xFF 0x95,
    OPDEF [PushI8] InlineNone 1 0xFF 0x96,
    OPDEF [PushI] InlineNone 1 0xFF 0x97,
    OPDEF [PushR4] InlineNone 1 0xFF 0x98,
    OPDEF [PushR8] InlineNone 1 0xFF 0x99,
    OPDEF [PushRef] InlineNone 1 0xFF 0x9A,
    OPDEF [Push0] InlineNone 1 0xFF 0x9B,
    OPDEF [Push0] InlineNone 1 0xFF 0x9C,
    OPDEF [Push0] InlineNone 1 0xFF 0x9D,
    OPDEF [Push0] InlineNone 1 0xFF 0x9E,
    OPDEF [Push0] InlineNone 1 0xFF 0x9F,
    OPDEF [Push0] InlineNone 1 0xFF 0xA0,
    OPDEF [Push0] InlineNone 1 0xFF 0xA1,
    OPDEF [Push0] InlineNone 1 0xFF 0xA2,
    OPDEF [Push1] InlineType 1 0xFF 0xA3,
    OPDEF [Push0] InlineType 1 0xFF 0xA4,
    OPDEF [Push1] InlineType 1 0xFF 0xA5,
    OPDEF [Push0] InlineNone 1 0xFF 0xA6,
    OPDEF [Push0] InlineNone 1 0xFF 0xA7,
    OPDEF [Push0] InlineNone 1 0xFF 0xA8,
    OPDEF [Push0] InlineNone 1 0xFF 0xA9,
    OPDEF [Push0] InlineNone 1 0xFF 0xAA,
    OPDEF [Push0] InlineNone 1 0xFF 0xAB,
    OPDEF [Push0] InlineNone 1 0xFF 0xAC,
    OPDEF [Push0] InlineNone 1 0xFF 0xAD,
    OPDEF [Push0] InlineNone 1 0xFF 0xAE,
    OPDEF [Push0] InlineNone 1 0xFF 0xAF,
    OPDEF [Push0] InlineNone 1 0xFF 0xB0,
    OPDEF [Push0] InlineNone 1 0xFF 0xB1,
    OPDEF [Push0] InlineNone 1 0xFF 0xB2,
    OPDEF [PushI] InlineNone 1 0xFF 0xB3,
    OPDEF [PushI] InlineNone 1 0xFF 0xB4,
    OPDEF [PushI] InlineNone 1 0xFF 0xB5,
    OPDEF [PushI] InlineNone 1 0xFF 0xB6,
    OPDEF [PushI] InlineNone 1 0xFF 0xB7,
    OPDEF [PushI] InlineNone 1 0xFF 0xB8,
    OPDEF [PushI8] InlineNone 1 0xFF 0xB9,
    OPDEF [PushI8] InlineNone 1 0xFF 0xBA,
    OPDEF [Push0] InlineNone 1 0xFF 0xBB,
    OPDEF [Push0] InlineNone 1 0xFF 0xBC,
    OPDEF [Push0] InlineNone 1 0xFF 0xBD,
    OPDEF [Push0] InlineNone 1 0xFF 0xBE,
    OPDEF [Push0] InlineNone 1 0xFF 0xBF,
    OPDEF [Push0] InlineNone 1 0xFF 0xC0,
    OPDEF [Push0] InlineNone 1 0xFF 0xC1,
    OPDEF [PushI] InlineType 1 0xFF 0xC2,
    OPDEF [PushR8] InlineNone 1 0xFF 0xC3]"

definition opdefs_4 :: "opdef list" where
  "opdefs_4 = [
    OPDEF [Push0] InlineNone 1 0xFF 0xC4,
    OPDEF [Push0] InlineNone 1 0xFF 0xC5,
    OPDEF [Push1] InlineType 1 0xFF 0xC6,
    OPDEF [Push0] InlineNone 1 0xFF 0xC7,
    OPDEF [Push0] InlineNone 1 0xFF 0xC8,
    OPDEF [Push0] InlineNone 1 0xFF 0xC9,
    OPDEF [Push0] InlineNone 1 0xFF 0xCA,
    OPDEF [Push0] InlineNone 1 0xFF 0xCB,
    OPDEF [Push0] InlineNone 1 0xFF 0xCC,
    OPDEF [Push0] InlineNone 1 0xFF 0xCD,
    OPDEF [Push0] InlineNone 1 0xFF 0xCE,
    OPDEF [Push0] InlineNone 1 0xFF 0xCF,
    OPDEF [PushI] InlineTok 1 0xFF 0xD0,
    OPDEF [PushI] InlineNone 1 0xFF 0xD1,
    OPDEF [PushI] InlineNone 1 0xFF 0xD2,
    OPDEF [PushI] InlineNone 1 0xFF 0xD3,
    OPDEF [PushI] InlineNone 1 0xFF 0xD4,
    OPDEF [PushI] InlineNone 1 0xFF 0xD5,
    OPDEF [Push1] InlineNone 1 0xFF 0xD6,
    OPDEF [Push1] InlineNone 1 0xFF 0xD7,
    OPDEF [Push1] InlineNone 1 0xFF 0xD8,
    OPDEF [Push1] InlineNone 1 0xFF 0xD9,
    OPDEF [Push1] InlineNone 1 0xFF 0xDA,
    OPDEF [Push1] InlineNone 1 0xFF 0xDB,
    OPDEF [Push0] InlineNone 1 0xFF 0xDC,
    OPDEF [Push0] InlineBrTarget 1 0xFF 0xDD,
    OPDEF [Push0] ShortInlineBrTarget 1 0xFF 0xDE,
    OPDEF [Push0] InlineNone 1 0xFF 0xDF,
    OPDEF [PushI] InlineNone 1 0xFF 0xE0,
    OPDEF [Push0] InlineNone 1 0xFF 0xE1,
    OPDEF [Push0] InlineNone 1 0xFF 0xE2,
    OPDEF [Push0] InlineNone 1 0xFF 0xE3,
    OPDEF [Push0] InlineNone 1 0xFF 0xE4,
    OPDEF [Push0] InlineNone 1 0xFF 0xE5,
    OPDEF [Push0] InlineNone 1 0xFF 0xE6,
    OPDEF [Push0] InlineNone 1 0xFF 0xE7,
    OPDEF [Push0] InlineNone 1 0xFF 0xE8,
    OPDEF [Push0] InlineNone 1 0xFF 0xE9,
    OPDEF [Push0] InlineNone 1 0xFF 0xEA,
    OPDEF [Push0] InlineNone 1 0xFF 0xEB,
    OPDEF [Push0] InlineNone 1 0xFF 0xEC,
    OPDEF [Push0] InlineNone 1 0xFF 0xED,
    OPDEF [Push0] InlineNone 1 0xFF 0xEE,
    OPDEF [Push0] InlineNone 1 0xFF 0xEF,
    OPDEF [Push0] InlineNone 1 0xFF 0xF0,
    OPDEF [Push0] InlineNone 1 0xFF 0xF1,
    OPDEF [Push0] InlineNone 1 0xFF 0xF2,
    OPDEF [Push0] InlineNone 1 0xFF 0xF3,
    OPDEF [Push0] InlineNone 1 0xFF 0xF4]"

definition opdefs_5 :: "opdef list" where
  "opdefs_5 = [
    OPDEF [Push0] InlineNone 1 0xFF 0xF5,
    OPDEF [Push0] InlineNone 1 0xFF 0xF6,
    OPDEF [Push0] InlineNone 1 0xFF 0xF7,
    OPDEF [Push0] InlineNone 1 0xFF 0xF8,
    OPDEF [Push0] InlineNone 1 0xFF 0xF9,
    OPDEF [Push0] InlineNone 1 0xFF 0xFA,
    OPDEF [Push0] InlineNone 1 0xFF 0xFB,
    OPDEF [Push0] InlineNone 1 0xFF 0xFC,
    OPDEF [Push0] InlineNone 1 0xFF 0xFD,
    OPDEF [Push0] InlineNone 1 0xFF 0xFE,
    OPDEF [Push0] InlineNone 1 0xFF 0xFF,
    OPDEF [PushI] InlineNone 2 0xFE 0x00,
    OPDEF [PushI] InlineNone 2 0xFE 0x01,
    OPDEF [PushI] InlineNone 2 0xFE 0x02,
    OPDEF [PushI] InlineNone 2 0xFE 0x03,
    OPDEF [PushI] InlineNone 2 0xFE 0x04,
    OPDEF [PushI] InlineNone 2 0xFE 0x05,
    OPDEF [PushI] InlineMethod 2 0xFE 0x06,
    OPDEF [PushI] InlineMethod 2 0xFE 0x07,
    OPDEF [Push0] InlineNone 2 0xFE 0x08,
    OPDEF [Push1] InlineVar 2 0xFE 0x09,
    OPDEF [PushI] InlineVar 2 0xFE 0x0A,
    OPDEF [Push0] InlineVar 2 0xFE 0x0B,
    OPDEF [Push1] InlineVar 2 0xFE 0x0C,
    OPDEF [PushI] InlineVar 2 0xFE 0x0D,
    OPDEF [Push0] InlineVar 2 0xFE 0x0E,
    OPDEF [PushI] InlineNone 2 0xFE 0x0F,
    OPDEF [Push0] InlineNone 2 0xFE 0x10,
    OPDEF [Push0] InlineNone 2 0xFE 0x11,
    OPDEF [Push0] ShortInlineI 2 0xFE 0x12,
    OPDEF [Push0] InlineNone 2 0xFE 0x13,
    OPDEF [Push0] InlineNone 2 0xFE 0x14,
    OPDEF [Push0] InlineType 2 0xFE 0x15,
    OPDEF [Push0] InlineType 2 0xFE 0x16,
    OPDEF [Push0] InlineNone 2 0xFE 0x17,
    OPDEF [Push0] InlineNone 2 0xFE 0x18,
    OPDEF [Push0] InlineNone 2 0xFE 0x19,
    OPDEF [Push0] InlineNone 2 0xFE 0x1A,
    OPDEF [Push0] InlineNone 2 0xFE 0x1B,
    OPDEF [PushI] InlineType 2 0xFE 0x1C,
    OPDEF [PushI] InlineNone 2 0xFE 0x1D,
    OPDEF [Push0] InlineNone 2 0xFE 0x1E,
    OPDEF [Push0] InlineNone 2 0xFE 0x1F,
    OPDEF [Push0] InlineNone 2 0xFE 0x20,
    OPDEF [Push0] InlineNone 2 0xFE 0x21,
    OPDEF [Push0] InlineNone 2 0xFE 0x22,
    OPDEF [Push0] InlineNone 0 0 0,
    OPDEF [Push0] InlineNone 0 0 0,
    OPDEF [Push0] InlineNone 0 0 0]"

definition opcode_def :: "opdef list" where
  "opcode_def = opdefs_0 @ opdefs_1 @ opdefs_2 @ opdefs_3 @ opdefs_4 @ opdefs_5"

lemmas opdefs_defs = opcode_def_def opdefs_0_def opdefs_1_def opdefs_2_def opdefs_3_def
  opdefs_4_def opdefs_5_def

definition CEE_COUNT :: OPCODE where "CEE_COUNT = 294"
definition CEE_SWITCH_ARG :: OPCODE where "CEE_SWITCH_ARG = 295"

abbreviation (input) CEE_NOP :: OPCODE where "CEE_NOP \<equiv> 0"
abbreviation (input) CEE_LDARG_0 :: OPCODE where "CEE_LDARG_0 \<equiv> 0x2"
abbreviation (input) CEE_LDARG_1 :: OPCODE where "CEE_LDARG_1 \<equiv> 0x3"
abbreviation (input) CEE_LDARG_2 :: OPCODE where "CEE_LDARG_2 \<equiv> 0x4"
abbreviation (input) CEE_LDARG_3 :: OPCODE where "CEE_LDARG_3 \<equiv> 0x5"
abbreviation (input) CEE_LDLOC_0 :: OPCODE where "CEE_LDLOC_0 \<equiv> 0x6"
abbreviation (input) CEE_LDLOC_1 :: OPCODE where "CEE_LDLOC_1 \<equiv> 0x7"
abbreviation (input) CEE_LDLOC_2 :: OPCODE where "CEE_LDLOC_2 \<equiv> 0x8"
abbreviation (input) CEE_LDLOC_3 :: OPCODE where "CEE_LDLOC_3 \<equiv> 0x9"
abbreviation (input) CEE_STLOC_0 :: OPCODE where "CEE_STLOC_0 \<equiv> 0xa"
abbreviation (input) CEE_STLOC_1 :: OPCODE where "CEE_STLOC_1 \<equiv> 0xb"
abbreviation (input) CEE_STLOC_2 :: OPCODE where "CEE_STLOC_2 \<equiv> 0xc"
abbreviation (input) CEE_STLOC_3 :: OPCODE where "CEE_STLOC_3 \<equiv> 0xd"
abbreviation (input) CEE_LDARG_S :: OPCODE where "CEE_LDARG_S \<equiv> 0xe"
abbreviation (input) CEE_LDLOC_S :: OPCODE where "CEE_LDLOC_S \<equiv> 0x11"
abbreviation (input) CEE_LDLOCA_S :: OPCODE where "CEE_LDLOCA_S \<equiv> 0x12"
abbreviation (input) CEE_STLOC_S :: OPCODE where "CEE_STLOC_S \<equiv> 0x13"
abbreviation (input) CEE_LDNULL :: OPCODE where "CEE_LDNULL \<equiv> 0x14"
abbreviation (input) CEE_LDC_I4_M1 :: OPCODE where "CEE_LDC_I4_M1 \<equiv> 0x15"
abbreviation (input) CEE_LDC_I4_0 :: OPCODE where "CEE_LDC_I4_0 \<equiv> 0x16"
abbreviation (input) CEE_LDC_I4_1 :: OPCODE where "CEE_LDC_I4_1 \<equiv> 0x17"
abbreviation (input) CEE_LDC_I4_2 :: OPCODE where "CEE_LDC_I4_2 \<equiv> 0x18"
abbreviation (input) CEE_LDC_I4_3 :: OPCODE where "CEE_LDC_I4_3 \<equiv> 0x19"
abbreviation (input) CEE_LDC_I4_4 :: OPCODE where "CEE_LDC_I4_4 \<equiv> 0x1a"
abbreviation (input) CEE_LDC_I4_5 :: OPCODE where "CEE_LDC_I4_5 \<equiv> 0x1b"
abbreviation (input) CEE_LDC_I4_6 :: OPCODE where "CEE_LDC_I4_6 \<equiv> 0x1c"
abbreviation (input) CEE_LDC_I4_7 :: OPCODE where "CEE_LDC_I4_7 \<equiv> 0x1d"
abbreviation (input) CEE_LDC_I4_8 :: OPCODE where "CEE_LDC_I4_8 \<equiv> 0x1e"
abbreviation (input) CEE_LDC_I4_S :: OPCODE where "CEE_LDC_I4_S \<equiv> 0x1f"
abbreviation (input) CEE_LDC_I4 :: OPCODE where "CEE_LDC_I4 \<equiv> 0x20"
abbreviation (input) CEE_LDC_I8 :: OPCODE where "CEE_LDC_I8 \<equiv> 0x21"
abbreviation (input) CEE_DUP :: OPCODE where "CEE_DUP \<equiv> 0x25"
abbreviation (input) CEE_POP :: OPCODE where "CEE_POP \<equiv> 0x26"
abbreviation (input) CEE_CALL :: OPCODE where "CEE_CALL \<equiv> 0x28"
abbreviation (input) CEE_RET :: OPCODE where "CEE_RET \<equiv> 0x2a"
abbreviation (input) CEE_BR_S :: OPCODE where "CEE_BR_S \<equiv> 0x2b"
abbreviation (input) CEE_BRFALSE_S :: OPCODE where "CEE_BRFALSE_S \<equiv> 0x2c"
abbreviation (input) CEE_BRTRUE_S :: OPCODE where "CEE_BRTRUE_S \<equiv> 0x2d"
abbreviation (input) CEE_BLT_UN_S :: OPCODE where "CEE_BLT_UN_S \<equiv> 0x37"
abbreviation (input) CEE_BR :: OPCODE where "CEE_BR \<equiv> 0x38"
abbreviation (input) CEE_BLT_UN :: OPCODE where "CEE_BLT_UN \<equiv> 0x44"
abbreviation (input) CEE_SWITCH :: OPCODE where "CEE_SWITCH \<equiv> 0x45"
abbreviation (input) CEE_LDIND_I1 :: OPCODE where "CEE_LDIND_I1 \<equiv> 0x46"
abbreviation (input) CEE_LDIND_U1 :: OPCODE where "CEE_LDIND_U1 \<equiv> 0x47"
abbreviation (input) CEE_LDIND_I2 :: OPCODE where "CEE_LDIND_I2 \<equiv> 0x48"
abbreviation (input) CEE_LDIND_U2 :: OPCODE where "CEE_LDIND_U2 \<equiv> 0x49"
abbreviation (input) CEE_LDIND_I4 :: OPCODE where "CEE_LDIND_I4 \<equiv> 0x4a"
abbreviation (input) CEE_LDIND_U4 :: OPCODE where "CEE_LDIND_U4 \<equiv> 0x4b"
abbreviation (input) CEE_LDIND_I8 :: OPCODE where "CEE_LDIND_I8 \<equiv> 0x4c"
abbreviation (input) CEE_LDIND_I :: OPCODE where "CEE_LDIND_I \<equiv> 0x4d"
abbreviation (input) CEE_LDIND_R4 :: OPCODE where "CEE_LDIND_R4 \<equiv> 0x4e"
abbreviation (input) CEE_LDIND_R8 :: OPCODE where "CEE_LDIND_R8 \<equiv> 0x4f"
abbreviation (input) CEE_LDIND_REF :: OPCODE where "CEE_LDIND_REF \<equiv> 0x50"
abbreviation (input) CEE_STIND_REF :: OPCODE where "CEE_STIND_REF \<equiv> 0x51"
abbreviation (input) CEE_STIND_I1 :: OPCODE where "CEE_STIND_I1 \<equiv> 0x52"
abbreviation (input) CEE_STIND_I2 :: OPCODE where "CEE_STIND_I2 \<equiv> 0x53"
abbreviation (input) CEE_STIND_I4 :: OPCODE where "CEE_STIND_I4 \<equiv> 0x54"
abbreviation (input) CEE_STIND_I8 :: OPCODE where "CEE_STIND_I8 \<equiv> 0x55"
abbreviation (input) CEE_STIND_R4 :: OPCODE where "CEE_STIND_R4 \<equiv> 0x56"
abbreviation (input) CEE_STIND_R8 :: OPCODE where "CEE_STIND_R8 \<equiv> 0x57"
abbreviation (input) CEE_CALLVIRT :: OPCODE where "CEE_CALLVIRT \<equiv> 0x6f"
abbreviation (input) CEE_LDSTR :: OPCODE where "CEE_LDSTR \<equiv> 0x72"
abbreviation (input) CEE_NEWOBJ :: OPCODE where "CEE_NEWOBJ \<equiv> 0x73"
abbreviation (input) CEE_CASTCLASS :: OPCODE where "CEE_CASTCLASS \<equiv> 0x74"
abbreviation (input) CEE_THROW :: OPCODE where "CEE_THROW \<equiv> 0x7a"
abbreviation (input) CEE_BOX :: OPCODE where "CEE_BOX \<equiv> 0x8c"
abbreviation (input) CEE_NEWARR :: OPCODE where "CEE_NEWARR \<equiv> 0x8d"
abbreviation (input) CEE_STELEM_REF :: OPCODE where "CEE_STELEM_REF \<equiv> 0xa2"
abbreviation (input) CEE_UNBOX_ANY :: OPCODE where "CEE_UNBOX_ANY \<equiv> 0xa5"
abbreviation (input) CEE_LEAVE :: OPCODE where "CEE_LEAVE \<equiv> 0xdd"
abbreviation (input) CEE_LEAVE_S :: OPCODE where "CEE_LEAVE_S \<equiv> 0xde"
abbreviation (input) CEE_STIND_I :: OPCODE where "CEE_STIND_I \<equiv> 0xdf"
abbreviation (input) CEE_PREFIX7 :: OPCODE where "CEE_PREFIX7 \<equiv> 0xf8"
abbreviation (input) CEE_PREFIX2 :: OPCODE where "CEE_PREFIX2 \<equiv> 0xfd"
abbreviation (input) CEE_PREFIX1 :: OPCODE where "CEE_PREFIX1 \<equiv> 0xfe"
abbreviation (input) CEE_CGT_UN :: OPCODE where "CEE_CGT_UN \<equiv> 0x103"
abbreviation (input) CEE_LDARG :: OPCODE where "CEE_LDARG \<equiv> 0x109"
abbreviation (input) CEE_LDLOC :: OPCODE where "CEE_LDLOC \<equiv> 0x10c"
abbreviation (input) CEE_LDLOCA :: OPCODE where "CEE_LDLOCA \<equiv> 0x10d"
abbreviation (input) CEE_STLOC :: OPCODE where "CEE_STLOC \<equiv> 0x10e"

section \<open>The arrays of the rewriter\<close>

definition OPCODEFLAGS_SizeMask :: BYTE where "OPCODEFLAGS_SizeMask = 0x0F"
definition OPCODEFLAGS_BranchTarget :: BYTE where "OPCODEFLAGS_BranchTarget = 0x10"
definition OPCODEFLAGS_Switch :: BYTE where "OPCODEFLAGS_Switch = 0x20"

fun OperandFlags :: "OperandParams \<Rightarrow> BYTE" where
  "OperandFlags InlineNone = 0"
| "OperandFlags ShortInlineVar = 1"
| "OperandFlags InlineVar = 2"
| "OperandFlags ShortInlineI = 1"
| "OperandFlags InlineI = 4"
| "OperandFlags InlineI8 = 8"
| "OperandFlags ShortInlineR = 4"
| "OperandFlags InlineR = 8"
| "OperandFlags ShortInlineBrTarget = 1 OR OPCODEFLAGS_BranchTarget"
| "OperandFlags InlineBrTarget = 4 OR OPCODEFLAGS_BranchTarget"
| "OperandFlags InlineMethod = 4"
| "OperandFlags InlineField = 4"
| "OperandFlags InlineType = 4"
| "OperandFlags InlineString = 4"
| "OperandFlags InlineSig = 4"
| "OperandFlags InlineRVA = 4"
| "OperandFlags InlineTok = 4"
| "OperandFlags InlineSwitch = 0 OR OPCODEFLAGS_Switch"

definition s_OpCodeFlags :: "BYTE list" where
  "s_OpCodeFlags = map (OperandFlags \<circ> op_args) opcode_def @ [0, 4 OR OPCODEFLAGS_BranchTarget]"

fun PushCount :: "StackPush \<Rightarrow> nat" where
  "PushCount Push0 = 0"
| "PushCount Push1 = 1"
| "PushCount PushI = 1"
| "PushCount PushI4 = 1"
| "PushCount PushR4 = 1"
| "PushCount PushI8 = 1"
| "PushCount PushR8 = 1"
| "PushCount PushRef = 1"
| "PushCount VarPush = 1"

definition k_rgnStackPushes :: "nat list" where
  "k_rgnStackPushes = map (\<lambda>d. sum_list (map PushCount (op_push d))) opcode_def"

text \<open>Reads of the two arrays; past their end the behaviour is undefined.\<close>

definition OpCodeFlags :: "OPCODE \<Rightarrow> BYTE outcome" where
  "OpCodeFlags op =
     (if unat op < length s_OpCodeFlags then Inr (s_OpCodeFlags ! unat op) else Inl OutOfBounds)"

definition StackPushes :: "OPCODE \<Rightarrow> 32 word outcome" where
  "StackPushes op =
     (if unat op < length k_rgnStackPushes then Inr (word_of_nat (k_rgnStackPushes ! unat op))
      else Inl OutOfBounds)"

section \<open>Facts of the table\<close>

lemma length_opcode_def [simp]: "length opcode_def = 294"
  by (simp add: opdefs_defs)

lemma length_arrays [simp]: "length s_OpCodeFlags = 296" "length k_rgnStackPushes = 294"
  by (simp_all add: s_OpCodeFlags_def k_rgnStackPushes_def)

lemma OpCodeFlags_simps [simp]:
  "OpCodeFlags CEE_NOP = Inr 0"
  "OpCodeFlags CEE_LDARG_0 = Inr 0"
  "OpCodeFlags CEE_LDARG_1 = Inr 0"
  "OpCodeFlags CEE_LDARG_2 = Inr 0"
  "OpCodeFlags CEE_LDARG_3 = Inr 0"
  "OpCodeFlags CEE_LDLOC_0 = Inr 0"
  "OpCodeFlags CEE_LDLOC_1 = Inr 0"
  "OpCodeFlags CEE_LDLOC_2 = Inr 0"
  "OpCodeFlags CEE_LDLOC_3 = Inr 0"
  "OpCodeFlags CEE_STLOC_0 = Inr 0"
  "OpCodeFlags CEE_STLOC_1 = Inr 0"
  "OpCodeFlags CEE_STLOC_2 = Inr 0"
  "OpCodeFlags CEE_STLOC_3 = Inr 0"
  "OpCodeFlags CEE_LDARG_S = Inr 1"
  "OpCodeFlags CEE_LDLOC_S = Inr 1"
  "OpCodeFlags CEE_LDLOCA_S = Inr 1"
  "OpCodeFlags CEE_STLOC_S = Inr 1"
  "OpCodeFlags CEE_LDNULL = Inr 0"
  "OpCodeFlags CEE_LDC_I4_M1 = Inr 0"
  "OpCodeFlags CEE_LDC_I4_0 = Inr 0"
  "OpCodeFlags CEE_LDC_I4_1 = Inr 0"
  "OpCodeFlags CEE_LDC_I4_2 = Inr 0"
  "OpCodeFlags CEE_LDC_I4_3 = Inr 0"
  "OpCodeFlags CEE_LDC_I4_4 = Inr 0"
  "OpCodeFlags CEE_LDC_I4_5 = Inr 0"
  "OpCodeFlags CEE_LDC_I4_6 = Inr 0"
  "OpCodeFlags CEE_LDC_I4_7 = Inr 0"
  "OpCodeFlags CEE_LDC_I4_8 = Inr 0"
  "OpCodeFlags CEE_LDC_I4_S = Inr 1"
  "OpCodeFlags CEE_LDC_I4 = Inr 4"
  "OpCodeFlags CEE_LDC_I8 = Inr 8"
  "OpCodeFlags CEE_DUP = Inr 0"
  "OpCodeFlags CEE_POP = Inr 0"
  "OpCodeFlags CEE_CALL = Inr 4"
  "OpCodeFlags CEE_RET = Inr 0"
  "OpCodeFlags CEE_BR_S = Inr 0x11"
  "OpCodeFlags CEE_BRFALSE_S = Inr 0x11"
  "OpCodeFlags CEE_BRTRUE_S = Inr 0x11"
  "OpCodeFlags CEE_BLT_UN_S = Inr 0x11"
  "OpCodeFlags CEE_BR = Inr 0x14"
  "OpCodeFlags CEE_BLT_UN = Inr 0x14"
  "OpCodeFlags CEE_SWITCH = Inr 0x20"
  "OpCodeFlags CEE_LDIND_I1 = Inr 0"
  "OpCodeFlags CEE_LDIND_U1 = Inr 0"
  "OpCodeFlags CEE_LDIND_I2 = Inr 0"
  "OpCodeFlags CEE_LDIND_U2 = Inr 0"
  "OpCodeFlags CEE_LDIND_I4 = Inr 0"
  "OpCodeFlags CEE_LDIND_U4 = Inr 0"
  "OpCodeFlags CEE_LDIND_I8 = Inr 0"
  "OpCodeFlags CEE_LDIND_I = Inr 0"
  "OpCodeFlags CEE_LDIND_R4 = Inr 0"
  "OpCodeFlags CEE_LDIND_R8 = Inr 0"
  "OpCodeFlags CEE_LDIND_REF = Inr 0"
  "OpCodeFlags CEE_STIND_REF = Inr 0"
  "OpCodeFlags CEE_STIND_I1 = Inr 0"
  "OpCodeFlags CEE_STIND_I2 = Inr 0"
  "OpCodeFlags CEE_STIND_I4 = Inr 0"
  "OpCodeFlags CEE_STIND_I8 = Inr 0"
  "OpCodeFlags CEE_STIND_R4 = Inr 0"
  "OpCodeFlags CEE_STIND_R8 = Inr 0"
  "OpCodeFlags CEE_CALLVIRT = Inr 4"
  "OpCodeFlags CEE_LDSTR = Inr 4"
  "OpCodeFlags CEE_NEWOBJ = Inr 4"
  "OpCodeFlags CEE_CASTCLASS = Inr 4"
  "OpCodeFlags CEE_THROW = Inr 0"
  "OpCodeFlags CEE_BOX = Inr 4"
  "OpCodeFlags CEE_NEWARR = Inr 4"
  "OpCodeFlags CEE_STELEM_REF = Inr 0"
  "OpCodeFlags CEE_UNBOX_ANY = Inr 4"
  "OpCodeFlags CEE_LEAVE = Inr 0x14"
  "OpCodeFlags CEE_LEAVE_S = Inr 0x11"
  "OpCodeFlags CEE_STIND_I = Inr 0"
  "OpCodeFlags CEE_CGT_UN = Inr 0"
  "OpCodeFlags CEE_LDARG = Inr 2"
  "OpCodeFlags CEE_LDLOC = Inr 2"
  "OpCodeFlags CEE_LDLOCA = Inr 2"
  "OpCodeFlags CEE_STLOC = Inr 2"
  by code_simp+

lemma StackPushes_simps [simp]:
  "StackPushes CEE_NOP = Inr 0"
  "StackPushes CEE_LDARG_0 = Inr 1"
  "StackPushes CEE_LDARG_1 = Inr 1"
  "StackPushes CEE_LDARG_2 = Inr 1"
  "StackPushes CEE_LDARG_3 = Inr 1"
  "StackPushes CEE_LDLOC_0 = Inr 1"
  "StackPushes CEE_LDLOC_1 = Inr 1"
  "StackPushes CEE_LDLOC_2 = Inr 1"
  "StackPushes CEE_LDLOC_3 = Inr 1"
  "StackPushes CEE_STLOC_0 = Inr 0"
  "StackPushes CEE_STLOC_1 = Inr 0"
  "StackPushes CEE_STLOC_2 = Inr 0"
  "StackPushes CEE_STLOC_3 = Inr 0"
  "StackPushes CEE_LDARG_S = Inr 1"
  "StackPushes CEE_LDLOC_S = Inr 1"
  "StackPushes CEE_LDLOCA_S = Inr 1"
  "StackPushes CEE_STLOC_S = Inr 0"
  "StackPushes CEE_LDNULL = Inr 1"
  "StackPushes CEE_LDC_I4_M1 = Inr 1"
  "StackPushes CEE_LDC_I4_0 = Inr 1"
  "StackPushes CEE_LDC_I4_1 = Inr 1"
  "StackPushes CEE_LDC_I4_2 = Inr 1"
  "StackPushes CEE_LDC_I4_3 = Inr 1"
  "StackPushes CEE_LDC_I4_4 = Inr 1"
  "StackPushes CEE_LDC_I4_5 = Inr 1"
  "StackPushes CEE_LDC_I4_6 = Inr 1"
  "StackPushes CEE_LDC_I4_7 = Inr 1"
  "StackPushes CEE_LDC_I4_8 = Inr 1"
  "StackPushes CEE_LDC_I4_S = Inr 1"
  "StackPushes CEE_LDC_I4 = Inr 1"
  "StackPushes CEE_LDC_I8 = Inr 1"
  "StackPushes CEE_DUP = Inr 2"
  "StackPushes CEE_POP = Inr 0"
  "StackPushes CEE_CALL = Inr 1"
  "StackPushes CEE_RET = Inr 0"
  "StackPushes CEE_BR_S = Inr 0"
  "StackPushes CEE_BRFALSE_S = Inr 0"
  "StackPushes CEE_BRTRUE_S = Inr 0"
  "StackPushes CEE_BLT_UN_S = Inr 0"
  "StackPushes CEE_BR = Inr 0"
  "StackPushes CEE_BLT_UN = Inr 0"
  "StackPushes CEE_SWITCH = Inr 0"
  "StackPushes CEE_LDIND_I1 = Inr 1"
  "StackPushes CEE_LDIND_U1 = Inr 1"
  "StackPushes CEE_LDIND_I2 = Inr 1"
  "StackPushes CEE_LDIND_U2 = Inr 1"
  "StackPushes CEE_LDIND_I4 = Inr 1"
  "StackPushes CEE_LDIND_U4 = Inr 1"
  "StackPushes CEE_LDIND_I8 = Inr 1"
  "StackPushes CEE_LDIND_I = Inr 1"
  "StackPushes CEE_LDIND_R4 = Inr 1"
  "StackPushes CEE_LDIND_R8 = Inr 1"
  "StackPushes CEE_LDIND_REF = Inr 1"
  "StackPushes CEE_STIND_REF = Inr 0"
  "StackPushes CEE_STIND_I1 = Inr 0"
  "StackPushes CEE_STIND_I2 = Inr 0"
  "StackPushes CEE_STIND_I4 = Inr 0"
  "StackPushes CEE_STIND_I8 = Inr 0"
  "StackPushes CEE_STIND_R4 = Inr 0"
  "StackPushes CEE_STIND_R8 = Inr 0"
  "StackPushes CEE_CALLVIRT = Inr 1"
  "StackPushes CEE_LDSTR = Inr 1"
  "StackPushes CEE_NEWOBJ = Inr 1"
  "StackPushes CEE_CASTCLASS = Inr 1"
  "StackPushes CEE_THROW = Inr 0"
  "StackPushes CEE_BOX = Inr 1"
  "StackPushes CEE_NEWARR = Inr 1"
  "StackPushes CEE_STELEM_REF = Inr 0"
  "StackPushes CEE_UNBOX_ANY = Inr 1"
  "StackPushes CEE_LEAVE = Inr 0"
  "StackPushes CEE_LEAVE_S = Inr 0"
  "StackPushes CEE_STIND_I = Inr 0"
  "StackPushes CEE_CGT_UN = Inr 1"
  "StackPushes CEE_LDARG = Inr 1"
  "StackPushes CEE_LDLOC = Inr 1"
  "StackPushes CEE_LDLOCA = Inr 1"
  "StackPushes CEE_STLOC = Inr 0"
  by code_simp+

text \<open>The size and the branch bit of a flag byte.\<close>

lemma OpCodeFlags_Inr_iff:
  "OpCodeFlags op = Inr f \<longleftrightarrow> op < 296 \<and> f = s_OpCodeFlags ! unat op"
  by (auto simp: OpCodeFlags_def word_less_nat_alt)

lemma set_s_OpCodeFlags: "set s_OpCodeFlags = {0, 1, 2, 4, 8, 0x11, 0x14, 0x20}"
  by code_simp

lemma OpCodeFlags_cases:
  assumes "OpCodeFlags op = Inr f"
  obtains "f = 0" | "f = 1" | "f = 2" | "f = 4" | "f = 8" | "f = 0x11" | "f = 0x14" | "f = 0x20"
proof -
  have "f \<in> set s_OpCodeFlags"
    using assms by (auto simp: OpCodeFlags_Inr_iff word_less_nat_alt)
  then show thesis using that by (auto simp: set_s_OpCodeFlags)
qed

lemma OpCodeFlags_SWITCH_ARG [simp]: "OpCodeFlags CEE_SWITCH_ARG = Inr 0x14"
  by code_simp

lemma StackPushes_SWITCH_ARG [simp]: "StackPushes CEE_SWITCH_ARG = Inl OutOfBounds"
  by (simp add: StackPushes_def CEE_SWITCH_ARG_def)

lemma OpCodeFlags_below: "op < CEE_COUNT \<Longrightarrow> completes (OpCodeFlags op)"
  by (simp add: OpCodeFlags_def CEE_COUNT_def word_less_nat_alt)

lemma StackPushes_below: "op < CEE_COUNT \<longleftrightarrow> completes (StackPushes op)"
  by (simp add: StackPushes_def CEE_COUNT_def word_less_nat_alt)

lemma list_all_zip_upt:
  "list_all P (zip [0..<length xs] xs) \<longleftrightarrow> (\<forall>k < length xs. P (k, xs ! k))"
  by (simp add: list_all_length)

lemma opcode_rows:
  "list_all (\<lambda>(k, d). (if k < 0x100 then op_len d = 1 \<and> op_s1 d = 0xFF
      else if k < 0x123 then op_len d = 2 \<and> op_s1 d = 0xFE else True) \<and>
      (k < 0x123 \<longrightarrow> op_s2 d = word_of_nat k))
    (zip [0..<294] opcode_def)"
  by code_simp

lemma short_branch_rows:
  "list_all (\<lambda>(k, f). f = 0x11 \<longrightarrow>
      k = 0xDE \<or> 0x2B \<le> k \<and> k \<le> 0x37 \<and> s_OpCodeFlags ! (k + 13) = 0x14)
    (zip [0..<296] s_OpCodeFlags)"
  by code_simp

text \<open>A short branch is \<open>CEE_LEAVE_S\<close> or lies in the range whose long forms stand 13 further.\<close>

lemma short_branch_cases:
  assumes "OpCodeFlags op = Inr 0x11"
  obtains "op = CEE_LEAVE_S"
  | "CEE_BR_S \<le> op" "op \<le> CEE_BLT_UN_S" "OpCodeFlags (op - CEE_BR_S + CEE_BR) = Inr 0x14"
proof -
  have lt: "unat op < 296" and f: "s_OpCodeFlags ! unat op = 0x11"
    using assms by (auto simp: OpCodeFlags_Inr_iff word_less_nat_alt)
  have "\<forall>k < length s_OpCodeFlags. s_OpCodeFlags ! k = 0x11 \<longrightarrow>
      k = 0xDE \<or> 0x2B \<le> k \<and> k \<le> 0x37 \<and> s_OpCodeFlags ! (k + 13) = 0x14"
    using short_branch_rows
    unfolding length_arrays(1) [symmetric] list_all_zip_upt by simp
  with lt f have "unat op = 0xDE \<or>
      0x2B \<le> unat op \<and> unat op \<le> 0x37 \<and> s_OpCodeFlags ! (unat op + 13) = 0x14"
    by simp
  then show thesis
  proof (elim disjE conjE)
    assume "unat op = 0xDE"
    then have "op = CEE_LEAVE_S" by (simp add: word_unat_eq_iff)
    then show thesis by (rule that(1))
  next
    assume k: "0x2B \<le> unat op" "unat op \<le> 0x37" "s_OpCodeFlags ! (unat op + 13) = 0x14"
    have le: "CEE_BR_S \<le> op" "op \<le> CEE_BLT_UN_S" using k by (simp_all add: word_le_nat_alt)
    have eq: "op - CEE_BR_S + CEE_BR = op + 13" by simp
    have "unat (op + 13) = unat op + 13"
      using k(2) by (subst unat_add_lem [THEN iffD1]) simp_all
    then have "OpCodeFlags (op - CEE_BR_S + CEE_BR) = Inr 0x14"
      using k by (simp only: eq OpCodeFlags_def) simp
    with le show thesis by (rule that(2))
  qed
qed

text \<open>The position of an instruction in the table is its encoding: a one-byte instruction
  stands at the position of its byte, a two-byte one at 0x100 plus its second byte, its first
  byte being the prefix 0xFE. The rewriter decodes and encodes by table position and rests on
  this.\<close>

theorem opcode_position_is_encoding:
  assumes "op < 0x123"
  shows "let d = opcode_def ! op in
     op_len d = (if op < 0x100 then 1 else 2) \<and>
     op_s1 d = (if op < 0x100 then 0xFF else 0xFE) \<and>
     op_s2 d = word_of_nat op"
proof -
  have "op < length opcode_def" using assms by simp
  moreover have "\<forall>k < length opcode_def. (\<lambda>(k, d). (if k < 0x100 then op_len d = 1 \<and> op_s1 d = 0xFF
      else if k < 0x123 then op_len d = 2 \<and> op_s1 d = 0xFE else True) \<and>
      (k < 0x123 \<longrightarrow> op_s2 d = word_of_nat k)) (k, opcode_def ! k)"
    using opcode_rows unfolding length_opcode_def [symmetric] list_all_zip_upt .
  ultimately show ?thesis using assms by (auto simp: Let_def)
qed

theorem opcode_position_is_encoding_witness:
  "op_len (opcode_def ! 0x109) = 2 \<and> op_s1 (opcode_def ! 0x109) = 0xFE \<and>
   op_s2 (opcode_def ! 0x109) = 9"
  using opcode_position_is_encoding [of "0x109"] by (simp add: Let_def)

end
