(* ===== verification/ILMethod.thy ===== *)
theory ILMethod
  imports CorSig
begin

text \<open>
  Method bodies as the runtime stores them (\<^verbatim>\<open>lib/coreclr/src/inc/corhdr.h\<close>,
  \<^verbatim>\<open>corhlpr.h\<close>, \<^verbatim>\<open>corhlpr.cpp\<close>): tiny and fat headers, sections, and the small and fat forms of
  the exception clauses, with the decoder \<open>ILRewriter::Import\<close> starts from.

  Memory is the list of the bytes from the method header on; a pointer into it is an offset and
  a null pointer \<open>None\<close>. The header's own address matters only for alignment and is an argument.
\<close>

unbundle bit_operations_syntax

section \<open>Constants\<close>

definition CorILMethod_Sect_EHTable :: BYTE where "CorILMethod_Sect_EHTable = 1"
definition CorILMethod_Sect_KindMask :: BYTE where "CorILMethod_Sect_KindMask = 0x3F"
definition CorILMethod_Sect_FatFormat :: BYTE where "CorILMethod_Sect_FatFormat = 0x40"
definition CorILMethod_Sect_MoreSects :: BYTE where "CorILMethod_Sect_MoreSects = 0x80"

definition COR_ILEXCEPTION_CLAUSE_NONE :: "32 word" where "COR_ILEXCEPTION_CLAUSE_NONE = 0"
definition COR_ILEXCEPTION_CLAUSE_FILTER :: "32 word" where "COR_ILEXCEPTION_CLAUSE_FILTER = 1"
definition COR_ILEXCEPTION_CLAUSE_FINALLY :: "32 word" where "COR_ILEXCEPTION_CLAUSE_FINALLY = 2"

definition CorILMethod_InitLocals :: "32 word" where "CorILMethod_InitLocals = 0x10"
definition CorILMethod_MoreSects :: "32 word" where "CorILMethod_MoreSects = 0x08"
definition CorILMethod_FormatShift :: nat where "CorILMethod_FormatShift = 3"
definition CorILMethod_FormatMask :: "32 word" where "CorILMethod_FormatMask = 7"
definition CorILMethod_TinyFormat :: "32 word" where "CorILMethod_TinyFormat = 2"
definition CorILMethod_FatFormat :: "32 word" where "CorILMethod_FatFormat = 3"

definition COR_ILMETHOD_SECT_SMALL_MAX_DATASIZE :: "32 word" where
  "COR_ILMETHOD_SECT_SMALL_MAX_DATASIZE = 0xFF"

section \<open>Exception clauses\<close>

text \<open>The union of class token and filter offset is one DWORD.\<close>

record EH_CLAUSE_FAT =
  cf_Flags :: "32 word"
  cf_TryOffset :: DWORD
  cf_TryLength :: DWORD
  cf_HandlerOffset :: DWORD
  cf_HandlerLength :: DWORD
  cf_ClassToken :: DWORD

record EH_CLAUSE_SMALL =
  cs_Flags :: "16 word"
  cs_TryOffset :: "16 word"
  cs_TryLength :: "8 word"
  cs_HandlerOffset :: "16 word"
  cs_HandlerLength :: "8 word"
  cs_ClassToken :: DWORD

definition fat_clause_bytes :: "EH_CLAUSE_FAT \<Rightarrow> BYTE list" where
  "fat_clause_bytes c =
     put_le 4 (cf_Flags c) @ put_le 4 (cf_TryOffset c) @ put_le 4 (cf_TryLength c) @
     put_le 4 (cf_HandlerOffset c) @ put_le 4 (cf_HandlerLength c) @ put_le 4 (cf_ClassToken c)"

definition small_clause_bytes :: "EH_CLAUSE_SMALL \<Rightarrow> BYTE list" where
  "small_clause_bytes c =
     put_le 2 (cs_Flags c) @ put_le 2 (cs_TryOffset c) @ put_le 1 (cs_TryLength c) @
     put_le 2 (cs_HandlerOffset c) @ put_le 1 (cs_HandlerLength c) @ put_le 4 (cs_ClassToken c)"

definition load_fat_clause :: "BYTE list \<Rightarrow> nat \<Rightarrow> EH_CLAUSE_FAT outcome" where
  "load_fat_clause m p =
     bindO (load_le 4 m p) (\<lambda>fl. bindO (load_le 4 m (p + 4)) (\<lambda>tof.
     bindO (load_le 4 m (p + 8)) (\<lambda>tl. bindO (load_le 4 m (p + 12)) (\<lambda>ho.
     bindO (load_le 4 m (p + 16)) (\<lambda>hl. bindO (load_le 4 m (p + 20)) (\<lambda>tok.
       Inr \<lparr>cf_Flags = fl, cf_TryOffset = tof, cf_TryLength = tl, cf_HandlerOffset = ho,
            cf_HandlerLength = hl, cf_ClassToken = tok\<rparr>))))))"

definition load_small_clause :: "BYTE list \<Rightarrow> nat \<Rightarrow> EH_CLAUSE_SMALL outcome" where
  "load_small_clause m p =
     bindO (load_le 2 m p) (\<lambda>fl. bindO (load_le 2 m (p + 2)) (\<lambda>tof.
     bindO (load_le 1 m (p + 4)) (\<lambda>tl. bindO (load_le 2 m (p + 5)) (\<lambda>ho.
     bindO (load_le 1 m (p + 7)) (\<lambda>hl. bindO (load_le 4 m (p + 8)) (\<lambda>tok.
       Inr \<lparr>cs_Flags = fl, cs_TryOffset = tof, cs_TryLength = tl, cs_HandlerOffset = ho,
            cs_HandlerLength = hl, cs_ClassToken = tok\<rparr>))))))"

section \<open>Sections\<close>

text \<open>A section is the offset of its first byte. Sizes: 4 bytes of section header in both forms,
  12 bytes a small clause, 24 a fat one.\<close>

definition EH_FAT_Size :: "32 word \<Rightarrow> 32 word" where
  "EH_FAT_Size ehCount = 28 + 24 * (ehCount - 1)"

definition EH_SMALL_Size :: "32 word \<Rightarrow> 32 word" where
  "EH_SMALL_Size ehCount = 16 + 12 * (ehCount - 1)"

definition sect_IsFat :: "BYTE list \<Rightarrow> nat \<Rightarrow> bool outcome" where
  "sect_IsFat m p = bindO (byte_at m p) (\<lambda>k. Inr (k AND CorILMethod_Sect_FatFormat \<noteq> 0))"

definition sect_More :: "BYTE list \<Rightarrow> nat \<Rightarrow> bool outcome" where
  "sect_More m p = bindO (byte_at m p) (\<lambda>k. Inr (k AND CorILMethod_Sect_MoreSects \<noteq> 0))"

definition sect_Kind :: "BYTE list \<Rightarrow> nat \<Rightarrow> BYTE outcome" where
  "sect_Kind m p = bindO (byte_at m p) (\<lambda>k. Inr (k AND CorILMethod_Sect_KindMask))"

definition sect_fat_GetDataSize :: "BYTE list \<Rightarrow> nat \<Rightarrow> 32 word outcome" where
  "sect_fat_GetDataSize m p =
     bindO (byte_at m (p + 1)) (\<lambda>b1. bindO (byte_at m (p + 2)) (\<lambda>b2. bindO (byte_at m (p + 3)) (\<lambda>b3.
       Inr (ucast b1 OR push_bit 8 (ucast b2) OR push_bit 16 (ucast b3)))))"

definition sect_small_DataSize :: "BYTE list \<Rightarrow> nat \<Rightarrow> 32 word outcome" where
  "sect_small_DataSize m p = bindO (byte_at m (p + 1)) (\<lambda>b. Inr (ucast b))"

definition sect_DataSize :: "BYTE list \<Rightarrow> nat \<Rightarrow> 32 word outcome" where
  "sect_DataSize m p =
     bindO (sect_Kind m p) (\<lambda>kind.
     bindO (sect_IsFat m p) (\<lambda>fat.
       if kind = CorILMethod_Sect_EHTable then
         (if fat then bindO (sect_fat_GetDataSize m p) (\<lambda>n. Inr (EH_FAT_Size (n div 24)))
          else bindO (sect_small_DataSize m p) (\<lambda>n. Inr (EH_SMALL_Size (n div 12))))
       else (if fat then sect_fat_GetDataSize m p else sect_small_DataSize m p)))"

text \<open>\<open>Align\<close> rounds an address up to a multiple of 4; \<open>a\<close> is the address of offset 0.\<close>

definition sect_Align :: "nat \<Rightarrow> nat \<Rightarrow> nat" where
  "sect_Align a p = (a + p + 3) div 4 * 4 - a"

definition sect_Next :: "nat \<Rightarrow> BYTE list \<Rightarrow> nat \<Rightarrow> nat option outcome" where
  "sect_Next a m p =
     bindO (sect_More m p) (\<lambda>more.
       if \<not> more then Inr None
       else bindO (sect_DataSize m p) (\<lambda>n. Inr (Some (sect_Align a (p + unat n)))))"

definition sect_EHCount :: "BYTE list \<Rightarrow> nat \<Rightarrow> 32 word outcome" where
  "sect_EHCount m p =
     bindO (sect_IsFat m p) (\<lambda>fat.
       if fat then bindO (sect_fat_GetDataSize m p) (\<lambda>n. Inr (n div 24))
       else bindO (sect_small_DataSize m p) (\<lambda>n. Inr (n div 12)))"

text \<open>A small clause is widened into the caller's buffer; a fat one is returned in place.\<close>

definition SectEH_EHClause :: "BYTE list \<Rightarrow> nat \<Rightarrow> 32 word \<Rightarrow> EH_CLAUSE_FAT outcome" where
  "SectEH_EHClause m p idx =
     bindO (sect_IsFat m p) (\<lambda>fat.
       if fat then load_fat_clause m (p + 4 + 24 * unat idx)
       else bindO (load_small_clause m (p + 4 + 12 * unat idx)) (\<lambda>c.
         Inr \<lparr>cf_Flags = scast (cs_Flags c) AND 0xffff, cf_TryOffset = ucast (cs_TryOffset c),
              cf_TryLength = ucast (cs_TryLength c), cf_HandlerOffset = ucast (cs_HandlerOffset c),
              cf_HandlerLength = ucast (cs_HandlerLength c), cf_ClassToken = cs_ClassToken c\<rparr>))"

section \<open>Headers\<close>

text \<open>The bit fields of the fat header.\<close>

record IMAGE_COR_ILMETHOD_FAT =
  fh_Flags :: "12 word"
  fh_Size :: "4 word"
  fh_MaxStack :: "16 word"
  fh_CodeSize :: DWORD
  fh_LocalVarSigTok :: mdToken

definition fat_header_bytes :: "IMAGE_COR_ILMETHOD_FAT \<Rightarrow> BYTE list" where
  "fat_header_bytes h =
     [ucast (fh_Flags h), ucast (drop_bit 8 (fh_Flags h)) OR push_bit 4 (ucast (fh_Size h))] @
     put_le 2 (fh_MaxStack h) @ put_le 4 (fh_CodeSize h) @ put_le 4 (fh_LocalVarSigTok h)"

text \<open>The wrappers of \<open>COR_ILMETHOD_FAT\<close> read and write the twelve bytes of the structure.\<close>

definition fat_GetSize :: "BYTE list \<Rightarrow> 32 word" where
  "fat_GetSize p = drop_bit 4 (ucast (p ! 1))"

definition fat_SetSize :: "BYTE list \<Rightarrow> 32 word \<Rightarrow> BYTE list" where
  "fat_SetSize p sz = p[1 := (p ! 1 AND 0x0F) OR ucast (push_bit 4 sz)]"

definition fat_GetFlags :: "BYTE list \<Rightarrow> 32 word" where
  "fat_GetFlags p = ucast (p ! 0) OR push_bit 8 (ucast (p ! 1) AND 0x0F)"

definition fat_SetFlags :: "BYTE list \<Rightarrow> 32 word \<Rightarrow> BYTE list" where
  "fat_SetFlags p flags =
     (p[0 := ucast flags])[1 := (p ! 1 AND 0xF0) OR ucast (drop_bit 8 flags AND 0x0F)]"

definition fat_GetMaxStack :: "BYTE list \<Rightarrow> 32 word" where
  "fat_GetMaxStack p = ucast (get_le (take 2 (drop 2 p)) :: 16 word)"

definition fat_SetMaxStack :: "BYTE list \<Rightarrow> 32 word \<Rightarrow> BYTE list" where
  "fat_SetMaxStack p v = take 2 p @ put_le 2 v @ drop 4 p"

definition fat_GetCodeSize :: "BYTE list \<Rightarrow> 32 word" where
  "fat_GetCodeSize p = get_le (take 4 (drop 4 p))"

definition fat_SetCodeSize :: "BYTE list \<Rightarrow> 32 word \<Rightarrow> BYTE list" where
  "fat_SetCodeSize p v = take 4 p @ put_le 4 v @ drop 8 p"

definition fat_GetLocalVarSigTok :: "BYTE list \<Rightarrow> mdToken" where
  "fat_GetLocalVarSigTok p = get_le (take 4 (drop 8 p))"

definition fat_SetLocalVarSigTok :: "BYTE list \<Rightarrow> mdToken \<Rightarrow> BYTE list" where
  "fat_SetLocalVarSigTok p v = take 8 p @ put_le 4 v"

definition fat_IsFat :: "BYTE list \<Rightarrow> bool" where
  "fat_IsFat p \<longleftrightarrow> ucast (p ! 0) AND CorILMethod_FormatMask = CorILMethod_FatFormat"

definition fat_More :: "BYTE list \<Rightarrow> bool" where
  "fat_More p \<longleftrightarrow> ucast (p ! 0) AND CorILMethod_MoreSects \<noteq> 0"

text \<open>The code follows the header; the first section the code, aligned.\<close>

definition fat_GetCode :: "BYTE list \<Rightarrow> nat" where
  "fat_GetCode p = 4 * unat (fat_GetSize p)"

definition fat_GetSect :: "nat \<Rightarrow> BYTE list \<Rightarrow> nat option" where
  "fat_GetSect a p =
     (if \<not> fat_More p then None
      else Some (sect_Align a (fat_GetCode p + unat (fat_GetCodeSize p))))"

definition tiny_IsTiny :: "BYTE \<Rightarrow> bool" where
  "tiny_IsTiny b \<longleftrightarrow> ucast b AND drop_bit 1 CorILMethod_FormatMask = CorILMethod_TinyFormat"

definition tiny_GetCodeSize :: "BYTE \<Rightarrow> 32 word" where
  "tiny_GetCodeSize b = drop_bit (CorILMethod_FormatShift - 1) (ucast b)"

definition tiny_GetMaxStack :: "BYTE \<Rightarrow> 32 word" where
  "tiny_GetMaxStack b = 8"

section \<open>The decoder\<close>

text \<open>The decoder is a fat header (its twelve bytes) and pointers to the code, the exception
  section and the first other section.\<close>

record COR_ILMETHOD_DECODER =
  dec_fat :: "BYTE list"
  dec_Code :: "nat option"
  dec_EH :: "nat option"
  dec_Sect :: "nat option"

definition decoder_zero :: COR_ILMETHOD_DECODER where
  "decoder_zero = \<lparr>dec_fat = replicate 12 0, dec_Code = None, dec_EH = None, dec_Sect = None\<rparr>"

text \<open>\<open>DecoderInit\<close> as the Linux build has it (\<open>_WIN64\<close> undefined): the header's alignment is only
  asserted.\<close>

definition DecoderInit :: "nat \<Rightarrow> BYTE list \<Rightarrow> COR_ILMETHOD_DECODER outcome" where
  "DecoderInit a m =
     bindO (byte_at m 0) (\<lambda>b.
       if tiny_IsTiny b then
         Inr (decoder_zero\<lparr>dec_Code := Some 1,
           dec_fat := fat_SetFlags (fat_SetCodeSize
             (fat_SetMaxStack (replicate 12 0) (tiny_GetMaxStack b)) (tiny_GetCodeSize b))
             CorILMethod_TinyFormat\<rparr>)
       else if fat_IsFat m then
         (if length m < 12 then Inl OutOfBounds
          else
            let fat = take 12 m;
                d = decoder_zero\<lparr>dec_fat := fat, dec_Code := Some (fat_GetCode fat)\<rparr> in
            if fat_GetSize fat < 3 then Inr d
            else case fat_GetSect a fat of
                None \<Rightarrow> Inr d
              | Some s \<Rightarrow>
                  bindO (sect_Kind m s) (\<lambda>kind.
                    if kind = CorILMethod_Sect_EHTable then
                      bindO (sect_Next a m s) (\<lambda>nxt. Inr (d\<lparr>dec_EH := Some s, dec_Sect := nxt\<rparr>))
                    else Inr (d\<lparr>dec_Sect := Some s\<rparr>)))
       else Inr decoder_zero)"

definition decoder_EHCount :: "BYTE list \<Rightarrow> COR_ILMETHOD_DECODER \<Rightarrow> 32 word outcome" where
  "decoder_EHCount m d = (case dec_EH d of None \<Rightarrow> Inr 0 | Some s \<Rightarrow> sect_EHCount m s)"

definition decoder_GetHeaderSize :: "BYTE list \<Rightarrow> COR_ILMETHOD_DECODER \<Rightarrow> 32 word outcome" where
  "decoder_GetHeaderSize m d =
     bindO (case dec_EH d of None \<Rightarrow> Inr 0 | Some s \<Rightarrow> sect_DataSize m s) (\<lambda>n.
       Inr (fat_GetCodeSize (dec_fat d) + n))"

text \<open>The end of the last section: every section that has a successor moves on by at least its
  size, and a walk of more than \<open>length m\<close> sections cannot stay inside the memory.\<close>

fun last_section_end :: "nat \<Rightarrow> nat \<Rightarrow> BYTE list \<Rightarrow> nat \<Rightarrow> nat outcome" where
  "last_section_end 0 a m s = Inl OutOfFuel"
| "last_section_end (Suc n) a m s =
     bindO (sect_Next a m s) (\<lambda>nxt.
       case nxt of
         None \<Rightarrow> bindO (sect_DataSize m s) (\<lambda>k. Inr (s + unat k))
       | Some s' \<Rightarrow> last_section_end n a m s')"

definition DecoderGetOnDiskSize ::
  "nat \<Rightarrow> BYTE list \<Rightarrow> COR_ILMETHOD_DECODER \<Rightarrow> nat outcome" where
  "DecoderGetOnDiskSize a m d =
     (case dec_Code d of
        None \<Rightarrow> Inr 0
      | Some code \<Rightarrow>
          let endCode = code + unat (fat_GetCodeSize (dec_fat d));
              rest = (case dec_Sect d of None \<Rightarrow> Inr endCode
                      | Some s \<Rightarrow> last_section_end (Suc (length m)) a m s) in
          case dec_EH d of
            None \<Rightarrow> rest
          | Some s \<Rightarrow>
              bindO (sect_Next a m s) (\<lambda>nxt.
                if nxt = None then bindO (sect_DataSize m s) (\<lambda>k. Inr (s + unat k)) else rest))"

section \<open>Emission\<close>

definition IlmethodSize :: "BYTE list \<Rightarrow> bool \<Rightarrow> 32 word" where
  "IlmethodSize header moreSections =
     (if fat_GetMaxStack header \<le> 8 \<and> fat_GetFlags header AND NOT CorILMethod_FormatMask = 0 \<and>
         fat_GetLocalVarSigTok header = 0 \<and> fat_GetCodeSize header < 64 \<and> \<not> moreSections
      then 1 else 12)"

text \<open>(return value, bytes written).\<close>

definition IlmethodEmit :: "32 word \<Rightarrow> BYTE list \<Rightarrow> bool \<Rightarrow> 32 word \<times> BYTE list" where
  "IlmethodEmit sz header moreSections =
     (if sz = 1 then
        (sz, [ucast (CorILMethod_TinyFormat OR push_bit 2 (fat_GetCodeSize header))])
      else
        let fh = fat_SetFlags header (fat_GetFlags header OR CorILMethod_FatFormat);
            fh = (if moreSections then fat_SetFlags fh (fat_GetFlags fh OR CorILMethod_MoreSects)
                  else fh)
        in (sz, fat_SetSize fh 3))"

definition SectEH_SizeWorst :: "32 word \<Rightarrow> 32 word" where
  "SectEH_SizeWorst ehCount = (if ehCount \<noteq> 0 then EH_FAT_Size ehCount else 0)"

definition SectEH_SizeWithCode :: "32 word \<Rightarrow> 32 word \<Rightarrow> 32 word" where
  "SectEH_SizeWithCode ehCount codeSize = (if ehCount \<noteq> 0 then SectEH_SizeWorst ehCount else 0)"

text \<open>The test both \<open>SectEH_SizeExact\<close> and \<open>SectEH_Emit\<close> make on a clause.\<close>

definition clause_too_big :: "EH_CLAUSE_FAT \<Rightarrow> bool" where
  "clause_too_big c \<longleftrightarrow> cf_TryOffset c > 0xFFFF \<or> cf_TryLength c > 0xFF \<or>
     cf_HandlerOffset c > 0xFFFF \<or> cf_HandlerLength c > 0xFF"

definition SectEH_SizeExact :: "EH_CLAUSE_FAT list \<Rightarrow> 32 word" where
  "SectEH_SizeExact clauses =
     (let ehCount = word_of_nat (length clauses) in
      if ehCount = 0 then 0
      else if EH_SMALL_Size ehCount > COR_ILMETHOD_SECT_SMALL_MAX_DATASIZE then EH_FAT_Size ehCount
      else if list_ex clause_too_big clauses then EH_FAT_Size ehCount
      else EH_SMALL_Size ehCount)"

text \<open>The setters of the small clause truncate to their fields.\<close>

definition narrow_clause :: "EH_CLAUSE_FAT \<Rightarrow> EH_CLAUSE_SMALL" where
  "narrow_clause c =
     \<lparr>cs_Flags = ucast (cf_Flags c), cs_TryOffset = ucast (cf_TryOffset c),
      cs_TryLength = ucast (cf_TryLength c), cs_HandlerOffset = ucast (cf_HandlerOffset c),
      cs_HandlerLength = ucast (cf_HandlerLength c), cs_ClassToken = cf_ClassToken c\<rparr>"

text \<open>The loop that writes small clauses until one does not fit: (index reached, buffer).\<close>

fun emit_small_clauses ::
  "nat \<Rightarrow> EH_CLAUSE_FAT list \<Rightarrow> BYTE list \<Rightarrow> (nat \<times> BYTE list) outcome" where
  "emit_small_clauses i [] buf = Inr (i, buf)"
| "emit_small_clauses i (c # cs) buf =
     (if clause_too_big c then Inr (i, buf)
      else bindO (store_bytes buf (4 + 12 * i) (small_clause_bytes (narrow_clause c)))
             (emit_small_clauses (Suc i) cs))"

text \<open>\<open>ehTypeOffsets\<close>, when the caller passes the array: where each typed clause's token went.\<close>

definition type_offsets :: "nat \<Rightarrow> nat \<Rightarrow> 32 word list \<Rightarrow> ULONG list" where
  "type_offsets sz tokenAt flags =
     map (\<lambda>(i, f). if f = COR_ILEXCEPTION_CLAUSE_NONE then word_of_nat (4 + sz * i + tokenAt)
                   else - 1)
       (zip [0..<length flags] flags)"

text \<open>(return value, buffer, \<open>ehTypeOffsets\<close>), over the caller's buffer.\<close>

definition SectEH_Emit ::
  "32 word \<Rightarrow> EH_CLAUSE_FAT list \<Rightarrow> bool \<Rightarrow> BYTE list \<Rightarrow> (32 word \<times> BYTE list \<times> ULONG list) outcome" where
  "SectEH_Emit sz clauses moreSections outBuff =
     (let ehCount = word_of_nat (length clauses) :: 32 word;
          more = (if moreSections then CorILMethod_Sect_MoreSects else 0);
          fat = (\<lambda>buf.
            bindO (store_bytes buf 0
                ([CorILMethod_Sect_EHTable OR CorILMethod_Sect_FatFormat OR more] @
                 put_le 3 (EH_FAT_Size ehCount))) (\<lambda>buf.
            bindO (store_bytes buf 4 (concat (map fat_clause_bytes clauses))) (\<lambda>buf.
              Inr (sz, buf, type_offsets 24 20 (map cf_Flags clauses)))))
      in
      if sz = 0 then Inr (0, outBuff, [])
      else if ehCount = 0 then Inr (0, outBuff, [])
      else if EH_SMALL_Size ehCount < COR_ILMETHOD_SECT_SMALL_MAX_DATASIZE then
        bindO (emit_small_clauses 0 clauses outBuff) (\<lambda>(i, buf).
          if length clauses \<le> i then
            bindO (store_bytes buf 0
                [CorILMethod_Sect_EHTable OR more, ucast (EH_SMALL_Size ehCount), 0, 0]) (\<lambda>buf.
              Inr (sz, buf, type_offsets 12 8 (map (\<lambda>c. scast (ucast (cf_Flags c) :: 16 word)) clauses)))
          else fat buf)
      else fat outBuff)"

section \<open>Sections written and read back\<close>

lemma load_fat_clause_skip:
  "length xs \<le> j \<Longrightarrow> load_fat_clause (xs @ m) j = load_fat_clause m (j - length xs)"
  by (simp add: load_fat_clause_def load_le_skip)

lemma load_fat_clause_bytes:
  "load_fat_clause (fat_clause_bytes c @ m) 0 = Inr c"
  by (simp add: load_fat_clause_def fat_clause_bytes_def)

lemma load_small_clause_skip:
  "length xs \<le> j \<Longrightarrow> load_small_clause (xs @ m) j = load_small_clause m (j - length xs)"
  by (simp add: load_small_clause_def load_le_skip Suc_diff_le)

lemma load_small_clause_bytes:
  "load_small_clause (small_clause_bytes c @ m) 0 = Inr c"
  by (simp add: load_small_clause_def small_clause_bytes_def)

lemma length_fat_clause_bytes [simp]: "length (fat_clause_bytes c) = 24"
  by (simp add: fat_clause_bytes_def)

lemma length_small_clause_bytes [simp]: "length (small_clause_bytes c) = 12"
  by (simp add: small_clause_bytes_def)

lemma load_nth_chunk:
  fixes ld :: "BYTE list \<Rightarrow> nat \<Rightarrow> 'c outcome"
  assumes "\<And>xs m j. length xs \<le> j \<Longrightarrow> ld (xs @ m) j = ld m (j - length xs)"
    and "\<And>c m. ld (enc c @ m) 0 = Inr c" and "\<And>c. length (enc c) = k"
    and "i < length cs"
  shows "ld (concat (map enc cs) @ m) (k * i) = Inr (cs ! i)"
  using assms(4)
proof (induction cs arbitrary: i)
  case (Cons c cs)
  show ?case
  proof (cases i)
    case (Suc j)
    then show ?thesis using Cons assms(1) [of "enc c" "k * i"] by (simp add: assms(3))
  qed (simp add: assms(2))
qed simp

lemma emit_small_clauses_all:
  assumes "\<not> list_ex clause_too_big cs" and "4 + 12 * (i + length cs) \<le> length buf"
  shows "emit_small_clauses i cs buf = Inr (i + length cs,
     take (4 + 12 * i) buf @ concat (map (\<lambda>c. small_clause_bytes (narrow_clause c)) cs) @
       drop (4 + 12 * (i + length cs)) buf)"
  using assms
proof (induction cs arbitrary: i buf)
  case (Cons c cs)
  let ?b = "small_clause_bytes (narrow_clause c)"
  let ?buf = "take (4 + 12 * i) buf @ ?b @ drop (4 + 12 * i + 12) buf"
  have st: "store_bytes buf (4 + 12 * i) ?b = Inr ?buf"
    using Cons.prems by (simp add: store_bytes_def)
  have "emit_small_clauses (Suc i) cs ?buf = Inr (Suc i + length cs,
      take (4 + 12 * Suc i) ?buf @ concat (map (\<lambda>c. small_clause_bytes (narrow_clause c)) cs) @
      drop (4 + 12 * (Suc i + length cs)) ?buf)"
    using Cons.prems by (intro Cons.IH) auto
  moreover have "take (4 + 12 * Suc i) ?buf = take (4 + 12 * i) buf @ ?b"
    using Cons.prems by (simp add: min_def)
  moreover have "drop (4 + 12 * (Suc i + length cs)) ?buf = drop (4 + 12 * (i + length (c # cs))) buf"
    using Cons.prems by (simp add: algebra_simps)
  ultimately show ?case using Cons.prems st by (simp add: algebra_simps)
qed simp

lemma narrow_widen:
  assumes "\<not> clause_too_big c" "cf_Flags c \<le> 0xFFFF"
  shows "(let s = narrow_clause c in
    \<lparr>cf_Flags = scast (cs_Flags s) AND 0xffff, cf_TryOffset = ucast (cs_TryOffset s),
     cf_TryLength = ucast (cs_TryLength s), cf_HandlerOffset = ucast (cs_HandlerOffset s),
     cf_HandlerLength = ucast (cs_HandlerLength s), cf_ClassToken = cs_ClassToken s\<rparr>) = c"
proof -
  have 1: "ucast (ucast x :: 16 word) = x" if "x \<le> 0xFFFF" for x :: "32 word"
    using that unfolding mask_eq_numeral by (simp add: word_le_mask_iff unsigned_ucast_eq)
  have 2: "ucast (ucast x :: 8 word) = x" if "x \<le> 0xFF" for x :: "32 word"
    using that unfolding mask_eq_numeral by (simp add: word_le_mask_iff unsigned_ucast_eq)
  have 3: "scast (ucast x :: 16 word) AND 0xffff = x" if "x \<le> 0xFFFF" for x :: "32 word"
  proof -
    note above = bits_above [OF that [unfolded mask_eq_numeral]]
    show ?thesis
    proof (rule bit_word_eqI)
      fix n show "bit (scast (ucast x :: 16 word) AND (0xffff :: 32 word)) n = bit x n"
        by (cases "n = 15") (auto simp: wbits above min_def not_less intro: ccontr)
    qed
  qed
  show ?thesis using assms by (simp add: Let_def narrow_clause_def clause_too_big_def not_less 1 2 3)
qed


lemma EH_SMALL_Size_eq: "EH_SMALL_Size (word_of_nat n) = word_of_nat (4 + 12 * n)"
  by (simp add: EH_SMALL_Size_def algebra_simps)

lemma EH_FAT_Size_eq: "EH_FAT_Size (word_of_nat n) = word_of_nat (4 + 24 * n)"
  by (simp add: EH_FAT_Size_def algebra_simps)

lemma fat_size_bytes:
  fixes w :: "32 word"
  assumes "w \<le> 0x00FFFFFF"
  shows "ucast (put_le 3 w ! 0) OR push_bit 8 (ucast (put_le 3 w ! 1)) OR
    push_bit 16 (ucast (put_le 3 w ! 2)) = w"
proof -
  note above = bits_above [OF assms [unfolded mask_eq_numeral]]
  show ?thesis
    by (intro bit_word_eqI) (auto simp: nth_put_le wbits above not_less intro: ccontr)
qed

lemma byte_at_put_3:
  "byte_at (k # put_le 3 w @ m) 0 = Inr k"
  "byte_at (k # put_le 3 w @ m) 1 = Inr (put_le 3 w ! 0)"
  "byte_at (k # put_le 3 w @ m) 2 = Inr (put_le 3 w ! 1)"
  "byte_at (k # put_le 3 w @ m) 3 = Inr (put_le 3 w ! 2)"
  by (simp_all add: byte_at_def nth_Cons nth_append split: nat.split)

text \<open>The memory starts with a section that holds the given clauses.\<close>

definition holds_clauses :: "BYTE list \<Rightarrow> bool \<Rightarrow> EH_CLAUSE_FAT list \<Rightarrow> bool" where
  "holds_clauses m mr clauses \<longleftrightarrow>
     sect_Kind m 0 = Inr CorILMethod_Sect_EHTable \<and> sect_More m 0 = Inr mr \<and>
     sect_EHCount m 0 = Inr (word_of_nat (length clauses)) \<and>
     (\<forall>i < length clauses. SectEH_EHClause m 0 (word_of_nat i) = Inr (clauses ! i))"

lemma small_section_holds:
  assumes "\<not> list_ex clause_too_big cs" "\<forall>c \<in> set cs. cf_Flags c \<le> 0xFFFF" "4 + 12 * length cs < 256"
    and m: "m = [CorILMethod_Sect_EHTable OR (if mr then CorILMethod_Sect_MoreSects else 0),
      word_of_nat (4 + 12 * length cs), 0, 0] @
      concat (map (\<lambda>c. small_clause_bytes (narrow_clause c)) cs) @ r"
  shows "holds_clauses m mr cs"
proof -
  let ?k = "CorILMethod_Sect_EHTable OR (if mr then CorILMethod_Sect_MoreSects else 0)"
  have b0: "byte_at m 0 = Inr ?k" and b1: "byte_at m 1 = Inr (word_of_nat (4 + 12 * length cs))"
    by (simp_all add: m byte_at_def)
  have k: "?k AND CorILMethod_Sect_KindMask = CorILMethod_Sect_EHTable"
    "?k AND CorILMethod_Sect_FatFormat = 0" "?k AND CorILMethod_Sect_MoreSects \<noteq> 0 \<longleftrightarrow> mr"
    by (simp_all add: CorILMethod_Sect_EHTable_def CorILMethod_Sect_KindMask_def
        CorILMethod_Sect_FatFormat_def CorILMethod_Sect_MoreSects_def)
  have count: "(ucast (word_of_nat (4 + 12 * length cs) :: BYTE) :: 32 word) div 12 =
      word_of_nat (length cs)"
    using assms(3) div_of_nat_32 [of "4 + 12 * length cs" 12]
    by (simp only: byte_of_nat_32) simp
  have clauses: "SectEH_EHClause m 0 (word_of_nat i) = Inr (cs ! i)" if i: "i < length cs" for i
  proof -
    have "load_small_clause m (4 + 12 * i) =
        load_small_clause (concat (map (\<lambda>c. small_clause_bytes (narrow_clause c)) cs) @ r) (12 * i)"
      unfolding m by (subst load_small_clause_skip) simp_all
    also have "\<dots> = Inr (narrow_clause (cs ! i))"
      using load_nth_chunk [of load_small_clause small_clause_bytes 12 i "map narrow_clause cs" r] i
      by (simp add: load_small_clause_skip load_small_clause_bytes comp_def)
    finally have "load_small_clause m (4 + 12 * i) = Inr (narrow_clause (cs ! i))" .
    moreover have "\<not> clause_too_big (cs ! i)" "cf_Flags (cs ! i) \<le> 0xFFFF"
      using assms(1,2) i by (auto simp: list_ex_length)
    ultimately show ?thesis
      using i assms(3) narrow_widen [of "cs ! i"]
      by (simp add: SectEH_EHClause_def sect_IsFat_def b0 k unat_of_nat_32 Let_def)
  qed
  moreover have "sect_small_DataSize m 0 = Inr (ucast (word_of_nat (4 + 12 * length cs) :: BYTE))"
    by (simp only: sect_small_DataSize_def add_0 b1 bindO_simps)
  moreover have "sect_IsFat m 0 = Inr False" by (simp add: sect_IsFat_def b0 k)
  ultimately have "sect_EHCount m 0 = Inr (word_of_nat (length cs))"
    by (simp only: sect_EHCount_def bindO_simps if_False count)
  with clauses show ?thesis
    by (simp add: holds_clauses_def sect_Kind_def sect_More_def b0 k)
qed


lemma fat_section_holds:
  assumes n: "4 + 24 * length cs < 2 ^ 24"
    and m: "m = [CorILMethod_Sect_EHTable OR CorILMethod_Sect_FatFormat OR
        (if mr then CorILMethod_Sect_MoreSects else 0)] @
      put_le 3 (word_of_nat (4 + 24 * length cs) :: 32 word) @ concat (map fat_clause_bytes cs) @ r"
  shows "holds_clauses m mr cs"
proof -
  let ?k = "CorILMethod_Sect_EHTable OR CorILMethod_Sect_FatFormat OR
    (if mr then CorILMethod_Sect_MoreSects else 0)"
  let ?w = "word_of_nat (4 + 24 * length cs) :: 32 word"
  have b: "byte_at m 0 = Inr ?k" "byte_at m 1 = Inr (put_le 3 ?w ! 0)"
    "byte_at m 2 = Inr (put_le 3 ?w ! 1)" "byte_at m 3 = Inr (put_le 3 ?w ! 2)"
    unfolding m by (simp_all only: append_Cons append_Nil byte_at_put_3)
  have k: "?k AND CorILMethod_Sect_KindMask = CorILMethod_Sect_EHTable"
    "?k AND CorILMethod_Sect_FatFormat \<noteq> 0" "?k AND CorILMethod_Sect_MoreSects \<noteq> 0 \<longleftrightarrow> mr"
    by (simp_all add: CorILMethod_Sect_EHTable_def CorILMethod_Sect_KindMask_def
        CorILMethod_Sect_FatFormat_def CorILMethod_Sect_MoreSects_def)
  have "unat ?w = 4 + 24 * length cs" using n by (intro unat_of_nat_32) simp
  then have "unat ?w \<le> unat (0x00FFFFFF :: 32 word)" using n by (simp only:) simp
  then have le: "?w \<le> 0x00FFFFFF" by (simp only: word_le_nat_alt)
  have "sect_fat_GetDataSize m 0 = Inr ?w"
    using fat_size_bytes [OF le] by (simp only: sect_fat_GetDataSize_def add_0 b bindO_simps)
  moreover have fat: "sect_IsFat m 0 = Inr True" using k(2) by (simp add: sect_IsFat_def b)
  moreover have "?w div 24 = word_of_nat (length cs)"
    using n div_of_nat_32 [of "4 + 24 * length cs" 24] by simp
  ultimately have "sect_EHCount m 0 = Inr (word_of_nat (length cs))"
    by (simp only: sect_EHCount_def bindO_simps if_True)
  moreover have "SectEH_EHClause m 0 (word_of_nat i) = Inr (cs ! i)" if i: "i < length cs" for i
  proof -
    have "load_fat_clause m (4 + 24 * i) =
        load_fat_clause (concat (map fat_clause_bytes cs) @ r) (24 * i)"
      using load_fat_clause_skip [of "[?k] @ put_le 3 ?w" "4 + 24 * i"] by (simp add: m)
    also have "\<dots> = Inr (cs ! i)"
      using load_nth_chunk [of load_fat_clause fat_clause_bytes 24 i cs r] i
      by (simp add: load_fat_clause_skip load_fat_clause_bytes)
    finally show ?thesis using i n by (simp add: SectEH_EHClause_def fat unat_of_nat_32)
  qed
  ultimately show ?thesis using k(1,3) by (simp add: holds_clauses_def sect_Kind_def sect_More_def b)
qed

lemma SectEH_SizeExact_cases:
  assumes "cs \<noteq> []" "4 + 24 * length cs < 2 ^ 24"
  shows "SectEH_SizeExact cs = (if 4 + 12 * length cs < 256 \<and> \<not> list_ex clause_too_big cs
    then word_of_nat (4 + 12 * length cs) else word_of_nat (4 + 24 * length cs))"
proof -
  have "(word_of_nat (length cs) :: 32 word) \<noteq> 0"
  proof
    assume "(word_of_nat (length cs) :: 32 word) = 0"
    then have "unat (word_of_nat (length cs) :: 32 word) = 0" by simp
    then show False using assms unat_of_nat_32 [of "length cs"] by simp
  qed
  moreover have "EH_SMALL_Size (word_of_nat (length cs)) > COR_ILMETHOD_SECT_SMALL_MAX_DATASIZE \<longleftrightarrow>
      \<not> 4 + 12 * length cs < 256"
    unfolding EH_SMALL_Size_eq COR_ILMETHOD_SECT_SMALL_MAX_DATASIZE_def word_less_nat_alt
    using assms(2) by (subst unat_of_nat_32) auto
  ultimately show ?thesis
    by (simp only: SectEH_SizeExact_def Let_def EH_SMALL_Size_eq EH_FAT_Size_eq) auto
qed

lemma emit_small_clauses_stops:
  assumes "list_ex clause_too_big cs" "4 + 12 * (i + length cs) \<le> length buf"
  shows "\<exists>j buf'. emit_small_clauses i cs buf = Inr (j, buf') \<and> j < i + length cs \<and>
     length buf' = length buf \<and> drop (4 + 12 * (i + length cs)) buf' = drop (4 + 12 * (i + length cs)) buf"
  using assms
proof (induction cs arbitrary: i buf)
  case (Cons c cs)
  show ?case
  proof (cases "clause_too_big c")
    case False
    let ?b = "small_clause_bytes (narrow_clause c)"
    let ?buf = "take (4 + 12 * i) buf @ ?b @ drop (4 + 12 * i + 12) buf"
    have st: "store_bytes buf (4 + 12 * i) ?b = Inr ?buf"
      using Cons.prems by (simp add: store_bytes_def)
    have len: "length ?buf = length buf" using Cons.prems by simp
    have "\<exists>j buf'. emit_small_clauses (Suc i) cs ?buf = Inr (j, buf') \<and> j < Suc i + length cs \<and>
      length buf' = length ?buf \<and>
      drop (4 + 12 * (Suc i + length cs)) buf' = drop (4 + 12 * (Suc i + length cs)) ?buf"
      using Cons.prems False len by (intro Cons.IH) (auto simp: algebra_simps)
    then obtain j buf' where r: "emit_small_clauses (Suc i) cs ?buf = Inr (j, buf')"
      "j < Suc i + length cs" "length buf' = length ?buf"
      "drop (4 + 12 * (Suc i + length cs)) buf' = drop (4 + 12 * (Suc i + length cs)) ?buf"
      by blast
    have "drop (4 + 12 * (Suc i + length cs)) ?buf = drop (4 + 12 * (Suc i + length cs)) buf"
      using Cons.prems by (simp add: algebra_simps)
    moreover have "emit_small_clauses i (c # cs) buf = Inr (j, buf')" using r(1) st False by simp
    ultimately show ?thesis using r(2-4) len by auto
  qed simp
qed simp


lemma SectEH_Emit_small:
  assumes cs: "cs \<noteq> []" "4 + 12 * length cs < 256" "\<not> list_ex clause_too_big cs"
    "4 + 12 * length cs \<le> length buf"
  shows "\<exists>offs. SectEH_Emit (word_of_nat (4 + 12 * length cs)) cs mr buf = Inr (word_of_nat (4 + 12 * length cs),
     [CorILMethod_Sect_EHTable OR (if mr then CorILMethod_Sect_MoreSects else 0),
      word_of_nat (4 + 12 * length cs), 0, 0] @
      concat (map (\<lambda>c. small_clause_bytes (narrow_clause c)) cs) @ drop (4 + 12 * length cs) buf, offs)"
proof -
  let ?n = "word_of_nat (length cs) :: 32 word" and ?w = "word_of_nat (4 + 12 * length cs) :: 32 word"
  have u: "unat ?n = length cs" "unat ?w = 4 + 12 * length cs"
    by (rule unat_of_nat_32, use cs(2) in simp)+
  have nz: "?n \<noteq> 0" "?w \<noteq> 0"
    using unat_neq_0 [OF u(1)] unat_neq_0 [OF u(2)] cs(1) by simp_all
  have small: "?w < COR_ILMETHOD_SECT_SMALL_MAX_DATASIZE"
    unfolding word_less_nat_alt u(2) COR_ILMETHOD_SECT_SMALL_MAX_DATASIZE_def using cs(2) by simp
  have emit: "emit_small_clauses 0 cs buf = Inr (length cs, take 4 buf @
      concat (map (\<lambda>c. small_clause_bytes (narrow_clause c)) cs) @ drop (4 + 12 * length cs) buf)"
    using emit_small_clauses_all [of cs 0 buf] cs by simp
  have "(ucast ?w :: BYTE) = word_of_nat (4 + 12 * length cs)" 
    using cs(2) by (simp add: unsigned_of_nat take_bit_nat_eq_self del: of_nat_add of_nat_mult)
  then show ?thesis
    using cs(4) nz small unfolding SectEH_Emit_def Let_def EH_SMALL_Size_eq
    by (simp only: if_False if_True bindO_simps emit prod.case le_refl store_bytes_def) simp
qed


lemma store_header_body:
  assumes "length hdr = 4" "4 + length body \<le> length b"
  shows "bindO (store_bytes b 0 hdr) (\<lambda>b. bindO (store_bytes b 4 body) (\<lambda>b. Inr (f b))) =
    Inr (f (hdr @ body @ drop (4 + length body) b))"
  using assms by (simp add: store_bytes_def add.commute)

lemma SectEH_Emit_fat:
  assumes cs: "cs \<noteq> []" "4 + 24 * length cs < 2 ^ 24"
    "\<not> (4 + 12 * length cs < 256 \<and> \<not> list_ex clause_too_big cs)" "4 + 24 * length cs \<le> length buf"
  shows "\<exists>offs. SectEH_Emit (word_of_nat (4 + 24 * length cs)) cs mr buf = Inr (word_of_nat (4 + 24 * length cs),
     [CorILMethod_Sect_EHTable OR CorILMethod_Sect_FatFormat OR
        (if mr then CorILMethod_Sect_MoreSects else 0)] @
      put_le 3 (word_of_nat (4 + 24 * length cs) :: 32 word) @
      concat (map fat_clause_bytes cs) @ drop (4 + 24 * length cs) buf, offs)"
proof -
  let ?n = "word_of_nat (length cs) :: 32 word" and ?w = "word_of_nat (4 + 24 * length cs) :: 32 word"
  let ?s = "word_of_nat (4 + 12 * length cs) :: 32 word"
  have u: "unat ?n = length cs" "unat ?w = 4 + 24 * length cs" "unat ?s = 4 + 12 * length cs"
    by (rule unat_of_nat_32, use cs(2) in simp)+
  have nz: "?n \<noteq> 0" "?w \<noteq> 0"
    using unat_neq_0 [OF u(1)] unat_neq_0 [OF u(2)] cs(1) by simp_all
  let ?k = "CorILMethod_Sect_EHTable OR CorILMethod_Sect_FatFormat OR
        (if mr then CorILMethod_Sect_MoreSects else 0)"
  have fat: "bindO (store_bytes b 0 ([?k] @ put_le 3 ?w)) (\<lambda>b.
      bindO (store_bytes b 4 (concat (map fat_clause_bytes cs))) (\<lambda>b. Inr (f b))) =
      Inr (f ([?k] @ put_le 3 ?w @ concat (map fat_clause_bytes cs) @ drop (4 + 24 * length cs) buf))"
    if "length b = length buf" "drop (4 + 24 * length cs) b = drop (4 + 24 * length cs) buf"
    for b and f :: "BYTE list \<Rightarrow> 'x"
    using cs(4) that length_concat_const [of fat_clause_bytes 24 cs]
      store_header_body [of "[?k] @ put_le 3 ?w" "concat (map fat_clause_bytes cs)" b f]
    by (simp del: of_nat_add of_nat_mult)
  show ?thesis
  proof (cases "?s < COR_ILMETHOD_SECT_SMALL_MAX_DATASIZE")
    case True
    then have "4 + 12 * length cs < 256"
      unfolding word_less_nat_alt u(3) COR_ILMETHOD_SECT_SMALL_MAX_DATASIZE_def by simp
    then have big: "list_ex clause_too_big cs" using cs(3) by blast
    obtain j b where e: "emit_small_clauses 0 cs buf = Inr (j, b)" "j < length cs"
      "length b = length buf" "drop (4 + 12 * length cs) b = drop (4 + 12 * length cs) buf"
      using emit_small_clauses_stops [OF big, of 0 buf] cs(4) by auto
    have "drop (4 + 24 * length cs) b = drop (12 * length cs) (drop (4 + 12 * length cs) b)"
      by (simp add: add.commute)
    also have "\<dots> = drop (4 + 24 * length cs) buf" unfolding e(4) by (simp add: add.commute)
    finally have d: "drop (4 + 24 * length cs) b = drop (4 + 24 * length cs) buf" .
    have "\<not> length cs \<le> j" using e(2) by simp
    then show ?thesis
      using nz True unfolding SectEH_Emit_def Let_def EH_SMALL_Size_eq EH_FAT_Size_eq
      by (simp only: if_False if_True bindO_simps e(1) prod.case fat [OF e(3) d]) simp
  next
    case False
    then show ?thesis
      using nz unfolding SectEH_Emit_def Let_def EH_SMALL_Size_eq EH_FAT_Size_eq
      by (simp only: if_False if_True bindO_simps fat [OF refl refl]) simp
  qed
qed

text \<open>C20: \<open>SectEH_Emit\<close>, given the size \<open>SectEH_SizeExact\<close> announces, completes within that size and
  leaves a section from which \<open>EHCount\<close> and \<open>EHClause\<close> read back every clause, in the small form or
  the fat one; the rest of the caller's buffer is untouched.\<close>

theorem SectEH_Emit_roundtrip:
  assumes "cs \<noteq> []" and "4 + 24 * length cs < 2 ^ 24" and "\<forall>c \<in> set cs. cf_Flags c \<le> 0xFFFF"
    and "unat (SectEH_SizeExact cs) \<le> length buf"
  shows "\<exists>buf' offs. SectEH_Emit (SectEH_SizeExact cs) cs mr buf = Inr (SectEH_SizeExact cs, buf', offs) \<and>
     holds_clauses buf' mr cs \<and>
     length buf' = length buf \<and>
     drop (unat (SectEH_SizeExact cs)) buf' = drop (unat (SectEH_SizeExact cs)) buf"
proof (cases "4 + 12 * length cs < 256 \<and> \<not> list_ex clause_too_big cs")
  case True
  have sz: "SectEH_SizeExact cs = word_of_nat (4 + 12 * length cs)"
    using SectEH_SizeExact_cases [OF assms(1,2)] True by (simp only: if_True simp_thms)
  have u: "unat (word_of_nat (4 + 12 * length cs) :: 32 word) = 4 + 12 * length cs"
    by (rule unat_of_nat_32) (use True in simp)
  have le: "4 + 12 * length cs \<le> length buf" using assms(4) by (simp only: sz u)
  obtain offs where e: "SectEH_Emit (word_of_nat (4 + 12 * length cs)) cs mr buf =
      Inr (word_of_nat (4 + 12 * length cs),
     [CorILMethod_Sect_EHTable OR (if mr then CorILMethod_Sect_MoreSects else 0),
      word_of_nat (4 + 12 * length cs), 0, 0] @
      concat (map (\<lambda>c. small_clause_bytes (narrow_clause c)) cs) @ drop (4 + 12 * length cs) buf, offs)"
    (is "_ = Inr (_, ?m, _)")
    using SectEH_Emit_small [OF assms(1), of buf mr] True le by blast
  have "length (concat (map (\<lambda>c. small_clause_bytes (narrow_clause c)) cs)) = 12 * length cs"
    by (rule length_concat_const) simp
  then have "length ?m = length buf" "drop (4 + 12 * length cs) ?m = drop (4 + 12 * length cs) buf"
    using le by (simp_all add: drop_4)
  moreover have "holds_clauses ?m mr cs"
    using True by (intro small_section_holds [OF _ assms(3) _ refl]) simp_all
  ultimately show ?thesis unfolding sz u e by blast
next
  case False
  have sz: "SectEH_SizeExact cs = word_of_nat (4 + 24 * length cs)"
    using SectEH_SizeExact_cases [OF assms(1,2)] False by (simp only: if_False)
  have u: "unat (word_of_nat (4 + 24 * length cs) :: 32 word) = 4 + 24 * length cs"
    by (rule unat_of_nat_32) (use assms(2) in simp)
  have le: "4 + 24 * length cs \<le> length buf" using assms(4) by (simp only: sz u)
  obtain offs where e: "SectEH_Emit (word_of_nat (4 + 24 * length cs)) cs mr buf =
     Inr (word_of_nat (4 + 24 * length cs),
     [CorILMethod_Sect_EHTable OR CorILMethod_Sect_FatFormat OR
        (if mr then CorILMethod_Sect_MoreSects else 0)] @
      put_le 3 (word_of_nat (4 + 24 * length cs) :: 32 word) @
      concat (map fat_clause_bytes cs) @ drop (4 + 24 * length cs) buf, offs)"
    (is "_ = Inr (_, ?m, _)")
    using SectEH_Emit_fat [OF assms(1,2) False le, of mr] by blast
  have "length (concat (map fat_clause_bytes cs)) = 24 * length cs"
    by (rule length_concat_const) simp
  then have "length ?m = length buf" "drop (4 + 24 * length cs) ?m = drop (4 + 24 * length cs) buf"
    using le by (simp_all add: drop_4_append)
  moreover have "holds_clauses ?m mr cs" by (rule fat_section_holds [OF assms(2) refl])
  ultimately show ?thesis unfolding sz u e by blast
qed

definition example_clause :: EH_CLAUSE_FAT where
  "example_clause = \<lparr>cf_Flags = 2, cf_TryOffset = 1, cf_TryLength = 5, cf_HandlerOffset = 6,
     cf_HandlerLength = 2, cf_ClassToken = 0\<rparr>"

theorem SectEH_Emit_roundtrip_witness:
  "\<exists>buf' offs. SectEH_Emit 16 [example_clause] False (replicate 20 7) = Inr (16, buf', offs) \<and>
     holds_clauses buf' False [example_clause] \<and> length buf' = 20 \<and> drop 16 buf' = [7, 7, 7, 7]"
proof -
  have sz: "SectEH_SizeExact [example_clause] = 16" by code_simp
  have "\<forall>c \<in> set [example_clause]. cf_Flags c \<le> 0xFFFF" by (simp add: example_clause_def)
  moreover have "drop 16 (replicate 20 (7 :: BYTE)) = [7, 7, 7, 7]" by code_simp
  ultimately show ?thesis
    using SectEH_Emit_roundtrip [of "[example_clause]" "replicate 20 7" False] by (simp add: sz)
qed

section \<open>Headers decoded\<close>

lemma length_fat_header_bytes [simp]: "length (fat_header_bytes h) = 12"
  by (simp add: fat_header_bytes_def)

lemma fat_header_nth:
  "fat_header_bytes h ! 0 = ucast (fh_Flags h)"
  "fat_header_bytes h ! 1 = ucast (drop_bit 8 (fh_Flags h)) OR push_bit 4 (ucast (fh_Size h))"
  by (simp_all add: fat_header_bytes_def)

lemma fat_header_getters [simp]:
  "fat_GetFlags (fat_header_bytes h) = ucast (fh_Flags h)"
  "fat_GetSize (fat_header_bytes h) = ucast (fh_Size h)"
  "fat_GetMaxStack (fat_header_bytes h) = ucast (fh_MaxStack h)"
  "fat_GetCodeSize (fat_header_bytes h) = fh_CodeSize h"
  "fat_GetLocalVarSigTok (fat_header_bytes h) = fh_LocalVarSigTok h"
proof -
  show "fat_GetFlags (fat_header_bytes h) = ucast (fh_Flags h)"
    unfolding fat_GetFlags_def fat_header_nth
    by (intro bit_word_eqI) (auto simp: wbits not_less dest: bit_imp_less)
  show "fat_GetSize (fat_header_bytes h) = ucast (fh_Size h)"
    unfolding fat_GetSize_def fat_header_nth
    by (intro bit_word_eqI) (auto simp: wbits not_less dest: bit_imp_less)
qed (simp_all add: fat_GetMaxStack_def fat_GetCodeSize_def fat_GetLocalVarSigTok_def
    fat_header_bytes_def numeral_eq_Suc)

lemma ucast_12_32_eq: "(ucast (x :: 12 word) :: 32 word) = ucast y \<longleftrightarrow> x = y"
proof
  assume eq: "(ucast x :: 32 word) = ucast y"
  show "x = y"
  proof (rule bit_word_eqI)
    fix n assume n: "n < LENGTH(12)"
    from eq have "bit (ucast x :: 32 word) n = bit (ucast y :: 32 word) n" by simp
    then show "bit x n = bit y n" using n by (simp add: bit_simps)
  qed
qed simp

lemma low_flags:
  fixes f :: "12 word"
  shows "(ucast (ucast f :: 8 word) :: 32 word) AND 7 = ucast (f AND 7)"
    "(ucast (ucast f :: 8 word) :: 32 word) AND 8 = ucast (f AND 8)"
    "(ucast (ucast f :: 8 word) :: 32 word) AND 3 = ucast (f AND 3)"
proof -
  show "(ucast (ucast f :: 8 word) :: 32 word) AND 7 = ucast (f AND 7)"
    "(ucast (ucast f :: 8 word) :: 32 word) AND 3 = ucast (f AND 3)"
    by (intro bit_word_eqI; auto simp: wbits dest: bit_imp_less)+
  show "(ucast (ucast f :: 8 word) :: 32 word) AND 8 = ucast (f AND 8)"
    by (intro bit_word_eqI) (auto simp: bit_and_iff bit_unsigned_iff bit_int_8)
qed

lemma ucast_12_32_numerals:
  "(ucast (x :: 12 word) :: 32 word) = 3 \<longleftrightarrow> x = 3"
  "(ucast (x :: 12 word) :: 32 word) = 2 \<longleftrightarrow> x = 2"
  "(ucast (x :: 12 word) :: 32 word) = 0 \<longleftrightarrow> x = 0"
  using ucast_12_32_eq [of x 3] ucast_12_32_eq [of x 2] ucast_12_32_eq [of x 0] by simp_all

lemma fat_header_flags:
  "fat_IsFat (fat_header_bytes h @ r) \<longleftrightarrow> fh_Flags h AND 7 = 3"
  "fat_More (fat_header_bytes h) \<longleftrightarrow> fh_Flags h AND 8 \<noteq> 0"
  unfolding fat_IsFat_def fat_More_def CorILMethod_FormatMask_def CorILMethod_FatFormat_def
    CorILMethod_MoreSects_def
  by (simp_all add: nth_append fat_header_nth low_flags ucast_12_32_numerals)

lemma tiny_not_fat:
  assumes "fh_Flags h AND 7 = 3"
  shows "\<not> tiny_IsTiny (fat_header_bytes h ! 0)"
proof -
  have "fh_Flags h AND 3 = (fh_Flags h AND 7) AND 3" by (simp add: and.assoc)
  then have "fh_Flags h AND 3 = 3" using assms by simp
  then show ?thesis
    by (simp add: tiny_IsTiny_def fat_header_nth CorILMethod_FormatMask_def
        CorILMethod_TinyFormat_def low_flags ucast_12_32_numerals)
qed

lemma DecoderInit_fat_header:
  assumes "fh_Flags h AND 7 = 3" "fh_Size h = 3"
  shows "DecoderInit a (fat_header_bytes h @ r) =
    (let d = decoder_zero\<lparr>dec_fat := fat_header_bytes h, dec_Code := Some 12\<rparr> in
     if fh_Flags h AND 8 = 0 then Inr d
     else let s = sect_Align a (12 + unat (fh_CodeSize h)); m = fat_header_bytes h @ r in
       bindO (sect_Kind m s) (\<lambda>kind.
         if kind = CorILMethod_Sect_EHTable then
           bindO (sect_Next a m s) (\<lambda>nxt. Inr (d\<lparr>dec_EH := Some s, dec_Sect := nxt\<rparr>))
         else Inr (d\<lparr>dec_Sect := Some s\<rparr>)))"
  using assms tiny_not_fat [OF assms(1)]
  by (simp add: DecoderInit_def byte_at_def nth_append fat_header_flags fat_GetCode_def
      fat_GetSect_def Let_def cong del: if_weak_cong)

lemma byte_at_shift: "byte_at (xs @ m) (length xs + k) = byte_at m k"
  by (simp add: byte_at_def nth_append)

lemma sect_shift:
  "sect_IsFat (xs @ m) (length xs) = sect_IsFat m 0"
  "sect_More (xs @ m) (length xs) = sect_More m 0"
  "sect_Kind (xs @ m) (length xs) = sect_Kind m 0"
  "sect_fat_GetDataSize (xs @ m) (length xs) = sect_fat_GetDataSize m 0"
  "sect_small_DataSize (xs @ m) (length xs) = sect_small_DataSize m 0"
  using byte_at_shift [of xs m 0] byte_at_shift [of xs m 1] byte_at_shift [of xs m 2]
    byte_at_shift [of xs m 3]
  by (simp_all add: sect_IsFat_def sect_More_def sect_Kind_def sect_fat_GetDataSize_def
      sect_small_DataSize_def numeral_2_eq_2)

lemma SectEH_EHClause_shift:
  "SectEH_EHClause (xs @ m) (length xs) i = SectEH_EHClause m 0 i"
  unfolding SectEH_EHClause_def sect_shift
  by (simp add: load_fat_clause_skip load_small_clause_skip cong del: if_weak_cong)

lemma sect_EHCount_shift: "sect_EHCount (xs @ m) (length xs) = sect_EHCount m 0"
  unfolding sect_EHCount_def sect_shift ..

lemma fat_sections_decode:
  assumes "fh_Flags h AND 7 = 3" "fh_Size h = 3" "fh_Flags h AND 8 \<noteq> 0" "a mod 4 = 0"
    and "length code = unat (fh_CodeSize h)"
    and "length pad < 4" "(length code + length pad) mod 4 = 0"
    and "holds_clauses sect False cs"
  shows "let m = fat_header_bytes h @ code @ pad @ sect in
     \<exists>d s. DecoderInit a m = Inr d \<and> dec_fat d = fat_header_bytes h \<and> dec_Code d = Some 12 \<and>
       take (unat (fat_GetCodeSize (dec_fat d))) (drop 12 m) = code \<and>
       dec_EH d = Some s \<and> dec_Sect d = None \<and>
       decoder_EHCount m d = Inr (word_of_nat (length cs)) \<and>
       (\<forall>i < length cs. SectEH_EHClause m s (word_of_nat i) = Inr (cs ! i))"
proof -
  let ?xs = "fat_header_bytes h @ code @ pad"
  let ?m = "fat_header_bytes h @ code @ pad @ sect"
  have m: "?m = ?xs @ sect" by simp
  obtain k where k: "length code + length pad = 4 * k" using assms(7) by auto
  obtain l where l: "a = 4 * l" using assms(4) by auto
  have "(a + (12 + length code) + 3) div 4 = l + 3 + k" using k assms(6) by (simp add: l)
  then have s: "sect_Align a (12 + unat (fh_CodeSize h)) = length ?xs"
    using k assms(5) by (simp add: sect_Align_def l)
  note hc = assms(8) [unfolded holds_clauses_def]
  have "sect_Next a ?m (length ?xs) = Inr None"
    unfolding m by (simp only: sect_Next_def sect_shift hc bindO_simps if_True not_False_eq_True)
  moreover have "sect_Kind ?m (length ?xs) = Inr CorILMethod_Sect_EHTable"
    unfolding m by (simp only: sect_shift hc)
  ultimately have d: "DecoderInit a ?m = Inr (decoder_zero\<lparr>dec_fat := fat_header_bytes h,
      dec_Code := Some 12, dec_EH := Some (length ?xs), dec_Sect := None\<rparr>)" (is "_ = Inr ?d")
    using DecoderInit_fat_header [OF assms(1,2), of a "code @ pad @ sect"] assms(3)
    by (simp add: s Let_def)
  have "sect_EHCount ?m (length ?xs) = Inr (word_of_nat (length cs))"
    unfolding m sect_EHCount_shift using hc by blast
  moreover have "\<forall>i < length cs. SectEH_EHClause ?m (length ?xs) (word_of_nat i) = Inr (cs ! i)"
    unfolding m SectEH_EHClause_shift using hc by blast
  ultimately show ?thesis
    unfolding Let_def d using assms(5)
    by (intro exI [of _ ?d], intro exI [of _ "length ?xs"]) (simp add: decoder_EHCount_def)
qed

text \<open>Decoding a fat header with an exception section: whatever the header, the code and the
  clauses are, the decoder finds the code right after the header and the section after the padded
  code, and reads every clause back. This is the layout \<open>ILRewriter::Export\<close> writes.\<close>

theorem DecoderInit_fat_sections:
  assumes "fh_Flags h AND 7 = 3" "fh_Size h = 3" "fh_Flags h AND 8 \<noteq> 0" "a mod 4 = 0"
    and "length code = unat (fh_CodeSize h)"
    and "length pad < 4" "(length code + length pad) mod 4 = 0"
    and "holds_clauses sect False cs"
  shows "let m = fat_header_bytes h @ code @ pad @ sect in
     \<exists>d s. DecoderInit a m = Inr d \<and> dec_fat d = fat_header_bytes h \<and> dec_Code d = Some 12 \<and>
       take (unat (fat_GetCodeSize (dec_fat d))) (drop 12 m) = code \<and>
       dec_EH d = Some s \<and> dec_Sect d = None \<and>
       decoder_EHCount m d = Inr (word_of_nat (length cs)) \<and>
       (\<forall>i < length cs. SectEH_EHClause m s (word_of_nat i) = Inr (cs ! i))"
  using assms by (rule fat_sections_decode)

definition example_header :: IMAGE_COR_ILMETHOD_FAT where
  "example_header = \<lparr>fh_Flags = 0x1B, fh_Size = 3, fh_MaxStack = 8, fh_CodeSize = 6,
     fh_LocalVarSigTok = 0x11000001\<rparr>"

theorem DecoderInit_fat_sections_witness:
  "let m = fat_header_bytes example_header @ [0, 0xDE, 1, 0, 0xDC, 0x2A] @ [0, 0] @
       [1, 16, 0, 0] @ small_clause_bytes (narrow_clause example_clause) in
     \<exists>d s. DecoderInit 0x1000 m = Inr d \<and> dec_EH d = Some s \<and>
       SectEH_EHClause m s 0 = Inr example_clause"
proof -
  have holds: "holds_clauses ([1, 16, 0, 0] @ small_clause_bytes (narrow_clause example_clause))
      False [example_clause]"
    by code_simp
  have "fh_Flags example_header AND 7 = 3" "fh_Flags example_header AND 8 \<noteq> 0" by code_simp+
  then show ?thesis
    using DecoderInit_fat_sections [OF _ _ _ _ _ _ _ holds, of example_header "0x1000"
        "[0, 0xDE, 1, 0, 0xDC, 0x2A]" "[0, 0]"]
    unfolding Let_def by (simp add: example_header_def) blast
qed

lemma tiny_byte:
  fixes c :: "32 word"
  assumes "c < 64"
  shows "tiny_IsTiny (ucast (CorILMethod_TinyFormat OR push_bit 2 c))"
    "tiny_GetCodeSize (ucast (CorILMethod_TinyFormat OR push_bit 2 c)) = c"
proof -
  have "c \<le> 0x3F" using assms by (simp add: word_less_nat_alt word_le_nat_alt)
  note above = bits_above [OF this [unfolded mask_eq_numeral]]
  have two: "bit (2 :: int) n \<longleftrightarrow> n = 1" for n
    using bit_exp_iff [of 1 n, where 'a = int] by simp
  have "(ucast (ucast (2 OR push_bit 2 c) :: BYTE) :: 32 word) AND 3 = 2"
    by (intro bit_word_eqI) (auto simp: wbits two)
  then show "tiny_IsTiny (ucast (CorILMethod_TinyFormat OR push_bit 2 c))"
    by (simp add: tiny_IsTiny_def CorILMethod_TinyFormat_def CorILMethod_FormatMask_def)
  have "drop_bit 2 (ucast (ucast (2 OR push_bit 2 c) :: BYTE)) = c"
    by (intro bit_word_eqI) (auto simp: wbits two above not_less intro: ccontr)
  then show "tiny_GetCodeSize (ucast (CorILMethod_TinyFormat OR push_bit 2 c)) = c"
    by (simp add: tiny_GetCodeSize_def CorILMethod_TinyFormat_def CorILMethod_FormatShift_def)
qed

lemma tiny_fat:
  "fat_SetFlags (fat_SetCodeSize (fat_SetMaxStack (replicate 12 0) 8) c) CorILMethod_TinyFormat =
     fat_header_bytes \<lparr>fh_Flags = 2, fh_Size = 0, fh_MaxStack = 8, fh_CodeSize = c, fh_LocalVarSigTok = 0\<rparr>"
proof -
  have "replicate 12 (0 :: BYTE) = [0, 0, 0, 0, 0, 0, 0, 0, 0, 0, 0, 0]" by code_simp
  moreover have "put_le 2 (8 :: 32 word) = [8, 0]" "put_le 2 (8 :: 16 word) = [8, 0]"
    "put_le 4 (0 :: 32 word) = [0, 0, 0, 0]" by code_simp+
  moreover obtain b0 b1 b2 b3 where "put_le 4 c = [b0, b1, b2, b3]"
    by (simp add: put_le_def upt_rec)
  ultimately show ?thesis
    by (simp add: fat_SetFlags_def fat_SetCodeSize_def fat_SetMaxStack_def CorILMethod_TinyFormat_def
        fat_header_bytes_def)
qed

lemma tiny_decode:
  assumes "codeSize < 64"
  shows "\<exists>d. DecoderInit a (ucast (CorILMethod_TinyFormat OR push_bit 2 codeSize) # code) = Inr d \<and>
     fat_GetCodeSize (dec_fat d) = codeSize \<and> fat_GetMaxStack (dec_fat d) = 8 \<and>
     fat_GetFlags (dec_fat d) = CorILMethod_TinyFormat \<and> fat_GetLocalVarSigTok (dec_fat d) = 0 \<and>
     dec_Code d = Some 1 \<and> dec_EH d = None \<and> dec_Sect d = None"
  using tiny_byte [OF assms]
  by (simp add: DecoderInit_def byte_at_def tiny_GetMaxStack_def tiny_fat decoder_zero_def)
    (simp add: CorILMethod_TinyFormat_def)

text \<open>Decoding a tiny header of a body shorter than 64 bytes.\<close>

theorem DecoderInit_tiny:
  assumes "codeSize < 64"
  shows "\<exists>d. DecoderInit a (ucast (CorILMethod_TinyFormat OR push_bit 2 codeSize) # code) = Inr d \<and>
     fat_GetCodeSize (dec_fat d) = codeSize \<and> fat_GetMaxStack (dec_fat d) = 8 \<and>
     fat_GetFlags (dec_fat d) = CorILMethod_TinyFormat \<and> fat_GetLocalVarSigTok (dec_fat d) = 0 \<and>
     dec_Code d = Some 1 \<and> dec_EH d = None \<and> dec_Sect d = None"
  using assms by (rule tiny_decode)

theorem DecoderInit_tiny_witness:
  "\<exists>d. DecoderInit 0 [0x0A, 0x00, 0x2A] = Inr d \<and> fat_GetCodeSize (dec_fat d) = 2 \<and> dec_Code d = Some 1"
proof -
  have "(ucast (CorILMethod_TinyFormat OR push_bit 2 (2 :: 32 word)) :: BYTE) = 0x0A" by code_simp
  then show ?thesis using DecoderInit_tiny [of 2 0 "[0x00, 0x2A]"] by auto
qed

end
