(* ===== verification/ILList.thy ===== *)
theory ILList
  imports Opcode CorSig
begin

text \<open>
  The state of \<open>ILRewriter\<close> and its list of instructions
  (\<^verbatim>\<open>rewriter/ILRewriter.h\<close>, \<^verbatim>\<open>rewriter/ILRewriter.cpp\<close>): a circular doubly linked list threaded
  through heap nodes, with the member \<open>m_IL\<close> as its sentinel. The nodes live in an explicit
  store from addresses to instructions, and the operations read and write their link fields one
  by one, as the code does. \<open>dll\<close> says that a store holds the list of given addresses, and the
  operations are shown to be list insertion under it.
\<close>

unbundle bit_operations_syntax

section \<open>Data\<close>

type_synonym addr = nat

abbreviation (input) NULL :: addr where "NULL \<equiv> 0"

text \<open>The address of the sentinel, the member \<open>m_IL\<close> of the rewriter.\<close>

definition IL :: addr where "IL = 1"

lemma IL_simps [simp]: "IL \<noteq> NULL" "NULL \<noteq> IL" "IL < n \<longleftrightarrow> 1 < n"
  by (auto simp: IL_def)

text \<open>The union of an instruction: the member last written. \<open>new ILInstr()\<close> zeroes it, which
  leaves a null \<open>m_pTarget\<close>.\<close>

datatype ILArg =
  m_pTarget addr
| m_Arg8 INT8
| m_Arg16 INT16
| m_Arg32 INT32
| m_Arg64 INT64

record ILInstr =
  m_pNext :: addr
  m_pPrev :: addr
  m_opcode :: OPCODE
  m_offset :: ULONG
  m_arg :: ILArg

datatype EHArg = m_ClassToken DWORD | m_pFilter addr

record EHClause =
  m_Flags :: "32 word"
  m_pTryBegin :: addr
  m_pTryEnd :: addr
  m_pHandlerBegin :: addr
  m_pHandlerEnd :: addr
  m_eharg :: EHArg

text \<open>\<open>heap\<close> and \<open>next_addr\<close> are the store of the instructions and its first unused address;
  \<open>m_fRejit\<close> is \<open>m_pICorProfilerFunctionControl != NULL\<close>.\<close>

record ILRewriter =
  m_fRejit :: bool
  m_tkLocalVarSig :: mdToken
  m_maxStack :: "32 word"
  m_flags :: "32 word"
  m_fGenerateTinyHeader :: bool
  heap :: "addr \<Rightarrow> ILInstr option"
  next_addr :: addr
  m_nEH :: "32 word"
  m_pEH :: "EHClause list"
  m_pOffsetToInstr :: "addr list"
  m_CodeSize :: "32 word"
  m_nInstrs :: "32 word"
  m_pOutputBuffer :: "BYTE list"

section \<open>Access to the store\<close>

definition load_instr :: "ILRewriter \<Rightarrow> addr \<Rightarrow> ILInstr outcome" where
  "load_instr \<sigma> p = (case heap \<sigma> p of None \<Rightarrow> Inl NullDeref | Some i \<Rightarrow> Inr i)"

definition store_instr :: "ILRewriter \<Rightarrow> addr \<Rightarrow> (ILInstr \<Rightarrow> ILInstr) \<Rightarrow> ILRewriter outcome" where
  "store_instr \<sigma> p f =
     (case heap \<sigma> p of None \<Rightarrow> Inl NullDeref
      | Some i \<Rightarrow> Inr (\<sigma>\<lparr>heap := (heap \<sigma>)(p \<mapsto> f i)\<rparr>))"

lemma load_instr_Some [simp]: "heap \<sigma> p = Some i \<Longrightarrow> load_instr \<sigma> p = Inr i"
  by (simp add: load_instr_def)

lemma store_instr_Some [simp]:
  "heap \<sigma> p = Some i \<Longrightarrow> store_instr \<sigma> p f = Inr (\<sigma>\<lparr>heap := (heap \<sigma>)(p \<mapsto> f i)\<rparr>)"
  by (simp add: store_instr_def)

text \<open>Reads of the union, undefined unless the member read is the one last written.\<close>

fun read_target :: "ILInstr \<Rightarrow> addr outcome" where
  "read_target i = (case m_arg i of m_pTarget t \<Rightarrow> Inr t | _ \<Rightarrow> Inl InactiveMember)"

fun read_Arg8 :: "ILInstr \<Rightarrow> INT8 outcome" where
  "read_Arg8 i = (case m_arg i of m_Arg8 v \<Rightarrow> Inr v | _ \<Rightarrow> Inl InactiveMember)"

fun read_Arg16 :: "ILInstr \<Rightarrow> INT16 outcome" where
  "read_Arg16 i = (case m_arg i of m_Arg16 v \<Rightarrow> Inr v | _ \<Rightarrow> Inl InactiveMember)"

fun read_Arg32 :: "ILInstr \<Rightarrow> INT32 outcome" where
  "read_Arg32 i = (case m_arg i of m_Arg32 v \<Rightarrow> Inr v | _ \<Rightarrow> Inl InactiveMember)"

fun read_Arg64 :: "ILInstr \<Rightarrow> INT64 outcome" where
  "read_Arg64 i = (case m_arg i of m_Arg64 v \<Rightarrow> Inr v | _ \<Rightarrow> Inl InactiveMember)"

section \<open>Construction\<close>

text \<open>The constructor. It leaves the header members, the EH count, the code size and the
  sentinel's opcode, offset and union indeterminate: \<open>junk\<close> is what the memory held.\<close>

definition ILRewriter_new :: "bool \<Rightarrow> ILRewriter \<Rightarrow> ILInstr \<Rightarrow> ILRewriter" where
  "ILRewriter_new rejit junk junkIL =
     junk\<lparr>m_fRejit := rejit, m_fGenerateTinyHeader := False, m_pEH := [], m_pOffsetToInstr := [],
          m_pOutputBuffer := [], heap := [IL \<mapsto> junkIL\<lparr>m_pNext := IL, m_pPrev := IL\<rparr>],
          next_addr := 2, m_nInstrs := 0\<rparr>"

definition InitializeTiny :: "ILRewriter \<Rightarrow> ILRewriter" where
  "InitializeTiny \<sigma> =
     \<sigma>\<lparr>m_tkLocalVarSig := 0, m_maxStack := 8, m_flags := 2, m_CodeSize := 0, m_nEH := 0,
       m_fGenerateTinyHeader := True\<rparr>"

definition SetTkLocalVarSig :: "ILRewriter \<Rightarrow> mdToken \<Rightarrow> ILRewriter" where
  "SetTkLocalVarSig \<sigma> tk = \<sigma>\<lparr>m_tkLocalVarSig := tk, m_fGenerateTinyHeader := False\<rparr>"

definition GetTkLocalVarSig :: "ILRewriter \<Rightarrow> mdToken" where
  "GetTkLocalVarSig \<sigma> = m_tkLocalVarSig \<sigma>"

definition GetEHCount :: "ILRewriter \<Rightarrow> 32 word" where
  "GetEHCount \<sigma> = m_nEH \<sigma>"

definition GetILList :: addr where
  "GetILList = IL"

section \<open>Operations on the list\<close>

definition NewILInstr :: "ILRewriter \<Rightarrow> addr \<times> ILRewriter" where
  "NewILInstr \<sigma> =
     (next_addr \<sigma>,
      \<sigma>\<lparr>m_nInstrs := m_nInstrs \<sigma> + 1,
        heap := (heap \<sigma>)(next_addr \<sigma> \<mapsto>
          \<lparr>m_pNext = NULL, m_pPrev = NULL, m_opcode = 0, m_offset = 0, m_arg = m_pTarget NULL\<rparr>),
        next_addr := next_addr \<sigma> + 1\<rparr>)"

definition AdjustState :: "ILRewriter \<Rightarrow> addr \<Rightarrow> ILRewriter outcome" where
  "AdjustState \<sigma> p =
     bindO (load_instr \<sigma> p) (\<lambda>i.
     bindO (StackPushes (m_opcode i)) (\<lambda>k.
       Inr (\<sigma>\<lparr>m_maxStack := m_maxStack \<sigma> + k\<rparr>)))"

definition InsertBefore :: "ILRewriter \<Rightarrow> addr \<Rightarrow> addr \<Rightarrow> ILRewriter outcome" where
  "InsertBefore \<sigma> pWhere pWhat =
     bindO (store_instr \<sigma> pWhat (\<lambda>i. i\<lparr>m_pNext := pWhere\<rparr>)) (\<lambda>\<sigma>.
     bindO (load_instr \<sigma> pWhere) (\<lambda>w.
     bindO (store_instr \<sigma> pWhat (\<lambda>i. i\<lparr>m_pPrev := m_pPrev w\<rparr>)) (\<lambda>\<sigma>.
     bindO (load_instr \<sigma> pWhat) (\<lambda>x.
     bindO (store_instr \<sigma> (m_pNext x) (\<lambda>i. i\<lparr>m_pPrev := pWhat\<rparr>)) (\<lambda>\<sigma>.
     bindO (load_instr \<sigma> pWhat) (\<lambda>x.
     bindO (store_instr \<sigma> (m_pPrev x) (\<lambda>i. i\<lparr>m_pNext := pWhat\<rparr>)) (\<lambda>\<sigma>.
       AdjustState \<sigma> pWhat)))))))"

definition InsertAfter :: "ILRewriter \<Rightarrow> addr \<Rightarrow> addr \<Rightarrow> ILRewriter outcome" where
  "InsertAfter \<sigma> pWhere pWhat =
     bindO (load_instr \<sigma> pWhere) (\<lambda>w.
     bindO (store_instr \<sigma> pWhat (\<lambda>i. i\<lparr>m_pNext := m_pNext w\<rparr>)) (\<lambda>\<sigma>.
     bindO (store_instr \<sigma> pWhat (\<lambda>i. i\<lparr>m_pPrev := pWhere\<rparr>)) (\<lambda>\<sigma>.
     bindO (load_instr \<sigma> pWhat) (\<lambda>x.
     bindO (store_instr \<sigma> (m_pNext x) (\<lambda>i. i\<lparr>m_pPrev := pWhat\<rparr>)) (\<lambda>\<sigma>.
     bindO (load_instr \<sigma> pWhat) (\<lambda>x.
     bindO (store_instr \<sigma> (m_pPrev x) (\<lambda>i. i\<lparr>m_pNext := pWhat\<rparr>)) (\<lambda>\<sigma>.
       AdjustState \<sigma> pWhat)))))))"

text \<open>The loops \<open>for (p = m_IL.m_pNext; p != &m_IL; p = p->m_pNext)\<close>, with a body that may
  change the rewriter and a value of the loop's own.\<close>

fun for_instrs ::
  "nat \<Rightarrow> (addr \<Rightarrow> 's \<times> ILRewriter \<Rightarrow> ('s \<times> ILRewriter) outcome) \<Rightarrow> addr \<Rightarrow> 's \<times> ILRewriter
    \<Rightarrow> ('s \<times> ILRewriter) outcome" where
  "for_instrs 0 body p s\<sigma> = Inl OutOfFuel"
| "for_instrs (Suc n) body p s\<sigma> =
     (if p = IL then Inr s\<sigma>
      else bindO (body p s\<sigma>) (\<lambda>s\<sigma>.
           bindO (load_instr (snd s\<sigma>) p) (\<lambda>i.
             for_instrs n body (m_pNext i) s\<sigma>)))"

definition for_each_instr ::
  "(addr \<Rightarrow> 's \<times> ILRewriter \<Rightarrow> ('s \<times> ILRewriter) outcome) \<Rightarrow> 's \<times> ILRewriter
    \<Rightarrow> ('s \<times> ILRewriter) outcome" where
  "for_each_instr body s\<sigma> =
     bindO (load_instr (snd s\<sigma>) IL) (\<lambda>i.
       for_instrs (next_addr (snd s\<sigma>)) body (m_pNext i) s\<sigma>)"

text \<open>The destructor deletes every instruction of the list (the buffers go with the state).\<close>

fun delete_from :: "nat \<Rightarrow> addr \<Rightarrow> ILRewriter \<Rightarrow> ILRewriter outcome" where
  "delete_from 0 p \<sigma> = Inl OutOfFuel"
| "delete_from (Suc n) p \<sigma> =
     (if p = IL then Inr \<sigma>
      else bindO (load_instr \<sigma> p) (\<lambda>i.
             delete_from n (m_pNext i) (\<sigma>\<lparr>heap := (heap \<sigma>)(p := None)\<rparr>)))"

definition ILRewriter_delete :: "ILRewriter \<Rightarrow> ILRewriter outcome" where
  "ILRewriter_delete \<sigma> =
     bindO (load_instr \<sigma> IL) (\<lambda>i. delete_from (next_addr \<sigma>) (m_pNext i) \<sigma>)"

section \<open>The list in the store\<close>

definition next_of :: "(addr \<Rightarrow> ILInstr option) \<Rightarrow> addr \<Rightarrow> addr option" where
  "next_of h a = map_option m_pNext (h a)"

definition prev_of :: "(addr \<Rightarrow> ILInstr option) \<Rightarrow> addr \<Rightarrow> addr option" where
  "prev_of h a = map_option m_pPrev (h a)"

text \<open>Everything of an instruction but its links.\<close>

definition content_of :: "(addr \<Rightarrow> ILInstr option) \<Rightarrow> addr \<Rightarrow> (OPCODE \<times> ULONG \<times> ILArg) option" where
  "content_of h a = map_option (\<lambda>i. (m_opcode i, m_offset i, m_arg i)) (h a)"

fun linked :: "(addr \<Rightarrow> ILInstr option) \<Rightarrow> addr list \<Rightarrow> bool" where
  "linked h (a # b # r) \<longleftrightarrow> next_of h a = Some b \<and> prev_of h b = Some a \<and> linked h (b # r)"
| "linked h r \<longleftrightarrow> True"

definition dll :: "(addr \<Rightarrow> ILInstr option) \<Rightarrow> addr list \<Rightarrow> bool" where
  "dll h xs \<longleftrightarrow> distinct (IL # xs) \<and> NULL \<notin> set xs \<and> linked h (IL # xs @ [IL])"

text \<open>The rewriter's list is \<open>xs\<close>: the store holds it, every object is below \<open>next_addr\<close>, and
  \<open>m_nInstrs\<close> counts the instructions created.\<close>

definition holds :: "ILRewriter \<Rightarrow> addr list \<Rightarrow> bool" where
  "holds \<sigma> xs \<longleftrightarrow> dll (heap \<sigma>) xs \<and> dom (heap \<sigma>) \<subseteq> {1..<next_addr \<sigma>} \<and> 2 \<le> next_addr \<sigma> \<and>
     m_nInstrs \<sigma> = word_of_nat (next_addr \<sigma> - 2)"

lemma linked_split: "linked h (xs @ a # ys) \<longleftrightarrow> linked h (xs @ [a]) \<and> linked h (a # ys)"
proof (induction xs)
  case (Cons x xs)
  then show ?case by (cases xs) simp_all
qed simp

lemma linked_cong:
  assumes "\<And>a. a \<in> set (butlast xs) \<Longrightarrow> next_of h' a = next_of h a"
    and "\<And>b. b \<in> set (tl xs) \<Longrightarrow> prev_of h' b = prev_of h b"
  shows "linked h' xs = linked h xs"
  using assms
proof (induction h xs rule: linked.induct)
  case (1 h a b r)
  then show ?case by (cases r) auto
qed auto

text \<open>A node \<open>x\<close> linked in between \<open>p\<close> and \<open>w\<close>.\<close>

definition upd :: "(addr \<Rightarrow> ILInstr option) \<Rightarrow> addr \<Rightarrow> (ILInstr \<Rightarrow> ILInstr) \<Rightarrow> addr \<Rightarrow> ILInstr option" where
  "upd h p f = h(p := map_option f (h p))"

definition splice :: "(addr \<Rightarrow> ILInstr option) \<Rightarrow> addr \<Rightarrow> addr \<Rightarrow> addr \<Rightarrow> addr \<Rightarrow> ILInstr option" where
  "splice h p x w =
     upd (upd (upd h x (\<lambda>i. i\<lparr>m_pNext := w, m_pPrev := p\<rparr>)) w (\<lambda>i. i\<lparr>m_pPrev := x\<rparr>))
       p (\<lambda>i. i\<lparr>m_pNext := x\<rparr>)"

lemma dom_splice [simp]: "dom (splice h p x w) = dom h"
  by (auto simp: splice_def upd_def dom_def split: if_splits)

lemma content_splice [simp]: "content_of (splice h p x w) = content_of h"
  by (rule ext) (simp add: content_of_def splice_def upd_def option.map_comp comp_def)

lemma next_splice:
  assumes "x \<noteq> p" "h x \<noteq> None" "h p \<noteq> None"
  shows "next_of (splice h p x w) a =
     (if a = x then Some w else if a = p then Some x else next_of h a)"
  using assms by (auto simp: next_of_def splice_def upd_def option.map_comp comp_def)

lemma prev_splice:
  assumes "x \<noteq> w" "h x \<noteq> None" "h w \<noteq> None"
  shows "prev_of (splice h p x w) a =
     (if a = x then Some p else if a = w then Some x else prev_of h a)"
  using assms by (auto simp: prev_of_def splice_def upd_def option.map_comp comp_def)

lemma linked_dom:
  assumes "linked h (xs @ a # b # ys)"
  shows "next_of h a = Some b" "prev_of h b = Some a" "h a \<noteq> None" "h b \<noteq> None"
  using assms by (auto simp: linked_split [of h xs a "b # ys"] next_of_def prev_of_def)

lemma dll_cases:
  obtains as' p w bs' where "IL # as = as' @ [p]" "bs @ [IL] = w # bs'"
    "p = last (IL # as)" "w = hd (bs @ [IL])"
proof
  show "IL # as = butlast (IL # as) @ [last (IL # as)]"
    by (metis append_butlast_last_id list.discI)
  show "bs @ [IL] = hd (bs @ [IL]) # tl (bs @ [IL])" by simp
qed simp_all

lemma dll_splice:
  assumes dll: "dll h (as @ bs)" and x: "x \<notin> set (IL # as @ bs)" "h x \<noteq> None" "x \<noteq> NULL"
  shows "dll (splice h (last (IL # as)) x (hd (bs @ [IL]))) (as @ x # bs)"
proof (cases rule: dll_cases [of as bs])
  case (1 as' p w bs')
  let ?h = "splice h p x w"
  have dist: "distinct (IL # as)" "distinct (bs @ [IL])" "set (IL # as) \<inter> set bs = {}"
    using dll by (auto simp: dll_def)
  have p: "p \<in> set (IL # as)" and w: "w \<in> set (bs @ [IL])"
    unfolding 1(1,2) by simp_all
  have chain: "linked h (as' @ p # w # bs')"
  proof -
    have "IL # (as @ bs) @ [IL] = (IL # as) @ (bs @ [IL])" by simp
    then show ?thesis using dll unfolding dll_def 1(1,2) by simp
  qed
  have pw: "next_of h p = Some w" "prev_of h w = Some p" "h p \<noteq> None" "h w \<noteq> None"
    using linked_dom [OF chain] .
  have "x \<noteq> p" "x \<noteq> w" using x(1) p w by auto
  note nx = next_splice [OF \<open>x \<noteq> p\<close> x(2) pw(3)] and pv = prev_splice [OF \<open>x \<noteq> w\<close> x(2) pw(4)]
  have "linked ?h (as' @ [p])"
  proof (subst linked_cong)
    fix a assume "a \<in> set (butlast (as' @ [p]))"
    then have "a \<in> set as'" by simp
    moreover have "set as' \<subseteq> set (IL # as)" "p \<notin> set as'"
      using dist(1) unfolding 1(1) by auto
    ultimately show "next_of ?h a = next_of h a" using x(1) by (auto simp: nx)
  next
    fix b assume "b \<in> set (tl (as' @ [p]))"
    then have "b \<in> set as" by (simp add: 1(1) [symmetric])
    then show "prev_of ?h b = prev_of h b" using x(1) w dist by (auto simp: pv)
  next
    show "linked h (as' @ [p])" using chain by (simp add: linked_split [of h as' p "w # bs'"])
  qed
  moreover have "linked ?h (w # bs')"
  proof (subst linked_cong)
    fix a assume "a \<in> set (butlast (w # bs'))"
    then have "a \<in> set bs" by (simp add: 1(2) [symmetric] del: butlast.simps)
    then show "next_of ?h a = next_of h a" using x(1) p dist by (auto simp: nx)
  next
    fix b assume "b \<in> set (tl (w # bs'))"
    then have "b \<in> set bs'" by simp
    moreover have "set bs' \<subseteq> set (bs @ [IL])" "w \<notin> set bs'"
      using dist(2) unfolding 1(2) by auto
    ultimately show "prev_of ?h b = prev_of h b" using x(1) by (auto simp: pv)
  next
    show "linked h (w # bs')" using chain by (simp add: linked_split [of h as' p "w # bs'"])
  qed
  moreover have "next_of ?h p = Some x" "next_of ?h x = Some w" "prev_of ?h x = Some p"
    "prev_of ?h w = Some x"
    using \<open>x \<noteq> p\<close> \<open>x \<noteq> w\<close> by (simp_all add: nx pv)
  ultimately have "linked ?h (as' @ p # x # w # bs')"
    by (simp add: linked_split [of ?h as' p "x # w # bs'"])
  moreover have "IL # (as @ x # bs) @ [IL] = (IL # as) @ x # (bs @ [IL])" by simp
  ultimately have "linked ?h (IL # (as @ x # bs) @ [IL])"
    unfolding 1(1,2) by simp
  with dll x show ?thesis unfolding dll_def 1(3,4) by auto
qed

section \<open>Insertion is list insertion\<close>

text \<open>A node that may be inserted: allocated, not in the list, with an opcode of the table.\<close>

definition insertable :: "ILRewriter \<Rightarrow> addr list \<Rightarrow> addr \<Rightarrow> bool" where
  "insertable \<sigma> xs x \<longleftrightarrow> x \<notin> set (IL # xs) \<and> heap \<sigma> x \<noteq> None \<and>
     m_opcode (the (heap \<sigma> x)) < CEE_COUNT"

text \<open>What an insertion of \<open>x\<close> may change: the links, and the stack bound by what \<open>x\<close> pushes.\<close>

definition pushes :: "ILRewriter \<Rightarrow> addr \<Rightarrow> 32 word" where
  "pushes \<sigma> x = (case StackPushes (m_opcode (the (heap \<sigma> x))) of Inl _ \<Rightarrow> 0 | Inr k \<Rightarrow> k)"

definition inserted :: "ILRewriter \<Rightarrow> addr \<Rightarrow> ILRewriter \<Rightarrow> bool" where
  "inserted \<sigma> x \<sigma>' \<longleftrightarrow>
     \<sigma>' = \<sigma>\<lparr>heap := heap \<sigma>', m_maxStack := m_maxStack \<sigma> + pushes \<sigma> x\<rparr> \<and>
     content_of (heap \<sigma>') = content_of (heap \<sigma>) \<and> dom (heap \<sigma>') = dom (heap \<sigma>)"

lemma StackPushes_insertable:
  assumes "insertable \<sigma> xs x" obtains xi where "heap \<sigma> x = Some xi"
    "StackPushes (m_opcode xi) = Inr (pushes \<sigma> x)"
  using assms by (auto simp: insertable_def StackPushes_below pushes_def)

lemma content_of_opcode:
  "content_of h x = content_of h' x \<Longrightarrow> h x \<noteq> None \<Longrightarrow>
     m_opcode (the (h x)) = m_opcode (the (h' x)) \<and> h' x \<noteq> None"
  by (cases "h x"; cases "h' x") (simp_all add: content_of_def)

lemma insertable_inserted:
  assumes "inserted \<sigma> x \<sigma>'" and "insertable \<sigma> xs y" and "x \<noteq> y"
    and "set xs' \<subseteq> insert x (set xs)"
  shows "insertable \<sigma>' xs' y"
proof -
  have "content_of (heap \<sigma>') y = content_of (heap \<sigma>) y" using assms(1) by (simp add: inserted_def)
  with assms(2) content_of_opcode [of "heap \<sigma>" y "heap \<sigma>'"]
  have "m_opcode (the (heap \<sigma>' y)) < CEE_COUNT \<and> heap \<sigma>' y \<noteq> None" by (auto simp: insertable_def)
  with assms(2-) show ?thesis by (auto simp: insertable_def)
qed

text \<open>Both insertions are the same splice, seen from either neighbour.\<close>

lemma InsertBefore_splice:
  assumes "heap \<sigma> w = Some wi" "heap \<sigma> x = Some xi" "heap \<sigma> (m_pPrev wi) = Some vi"
    and "x \<noteq> w" "x \<noteq> m_pPrev wi" and "StackPushes (m_opcode xi) = Inr k"
  shows "InsertBefore \<sigma> w x =
     Inr (\<sigma>\<lparr>heap := splice (heap \<sigma>) (m_pPrev wi) x w, m_maxStack := m_maxStack \<sigma> + k\<rparr>)"
  using assms by (simp add: InsertBefore_def AdjustState_def load_instr_def store_instr_def
      upd_def splice_def split: option.splits)

lemma InsertAfter_splice:
  assumes "heap \<sigma> p = Some pi" "heap \<sigma> x = Some xi" "heap \<sigma> (m_pNext pi) = Some vi"
    and "x \<noteq> p" "x \<noteq> m_pNext pi" and "StackPushes (m_opcode xi) = Inr k"
  shows "InsertAfter \<sigma> p x =
     Inr (\<sigma>\<lparr>heap := splice (heap \<sigma>) p x (m_pNext pi), m_maxStack := m_maxStack \<sigma> + k\<rparr>)"
  using assms by (simp add: InsertAfter_def AdjustState_def load_instr_def store_instr_def
      upd_def splice_def split: option.splits)

lemma holds_ends:
  assumes "holds \<sigma> (as @ bs)"
  obtains pi wi where "heap \<sigma> (last (IL # as)) = Some pi" "heap \<sigma> (hd (bs @ [IL])) = Some wi"
    "m_pNext pi = hd (bs @ [IL])" "m_pPrev wi = last (IL # as)"
proof (cases rule: dll_cases [of as bs])
  case (1 as' p w bs')
  have "linked (heap \<sigma>) ((IL # as) @ (bs @ [IL]))" using assms by (simp add: holds_def dll_def)
  then have "linked (heap \<sigma>) (as' @ p # w # bs')" unfolding 1(1,2) by simp
  from linked_dom [OF this] show thesis
    using that unfolding 1(3,4) [symmetric] by (auto simp: next_of_def prev_of_def)
qed

lemma insert_refines:
  assumes holds: "holds \<sigma> (as @ bs)" and x: "insertable \<sigma> (as @ bs) x"
  shows "\<exists>\<sigma>'. InsertBefore \<sigma> (hd (bs @ [IL])) x = Inr \<sigma>' \<and> InsertAfter \<sigma> (last (IL # as)) x = Inr \<sigma>' \<and>
     holds \<sigma>' (as @ x # bs) \<and> inserted \<sigma> x \<sigma>'"
proof -
  obtain pi wi where ends: "heap \<sigma> (last (IL # as)) = Some pi" "heap \<sigma> (hd (bs @ [IL])) = Some wi"
    "m_pNext pi = hd (bs @ [IL])" "m_pPrev wi = last (IL # as)"
    using holds by (rule holds_ends)
  obtain xi where xi: "heap \<sigma> x = Some xi" "StackPushes (m_opcode xi) = Inr (pushes \<sigma> x)"
    using x by (rule StackPushes_insertable)
  have "last (IL # as) \<in> set (IL # as)" "hd (bs @ [IL]) \<in> set (bs @ [IL])"
    by (simp, cases bs) simp_all
  then have ne: "x \<noteq> last (IL # as)" "x \<noteq> hd (bs @ [IL])"
    using x by (auto simp: insertable_def)
  let ?h = "splice (heap \<sigma>) (last (IL # as)) x (hd (bs @ [IL]))"
  let ?\<sigma> = "\<sigma>\<lparr>heap := ?h, m_maxStack := m_maxStack \<sigma> + pushes \<sigma> x\<rparr>"
  have "InsertBefore \<sigma> (hd (bs @ [IL])) x = Inr ?\<sigma>" "InsertAfter \<sigma> (last (IL # as)) x = Inr ?\<sigma>"
    using InsertBefore_splice [OF ends(2) xi(1)] InsertAfter_splice [OF ends(1) xi(1)] ends xi ne
    by simp_all
  moreover have "x \<noteq> NULL" using xi(1) holds by (auto simp: holds_def dom_def)
  then have "dll ?h (as @ x # bs)"
    using holds x by (intro dll_splice) (auto simp: holds_def insertable_def)
  with holds have "holds ?\<sigma> (as @ x # bs)" by (simp add: holds_def)
  moreover have "inserted \<sigma> x ?\<sigma>" by (simp add: inserted_def)
  ultimately show ?thesis by blast
qed

section \<open>An example\<close>

text \<open>A rewriter that holds a single \<open>ret\<close> at address 2, with one more node at address 3.\<close>

definition example_rewriter :: "OPCODE \<Rightarrow> ILRewriter" where
  "example_rewriter op =
     \<lparr>m_fRejit = False, m_tkLocalVarSig = 0, m_maxStack = 8, m_flags = 2,
      m_fGenerateTinyHeader = False,
      heap = [1 \<mapsto> \<lparr>m_pNext = 2, m_pPrev = 2, m_opcode = - 1, m_offset = 0, m_arg = m_pTarget NULL\<rparr>,
              2 \<mapsto> \<lparr>m_pNext = 1, m_pPrev = 1, m_opcode = CEE_RET, m_offset = 0, m_arg = m_pTarget NULL\<rparr>,
              3 \<mapsto> \<lparr>m_pNext = NULL, m_pPrev = NULL, m_opcode = op, m_offset = 0, m_arg = m_pTarget NULL\<rparr>],
      next_addr = 4, m_nEH = 0, m_pEH = [], m_pOffsetToInstr = [], m_CodeSize = 0, m_nInstrs = 2,
      m_pOutputBuffer = []\<rparr>"

lemma example_holds: "holds (example_rewriter op) [2]"
  by (simp add: holds_def dll_def example_rewriter_def next_of_def prev_of_def IL_def)

lemma example_heap:
  "heap (example_rewriter op) 3 =
     Some \<lparr>m_pNext = NULL, m_pPrev = NULL, m_opcode = op, m_offset = 0, m_arg = m_pTarget NULL\<rparr>"
  by (simp add: example_rewriter_def)

lemma example_insertable: "insertable (example_rewriter CEE_NOP) [2] 3"
  by (simp add: insertable_def example_heap IL_def CEE_COUNT_def)

text \<open>C14: \<open>InsertBefore\<close> refines insertion into the list: given a list \<open>as @ bs\<close> and an instruction
  that is not in it and whose opcode is in the table, inserting it before the first of \<open>bs\<close> (the
  sentinel when \<open>bs\<close> is empty) completes, the rewriter then holds \<open>as @ x # bs\<close>, no instruction
  but the links changed, and the stack bound grew by what the instruction pushes.\<close>

theorem InsertBefore_refines:
  assumes "holds \<sigma> (as @ bs)" and "insertable \<sigma> (as @ bs) x"
  shows "\<exists>\<sigma>'. InsertBefore \<sigma> (hd (bs @ [IL])) x = Inr \<sigma>' \<and> holds \<sigma>' (as @ x # bs) \<and>
     inserted \<sigma> x \<sigma>'"
  using insert_refines [OF assms] by blast

theorem InsertBefore_refines_witness:
  "\<exists>\<sigma>'. InsertBefore (example_rewriter CEE_NOP) 2 3 = Inr \<sigma>' \<and> holds \<sigma>' [3, 2] \<and>
     inserted (example_rewriter CEE_NOP) 3 \<sigma>'"
  using InsertBefore_refines [of "example_rewriter CEE_NOP" "[]" "[2]" 3]
  by (simp add: example_holds example_insertable)

text \<open>\<open>InsertAfter\<close> refines insertion into the list in the same way, and inserting after the
  last of \<open>as\<close> leaves the very state that inserting before the first of \<open>bs\<close> leaves.\<close>

theorem InsertAfter_refines:
  assumes "holds \<sigma> (as @ bs)" and "insertable \<sigma> (as @ bs) x"
  shows "\<exists>\<sigma>'. InsertAfter \<sigma> (last (IL # as)) x = Inr \<sigma>' \<and>
     InsertBefore \<sigma> (hd (bs @ [IL])) x = Inr \<sigma>' \<and> holds \<sigma>' (as @ x # bs) \<and> inserted \<sigma> x \<sigma>'"
  using insert_refines [OF assms] by blast

theorem InsertAfter_refines_witness:
  "\<exists>\<sigma>'. InsertAfter (example_rewriter CEE_NOP) 2 3 = Inr \<sigma>' \<and>
     InsertBefore (example_rewriter CEE_NOP) IL 3 = Inr \<sigma>' \<and> holds \<sigma>' [2, 3] \<and>
     inserted (example_rewriter CEE_NOP) 3 \<sigma>'"
  using InsertAfter_refines [of "example_rewriter CEE_NOP" "[2]" "[]" 3]
  by (simp add: example_holds example_insertable)

text \<open>C15: the array \<open>k_rgnStackPushes\<close> has no entry for the internal \<open>CEE_SWITCH_ARG\<close>, so inserting
  a switch argument, as the import of every non-empty \<open>switch\<close> does, reads past its end.\<close>

theorem InsertBefore_switch_arg:
  assumes "holds \<sigma> (as @ bs)" and "x \<notin> set (IL # as @ bs)"
    and "heap \<sigma> x = Some xi" and "m_opcode xi = CEE_SWITCH_ARG"
  shows "InsertBefore \<sigma> (hd (bs @ [IL])) x = Inl OutOfBounds"
proof -
  obtain pi wi where ends: "heap \<sigma> (last (IL # as)) = Some pi" "heap \<sigma> (hd (bs @ [IL])) = Some wi"
    "m_pNext pi = hd (bs @ [IL])" "m_pPrev wi = last (IL # as)"
    using assms(1) by (rule holds_ends)
  have "last (IL # as) \<in> set (IL # as)" "hd (bs @ [IL]) \<in> set (bs @ [IL])"
    by (simp, cases bs) simp_all
  then have "x \<noteq> last (IL # as)" "x \<noteq> hd (bs @ [IL])" using assms(2) by auto
  then show ?thesis
    using ends(1,2) assms(3,4) unfolding ends(4) [symmetric]
    by (simp add: InsertBefore_def AdjustState_def load_instr_def store_instr_def)
qed

theorem InsertBefore_switch_arg_witness:
  "InsertBefore (example_rewriter CEE_SWITCH_ARG) IL 3 = Inl OutOfBounds"
  using InsertBefore_switch_arg [of "example_rewriter CEE_SWITCH_ARG" "[2]" "[]" 3, OF _ _ example_heap]
  by (simp add: example_holds IL_def)

text \<open>Backward rules for the access to the store.\<close>

lemma load_instr_wp [wp]: "(\<And>i. heap \<sigma> p = Some i \<Longrightarrow> P i) \<Longrightarrow> ensures (load_instr \<sigma> p) P"
  by (auto simp: load_instr_def intro!: wp)

lemma store_instr_wp [wp]:
  "(\<And>i. heap \<sigma> p = Some i \<Longrightarrow> P (\<sigma>\<lparr>heap := (heap \<sigma>)(p \<mapsto> f i)\<rparr>)) \<Longrightarrow> ensures (store_instr \<sigma> p f) P"
  by (auto simp: store_instr_def intro!: wp)

lemma next_of_upd:
  "h p = Some i \<Longrightarrow> m_pNext j = m_pNext i \<Longrightarrow> next_of (h(p \<mapsto> j)) = next_of h"
  by (auto simp: next_of_def)

lemma read_wp [wp]:
  "(\<And>x. P x) \<Longrightarrow> ensures (read_target i) P" "(\<And>x. Q x) \<Longrightarrow> ensures (read_Arg8 i) Q"
  "(\<And>x. R x) \<Longrightarrow> ensures (read_Arg16 i) R" "(\<And>x. S x) \<Longrightarrow> ensures (read_Arg32 i) S"
  "(\<And>x. T x) \<Longrightarrow> ensures (read_Arg64 i) T" "(\<And>x. U x) \<Longrightarrow> ensures (OpCodeFlags op) U"
  by (rule ensures_any, assumption)+

section \<open>Creation\<close>

lemma holds_new: "holds (ILRewriter_new rejit junk junkIL) []"
  by (simp add: holds_def dll_def ILRewriter_new_def next_of_def prev_of_def IL_def)

lemma holds_cong:
  assumes "holds \<sigma> xs" and "heap \<sigma>' = heap \<sigma>" "next_addr \<sigma>' = next_addr \<sigma>" "m_nInstrs \<sigma>' = m_nInstrs \<sigma>"
  shows "holds \<sigma>' xs"
  using assms by (simp add: holds_def)

lemma linked_upd_fresh:
  assumes "linked h xs" and "h p = None"
  shows "linked (h(p \<mapsto> i)) xs"
  using assms
proof (induction h xs rule: linked.induct)
  case (1 h a b r)
  then show ?case by (auto simp: next_of_def prev_of_def)
qed auto

lemma NewILInstr_holds:
  assumes "holds \<sigma> xs" and "NewILInstr \<sigma> = (p, \<sigma>')"
  shows "holds \<sigma>' xs" "p \<notin> set (IL # xs)" "p = next_addr \<sigma>"
    "heap \<sigma>' = (heap \<sigma>)(p \<mapsto>
       \<lparr>m_pNext = NULL, m_pPrev = NULL, m_opcode = 0, m_offset = 0, m_arg = m_pTarget NULL\<rparr>)"
proof -
  have fresh: "heap \<sigma> (next_addr \<sigma>) = None"
    using assms(1) by (auto simp: holds_def dom_def subset_iff)
  show p: "p = next_addr \<sigma>" and heap: "heap \<sigma>' = (heap \<sigma>)(p \<mapsto>
       \<lparr>m_pNext = NULL, m_pPrev = NULL, m_opcode = 0, m_offset = 0, m_arg = m_pTarget NULL\<rparr>)"
    using assms(2) by (auto simp: NewILInstr_def)
  have "linked (heap \<sigma>') (IL # xs @ [IL])"
    using assms(1) fresh unfolding heap p by (intro linked_upd_fresh) (simp_all add: holds_def dll_def)
  moreover have "next_addr \<sigma>' = next_addr \<sigma> + 1" "m_nInstrs \<sigma>' = m_nInstrs \<sigma> + 1"
    using assms(2) by (auto simp: NewILInstr_def)
  moreover have "2 \<le> next_addr \<sigma>" using assms(1) by (simp add: holds_def)
  then have "(word_of_nat (next_addr \<sigma> - 2) :: 32 word) + 1 = word_of_nat (next_addr \<sigma> + 1 - 2)"
    by (metis Suc_eq_plus1 Suc_diff_le of_nat_Suc add.commute)
  ultimately show "holds \<sigma>' xs"
    using assms(1) by (auto simp: holds_def dll_def heap p)
  show "p \<notin> set (IL # xs)"
  proof
    assume "p \<in> set (IL # xs)"
    then obtain ys zs where "IL # xs @ [IL] = ys @ p # zs @ [IL]" "zs @ [IL] \<noteq> []"
      by (metis append.assoc append_Cons in_set_conv_decomp snoc_eq_iff_butlast)
    then obtain b zs' where "IL # xs @ [IL] = ys @ p # b # zs'" by (metis neq_Nil_conv)
    moreover have "linked (heap \<sigma>) (IL # xs @ [IL])" using assms(1) by (simp add: holds_def dll_def)
    ultimately show False using linked_dom(3) [of "heap \<sigma>" ys p b zs'] fresh p by simp
  qed
qed

section \<open>Loops over the list\<close>

lemma linked_next:
  assumes "holds \<sigma> xs"
  shows "linked (heap \<sigma>) (IL # xs @ [IL])" "distinct (IL # xs)" "IL \<notin> set xs"
  using assms by (auto simp: holds_def dll_def)

lemma holds_dom:
  assumes "holds \<sigma> xs" "p \<in> set (IL # xs)"
  obtains i where "heap \<sigma> p = Some i"
proof -
  obtain ys zs where eq: "IL # xs = ys @ p # zs" using assms(2) by (meson in_set_conv_decomp)
  have "linked (heap \<sigma>) (IL # xs @ [IL])" using assms(1) by (simp add: holds_def dll_def)
  also have "IL # xs @ [IL] = ys @ p # (zs @ [IL])" using eq by (metis append.assoc append_Cons)
  finally have "linked (heap \<sigma>) (ys @ p # hd (zs @ [IL]) # tl (zs @ [IL]))" by simp
  from linked_dom(3) [OF this] show thesis using that by blast
qed

lemma holds_length:
  assumes "holds \<sigma> xs"
  shows "length xs + 2 \<le> next_addr \<sigma>"
proof -
  have "set xs \<subseteq> {2..<next_addr \<sigma>}"
  proof
    fix p assume p: "p \<in> set xs"
    then obtain i where "heap \<sigma> p = Some i" using holds_dom [OF assms, of p] by auto
    then have "1 \<le> p" "p < next_addr \<sigma>" using assms by (auto simp: holds_def dom_def)
    moreover have "p \<noteq> 1" using p linked_next(3) [OF assms] by (auto simp: IL_def)
    ultimately show "p \<in> {2..<next_addr \<sigma>}" by simp
  qed
  then have "card (set xs) \<le> card {2..<next_addr \<sigma>}" by (intro card_mono) simp_all
  moreover have "card (set xs) = length xs" using linked_next(2) [OF assms] by (simp add: distinct_card)
  moreover have "2 \<le> next_addr \<sigma>" using assms by (simp add: holds_def)
  ultimately show ?thesis by simp
qed

text \<open>The bodies the loops run keep the forward links.\<close>

definition keeps_links :: "ILRewriter \<Rightarrow> ILRewriter \<Rightarrow> bool" where
  "keeps_links \<sigma> \<sigma>' \<longleftrightarrow> next_of (heap \<sigma>') = next_of (heap \<sigma>)"

lemma for_instrs_fold:
  assumes "linked (heap \<sigma>0) (p # xs @ [IL])" and "IL \<notin> set xs" and "length xs < n"
    and "next_of (heap (snd s)) = next_of (heap \<sigma>0)"
    and body: "\<And>x s s'. x \<in> set xs \<Longrightarrow> body x s = Inr s' \<Longrightarrow> keeps_links (snd s) (snd s')"
  shows "for_instrs n body (hd (xs @ [IL])) s = foldO body xs s"
  using assms
proof (induction xs arbitrary: n p s)
  case Nil
  then show ?case by (cases n) simp_all
next
  case (Cons x xs)
  then obtain m where n: "n = Suc m" "length xs < m" by (cases n) auto
  have x: "x \<noteq> IL" using Cons.prems(2) by auto
  have lk: "linked (heap \<sigma>0) (x # xs @ [IL])" using Cons.prems(1) by simp
  then have nx: "next_of (heap \<sigma>0) x = Some (hd (xs @ [IL]))" by (cases xs) auto
  show ?case
  proof (cases "body x s")
    case (Inr t)
    then have t: "next_of (heap (snd t)) = next_of (heap \<sigma>0)"
      using Cons.prems(4) Cons.prems(5) [of x s t] by (simp add: keeps_links_def)
    then obtain i where i: "heap (snd t) x = Some i" "m_pNext i = hd (xs @ [IL])"
      using nx by (metis map_option_eq_Some next_of_def)
    have "for_instrs m body (hd (xs @ [IL])) t = foldO body xs t"
    proof (rule Cons.IH [OF lk _ n(2) t])
      fix y s s' assume "y \<in> set xs" "body y s = Inr s'"
      then show "keeps_links (snd s) (snd s')" by (intro Cons.prems(5)) simp_all
    qed (use Cons.prems(2) in simp)
    then show ?thesis by (simp add: n Inr x load_instr_Some [OF i(1)] i(2))
  qed (simp add: n x)
qed

lemma for_each_instr_fold:
  assumes "holds (snd s) xs"
    and "\<And>x s s'. x \<in> set xs \<Longrightarrow> body x s = Inr s' \<Longrightarrow> keeps_links (snd s) (snd s')"
  shows "for_each_instr body s = foldO body xs s"
proof -
  note lk = linked_next [OF assms(1)]
  obtain i where i: "heap (snd s) IL = Some i" using holds_dom [OF assms(1), of IL] by auto
  have "next_of (heap (snd s)) IL = Some (hd (xs @ [IL]))"
    using lk(1) by (cases xs) auto
  then have "m_pNext i = hd (xs @ [IL])" using i by (simp add: next_of_def)
  moreover have "for_instrs (next_addr (snd s)) body (hd (xs @ [IL])) s = foldO body xs s"
    using lk holds_length [OF assms(1)] assms(2) by (intro for_instrs_fold [of "snd s" IL]) auto
  ultimately show ?thesis by (simp add: for_each_instr_def load_instr_Some [OF i])
qed

section \<open>The destructor\<close>

lemma delete_from_frees:
  assumes "linked (heap \<sigma>0) (p # xs @ [IL])" and "distinct xs" "IL \<notin> set xs" and "length xs < n"
    and "\<forall>x \<in> set xs. heap \<sigma> x = heap \<sigma>0 x"
  shows "delete_from n (hd (xs @ [IL])) \<sigma> = Inr (\<sigma>\<lparr>heap := heap \<sigma> |` (- set xs)\<rparr>)"
  using assms
proof (induction xs arbitrary: n p \<sigma>)
  case Nil
  then show ?case by (cases n) (simp_all add: restrict_map_def)
next
  case (Cons x xs)
  then obtain m where n: "n = Suc m" "length xs < m" by (cases n) auto
  have lk: "linked (heap \<sigma>0) (x # xs @ [IL])" using Cons.prems(1) by simp
  then have "next_of (heap \<sigma>0) x = Some (hd (xs @ [IL]))" by (cases xs) auto
  then obtain i where i: "heap \<sigma> x = Some i" "m_pNext i = hd (xs @ [IL])"
    using Cons.prems(5) by (auto simp: next_of_def)
  have "delete_from m (hd (xs @ [IL])) (\<sigma>\<lparr>heap := (heap \<sigma>)(x := None)\<rparr>) =
      Inr (\<sigma>\<lparr>heap := ((heap \<sigma>)(x := None)) |` (- set xs)\<rparr>)"
    using Cons.prems(2-) by (subst Cons.IH [OF lk _ _ n(2)]) auto
  moreover have "((heap \<sigma>)(x := None)) |` (- set xs) = heap \<sigma> |` (- set (x # xs))"
    by (rule ext) (auto simp: restrict_map_def)
  moreover have "x \<noteq> IL" using Cons.prems(3) by auto
  ultimately show ?case by (simp add: n load_instr_Some [OF i(1)] i(2))
qed

lemma delete_list:
  assumes "holds \<sigma> xs"
  shows "ILRewriter_delete \<sigma> = Inr (\<sigma>\<lparr>heap := heap \<sigma> |` (- set xs)\<rparr>)"
proof -
  note lk = linked_next [OF assms]
  obtain i where i: "heap \<sigma> IL = Some i" using holds_dom [OF assms, of IL] by auto
  have "next_of (heap \<sigma>) IL = Some (hd (xs @ [IL]))" using lk(1) by (cases xs) auto
  then have "m_pNext i = hd (xs @ [IL])" using i by (simp add: next_of_def)
  moreover have "delete_from (next_addr \<sigma>) (hd (xs @ [IL])) \<sigma> = Inr (\<sigma>\<lparr>heap := heap \<sigma> |` (- set xs)\<rparr>)"
    using lk holds_length [OF assms] by (intro delete_from_frees [of \<sigma> IL]) auto
  ultimately show ?thesis by (simp add: ILRewriter_delete_def load_instr_Some [OF i])
qed

text \<open>C16: the destructor deletes every instruction of the list exactly once and touches nothing
  else: it completes, and an instruction that was created but never inserted stays allocated.\<close>

theorem ILRewriter_delete_frees:
  assumes "holds \<sigma> xs"
  shows "ILRewriter_delete \<sigma> = Inr (\<sigma>\<lparr>heap := heap \<sigma> |` (- set xs)\<rparr>)"
  by (rule delete_list [OF assms])

theorem ILRewriter_delete_frees_witness:
  "dom (heap (projr (ILRewriter_delete (example_rewriter CEE_NOP)))) = {1, 3}"
  using ILRewriter_delete_frees [OF example_holds [of CEE_NOP]]
  by (auto simp: example_rewriter_def restrict_map_def dom_def split: if_splits)

section \<open>Appending an instruction\<close>

text \<open>What creating an instruction and inserting it does: the fresh address holds it, other
  instructions keep their contents, and the stack bound grows.\<close>

definition appended :: "ILRewriter \<Rightarrow> addr \<Rightarrow> OPCODE \<Rightarrow> ILArg \<Rightarrow> ILRewriter \<Rightarrow> bool" where
  "appended \<sigma> p op arg \<sigma>' \<longleftrightarrow> p = next_addr \<sigma> \<and>
     (\<exists>k. \<sigma>' = \<sigma>\<lparr>heap := heap \<sigma>', next_addr := next_addr \<sigma> + 1, m_nInstrs := m_nInstrs \<sigma> + 1,
            m_maxStack := m_maxStack \<sigma> + k\<rparr>) \<and>
     content_of (heap \<sigma>') = (content_of (heap \<sigma>))(p \<mapsto> (op, 0, arg))"

lemma content_of_upd: "content_of (h(p \<mapsto> i)) = (content_of h)(p \<mapsto> (m_opcode i, m_offset i, m_arg i))"
  by (rule ext) (simp add: content_of_def)

lemma content_of_Some:
  "content_of h p = Some (op, off, arg) \<longleftrightarrow>
     (\<exists>i. h p = Some i \<and> m_opcode i = op \<and> m_offset i = off \<and> m_arg i = arg)"
  by (auto simp: content_of_def)

text \<open>A write to an instruction that leaves its links alone.\<close>

lemma store_content:
  assumes "holds \<sigma> xs" "heap \<sigma> p = Some i" and "m_pNext (f i) = m_pNext i" "m_pPrev (f i) = m_pPrev i"
  shows "store_instr \<sigma> p f = Inr (\<sigma>\<lparr>heap := (heap \<sigma>)(p \<mapsto> f i)\<rparr>)" "holds (\<sigma>\<lparr>heap := (heap \<sigma>)(p \<mapsto> f i)\<rparr>) xs"
proof -
  show "store_instr \<sigma> p f = Inr (\<sigma>\<lparr>heap := (heap \<sigma>)(p \<mapsto> f i)\<rparr>)" using assms(2) by simp
  have nx: "next_of ((heap \<sigma>)(p \<mapsto> f i)) = next_of (heap \<sigma>)" "prev_of ((heap \<sigma>)(p \<mapsto> f i)) = prev_of (heap \<sigma>)"
    using assms(2-) by (auto simp: next_of_def prev_of_def)
  have "linked ((heap \<sigma>)(p \<mapsto> f i)) (IL # xs @ [IL]) = linked (heap \<sigma>) (IL # xs @ [IL])"
    by (rule linked_cong) (simp_all add: nx)
  moreover have "dom ((heap \<sigma>)(p \<mapsto> f i)) = dom (heap \<sigma>)" using assms(2) by auto
  ultimately show "holds (\<sigma>\<lparr>heap := (heap \<sigma>)(p \<mapsto> f i)\<rparr>) xs"
    using assms(1) by (simp add: holds_def dll_def)
qed


lemma NewILInstr_frame:
  assumes "NewILInstr \<sigma> = (p, \<sigma>1)"
  shows "\<sigma>1\<lparr>heap := h, m_maxStack := m_maxStack \<sigma>1 + k\<rparr> = \<sigma>\<lparr>heap := h,
    next_addr := next_addr \<sigma> + 1, m_nInstrs := m_nInstrs \<sigma> + 1, m_maxStack := m_maxStack \<sigma> + k\<rparr>"
  using assms by (auto simp: NewILInstr_def)

lemma append_refines:
  assumes h: "holds \<sigma> (as @ bs)" and op: "op < CEE_COUNT" and new: "NewILInstr \<sigma> = (p, \<sigma>1)"
  shows "\<exists>pi. store_instr \<sigma>1 p (\<lambda>i. i\<lparr>m_opcode := op\<rparr>) = Inr (\<sigma>1\<lparr>heap := (heap \<sigma>1)(p \<mapsto> pi)\<rparr>) \<and>
     (\<forall>arg. \<exists>\<sigma>'. InsertBefore (\<sigma>1\<lparr>heap := (heap \<sigma>1)(p \<mapsto> pi\<lparr>m_arg := arg\<rparr>)\<rparr>) (hd (bs @ [IL])) p = Inr \<sigma>' \<and>
       holds \<sigma>' (as @ p # bs) \<and> appended \<sigma> p op arg \<sigma>') \<and> m_arg pi = m_pTarget NULL"
proof -
  note n = NewILInstr_holds [OF h new]
  let ?z = "\<lparr>m_pNext = NULL, m_pPrev = NULL, m_opcode = 0, m_offset = 0, m_arg = m_pTarget NULL\<rparr>"
  let ?pi = "?z\<lparr>m_opcode := op\<rparr>"
  have p: "heap \<sigma>1 p = Some ?z" using n(4) by simp
  have "\<exists>\<sigma>'. InsertBefore (\<sigma>1\<lparr>heap := (heap \<sigma>1)(p \<mapsto> ?pi\<lparr>m_arg := arg\<rparr>)\<rparr>) (hd (bs @ [IL])) p = Inr \<sigma>' \<and>
       holds \<sigma>' (as @ p # bs) \<and> appended \<sigma> p op arg \<sigma>'" for arg
  proof -
    let ?s = "\<sigma>1\<lparr>heap := (heap \<sigma>1)(p \<mapsto> ?pi\<lparr>m_arg := arg\<rparr>)\<rparr>"
    have hs: "holds ?s (as @ bs)"
      using store_content(2) [OF n(1) p, of "\<lambda>i. i\<lparr>m_opcode := op, m_arg := arg\<rparr>"] by simp
    have ins: "insertable ?s (as @ bs) p" using n(2) op by (simp add: insertable_def)
    obtain \<sigma>' where s: "InsertBefore ?s (hd (bs @ [IL])) p = Inr \<sigma>'" "holds \<sigma>' (as @ p # bs)" "inserted ?s p \<sigma>'"
      using insert_refines [OF hs ins] by blast
    have "content_of (heap \<sigma>') = (content_of (heap \<sigma>))(p \<mapsto> (op, 0, arg))"
      using s(3) n(4) by (simp add: inserted_def content_of_upd)
    moreover have "\<sigma>' = ?s\<lparr>heap := heap \<sigma>', m_maxStack := m_maxStack ?s + pushes ?s p\<rparr>"
      using s(3) unfolding inserted_def by (elim conjE)
    then have "\<sigma>' = \<sigma>1\<lparr>heap := heap \<sigma>', m_maxStack := m_maxStack \<sigma>1 + pushes ?s p\<rparr>" by (rule trans) simp
    then have "\<sigma>' = \<sigma>\<lparr>heap := heap \<sigma>', next_addr := next_addr \<sigma> + 1, m_nInstrs := m_nInstrs \<sigma> + 1,
            m_maxStack := m_maxStack \<sigma> + pushes ?s p\<rparr>"
      by (rule trans) (rule NewILInstr_frame [OF new])
    ultimately have "appended \<sigma> p op arg \<sigma>'" unfolding appended_def using n(3) by blast
    with s(1,2) show ?thesis by blast
  qed
  moreover have "store_instr \<sigma>1 p (\<lambda>i. i\<lparr>m_opcode := op\<rparr>) = Inr (\<sigma>1\<lparr>heap := (heap \<sigma>1)(p \<mapsto> ?pi)\<rparr>)"
    using p by simp
  moreover have "m_arg ?pi = m_pTarget NULL" by simp
  ultimately show ?thesis by blast
qed

section \<open>The interface the emitters use\<close>

text \<open>
  What code that inserts instructions relies on: a state with a sequence, nodes that may be
  inserted, and an operation that puts such a node before a position and leaves the other nodes
  insertable.
\<close>

locale instr_sequence =
  fixes seq :: "'s \<Rightarrow> addr list \<Rightarrow> bool"
    and avail :: "'s \<Rightarrow> addr list \<Rightarrow> addr \<Rightarrow> bool"
    and insert_at :: "'s \<Rightarrow> addr \<Rightarrow> addr \<Rightarrow> 's outcome"
  assumes insert: "\<lbrakk>seq s (as @ bs); avail s (as @ bs) x\<rbrakk> \<Longrightarrow>
      \<exists>s'. insert_at s (hd (bs @ [IL])) x = Inr s' \<and> seq s' (as @ x # bs) \<and>
        (\<forall>y. y \<noteq> x \<longrightarrow> avail s (as @ bs) y \<longrightarrow> avail s' (as @ x # bs) y)"
begin

text \<open>Instructions inserted one after another before the same position stand there in order.\<close>

lemma insert_all:
  assumes "seq s (as @ bs)" and "distinct xs" and "\<forall>x \<in> set xs. avail s (as @ bs) x"
  shows "\<exists>s'. foldO (\<lambda>x s. insert_at s (hd (bs @ [IL])) x) xs s = Inr s' \<and> seq s' (as @ xs @ bs)"
  using assms
proof (induction xs arbitrary: s as)
  case (Cons x xs)
  then obtain s' where s': "insert_at s (hd (bs @ [IL])) x = Inr s'" "seq s' (as @ x # bs)"
    "\<forall>y. y \<noteq> x \<longrightarrow> avail s (as @ bs) y \<longrightarrow> avail s' (as @ x # bs) y"
    using insert [of s as bs x] by auto
  then have "\<forall>y \<in> set xs. avail s' ((as @ [x]) @ bs) y" using Cons.prems(2,3) by auto
  with Cons.IH [of s' "as @ [x]"] Cons.prems(2) s'(1,2) show ?case by auto
qed simp

end

interpretation before: instr_sequence holds insertable InsertBefore
proof
  fix s as bs x
  assume "holds s (as @ bs)" and x: "insertable s (as @ bs) x"
  then obtain s' where "InsertBefore s (hd (bs @ [IL])) x = Inr s'" "holds s' (as @ x # bs)"
    and ins: "inserted s x s'"
    using insert_refines by blast
  moreover have "insertable s' (as @ x # bs) y" if "y \<noteq> x" "insertable s (as @ bs) y" for y
    using ins that(2) by (rule insertable_inserted) (use that(1) in auto)
  ultimately show "\<exists>s'. InsertBefore s (hd (bs @ [IL])) x = Inr s' \<and> holds s' (as @ x # bs) \<and>
      (\<forall>y. y \<noteq> x \<longrightarrow> insertable s (as @ bs) y \<longrightarrow> insertable s' (as @ x # bs) y)"
    by blast
qed

text \<open>Instructions inserted one after another before the same position stand there in the order
  of their insertion, whatever the position.\<close>

theorem InsertBefore_all:
  assumes "holds \<sigma> (as @ bs)" and "distinct xs" and "\<forall>x \<in> set xs. insertable \<sigma> (as @ bs) x"
  shows "\<exists>\<sigma>'. foldO (\<lambda>x \<sigma>. InsertBefore \<sigma> (hd (bs @ [IL])) x) xs \<sigma> = Inr \<sigma>' \<and>
     holds \<sigma>' (as @ xs @ bs)"
  using assms by (rule before.insert_all)

theorem InsertBefore_all_witness:
  "\<exists>\<sigma>'. InsertBefore (example_rewriter CEE_NOP) IL 3 = Inr \<sigma>' \<and> holds \<sigma>' [2, 3]"
  using InsertBefore_all [of "example_rewriter CEE_NOP" "[2]" "[]" "[3]"]
  by (auto simp: example_holds example_insertable)

end
