(* ===== verification/ILExport.thy ===== *)
theory ILExport
  imports ILList ILMethod
begin

text \<open>
  \<open>ILRewriter::Export\<close> (\<^verbatim>\<open>rewriter/ILRewriter.cpp\<close>): the instructions are laid out into the output
  buffer, branches that do not fit a byte are widened and the layout repeated, and the code is
  wrapped into a tiny or a fat method body with its exception section.

  The profiler API is a parameter (\<open>rewriter_api\<close>): whether the IL allocator delivers memory,
  and what \<open>SetILFunctionBody\<close> answers to a body. \<open>api_uninit\<close> gives the bytes fresh memory
  happens to hold.
\<close>

unbundle bit_operations_syntax

section \<open>The profiler API\<close>

record rewriter_api =
  api_alloc :: "32 word \<Rightarrow> bool"
  api_SetILFunctionBody :: "BYTE list \<Rightarrow> HRESULT"
  api_uninit :: "nat \<Rightarrow> BYTE"

definition new_bytes :: "rewriter_api \<Rightarrow> 32 word \<Rightarrow> BYTE list" where
  "new_bytes api n = map (api_uninit api) [0..<unat n]"

section \<open>Laying out the code\<close>

text \<open>A store into \<open>m_pOutputBuffer\<close>.\<close>

definition write_out :: "ILRewriter \<Rightarrow> nat \<Rightarrow> BYTE list \<Rightarrow> ILRewriter outcome" where
  "write_out \<sigma> off bs =
     bindO (store_bytes (m_pOutputBuffer \<sigma>) off bs) (\<lambda>buf. Inr (\<sigma>\<lparr>m_pOutputBuffer := buf\<rparr>))"

text \<open>The opcode: two bytes, the first of them the prefix, for the second page of the table.\<close>

definition emit_opcode :: "ILRewriter \<Rightarrow> ULONG \<Rightarrow> OPCODE \<Rightarrow> (ULONG \<times> ILRewriter) outcome" where
  "emit_opcode \<sigma> off opcode =
     (if opcode < CEE_COUNT then
        bindO (if opcode \<ge> 0x100 then
                 bindO (write_out \<sigma> (unat off) [ucast CEE_PREFIX1]) (\<lambda>\<sigma>. Inr (off + 1, \<sigma>))
               else Inr (off, \<sigma>)) (\<lambda>(off, \<sigma>).
        bindO (write_out \<sigma> (unat off) [ucast (opcode AND 0xFF)]) (\<lambda>\<sigma>. Inr (off + 1, \<sigma>)))
      else Inr (off, \<sigma>))"

text \<open>One step of the first loop: (offset, \<open>fBranch\<close>).\<close>

definition emit_instr ::
  "addr \<Rightarrow> (ULONG \<times> bool) \<times> ILRewriter \<Rightarrow> ((ULONG \<times> bool) \<times> ILRewriter) outcome" where
  "emit_instr p = (\<lambda>((off, fBranch), \<sigma>).
     bindO (store_instr \<sigma> p (\<lambda>i. i\<lparr>m_offset := off\<rparr>)) (\<lambda>\<sigma>.
     bindO (load_instr \<sigma> p) (\<lambda>i.
     bindO (emit_opcode \<sigma> off (m_opcode i)) (\<lambda>(off, \<sigma>).
     bindO (OpCodeFlags (m_opcode i)) (\<lambda>flags.
     let off' = off + ucast (flags AND OPCODEFLAGS_SizeMask) in
       if flags = 1 then
         bindO (read_Arg8 i) (\<lambda>v. bindO (write_out \<sigma> (unat off) (put_le 1 v)) (\<lambda>\<sigma>.
           Inr ((off', fBranch), \<sigma>)))
       else if flags = 2 then
         bindO (read_Arg16 i) (\<lambda>v. bindO (write_out \<sigma> (unat off) (put_le 2 v)) (\<lambda>\<sigma>.
           Inr ((off', fBranch), \<sigma>)))
       else if flags = 4 then
         bindO (read_Arg32 i) (\<lambda>v. bindO (write_out \<sigma> (unat off) (put_le 4 v)) (\<lambda>\<sigma>.
           Inr ((off', fBranch), \<sigma>)))
       else if flags = 8 then
         bindO (read_Arg64 i) (\<lambda>v. bindO (write_out \<sigma> (unat off) (put_le 8 v)) (\<lambda>\<sigma>.
           Inr ((off', fBranch), \<sigma>)))
       else if flags = 1 OR OPCODEFLAGS_BranchTarget \<or> flags = 4 OR OPCODEFLAGS_BranchTarget then
         Inr ((off', True), \<sigma>)
       else if flags = 0 OR OPCODEFLAGS_Switch then
         bindO (read_Arg32 i) (\<lambda>v. bindO (write_out \<sigma> (unat off) (put_le 4 v)) (\<lambda>\<sigma>.
           Inr ((off' + 4, fBranch), \<sigma>)))
       else Inr ((off', fBranch), \<sigma>))))))"

section \<open>Resolving the branches\<close>

text \<open>\<open>pIL[off - k]\<close>, computed in the width of a pointer.\<close>

definition write_before :: "ILRewriter \<Rightarrow> ULONG \<Rightarrow> nat \<Rightarrow> BYTE list \<Rightarrow> ILRewriter outcome" where
  "write_before \<sigma> off k bs =
     (if unat off < k then Inl OutOfBounds else write_out \<sigma> (unat off - k) bs)"

text \<open>One step of the second loop: (\<open>fTryAgain\<close>, \<open>switchBase\<close>).\<close>

definition resolve_instr ::
  "addr \<Rightarrow> (bool \<times> ULONG) \<times> ILRewriter \<Rightarrow> ((bool \<times> ULONG) \<times> ILRewriter) outcome" where
  "resolve_instr p = (\<lambda>((again, switchBase), \<sigma>).
     bindO (load_instr \<sigma> p) (\<lambda>i.
     if m_opcode i = CEE_SWITCH then
       bindO (read_Arg32 i) (\<lambda>n. Inr ((again, m_offset i + 1 + 4 * (n + 1)), \<sigma>))
     else if m_opcode i = CEE_SWITCH_ARG then
       bindO (read_target i) (\<lambda>t. bindO (load_instr \<sigma> t) (\<lambda>ti.
       bindO (write_out \<sigma> (unat (m_offset i)) (put_le 4 (m_offset ti - switchBase))) (\<lambda>\<sigma>.
         Inr ((again, switchBase), \<sigma>))))
     else
       bindO (OpCodeFlags (m_opcode i)) (\<lambda>flags.
       if flags AND OPCODEFLAGS_BranchTarget \<noteq> 0 then
         bindO (read_target i) (\<lambda>t. bindO (load_instr \<sigma> t) (\<lambda>ti.
         bindO (load_instr \<sigma> (m_pNext i)) (\<lambda>ni.
         let delta = m_offset ti - m_offset ni in
         if flags = 1 OR OPCODEFLAGS_BranchTarget then
           (if scast (ucast delta :: INT8) \<noteq> delta then
              bindO (store_instr \<sigma> p (\<lambda>i. i\<lparr>m_opcode :=
                  (if m_opcode i = CEE_LEAVE_S then CEE_LEAVE else m_opcode i - CEE_BR_S + CEE_BR)\<rparr>))
                (\<lambda>\<sigma>. Inr ((True, switchBase), \<sigma>))
            else
              bindO (write_before \<sigma> (m_offset ni) 1 (put_le 1 delta)) (\<lambda>\<sigma>.
                Inr ((again, switchBase), \<sigma>)))
         else if flags = 4 OR OPCODEFLAGS_BranchTarget then
           bindO (write_before \<sigma> (m_offset ni) 4 (put_le 4 delta)) (\<lambda>\<sigma>.
             Inr ((again, switchBase), \<sigma>))
         else Inr ((again, switchBase), \<sigma>))))
       else Inr ((again, switchBase), \<sigma>))))"

text \<open>The loop \<open>again:\<close>, with the number of rounds bounded by the fuel. The result is the size of
  the code.\<close>

fun layout_code :: "nat \<Rightarrow> ILRewriter \<Rightarrow> (ULONG \<times> ILRewriter) outcome" where
  "layout_code 0 \<sigma> = Inl OutOfFuel"
| "layout_code (Suc n) \<sigma> =
     bindO (for_each_instr emit_instr ((0, False), \<sigma>)) (\<lambda>((off, fBranch), \<sigma>).
     bindO (store_instr \<sigma> IL (\<lambda>i. i\<lparr>m_offset := off\<rparr>)) (\<lambda>\<sigma>.
       if fBranch then
         bindO (for_each_instr resolve_instr ((False, 0), \<sigma>)) (\<lambda>((again, _), \<sigma>).
           if again then layout_code n \<sigma> else Inr (off, \<sigma>))
       else Inr (off, \<sigma>)))"

section \<open>The method body\<close>

definition tiny_body :: "rewriter_api \<Rightarrow> ILRewriter \<Rightarrow> ULONG \<Rightarrow> BYTE list outcome" where
  "tiny_body api \<sigma> codeSize =
     (if length (m_pOutputBuffer \<sigma>) < unat codeSize then Inl OutOfBounds
      else
        bindO (store_bytes (new_bytes api (1 + codeSize)) 0
          [ucast (CorILMethod_TinyFormat OR push_bit 2 codeSize)]) (\<lambda>body.
        store_bytes body 1 (take (unat codeSize) (m_pOutputBuffer \<sigma>))))"

definition export_clause :: "ILRewriter \<Rightarrow> EHClause \<Rightarrow> EH_CLAUSE_FAT outcome" where
  "export_clause \<sigma> c =
     bindO (load_instr \<sigma> (m_pTryBegin c)) (\<lambda>tb.
     bindO (load_instr \<sigma> (m_pTryEnd c)) (\<lambda>te.
     bindO (load_instr \<sigma> (m_pHandlerBegin c)) (\<lambda>hb.
     bindO (load_instr \<sigma> (m_pHandlerEnd c)) (\<lambda>he.
     bindO (load_instr \<sigma> (m_pNext he)) (\<lambda>hn.
     bindO (if m_Flags c AND COR_ILEXCEPTION_CLAUSE_FILTER = 0 then
              (case m_eharg c of m_ClassToken t \<Rightarrow> Inr t | _ \<Rightarrow> Inl InactiveMember)
            else
              (case m_eharg c of
                 m_pFilter f \<Rightarrow> bindO (load_instr \<sigma> f) (\<lambda>fi. Inr (m_offset fi))
               | _ \<Rightarrow> Inl InactiveMember)) (\<lambda>tok.
       Inr \<lparr>cf_Flags = m_Flags c, cf_TryOffset = m_offset tb,
            cf_TryLength = m_offset te - m_offset tb, cf_HandlerOffset = m_offset hb,
            cf_HandlerLength = m_offset hn - m_offset hb, cf_ClassToken = tok\<rparr>))))))"

fun export_clauses :: "ILRewriter \<Rightarrow> nat \<Rightarrow> nat \<Rightarrow> nat \<Rightarrow> BYTE list \<Rightarrow> BYTE list outcome" where
  "export_clauses \<sigma> 0 iEH pos body = Inr body"
| "export_clauses \<sigma> (Suc n) iEH pos body =
     (if iEH < length (m_pEH \<sigma>) then
        bindO (export_clause \<sigma> (m_pEH \<sigma> ! iEH)) (\<lambda>c.
        bindO (store_bytes body pos (fat_clause_bytes c)) (\<lambda>body.
          export_clauses \<sigma> n (Suc iEH) (pos + 24) body))
      else Inl OutOfBounds)"

definition fat_totalSize :: "ILRewriter \<Rightarrow> ULONG \<Rightarrow> 32 word" where
  "fat_totalSize \<sigma> codeSize =
     12 + ((codeSize + 3) AND NOT 3) + (if m_nEH \<sigma> \<noteq> 0 then 4 + 24 * m_nEH \<sigma> else 0)"

definition fat_body :: "rewriter_api \<Rightarrow> ILRewriter \<Rightarrow> ULONG \<Rightarrow> BYTE list outcome" where
  "fat_body api \<sigma> codeSize =
     (let alignedCodeSize = (codeSize + 3) AND NOT 3;
          header = \<lparr>fh_Flags = ucast (m_flags \<sigma> OR (if m_nEH \<sigma> \<noteq> 0 then CorILMethod_MoreSects else 0)
                       OR CorILMethod_FatFormat),
                    fh_Size = 3, fh_MaxStack = ucast (m_maxStack \<sigma>), fh_CodeSize = codeSize,
                    fh_LocalVarSigTok = m_tkLocalVarSig \<sigma>\<rparr>;
          pos = 12 + unat alignedCodeSize in
      if length (m_pOutputBuffer \<sigma>) < unat codeSize then Inl OutOfBounds
      else
        bindO (store_bytes (new_bytes api (fat_totalSize \<sigma> codeSize)) 0 (fat_header_bytes header)) (\<lambda>body.
        bindO (store_bytes body 12 (take (unat codeSize) (m_pOutputBuffer \<sigma>))) (\<lambda>body.
          if m_nEH \<sigma> \<noteq> 0 then
            bindO (store_bytes body pos
              ([CorILMethod_Sect_EHTable OR CorILMethod_Sect_FatFormat] @
               put_le 3 (4 + 24 * m_nEH \<sigma>))) (\<lambda>body.
            export_clauses \<sigma> (unat (m_nEH \<sigma>)) 0 (pos + 4) body)
          else Inr body)))"

text \<open>\<open>AllocateILMemory\<close>: for a rejit the heap, which never answers null; else the runtime's
  allocator.\<close>

definition AllocateILMemory :: "rewriter_api \<Rightarrow> ILRewriter \<Rightarrow> 32 word \<Rightarrow> bool" where
  "AllocateILMemory api \<sigma> n \<longleftrightarrow> m_fRejit \<sigma> \<or> api_alloc api n"

text \<open>\<open>Export\<close>: (HRESULT, the body handed to \<open>SetILFunctionBody\<close> if it got that far, the
  rewriter).\<close>

definition Export ::
  "rewriter_api \<Rightarrow> ILRewriter \<Rightarrow> (HRESULT \<times> BYTE list option \<times> ILRewriter) outcome" where
  "Export api \<sigma> =
     (let maxSize = m_nInstrs \<sigma> * 10;
          \<sigma> = \<sigma>\<lparr>m_pOutputBuffer := new_bytes api maxSize\<rparr> in
      bindO (layout_code (next_addr \<sigma>) \<sigma>) (\<lambda>(codeSize, \<sigma>).
        if m_fGenerateTinyHeader \<sigma> then
          if codeSize \<ge> 64 then Inr (E_FAIL, None, \<sigma>)
          else if \<not> AllocateILMemory api \<sigma> (1 + codeSize) then Inr (E_OUTOFMEMORY, None, \<sigma>)
          else bindO (tiny_body api \<sigma> codeSize) (\<lambda>body.
                 Inr (if FAILED (api_SetILFunctionBody api body) then api_SetILFunctionBody api body
                      else S_OK, Some body, \<sigma>))
        else
          if \<not> AllocateILMemory api \<sigma> (fat_totalSize \<sigma> codeSize) then Inr (E_OUTOFMEMORY, None, \<sigma>)
          else bindO (fat_body api \<sigma> codeSize) (\<lambda>body.
                 Inr (if FAILED (api_SetILFunctionBody api body) then api_SetILFunctionBody api body
                      else S_OK, Some body, \<sigma>))))"

end
