(* ===== verification/ILLayout.thy ===== *)
theory ILLayout
  imports ILExport
begin

text \<open>
  The layout loop of \<open>ILRewriter::Export\<close> is correct: what one pass of each of its two loops does to
  the instructions and the buffer, and that the rounds end with every instruction encoded at its
  offset and every branch reaching its target.
\<close>

unbundle bit_operations_syntax

section \<open>Instructions and their bytes\<close>

lemma store_bytes_append:
  "store_bytes buf n (a @ c) = bindO (store_bytes buf n a) (\<lambda>b. store_bytes b (n + length a) c)"
  by (auto simp: store_bytes_def algebra_simps)

definition flags_of :: "OPCODE \<Rightarrow> BYTE" where
  "flags_of op = (case OpCodeFlags op of Inl _ \<Rightarrow> 0 | Inr f \<Rightarrow> f)"

definition opcode_bytes :: "OPCODE \<Rightarrow> BYTE list" where
  "opcode_bytes op = (if op \<ge> 0x100 then [0xFE, ucast op] else [ucast op])"

fun operand_bytes :: "ILArg \<Rightarrow> BYTE list" where
  "operand_bytes (m_Arg8 v) = put_le 1 v"
| "operand_bytes (m_Arg16 v) = put_le 2 v"
| "operand_bytes (m_Arg32 v) = put_le 4 v"
| "operand_bytes (m_Arg64 v) = put_le 8 v"
| "operand_bytes (m_pTarget t) = []"

definition arg_fits :: "BYTE \<Rightarrow> ILArg \<Rightarrow> bool" where
  "arg_fits f a \<longleftrightarrow> f = 0 \<or> (case a of m_Arg8 _ \<Rightarrow> f = 1 | m_Arg16 _ \<Rightarrow> f = 2
     | m_Arg32 _ \<Rightarrow> f = 4 \<or> f = 0x20 | m_Arg64 _ \<Rightarrow> f = 8 | m_pTarget _ \<Rightarrow> f = 0x11 \<or> f = 0x14)"

definition is_branch :: "OPCODE \<Rightarrow> bool" where
  "is_branch op \<longleftrightarrow> flags_of op = 0x11 \<or> flags_of op = 0x14"

definition typed_instr :: "ILInstr \<Rightarrow> bool" where
  "typed_instr i \<longleftrightarrow> m_opcode i < CEE_COUNT \<and> arg_fits (flags_of (m_opcode i)) (m_arg i)"

definition head_bytes :: "ILInstr \<Rightarrow> BYTE list" where
  "head_bytes i =
     (if flags_of (m_opcode i) = 0 \<or> is_branch (m_opcode i) then opcode_bytes (m_opcode i)
      else opcode_bytes (m_opcode i) @ operand_bytes (m_arg i))"

definition operand_size :: "BYTE \<Rightarrow> nat" where
  "operand_size f = (if f = 0x20 then 4 else unat (f AND OPCODEFLAGS_SizeMask))"

definition instr_size :: "OPCODE \<Rightarrow> nat" where
  "instr_size op = length (opcode_bytes op) + operand_size (flags_of op)"

lemma flags_of_cases:
  obtains "flags_of op = 0" | "flags_of op = 1" | "flags_of op = 2" | "flags_of op = 4"
  | "flags_of op = 8" | "flags_of op = 0x11" | "flags_of op = 0x14" | "flags_of op = 0x20"
proof (cases "OpCodeFlags op")
  case (Inr f)
  then have "flags_of op = f" by (simp add: flags_of_def)
  with OpCodeFlags_cases [OF Inr] that show ?thesis by blast
qed (use that(1) in \<open>simp add: flags_of_def\<close>)

lemma OpCodeFlags_flags_of: "op < CEE_COUNT \<Longrightarrow> OpCodeFlags op = Inr (flags_of op)"
  using OpCodeFlags_below [of op] by (cases "OpCodeFlags op") (auto simp: flags_of_def)

lemma operand_size_simps:
  "operand_size 0 = 0" "operand_size 1 = 1" "operand_size 2 = 2" "operand_size 4 = 4"
  "operand_size 8 = 8" "operand_size 0x11 = 1" "operand_size 0x14 = 4" "operand_size 0x20 = 4"
  by code_simp+

lemma instr_size_bounds: "1 \<le> instr_size op" "instr_size op \<le> 10"
  by (cases rule: flags_of_cases [of op]; simp add: instr_size_def opcode_bytes_def operand_size_simps)+

lemma ucast_mask_8: "(ucast (op AND 0xFF) :: BYTE) = ucast (op :: 32 word)"
  by (intro bit_word_eqI) (simp add: wbits)

lemma store_bytes_2:
  "store_bytes buf n [a, c] = bindO (store_bytes buf n [a]) (\<lambda>b. store_bytes b (n + 1) [c])"
  using store_bytes_append [of buf n "[a]" "[c]"] by simp

lemma write_out_append:
  "write_out \<sigma> n (a @ c) = bindO (write_out \<sigma> n a) (\<lambda>\<sigma>. write_out \<sigma> (n + length a) c)"
  by (simp add: write_out_def store_bytes_append bindO_assoc)

lemma emit_opcode_eq:
  assumes "op < CEE_COUNT" "unat off + 2 < 2 ^ 32"
  shows "emit_opcode \<sigma> off op =
    bindO (write_out \<sigma> (unat off) (opcode_bytes op)) (\<lambda>\<sigma>.
      Inr (off + word_of_nat (length (opcode_bytes op)), \<sigma>))"
proof -
  have off: "unat (off + 1) = unat off + 1"
    using assms(2) by (subst unat_add_lem [THEN iffD1]) simp_all
  have "opcode_bytes op = [0xFE] @ [ucast op]" if "op \<ge> 0x100" using that by (simp add: opcode_bytes_def)
  then show ?thesis
    using assms(1) off
    by (cases "op \<ge> 0x100") (simp_all add: emit_opcode_def write_out_append [of _ _ "[0xFE]" "[_]", simplified]
        ucast_mask_8 opcode_bytes_def bindO_assoc add.commute [of off])
qed

lemma unat_add_32: "unat a + k < 2 ^ 32 \<Longrightarrow> unat (a + word_of_nat k :: 32 word) = unat a + k"
  by (subst unat_add_lem [THEN iffD1]) (simp_all add: unat_of_nat_32)

lemma emit_instr_eq:
  assumes i: "heap \<sigma> p = Some i" and "typed_instr i"
    and "unat off + instr_size (m_opcode i) + 2 < 2 ^ 32"
  shows "emit_instr p ((off, fb), \<sigma>) =
    bindO (write_out (\<sigma>\<lparr>heap := (heap \<sigma>)(p \<mapsto> i\<lparr>m_offset := off\<rparr>)\<rparr>) (unat off) (head_bytes i)) (\<lambda>\<sigma>.
      Inr ((off + word_of_nat (instr_size (m_opcode i)), fb \<or> is_branch (m_opcode i)), \<sigma>))"
proof -
  have op: "m_opcode i < CEE_COUNT" and fits: "arg_fits (flags_of (m_opcode i)) (m_arg i)"
    using assms(2) by (simp_all add: typed_instr_def)
  let ?n = "length (opcode_bytes (m_opcode i))"
  have off: "unat (off + word_of_nat ?n) = unat off + ?n"
    using assms(3) by (intro unat_add_32) (simp add: instr_size_def)
  have "unat off + 2 < 2 ^ 32" using assms(3) by simp
  note em = emit_opcode_eq [OF op this]
  let ?\<sigma> = "\<sigma>\<lparr>heap := (heap \<sigma>)(p \<mapsto> i\<lparr>m_offset := off\<rparr>)\<rparr>"
  show ?thesis
    by (insert fits off, cases rule: flags_of_cases [of "m_opcode i"]; auto simp: emit_instr_def store_instr_Some [OF i] load_instr_def em OpCodeFlags_flags_of [OF op] bindO_assoc
      head_bytes_def write_out_append instr_size_def is_branch_def arg_fits_def OPCODEFLAGS_BranchTarget_def
      OPCODEFLAGS_Switch_def OPCODEFLAGS_SizeMask_def operand_size_def Let_def
      split: ILArg.splits; simp add: ac_simps)
qed

section \<open>The first loop\<close>

definition size_at :: "(addr \<Rightarrow> ILInstr option) \<Rightarrow> addr \<Rightarrow> nat" where
  "size_at h p = instr_size (m_opcode (the (h p)))"

definition typed_at :: "(addr \<Rightarrow> ILInstr option) \<Rightarrow> addr \<Rightarrow> bool" where
  "typed_at h p \<longleftrightarrow> h p \<noteq> None \<and> typed_instr (the (h p))"

definition branch_at :: "(addr \<Rightarrow> ILInstr option) \<Rightarrow> addr \<Rightarrow> bool" where
  "branch_at h p \<longleftrightarrow> is_branch (m_opcode (the (h p)))"

fun layout :: "(addr \<Rightarrow> ILInstr option) \<Rightarrow> nat \<Rightarrow> addr list \<Rightarrow> addr \<Rightarrow> ILInstr option" where
  "layout h n [] = h"
| "layout h n (y # ys) = layout (h(y \<mapsto> (the (h y))\<lparr>m_offset := word_of_nat n\<rparr>)) (n + size_at h y) ys"

definition code_total :: "(addr \<Rightarrow> ILInstr option) \<Rightarrow> addr list \<Rightarrow> nat" where
  "code_total h ys = sum_list (map (size_at h) ys)"

lemma code_total_simps [simp]: "code_total h [] = 0" "code_total h (y # ys) = size_at h y + code_total h ys"
  by (simp_all add: code_total_def)

lemma code_total_append [simp]: "code_total h (xs @ ys) = code_total h xs + code_total h ys"
  by (simp add: code_total_def)

lemma code_total_cong: "(\<And>y. y \<in> set ys \<Longrightarrow> m_opcode (the (h' y)) = m_opcode (the (h y))) \<Longrightarrow> code_total h' ys = code_total h ys"
  by (auto simp: code_total_def size_at_def intro!: arg_cong [where f = sum_list])

lemma code_total_le: "code_total h ys \<le> 10 * length ys"
  using instr_size_bounds(2) by (induction ys) (auto simp: size_at_def add_mono)

lemma layout_other: "p \<notin> set ys \<Longrightarrow> layout h n ys p = h p"
  by (induction h n ys rule: layout.induct) auto

lemma layout_nth:
  assumes "distinct ys" "k < length ys"
  shows "layout h n ys (ys ! k) = Some ((the (h (ys ! k)))\<lparr>m_offset := word_of_nat (n + code_total h (take k ys))\<rparr>)"
  using assms
proof (induction h n ys arbitrary: k rule: layout.induct)
  case (2 h n y ys)
  let ?h = "h(y \<mapsto> (the (h y))\<lparr>m_offset := word_of_nat n\<rparr>)"
  show ?case
  proof (cases k)
    case 0
    then show ?thesis using 2(2) by (simp add: layout_other)
  next
    case (Suc j)
    have "code_total ?h (take j ys) = code_total h (take j ys)" by (rule code_total_cong) auto
    moreover have "ys ! j \<noteq> y" using 2(2,3) Suc by auto
    moreover have "layout ?h (n + size_at h y) ys (ys ! j) = Some ((the (?h (ys ! j)))
        \<lparr>m_offset := word_of_nat (n + size_at h y + code_total ?h (take j ys))\<rparr>)"
      using 2(2,3) Suc by (intro 2(1)) auto
    ultimately show ?thesis using Suc by (simp add: add.assoc)
  qed
qed simp

text \<open>The bytes of an instruction stand at its offset, the operands of branches apart.\<close>

definition slot :: "BYTE list \<Rightarrow> ILInstr \<Rightarrow> bool" where
  "slot buf i \<longleftrightarrow> unat (m_offset i) + instr_size (m_opcode i) \<le> length buf \<and>
     take (length (head_bytes i)) (drop (unat (m_offset i)) buf) = head_bytes i"

lemma length_head_bytes:
  assumes "typed_instr i"
  shows "length (head_bytes i) \<le> instr_size (m_opcode i)"
  using assms by (cases rule: flags_of_cases [of "m_opcode i"])
    (auto simp: head_bytes_def instr_size_def typed_instr_def arg_fits_def is_branch_def
      operand_size_simps split: ILArg.splits)

lemma slot_take:
  assumes "slot buf i" "typed_instr i" and "take n buf' = take n buf"
    and "unat (m_offset i) + instr_size (m_opcode i) \<le> n" "length buf' = length buf"
  shows "slot buf' i"
proof -
  let ?o = "unat (m_offset i)" and ?k = "length (head_bytes i)"
  have "take ?k (drop ?o buf') = drop ?o (take (?o + ?k) buf')" by (simp add: take_drop add.commute)
  also have "take (?o + ?k) buf' = take (?o + ?k) (take n buf')"
    using assms(4) length_head_bytes [OF assms(2)] by simp
  also have "\<dots> = take (?o + ?k) buf"
    using assms(4) length_head_bytes [OF assms(2)] by (simp add: assms(3))
  also have "drop ?o (take (?o + ?k) buf) = take ?k (drop ?o buf)" by (simp add: take_drop add.commute)
  finally show ?thesis using assms(1,5) by (simp add: slot_def)
qed

lemma emit_loop:
  assumes "distinct ys" "\<forall>y \<in> set ys. typed_at (heap \<sigma>) y"
    and "n + code_total (heap \<sigma>) ys \<le> length (m_pOutputBuffer \<sigma>)" "length (m_pOutputBuffer \<sigma>) + 2 < 2 ^ 32"
  shows "\<exists>buf. foldO emit_instr ys ((word_of_nat n, fb), \<sigma>) =
      Inr ((word_of_nat (n + code_total (heap \<sigma>) ys), fb \<or> list_ex (branch_at (heap \<sigma>)) ys),
           \<sigma>\<lparr>heap := layout (heap \<sigma>) n ys, m_pOutputBuffer := buf\<rparr>) \<and>
    length buf = length (m_pOutputBuffer \<sigma>) \<and> take n buf = take n (m_pOutputBuffer \<sigma>) \<and>
    (\<forall>y \<in> set ys. slot buf (the (layout (heap \<sigma>) n ys y)))"
  using assms
proof (induction ys arbitrary: n fb \<sigma>)
  case Nil
  show ?case by (intro exI [of _ "m_pOutputBuffer \<sigma>"]) (cases \<sigma>; simp)
next
  case (Cons y ys)
  obtain i where i: "heap \<sigma> y = Some i" "typed_instr i"
    using Cons.prems(2) by (auto simp: typed_at_def)
  let ?i = "i\<lparr>m_offset := word_of_nat n\<rparr>" and ?sz = "instr_size (m_opcode i)"
  let ?buf = "m_pOutputBuffer \<sigma>"
  let ?b = "take n ?buf @ head_bytes i @ drop (n + length (head_bytes i)) ?buf"
  let ?\<sigma> = "\<sigma>\<lparr>heap := (heap \<sigma>)(y \<mapsto> ?i), m_pOutputBuffer := ?b\<rparr>"
  have sz: "size_at (heap \<sigma>) y = ?sz" by (simp add: size_at_def i)
  have n: "unat (word_of_nat n :: 32 word) = n" using Cons.prems(3,4) by (intro unat_of_nat_32) simp
  have le: "n + ?sz \<le> length ?buf" "length (head_bytes i) \<le> ?sz"
    using Cons.prems(3) sz length_head_bytes [OF i(2)] by simp_all
  have st: "emit_instr y ((word_of_nat n, fb), \<sigma>) =
      Inr ((word_of_nat (n + ?sz), fb \<or> is_branch (m_opcode i)), ?\<sigma>)"
    using le Cons.prems(4) by (subst emit_instr_eq [OF i]) (simp_all add: n write_out_def store_bytes_def)
  have ops: "m_opcode (the (heap ?\<sigma> p)) = m_opcode (the (heap \<sigma> p))" for p by (simp add: i)
  have tot: "code_total (heap ?\<sigma>) ys = code_total (heap \<sigma>) ys" by (rule code_total_cong) (rule ops)
  have len: "length ?b = length ?buf" using le by simp
  have "\<exists>buf. foldO emit_instr ys ((word_of_nat (n + ?sz), fb \<or> is_branch (m_opcode i)), ?\<sigma>) =
      Inr ((word_of_nat (n + ?sz + code_total (heap ?\<sigma>) ys),
            (fb \<or> is_branch (m_opcode i)) \<or> list_ex (branch_at (heap ?\<sigma>)) ys),
           ?\<sigma>\<lparr>heap := layout (heap ?\<sigma>) (n + ?sz) ys, m_pOutputBuffer := buf\<rparr>) \<and>
    length buf = length (m_pOutputBuffer ?\<sigma>) \<and> take (n + ?sz) buf = take (n + ?sz) (m_pOutputBuffer ?\<sigma>) \<and>
    (\<forall>y \<in> set ys. slot buf (the (layout (heap ?\<sigma>) (n + ?sz) ys y)))"
  proof (rule Cons.IH)
    show "n + ?sz + code_total (heap ?\<sigma>) ys \<le> length (m_pOutputBuffer ?\<sigma>)"
      using Cons.prems(3) sz tot len by simp
    show "length (m_pOutputBuffer ?\<sigma>) + 2 < 2 ^ 32" using Cons.prems(4) len by simp
    show "\<forall>y \<in> set ys. typed_at (heap ?\<sigma>) y" using Cons.prems(1,2) by (auto simp: typed_at_def)
    show "distinct ys" using Cons.prems(1) by simp
  qed
  then obtain buf where buf: "foldO emit_instr ys ((word_of_nat (n + ?sz), fb \<or> is_branch (m_opcode i)), ?\<sigma>) =
      Inr ((word_of_nat (n + ?sz + code_total (heap \<sigma>) ys),
            (fb \<or> is_branch (m_opcode i)) \<or> list_ex (branch_at (heap ?\<sigma>)) ys),
           ?\<sigma>\<lparr>heap := layout (heap ?\<sigma>) (n + ?sz) ys, m_pOutputBuffer := buf\<rparr>)"
    "length buf = length (m_pOutputBuffer ?\<sigma>)" "take (n + ?sz) buf = take (n + ?sz) (m_pOutputBuffer ?\<sigma>)"
    "\<forall>y \<in> set ys. slot buf (the (layout (heap ?\<sigma>) (n + ?sz) ys y))"
    unfolding tot by (elim exE conjE) (rule that)
  have buf2: "length buf = length ?buf" "take (n + ?sz) buf = take (n + ?sz) ?b"
    using buf(2,3) len by simp_all
  have lay: "layout (heap ?\<sigma>) (n + ?sz) ys = layout (heap \<sigma>) n (y # ys)" by (simp add: i sz)
  have hb: "head_bytes ?i = head_bytes i" by (simp add: head_bytes_def)
  have "slot ?b ?i" using le n by (simp add: slot_def hb)
  moreover have "typed_instr ?i" using i(2) by (simp add: typed_instr_def)
  moreover have "unat (m_offset ?i) + instr_size (m_opcode ?i) \<le> n + ?sz" using n by simp
  ultimately have "slot buf ?i" using slot_take [of ?b ?i "n + ?sz" buf] buf2 len by metis
  then have slots: "\<forall>p \<in> set (y # ys). slot buf (the (layout (heap \<sigma>) n (y # ys) p))"
    using buf(4) layout_nth [of "y # ys" 0 "heap \<sigma>" n] Cons.prems(1) unfolding lay by (simp add: i)
  have pre: "take n buf = take n ?buf"
  proof -
    have "take n buf = take n (take (n + ?sz) buf)" by simp
    also have "\<dots> = take n ?buf" using le by (simp add: buf2(2))
    finally show ?thesis .
  qed
  have br: "branch_at (heap ?\<sigma>) = branch_at (heap \<sigma>)"
    by (rule ext) (simp only: branch_at_def ops)
  have "branch_at (heap \<sigma>) y = is_branch (m_opcode i)" by (simp add: branch_at_def i)
  then have "foldO emit_instr (y # ys) ((word_of_nat n, fb), \<sigma>) =
      Inr ((word_of_nat (n + code_total (heap \<sigma>) (y # ys)), fb \<or> list_ex (branch_at (heap \<sigma>)) (y # ys)),
        \<sigma>\<lparr>heap := layout (heap \<sigma>) n (y # ys), m_pOutputBuffer := buf\<rparr>)"
    unfolding foldO.simps st bindO_simps buf(1) lay br code_total_simps sz
    by (simp add: add.assoc disj_assoc)
  with slots pre buf2(1) show ?case by blast
qed

section \<open>The second loop\<close>

definition widen :: "OPCODE \<Rightarrow> OPCODE" where
  "widen op = (if op = CEE_LEAVE_S then CEE_LEAVE else op - CEE_BR_S + CEE_BR)"

definition short_at :: "(addr \<Rightarrow> ILInstr option) \<Rightarrow> addr \<Rightarrow> bool" where
  "short_at h p \<longleftrightarrow> flags_of (m_opcode (the (h p))) = 0x11"

lemma flags_widen:
  assumes "flags_of op = 0x11" "op < CEE_COUNT"
  shows "flags_of (widen op) = 0x14" "widen op < CEE_COUNT"
proof -
  have "OpCodeFlags op = Inr 0x11" using OpCodeFlags_flags_of [OF assms(2)] assms(1) by simp
  then have "OpCodeFlags (widen op) = Inr 0x14 \<and> widen op < CEE_COUNT"
  proof (cases rule: short_branch_cases)
    case 1
    then show ?thesis by (simp add: widen_def CEE_COUNT_def)
  next
    case 2
    then have "op \<noteq> CEE_LEAVE_S" by auto
    moreover have "op - CEE_BR_S + CEE_BR < CEE_COUNT"
    proof -
      have "unat (13 + op) \<le> 0x44"
        using 2(1,2) by (subst unat_add_lem [THEN iffD1]) (simp_all add: word_le_nat_alt)
      then show ?thesis by (simp add: CEE_COUNT_def word_less_nat_alt)
    qed
    ultimately show ?thesis using 2 by (simp add: widen_def)
  qed
  then show "flags_of (widen op) = 0x14" "widen op < CEE_COUNT" by (simp_all add: flags_of_def)
qed

definition target_of :: "ILInstr \<Rightarrow> addr" where
  "target_of i = (case m_arg i of m_pTarget t \<Rightarrow> t | _ \<Rightarrow> NULL)"

definition offset_at :: "(addr \<Rightarrow> ILInstr option) \<Rightarrow> addr \<Rightarrow> ULONG" where
  "offset_at h p = m_offset (the (h p))"

text \<open>The distance of a branch: from the end of the branch to its target.\<close>

definition branch_delta :: "(addr \<Rightarrow> ILInstr option) \<Rightarrow> ILInstr \<Rightarrow> 32 word" where
  "branch_delta h i = offset_at h (target_of i) - offset_at h (m_pNext i)"

text \<open>The encoding of an instruction, its branch operand included.\<close>

definition encoding :: "(addr \<Rightarrow> ILInstr option) \<Rightarrow> ILInstr \<Rightarrow> BYTE list" where
  "encoding h i =
     (if is_branch (m_opcode i)
      then opcode_bytes (m_opcode i) @ put_le (operand_size (flags_of (m_opcode i))) (branch_delta h i)
      else head_bytes i)"

lemma length_encoding:
  assumes "typed_instr i"
  shows "length (encoding h i) = instr_size (m_opcode i)"
  using assms by (cases rule: flags_of_cases [of "m_opcode i"])
    (auto simp: encoding_def head_bytes_def instr_size_def typed_instr_def arg_fits_def is_branch_def
      operand_size_simps split: ILArg.splits)

definition laid :: "(addr \<Rightarrow> ILInstr option) \<Rightarrow> addr list \<Rightarrow> bool" where
  "laid h xs \<longleftrightarrow> (\<forall>k < length xs. unat (offset_at h (xs ! k)) = code_total h (take k xs)) \<and>
     unat (offset_at h IL) = code_total h xs"

text \<open>A list of instructions that can be exported: opcodes of the table, unions that match their
  opcodes, branches to instructions of the list or to its end.\<close>

definition exportable :: "(addr \<Rightarrow> ILInstr option) \<Rightarrow> addr list \<Rightarrow> bool" where
  "exportable h xs \<longleftrightarrow> (\<forall>y \<in> set xs. typed_at h y \<and>
     (branch_at h y \<longrightarrow> target_of (the (h y)) \<in> set (IL # xs)))"

definition encoded :: "(addr \<Rightarrow> ILInstr option) \<Rightarrow> BYTE list \<Rightarrow> addr \<Rightarrow> bool" where
  "encoded h buf y \<longleftrightarrow>
     take (size_at h y) (drop (unat (offset_at h y)) buf) = encoding h (the (h y)) \<and>
     (short_at h y \<longrightarrow> scast (ucast (branch_delta h (the (h y))) :: INT8) = branch_delta h (the (h y)))"

lemma next_at:
  assumes "linked h (IL # xs @ [IL])" "k < length xs"
  shows "m_pNext (the (h (xs ! k))) = (xs @ [IL]) ! Suc k"
proof -
  have eq: "IL # xs @ [IL] = (IL # take k xs) @ xs ! k # (drop (Suc k) xs @ [IL])"
    using assms(2) by (simp add: id_take_nth_drop [symmetric])
  have hd: "drop (Suc k) xs @ [IL] = (xs @ [IL]) ! Suc k # tl (drop (Suc k) xs @ [IL])"
    using assms(2) by (cases "Suc k < length xs") (simp_all add: nth_append hd_drop_conv_nth Cons_nth_drop_Suc [symmetric] drop_all)
  have "linked h ((IL # take k xs) @ xs ! k # (xs @ [IL]) ! Suc k # tl (drop (Suc k) xs @ [IL]))"
    using assms(1) unfolding eq by (subst (asm) hd) simp
  from linked_dom(1) [OF this] show ?thesis by (auto simp: next_of_def)
qed

lemma offset_next:
  assumes "laid h xs" "k < length xs"
  shows "unat (offset_at h ((xs @ [IL]) ! Suc k)) = code_total h (take (Suc k) xs)"
  using assms by (cases "Suc k < length xs") (simp_all add: laid_def nth_append)

lemma code_total_take_Suc: "k < length xs \<Longrightarrow> code_total h (take (Suc k) xs) = code_total h (take k xs) + size_at h (xs ! k)"
  by (simp add: take_Suc_conv_app_nth)

lemma code_total_take_mono: "j \<le> k \<Longrightarrow> code_total h (take j xs) \<le> code_total h (take k xs)"
proof -
  assume "j \<le> k"
  then have "take k xs = take j xs @ take (k - j) (drop j xs)"
    by (metis le_add_diff_inverse take_add)
  then show ?thesis by simp
qed

lemma store_disjoint:
  assumes "store_bytes buf off bs = Inr buf'" and "a + n \<le> off \<or> off + length bs \<le> a"
  shows "take n (drop a buf') = take n (drop a buf)"
proof (rule nth_equalityI)
  show "length (take n (drop a buf')) = length (take n (drop a buf))"
    by (simp add: store_bytes_length [OF assms(1)])
next
  fix i assume "i < length (take n (drop a buf'))"
  then have i: "i < n" "a + i < length buf'" by auto
  then show "take n (drop a buf') ! i = take n (drop a buf) ! i"
    using store_bytes_nth_other [OF assms(1), of "a + i"] assms(2) store_bytes_length [OF assms(1)]
    by auto
qed


definition widened :: "ILInstr \<Rightarrow> ILInstr" where
  "widened i = i\<lparr>m_opcode := widen (m_opcode i)\<rparr>"

text \<open>Only the instructions and the output buffer differ.\<close>

definition same_rest :: "ILRewriter \<Rightarrow> ILRewriter \<Rightarrow> bool" where
  "same_rest \<sigma>0 \<sigma> \<longleftrightarrow> \<sigma>\<lparr>heap := heap \<sigma>0, m_pOutputBuffer := m_pOutputBuffer \<sigma>0\<rparr> = \<sigma>0"

lemma same_rest_simps [simp]:
  "same_rest \<sigma>0 (\<sigma>\<lparr>heap := h\<rparr>) = same_rest \<sigma>0 \<sigma>"
  "same_rest \<sigma>0 (\<sigma>\<lparr>m_pOutputBuffer := b\<rparr>) = same_rest \<sigma>0 \<sigma>"
  "same_rest \<sigma> \<sigma>"
  by (simp_all add: same_rest_def)

text \<open>The state of the second loop after the instructions \<open>zs\<close>, from the state \<open>\<sigma>0\<close> the first left.\<close>

definition resolved :: "ILRewriter \<Rightarrow> addr list \<Rightarrow> addr list \<Rightarrow> bool \<Rightarrow> ILRewriter \<Rightarrow> bool" where
  "resolved \<sigma>0 xs zs again \<sigma> \<longleftrightarrow>
     same_rest \<sigma>0 \<sigma> \<and>
     length (m_pOutputBuffer \<sigma>) = length (m_pOutputBuffer \<sigma>0) \<and>
     (\<forall>p. heap \<sigma> p = heap \<sigma>0 p \<or> p \<in> set zs \<and> short_at (heap \<sigma>0) p \<and>
        heap \<sigma> p = Some (widened (the (heap \<sigma>0 p)))) \<and>
     (if again then \<exists>p \<in> set zs. short_at (heap \<sigma>0) p \<and> heap \<sigma> p = Some (widened (the (heap \<sigma>0 p)))
      else heap \<sigma> = heap \<sigma>0 \<and> (\<forall>y \<in> set zs. encoded (heap \<sigma>0) (m_pOutputBuffer \<sigma>) y) \<and>
        (\<forall>y \<in> set xs - set zs. slot (m_pOutputBuffer \<sigma>) (the (heap \<sigma>0 y))))"

definition ready :: "ILRewriter \<Rightarrow> addr list \<Rightarrow> bool" where
  "ready \<sigma> xs \<longleftrightarrow> linked (heap \<sigma>) (IL # xs @ [IL]) \<and> distinct (IL # xs) \<and> exportable (heap \<sigma>) xs \<and>
     laid (heap \<sigma>) xs \<and> heap \<sigma> IL \<noteq> None \<and> code_total (heap \<sigma>) xs \<le> length (m_pOutputBuffer \<sigma>) \<and>
     length (m_pOutputBuffer \<sigma>) + 2 < 2 ^ 32"

lemma resolved_keep:
  assumes "resolved \<sigma>0 xs zs again \<sigma>"
    and "\<not> again \<Longrightarrow> encoded (heap \<sigma>0) (m_pOutputBuffer \<sigma>) y"
  shows "resolved \<sigma>0 xs (zs @ [y]) again \<sigma>"
  using assms unfolding resolved_def by (cases again) auto

lemma slot_encoded:
  assumes "slot buf i" "typed_instr i" "\<not> is_branch (m_opcode i)" "h y = Some i"
  shows "encoded h buf y"
  using assms length_encoding [OF assms(2), of h]
  by (simp add: slot_def encoded_def size_at_def offset_at_def encoding_def short_at_def is_branch_def)

lemma resolved_lookup:
  assumes "resolved \<sigma>0 xs zs again \<sigma>" "heap \<sigma>0 p = Some i"
  obtains j where "heap \<sigma> p = Some j" "m_offset j = m_offset i" "m_pNext j = m_pNext i"
proof -
  have "heap \<sigma> p = heap \<sigma>0 p \<or> heap \<sigma> p = Some (widened (the (heap \<sigma>0 p)))"
    using assms(1) unfolding resolved_def by blast
  then show thesis using that assms(2) by (auto simp: widened_def)
qed

lemma resolve_other:
  assumes "heap \<sigma> y = Some i" "typed_instr i" "\<not> is_branch (m_opcode i)"
  shows "\<exists>base'. resolve_instr y ((again, base), \<sigma>) = Inr ((again, base'), \<sigma>)"
proof -
  have op: "m_opcode i < CEE_COUNT" and fits: "arg_fits (flags_of (m_opcode i)) (m_arg i)"
    using assms(2) by (simp_all add: typed_instr_def)
  then have arg: "m_opcode i \<noteq> CEE_SWITCH_ARG" by (auto simp: CEE_COUNT_def CEE_SWITCH_ARG_def)
  show ?thesis
  proof (cases "m_opcode i = CEE_SWITCH")
    case True
    then have "flags_of (m_opcode i) = 0x20" by (simp add: flags_of_def)
    then show ?thesis using fits True assms(1)
      by (auto simp: resolve_instr_def arg_fits_def split: ILArg.splits)
  next
    case False
    then have "resolve_instr y ((again, base), \<sigma>) = Inr ((again, base), \<sigma>)"
      by (insert assms(3), cases rule: flags_of_cases [of "m_opcode i"];
        simp add: resolve_instr_def load_instr_Some [OF assms(1)] arg OpCodeFlags_flags_of [OF op]
          OPCODEFLAGS_BranchTarget_def is_branch_def)
    then show ?thesis by blast
  qed
qed

lemma resolve_branch:
  assumes y: "heap \<sigma> y = Some i" and "typed_instr i" and br: "is_branch (m_opcode i)"
    and t: "heap \<sigma> (target_of i) = Some ti" and nx: "heap \<sigma> (m_pNext i) = Some ni"
  shows "resolve_instr y ((again, base), \<sigma>) =
    (let delta = m_offset ti - m_offset ni; n = operand_size (flags_of (m_opcode i)) in
     if flags_of (m_opcode i) = 0x11 \<and> scast (ucast delta :: INT8) \<noteq> delta then
       Inr ((True, base), \<sigma>\<lparr>heap := (heap \<sigma>)(y \<mapsto> widened i)\<rparr>)
     else bindO (write_before \<sigma> (m_offset ni) n (put_le n delta)) (\<lambda>\<sigma>. Inr ((again, base), \<sigma>)))"
proof -
  have op: "m_opcode i < CEE_COUNT" and fits: "arg_fits (flags_of (m_opcode i)) (m_arg i)"
    using assms(2) by (simp_all add: typed_instr_def)
  then have arg: "m_opcode i \<noteq> CEE_SWITCH_ARG" by (auto simp: CEE_COUNT_def CEE_SWITCH_ARG_def)
  have sw: "m_opcode i \<noteq> CEE_SWITCH"
    using br by (auto simp: is_branch_def flags_of_def)
  have f: "flags_of (m_opcode i) = 0x11 \<or> flags_of (m_opcode i) = 0x14" using br by (simp add: is_branch_def)
  then have tgt: "m_arg i = m_pTarget (target_of i)"
    using fits by (auto simp: arg_fits_def target_of_def split: ILArg.splits)
  show ?thesis
    using f by (auto simp: resolve_instr_def load_instr_Some [OF y] sw arg OpCodeFlags_flags_of [OF op]
        tgt load_instr_Some [OF t] load_instr_Some [OF nx] store_instr_Some [OF y] widened_def widen_def
        OPCODEFLAGS_BranchTarget_def operand_size_simps Let_def)
qed

lemma ready_nth:
  assumes "ready \<sigma>0 xs" "xs = zs @ y # ys"
  shows "y = xs ! length zs" "length zs < length xs" "y \<notin> set zs"
    "typed_at (heap \<sigma>0) y" "branch_at (heap \<sigma>0) y \<Longrightarrow> target_of (the (heap \<sigma>0 y)) \<in> set (IL # xs)"
    "m_pNext (the (heap \<sigma>0 y)) = (xs @ [IL]) ! Suc (length zs)"
    "unat (offset_at (heap \<sigma>0) y) = code_total (heap \<sigma>0) zs"
    "unat (offset_at (heap \<sigma>0) ((xs @ [IL]) ! Suc (length zs))) = code_total (heap \<sigma>0) zs + size_at (heap \<sigma>0) y"
    "code_total (heap \<sigma>0) zs + size_at (heap \<sigma>0) y \<le> length (m_pOutputBuffer \<sigma>0)"
    "\<And>p. p \<in> set (IL # xs) \<Longrightarrow> heap \<sigma>0 p \<noteq> None"
proof -
  show y: "y = xs ! length zs" "length zs < length xs" by (simp_all add: assms(2) nth_append)
  show "y \<notin> set zs" using assms by (auto simp: ready_def)
  have "exportable (heap \<sigma>0) xs" using assms(1) by (simp add: ready_def)
  then show "typed_at (heap \<sigma>0) y"
    "branch_at (heap \<sigma>0) y \<Longrightarrow> target_of (the (heap \<sigma>0 y)) \<in> set (IL # xs)"
    "\<And>p. p \<in> set (IL # xs) \<Longrightarrow> heap \<sigma>0 p \<noteq> None"
    using assms by (auto simp: exportable_def typed_at_def ready_def)
  show "m_pNext (the (heap \<sigma>0 y)) = (xs @ [IL]) ! Suc (length zs)"
    using next_at [of "heap \<sigma>0" xs "length zs"] assms(1) y(2) unfolding y(1) [symmetric]
    by (simp add: ready_def)
  have laid: "laid (heap \<sigma>0) xs" using assms(1) by (simp add: ready_def)
  show "unat (offset_at (heap \<sigma>0) y) = code_total (heap \<sigma>0) zs"
  proof -
    have "unat (offset_at (heap \<sigma>0) (xs ! length zs)) = code_total (heap \<sigma>0) (take (length zs) xs)"
      using laid y(2) by (simp add: laid_def)
    then show ?thesis unfolding y(1) [symmetric] by (simp add: assms(2))
  qed
  show "unat (offset_at (heap \<sigma>0) ((xs @ [IL]) ! Suc (length zs))) =
      code_total (heap \<sigma>0) zs + size_at (heap \<sigma>0) y"
    using offset_next [OF laid y(2)] code_total_take_Suc [OF y(2), of "heap \<sigma>0"]
    unfolding y(1) [symmetric] by (simp add: assms(2))
  have "code_total (heap \<sigma>0) (take (Suc (length zs)) xs) \<le> code_total (heap \<sigma>0) (take (length xs) xs)"
    using y(2) by (intro code_total_take_mono) simp
  then show "code_total (heap \<sigma>0) zs + size_at (heap \<sigma>0) y \<le> length (m_pOutputBuffer \<sigma>0)"
    using assms(1) by (simp add: assms(2) ready_def)
qed

lemma store_after:
  assumes "store_bytes buf (off + k) bs = Inr buf'"
  shows "take (k + length bs) (drop off buf') = take k (drop off buf) @ bs"
  using assms by (rule store_bytes_InrE) (simp add: take_drop add.commute)

text \<open>A write into the slot of \<open>y\<close> leaves the bytes of every other instruction alone.\<close>

lemma write_in_slot:
  assumes "laid h xs" "distinct xs" "xs = zs @ y # ys" "p \<in> set xs" "p \<noteq> y"
    and "store_bytes buf off bs = Inr buf'"
    and "code_total h zs \<le> off" "off + length bs \<le> code_total h zs + size_at h y" "n \<le> size_at h p"
  shows "take n (drop (unat (offset_at h p)) buf') = take n (drop (unat (offset_at h p)) buf)"
proof (rule store_disjoint [OF assms(6)])
  obtain j where j: "j < length xs" "p = xs ! j" using assms(4) by (metis in_set_conv_nth)
  let ?k = "length zs"
  have k: "?k < length xs" "xs ! ?k = y" by (simp_all add: assms(3) nth_append)
  have o: "unat (offset_at h p) = code_total h (take j xs)" using assms(1) j by (simp add: laid_def)
  have z: "code_total h (take ?k xs) = code_total h zs" by (simp add: assms(3))
  have "j \<noteq> ?k" using assms(5) j k by auto
  then show "unat (offset_at h p) + n \<le> off \<or> off + length bs \<le> unat (offset_at h p)"
  proof (rule linorder_neqE)
    assume "j < ?k"
    then have "code_total h (take (Suc j) xs) \<le> code_total h (take ?k xs)" by (intro code_total_take_mono) simp
    then show ?thesis using code_total_take_Suc [OF j(1), of h] j(2) o z assms(7,9) by simp
  next
    assume "?k < j"
    then have "code_total h (take (Suc ?k) xs) \<le> code_total h (take j xs)" by (intro code_total_take_mono) simp
    then show ?thesis using code_total_take_Suc [OF k(1), of h] k(2) o z assms(8) by simp
  qed
qed

lemma resolve_step:
  assumes ready: "ready \<sigma>0 xs" and R: "resolved \<sigma>0 xs zs again \<sigma>" and xs: "xs = zs @ y # ys"
  shows "\<exists>again' base' \<sigma>'. resolve_instr y ((again, base), \<sigma>) = Inr ((again', base'), \<sigma>') \<and>
     resolved \<sigma>0 xs (zs @ [y]) again' \<sigma>'"
proof -
  note n = ready_nth [OF ready xs]
  obtain i where i0: "heap \<sigma>0 y = Some i" "typed_instr i" using n(4) by (auto simp: typed_at_def)
  have i: "heap \<sigma> y = Some i"
    using R n(3) i0(1) unfolding resolved_def by (metis (no_types))
  have len: "length (m_pOutputBuffer \<sigma>) = length (m_pOutputBuffer \<sigma>0)"
    using R by (simp add: resolved_def)
  show ?thesis
  proof (cases "is_branch (m_opcode i)")
    case False
    have "encoded (heap \<sigma>0) (m_pOutputBuffer \<sigma>) y" if "\<not> again"
    proof -
      have "y \<in> set xs - set zs" using n(3) by (simp add: xs)
      then have "slot (m_pOutputBuffer \<sigma>) (the (heap \<sigma>0 y))"
        using R that unfolding resolved_def by simp
      then show ?thesis using slot_encoded i0 False by simp
    qed
    with R have "resolved \<sigma>0 xs (zs @ [y]) again \<sigma>" by (rule resolved_keep)
    then show ?thesis using resolve_other [OF i i0(2) False, of again base] by blast
  next
    case br: True
    have sz: "size_at (heap \<sigma>0) y = length (opcode_bytes (m_opcode i)) + operand_size (flags_of (m_opcode i))"
      by (simp add: size_at_def i0(1) instr_size_def)
    have "target_of i \<in> set (IL # xs)" using n(5) br i0(1) by (simp add: branch_at_def)
    then obtain t0 where "heap \<sigma>0 (target_of i) = Some t0" using n(10) by blast
    then obtain ti where ti: "heap \<sigma> (target_of i) = Some ti" "m_offset ti = offset_at (heap \<sigma>0) (target_of i)"
      using resolved_lookup [OF R] by (metis offset_at_def option.sel)
    have nxt: "m_pNext i = (xs @ [IL]) ! Suc (length zs)" using n(6) i0(1) by simp
    then have "m_pNext i \<in> set (IL # xs)"
      using n(2) nth_mem [of "Suc (length zs)" "xs @ [IL]"] by auto
    then obtain n0 where "heap \<sigma>0 (m_pNext i) = Some n0" using n(10) by blast
    then obtain ni where ni: "heap \<sigma> (m_pNext i) = Some ni" "m_offset ni = offset_at (heap \<sigma>0) (m_pNext i)"
      using resolved_lookup [OF R] by (metis offset_at_def option.sel)
    let ?d = "m_offset ti - m_offset ni" and ?n = "operand_size (flags_of (m_opcode i))"
    have d: "?d = branch_delta (heap \<sigma>0) i" by (simp add: branch_delta_def ti ni)
    have off: "unat (m_offset ni) = code_total (heap \<sigma>0) zs + size_at (heap \<sigma>0) y"
      using n(8) by (simp add: ni(2) nxt)
    note eq = resolve_branch [OF i i0(2) br ti(1) ni(1), of again base, unfolded Let_def]
    show ?thesis
    proof (cases "flags_of (m_opcode i) = 0x11 \<and> scast (ucast ?d :: INT8) \<noteq> ?d")
      case True
      let ?\<sigma> = "\<sigma>\<lparr>heap := (heap \<sigma>)(y \<mapsto> widened i)\<rparr>"
      have "resolved \<sigma>0 xs (zs @ [y]) True ?\<sigma>"
        using R True i0(1) unfolding resolved_def by (auto simp: short_at_def)
      moreover have "resolve_instr y ((again, base), \<sigma>) = Inr ((True, base), ?\<sigma>)"
        unfolding eq using True by (simp only: if_True simp_thms)
      ultimately show ?thesis by blast
    next
      case False
      note fits = this
      let ?pos = "code_total (heap \<sigma>0) zs + length (opcode_bytes (m_opcode i))"
      have pos: "unat (m_offset ni) - ?n = ?pos" "\<not> unat (m_offset ni) < ?n"
        using off sz by simp_all
      obtain buf' where st: "store_bytes (m_pOutputBuffer \<sigma>) ?pos (put_le ?n ?d) = Inr buf'"
        using n(9) sz len by (simp add: store_bytes_def)
      have wb: "write_before \<sigma> (m_offset ni) ?n (put_le ?n ?d) = Inr (\<sigma>\<lparr>m_pOutputBuffer := buf'\<rparr>)"
        by (simp add: write_before_def pos write_out_def st)
      have "resolved \<sigma>0 xs (zs @ [y]) again (\<sigma>\<lparr>m_pOutputBuffer := buf'\<rparr>)"
      proof (cases again)
        case True
        then show ?thesis using R store_bytes_length [OF st] unfolding resolved_def by auto
      next
        case False
        then have R': "heap \<sigma> = heap \<sigma>0" "same_rest \<sigma>0 \<sigma>"
          "\<forall>p \<in> set zs. encoded (heap \<sigma>0) (m_pOutputBuffer \<sigma>) p"
          "\<forall>p \<in> set xs - set zs. slot (m_pOutputBuffer \<sigma>) (the (heap \<sigma>0 p))"
          using R unfolding resolved_def by auto
        have laid: "laid (heap \<sigma>0) xs" "distinct xs" using ready by (auto simp: ready_def)
        have "?pos + length (put_le ?n ?d) \<le> code_total (heap \<sigma>0) zs + size_at (heap \<sigma>0) y" by (simp add: sz)
        note keep = write_in_slot [OF laid xs _ _ st _ this, simplified]
        have "encoded (heap \<sigma>0) buf' p" if "p \<in> set zs" for p
          using R'(3) that n(3) keep [of p "size_at (heap \<sigma>0) p"] xs unfolding encoded_def by auto
        moreover have "slot buf' (the (heap \<sigma>0 p))" if "p \<in> set xs - set zs - {y}" for p
        proof -
          have "typed_instr (the (heap \<sigma>0 p))"
            using ready that by (auto simp: ready_def exportable_def typed_at_def)
          then have "length (head_bytes (the (heap \<sigma>0 p))) \<le> size_at (heap \<sigma>0) p"
            using length_head_bytes by (simp add: size_at_def)
          then show ?thesis
            using R'(4) that keep [of p "length (head_bytes (the (heap \<sigma>0 p)))"] store_bytes_length [OF st]
            unfolding slot_def offset_at_def by auto
        qed
        moreover have "encoded (heap \<sigma>0) buf' y"
        proof -
          have "y \<in> set xs - set zs" using n(3) by (simp add: xs)
          with R'(4) have "slot (m_pOutputBuffer \<sigma>) (the (heap \<sigma>0 y))" by (rule bspec)
          then have "slot (m_pOutputBuffer \<sigma>) i" by (simp add: i0(1))
          then have "take (length (opcode_bytes (m_opcode i))) (drop (code_total (heap \<sigma>0) zs) (m_pOutputBuffer \<sigma>)) =
              opcode_bytes (m_opcode i)"
            using n(7) br i0(1) by (simp add: slot_def head_bytes_def offset_at_def)
          then show ?thesis
            using store_after [OF st] n(7) br i0(1) d fits
            by (simp add: encoded_def encoding_def sz short_at_def)
        qed
        ultimately show ?thesis
          using R R' False store_bytes_length [OF st] unfolding resolved_def by auto
      qed
      moreover have "resolve_instr y ((again, base), \<sigma>) = Inr ((again, base), \<sigma>\<lparr>m_pOutputBuffer := buf'\<rparr>)"
        unfolding eq wb using False by (simp only: if_False bindO_simps)
      ultimately show ?thesis by blast
    qed
  qed
qed

lemma resolve_loop:
  assumes "ready \<sigma>0 xs" "resolved \<sigma>0 xs zs again \<sigma>" "xs = zs @ ys"
  shows "\<exists>again' base' \<sigma>'. foldO resolve_instr ys ((again, base), \<sigma>) = Inr ((again', base'), \<sigma>') \<and>
     resolved \<sigma>0 xs xs again' \<sigma>'"
  using assms
proof (induction ys arbitrary: zs again base \<sigma>)
  case Nil
  then show ?case by auto
next
  case (Cons y ys)
  obtain a b s where st: "resolve_instr y ((again, base), \<sigma>) = Inr ((a, b), s)"
    "resolved \<sigma>0 xs (zs @ [y]) a s"
    using resolve_step [OF Cons.prems] by blast
  moreover have "xs = (zs @ [y]) @ ys" using Cons.prems(3) by simp
  ultimately show ?case using Cons.IH [OF Cons.prems(1) st(2), of b] by simp
qed

lemma write_out_wp [wp]:
  "(\<And>\<sigma>'. heap \<sigma>' = heap \<sigma> \<Longrightarrow> P \<sigma>') \<Longrightarrow> ensures (write_out \<sigma> off bs) P"
  by (cases "store_bytes (m_pOutputBuffer \<sigma>) off bs") (simp_all add: write_out_def ensures_def)

lemma write_before_wp [wp]:
  "(\<And>\<sigma>'. heap \<sigma>' = heap \<sigma> \<Longrightarrow> P \<sigma>') \<Longrightarrow> ensures (write_before \<sigma> off k bs) P"
  by (auto simp: write_before_def intro!: wp)

lemma emit_opcode_wp [wp]:
  assumes "\<And>off' \<sigma>'. heap \<sigma>' = heap \<sigma> \<Longrightarrow> P (off', \<sigma>')"
  shows "ensures (emit_opcode \<sigma> off op) P"
  unfolding emit_opcode_def by (intro wp) (use assms in auto)

lemma emit_instr_links: "emit_instr p s = Inr s' \<Longrightarrow> keeps_links (snd s) (snd s')"
proof (erule ensuresD [rotated])
  show "ensures (emit_instr p s) (\<lambda>s'. keeps_links (snd s) (snd s'))"
    unfolding emit_instr_def by (intro wp) (auto simp: keeps_links_def next_of_upd)
qed

lemma resolve_instr_links: "resolve_instr p s = Inr s' \<Longrightarrow> keeps_links (snd s) (snd s')"
proof (erule ensuresD [rotated])
  show "ensures (resolve_instr p s) (\<lambda>s'. keeps_links (snd s) (snd s'))"
    unfolding resolve_instr_def by (intro wp) (simp_all add: keeps_links_def next_of_upd)
qed

text \<open>Widening short branches and moving instructions is all an export does to them.\<close>

definition relaxed_instr :: "ILInstr \<Rightarrow> ILInstr \<Rightarrow> bool" where
  "relaxed_instr i j \<longleftrightarrow> m_pNext j = m_pNext i \<and> m_pPrev j = m_pPrev i \<and> m_arg j = m_arg i \<and>
     (m_opcode j = m_opcode i \<or>
      flags_of (m_opcode i) = 0x11 \<and> m_opcode i < CEE_COUNT \<and> m_opcode j = widen (m_opcode i))"

definition relaxed :: "(addr \<Rightarrow> ILInstr option) \<Rightarrow> (addr \<Rightarrow> ILInstr option) \<Rightarrow> bool" where
  "relaxed h h' \<longleftrightarrow> (\<forall>p. rel_option relaxed_instr (h p) (h' p))"

lemma relaxed_instr_trans: "relaxed_instr i j \<Longrightarrow> relaxed_instr j k \<Longrightarrow> relaxed_instr i k"
  using flags_widen(1) by (auto simp: relaxed_instr_def)

lemma relaxed_trans: "relaxed h h' \<Longrightarrow> relaxed h' h'' \<Longrightarrow> relaxed h h''"
  unfolding relaxed_def
proof (intro allI)
  fix p assume "\<forall>p. rel_option relaxed_instr (h p) (h' p)" "\<forall>p. rel_option relaxed_instr (h' p) (h'' p)"
  then have "rel_option relaxed_instr (h p) (h' p)" "rel_option relaxed_instr (h' p) (h'' p)" by blast+
  then show "rel_option relaxed_instr (h p) (h'' p)"
    by (cases "h p"; cases "h' p"; cases "h'' p") (auto intro: relaxed_instr_trans)
qed

lemma relaxed_refl [simp]: "relaxed h h"
  by (simp add: relaxed_def relaxed_instr_def option.rel_refl)

lemma relaxedI:
  assumes "\<And>p. (h p = None \<and> h' p = None) \<or> (\<exists>i j. h p = Some i \<and> h' p = Some j \<and> relaxed_instr i j)"
  shows "relaxed h h'"
  unfolding relaxed_def
proof
  fix p show "rel_option relaxed_instr (h p) (h' p)" using assms [of p] by auto
qed

lemma relaxed_cases:
  assumes "relaxed h h'"
  obtains "h p = None" "h' p = None" | i j where "h p = Some i" "h' p = Some j" "relaxed_instr i j"
proof -
  have "rel_option relaxed_instr (h p) (h' p)" using assms by (simp add: relaxed_def)
  then show thesis using that by (cases "h p"; cases "h' p") auto
qed

lemma relaxed_Some:
  assumes "relaxed h h'" "h p = Some i" obtains j where "h' p = Some j" "relaxed_instr i j"
  using relaxed_cases [OF assms(1), of p] assms(2) that by auto

lemma relaxed_links:
  assumes "relaxed h h'"
  shows "next_of h' p = next_of h p" "prev_of h' p = prev_of h p" "(h' p = None) = (h p = None)"
  by (rule relaxed_cases [OF assms, of p]; simp add: next_of_def prev_of_def relaxed_instr_def)+

lemma relaxed_linked: "relaxed h h' \<Longrightarrow> linked h' xs = linked h xs"
  by (induction h xs rule: linked.induct) (simp_all add: relaxed_links)

lemma relaxed_holds:
  assumes "relaxed (heap \<sigma>) (heap \<sigma>')" "same_rest \<sigma> \<sigma>'" "holds \<sigma> xs"
  shows "holds \<sigma>' xs"
proof -
  have "dom (heap \<sigma>') = dom (heap \<sigma>)" using relaxed_links(3) [OF assms(1)] by (auto simp: dom_def)
  moreover have "next_addr \<sigma>' = next_addr \<sigma>" "m_nInstrs \<sigma>' = m_nInstrs \<sigma>"
    using arg_cong [OF assms(2) [unfolded same_rest_def], of next_addr]
      arg_cong [OF assms(2) [unfolded same_rest_def], of m_nInstrs] by simp_all
  ultimately show ?thesis
    using assms(3) by (simp add: holds_def dll_def relaxed_linked [OF assms(1)])
qed

lemma relaxed_typed:
  assumes "relaxed_instr i j" "typed_instr i"
  shows "typed_instr j \<and> is_branch (m_opcode j) = is_branch (m_opcode i) \<and> target_of j = target_of i"
proof (cases "m_opcode j = m_opcode i")
  case True
  then show ?thesis using assms by (simp add: relaxed_instr_def typed_instr_def target_of_def)
next
  case False
  then have w: "flags_of (m_opcode i) = 0x11" "m_opcode i < CEE_COUNT" "m_opcode j = widen (m_opcode i)"
    "m_arg j = m_arg i"
    using assms(1) by (auto simp: relaxed_instr_def)
  note flags_widen [OF w(1,2)]
  then show ?thesis using assms(2) w
    by (auto simp: typed_instr_def is_branch_def target_of_def arg_fits_def split: ILArg.splits)
qed

lemma relaxed_exportable:
  assumes "relaxed h h'" "exportable h xs"
  shows "exportable h' xs"
  unfolding exportable_def
proof
  fix y assume "y \<in> set xs"
  then have y: "h y \<noteq> None" "typed_instr (the (h y))" "branch_at h y \<longrightarrow> target_of (the (h y)) \<in> set (IL # xs)"
    using assms(2) by (auto simp: exportable_def typed_at_def)
  then obtain i where i: "h y = Some i" by auto
  obtain j where j: "h' y = Some j" "relaxed_instr i j" using relaxed_Some [OF assms(1) i] .
  show "typed_at h' y \<and> (branch_at h' y \<longrightarrow> target_of (the (h' y)) \<in> set (IL # xs))"
    using relaxed_typed [OF j(2)] y i j(1) by (simp add: typed_at_def branch_at_def)
qed

lemma layout_at:
  assumes "distinct ys" "\<forall>y \<in> set ys. h y \<noteq> None"
  shows "layout h n ys p = h p \<or>
    (\<exists>i o'. h p = Some i \<and> layout h n ys p = Some (i\<lparr>m_offset := o'\<rparr>))"
proof (cases "p \<in> set ys")
  case True
  then obtain k where k: "k < length ys" "p = ys ! k" by (metis in_set_conv_nth)
  moreover obtain i where "h p = Some i" using assms(2) True by auto
  ultimately show ?thesis using layout_nth [OF assms(1), of k h n] by auto
qed (simp add: layout_other)

text \<open>The state between the two loops.\<close>

lemma first_pass:
  assumes holds: "holds \<sigma> xs" and ex: "exportable (heap \<sigma>) xs"
    and len: "10 * length xs \<le> length (m_pOutputBuffer \<sigma>)" "length (m_pOutputBuffer \<sigma>) + 2 < 2 ^ 32"
  shows "\<exists>\<sigma>1 \<sigma>2. for_each_instr emit_instr ((0, False), \<sigma>) =
       Inr ((word_of_nat (code_total (heap \<sigma>2) xs), list_ex (branch_at (heap \<sigma>2)) xs), \<sigma>1) \<and>
     store_instr \<sigma>1 IL (\<lambda>i. i\<lparr>m_offset := word_of_nat (code_total (heap \<sigma>2) xs)\<rparr>) = Inr \<sigma>2 \<and>
     ready \<sigma>2 xs \<and> relaxed (heap \<sigma>) (heap \<sigma>2) \<and> same_rest \<sigma> \<sigma>2 \<and>
     length (m_pOutputBuffer \<sigma>2) = length (m_pOutputBuffer \<sigma>) \<and>
     (\<forall>y \<in> set xs. slot (m_pOutputBuffer \<sigma>2) (the (heap \<sigma>2 y))) \<and>
     (\<forall>p. m_opcode (the (heap \<sigma>2 p)) = m_opcode (the (heap \<sigma> p)))"
proof -
  note lk = linked_next [OF holds]
  have typed: "\<forall>y \<in> set xs. typed_at (heap \<sigma>) y" using ex by (simp add: exportable_def)
  then have dom: "\<forall>y \<in> set xs. heap \<sigma> y \<noteq> None" by (auto simp: typed_at_def)
  obtain l where l: "heap \<sigma> IL = Some l" using holds_dom [OF holds, of IL] by auto
  let ?tot = "code_total (heap \<sigma>) xs" and ?h = "layout (heap \<sigma>) 0 xs"
  have tot: "?tot \<le> length (m_pOutputBuffer \<sigma>)" using code_total_le [of "heap \<sigma>" xs] len(1) by simp
  have "\<exists>buf. foldO emit_instr xs ((word_of_nat 0, False), \<sigma>) =
      Inr ((word_of_nat (0 + ?tot), False \<or> list_ex (branch_at (heap \<sigma>)) xs),
           \<sigma>\<lparr>heap := ?h, m_pOutputBuffer := buf\<rparr>) \<and>
    length buf = length (m_pOutputBuffer \<sigma>) \<and> take 0 buf = take 0 (m_pOutputBuffer \<sigma>) \<and>
    (\<forall>y \<in> set xs. slot buf (the (?h y)))"
    by (rule emit_loop) (use lk(2) typed tot len(2) in simp_all)
  then obtain buf where buf: "foldO emit_instr xs ((0, False), \<sigma>) =
      Inr ((word_of_nat ?tot, list_ex (branch_at (heap \<sigma>)) xs), \<sigma>\<lparr>heap := ?h, m_pOutputBuffer := buf\<rparr>)"
    "length buf = length (m_pOutputBuffer \<sigma>)" "\<forall>y \<in> set xs. slot buf (the (?h y))"
    by auto
  let ?h2 = "?h(IL \<mapsto> l\<lparr>m_offset := word_of_nat ?tot\<rparr>)"
  let ?\<sigma>1 = "\<sigma>\<lparr>heap := ?h, m_pOutputBuffer := buf\<rparr>" and ?\<sigma>2 = "\<sigma>\<lparr>heap := ?h2, m_pOutputBuffer := buf\<rparr>"
  have IL: "?h IL = Some l" using lk(3) l by (simp add: layout_other)
  have at: "?h2 p = heap \<sigma> p \<or> (\<exists>i o'. heap \<sigma> p = Some i \<and> ?h2 p = Some (i\<lparr>m_offset := o'\<rparr>))" for p
    using layout_at [OF _ dom, of 0 p] lk(2) l by auto
  then have ops: "m_opcode (the (?h2 p)) = m_opcode (the (heap \<sigma> p))" for p
  proof -
    from at [of p] show ?thesis
    proof (elim disjE exE conjE)
      fix i o' assume a: "heap \<sigma> p = Some i" "?h2 p = Some (i\<lparr>m_offset := o'\<rparr>)"
      show ?thesis unfolding a by simp
    qed simp
  qed
  have rel: "relaxed (heap \<sigma>) ?h2"
  proof (rule relaxedI)
    fix p
    show "(heap \<sigma> p = None \<and> ?h2 p = None) \<or>
        (\<exists>i j. heap \<sigma> p = Some i \<and> ?h2 p = Some j \<and> relaxed_instr i j)"
      using at [of p] by (cases "heap \<sigma> p") (auto simp: relaxed_instr_def simp del: fun_upd_apply)
  qed
  have tot2: "code_total ?h2 ys = code_total (heap \<sigma>) ys" for ys by (rule code_total_cong) (rule ops)
  have br: "branch_at ?h2 = branch_at (heap \<sigma>)" by (rule ext) (simp only: branch_at_def ops)
  have n: "unat (word_of_nat m :: 32 word) = m" if "m \<le> ?tot" for m
    using that tot len(2) by (intro unat_of_nat_32) simp
  have "laid ?h2 xs"
    unfolding laid_def tot2
  proof (intro conjI allI impI)
    fix k assume k: "k < length xs"
    then have "xs ! k \<noteq> IL" using lk(3) nth_mem by metis
    then have "?h2 (xs ! k) = Some ((the (heap \<sigma> (xs ! k)))\<lparr>m_offset := word_of_nat (code_total (heap \<sigma>) (take k xs))\<rparr>)"
      using layout_nth [of xs k "heap \<sigma>" 0] lk(2) k by simp
    moreover have "code_total (heap \<sigma>) (take k xs) \<le> ?tot"
      using code_total_take_mono [of k "length xs" "heap \<sigma>" xs] k by simp
    ultimately show "unat (offset_at ?h2 (xs ! k)) = code_total (heap \<sigma>) (take k xs)"
      by (simp add: offset_at_def n)
  qed (simp add: offset_at_def n)
  then have ready: "ready ?\<sigma>2 xs"
    using lk relaxed_exportable [OF rel ex] tot len(2) buf(2)
    by (simp add: ready_def tot2 relaxed_linked [OF rel])
  have slots: "\<forall>y \<in> set xs. slot buf (the (?h2 y))" using buf(3) lk(3) by auto
  have fe: "for_each_instr emit_instr ((0, False), \<sigma>) = foldO emit_instr xs ((0, False), \<sigma>)"
    by (rule for_each_instr_fold) (use holds emit_instr_links in auto)
  have hs: "heap ?\<sigma>2 = ?h2" by simp
  show ?thesis
  proof (intro exI conjI)
    show "for_each_instr emit_instr ((0, False), \<sigma>) =
        Inr ((word_of_nat (code_total (heap ?\<sigma>2) xs), list_ex (branch_at (heap ?\<sigma>2)) xs), ?\<sigma>1)"
      unfolding fe buf(1) hs tot2 br ..
    show "store_instr ?\<sigma>1 IL (\<lambda>i. i\<lparr>m_offset := word_of_nat (code_total (heap ?\<sigma>2) xs)\<rparr>) = Inr ?\<sigma>2"
      using IL by (simp add: tot2)
    show "ready ?\<sigma>2 xs" by (rule ready)
    show "relaxed (heap \<sigma>) (heap ?\<sigma>2)" using rel by simp
    show "same_rest \<sigma> ?\<sigma>2" by simp
    show "length (m_pOutputBuffer ?\<sigma>2) = length (m_pOutputBuffer \<sigma>)" using buf(2) by simp
    show "\<forall>y \<in> set xs. slot (m_pOutputBuffer ?\<sigma>2) (the (heap ?\<sigma>2 y))" using slots by simp
    show "\<forall>p. m_opcode (the (heap ?\<sigma>2 p)) = m_opcode (the (heap \<sigma> p))" using ops by simp
  qed
qed

definition shorts :: "(addr \<Rightarrow> ILInstr option) \<Rightarrow> addr list \<Rightarrow> nat" where
  "shorts h xs = length (filter (short_at h) xs)"

lemma resolved_relaxed:
  assumes "ready \<sigma>0 xs" "resolved \<sigma>0 xs xs again \<sigma>"
  shows "relaxed (heap \<sigma>0) (heap \<sigma>)"
proof (rule relaxedI)
  fix p
  show "(heap \<sigma>0 p = None \<and> heap \<sigma> p = None) \<or>
      (\<exists>i j. heap \<sigma>0 p = Some i \<and> heap \<sigma> p = Some j \<and> relaxed_instr i j)"
  proof (cases "heap \<sigma> p = heap \<sigma>0 p")
    case True
    then show ?thesis by (cases "heap \<sigma>0 p") (auto simp: relaxed_instr_def)
  next
    case False
    then have p: "p \<in> set xs" "short_at (heap \<sigma>0) p" "heap \<sigma> p = Some (widened (the (heap \<sigma>0 p)))"
      using assms(2) unfolding resolved_def by metis+
    then have "typed_at (heap \<sigma>0) p" using assms(1) by (auto simp: ready_def exportable_def)
    then obtain i where i: "heap \<sigma>0 p = Some i" "typed_instr i" by (auto simp: typed_at_def)
    then have "relaxed_instr i (widened i)"
      using p(2) by (auto simp: relaxed_instr_def widened_def short_at_def typed_instr_def)
    then show ?thesis using i(1) p(3) by auto
  qed
qed

lemma resolved_shorts:
  assumes "ready \<sigma>0 xs" "resolved \<sigma>0 xs xs True \<sigma>"
  shows "shorts (heap \<sigma>) xs < shorts (heap \<sigma>0) xs"
proof -
  have not_short: "\<not> short_at (heap \<sigma>) p"
    if "p \<in> set xs" "short_at (heap \<sigma>0) p" "heap \<sigma> p = Some (widened (the (heap \<sigma>0 p)))" for p
  proof -
    have "typed_at (heap \<sigma>0) p" using assms(1) that(1) by (auto simp: ready_def exportable_def)
    then show ?thesis
      using that(2,3) flags_widen(1) by (auto simp: short_at_def widened_def typed_at_def typed_instr_def)
  qed
  have sub: "short_at (heap \<sigma>0) p" if "p \<in> set xs" "short_at (heap \<sigma>) p" for p
  proof (cases "heap \<sigma> p = heap \<sigma>0 p")
    case False
    then show ?thesis using assms(2) unfolding resolved_def by metis
  qed (use that(2) in \<open>simp add: short_at_def\<close>)
  obtain p where p: "p \<in> set xs" "short_at (heap \<sigma>0) p" "heap \<sigma> p = Some (widened (the (heap \<sigma>0 p)))"
    using assms(2) by (auto simp: resolved_def)
  have "filter (short_at (heap \<sigma>)) xs = filter (short_at (heap \<sigma>)) (filter (short_at (heap \<sigma>0)) xs)"
    using sub by (auto intro!: filter_cong)
  moreover have "p \<in> set (filter (short_at (heap \<sigma>0)) xs)" using p by simp
  ultimately show ?thesis
    using not_short [OF p] length_filter_less [of p "filter (short_at (heap \<sigma>0)) xs" "short_at (heap \<sigma>)"]
    by (simp add: shorts_def)
qed

lemma same_rest_trans: "same_rest a b \<Longrightarrow> same_rest b c \<Longrightarrow> same_rest a c"
proof -
  assume ab: "same_rest a b" and bc: "same_rest b c"
  have "c\<lparr>heap := heap a, m_pOutputBuffer := m_pOutputBuffer a\<rparr> =
      (c\<lparr>heap := heap b, m_pOutputBuffer := m_pOutputBuffer b\<rparr>)\<lparr>heap := heap a, m_pOutputBuffer := m_pOutputBuffer a\<rparr>"
    by simp
  also have "\<dots> = a" using ab bc by (simp only: same_rest_def)
  finally show ?thesis by (simp only: same_rest_def)
qed

definition laid_out :: "ILRewriter \<Rightarrow> addr list \<Rightarrow> bool" where
  "laid_out \<sigma> xs \<longleftrightarrow> laid (heap \<sigma>) xs \<and> exportable (heap \<sigma>) xs \<and> code_total (heap \<sigma>) xs \<le> length (m_pOutputBuffer \<sigma>) \<and>
     length (m_pOutputBuffer \<sigma>) + 2 < 2 ^ 32 \<and>
     (\<forall>y \<in> set xs. encoded (heap \<sigma>) (m_pOutputBuffer \<sigma>) y)"

lemma layout_code_ok:
  assumes "holds \<sigma> xs" and "exportable (heap \<sigma>) xs"
    and "10 * length xs \<le> length (m_pOutputBuffer \<sigma>)" "length (m_pOutputBuffer \<sigma>) + 2 < 2 ^ 32"
    and "shorts (heap \<sigma>) xs < n"
  shows "\<exists>\<sigma>'. layout_code n \<sigma> = Inr (word_of_nat (code_total (heap \<sigma>') xs), \<sigma>') \<and>
     holds \<sigma>' xs \<and> relaxed (heap \<sigma>) (heap \<sigma>') \<and> same_rest \<sigma> \<sigma>' \<and>
     length (m_pOutputBuffer \<sigma>') = length (m_pOutputBuffer \<sigma>) \<and> laid_out \<sigma>' xs"
  using assms
proof (induction n arbitrary: \<sigma>)
  case (Suc n)
  obtain \<sigma>1 \<sigma>2 where fe: "for_each_instr emit_instr ((0, False), \<sigma>) =
       Inr ((word_of_nat (code_total (heap \<sigma>2) xs), list_ex (branch_at (heap \<sigma>2)) xs), \<sigma>1)"
     "store_instr \<sigma>1 IL (\<lambda>i. i\<lparr>m_offset := word_of_nat (code_total (heap \<sigma>2) xs)\<rparr>) = Inr \<sigma>2"
    and ready: "ready \<sigma>2 xs" and rel: "relaxed (heap \<sigma>) (heap \<sigma>2)" and rest: "same_rest \<sigma> \<sigma>2"
    and len: "length (m_pOutputBuffer \<sigma>2) = length (m_pOutputBuffer \<sigma>)"
    and slots: "\<forall>y \<in> set xs. slot (m_pOutputBuffer \<sigma>2) (the (heap \<sigma>2 y))"
    and ops: "\<forall>p. m_opcode (the (heap \<sigma>2 p)) = m_opcode (the (heap \<sigma> p))"
    using first_pass [OF Suc.prems(1-4)] by (elim exE conjE) (rule that)
  note holds2 = relaxed_holds [OF rel rest Suc.prems(1)]
  show ?case
  proof (cases "list_ex (branch_at (heap \<sigma>2)) xs")
    case False
    have "encoded (heap \<sigma>2) (m_pOutputBuffer \<sigma>2) y" if y: "y \<in> set xs" for y
    proof -
      have "typed_at (heap \<sigma>2) y" using ready y by (auto simp: ready_def exportable_def)
      then obtain i where "heap \<sigma>2 y = Some i" "typed_instr i" by (auto simp: typed_at_def)
      moreover have "\<not> branch_at (heap \<sigma>2) y" using False y by (auto simp: list_ex_iff)
      ultimately show ?thesis using slots y by (intro slot_encoded [of _ i]) (auto simp: branch_at_def)
    qed
    then have "laid_out \<sigma>2 xs" using ready by (simp add: laid_out_def ready_def)
    moreover have "layout_code (Suc n) \<sigma> = Inr (word_of_nat (code_total (heap \<sigma>2) xs), \<sigma>2)"
      using fe False by simp
    ultimately show ?thesis using holds2 rel rest len by blast
  next
    case True
    have "resolved \<sigma>2 xs [] False \<sigma>2" using slots by (simp add: resolved_def)
    then obtain again base \<sigma>3 where
      rs: "foldO resolve_instr xs ((False, 0), \<sigma>2) = Inr ((again, base), \<sigma>3)" "resolved \<sigma>2 xs xs again \<sigma>3"
      using resolve_loop [OF ready, of "[]" False \<sigma>2 xs 0] by auto
    have fe2: "for_each_instr resolve_instr ((False, 0), \<sigma>2) = foldO resolve_instr xs ((False, 0), \<sigma>2)"
      by (rule for_each_instr_fold) (use holds2 resolve_instr_links in auto)
    note rel3 = resolved_relaxed [OF ready rs(2)]
    have rest3: "same_rest \<sigma>2 \<sigma>3" and len3: "length (m_pOutputBuffer \<sigma>3) = length (m_pOutputBuffer \<sigma>2)"
      using rs(2) by (simp_all add: resolved_def)
    note holds3 = relaxed_holds [OF rel3 rest3 holds2]
    have eq: "layout_code (Suc n) \<sigma> =
        (if again then layout_code n \<sigma>3 else Inr (word_of_nat (code_total (heap \<sigma>2) xs), \<sigma>3))"
      using fe True by (simp add: fe2 rs(1) del: of_nat_add)
    show ?thesis
    proof (cases again)
      case True
      have "short_at (heap \<sigma>2) = short_at (heap \<sigma>)" using ops by (simp add: short_at_def fun_eq_iff)
      then have sh: "shorts (heap \<sigma>2) xs = shorts (heap \<sigma>) xs" by (simp add: shorts_def)
      have "\<exists>\<sigma>'. layout_code n \<sigma>3 = Inr (word_of_nat (code_total (heap \<sigma>') xs), \<sigma>') \<and>
         holds \<sigma>' xs \<and> relaxed (heap \<sigma>3) (heap \<sigma>') \<and> same_rest \<sigma>3 \<sigma>' \<and>
         length (m_pOutputBuffer \<sigma>') = length (m_pOutputBuffer \<sigma>3) \<and> laid_out \<sigma>' xs"
      proof (rule Suc.IH [OF holds3])
        show "exportable (heap \<sigma>3) xs"
          using ready rel3 by (auto simp: ready_def intro: relaxed_exportable)
        show "shorts (heap \<sigma>3) xs < n"
          using resolved_shorts [OF ready, of \<sigma>3] rs(2) True sh Suc.prems(5) by (auto simp del: of_nat_add)
      qed (use Suc.prems(3,4) len len3 in simp_all)
      moreover have "relaxed (heap \<sigma>) (heap \<sigma>3)" "same_rest \<sigma> \<sigma>3"
        using relaxed_trans [OF rel rel3] same_rest_trans [OF rest rest3] by blast+
      ultimately show ?thesis
        unfolding eq using True len len3 relaxed_trans same_rest_trans by (metis (no_types, lifting))
    next
      case False
      then have "heap \<sigma>3 = heap \<sigma>2" "\<forall>y \<in> set xs. encoded (heap \<sigma>2) (m_pOutputBuffer \<sigma>3) y"
        using rs(2) by (simp_all add: resolved_def)
      then have "laid_out \<sigma>3 xs" "code_total (heap \<sigma>3) xs = code_total (heap \<sigma>2) xs"
        using ready len3 by (auto simp: laid_out_def ready_def)
      then show ?thesis
        unfolding eq using False holds3 rel rel3 rest rest3 len len3 relaxed_trans same_rest_trans
        by (metis (no_types, lifting))
    qed
  qed
qed simp

end
