(* ===== verification/ILBody.thy ===== *)
theory ILBody
  imports ILLayout
begin

text \<open>
  The method bodies \<open>ILRewriter::Export\<close> produces: tiny and fat bodies hold the laid out code, and the
  decoder of the runtime (\<^verbatim>\<open>corhlpr\<close>) reads the code, the header and the exception clauses back.
\<close>

unbundle bit_operations_syntax

text \<open>The bytes the code consists of.\<close>

definition code_of :: "(addr \<Rightarrow> ILInstr option) \<Rightarrow> addr list \<Rightarrow> BYTE list" where
  "code_of h xs = concat (map (\<lambda>y. encoding h (the (h y))) xs)"

lemma length_code_of:
  assumes "exportable h xs"
  shows "length (code_of h xs) = code_total h xs"
proof -
  have "length (encoding h (the (h y))) = size_at h y" if "y \<in> set xs" for y
    using assms that length_encoding by (auto simp: exportable_def typed_at_def size_at_def)
  then show ?thesis by (simp add: code_of_def code_total_def length_concat comp_def cong: map_cong)
qed

lemma laid_out_code:
  assumes "laid_out \<sigma> xs"
  shows "take (code_total (heap \<sigma>) xs) (m_pOutputBuffer \<sigma>) = code_of (heap \<sigma>) xs"
proof -
  have "take (code_total (heap \<sigma>) (take k xs)) (m_pOutputBuffer \<sigma>) = code_of (heap \<sigma>) (take k xs)"
    if "k \<le> length xs" for k
    using that
  proof (induction k)
    case (Suc k)
    then have k: "k < length xs" "xs ! k \<in> set xs" by simp_all
    then have "encoded (heap \<sigma>) (m_pOutputBuffer \<sigma>) (xs ! k)"
      "unat (offset_at (heap \<sigma>) (xs ! k)) = code_total (heap \<sigma>) (take k xs)"
      using assms by (simp_all add: laid_out_def laid_def)
    then show ?case
      using Suc.IH k by (simp add: encoded_def take_Suc_conv_app_nth take_add code_of_def)
  qed (simp add: code_of_def)
  from this [of "length xs"] show ?thesis by simp
qed

section \<open>The exception clauses\<close>

definition clause_ok :: "addr list \<Rightarrow> EHClause \<Rightarrow> bool" where
  "clause_ok xs c \<longleftrightarrow>
     {m_pTryBegin c, m_pTryEnd c, m_pHandlerBegin c, m_pHandlerEnd c} \<subseteq> set (IL # xs) \<and>
     (case m_eharg c of
        m_ClassToken t \<Rightarrow> m_Flags c AND COR_ILEXCEPTION_CLAUSE_FILTER = 0
      | m_pFilter f \<Rightarrow> m_Flags c AND COR_ILEXCEPTION_CLAUSE_FILTER \<noteq> 0 \<and> f \<in> set (IL # xs))"

text \<open>The clause in offsets; a handler ends where the instruction after its last begins.\<close>

definition clause_of :: "(addr \<Rightarrow> ILInstr option) \<Rightarrow> EHClause \<Rightarrow> EH_CLAUSE_FAT" where
  "clause_of h c =
     \<lparr>cf_Flags = m_Flags c, cf_TryOffset = offset_at h (m_pTryBegin c),
      cf_TryLength = offset_at h (m_pTryEnd c) - offset_at h (m_pTryBegin c),
      cf_HandlerOffset = offset_at h (m_pHandlerBegin c),
      cf_HandlerLength = offset_at h (m_pNext (the (h (m_pHandlerEnd c)))) - offset_at h (m_pHandlerBegin c),
      cf_ClassToken = (case m_eharg c of m_ClassToken t \<Rightarrow> t | m_pFilter f \<Rightarrow> offset_at h f)\<rparr>"

lemma holds_next:
  assumes "holds \<sigma> xs" "p \<in> set (IL # xs)"
  obtains i n where "heap \<sigma> p = Some i" "heap \<sigma> (m_pNext i) = Some n" "m_pNext i \<in> set (IL # xs)"
proof -
  obtain ys zs where eq: "IL # xs = ys @ p # zs" using assms(2) by (meson in_set_conv_decomp)
  have "linked (heap \<sigma>) (IL # xs @ [IL])" using assms(1) by (simp add: holds_def dll_def)
  also have "IL # xs @ [IL] = ys @ p # (zs @ [IL])" using eq by (metis append.assoc append_Cons)
  also have "\<dots> = ys @ p # hd (zs @ [IL]) # tl (zs @ [IL])" by simp
  finally have lk: "linked (heap \<sigma>) (ys @ p # hd (zs @ [IL]) # tl (zs @ [IL]))" .
  have "hd (zs @ [IL]) \<in> set (IL # xs)" 
  proof (cases zs)
    case (Cons z zs')
    then have "z \<in> set (IL # xs)" unfolding eq by simp
    then show ?thesis using Cons by simp
  qed simp
  then show thesis using linked_dom [OF lk] that by (auto simp: next_of_def)
qed

lemma export_clause_ok:
  assumes "holds \<sigma> xs" "clause_ok xs c"
  shows "export_clause \<sigma> c = Inr (clause_of (heap \<sigma>) c)"
proof -
  have in_list: "m_pTryBegin c \<in> set (IL # xs)" "m_pTryEnd c \<in> set (IL # xs)"
    "m_pHandlerBegin c \<in> set (IL # xs)" "m_pHandlerEnd c \<in> set (IL # xs)"
    using assms(2) by (simp_all add: clause_ok_def)
  obtain tb te hb where a: "heap \<sigma> (m_pTryBegin c) = Some tb" "heap \<sigma> (m_pTryEnd c) = Some te"
    "heap \<sigma> (m_pHandlerBegin c) = Some hb"
    using holds_dom [OF assms(1)] in_list by metis
  obtain he hn where b: "heap \<sigma> (m_pHandlerEnd c) = Some he" "heap \<sigma> (m_pNext he) = Some hn"
    using holds_next [OF assms(1) in_list(4)] .
  show ?thesis
  proof (cases "m_eharg c")
    case (m_ClassToken t)
    then show ?thesis using assms(2) a b
      by (simp add: export_clause_def clause_ok_def clause_of_def offset_at_def)
  next
    case (m_pFilter f)
    then obtain fi where "heap \<sigma> f = Some fi" using holds_dom [OF assms(1), of f] assms(2)
      by (auto simp: clause_ok_def)
    then show ?thesis using assms(2) a b m_pFilter
      by (simp add: export_clause_def clause_ok_def clause_of_def offset_at_def)
  qed
qed

lemma export_clauses_ok:
  assumes "holds \<sigma> xs" "\<forall>c \<in> set (m_pEH \<sigma>). clause_ok xs c"
    and "iEH + n = length (m_pEH \<sigma>)" "pos + 24 * n \<le> length body"
  shows "export_clauses \<sigma> n iEH pos body =
    Inr (take pos body @ concat (map (\<lambda>c. fat_clause_bytes (clause_of (heap \<sigma>) c)) (drop iEH (m_pEH \<sigma>))) @
      drop (pos + 24 * n) body)"
  using assms(3,4)
proof (induction n arbitrary: iEH pos body)
  case (Suc n)
  let ?c = "m_pEH \<sigma> ! iEH"
  let ?b = "fat_clause_bytes (clause_of (heap \<sigma>) ?c)"
  let ?body = "take pos body @ ?b @ drop (pos + 24) body"
  have i: "iEH < length (m_pEH \<sigma>)" using Suc.prems(1) by simp
  then have "export_clause \<sigma> ?c = Inr (clause_of (heap \<sigma>) ?c)"
    using assms(2) by (intro export_clause_ok [OF assms(1)]) simp
  moreover have "store_bytes body pos ?b = Inr ?body"
    using Suc.prems(2) by (simp add: store_bytes_def)
  moreover have "export_clauses \<sigma> n (Suc iEH) (pos + 24) ?body = Inr (take (pos + 24) ?body @
      concat (map (\<lambda>c. fat_clause_bytes (clause_of (heap \<sigma>) c)) (drop (Suc iEH) (m_pEH \<sigma>))) @
      drop (pos + 24 + 24 * n) ?body)"
    using Suc.prems by (intro Suc.IH) auto
  moreover have "take (pos + 24) ?body = take pos body @ ?b" using Suc.prems(2) by (simp add: min_def)
  moreover have "drop (pos + 24 + 24 * n) ?body = drop (pos + 24 * Suc n) body"
    using Suc.prems(2) by (simp add: min_def ac_simps)
  moreover have "drop iEH (m_pEH \<sigma>) = ?c # drop (Suc iEH) (m_pEH \<sigma>)"
    using i by (simp add: Cons_nth_drop_Suc)
  ultimately show ?case using i by simp
qed simp

section \<open>The bodies\<close>

lemma unat_align: "unat (x AND NOT 3 :: 32 word) = unat x div 4 * 4"
proof -
  have eq: "x AND NOT 3 = push_bit 2 (drop_bit 2 x)"
  proof (rule bit_word_eqI)
    fix n show "bit (x AND NOT 3) n = bit (push_bit 2 (drop_bit 2 x)) n" if "n < LENGTH(32)"
    proof (cases "n < 2")
      case True
      then have "n = 0 \<or> n = 1" by auto
      then show ?thesis by (auto simp: wbits)
    next
      case False
      then have "n = Suc (Suc (n - 2))" "n \<noteq> 0" "n \<noteq> 1" by simp_all
      then show ?thesis using that by (auto simp: wbits)
    qed
  qed
  have "unat x < 2 ^ LENGTH(32)" by (rule unsigned_less)
  then have "unat x div 4 * 4 < 2 ^ 32" by simp
  moreover have d: "unat (x div 4) = unat x div 4" by (simp add: unat_div)
  ultimately have "unat (x div 4 * 4) = unat x div 4 * 4"
    using unat_mult_lem [of "x div 4" 4] by simp
  moreover have "push_bit 2 (drop_bit 2 x) = x div 4 * 4"
    by (simp add: push_bit_eq_mult drop_bit_eq_div)
  ultimately show ?thesis using eq by simp
qed

lemma unat_aligned:
  assumes "n + 3 < 2 ^ 32"
  shows "unat ((word_of_nat n + 3) AND NOT 3 :: 32 word) = (n + 3) div 4 * 4"
proof -
  have "unat (word_of_nat n + 3 :: 32 word) = n + 3"
    using assms unat_of_nat_32 [of "n + 3"] by simp
  then show ?thesis by (simp only: unat_align)
qed


text \<open>What the rewriter must be for an export: a list of well-formed instructions, clauses over its
  instructions and as many as the count says, and few enough of both.\<close>

definition export_ready :: "ILRewriter \<Rightarrow> addr list \<Rightarrow> bool" where
  "export_ready \<sigma> xs \<longleftrightarrow> holds \<sigma> xs \<and> exportable (heap \<sigma>) xs \<and> next_addr \<sigma> \<le> 2 ^ 27 \<and>
     (\<forall>c \<in> set (m_pEH \<sigma>). clause_ok xs c) \<and> unat (m_nEH \<sigma>) = length (m_pEH \<sigma>) \<and>
     4 + 24 * length (m_pEH \<sigma>) < 2 ^ 24"

lemma same_rest_fields:
  assumes "same_rest \<sigma> \<sigma>'"
  shows "m_pEH \<sigma>' = m_pEH \<sigma>" "m_nEH \<sigma>' = m_nEH \<sigma>" "m_fGenerateTinyHeader \<sigma>' = m_fGenerateTinyHeader \<sigma>"
    "m_maxStack \<sigma>' = m_maxStack \<sigma>" "m_flags \<sigma>' = m_flags \<sigma>" "m_tkLocalVarSig \<sigma>' = m_tkLocalVarSig \<sigma>"
    "m_fRejit \<sigma>' = m_fRejit \<sigma>" "next_addr \<sigma>' = next_addr \<sigma>"
  using arg_cong [OF assms [unfolded same_rest_def], of m_pEH] arg_cong [OF assms [unfolded same_rest_def], of m_nEH]
    arg_cong [OF assms [unfolded same_rest_def], of m_fGenerateTinyHeader]
    arg_cong [OF assms [unfolded same_rest_def], of m_maxStack] arg_cong [OF assms [unfolded same_rest_def], of m_flags]
    arg_cong [OF assms [unfolded same_rest_def], of m_tkLocalVarSig]
    arg_cong [OF assms [unfolded same_rest_def], of m_fRejit] arg_cong [OF assms [unfolded same_rest_def], of next_addr]
  by simp_all

lemma length_new_bytes [simp]: "length (new_bytes api n) = unat n"
  by (simp add: new_bytes_def)

text \<open>The state an export ends its layout in.\<close>

definition export_state :: "rewriter_api \<Rightarrow> ILRewriter \<Rightarrow> addr list \<Rightarrow> ILRewriter \<Rightarrow> bool" where
  "export_state api \<sigma> xs \<sigma>' \<longleftrightarrow>
     layout_code (next_addr \<sigma>) (\<sigma>\<lparr>m_pOutputBuffer := new_bytes api (m_nInstrs \<sigma> * 10)\<rparr>) =
       Inr (word_of_nat (code_total (heap \<sigma>') xs), \<sigma>') \<and>
     holds \<sigma>' xs \<and> relaxed (heap \<sigma>) (heap \<sigma>') \<and> same_rest \<sigma> \<sigma>' \<and> laid_out \<sigma>' xs \<and>
     code_total (heap \<sigma>') xs \<le> 10 * 2 ^ 27"

lemma export_layout:
  assumes "export_ready \<sigma> xs"
  obtains \<sigma>' where "export_state api \<sigma> xs \<sigma>'"
proof -
  have h: "holds \<sigma> xs" and ex: "exportable (heap \<sigma>) xs" and n: "next_addr \<sigma> \<le> 2 ^ 27"
    using assms by (simp_all add: export_ready_def)
  let ?\<sigma> = "\<sigma>\<lparr>m_pOutputBuffer := new_bytes api (m_nInstrs \<sigma> * 10)\<rparr>"
  have "m_nInstrs \<sigma> * 10 = word_of_nat ((next_addr \<sigma> - 2) * 10)" using h by (simp add: holds_def)
  moreover have "unat (word_of_nat ((next_addr \<sigma> - 2) * 10) :: 32 word) = (next_addr \<sigma> - 2) * 10"
    using n by (intro unat_of_nat_32) simp
  moreover have "length (m_pOutputBuffer ?\<sigma>) = unat (m_nInstrs \<sigma> * 10)" by simp
  ultimately have len: "length (m_pOutputBuffer ?\<sigma>) = (next_addr \<sigma> - 2) * 10"
    by (simp only:)
  have xs: "length xs + 2 \<le> next_addr \<sigma>" by (rule holds_length [OF h])
  have "\<exists>\<sigma>'. layout_code (next_addr \<sigma>) ?\<sigma> = Inr (word_of_nat (code_total (heap \<sigma>') xs), \<sigma>') \<and>
     holds \<sigma>' xs \<and> relaxed (heap ?\<sigma>) (heap \<sigma>') \<and> same_rest ?\<sigma> \<sigma>' \<and>
     length (m_pOutputBuffer \<sigma>') = length (m_pOutputBuffer ?\<sigma>) \<and> laid_out \<sigma>' xs"
  proof (rule layout_code_ok)
    show "holds ?\<sigma> xs" by (rule holds_cong [OF h]) simp_all
    show "shorts (heap ?\<sigma>) xs < next_addr \<sigma>"
      unfolding shorts_def by (rule le_less_trans [OF length_filter_le]) (use xs in simp)
    show "length (m_pOutputBuffer ?\<sigma>) + 2 < 2 ^ 32" unfolding len using n by simp
    show "10 * length xs \<le> length (m_pOutputBuffer ?\<sigma>)" unfolding len using xs by simp
  qed (use ex in simp)
  then obtain \<sigma>' where s: "layout_code (next_addr \<sigma>) ?\<sigma> = Inr (word_of_nat (code_total (heap \<sigma>') xs), \<sigma>')"
    "holds \<sigma>' xs" "relaxed (heap ?\<sigma>) (heap \<sigma>')" "same_rest ?\<sigma> \<sigma>'" "laid_out \<sigma>' xs"
    by (elim exE conjE) (rule that)
  have "same_rest \<sigma> ?\<sigma>" by simp
  then have "same_rest \<sigma> \<sigma>'" using s(4) by (rule same_rest_trans)
  moreover have "code_total (heap \<sigma>') xs \<le> 10 * 2 ^ 27"
    using code_total_le [of "heap \<sigma>'" xs] xs n by (simp del: power_numeral)
  ultimately have "export_state api \<sigma> xs \<sigma>'" using s by (simp add: export_state_def)
  then show thesis by (rule that)
qed

lemma Export_unfold:
  assumes "export_state api \<sigma> xs \<sigma>'"
  shows "Export api \<sigma> =
    (let codeSize = word_of_nat (code_total (heap \<sigma>') xs);
         finish = (\<lambda>body. Inr (if FAILED (api_SetILFunctionBody api body)
                               then api_SetILFunctionBody api body else S_OK, Some body, \<sigma>')) in
     if m_fGenerateTinyHeader \<sigma> then
       if codeSize \<ge> 64 then Inr (E_FAIL, None, \<sigma>')
       else if \<not> AllocateILMemory api \<sigma> (1 + codeSize) then Inr (E_OUTOFMEMORY, None, \<sigma>')
       else bindO (tiny_body api \<sigma>' codeSize) finish
     else
       if \<not> AllocateILMemory api \<sigma> (fat_totalSize \<sigma> codeSize) then Inr (E_OUTOFMEMORY, None, \<sigma>')
       else bindO (fat_body api \<sigma>' codeSize) finish)"
proof -
  have "same_rest \<sigma> \<sigma>'" using assms by (simp add: export_state_def)
  note same_rest_fields [OF this]
  then show ?thesis
    using assms by (simp add: export_state_def Export_def Let_def AllocateILMemory_def fat_totalSize_def)
qed

lemma tiny_body_eq:
  assumes "laid_out \<sigma> xs" "code_total (heap \<sigma>) xs < 64"
  shows "tiny_body api \<sigma> (word_of_nat (code_total (heap \<sigma>) xs)) =
    Inr (ucast (CorILMethod_TinyFormat OR push_bit 2 (word_of_nat (code_total (heap \<sigma>) xs) :: 32 word)) #
      code_of (heap \<sigma>) xs)"
proof -
  let ?n = "code_total (heap \<sigma>) xs"
  have n: "unat (word_of_nat ?n :: 32 word) = ?n" "unat (1 + word_of_nat ?n :: 32 word) = 1 + ?n"
    using assms(2) unat_of_nat_32 [of ?n] unat_of_nat_32 [of "1 + ?n"] by simp_all
  have le: "?n \<le> length (m_pOutputBuffer \<sigma>)" and ex: "exportable (heap \<sigma>) xs"
    using assms(1) by (simp_all add: laid_out_def)
  obtain b bs where nb: "new_bytes api (1 + word_of_nat ?n) = b # bs" "length bs = ?n"
    using length_new_bytes [of api "1 + word_of_nat ?n"] unfolding n by (cases "new_bytes api (1 + word_of_nat ?n)") auto
  show ?thesis
    using le unfolding tiny_body_def n laid_out_code [OF assms(1)] nb(1)
    by (simp add: store_bytes_def nb(2) length_code_of [OF ex])
qed

definition export_header :: "ILRewriter \<Rightarrow> ULONG \<Rightarrow> IMAGE_COR_ILMETHOD_FAT" where
  "export_header \<sigma> codeSize =
     \<lparr>fh_Flags = ucast (m_flags \<sigma> OR (if m_nEH \<sigma> \<noteq> 0 then CorILMethod_MoreSects else 0)
        OR CorILMethod_FatFormat),
      fh_Size = 3, fh_MaxStack = ucast (m_maxStack \<sigma>), fh_CodeSize = codeSize,
      fh_LocalVarSigTok = m_tkLocalVarSig \<sigma>\<rparr>"

definition export_section :: "ILRewriter \<Rightarrow> BYTE list" where
  "export_section \<sigma> =
     (if m_nEH \<sigma> = 0 then []
      else [CorILMethod_Sect_EHTable OR CorILMethod_Sect_FatFormat] @ put_le 3 (4 + 24 * m_nEH \<sigma>) @
        concat (map (\<lambda>c. fat_clause_bytes (clause_of (heap \<sigma>) c)) (m_pEH \<sigma>)))"

lemma length_export_section:
  "unat (m_nEH \<sigma>) = length (m_pEH \<sigma>) \<Longrightarrow>
   length (export_section \<sigma>) = (if m_nEH \<sigma> = 0 then 0 else 4 + 24 * length (m_pEH \<sigma>))"
  by (simp add: export_section_def length_concat_const [of _ 24])

lemma nEH_size:
  assumes "unat (m_nEH \<sigma>) = length (m_pEH \<sigma>)" "4 + 24 * length (m_pEH \<sigma>) < 2 ^ 24"
  shows "4 + 24 * m_nEH \<sigma> = word_of_nat (4 + 24 * length (m_pEH \<sigma>))"
    "unat (4 + 24 * m_nEH \<sigma>) = 4 + 24 * length (m_pEH \<sigma>)"
proof -
  have "m_nEH \<sigma> = word_of_nat (unat (m_nEH \<sigma>))" by simp
  then have "m_nEH \<sigma> = word_of_nat (length (m_pEH \<sigma>))" by (simp only: assms(1))
  then show eq: "4 + 24 * m_nEH \<sigma> = word_of_nat (4 + 24 * length (m_pEH \<sigma>))" by simp
  show "unat (4 + 24 * m_nEH \<sigma>) = 4 + 24 * length (m_pEH \<sigma>)"
    unfolding eq by (rule unat_of_nat_32) (use assms(2) in simp)
qed

lemma unat_fat_totalSize:
  assumes "unat (m_nEH \<sigma>) = length (m_pEH \<sigma>)" "4 + 24 * length (m_pEH \<sigma>) < 2 ^ 24" "n \<le> 10 * 2 ^ 27"
  shows "unat (fat_totalSize \<sigma> (word_of_nat n)) = 12 + (n + 3) div 4 * 4 + length (export_section \<sigma>)"
proof -
  let ?a = "(word_of_nat n + 3) AND NOT 3 :: 32 word"
  let ?s = "(if m_nEH \<sigma> \<noteq> 0 then 4 + 24 * m_nEH \<sigma> else 0)"
  have a: "unat ?a = (n + 3) div 4 * 4" using assms(3) by (intro unat_aligned) simp
  have s: "unat ?s = length (export_section \<sigma>)" "length (export_section \<sigma>) < 2 ^ 24"
    using nEH_size [OF assms(1,2)] assms(1,2) by (simp_all add: length_export_section)
  have "(n + 3) div 4 * 4 \<le> n + 3" by simp
  then have "unat ?a + 12 < 2 ^ 32 - 2 ^ 24" unfolding a using assms(3) by simp
  then have "unat (12 + ?a) = 12 + unat ?a" by (subst unat_add_lem [THEN iffD1]) simp_all
  moreover have "unat (12 + ?a + ?s) = unat (12 + ?a) + unat ?s"
    by (subst unat_add_lem [THEN iffD1]) (use calculation \<open>unat ?a + 12 < _\<close> s in simp_all)
  ultimately show ?thesis unfolding fat_totalSize_def by (simp only: a s)
qed

lemma take_exact: "length xs = n \<Longrightarrow> take n (xs @ ys) = xs"
  by simp

lemma drop_take_split: "a \<le> b \<Longrightarrow> take (b - a) (drop a xs) @ drop b xs = drop a xs"
  by (metis append_take_drop_id drop_drop le_add_diff_inverse2)

lemma fat_body_unfold:
  "unat c \<le> length (m_pOutputBuffer \<sigma>) \<Longrightarrow> fat_body api \<sigma> c =
     bindO (store_bytes (new_bytes api (fat_totalSize \<sigma> c)) 0 (fat_header_bytes (export_header \<sigma> c))) (\<lambda>body.
     bindO (store_bytes body 12 (take (unat c) (m_pOutputBuffer \<sigma>))) (\<lambda>body.
       if m_nEH \<sigma> \<noteq> 0 then
         bindO (store_bytes body (12 + unat ((c + 3) AND NOT 3))
           ([CorILMethod_Sect_EHTable OR CorILMethod_Sect_FatFormat] @ put_le 3 (4 + 24 * m_nEH \<sigma>)))
           (export_clauses \<sigma> (unat (m_nEH \<sigma>)) 0 (12 + unat ((c + 3) AND NOT 3) + 4))
       else Inr body))"
  by (simp add: fat_body_def export_header_def Let_def)

lemma fat_body_eq:
  assumes "holds \<sigma> xs" "laid_out \<sigma> xs" "\<forall>c \<in> set (m_pEH \<sigma>). clause_ok xs c"
    and "unat (m_nEH \<sigma>) = length (m_pEH \<sigma>)" "4 + 24 * length (m_pEH \<sigma>) < 2 ^ 24"
    and "code_total (heap \<sigma>) xs \<le> 10 * 2 ^ 27"
  shows "\<exists>pad. fat_body api \<sigma> (word_of_nat (code_total (heap \<sigma>) xs)) =
      Inr (fat_header_bytes (export_header \<sigma> (word_of_nat (code_total (heap \<sigma>) xs))) @
        code_of (heap \<sigma>) xs @ pad @ export_section \<sigma>) \<and>
    length pad < 4 \<and> (code_total (heap \<sigma>) xs + length pad) mod 4 = 0"
proof -
  let ?n = "code_total (heap \<sigma>) xs"
  let ?c = "word_of_nat ?n :: 32 word"
  let ?A = "(?n + 3) div 4 * 4"
  let ?h = "fat_header_bytes (export_header \<sigma> ?c)"
  let ?new = "new_bytes api (fat_totalSize \<sigma> ?c)"
  let ?code = "code_of (heap \<sigma>) xs"
  have n: "unat ?c = ?n" using assms(6) by (intro unat_of_nat_32) simp
  have len: "length ?new = 12 + ?A + length (export_section \<sigma>)"
    using unat_fat_totalSize [OF assms(4,5,6)] by simp
  have le: "?n \<le> length (m_pOutputBuffer \<sigma>)" and ex: "exportable (heap \<sigma>) xs"
    using assms(2) by (simp_all add: laid_out_def)
  have A: "?n \<le> ?A" "?A < ?n + 4" by arith+
  have uA: "unat ((?c + 3) AND NOT 3) = ?A" by (rule unat_aligned) (use assms(6) in simp)
  have lc: "length ?code = ?n" by (rule length_code_of [OF ex])
  have 1: "store_bytes ?new 0 ?h = Inr (?h @ drop 12 ?new)"
    using len by (simp add: store_bytes_def del: length_new_bytes)
  have 2: "store_bytes (?h @ drop 12 ?new) 12 ?code = Inr (?h @ ?code @ drop (12 + ?n) ?new)"
    using A(1) len by (simp add: store_bytes_def lc add.commute del: length_new_bytes)
  have "length (take (?A - ?n) (drop (12 + ?n) ?new)) = ?A - ?n" using A(1) len by simp
  moreover have "drop (12 + ?n) ?new = take (?A - ?n) (drop (12 + ?n) ?new) @ drop (12 + ?A) ?new"
    using drop_take_split [of "12 + ?n" "12 + ?A" ?new] A(1) by simp
  ultimately obtain pad where pad: "length pad = ?A - ?n" "drop (12 + ?n) ?new = pad @ drop (12 + ?A) ?new"
    by (rule that)
  have "unat ?c \<le> length (m_pOutputBuffer \<sigma>)" using le by (simp only: n)
  note unf = fat_body_unfold [OF this, unfolded n laid_out_code [OF assms(2)]]
  have body: "fat_body api \<sigma> ?c = Inr (?h @ ?code @ pad @ export_section \<sigma>)"
  proof (cases "m_nEH \<sigma> = 0")
    case True
    then have "drop (12 + ?A) ?new = []" using len by (simp add: export_section_def)
    then show ?thesis
      unfolding unf 1 bindO_simps 2 pad(2) using True by (simp add: export_section_def)
  next
    case False
    let ?new' = "drop (12 + ?A) ?new"
    let ?k = "[CorILMethod_Sect_EHTable OR CorILMethod_Sect_FatFormat] @ put_le 3 (4 + 24 * m_nEH \<sigma>)"
    let ?pre = "?h @ ?code @ pad"
    let ?cl = "concat (map (\<lambda>c. fat_clause_bytes (clause_of (heap \<sigma>) c)) (m_pEH \<sigma>))"
    have lp: "length ?pre = 12 + ?A" using A(1) pad(1) lc by simp
    have ln: "length ?new' = 4 + 24 * length (m_pEH \<sigma>)"
      using len False by (simp add: length_export_section [OF assms(4)])
    have 3: "store_bytes (?pre @ ?new') (12 + ?A) ?k = Inr ((?pre @ ?k) @ drop 4 ?new')"
      using lp ln by (simp add: store_bytes_def)
    have "export_clauses \<sigma> (unat (m_nEH \<sigma>)) 0 (12 + ?A + 4) ((?pre @ ?k) @ drop 4 ?new') =
        Inr (take (12 + ?A + 4) ((?pre @ ?k) @ drop 4 ?new') @ ?cl @
             drop (12 + ?A + 4 + 24 * unat (m_nEH \<sigma>)) ((?pre @ ?k) @ drop 4 ?new'))"
      using export_clauses_ok [OF assms(1,3), of 0 "unat (m_nEH \<sigma>)" "12 + ?A + 4" "(?pre @ ?k) @ drop 4 ?new'"]
        assms(4) lp ln by simp
    moreover have "take (12 + ?A + 4) ((?pre @ ?k) @ drop 4 ?new') = ?pre @ ?k"
      by (rule take_exact) (use lp in simp)
    moreover have "drop (12 + ?A + 4 + 24 * unat (m_nEH \<sigma>)) ((?pre @ ?k) @ drop 4 ?new') = []"
      using lp ln assms(4) by simp
    ultimately have 4: "export_clauses \<sigma> (unat (m_nEH \<sigma>)) 0 (12 + ?A + 4) ((?pre @ ?k) @ drop 4 ?new') =
        Inr (?pre @ ?k @ ?cl)" by simp
    have assoc: "?h @ ?code @ pad @ ?new' = ?pre @ ?new'" by simp
    have "fat_body api \<sigma> ?c = Inr (?pre @ ?k @ ?cl)"
      unfolding unf 1 bindO_simps 2 pad(2) uA assoc if_P [OF False] 3 4 ..
    then show ?thesis using False by (simp only: export_section_def if_False append_assoc)
  qed
  have "length pad < 4" "(?n + length pad) mod 4 = 0" unfolding pad(1) using A by simp_all
  with body show ?thesis by (intro exI [of _ pad] conjI)
qed


section \<open>The export\<close>

lemma export_state_parts:
  assumes "export_state api \<sigma> xs \<sigma>'" "export_ready \<sigma> xs"
  shows "holds \<sigma>' xs" "laid_out \<sigma>' xs" "\<forall>c \<in> set (m_pEH \<sigma>'). clause_ok xs c"
    "unat (m_nEH \<sigma>') = length (m_pEH \<sigma>')" "4 + 24 * length (m_pEH \<sigma>') < 2 ^ 24"
    "code_total (heap \<sigma>') xs \<le> 10 * 2 ^ 27" "relaxed (heap \<sigma>) (heap \<sigma>')" "same_rest \<sigma> \<sigma>'"
proof -
  show rest: "same_rest \<sigma> \<sigma>'" using assms(1) by (simp add: export_state_def)
  note same_rest_fields [OF rest]
  with assms show "holds \<sigma>' xs" "laid_out \<sigma>' xs" "\<forall>c \<in> set (m_pEH \<sigma>'). clause_ok xs c"
    "unat (m_nEH \<sigma>') = length (m_pEH \<sigma>')" "4 + 24 * length (m_pEH \<sigma>') < 2 ^ 24"
    "code_total (heap \<sigma>') xs \<le> 10 * 2 ^ 27" "relaxed (heap \<sigma>) (heap \<sigma>')"
    by (simp_all add: export_state_def export_ready_def)
qed

lemma unat_total: "export_state api \<sigma> xs \<sigma>' \<Longrightarrow> unat (word_of_nat (code_total (heap \<sigma>') xs) :: 32 word) = code_total (heap \<sigma>') xs"
  by (intro unat_of_nat_32) (simp add: export_state_def)

text \<open>What an export answers, whichever way it goes.\<close>

definition tiny_bytes :: "(addr \<Rightarrow> ILInstr option) \<Rightarrow> addr list \<Rightarrow> BYTE list" where
  "tiny_bytes h xs =
     ucast (CorILMethod_TinyFormat OR push_bit 2 (word_of_nat (code_total h xs) :: 32 word)) # code_of h xs"

lemma Export_cases:
  assumes "export_ready \<sigma> xs"
  obtains \<sigma>' hr body where "Export api \<sigma> = Inr (hr, body, \<sigma>')" "export_state api \<sigma> xs \<sigma>'"
    and "m_fGenerateTinyHeader \<sigma> \<Longrightarrow> 64 \<le> code_total (heap \<sigma>') xs \<Longrightarrow> hr = E_FAIL \<and> body = None"
    and "m_fGenerateTinyHeader \<sigma> \<Longrightarrow> code_total (heap \<sigma>') xs < 64 \<Longrightarrow> body = Some (tiny_bytes (heap \<sigma>') xs) \<or>
       hr = E_OUTOFMEMORY \<and> body = None \<and>
         \<not> AllocateILMemory api \<sigma> (1 + word_of_nat (code_total (heap \<sigma>') xs))"
    and "\<not> m_fGenerateTinyHeader \<sigma> \<Longrightarrow>
       (\<exists>pad. body = Some (fat_header_bytes (export_header \<sigma>' (word_of_nat (code_total (heap \<sigma>') xs))) @
          code_of (heap \<sigma>') xs @ pad @ export_section \<sigma>') \<and>
          length pad < 4 \<and> (code_total (heap \<sigma>') xs + length pad) mod 4 = 0) \<or>
       hr = E_OUTOFMEMORY \<and> body = None \<and>
         \<not> AllocateILMemory api \<sigma> (fat_totalSize \<sigma> (word_of_nat (code_total (heap \<sigma>') xs)))"
    and "\<And>b. body = Some b \<Longrightarrow>
       hr = (if FAILED (api_SetILFunctionBody api b) then api_SetILFunctionBody api b else S_OK)"
proof -
  obtain \<sigma>' where s: "export_state api \<sigma> xs \<sigma>'" using export_layout [OF assms] .
  note p = export_state_parts [OF s assms]
  let ?c = "word_of_nat (code_total (heap \<sigma>') xs) :: 32 word"
  note u = Export_unfold [OF s, unfolded Let_def]
  have big: "64 \<le> ?c \<longleftrightarrow> 64 \<le> code_total (heap \<sigma>') xs" using unat_total [OF s] by (simp add: word_le_nat_alt)
  consider (fail) "m_fGenerateTinyHeader \<sigma>" "64 \<le> code_total (heap \<sigma>') xs"
    | (tiny) "m_fGenerateTinyHeader \<sigma>" "code_total (heap \<sigma>') xs < 64"
    | (fat) "\<not> m_fGenerateTinyHeader \<sigma>" by linarith
  then show thesis
  proof cases
    case fail
    then have "Export api \<sigma> = Inr (E_FAIL, None, \<sigma>')" unfolding u big by simp
    then show thesis by (rule that [OF _ s]) (use fail in simp_all)
  next
    case tiny
    then have b: "tiny_body api \<sigma>' ?c = Inr (tiny_bytes (heap \<sigma>') xs)"
      using tiny_body_eq [OF p(2)] by (simp add: tiny_bytes_def)
    show thesis
    proof (cases "AllocateILMemory api \<sigma> (1 + ?c)")
      case True
      then show thesis using tiny u [unfolded big b] that [OF _ s] by simp
    next
      case False
      then have "Export api \<sigma> = Inr (E_OUTOFMEMORY, None, \<sigma>')" unfolding u big using tiny by simp
      then show thesis by (rule that [OF _ s]) (use tiny False in simp_all)
    qed
  next
    case fat
    obtain pad where b: "fat_body api \<sigma>' ?c = Inr (fat_header_bytes (export_header \<sigma>' ?c) @
        code_of (heap \<sigma>') xs @ pad @ export_section \<sigma>')" "length pad < 4"
        "(code_total (heap \<sigma>') xs + length pad) mod 4 = 0"
      using fat_body_eq [OF p(1-6), of api] by (elim exE conjE) (rule that)
    show thesis
    proof (cases "AllocateILMemory api \<sigma> (fat_totalSize \<sigma> ?c)")
      case True
      let ?b = "fat_header_bytes (export_header \<sigma>' ?c) @ code_of (heap \<sigma>') xs @ pad @ export_section \<sigma>'"
      have "Export api \<sigma> = Inr (if FAILED (api_SetILFunctionBody api ?b)
          then api_SetILFunctionBody api ?b else S_OK, Some ?b, \<sigma>')"
        unfolding u b(1) using fat True by simp
      then show thesis
      proof (rule that [OF _ s])
        assume "\<not> m_fGenerateTinyHeader \<sigma>"
        show "(\<exists>pad. Some ?b = Some (fat_header_bytes (export_header \<sigma>' ?c) @
          code_of (heap \<sigma>') xs @ pad @ export_section \<sigma>') \<and>
          length pad < 4 \<and> (code_total (heap \<sigma>') xs + length pad) mod 4 = 0) \<or>
          (if FAILED (api_SetILFunctionBody api ?b) then api_SetILFunctionBody api ?b else S_OK) = E_OUTOFMEMORY \<and>
          Some ?b = None \<and> \<not> AllocateILMemory api \<sigma> (fat_totalSize \<sigma> ?c)"
          using b(2,3) by (intro disjI1 exI [of _ pad]) (simp only: simp_thms)
      next
        fix b' assume "Some ?b = Some b'"
        then show "(if FAILED (api_SetILFunctionBody api ?b) then api_SetILFunctionBody api ?b else S_OK) =
          (if FAILED (api_SetILFunctionBody api b') then api_SetILFunctionBody api b' else S_OK)"
          by (simp only: option.inject)
      qed (use fat in simp_all)
    next
      case False
      then have "Export api \<sigma> = Inr (E_OUTOFMEMORY, None, \<sigma>')" unfolding u using fat by simp
      then show thesis by (rule that [OF _ s]) (use fat False in simp_all)
    qed
  qed
qed

text \<open>The value of a branch operand: one or four bytes after the opcode, signed.\<close>

definition branch_operand :: "ILInstr \<Rightarrow> BYTE list \<Rightarrow> int" where
  "branch_operand i code =
     (let pos = unat (m_offset i) + length (opcode_bytes (m_opcode i)) in
      if flags_of (m_opcode i) = 0x11 then sint (get_le (take 1 (drop pos code)) :: 8 word)
      else sint (get_le (take 4 (drop pos code)) :: 32 word))"

lemma sint_diff:
  fixes a b :: "32 word"
  assumes "unat a < 2 ^ 31" "unat b < 2 ^ 31"
  shows "sint (a - b) = int (unat a) - int (unat b)"
proof -
  obtain m n where mn: "unat a = m" "unat b = n" by blast
  have ua: "uint a = int m" "uint b = int n" unfolding mn [symmetric] by simp_all
  have "sint (a - b) = sint (word_of_int (uint a - uint b) :: 32 word)"
    by (simp only: of_int_diff word_of_int_uint)
  also have "\<dots> = signed_take_bit (LENGTH(32) - 1) (int m - int n)"
    unfolding ua by (rule sint_sbintrunc')
  also have "\<dots> = int m - int n"
    using assms unfolding mn by (intro signed_take_bit_int_eq_self) simp_all
  finally show ?thesis by (simp only: mn)
qed

lemma branch_lands:
  assumes "laid_out \<sigma> xs" "holds \<sigma> xs" "code_total (heap \<sigma>) xs \<le> 10 * 2 ^ 27" "y \<in> set xs"
    and y: "heap \<sigma> y = Some i" "is_branch (m_opcode i)"
    and t: "heap \<sigma> (target_of i) = Some ti" and n: "heap \<sigma> (m_pNext i) = Some ni"
  shows "branch_operand i (m_pOutputBuffer \<sigma>) + int (unat (m_offset ni)) = int (unat (m_offset ti))"
    and "unat (m_offset ni) = unat (m_offset i) + instr_size (m_opcode i)"
proof -
  let ?h = "heap \<sigma>" and ?buf = "m_pOutputBuffer \<sigma>" and ?n = "operand_size (flags_of (m_opcode i))"
  have laid: "laid ?h xs" and ex: "exportable ?h xs" and enc: "encoded ?h ?buf y"
    using assms(1,4) by (simp_all add: laid_out_def)
  obtain k where k: "k < length xs" "y = xs ! k" using assms(4) by (metis in_set_conv_nth)
  have nxt: "m_pNext i = (xs @ [IL]) ! Suc k"
    using next_at [OF linked_next(1) [OF assms(2)] k(1)] y(1) k(2) by simp
  have bound: "unat (offset_at ?h p) \<le> code_total ?h xs" if "p \<in> set (IL # xs)" for p
  proof (cases "p = IL")
    case False
    then have "p \<in> set xs" using that by simp
    then obtain j where "j < length xs" "p = xs ! j" by (metis in_set_conv_nth)
    then show ?thesis using laid code_total_take_mono [of j "length xs" ?h xs] by (simp add: laid_def)
  qed (use laid in \<open>simp add: laid_def\<close>)
  have on: "unat (m_offset ni) = code_total ?h (take (Suc k) xs)"
    using offset_next [OF laid k(1)] n by (simp add: nxt [symmetric] offset_at_def)
  moreover have oi: "unat (m_offset i) = code_total ?h (take k xs)"
    using laid k y(1) by (auto simp: laid_def offset_at_def)
  ultimately show next_off: "unat (m_offset ni) = unat (m_offset i) + instr_size (m_opcode i)"
    using code_total_take_Suc [OF k(1), of ?h] y(1) k(2) by (simp add: size_at_def)
  have typed: "typed_instr i" using ex assms(4) y(1) by (auto simp: exportable_def typed_at_def)
  have "target_of i \<in> set (IL # xs)" using ex assms(4) y by (auto simp: exportable_def branch_at_def)
  then have ti: "unat (m_offset ti) \<le> code_total ?h xs" using bound t by (force simp: offset_at_def)
  have ni: "unat (m_offset ni) \<le> code_total ?h xs"
    unfolding on using code_total_take_mono [of "Suc k" "length xs" ?h xs] k(1) by simp
  have d: "branch_delta ?h i = m_offset ti - m_offset ni"
    by (simp add: branch_delta_def offset_at_def t n)
  have sd: "sint (branch_delta ?h i) = int (unat (m_offset ti)) - int (unat (m_offset ni))"
    unfolding d using ti ni assms(3) by (intro sint_diff) simp_all
  have "drop (length (opcode_bytes (m_opcode i))) (take (instr_size (m_opcode i)) (drop (unat (m_offset i)) ?buf)) =
      put_le ?n (branch_delta ?h i)"
    using enc y by (simp add: encoded_def size_at_def offset_at_def encoding_def)
  then have op: "take ?n (drop (unat (m_offset i) + length (opcode_bytes (m_opcode i))) ?buf) =
      put_le ?n (branch_delta ?h i)"
    by (simp add: instr_size_def drop_take add.commute)
  have "branch_operand i ?buf = sint (branch_delta ?h i)"
  proof (cases "flags_of (m_opcode i) = 0x11")
    case True
    then have fits: "scast (ucast (branch_delta ?h i) :: INT8) = branch_delta ?h i"
      using enc y(1) by (simp add: encoded_def short_at_def)
    have "get_le (put_le 1 (branch_delta ?h i)) = (ucast (branch_delta ?h i) :: 8 word)"
      by (simp add: put_le_def)
    moreover have "sint (ucast (branch_delta ?h i) :: INT8) = sint (scast (ucast (branch_delta ?h i) :: INT8) :: 32 word)"
      by (rule sint_up_scast [symmetric]) (simp add: is_up)
    ultimately show ?thesis
      using op True unfolding fits by (simp add: branch_operand_def operand_size_simps)
  next
    case False
    then have "flags_of (m_opcode i) = 0x14" using y(2) by (simp add: is_branch_def)
    then show ?thesis using op by (simp add: branch_operand_def operand_size_simps)
  qed
  then show "branch_operand i ?buf + int (unat (m_offset ni)) = int (unat (m_offset ti))"
    using sd by simp
qed

lemma header_flags:
  assumes "m_flags \<sigma> AND 0xF = 0"
  shows "fh_Flags (export_header \<sigma> c) AND 7 = 3" "fh_Flags (export_header \<sigma> c) AND 8 \<noteq> 0 \<longleftrightarrow> m_nEH \<sigma> \<noteq> 0"
proof -
  have low: "\<not> bit (m_flags \<sigma>) k" if "k < 4" for k
  proof -
    have "bit (m_flags \<sigma> AND 0xF) k = bit (m_flags \<sigma>) k" using that by (auto simp: wbits)
    then show ?thesis using assms by simp
  qed
  have three: "bit (3 :: int) k \<longleftrightarrow> k < 2" for k
    using bit_mask_iff [of 2 k, where 'a = int] by (simp add: mask_eq_exp_minus_1)
  have seven: "bit (7 :: int) k \<longleftrightarrow> k < 3" for k
    using bit_mask_iff [of 3 k, where 'a = int] by (simp add: mask_eq_exp_minus_1)
  show "fh_Flags (export_header \<sigma> c) AND 7 = 3"
    by (rule bit_word_eqI) (auto simp: export_header_def CorILMethod_MoreSects_def CorILMethod_FatFormat_def
        bit_simps three seven bit_int_8 low)
  have "fh_Flags (export_header \<sigma> c) AND 8 = (if m_nEH \<sigma> \<noteq> 0 then 8 else 0)"
    by (rule bit_word_eqI) (auto simp: export_header_def CorILMethod_MoreSects_def CorILMethod_FatFormat_def
        bit_simps three bit_int_8 low)
  then show "fh_Flags (export_header \<sigma> c) AND 8 \<noteq> 0 \<longleftrightarrow> m_nEH \<sigma> \<noteq> 0" by simp
qed

section \<open>An example\<close>

definition example_export :: "bool \<Rightarrow> ILRewriter" where
  "example_export tiny =
     \<lparr>m_fRejit = False, m_tkLocalVarSig = 0, m_maxStack = 8, m_flags = 0x10,
      m_fGenerateTinyHeader = tiny,
      heap = [1 \<mapsto> \<lparr>m_pNext = 2, m_pPrev = 3, m_opcode = - 1, m_offset = 0, m_arg = m_pTarget NULL\<rparr>,
              2 \<mapsto> \<lparr>m_pNext = 3, m_pPrev = 1, m_opcode = CEE_BR_S, m_offset = 0, m_arg = m_pTarget 3\<rparr>,
              3 \<mapsto> \<lparr>m_pNext = 1, m_pPrev = 2, m_opcode = CEE_RET, m_offset = 0, m_arg = m_pTarget NULL\<rparr>],
      next_addr = 4, m_nEH = 1,
      m_pEH = [\<lparr>m_Flags = 2, m_pTryBegin = 2, m_pTryEnd = 3, m_pHandlerBegin = 3, m_pHandlerEnd = 3,
        m_eharg = m_ClassToken 0\<rparr>],
      m_pOffsetToInstr = [], m_CodeSize = 0, m_nInstrs = 2, m_pOutputBuffer = []\<rparr>"

definition example_api :: rewriter_api where
  "example_api = \<lparr>api_alloc = (\<lambda>_. True), api_SetILFunctionBody = (\<lambda>_. S_OK), api_uninit = (\<lambda>_. 0xCD)\<rparr>"

lemma example_export_ready: "export_ready (example_export tiny) [2, 3]"
proof -
  have "flags_of CEE_BR_S = 0x11" "flags_of CEE_RET = 0" by (simp_all add: flags_of_def)
  then show ?thesis
    by (simp add: export_ready_def holds_def dll_def example_export_def next_of_def prev_of_def IL_def
        exportable_def typed_at_def typed_instr_def arg_fits_def branch_at_def is_branch_def CEE_COUNT_def
        target_of_def clause_ok_def COR_ILEXCEPTION_CLAUSE_FILTER_def)
qed

section \<open>The properties of an export\<close>

text \<open>C12: an export of a list of well-formed instructions whose branches stay in the list ends: the rounds of branch widening stop, no read or write leaves the output buffer, and only an oversized tiny body or a failed allocation leaves no body.\<close>

theorem Export_completes:
  assumes "export_ready \<sigma> xs"
  shows "\<exists>hr body \<sigma>'. Export api \<sigma> = Inr (hr, body, \<sigma>') \<and> holds \<sigma>' xs \<and>
     relaxed (heap \<sigma>) (heap \<sigma>') \<and> (body = None \<longrightarrow> hr = E_FAIL \<or> hr = E_OUTOFMEMORY)"
proof -
  obtain \<sigma>' hr body where e: "Export api \<sigma> = Inr (hr, body, \<sigma>')" "export_state api \<sigma> xs \<sigma>'"
    "body = None \<longrightarrow> hr = E_FAIL \<or> hr = E_OUTOFMEMORY"
    by (rule Export_cases [OF assms, of api]) (metis option.distinct(1) not_le_imp_less)
  note export_state_parts [OF e(2) assms]
  with e show ?thesis by (intro exI conjI)
qed

theorem Export_completes_witness:
  "\<exists>hr body \<sigma>'. Export example_api (example_export False) = Inr (hr, body, \<sigma>') \<and> holds \<sigma>' [2, 3]"
  using Export_completes [OF example_export_ready, of example_api False] by (elim exE conjE) (intro exI conjI)

text \<open>C6: after an export the operand of every branch, short or long, added to the end of the branch gives the offset of its target instruction.\<close>

theorem Export_branches:
  assumes "export_ready \<sigma> xs" and "Export api \<sigma> = Inr (hr, body, \<sigma>')"
    and "y \<in> set xs" and "heap \<sigma>' y = Some i" and "is_branch (m_opcode i)"
    and "heap \<sigma>' (target_of i) = Some ti"
  shows "branch_operand i (m_pOutputBuffer \<sigma>') + int (unat (m_offset i) + instr_size (m_opcode i)) =
     int (unat (m_offset ti))"
proof -
  obtain \<sigma>'' where "export_state api \<sigma> xs \<sigma>''" "Export api \<sigma> = Inr (hr, body, \<sigma>'')"
    by (rule Export_cases [OF assms(1), of api]) (use assms(2) in auto)
  then have s: "export_state api \<sigma> xs \<sigma>'" using assms(2) by simp
  note p = export_state_parts [OF s assms(1)]
  have "y \<in> set (IL # xs)" using assms(3) by simp
  then obtain j n where "heap \<sigma>' y = Some j" "heap \<sigma>' (m_pNext j) = Some n"
    using holds_next [OF p(1)] by metis
  then have n: "heap \<sigma>' (m_pNext i) = Some n" using assms(4) by simp
  note b = branch_lands [OF p(2,1,6) assms(3-6) n]
  then show ?thesis by simp
qed

theorem Export_branches_witness:
  "\<exists>hr body \<sigma>' i ti. Export example_api (example_export True) = Inr (hr, body, \<sigma>') \<and>
     heap \<sigma>' 2 = Some i \<and> heap \<sigma>' 3 = Some ti \<and>
     branch_operand i (m_pOutputBuffer \<sigma>') + int (unat (m_offset i) + instr_size (m_opcode i)) =
     int (unat (m_offset ti))"
proof -
  let ?\<sigma> = "example_export True"
  obtain \<sigma>' hr body where e: "Export example_api ?\<sigma> = Inr (hr, body, \<sigma>')"
    and s: "export_state example_api ?\<sigma> [2, 3] \<sigma>'"
    by (rule Export_cases [OF example_export_ready, of example_api])
  note rel = export_state_parts(7) [OF s example_export_ready]
  obtain b r where b: "heap ?\<sigma> 2 = Some b" "heap ?\<sigma> 3 = Some r" "m_opcode b = CEE_BR_S" "m_arg b = m_pTarget 3"
    by (simp add: example_export_def)
  obtain i where i: "heap \<sigma>' 2 = Some i" "relaxed_instr b i" using relaxed_Some [OF rel b(1)] .
  obtain ti where ti: "heap \<sigma>' 3 = Some ti" "relaxed_instr r ti" using relaxed_Some [OF rel b(2)] .
  have "typed_instr b" "is_branch (m_opcode b)" "target_of b = 3"
    using b(3,4) by (simp_all add: typed_instr_def arg_fits_def is_branch_def flags_of_def CEE_COUNT_def target_of_def)
  then have br: "is_branch (m_opcode i)" and "target_of i = 3"
    using relaxed_typed [OF i(2)] by simp_all
  then have t: "heap \<sigma>' (target_of i) = Some ti" using ti(1) by simp
  have "2 \<in> set [2, 3 :: addr]" by simp
  from Export_branches [OF example_export_ready e this i(1) br t] e i(1) ti(1)
  show ?thesis by (intro exI conjI)
qed

text \<open>With a tiny header, code of 64 bytes or more is refused with \<open>E_FAIL\<close>; shorter code becomes a body in which the runtime finds the concatenated encodings of the instructions.\<close>

theorem Export_tiny:
  assumes "export_ready \<sigma> xs" and "m_fGenerateTinyHeader \<sigma>" and "\<forall>n. AllocateILMemory api \<sigma> n"
  shows "\<exists>hr body \<sigma>'. Export api \<sigma> = Inr (hr, body, \<sigma>') \<and> relaxed (heap \<sigma>) (heap \<sigma>') \<and>
     (if 64 \<le> length (code_of (heap \<sigma>') xs) then hr = E_FAIL \<and> body = None
      else \<exists>b d. body = Some b \<and> DecoderInit a b = Inr d \<and> dec_Code d = Some 1 \<and> dec_EH d = None \<and>
        take (unat (fat_GetCodeSize (dec_fat d))) (drop 1 b) = code_of (heap \<sigma>') xs)"
proof -
  obtain \<sigma>' where s: "export_state api \<sigma> xs \<sigma>'" using export_layout [OF assms(1)] .
  note p = export_state_parts [OF s assms(1)]
  have len: "length (code_of (heap \<sigma>') xs) = code_total (heap \<sigma>') xs"
    using p(2) by (intro length_code_of) (simp add: laid_out_def)
  have big: "64 \<le> (word_of_nat (code_total (heap \<sigma>') xs) :: 32 word) \<longleftrightarrow> 64 \<le> code_total (heap \<sigma>') xs"
    using unat_total [OF s] by (simp add: word_le_nat_alt)
  show ?thesis
  proof (cases "64 \<le> code_total (heap \<sigma>') xs")
    case True
    then have "Export api \<sigma> = Inr (E_FAIL, None, \<sigma>')"
      unfolding Export_unfold [OF s] Let_def big using assms(2) by simp
    then show ?thesis using p(7) True len by (intro exI [of _ E_FAIL] exI [of _ None] exI [of _ \<sigma>']) simp
  next
    case False
    then have small: "code_total (heap \<sigma>') xs < 64" by simp
    have b: "tiny_body api \<sigma>' (word_of_nat (code_total (heap \<sigma>') xs)) = Inr (tiny_bytes (heap \<sigma>') xs)"
      using tiny_body_eq [OF p(2) small] by (simp add: tiny_bytes_def)
    obtain hr where e: "Export api \<sigma> = Inr (hr, Some (tiny_bytes (heap \<sigma>') xs), \<sigma>')"
      unfolding Export_unfold [OF s] Let_def big b using assms(2,3) small by simp
    have "(word_of_nat (code_total (heap \<sigma>') xs) :: 32 word) < 64"
      using small unat_total [OF s] by (simp add: word_less_nat_alt)
    from tiny_decode [OF this, of a "code_of (heap \<sigma>') xs"]
    obtain d where d: "DecoderInit a (tiny_bytes (heap \<sigma>') xs) = Inr d"
      "fat_GetCodeSize (dec_fat d) = word_of_nat (code_total (heap \<sigma>') xs)" "dec_Code d = Some 1" "dec_EH d = None"
      by (elim exE conjE) (rule that, simp_all only: tiny_bytes_def)
    then have "take (unat (fat_GetCodeSize (dec_fat d))) (drop 1 (tiny_bytes (heap \<sigma>') xs)) = code_of (heap \<sigma>') xs"
      using unat_total [OF s] len by (simp add: tiny_bytes_def)
    then show ?thesis using e p(7) d small len
      by (intro exI [of _ hr] exI [of _ "Some (tiny_bytes (heap \<sigma>') xs)"] exI [of _ \<sigma>']) simp
  qed
qed

theorem Export_tiny_witness:
  "\<exists>hr body \<sigma>'. Export example_api (example_export True) = Inr (hr, body, \<sigma>') \<and>
     relaxed (heap (example_export True)) (heap \<sigma>')"
proof -
  have "m_fGenerateTinyHeader (example_export True)" "\<forall>n. AllocateILMemory example_api (example_export True) n"
    by (simp_all add: example_export_def AllocateILMemory_def example_api_def)
  from Export_tiny [where a = 0, OF example_export_ready this] show ?thesis by (elim exE conjE) (intro exI conjI)
qed

lemma export_fat_decodes:
  assumes "export_ready \<sigma> xs" and "\<not> m_fGenerateTinyHeader \<sigma>" and "\<forall>n. AllocateILMemory api \<sigma> n"
    and "m_flags \<sigma> AND 0xF = 0" and "a mod 4 = 0"
  shows "\<exists>hr b \<sigma>' d. Export api \<sigma> = Inr (hr, Some b, \<sigma>') \<and> relaxed (heap \<sigma>) (heap \<sigma>') \<and>
     DecoderInit a b = Inr d \<and> dec_Code d = Some 12 \<and> export_state api \<sigma> xs \<sigma>' \<and>
     dec_fat d = fat_header_bytes (export_header \<sigma>' (word_of_nat (code_total (heap \<sigma>') xs))) \<and>
     take (unat (fat_GetCodeSize (dec_fat d))) (drop 12 b) = code_of (heap \<sigma>') xs \<and>
     fat_GetMaxStack (dec_fat d) = ucast (ucast (m_maxStack \<sigma>) :: 16 word) \<and>
     fat_GetLocalVarSigTok (dec_fat d) = m_tkLocalVarSig \<sigma> \<and>
     decoder_EHCount b d = Inr (m_nEH \<sigma>) \<and>
     (\<forall>i < length (m_pEH \<sigma>). \<exists>s. dec_EH d = Some s \<and>
        SectEH_EHClause b s (word_of_nat i) = Inr (clause_of (heap \<sigma>') (m_pEH \<sigma> ! i)))"
proof -
  obtain \<sigma>' where s: "export_state api \<sigma> xs \<sigma>'" using export_layout [OF assms(1)] .
  note p = export_state_parts [OF s assms(1)] and f = same_rest_fields [OF export_state_parts(8) [OF s assms(1)]]
  let ?c = "word_of_nat (code_total (heap \<sigma>') xs) :: 32 word"
  obtain pad where b: "fat_body api \<sigma>' ?c = Inr (fat_header_bytes (export_header \<sigma>' ?c) @
        code_of (heap \<sigma>') xs @ pad @ export_section \<sigma>')" "length pad < 4"
        "(code_total (heap \<sigma>') xs + length pad) mod 4 = 0"
    using fat_body_eq [OF p(1-6), of api] by (elim exE conjE) (rule that)
  let ?h = "export_header \<sigma>' ?c" and ?code = "code_of (heap \<sigma>') xs"
  let ?b = "fat_header_bytes ?h @ ?code @ pad @ export_section \<sigma>'"
  let ?cs = "map (clause_of (heap \<sigma>')) (m_pEH \<sigma>)"
  obtain hr where e: "Export api \<sigma> = Inr (hr, Some ?b, \<sigma>')"
    unfolding Export_unfold [OF s] Let_def b(1) using assms(2,3) by simp
  have len: "length ?code = code_total (heap \<sigma>') xs"
    using p(2) by (intro length_code_of) (simp add: laid_out_def)
  have "m_flags \<sigma>' AND 0xF = 0" using assms(4) f by simp
  note fl = header_flags [OF this, of ?c]
  have h: "fh_Size ?h = 3" "fh_CodeSize ?h = ?c" "fh_MaxStack ?h = ucast (m_maxStack \<sigma>)"
    "fh_LocalVarSigTok ?h = m_tkLocalVarSig \<sigma>"
    by (simp_all add: export_header_def f)
  have "\<exists>d. DecoderInit a ?b = Inr d \<and> dec_fat d = fat_header_bytes ?h \<and> dec_Code d = Some 12 \<and>
      decoder_EHCount ?b d = Inr (m_nEH \<sigma>) \<and>
      (\<forall>i < length (m_pEH \<sigma>). \<exists>s. dec_EH d = Some s \<and> SectEH_EHClause ?b s (word_of_nat i) = Inr (?cs ! i))"
  proof (cases "m_nEH \<sigma> = 0")
    case True
    then have "m_pEH \<sigma> = []" using p(4) f by simp
    moreover have "DecoderInit a ?b = Inr (decoder_zero\<lparr>dec_fat := fat_header_bytes ?h, dec_Code := Some 12\<rparr>)"
      using DecoderInit_fat_header [OF fl(1) h(1), of a "?code @ pad @ export_section \<sigma>'"] fl(2) True f
      by (simp add: Let_def)
    ultimately show ?thesis using True by (simp add: decoder_EHCount_def decoder_zero_def)
  next
    case False
    have nEH: "unat (m_nEH \<sigma>) = length (m_pEH \<sigma>)" "4 + 24 * length (m_pEH \<sigma>) < 2 ^ 24" using p(4,5) f by simp_all
    have cs: "holds_clauses (export_section \<sigma>') False ?cs"
      using nEH(2) nEH_size [OF nEH] False
      by (intro fat_section_holds [of ?cs _ _ "[]"]) (simp_all add: export_section_def f comp_def)
    from fat_sections_decode [OF fl(1) h(1) _ assms(5) _ b(2) _ cs, of ?code]
    obtain d s where d: "DecoderInit a ?b = Inr d" "dec_fat d = fat_header_bytes ?h" "dec_Code d = Some 12"
      "dec_EH d = Some s" "decoder_EHCount ?b d = Inr (word_of_nat (length ?cs))"
      "\<forall>i < length ?cs. SectEH_EHClause ?b s (word_of_nat i) = Inr (?cs ! i)"
      using fl(2) False f len unat_total [OF s] b(3) unfolding Let_def h
      by (elim exE conjE meta_impE) auto
    have "m_nEH \<sigma> = word_of_nat (unat (m_nEH \<sigma>))" by simp
    then have "m_nEH \<sigma> = word_of_nat (length ?cs)" unfolding nEH by simp
    then show ?thesis using d by auto
  qed
  then obtain d where d: "DecoderInit a ?b = Inr d" "dec_fat d = fat_header_bytes ?h" "dec_Code d = Some 12"
      "decoder_EHCount ?b d = Inr (m_nEH \<sigma>)"
      "\<forall>i < length (m_pEH \<sigma>). \<exists>s. dec_EH d = Some s \<and> SectEH_EHClause ?b s (word_of_nat i) = Inr (?cs ! i)"
    by (elim exE conjE) (rule that)
  have "take (unat (fat_GetCodeSize (dec_fat d))) (drop 12 ?b) = ?code"
    using unat_total [OF s] len by (simp add: d(2) h)
  then show ?thesis
    using e s p(7) d by (intro exI [of _ hr] exI [of _ ?b] exI [of _ \<sigma>'] exI [of _ d]) (simp add: h)
qed

lemma ucast_12_take_bit: "ucast (ucast v :: 12 word) = take_bit 12 (v :: 32 word)"
  by (rule bit_word_eqI) (auto simp: bit_simps)

text \<open>C13: with the fat header, a method whose \<open>m_flags\<close> has none of the four format bits set and whose output buffer is
  allocated is exported to a body from which the runtime decodes the concatenated encodings of the instructions, every
  header member -- the flags with the fat format and, exactly when there are clauses, the more-sections bit added, the
  header size of three double words, the code size, the stack bound (the low 16 bits), the token of the locals -- and
  every exception clause in the offsets of its instructions.\<close>

theorem Export_fat:
  assumes "export_ready \<sigma> xs" and "\<not> m_fGenerateTinyHeader \<sigma>" and "\<forall>n. AllocateILMemory api \<sigma> n"
    and "m_flags \<sigma> AND 0xF = 0" and "a mod 4 = 0"
  shows "\<exists>hr b \<sigma>' d. Export api \<sigma> = Inr (hr, Some b, \<sigma>') \<and> relaxed (heap \<sigma>) (heap \<sigma>') \<and>
     DecoderInit a b = Inr d \<and> dec_Code d = Some 12 \<and>
     take (unat (fat_GetCodeSize (dec_fat d))) (drop 12 b) = code_of (heap \<sigma>') xs \<and>
     fat_GetFlags (dec_fat d) = take_bit 12 (m_flags \<sigma> OR (if m_nEH \<sigma> \<noteq> 0 then CorILMethod_MoreSects else 0)
       OR CorILMethod_FatFormat) \<and>
     fat_GetSize (dec_fat d) = 3 \<and>
     fat_GetCodeSize (dec_fat d) = word_of_nat (length (code_of (heap \<sigma>') xs)) \<and>
     fat_GetMaxStack (dec_fat d) = ucast (ucast (m_maxStack \<sigma>) :: 16 word) \<and>
     fat_GetLocalVarSigTok (dec_fat d) = m_tkLocalVarSig \<sigma> \<and>
     decoder_EHCount b d = Inr (m_nEH \<sigma>) \<and>
     (\<forall>i < length (m_pEH \<sigma>). \<exists>s. dec_EH d = Some s \<and>
        SectEH_EHClause b s (word_of_nat i) = Inr (clause_of (heap \<sigma>') (m_pEH \<sigma> ! i)))"
proof -
  obtain hr b \<sigma>' d where e: "Export api \<sigma> = Inr (hr, Some b, \<sigma>')" "relaxed (heap \<sigma>) (heap \<sigma>')"
    "DecoderInit a b = Inr d" "dec_Code d = Some 12" "export_state api \<sigma> xs \<sigma>'"
    "dec_fat d = fat_header_bytes (export_header \<sigma>' (word_of_nat (code_total (heap \<sigma>') xs)))"
    "take (unat (fat_GetCodeSize (dec_fat d))) (drop 12 b) = code_of (heap \<sigma>') xs"
    "fat_GetMaxStack (dec_fat d) = ucast (ucast (m_maxStack \<sigma>) :: 16 word)"
    "fat_GetLocalVarSigTok (dec_fat d) = m_tkLocalVarSig \<sigma>"
    "decoder_EHCount b d = Inr (m_nEH \<sigma>)"
    "\<forall>i < length (m_pEH \<sigma>). \<exists>s. dec_EH d = Some s \<and>
        SectEH_EHClause b s (word_of_nat i) = Inr (clause_of (heap \<sigma>') (m_pEH \<sigma> ! i))"
    using export_fat_decodes [OF assms] by (elim exE conjE) (rule that)
  note p = export_state_parts [OF e(5) assms(1)] and f = same_rest_fields [OF export_state_parts(8) [OF e(5) assms(1)]]
  have len: "length (code_of (heap \<sigma>') xs) = code_total (heap \<sigma>') xs"
    using p(2) by (intro length_code_of) (simp add: laid_out_def)
  have "fat_GetFlags (dec_fat d) = take_bit 12 (m_flags \<sigma> OR (if m_nEH \<sigma> \<noteq> 0 then CorILMethod_MoreSects else 0)
       OR CorILMethod_FatFormat)"
    "fat_GetSize (dec_fat d) = 3" "fat_GetCodeSize (dec_fat d) = word_of_nat (length (code_of (heap \<sigma>') xs))"
    by (simp_all add: e(6) export_header_def f ucast_12_take_bit len)
  then show ?thesis using e by (intro exI conjI)
qed

theorem Export_fat_witness:
  "\<exists>hr b \<sigma>' d s. Export example_api (example_export False) = Inr (hr, Some b, \<sigma>') \<and>
     DecoderInit 0x1000 b = Inr d \<and> decoder_EHCount b d = Inr 1 \<and> dec_EH d = Some s \<and>
     SectEH_EHClause b s 0 = Inr (clause_of (heap \<sigma>') (m_pEH (example_export False) ! 0))"
proof -
  let ?\<sigma> = "example_export False"
  have h: "\<not> m_fGenerateTinyHeader ?\<sigma>" "\<forall>n. AllocateILMemory example_api ?\<sigma> n" "m_flags ?\<sigma> AND 0xF = 0"
    "(0x1000 :: nat) mod 4 = 0" "m_nEH ?\<sigma> = 1" "0 < length (m_pEH ?\<sigma>)"
    by (simp_all add: example_export_def AllocateILMemory_def example_api_def)
  from Export_fat [OF example_export_ready h(1-4)] h(5,6) show ?thesis
    by (elim exE conjE allE [of _ 0] impE) (simp, intro exI conjI, simp_all)
qed

end
