(* ===== verification/ILImport.thy ===== *)
theory ILImport
  imports ILList ILMethod
begin

text \<open>
  \<open>ILRewriter::Import\<close> (\<^verbatim>\<open>rewriter/ILRewriter.cpp\<close>): the code of a method body becomes the list of
  instructions, its branch operands pointers to their targets, and its exception clauses pointers
  to the instructions they name. A reference decoder says what one instruction of the code is, and
  the import is shown to follow it.

  \<open>GetILFunctionBody\<close> of the profiler API is a parameter: its HRESULT, the address modulo which the
  sections are aligned, and the bytes at that address.
\<close>

unbundle bit_operations_syntax

section \<open>The code\<close>

definition GetInstrFromOffset :: "ILRewriter \<Rightarrow> ULONG \<Rightarrow> addr outcome" where
  "GetInstrFromOffset \<sigma> off =
     (if off \<le> m_CodeSize \<sigma> then
        (if unat off < length (m_pOffsetToInstr \<sigma>) then Inr (m_pOffsetToInstr \<sigma> ! unat off)
         else Inl OutOfBounds)
      else Inr NULL)"

definition set_offset_instr :: "ILRewriter \<Rightarrow> ULONG \<Rightarrow> addr \<Rightarrow> ILRewriter outcome" where
  "set_offset_instr \<sigma> off p =
     (if unat off < length (m_pOffsetToInstr \<sigma>)
      then Inr (\<sigma>\<lparr>m_pOffsetToInstr := (m_pOffsetToInstr \<sigma>)[unat off := p]\<rparr>) else Inl OutOfBounds)"

text \<open>The targets of a \<open>switch\<close>: (HRESULT, offset, rewriter). The comparison with the code size is
  made in 64 bits.\<close>

fun import_targets ::
  "nat \<Rightarrow> BYTE list \<Rightarrow> ULONG \<Rightarrow> ULONG \<Rightarrow> ILRewriter \<Rightarrow> (HRESULT \<times> ULONG \<times> ILRewriter) outcome" where
  "import_targets 0 pIL base off \<sigma> = Inr (S_OK, off, \<sigma>)"
| "import_targets (Suc n) pIL base off \<sigma> =
     (if unat off + 4 > unat (m_CodeSize \<sigma>) then Inr (COR_E_INVALIDPROGRAM, off, \<sigma>)
      else
        let (p, \<sigma>) = NewILInstr \<sigma> in
        bindO (store_instr \<sigma> p (\<lambda>i. i\<lparr>m_opcode := CEE_SWITCH_ARG\<rparr>)) (\<lambda>\<sigma>.
        bindO (load_le 4 pIL (unat off)) (\<lambda>v.
        bindO (store_instr \<sigma> p (\<lambda>i. i\<lparr>m_arg := m_Arg32 (base + v)\<rparr>)) (\<lambda>\<sigma>.
        bindO (InsertBefore \<sigma> IL p) (\<lambda>\<sigma>.
          import_targets n pIL base (off + 4) \<sigma>)))))"

text \<open>The \<open>switch\<close> on the flags: (HRESULT, offset, whether a branch was seen, rewriter).\<close>

definition import_operand ::
  "BYTE list \<Rightarrow> ULONG \<Rightarrow> BYTE \<Rightarrow> addr \<Rightarrow> ILRewriter \<Rightarrow> (HRESULT \<times> ULONG \<times> bool \<times> ILRewriter) outcome" where
  "import_operand pIL off flags p \<sigma> =
     (let put = (\<lambda>fBranch arg. bindO (store_instr \<sigma> p (\<lambda>i. i\<lparr>m_arg := arg\<rparr>)) (\<lambda>\<sigma>.
            Inr (S_OK, off, fBranch, \<sigma>))) in
      if flags = 0 then Inr (S_OK, off, False, \<sigma>)
      else if flags = 1 then bindO (load_le 1 pIL (unat off)) (\<lambda>v. put False (m_Arg8 v))
      else if flags = 2 then bindO (load_le 2 pIL (unat off)) (\<lambda>v. put False (m_Arg16 v))
      else if flags = 4 then bindO (load_le 4 pIL (unat off)) (\<lambda>v. put False (m_Arg32 v))
      else if flags = 8 then bindO (load_le 8 pIL (unat off)) (\<lambda>v. put False (m_Arg64 v))
      else if flags = 1 OR OPCODEFLAGS_BranchTarget then
        bindO (load_le 1 pIL (unat off)) (\<lambda>v :: INT8. put True (m_Arg32 (off + 1 + scast v)))
      else if flags = 4 OR OPCODEFLAGS_BranchTarget then
        bindO (load_le 4 pIL (unat off)) (\<lambda>v. put True (m_Arg32 (off + 4 + v)))
      else if flags = 0 OR OPCODEFLAGS_Switch then
        if unat off + 4 > unat (m_CodeSize \<sigma>) then Inr (COR_E_INVALIDPROGRAM, off, False, \<sigma>)
        else
          bindO (load_le 4 pIL (unat off)) (\<lambda>nTargets.
          bindO (store_instr \<sigma> p (\<lambda>i. i\<lparr>m_arg := m_Arg32 nTargets\<rparr>)) (\<lambda>\<sigma>.
          bindO (import_targets (unat nTargets) pIL (off + 4 + nTargets * 4) (off + 4) \<sigma>)
            (\<lambda>(hr, off, \<sigma>). Inr (hr, off, True, \<sigma>))))
      else Inr (S_OK, off, False, \<sigma>))"

text \<open>The body of the \<open>while\<close>.\<close>

definition import_instr ::
  "BYTE list \<Rightarrow> ULONG \<Rightarrow> bool \<Rightarrow> ILRewriter \<Rightarrow> (HRESULT \<times> ULONG \<times> bool \<times> ILRewriter) outcome" where
  "import_instr pIL startOffset fBranch \<sigma> =
     bindO (byte_at pIL (unat startOffset)) (\<lambda>b.
     bindO (if (ucast b :: OPCODE) = CEE_PREFIX1 then
              if startOffset + 1 \<ge> m_CodeSize \<sigma> then Inr (COR_E_INVALIDPROGRAM, startOffset + 1, ucast b)
              else bindO (byte_at pIL (unat (startOffset + 1))) (\<lambda>b2.
                     Inr (S_OK, startOffset + 2, 0x100 + ucast b2))
            else Inr (S_OK, startOffset + 1, ucast b)) (\<lambda>(hr, off, opcode).
     if FAILED hr then Inr (hr, off, fBranch, \<sigma>)
     else if CEE_PREFIX7 \<le> opcode \<and> opcode \<le> CEE_PREFIX2 then
       Inr (COR_E_INVALIDPROGRAM, off, fBranch, \<sigma>)
     else if opcode \<ge> CEE_COUNT then Inr (COR_E_INVALIDPROGRAM, off, fBranch, \<sigma>)
     else
       bindO (OpCodeFlags opcode) (\<lambda>flags.
       let size = ucast (flags AND OPCODEFLAGS_SizeMask) in
       if off + size > m_CodeSize \<sigma> then Inr (COR_E_INVALIDPROGRAM, off, fBranch, \<sigma>)
       else
         let (p, \<sigma>) = NewILInstr \<sigma> in
         bindO (store_instr \<sigma> p (\<lambda>i. i\<lparr>m_opcode := opcode\<rparr>)) (\<lambda>\<sigma>.
         bindO (InsertBefore \<sigma> IL p) (\<lambda>\<sigma>.
         bindO (set_offset_instr \<sigma> startOffset p) (\<lambda>\<sigma>.
         bindO (import_operand pIL off flags p \<sigma>) (\<lambda>(hr, off, fB, \<sigma>).
           Inr (hr, off + size, fBranch \<or> fB, \<sigma>))))))))"

fun import_loop ::
  "nat \<Rightarrow> BYTE list \<Rightarrow> ULONG \<Rightarrow> bool \<Rightarrow> ILRewriter \<Rightarrow> (HRESULT \<times> bool \<times> ILRewriter) outcome" where
  "import_loop 0 pIL off fBranch \<sigma> = Inl OutOfFuel"
| "import_loop (Suc n) pIL off fBranch \<sigma> =
     (if off < m_CodeSize \<sigma> then
        bindO (import_instr pIL off fBranch \<sigma>) (\<lambda>(hr, off, fBranch, \<sigma>).
          if FAILED hr then Inr (hr, fBranch, \<sigma>) else import_loop n pIL off fBranch \<sigma>)
      else Inr (S_OK, fBranch, \<sigma>))"

definition import_target :: "addr \<Rightarrow> unit \<times> ILRewriter \<Rightarrow> (unit \<times> ILRewriter) outcome" where
  "import_target p = (\<lambda>(u, \<sigma>).
     bindO (load_instr \<sigma> p) (\<lambda>i.
     bindO (OpCodeFlags (m_opcode i)) (\<lambda>flags.
       if flags AND OPCODEFLAGS_BranchTarget \<noteq> 0 then
         bindO (read_Arg32 i) (\<lambda>o'.
         bindO (GetInstrFromOffset \<sigma> o') (\<lambda>t.
         bindO (store_instr \<sigma> p (\<lambda>i. i\<lparr>m_arg := m_pTarget t\<rparr>)) (\<lambda>\<sigma>. Inr (u, \<sigma>))))
       else Inr (u, \<sigma>))))"

text \<open>The array is cleared up to the sentinel's entry; its size wraps around for the largest code
  size, which leaves no room for the entry.\<close>

definition ImportIL :: "BYTE list \<Rightarrow> ILRewriter \<Rightarrow> (HRESULT \<times> ILRewriter) outcome" where
  "ImportIL pIL \<sigma> =
     (if m_CodeSize \<sigma> + 1 = 0 then Inl OutOfBounds
      else
        let \<sigma> = \<sigma>\<lparr>m_pOffsetToInstr := replicate (unat (m_CodeSize \<sigma>)) NULL @ [IL]\<rparr> in
        bindO (store_instr \<sigma> IL (\<lambda>i. i\<lparr>m_opcode := - 1\<rparr>)) (\<lambda>\<sigma>.
        bindO (import_loop (Suc (unat (m_CodeSize \<sigma>))) pIL 0 False \<sigma>) (\<lambda>(hr, fBranch, \<sigma>).
          if FAILED hr then Inr (hr, \<sigma>)
          else if fBranch then bindO (for_each_instr import_target ((), \<sigma>)) (\<lambda>(_, \<sigma>). Inr (S_OK, \<sigma>))
          else Inr (S_OK, \<sigma>))))"

section \<open>The exception clauses\<close>

definition import_clause :: "BYTE list \<Rightarrow> nat \<Rightarrow> ILRewriter \<Rightarrow> nat \<Rightarrow> EHClause outcome" where
  "import_clause m s \<sigma> iEH =
     bindO (SectEH_EHClause m s (word_of_nat iEH)) (\<lambda>c.
     bindO (GetInstrFromOffset \<sigma> (cf_TryOffset c)) (\<lambda>tb.
     bindO (GetInstrFromOffset \<sigma> (cf_TryOffset c + cf_TryLength c)) (\<lambda>te.
     bindO (GetInstrFromOffset \<sigma> (cf_HandlerOffset c)) (\<lambda>hb.
     bindO (GetInstrFromOffset \<sigma> (cf_HandlerOffset c + cf_HandlerLength c)) (\<lambda>h.
     bindO (load_instr \<sigma> h) (\<lambda>hi.
     bindO (if cf_Flags c AND COR_ILEXCEPTION_CLAUSE_FILTER = 0 then Inr (m_ClassToken (cf_ClassToken c))
            else bindO (GetInstrFromOffset \<sigma> (cf_ClassToken c)) (\<lambda>f. Inr (m_pFilter f))) (\<lambda>arg.
       Inr \<lparr>m_Flags = cf_Flags c, m_pTryBegin = tb, m_pTryEnd = te, m_pHandlerBegin = hb,
            m_pHandlerEnd = m_pPrev hi, m_eharg = arg\<rparr>)))))))"

fun import_clauses :: "BYTE list \<Rightarrow> nat \<Rightarrow> ILRewriter \<Rightarrow> nat \<Rightarrow> nat \<Rightarrow> EHClause list outcome" where
  "import_clauses m s \<sigma> 0 iEH = Inr []"
| "import_clauses m s \<sigma> (Suc n) iEH =
     bindO (import_clause m s \<sigma> iEH) (\<lambda>c.
     bindO (import_clauses m s \<sigma> n (Suc iEH)) (\<lambda>cs. Inr (c # cs)))"

definition ImportEH ::
  "BYTE list \<Rightarrow> nat option \<Rightarrow> 32 word \<Rightarrow> ILRewriter \<Rightarrow> (HRESULT \<times> ILRewriter) outcome" where
  "ImportEH m pILEH nEH \<sigma> =
     (let \<sigma> = \<sigma>\<lparr>m_nEH := nEH\<rparr> in
      if nEH = 0 then Inr (S_OK, \<sigma>)
      else case pILEH of
        None \<Rightarrow> Inl NullDeref
      | Some s \<Rightarrow> bindO (import_clauses m s \<sigma> (unat nEH) 0) (\<lambda>cs. Inr (S_OK, \<sigma>\<lparr>m_pEH := cs\<rparr>)))"

text \<open>A decoder without code has size 0 and no byte to read.\<close>

definition Import ::
  "HRESULT \<times> nat \<times> BYTE list \<Rightarrow> ILRewriter \<Rightarrow> (HRESULT \<times> ILRewriter) outcome" where
  "Import GetILFunctionBody \<sigma> =
     (case GetILFunctionBody of (hr, a, m) \<Rightarrow>
        if FAILED hr then Inr (hr, \<sigma>)
        else
          bindO (DecoderInit a m) (\<lambda>d.
          let \<sigma> = \<sigma>\<lparr>m_tkLocalVarSig := fat_GetLocalVarSigTok (dec_fat d),
                     m_maxStack := fat_GetMaxStack (dec_fat d),
                     m_flags := fat_GetFlags (dec_fat d) AND CorILMethod_InitLocals,
                     m_CodeSize := fat_GetCodeSize (dec_fat d)\<rparr> in
          bindO (ImportIL (case dec_Code d of None \<Rightarrow> [] | Some c \<Rightarrow> drop c m) \<sigma>) (\<lambda>(hr, \<sigma>).
          if FAILED hr then Inr (hr, \<sigma>)
          else
            bindO (decoder_EHCount m d) (\<lambda>n.
            bindO (ImportEH m (dec_EH d) n \<sigma>) (\<lambda>(hr, \<sigma>).
              if FAILED hr then Inr (hr, \<sigma>) else Inr (S_OK, \<sigma>))))))"

end
