(* ===== verification/ILDecode.thy ===== *)
theory ILDecode
  imports ILImport ILBody
begin

text \<open>
  A reference decoder for the instructions of a method's code, and the proof that
  \<open>ILRewriter::ImportIL\<close> follows it: the loop appends exactly the decoded instructions, the offset
  table maps the start of each to its node, and the second pass turns branch offsets into the nodes
  the decoded code has at those offsets.
\<close>

unbundle bit_operations_syntax

section \<open>The reference decoder\<close>

text \<open>The instruction at an offset of \<open>cs\<close> bytes of code: its opcode, its operand (a branch target
  as an offset), and the offset after it. A \<open>switch\<close> is not decoded.\<close>

definition decode_opcode :: "BYTE list \<Rightarrow> nat \<Rightarrow> nat \<Rightarrow> (OPCODE \<times> nat) option" where
  "decode_opcode il cs off =
     (if il ! off = 0xFE then
        if cs \<le> off + 1 then None else Some (0x100 + ucast (il ! (off + 1)), off + 2)
      else Some (ucast (il ! off), off + 1))"

definition decode_operand :: "BYTE list \<Rightarrow> nat \<Rightarrow> BYTE \<Rightarrow> ILArg" where
  "decode_operand il off f =
     (if f = 1 then m_Arg8 (get_le (take 1 (drop off il)))
      else if f = 2 then m_Arg16 (get_le (take 2 (drop off il)))
      else if f = 4 then m_Arg32 (get_le (take 4 (drop off il)))
      else if f = 8 then m_Arg64 (get_le (take 8 (drop off il)))
      else if f = 0x11 then m_Arg32 (word_of_nat (off + 1) + scast (get_le (take 1 (drop off il)) :: INT8))
      else if f = 0x14 then m_Arg32 (word_of_nat (off + 4) + get_le (take 4 (drop off il)))
      else m_pTarget NULL)"

definition decode_at :: "BYTE list \<Rightarrow> nat \<Rightarrow> nat \<Rightarrow> (OPCODE \<times> ILArg \<times> nat) option" where
  "decode_at il cs off =
     (case decode_opcode il cs off of
        None \<Rightarrow> None
      | Some (op, o') \<Rightarrow>
          if CEE_PREFIX7 \<le> op \<and> op \<le> CEE_PREFIX2 \<or> op \<ge> CEE_COUNT \<or> op = CEE_SWITCH then None
          else if cs < o' + operand_size (flags_of op) then None
          else Some (op, decode_operand il o' (flags_of op), o' + operand_size (flags_of op)))"

lemma import_operand_eq:
  assumes i: "heap \<sigma> p = Some i" "m_arg i = m_pTarget NULL" and f: "f = flags_of op" "f \<noteq> 0x20"
    and len: "o' + operand_size f \<le> length il" "o' + 16 < 2 ^ 32"
  shows "import_operand il (word_of_nat o') f p \<sigma> =
    Inr (S_OK, word_of_nat o', is_branch op,
      \<sigma>\<lparr>heap := (heap \<sigma>)(p \<mapsto> i\<lparr>m_arg := decode_operand il o' f\<rparr>)\<rparr>)"
proof -
  have o': "unat (word_of_nat o' :: 32 word) = o'" using len(2) by (intro unat_of_nat_32) simp
  have triv: "(heap \<sigma>)(p \<mapsto> i\<lparr>m_arg := m_pTarget NULL\<rparr>) = heap \<sigma>"
    using i by (cases i) (auto simp: fun_upd_idem)
  have sum: "word_of_nat o' + 1 = (word_of_nat (o' + 1) :: 32 word)"
    "word_of_nat o' + 4 = (word_of_nat (o' + 4) :: 32 word)" by simp_all
  show ?thesis
    using f(2) len(1) unfolding f(1) is_branch_def
    by (cases rule: flags_of_cases [of op]; simp add: import_operand_def decode_operand_def o' load_le_def
      triv operand_size_simps OPCODEFLAGS_BranchTarget_def OPCODEFLAGS_Switch_def store_instr_Some [OF i(1)]
      sum del: of_nat_add)
qed

lemma decode_at_bounds:
  assumes "decode_at il cs off = Some (op, arg, o')" "off < cs"
  shows "off < o'" "o' \<le> cs" "op < CEE_COUNT" "op \<noteq> CEE_SWITCH"
  using assms by (auto simp: decode_at_def decode_opcode_def split: option.splits if_splits prod.splits)

lemma flags_switch:
  assumes "flags_of op = 0x20" "op < CEE_COUNT" shows "op = CEE_SWITCH"
proof (rule ccontr)
  have all: "list_all (\<lambda>k. k = 0x45 \<or> s_OpCodeFlags ! k \<noteq> 0x20) [0..<294]" by code_simp
  assume "op \<noteq> CEE_SWITCH"
  have lt: "unat op < 294" using assms(2) by (simp add: CEE_COUNT_def word_less_nat_alt)
  moreover have "unat op \<noteq> 0x45" using \<open>op \<noteq> CEE_SWITCH\<close> by (auto simp: word_unat_eq_iff)
  ultimately have "s_OpCodeFlags ! unat op \<noteq> 0x20" using all by (auto simp: list_all_iff)
  then show False using assms(1) lt OpCodeFlags_flags_of [OF assms(2)] by (simp add: OpCodeFlags_def split: if_splits)
qed

text \<open>The state after one instruction was imported.\<close>

definition imported :: "ILRewriter \<Rightarrow> nat \<Rightarrow> OPCODE \<Rightarrow> ILArg \<Rightarrow> ILRewriter \<Rightarrow> bool" where
  "imported \<sigma> off op arg \<sigma>' \<longleftrightarrow>
     (\<exists>k. \<sigma>' = \<sigma>\<lparr>heap := heap \<sigma>', next_addr := next_addr \<sigma> + 1, m_nInstrs := m_nInstrs \<sigma> + 1,
            m_maxStack := m_maxStack \<sigma> + k,
            m_pOffsetToInstr := (m_pOffsetToInstr \<sigma>)[off := next_addr \<sigma>]\<rparr>) \<and>
     content_of (heap \<sigma>') = (content_of (heap \<sigma>))(next_addr \<sigma> \<mapsto> (op, 0, arg))"

lemma operand_size_unat: "flags_of op \<noteq> 0x20 \<Longrightarrow> operand_size (flags_of op) = unat (ucast (flags_of op AND OPCODEFLAGS_SizeMask) :: 32 word)"
  by (simp add: operand_size_def)

lemma import_opcode_eq:
  assumes "off < cs" "cs = unat (m_CodeSize \<sigma>)" "cs \<le> length il" "cs + 16 < 2 ^ 32"
  shows "import_instr il (word_of_nat off) fb \<sigma> =
    (case decode_opcode il cs off of
       None \<Rightarrow> Inr (COR_E_INVALIDPROGRAM, word_of_nat (off + 1), fb, \<sigma>)
     | Some (op, o') \<Rightarrow>
        if CEE_PREFIX7 \<le> op \<and> op \<le> CEE_PREFIX2 \<or> op \<ge> CEE_COUNT
          then Inr (COR_E_INVALIDPROGRAM, word_of_nat o', fb, \<sigma>)
        else bindO (OpCodeFlags op) (\<lambda>flags.
          let size = ucast (flags AND OPCODEFLAGS_SizeMask) in
          if word_of_nat o' + size > m_CodeSize \<sigma> then Inr (COR_E_INVALIDPROGRAM, word_of_nat o', fb, \<sigma>)
          else
            let (p, \<sigma>) = NewILInstr \<sigma> in
            bindO (store_instr \<sigma> p (\<lambda>i. i\<lparr>m_opcode := op\<rparr>)) (\<lambda>\<sigma>.
            bindO (InsertBefore \<sigma> IL p) (\<lambda>\<sigma>.
            bindO (set_offset_instr \<sigma> (word_of_nat off) p) (\<lambda>\<sigma>.
            bindO (import_operand il (word_of_nat o') flags p \<sigma>) (\<lambda>(hr, off, fB, \<sigma>).
              Inr (hr, off + size, fb \<or> fB, \<sigma>)))))))"
proof -
  have o1: "unat (word_of_nat off :: 32 word) = off" "unat (word_of_nat (off + 1) :: 32 word) = off + 1"
    using assms(1,4) by (intro unat_of_nat_32; simp)+
  have le: "m_CodeSize \<sigma> \<le> word_of_nat (off + 1) \<longleftrightarrow> cs \<le> off + 1"
    by (simp only: word_le_nat_alt o1 assms(2))
  have pre: "(ucast b :: OPCODE) = CEE_PREFIX1 \<longleftrightarrow> b = 0xFE" for b :: BYTE
    by (simp add: word_unat_eq_iff)
  have s: "word_of_nat off + 1 = (word_of_nat (off + 1) :: 32 word)" "word_of_nat off + 2 = (word_of_nat (off + 2) :: 32 word)"
    by simp_all
  show ?thesis
  proof (cases "il ! off = 0xFE")
    case True
    then show ?thesis
      using assms(1,3) le o1 by (cases "cs \<le> off + 1")
        (simp_all add: import_instr_def pre decode_opcode_def byte_at_def s del: of_nat_add of_nat_Suc)
  next
    case False
    then show ?thesis
      using assms(1,3) o1 by (simp add: import_instr_def pre decode_opcode_def byte_at_def s del: of_nat_add of_nat_Suc)
  qed
qed


lemma import_step:
  assumes h: "holds \<sigma> as" and cs: "off < cs" "cs = unat (m_CodeSize \<sigma>)" "cs \<le> length il" "cs + 16 < 2 ^ 32"
    and tbl: "length (m_pOffsetToInstr \<sigma>) = cs + 1"
    and sw: "map_option fst (decode_opcode il cs off) \<noteq> Some CEE_SWITCH"
  shows "case decode_at il cs off of
      None \<Rightarrow> \<exists>off'. import_instr il (word_of_nat off) fb \<sigma> = Inr (COR_E_INVALIDPROGRAM, off', fb, \<sigma>)
    | Some (op, arg, o') \<Rightarrow> \<exists>\<sigma>'.
        import_instr il (word_of_nat off) fb \<sigma> = Inr (S_OK, word_of_nat o', fb \<or> is_branch op, \<sigma>') \<and>
        holds \<sigma>' (as @ [next_addr \<sigma>]) \<and> imported \<sigma> off op arg \<sigma>'"
proof (cases "decode_opcode il cs off")
  case None
  then show ?thesis by (simp add: import_opcode_eq [OF cs] decode_at_def)
next
  case (Some r)
  obtain op o' where r: "decode_opcode il cs off = Some (op, o')" using Some by (cases r) auto
  have o': "o' \<le> cs" "o' \<le> off + 2" using r cs(1) by (auto simp: decode_opcode_def split: if_splits)
  note eq = import_opcode_eq [OF cs, of fb, unfolded r option.case prod.case]
  show ?thesis
  proof (cases "CEE_PREFIX7 \<le> op \<and> op \<le> CEE_PREFIX2 \<or> op \<ge> CEE_COUNT")
    case True
    then have "decode_at il cs off = None" by (auto simp: decode_at_def r)
    then show ?thesis unfolding eq if_P [OF True] by simp
  next
    case False
    then have op: "op < CEE_COUNT" by auto
    note f = OpCodeFlags_flags_of [OF op]
    let ?n = "operand_size (flags_of op)"
    let ?size = "ucast (flags_of op AND OPCODEFLAGS_SizeMask) :: 32 word"
    have nsw: "flags_of op \<noteq> 0x20" using flags_switch [OF _ op] sw r by auto
    have n: "?size = word_of_nat ?n" by (simp add: operand_size_unat [OF nsw])
    have n8: "?n \<le> 8" by (cases rule: flags_of_cases [of op]; simp add: operand_size_simps)
    have sum: "word_of_nat o' + ?size = word_of_nat (o' + ?n)" by (simp add: n)
    have "unat (word_of_nat (o' + ?n) :: 32 word) = o' + ?n"
      using o' n8 cs(4) by (intro unat_of_nat_32) simp
    then have big: "m_CodeSize \<sigma> < word_of_nat o' + ?size \<longleftrightarrow> cs < o' + ?n"
      unfolding sum by (simp only: word_less_nat_alt cs(2))
    show ?thesis
    proof (cases "cs < o' + ?n")
      case True
      then have "decode_at il cs off = None" by (simp add: decode_at_def r)
      moreover have "import_instr il (word_of_nat off) fb \<sigma> = Inr (COR_E_INVALIDPROGRAM, word_of_nat o', fb, \<sigma>)"
        unfolding eq if_not_P [OF False] f bindO_simps Let_def using big True by simp
      ultimately show ?thesis by simp
    next
      case fits: False
      obtain p \<sigma>1 where new: "NewILInstr \<sigma> = (p, \<sigma>1)" by force
      have "holds \<sigma> (as @ [])" using h by simp
      from append_refines [OF this op new]
      obtain pi where s1: "store_instr \<sigma>1 p (\<lambda>i. i\<lparr>m_opcode := op\<rparr>) = Inr (\<sigma>1\<lparr>heap := (heap \<sigma>1)(p \<mapsto> pi)\<rparr>)"
        and pi: "m_arg pi = m_pTarget NULL"
        and ins: "\<forall>arg. \<exists>\<sigma>'. InsertBefore (\<sigma>1\<lparr>heap := (heap \<sigma>1)(p \<mapsto> pi\<lparr>m_arg := arg\<rparr>)\<rparr>) (hd ([] @ [IL])) p = Inr \<sigma>' \<and>
          holds \<sigma>' (as @ p # []) \<and> appended \<sigma> p op arg \<sigma>'"
        by (elim exE conjE) (rule that)
      obtain \<sigma>2 where s2: "InsertBefore (\<sigma>1\<lparr>heap := (heap \<sigma>1)(p \<mapsto> pi\<lparr>m_arg := m_pTarget NULL\<rparr>)\<rparr>) (hd ([] @ [IL])) p = Inr \<sigma>2"
        "holds \<sigma>2 (as @ [p])" "appended \<sigma> p op (m_pTarget NULL) \<sigma>2"
        using ins by (elim allE [of _ "m_pTarget NULL"] exE conjE) (rule that)
      have "pi\<lparr>m_arg := m_pTarget NULL\<rparr> = pi" using pi by (cases pi) simp
      then have s2': "InsertBefore (\<sigma>1\<lparr>heap := (heap \<sigma>1)(p \<mapsto> pi)\<rparr>) IL p = Inr \<sigma>2" using s2(1) by simp
      have p: "p = next_addr \<sigma>" using s2(3) by (simp add: appended_def)
      obtain k where k: "\<sigma>2 = \<sigma>\<lparr>heap := heap \<sigma>2, next_addr := next_addr \<sigma> + 1, m_nInstrs := m_nInstrs \<sigma> + 1,
            m_maxStack := m_maxStack \<sigma> + k\<rparr>" using s2(3) by (auto simp: appended_def)
      have t2: "m_pOffsetToInstr \<sigma>2 = m_pOffsetToInstr \<sigma>"
        by (rule trans [OF arg_cong [OF k, of m_pOffsetToInstr]]) simp
      have c2: "content_of (heap \<sigma>2) = (content_of (heap \<sigma>))(p \<mapsto> (op, 0, m_pTarget NULL))"
        using s2(3) by (simp add: appended_def)
      then have "content_of (heap \<sigma>2) p = Some (op, 0, m_pTarget NULL)" by simp
      then obtain i where i: "heap \<sigma>2 p = Some i" "m_opcode i = op" "m_offset i = 0" "m_arg i = m_pTarget NULL"
        by (auto simp: content_of_Some)
      let ?\<sigma>3 = "\<sigma>2\<lparr>m_pOffsetToInstr := (m_pOffsetToInstr \<sigma>)[off := p]\<rparr>"
      have uo: "unat (word_of_nat off :: 32 word) = off" using cs by (intro unat_of_nat_32) simp
      then have s3: "set_offset_instr \<sigma>2 (word_of_nat off) p = Inr ?\<sigma>3"
        using tbl cs(1) t2 by (simp add: set_offset_instr_def)
      let ?arg = "decode_operand il o' (flags_of op)"
      let ?\<sigma>4 = "?\<sigma>3\<lparr>heap := (heap \<sigma>2)(p \<mapsto> i\<lparr>m_arg := ?arg\<rparr>)\<rparr>"
      have s4: "import_operand il (word_of_nat o') (flags_of op) p ?\<sigma>3 = Inr (S_OK, word_of_nat o', is_branch op, ?\<sigma>4)"
        using import_operand_eq [of ?\<sigma>3 p i, OF _ i(4) refl nsw] i(1) fits o' cs(3,4) by simp
      have "holds (\<sigma>2\<lparr>heap := (heap \<sigma>2)(p \<mapsto> i\<lparr>m_arg := ?arg\<rparr>)\<rparr>) (as @ [p])"
        using store_content(2) [OF s2(2) i(1), of "\<lambda>i. i\<lparr>m_arg := ?arg\<rparr>"] by simp
      then have h4: "holds ?\<sigma>4 (as @ [p])" by (rule holds_cong) simp_all
      have c4: "content_of (heap ?\<sigma>4) = (content_of (heap \<sigma>))(p \<mapsto> (op, 0, ?arg))"
        by (simp add: content_of_upd c2 i)
      have "\<exists>k. ?\<sigma>4 = \<sigma>\<lparr>heap := heap ?\<sigma>4, next_addr := next_addr \<sigma> + 1, m_nInstrs := m_nInstrs \<sigma> + 1,
            m_maxStack := m_maxStack \<sigma> + k, m_pOffsetToInstr := (m_pOffsetToInstr \<sigma>)[off := next_addr \<sigma>]\<rparr>"
        by (intro exI [of _ k], subst k) (simp add: p)
      then have imp: "imported \<sigma> off op ?arg ?\<sigma>4" using c4 by (simp add: imported_def p)
      have "import_instr il (word_of_nat off) fb \<sigma> = Inr (S_OK, word_of_nat (o' + ?n), fb \<or> is_branch op, ?\<sigma>4)"
        unfolding eq using False f big fits
        by (simp add: new s1 s2' s3 s4 Let_def sum del: of_nat_add)
      moreover have "decode_at il cs off = Some (op, ?arg, o' + ?n)"
        using False fits sw r by (simp add: decode_at_def r)
      ultimately show ?thesis using h4 imp p by auto
    qed
  qed
qed

text \<open>How decoding ends: at the end of the code, at bytes that are no instruction, or at a \<open>switch\<close>.\<close>

datatype decode_end = Complete | Invalid | SwitchFound

function decode_from :: "BYTE list \<Rightarrow> nat \<Rightarrow> nat \<Rightarrow> (nat \<times> OPCODE \<times> ILArg) list \<times> decode_end" where
  "decode_from il cs off =
     (if cs \<le> off then ([], Complete)
      else if map_option fst (decode_opcode il cs off) = Some CEE_SWITCH then ([], SwitchFound)
      else case decode_at il cs off of
        None \<Rightarrow> ([], Invalid)
      | Some (op, arg, o') \<Rightarrow> (case decode_from il cs o' of (l, e) \<Rightarrow> ((off, op, arg) # l, e)))"
  by auto
termination
  by (relation "measure (\<lambda>(il, cs, off). cs - off)") (auto dest: decode_at_bounds simp del: not_le simp add: not_le)

declare decode_from.simps [simp del]

lemma decode_from_offsets: "\<forall>x \<in> set (fst (decode_from il cs off)). off \<le> fst x \<and> fst x < cs"
proof (induction il cs off rule: decode_from.induct)
  case (1 il cs off)
  show ?case
  proof (cases "cs \<le> off \<or> map_option fst (decode_opcode il cs off) = Some CEE_SWITCH \<or> decode_at il cs off = None")
    case True
    then show ?thesis by (subst decode_from.simps) auto
  next
    case False
    then obtain op arg o' where d: "decode_at il cs off = Some (op, arg, o')" by (cases "decode_at il cs off") auto
    have "\<forall>x \<in> set (fst (decode_from il cs o')). o' \<le> fst x \<and> fst x < cs"
      using 1 [OF _ _ d refl refl] False by simp
    moreover have "off < o'" using decode_at_bounds(1) [OF d] False by simp
    ultimately show ?thesis using False d by (subst decode_from.simps) (fastforce split: prod.splits)
  qed
qed

text \<open>The loop follows the decoder.\<close>

definition imported_all ::
  "ILRewriter \<Rightarrow> (nat \<times> OPCODE \<times> ILArg) list \<Rightarrow> ILRewriter \<Rightarrow> bool" where
  "imported_all \<sigma> l \<sigma>' \<longleftrightarrow>
     (\<exists>k t. \<sigma>' = \<sigma>\<lparr>heap := heap \<sigma>', next_addr := next_addr \<sigma> + length l, m_nInstrs := m_nInstrs \<sigma> + word_of_nat (length l),
            m_maxStack := m_maxStack \<sigma> + k, m_pOffsetToInstr := t\<rparr> \<and>
        length t = length (m_pOffsetToInstr \<sigma>) \<and>
        (\<forall>j. j \<notin> fst ` set l \<longrightarrow> t ! j = m_pOffsetToInstr \<sigma> ! j) \<and>
        (\<forall>i < length l. t ! fst (l ! i) = next_addr \<sigma> + i)) \<and>
     (\<forall>p < next_addr \<sigma>. content_of (heap \<sigma>') p = content_of (heap \<sigma>) p) \<and>
     (\<forall>i < length l. content_of (heap \<sigma>') (next_addr \<sigma> + i) =
        Some (fst (snd (l ! i)), 0, snd (snd (l ! i))))"

lemma imported_all_Nil: "imported_all \<sigma> [] \<sigma>"
  unfolding imported_all_def by (intro conjI exI [of _ 0] exI [of _ "m_pOffsetToInstr \<sigma>"]) auto

lemma imported_all_Cons:
  assumes "imported \<sigma> off op arg \<sigma>1" "imported_all \<sigma>1 l \<sigma>'" "off < length (m_pOffsetToInstr \<sigma>)"
    and "\<forall>x \<in> set l. off < fst x"
  shows "imported_all \<sigma> ((off, op, arg) # l) \<sigma>'"
proof -
  obtain k where k: "\<sigma>1 = \<sigma>\<lparr>heap := heap \<sigma>1, next_addr := next_addr \<sigma> + 1, m_nInstrs := m_nInstrs \<sigma> + 1,
            m_maxStack := m_maxStack \<sigma> + k, m_pOffsetToInstr := (m_pOffsetToInstr \<sigma>)[off := next_addr \<sigma>]\<rparr>"
    and c1: "content_of (heap \<sigma>1) = (content_of (heap \<sigma>))(next_addr \<sigma> \<mapsto> (op, 0, arg))"
    using assms(1) by (auto simp: imported_def)
  obtain k' t where t: "\<sigma>' = \<sigma>1\<lparr>heap := heap \<sigma>', next_addr := next_addr \<sigma>1 + length l,
            m_nInstrs := m_nInstrs \<sigma>1 + word_of_nat (length l),
            m_maxStack := m_maxStack \<sigma>1 + k', m_pOffsetToInstr := t\<rparr>"
    "length t = length (m_pOffsetToInstr \<sigma>1)"
    "\<forall>j. j \<notin> fst ` set l \<longrightarrow> t ! j = m_pOffsetToInstr \<sigma>1 ! j"
    "\<forall>i < length l. t ! fst (l ! i) = next_addr \<sigma>1 + i"
    and c2: "\<forall>p < next_addr \<sigma>1. content_of (heap \<sigma>') p = content_of (heap \<sigma>1) p"
      "\<forall>i < length l. content_of (heap \<sigma>') (next_addr \<sigma>1 + i) = Some (fst (snd (l ! i)), 0, snd (snd (l ! i)))"
    using assms(2) unfolding imported_all_def by (elim exE conjE) (rule that)
  have f1: "next_addr \<sigma>1 = next_addr \<sigma> + 1" "m_pOffsetToInstr \<sigma>1 = (m_pOffsetToInstr \<sigma>)[off := next_addr \<sigma>]"
    by (rule trans [OF arg_cong [OF k, of next_addr]], simp, rule trans [OF arg_cong [OF k, of m_pOffsetToInstr]], simp)
  have "\<sigma>' = \<sigma>\<lparr>heap := heap \<sigma>', next_addr := next_addr \<sigma> + length ((off, op, arg) # l),
            m_nInstrs := m_nInstrs \<sigma> + word_of_nat (length ((off, op, arg) # l)),
            m_maxStack := m_maxStack \<sigma> + (k + k'), m_pOffsetToInstr := t\<rparr>"
    by (rule trans [OF t(1)], subst (1 2 3 4) k) (simp add: ac_simps)
  moreover have "length t = length (m_pOffsetToInstr \<sigma>)" using t(2) f1 by simp
  moreover have "t ! j = m_pOffsetToInstr \<sigma> ! j" if "j \<notin> fst ` set ((off, op, arg) # l)" for j
    using t(3) that f1 by simp
  moreover have "off \<notin> fst ` set l" using assms(4) by auto
  then have "t ! off = next_addr \<sigma>" using t(3) assms(3) f1 by simp
  then have "t ! fst (((off, op, arg) # l) ! i) = next_addr \<sigma> + i" if "i < length ((off, op, arg) # l)" for i
    using t(4) that f1 by (cases i) auto
  moreover have "content_of (heap \<sigma>') p = content_of (heap \<sigma>) p" if "p < next_addr \<sigma>" for p
    using c2(1) c1 f1 that by simp
  moreover have "content_of (heap \<sigma>') (next_addr \<sigma>) = Some (op, 0, arg)" using c2(1) c1 f1 by simp
  then have "content_of (heap \<sigma>') (next_addr \<sigma> + i) = Some (fst (snd (((off, op, arg) # l) ! i)), 0, snd (snd (((off, op, arg) # l) ! i)))"
    if "i < length ((off, op, arg) # l)" for i
    using c2(2) that f1 by (cases i) auto
  ultimately show ?thesis unfolding imported_all_def by blast
qed

lemma import_loop_refines:
  assumes "holds \<sigma> as" "cs = unat (m_CodeSize \<sigma>)" "cs \<le> length il" "cs + 16 < 2 ^ 32"
    and "length (m_pOffsetToInstr \<sigma>) = cs + 1" "off \<le> cs" "cs - off < n"
    and "decode_from il cs off = (l, e)" "e \<noteq> SwitchFound"
  shows "\<exists>fb' \<sigma>'. import_loop n il (word_of_nat off) fb \<sigma> =
       Inr (if e = Complete then S_OK else COR_E_INVALIDPROGRAM, fb', \<sigma>') \<and>
     holds \<sigma>' (as @ [next_addr \<sigma>..<next_addr \<sigma> + length l]) \<and> imported_all \<sigma> l \<sigma>' \<and>
     (e = Complete \<longrightarrow> fb' = (fb \<or> list_ex (\<lambda>x. is_branch (fst (snd x))) l))"
  using assms
proof (induction n arbitrary: \<sigma> as off fb l)
  case (Suc n)
  have uo: "unat (word_of_nat off :: 32 word) = off" using Suc.prems(4,6) by (intro unat_of_nat_32) simp
  then have lt: "word_of_nat off < m_CodeSize \<sigma> \<longleftrightarrow> off < cs" by (simp only: word_less_nat_alt Suc.prems(2))
  show ?case
  proof (cases "off < cs")
    case False
    then have "l = []" "e = Complete" using Suc.prems(8) by (simp_all add: decode_from.simps [of il cs off])
    then show ?thesis using Suc.prems(1) imported_all_Nil lt False by simp
  next
    case True
    have nsw: "map_option fst (decode_opcode il cs off) \<noteq> Some CEE_SWITCH"
      using Suc.prems(8,9) True by (auto simp: decode_from.simps [of il cs off])
    note step = import_step [OF Suc.prems(1) True Suc.prems(2-5) nsw, where fb = fb]
    show ?thesis
    proof (cases "decode_at il cs off")
      case None
      then have "l = []" "e = Invalid"
        using Suc.prems(8) True nsw by (auto simp: decode_from.simps [of il cs off])
      moreover obtain off' where "import_instr il (word_of_nat off) fb \<sigma> = Inr (COR_E_INVALIDPROGRAM, off', fb, \<sigma>)"
        using step None by auto
      ultimately show ?thesis using Suc.prems(1) imported_all_Nil lt True by simp
    next
      case (Some d)
      obtain op arg o' where d: "decode_at il cs off = Some (op, arg, o')" using Some by (cases d) auto
      note b = decode_at_bounds [OF d True]
      obtain l' where l': "decode_from il cs o' = (l', e)" "l = (off, op, arg) # l'"
        using Suc.prems(8) True nsw d by (auto simp: decode_from.simps [of il cs off] split: prod.splits)
      obtain \<sigma>1 where s1: "import_instr il (word_of_nat off) fb \<sigma> = Inr (S_OK, word_of_nat o', fb \<or> is_branch op, \<sigma>1)"
        "holds \<sigma>1 (as @ [next_addr \<sigma>])" "imported \<sigma> off op arg \<sigma>1"
        using step d by auto
      obtain k where k: "\<sigma>1 = \<sigma>\<lparr>heap := heap \<sigma>1, next_addr := next_addr \<sigma> + 1, m_nInstrs := m_nInstrs \<sigma> + 1,
            m_maxStack := m_maxStack \<sigma> + k, m_pOffsetToInstr := (m_pOffsetToInstr \<sigma>)[off := next_addr \<sigma>]\<rparr>"
        using s1(3) by (auto simp: imported_def)
      have f1: "m_CodeSize \<sigma>1 = m_CodeSize \<sigma>" "length (m_pOffsetToInstr \<sigma>1) = cs + 1" "next_addr \<sigma>1 = next_addr \<sigma> + 1"
        using Suc.prems(5) by (subst k, simp)+
      have "\<exists>fb' \<sigma>'. import_loop n il (word_of_nat o') (fb \<or> is_branch op) \<sigma>1 =
           Inr (if e = Complete then S_OK else COR_E_INVALIDPROGRAM, fb', \<sigma>') \<and>
         holds \<sigma>' ((as @ [next_addr \<sigma>]) @ [next_addr \<sigma>1..<next_addr \<sigma>1 + length l']) \<and> imported_all \<sigma>1 l' \<sigma>' \<and>
         (e = Complete \<longrightarrow> fb' = ((fb \<or> is_branch op) \<or> list_ex (\<lambda>x. is_branch (fst (snd x))) l'))"
        using Suc.prems(2-4,7,9) b l'(1) f1 by (intro Suc.IH [OF s1(2)]) simp_all
      then obtain fb' \<sigma>' where r: "import_loop n il (word_of_nat o') (fb \<or> is_branch op) \<sigma>1 =
           Inr (if e = Complete then S_OK else COR_E_INVALIDPROGRAM, fb', \<sigma>')"
         "holds \<sigma>' ((as @ [next_addr \<sigma>]) @ [next_addr \<sigma>1..<next_addr \<sigma>1 + length l'])" "imported_all \<sigma>1 l' \<sigma>'"
         "e = Complete \<longrightarrow> fb' = ((fb \<or> is_branch op) \<or> list_ex (\<lambda>x. is_branch (fst (snd x))) l')"
        by (elim exE conjE) (rule that)
      have "\<forall>x \<in> set l'. off < fst x" using decode_from_offsets [of il cs o'] l'(1) b(1) by force
      then have "imported_all \<sigma> l \<sigma>'"
        unfolding l'(2) using imported_all_Cons [OF s1(3) r(3)] Suc.prems(5) True by simp
      moreover have "import_loop (Suc n) il (word_of_nat off) fb \<sigma> =
          Inr (if e = Complete then S_OK else COR_E_INVALIDPROGRAM, fb', \<sigma>')"
        using lt True s1(1) r(1) by simp
      moreover have "holds \<sigma>' (as @ [next_addr \<sigma>..<next_addr \<sigma> + length l])"
        using r(2) by (simp add: f1(3) l'(2) upt_conv_Cons del: upt_Suc)
      ultimately show ?thesis using r(4) l'(2) by auto
    qed
  qed
qed simp

section \<open>Branch targets\<close>

text \<open>The instruction at an offset of the decoded code; the end of the code is the sentinel, and
  where no instruction begins there is a null pointer.\<close>

definition instr_at :: "(nat \<times> OPCODE \<times> ILArg) list \<Rightarrow> addr \<Rightarrow> nat \<Rightarrow> nat \<Rightarrow> addr" where
  "instr_at l a0 cs o' =
     (if o' = cs then IL
      else case map_of (zip (map fst l) [a0..<a0 + length l]) o' of None \<Rightarrow> NULL | Some p \<Rightarrow> p)"

fun resolve_arg :: "(32 word \<Rightarrow> addr) \<Rightarrow> OPCODE \<Rightarrow> ILArg \<Rightarrow> ILArg" where
  "resolve_arg g op (m_Arg32 o') = (if is_branch op then m_pTarget (g o') else m_Arg32 o')"
| "resolve_arg g op arg = arg"

lemma decode_from_shape:
  "decode_from il cs off = (l, e) \<Longrightarrow> distinct (map fst l) \<and>
     (\<forall>x \<in> set l. fst (snd x) < CEE_COUNT \<and> (is_branch (fst (snd x)) \<longrightarrow> (\<exists>v. snd (snd x) = m_Arg32 v)))"
proof (induction il cs off arbitrary: l rule: decode_from.induct)
  case (1 il cs off)
  show ?case
  proof (cases "cs \<le> off \<or> map_option fst (decode_opcode il cs off) = Some CEE_SWITCH \<or> decode_at il cs off = None")
    case True
    then have "l = []" using 1(2) by (auto simp: decode_from.simps [of il cs off] split: if_splits)
    then show ?thesis by simp
  next
    case False
    then obtain op arg o' where d: "decode_at il cs off = Some (op, arg, o')" by (cases "decode_at il cs off") auto
    obtain l' where l': "decode_from il cs o' = (l', e)" "l = (off, op, arg) # l'"
      using 1(2) False d by (auto simp: decode_from.simps [of il cs off] split: prod.splits)
    have off: "off < o'" "op < CEE_COUNT" using decode_at_bounds [OF d] False by simp_all
    have "\<forall>x \<in> set l'. off < fst x" using decode_from_offsets [of il cs o'] l'(1) off by force
    then have "off \<notin> set (map fst l')" by auto
    moreover have "is_branch op \<longrightarrow> (\<exists>v. arg = m_Arg32 v)"
      using d by (auto simp: decode_at_def decode_operand_def is_branch_def split: option.splits if_splits)
    moreover note 1(1) [OF _ _ d refl refl l'(1)]
    ultimately show ?thesis using False off(2) by (simp add: l'(2))
  qed
qed

lemma GetInstr_imported:
  assumes "imported_all \<sigma> l \<sigma>'" "m_pOffsetToInstr \<sigma> = replicate cs NULL @ [IL]" "cs = unat (m_CodeSize \<sigma>)"
    and "distinct (map fst l)" "\<forall>x \<in> set l. fst x < cs"
  shows "GetInstrFromOffset \<sigma>' v = Inr (instr_at l (next_addr \<sigma>) cs (unat v))"
proof -
  obtain k t where k: "\<sigma>' = \<sigma>\<lparr>heap := heap \<sigma>', next_addr := next_addr \<sigma> + length l,
            m_nInstrs := m_nInstrs \<sigma> + word_of_nat (length l), m_maxStack := m_maxStack \<sigma> + k, m_pOffsetToInstr := t\<rparr>"
    and t: "length t = length (m_pOffsetToInstr \<sigma>)" "\<forall>j. j \<notin> fst ` set l \<longrightarrow> t ! j = m_pOffsetToInstr \<sigma> ! j"
     "\<forall>i < length l. t ! fst (l ! i) = next_addr \<sigma> + i"
    using assms(1) unfolding imported_all_def by (elim exE conjE) (rule that)
  have f: "m_CodeSize \<sigma>' = m_CodeSize \<sigma>" "m_pOffsetToInstr \<sigma>' = t" by (subst k, simp)+
  have len: "length t = cs + 1" using t(1) assms(2) by simp
  consider "unat v = cs" | "cs < unat v" | "unat v < cs" "unat v \<in> fst ` set l" | "unat v < cs" "unat v \<notin> fst ` set l"
    by linarith
  then show ?thesis
  proof cases
    case 1
    moreover have "cs \<notin> fst ` set l" using assms(5) by auto
    ultimately show ?thesis
      using t(2) assms(2,3) len by (simp add: GetInstrFromOffset_def f word_le_nat_alt instr_at_def nth_append)
  next
    case 2
    have "unat v \<notin> fst ` set l" using 2 assms(5) by auto
    then have none: "map_of (zip (map fst l) [next_addr \<sigma>..<next_addr \<sigma> + length l]) (unat v) = None"
      by (subst map_of_zip_is_None) simp_all
    then show ?thesis using 2 assms(3) by (simp add: none GetInstrFromOffset_def f word_le_nat_alt instr_at_def)
  next
    case 3
    then obtain i where i: "i < length l" "unat v = fst (l ! i)" by (metis imageE in_set_conv_nth)
    then have "map_of (zip (map fst l) [next_addr \<sigma>..<next_addr \<sigma> + length l]) (map fst l ! i) = Some ([next_addr \<sigma>..<next_addr \<sigma> + length l] ! i)"
      using assms(4) by (intro map_of_zip_nth) simp_all
    then have "map_of (zip (map fst l) [next_addr \<sigma>..<next_addr \<sigma> + length l]) (unat v) = Some (next_addr \<sigma> + i)"
      using i by simp
    then show ?thesis using 3 i t(3) assms(3) len by (simp add: GetInstrFromOffset_def f word_le_nat_alt instr_at_def)
  next
    case 4
    then have none: "map_of (zip (map fst l) [next_addr \<sigma>..<next_addr \<sigma> + length l]) (unat v) = None"
      by (subst map_of_zip_is_None) simp_all
    moreover have "t ! unat v = NULL" using 4 t(2) assms(2) by (simp add: nth_append)
    ultimately show ?thesis using 4 assms(3) len by (simp add: none GetInstrFromOffset_def f word_le_nat_alt instr_at_def)
  qed
qed

lemma import_target_links: "import_target p s = Inr s' \<Longrightarrow> keeps_links (snd s) (snd s')"
proof (erule ensuresD [rotated])
  have "ensures (GetInstrFromOffset \<sigma> v) (\<lambda>_. True)" for \<sigma> v by (rule ensures_any) simp
  show "ensures (import_target p s) (\<lambda>s'. keeps_links (snd s) (snd s'))"
    unfolding import_target_def by (intro wp ensures_any [of _ "GetInstrFromOffset _ _"])
      (auto simp: keeps_links_def next_of_upd)
qed

lemma import_targets_fold:
  assumes "holds \<tau> xs" "distinct ps" "\<forall>v. GetInstrFromOffset \<tau> v = Inr (g v)"
    and "\<forall>p \<in> set ps. \<exists>op arg. content_of (heap \<tau>) p = Some (op, 0, arg) \<and> op < CEE_COUNT \<and>
       (is_branch op \<longrightarrow> (\<exists>v. arg = m_Arg32 v))"
  shows "\<exists>\<tau>'. foldO import_target ps ((), \<tau>) = Inr ((), \<tau>') \<and> holds \<tau>' xs \<and> same_rest \<tau> \<tau>' \<and>
     content_of (heap \<tau>') = (\<lambda>p. if p \<in> set ps then map_option (\<lambda>(op, off, arg). (op, off, resolve_arg g op arg)) (content_of (heap \<tau>) p)
        else content_of (heap \<tau>) p)"
  using assms
proof (induction ps arbitrary: \<tau>)
  case (Cons p ps)
  obtain op arg where c: "content_of (heap \<tau>) p = Some (op, 0, arg)" "op < CEE_COUNT" "is_branch op \<longrightarrow> (\<exists>v. arg = m_Arg32 v)"
    using Cons.prems(4) by auto
  obtain i where i: "heap \<tau> p = Some i" "m_opcode i = op" "m_offset i = 0" "m_arg i = arg"
    using c(1) by (auto simp: content_of_Some)
  note fl = OpCodeFlags_flags_of [OF c(2)]
  have br: "flags_of op AND OPCODEFLAGS_BranchTarget \<noteq> 0 \<longleftrightarrow> is_branch op"
    by (cases rule: flags_of_cases [of op]; simp add: is_branch_def OPCODEFLAGS_BranchTarget_def)
  let ?f = "\<lambda>i. i\<lparr>m_arg := resolve_arg g op arg\<rparr>"
  let ?\<tau> = "\<tau>\<lparr>heap := (heap \<tau>)(p \<mapsto> ?f i)\<rparr>"
  have st: "import_target p ((), \<tau>) = Inr ((), ?\<tau>)"
  proof (cases "is_branch op")
    case True
    then obtain v where "arg = m_Arg32 v" using c(3) by auto
    then show ?thesis using True br fl Cons.prems(3) i by (simp add: import_target_def)
  next
    case False
    then have "resolve_arg g op arg = arg" by (cases arg) simp_all
    then have "?f i = i" using i(4) by (cases i) simp
    moreover have "(heap \<tau>)(p \<mapsto> i) = heap \<tau>" using i(1) by auto
    ultimately have "?\<tau> = \<tau>" by simp
    then show ?thesis using False br fl i by (simp add: import_target_def)
  qed
  have h: "holds ?\<tau> xs" using store_content(2) [OF Cons.prems(1) i(1), of ?f] by simp
  have ct: "content_of (heap ?\<tau>) = (content_of (heap \<tau>))(p \<mapsto> (op, 0, resolve_arg g op arg))"
    by (simp add: content_of_upd i)
  have g: "GetInstrFromOffset ?\<tau> v = GetInstrFromOffset \<tau> v" for v by (simp add: GetInstrFromOffset_def)
  have "\<exists>\<tau>'. foldO import_target ps ((), ?\<tau>) = Inr ((), \<tau>') \<and> holds \<tau>' xs \<and> same_rest ?\<tau> \<tau>' \<and>
     content_of (heap \<tau>') = (\<lambda>p. if p \<in> set ps then map_option (\<lambda>(op, off, arg). (op, off, resolve_arg g op arg)) (content_of (heap ?\<tau>) p)
        else content_of (heap ?\<tau>) p)"
  proof (rule Cons.IH [OF h])
    show "distinct ps" using Cons.prems(2) by simp
    show "\<forall>v. GetInstrFromOffset ?\<tau> v = Inr (g v)" using Cons.prems(3) g by simp
    show "\<forall>q \<in> set ps. \<exists>op arg. content_of (heap ?\<tau>) q = Some (op, 0, arg) \<and> op < CEE_COUNT \<and>
       (is_branch op \<longrightarrow> (\<exists>v. arg = m_Arg32 v))"
    proof
      fix q assume q: "q \<in> set ps"
      then have "q \<noteq> p" using Cons.prems(2) by auto
      then have "content_of (heap ?\<tau>) q = content_of (heap \<tau>) q" unfolding ct by simp
      then show "\<exists>op arg. content_of (heap ?\<tau>) q = Some (op, 0, arg) \<and> op < CEE_COUNT \<and>
       (is_branch op \<longrightarrow> (\<exists>v. arg = m_Arg32 v))" using Cons.prems(4) q by simp
    qed
  qed
  then obtain \<tau>' where r: "foldO import_target ps ((), ?\<tau>) = Inr ((), \<tau>')" "holds \<tau>' xs" "same_rest ?\<tau> \<tau>'"
     "content_of (heap \<tau>') = (\<lambda>p. if p \<in> set ps then map_option (\<lambda>(op, off, arg). (op, off, resolve_arg g op arg)) (content_of (heap ?\<tau>) p)
        else content_of (heap ?\<tau>) p)"
    by (elim exE conjE) (rule that)
  have "same_rest \<tau> ?\<tau>" by simp
  then have "same_rest \<tau> \<tau>'" using r(3) by (rule same_rest_trans)
  moreover have "content_of (heap \<tau>') = (\<lambda>q. if q \<in> set (p # ps) then map_option (\<lambda>(op, off, arg). (op, off, resolve_arg g op arg)) (content_of (heap \<tau>) q)
        else content_of (heap \<tau>) q)"
    using Cons.prems(2) c(1) unfolding r(4) ct by (auto simp: fun_eq_iff)
  moreover have "foldO import_target (p # ps) ((), \<tau>) = Inr ((), \<tau>')" using st r(1) by simp
  ultimately show ?case using r(2) by blast
qed auto


section \<open>The import follows the decoder\<close>

lemma ImportIL_decodes:
  assumes h: "holds \<sigma> []" and cs: "cs = unat (m_CodeSize \<sigma>)" "cs \<le> length il" "cs + 16 < 2 ^ 32"
    and d: "decode_from il cs 0 = (l, e)" "e \<noteq> SwitchFound"
  shows "\<exists>\<sigma>'. ImportIL il \<sigma> = Inr (if e = Complete then S_OK else COR_E_INVALIDPROGRAM, \<sigma>') \<and>
     holds \<sigma>' [next_addr \<sigma>..<next_addr \<sigma> + length l] \<and> m_pEH \<sigma>' = m_pEH \<sigma> \<and>
     next_addr \<sigma>' = next_addr \<sigma> + length l \<and>
     (\<forall>v. GetInstrFromOffset \<sigma>' v = Inr (instr_at l (next_addr \<sigma>) cs (unat v))) \<and>
     (e = Complete \<longrightarrow> (\<forall>i < length l. content_of (heap \<sigma>') (next_addr \<sigma> + i) =
        (case l ! i of (_, op, arg) \<Rightarrow>
          Some (op, 0, resolve_arg (\<lambda>v. instr_at l (next_addr \<sigma>) cs (unat v)) op arg))))"
proof -
  let ?t = "replicate cs NULL @ [IL]" and ?a0 = "next_addr \<sigma>"
  let ?ps = "[?a0..<?a0 + length l]"
  obtain s where s: "heap \<sigma> IL = Some s" using holds_dom [OF h, of IL] by auto
  let ?\<sigma>1 = "\<sigma>\<lparr>m_pOffsetToInstr := ?t\<rparr>"
  let ?\<sigma>2 = "?\<sigma>1\<lparr>heap := (heap \<sigma>)(IL \<mapsto> s\<lparr>m_opcode := - 1\<rparr>)\<rparr>"
  have "holds ?\<sigma>1 []" by (rule holds_cong [OF h]) simp_all
  then have h2: "holds ?\<sigma>2 []" using store_content(2) [of ?\<sigma>1 "[]" IL s "\<lambda>i. i\<lparr>m_opcode := - 1\<rparr>"] s by simp
  have nz: "m_CodeSize \<sigma> + 1 \<noteq> 0"
  proof
    assume "m_CodeSize \<sigma> + 1 = 0"
    then have "m_CodeSize \<sigma> = - 1" by (simp add: eq_neg_iff_add_eq_0)
    moreover have "unat (- 1 :: 32 word) = 2 ^ 32 - 1" by (simp add: unsigned_minus_1_eq_mask mask_eq_exp_minus_1)
    ultimately show False using cs(1,3) by simp
  qed
  have "\<exists>fb' \<sigma>'. import_loop (Suc cs) il (word_of_nat 0) False ?\<sigma>2 =
       Inr (if e = Complete then S_OK else COR_E_INVALIDPROGRAM, fb', \<sigma>') \<and>
     holds \<sigma>' ([] @ [next_addr ?\<sigma>2..<next_addr ?\<sigma>2 + length l]) \<and> imported_all ?\<sigma>2 l \<sigma>' \<and>
     (e = Complete \<longrightarrow> fb' = (False \<or> list_ex (\<lambda>x. is_branch (fst (snd x))) l))"
    using cs d by (intro import_loop_refines [OF h2]) simp_all
  then obtain fb \<sigma>3 where r: "import_loop (Suc cs) il 0 False ?\<sigma>2 =
       Inr (if e = Complete then S_OK else COR_E_INVALIDPROGRAM, fb, \<sigma>3)"
     "holds \<sigma>3 ?ps" "imported_all ?\<sigma>2 l \<sigma>3" "e = Complete \<longrightarrow> fb = list_ex (\<lambda>x. is_branch (fst (snd x))) l"
    by auto
  note shape = decode_from_shape [OF d(1)]
  have offs: "\<forall>x \<in> set l. fst x < cs" using decode_from_offsets [of il cs 0] d(1) by simp
  let ?g = "\<lambda>v. instr_at l ?a0 cs (unat (v :: 32 word))"
  have g: "GetInstrFromOffset \<sigma>3 v = Inr (?g v)" for v
    using GetInstr_imported [OF r(3), of cs v] shape offs cs(1) by simp
  obtain k t where k: "\<sigma>3 = ?\<sigma>2\<lparr>heap := heap \<sigma>3, next_addr := next_addr ?\<sigma>2 + length l,
            m_nInstrs := m_nInstrs ?\<sigma>2 + word_of_nat (length l), m_maxStack := m_maxStack ?\<sigma>2 + k, m_pOffsetToInstr := t\<rparr>"
    using r(3) unfolding imported_all_def by (elim exE conjE) (rule that)
  have eh: "m_pEH \<sigma>3 = m_pEH \<sigma>" "next_addr \<sigma>3 = next_addr \<sigma> + length l" by (subst k, simp)+
  have c3: "content_of (heap \<sigma>3) (?a0 + i) = Some (fst (snd (l ! i)), 0, snd (snd (l ! i)))" if "i < length l" for i
    using r(3) that by (simp add: imported_all_def)
  have imp: "ImportIL il \<sigma> = (if e = Complete \<and> fb
      then bindO (for_each_instr import_target ((), \<sigma>3)) (\<lambda>(_, \<sigma>). Inr (S_OK, \<sigma>))
      else Inr (if e = Complete then S_OK else COR_E_INVALIDPROGRAM, \<sigma>3))"
    using nz s r(1) cs(1) by (simp add: ImportIL_def del: import_loop.simps)
  show ?thesis
  proof (cases "e = Complete \<and> fb")
    case True
    have "\<exists>\<tau>'. foldO import_target ?ps ((), \<sigma>3) = Inr ((), \<tau>') \<and> holds \<tau>' ?ps \<and> same_rest \<sigma>3 \<tau>' \<and>
       content_of (heap \<tau>') = (\<lambda>p. if p \<in> set ?ps then map_option (\<lambda>(op, off, arg). (op, off, resolve_arg ?g op arg)) (content_of (heap \<sigma>3) p)
          else content_of (heap \<sigma>3) p)"
    proof (rule import_targets_fold [OF r(2)])
      show "\<forall>p \<in> set ?ps. \<exists>op arg. content_of (heap \<sigma>3) p = Some (op, 0, arg) \<and> op < CEE_COUNT \<and>
         (is_branch op \<longrightarrow> (\<exists>v. arg = m_Arg32 v))"
      proof
        fix p assume "p \<in> set ?ps"
        then have i: "p = ?a0 + (p - ?a0)" "p - ?a0 < length l" by auto
        then have "l ! (p - ?a0) \<in> set l" by simp
        then show "\<exists>op arg. content_of (heap \<sigma>3) p = Some (op, 0, arg) \<and> op < CEE_COUNT \<and>
            (is_branch op \<longrightarrow> (\<exists>v. arg = m_Arg32 v))"
          using c3 [OF i(2)] i(1) shape by auto
      qed
    qed (use g in simp_all)
    then obtain \<tau> where t: "foldO import_target ?ps ((), \<sigma>3) = Inr ((), \<tau>)" "holds \<tau> ?ps" "same_rest \<sigma>3 \<tau>"
       "content_of (heap \<tau>) = (\<lambda>p. if p \<in> set ?ps then map_option (\<lambda>(op, off, arg). (op, off, resolve_arg ?g op arg)) (content_of (heap \<sigma>3) p)
          else content_of (heap \<sigma>3) p)"
      by (elim exE conjE) (rule that)
    have "for_each_instr import_target ((), \<sigma>3) = foldO import_target ?ps ((), \<sigma>3)"
      by (rule for_each_instr_fold) (use r(2) import_target_links in auto)
    then have "ImportIL il \<sigma> = Inr (S_OK, \<tau>)" using imp True t(1) by simp
    moreover have "m_CodeSize \<tau> = m_CodeSize \<sigma>3" "m_pOffsetToInstr \<tau> = m_pOffsetToInstr \<sigma>3"
      using arg_cong [OF t(3) [unfolded same_rest_def], of m_CodeSize]
        arg_cong [OF t(3) [unfolded same_rest_def], of m_pOffsetToInstr] by simp_all
    then have "GetInstrFromOffset \<tau> v = Inr (?g v)" for v using g [of v] by (simp only: GetInstrFromOffset_def)
    moreover have "content_of (heap \<tau>) (?a0 + i) = (case l ! i of (_, op, arg) \<Rightarrow> Some (op, 0, resolve_arg ?g op arg))"
      if "i < length l" for i
      unfolding t(4) using c3 [OF that] that by (simp split: prod.splits)
    ultimately show ?thesis using t(2) True eh same_rest_fields(1,8) [OF t(3)] by (intro exI [of _ \<tau>]) simp
  next
    case False
    have "resolve_arg ?g (fst (snd (l ! i))) (snd (snd (l ! i))) = snd (snd (l ! i))"
      if "e = Complete" "i < length l" for i
    proof -
      have "\<not> is_branch (fst (snd (l ! i)))"
        using False r(4) that nth_mem [OF that(2)] by (auto simp: list_ex_iff)
      then show ?thesis by (cases "snd (snd (l ! i))") simp_all
    qed
    then show ?thesis using imp False r(2) g c3 eh by (intro exI [of _ \<sigma>3]) (auto simp: case_prod_beta)
  qed
qed

section \<open>An example\<close>

definition example_import :: "32 word \<Rightarrow> ILRewriter" where
  "example_import n = (example_export False)\<lparr>heap := [1 \<mapsto> \<lparr>m_pNext = 1, m_pPrev = 1, m_opcode = 0, m_offset = 0, m_arg = m_pTarget NULL\<rparr>],
     next_addr := 2, m_nInstrs := 0, m_nEH := 0, m_pEH := [], m_CodeSize := n\<rparr>"

lemma example_import_holds: "holds (example_import n) []"
  by (simp add: holds_def dll_def example_import_def next_of_def prev_of_def IL_def)


text \<open>C2: for any bytes whose decoding meets no \<open>switch\<close> instruction (the import of one with targets faults, see the claim
  on \<open>CEE_SWITCH_ARG\<close>), the import of the code ends without a fault; it succeeds exactly when the bytes decode to the end
  of the code, and the list then holds the decoded instructions in order, each branch pointing to the node of the
  instruction at its target offset. The code lies in the buffer and is shorter than \<open>2 ^ 32 - 16\<close> bytes.\<close>

theorem ImportIL_follows_decoder:
  assumes "holds \<sigma> []" and "cs = unat (m_CodeSize \<sigma>)" "cs \<le> length il" "cs + 16 < 2 ^ 32"
    and "decode_from il cs 0 = (l, e)" "e \<noteq> SwitchFound"
  shows "\<exists>\<sigma>'. ImportIL il \<sigma> = Inr (if e = Complete then S_OK else COR_E_INVALIDPROGRAM, \<sigma>') \<and>
     holds \<sigma>' [next_addr \<sigma>..<next_addr \<sigma> + length l] \<and>
     (e = Complete \<longrightarrow> (\<forall>i < length l. content_of (heap \<sigma>') (next_addr \<sigma> + i) =
        (case l ! i of (_, op, arg) \<Rightarrow>
          Some (op, 0, resolve_arg (\<lambda>v. instr_at l (next_addr \<sigma>) cs (unat v)) op arg))))"
  using ImportIL_decodes [OF assms] by (elim exE conjE) (intro exI conjI)

text \<open>A short branch to the \<open>ret\<close> at its end, and a truncated operand.\<close>

theorem ImportIL_follows_decoder_witness:
  "(\<exists>\<sigma>'. ImportIL [0x2B, 0, 0x2A] (example_import 3) = Inr (S_OK, \<sigma>') \<and> holds \<sigma>' [2, 3] \<and>
     content_of (heap \<sigma>') 2 = Some (CEE_BR_S, 0, m_pTarget 3)) \<and>
   (\<exists>\<sigma>'. ImportIL [0x2B] (example_import 1) = Inr (COR_E_INVALIDPROGRAM, \<sigma>'))"
proof
  have d: "decode_from [0x2B, 0, 0x2A] 3 0 = ([(0, CEE_BR_S, m_Arg32 2), (2, CEE_RET, m_pTarget NULL)], Complete)"
    "decode_from [0x2B] 1 0 = ([], Invalid)" by code_simp+
  have n: "m_CodeSize (example_import n) = n" "next_addr (example_import n) = 2" for n
    by (simp_all add: example_import_def)
  have h: "3 = unat (m_CodeSize (example_import 3))" "1 = unat (m_CodeSize (example_import 1))" by (simp_all add: n)
  have at: "instr_at [(0, CEE_BR_S, m_Arg32 2), (2, CEE_RET, m_pTarget NULL)] 2 3 2 = 3" by code_simp
  have br: "is_branch CEE_BR_S" by code_simp
  show "\<exists>\<sigma>'. ImportIL [0x2B, 0, 0x2A] (example_import 3) = Inr (S_OK, \<sigma>') \<and> holds \<sigma>' [2, 3] \<and>
     content_of (heap \<sigma>') 2 = Some (CEE_BR_S, 0, m_pTarget 3)"
    using ImportIL_follows_decoder [OF example_import_holds h(1) _ _ d(1)]
    by (auto simp: n at br upt_rec numeral_2_eq_2 [symmetric] dest!: spec [of _ 0])
  show "\<exists>\<sigma>'. ImportIL [0x2B] (example_import 1) = Inr (COR_E_INVALIDPROGRAM, \<sigma>')"
    using ImportIL_follows_decoder [OF example_import_holds h(2) _ _ d(2)] by auto
qed

end
