(* ===== verification/ILRoundtrip.thy ===== *)
theory ILRoundtrip
  imports ILDecode
begin

text \<open>
  \<open>ILRewriter::Import\<close> undoes \<open>ILRewriter::Export\<close>: the code an export lays out decodes to its
  instructions, and importing the exported body gives a copy of the method.
\<close>

unbundle bit_operations_syntax

section \<open>Decoding what was laid out\<close>

text \<open>Opcodes whose first byte is not taken for a prefix, and no \<open>switch\<close>.\<close>

definition plain_opcode :: "OPCODE \<Rightarrow> bool" where
  "plain_opcode op \<longleftrightarrow> op < CEE_COUNT \<and> op \<noteq> CEE_SWITCH \<and> \<not> (CEE_PREFIX7 \<le> op \<and> op \<le> CEE_PREFIX1)"

definition raw_arg :: "(addr \<Rightarrow> ILInstr option) \<Rightarrow> ILInstr \<Rightarrow> ILArg" where
  "raw_arg h i =
     (if is_branch (m_opcode i) then m_Arg32 (offset_at h (target_of i))
      else if flags_of (m_opcode i) = 0 then m_pTarget NULL else m_arg i)"

lemma decode_opcode_bytes:
  assumes "plain_opcode op" "il = pre @ opcode_bytes op @ post" "length pre = off" "off + length (opcode_bytes op) \<le> cs"
  shows "decode_opcode il cs off = Some (op, off + length (opcode_bytes op))"
proof (cases "op \<ge> 0x100")
  case True
  have lt: "unat op < 294" using assms(1) by (simp add: plain_opcode_def CEE_COUNT_def word_less_nat_alt)
  have ge: "256 \<le> unat op" using True by (simp add: word_le_nat_alt)
  have "unat (ucast op :: BYTE) = unat op mod 256"
    by (simp add: unsigned_ucast_eq take_bit_eq_mod)
  also have "\<dots> = unat op - 256" using lt ge by (simp add: mod_if)
  finally have "unat (ucast (ucast op :: BYTE) :: 32 word) = unat op - 256" by simp
  then have "unat (0x100 + ucast (ucast op :: BYTE) :: 32 word) = unat op"
    using lt ge by (subst unat_add_lem [THEN iffD1]) simp_all
  then have "0x100 + ucast (ucast op :: BYTE) = op" by (simp only: word_unat_eq_iff)
  moreover have "il ! off = 0xFE" "il ! (off + 1) = ucast op"
    using True assms(2,3) by (simp_all add: opcode_bytes_def nth_append)
  ultimately show ?thesis using True assms(4) by (simp add: decode_opcode_def opcode_bytes_def)
next
  case False
  have lt: "unat op < 256" using False by (simp add: word_le_nat_alt not_le word_less_nat_alt)
  then have u: "unat (ucast op :: BYTE) = unat op"
    by (simp add: unsigned_ucast_eq take_bit_eq_mod)
  then have "unat (ucast (ucast op :: BYTE) :: 32 word) = unat op" by simp
  then have eq: "ucast (ucast op :: BYTE) = op" by (simp only: word_unat_eq_iff)
  have "op \<noteq> 0xFE" using assms(1) by (auto simp: plain_opcode_def)
  then have "unat op \<noteq> 254" by (auto simp: word_unat_eq_iff)
  then have "(ucast op :: BYTE) \<noteq> 0xFE" using u by (auto simp: word_unat_eq_iff)
  moreover have "il ! off = ucast op" using False assms(2,3) by (simp add: opcode_bytes_def nth_append)
  ultimately show ?thesis using False eq by (simp add: decode_opcode_def opcode_bytes_def)
qed

lemma decode_operand_bytes:
  assumes t: "typed_instr i" and sw: "m_opcode i \<noteq> CEE_SWITCH"
    and il: "drop o' il = drop (length (opcode_bytes (m_opcode i))) (encoding h i) @ post"
    and nxt: "offset_at h (m_pNext i) = word_of_nat (o' + operand_size (flags_of (m_opcode i)))"
    and fits: "flags_of (m_opcode i) = 0x11 \<Longrightarrow> scast (ucast (branch_delta h i) :: INT8) = branch_delta h i"
  shows "decode_operand il o' (flags_of (m_opcode i)) = raw_arg h i"
proof -
  have op: "m_opcode i < CEE_COUNT" and af: "arg_fits (flags_of (m_opcode i)) (m_arg i)"
    using t by (simp_all add: typed_instr_def)
  have nsw: "flags_of (m_opcode i) \<noteq> 0x20" using flags_switch [OF _ op] sw by auto
  have tgt: "offset_at h (target_of i) = offset_at h (m_pNext i) + branch_delta h i"
    by (simp add: branch_delta_def)
  have g1: "get_le (put_le 1 v) = (ucast v :: 8 word)" for v :: "32 word" by (simp add: put_le_def)
  show ?thesis
    using nsw af by (cases rule: flags_of_cases [of "m_opcode i"])
      (auto simp: decode_operand_def raw_arg_def is_branch_def arg_fits_def il encoding_def head_bytes_def
        operand_size_simps tgt nxt fits g1 [simplified] split: ILArg.splits)
qed


lemma decode_encoding:
  assumes t: "typed_instr i" and op: "plain_opcode (m_opcode i)"
    and il: "il = pre @ encoding h i @ post" "length pre = off" "off + instr_size (m_opcode i) \<le> cs"
    and nxt: "offset_at h (m_pNext i) = word_of_nat (off + instr_size (m_opcode i))"
    and fits: "flags_of (m_opcode i) = 0x11 \<Longrightarrow> scast (ucast (branch_delta h i) :: INT8) = branch_delta h i"
  shows "decode_at il cs off = Some (m_opcode i, raw_arg h i, off + instr_size (m_opcode i))"
proof -
  let ?ob = "opcode_bytes (m_opcode i)"
  have enc: "encoding h i = ?ob @ drop (length ?ob) (encoding h i)"
    by (simp add: encoding_def head_bytes_def)
  have o: "decode_opcode il cs off = Some (m_opcode i, off + length ?ob)"
    using decode_opcode_bytes [OF op, of il pre "drop (length ?ob) (encoding h i) @ post" off cs] il enc
    by (simp add: instr_size_def)
  have "drop (off + length ?ob) il = drop (length ?ob) (encoding h i) @ post"
    using il(1,2) by (subst il(1), subst enc) simp
  then have a: "decode_operand il (off + length ?ob) (flags_of (m_opcode i)) = raw_arg h i"
    using op nxt fits by (intro decode_operand_bytes [OF t]) (simp_all add: plain_opcode_def instr_size_def add.assoc)
  have "\<not> (CEE_PREFIX7 \<le> m_opcode i \<and> m_opcode i \<le> CEE_PREFIX2 \<or> m_opcode i \<ge> CEE_COUNT \<or> m_opcode i = CEE_SWITCH)"
  proof -
    have "(0xfd :: 32 word) \<le> 0xfe" by simp
    then show ?thesis using op order_trans [of "m_opcode i" "0xfd" "0xfe"] by (auto simp: plain_opcode_def)
  qed
  then show ?thesis using o a il(3) by (simp add: decode_at_def instr_size_def add.assoc)
qed

text \<open>The decoding of a laid out list: offset, opcode and operand of every instruction.\<close>

definition decoded :: "(addr \<Rightarrow> ILInstr option) \<Rightarrow> addr \<Rightarrow> nat \<times> OPCODE \<times> ILArg" where
  "decoded h y = (unat (offset_at h y), m_opcode (the (h y)), raw_arg h (the (h y)))"

definition plain_code :: "(addr \<Rightarrow> ILInstr option) \<Rightarrow> addr list \<Rightarrow> bool" where
  "plain_code h xs \<longleftrightarrow> (\<forall>y \<in> set xs. plain_opcode (m_opcode (the (h y))))"

lemma unat_eqD: "unat (w :: 'a::len word) = n \<Longrightarrow> w = word_of_nat n"
  by auto

lemma code_of_simps:
  "code_of h [] = []" "code_of h (y # ys) = encoding h (the (h y)) @ code_of h ys"
  "code_of h (xs @ ys) = code_of h xs @ code_of h ys"
  by (simp_all add: code_of_def)

lemma decode_code_of:
  assumes lo: "laid_out \<sigma> xs" and hd: "holds \<sigma> xs" and pl: "plain_code (heap \<sigma>) xs"
    and il: "il = code_of (heap \<sigma>) xs @ post" and "k \<le> length xs"
  shows "decode_from il (code_total (heap \<sigma>) xs) (code_total (heap \<sigma>) (take k xs)) =
    (map (decoded (heap \<sigma>)) (drop k xs), Complete)"
  using assms(5)
proof (induction "length xs - k" arbitrary: k)
  case 0
  then show ?case by (simp add: decode_from.simps)
next
  case (Suc n)
  let ?h = "heap \<sigma>" and ?y = "xs ! k"
  have k: "k < length xs" "?y \<in> set xs" using Suc.hyps(2) by simp_all
  have laid: "laid ?h xs" and ex: "exportable ?h xs" and enc: "encoded ?h (m_pOutputBuffer \<sigma>) ?y"
    using lo k(2) by (simp_all add: laid_out_def)
  obtain i where i: "?h ?y = Some i" "typed_instr i" using ex k(2) by (auto simp: exportable_def typed_at_def)
  have sz: "size_at ?h ?y = instr_size (m_opcode i)" by (simp add: size_at_def i)
  let ?o = "code_total ?h (take k xs)"
  have o': "?o + instr_size (m_opcode i) = code_total ?h (take (Suc k) xs)"
    using code_total_take_Suc [OF k(1), of ?h] sz by simp
  have le: "code_total ?h (take (Suc k) xs) \<le> code_total ?h xs"
    using code_total_take_mono [of "Suc k" "length xs" ?h xs] k(1) by simp
  have b: "code_total ?h xs < 2 ^ 32" using lo by (simp add: laid_out_def)
  have len: "length (code_of ?h (take k xs)) = ?o"
  proof -
    have "length (encoding ?h (the (?h y))) = size_at ?h y" if "y \<in> set (take k xs)" for y
      using ex in_set_takeD [OF that] length_encoding by (auto simp: exportable_def typed_at_def size_at_def)
    then show ?thesis by (simp add: code_of_def code_total_def length_concat comp_def cong: map_cong)
  qed
  have "xs = take k xs @ ?y # drop (Suc k) xs" using k(1) by (simp add: id_take_nth_drop [symmetric])
  then have "code_of ?h xs = code_of ?h (take k xs @ ?y # drop (Suc k) xs)" by (rule arg_cong)
  then have "code_of ?h xs = code_of ?h (take k xs) @ encoding ?h i @ code_of ?h (drop (Suc k) xs)"
    by (simp only: code_of_simps i(1) option.sel)
  then have il': "il = code_of ?h (take k xs) @ encoding ?h i @ (code_of ?h (drop (Suc k) xs) @ post)"
    by (simp add: il)
  have nx: "m_pNext i = (xs @ [IL]) ! Suc k" using next_at [OF linked_next(1) [OF hd] k(1)] i(1) by simp
  have "unat (offset_at ?h (m_pNext i)) = ?o + instr_size (m_opcode i)"
    unfolding nx o' by (rule offset_next [OF laid k(1)])
  then have "offset_at ?h (m_pNext i) = word_of_nat (?o + instr_size (m_opcode i))"
    by (rule unat_eqD)
  moreover have "plain_opcode (m_opcode i)" using pl k(2) i(1) by (auto simp: plain_code_def)
  moreover have "flags_of (m_opcode i) = 0x11 \<Longrightarrow> scast (ucast (branch_delta ?h i) :: INT8) = branch_delta ?h i"
    using enc i(1) by (simp add: encoded_def short_at_def)
  ultimately have d: "decode_at il (code_total ?h xs) ?o =
      Some (m_opcode i, raw_arg ?h i, code_total ?h (take (Suc k) xs))"
    using decode_encoding [OF i(2) _ il' len, of "code_total ?h xs"] o' le by simp
  have "unat (offset_at ?h ?y) = ?o" using laid k(1) by (simp add: laid_def)
  moreover have "drop k xs = ?y # drop (Suc k) xs" using k(1) by (simp add: Cons_nth_drop_Suc)
  ultimately have dr: "map (decoded ?h) (drop k xs) = (?o, m_opcode i, raw_arg ?h i) # map (decoded ?h) (drop (Suc k) xs)"
    by (simp add: decoded_def i(1))
  have "?o < code_total ?h xs" using o' le instr_size_bounds(1) [of "m_opcode i"] by simp
  moreover have "map_option fst (decode_opcode il (code_total ?h xs) ?o) \<noteq> Some CEE_SWITCH"
    using d by (auto simp: decode_at_def split: option.splits if_splits)
  moreover have "decode_from il (code_total ?h xs) (code_total ?h (take (Suc k) xs)) =
      (map (decoded ?h) (drop (Suc k) xs), Complete)"
    using Suc.hyps(2) k(1) by (intro Suc.hyps(1)) simp_all
  ultimately show ?case unfolding dr by (subst decode_from.simps) (simp add: d)
qed

section \<open>What an import leaves alone\<close>

text \<open>The members that decide the form of the header, and the locals' signature.\<close>

definition kept :: "ILRewriter \<Rightarrow> ILRewriter \<Rightarrow> bool" where
  "kept \<sigma> \<sigma>' \<longleftrightarrow> m_fGenerateTinyHeader \<sigma>' = m_fGenerateTinyHeader \<sigma> \<and> m_flags \<sigma>' = m_flags \<sigma> \<and>
     m_tkLocalVarSig \<sigma>' = m_tkLocalVarSig \<sigma>"

lemma kept_refl [simp]: "kept \<sigma> \<sigma>"
  by (simp add: kept_def)

lemma kept_trans: "kept \<sigma> \<tau> \<Longrightarrow> kept \<tau> \<rho> \<Longrightarrow> kept \<sigma> \<rho>"
  by (simp add: kept_def)

lemma store_kept: "(\<And>\<tau>. kept \<sigma> \<tau> \<Longrightarrow> P \<tau>) \<Longrightarrow> ensures (store_instr \<sigma> p f) P"
  by (auto simp: store_instr_def kept_def split: option.splits intro!: wp)

lemmas any_kept = ensures_any [where m = "load_instr \<sigma> p" for \<sigma> p] ensures_any [where m = "StackPushes op" for op]
  ensures_any [where m = "OpCodeFlags op" for op] ensures_any [where m = "byte_at il k" for il k]
  ensures_any [where m = "load_le n il k" for n il k] ensures_any [where m = "GetInstrFromOffset \<sigma> off" for \<sigma> off]
  ensures_any [where m = "read_Arg32 i" for i]

lemma insert_kept: "(\<And>\<tau>. kept \<sigma> \<tau> \<Longrightarrow> P \<tau>) \<Longrightarrow> ensures (InsertBefore \<sigma> p q) P"
  unfolding InsertBefore_def AdjustState_def by (intro wp store_kept any_kept) (simp add: kept_def)

lemma offset_kept: "(\<And>\<tau>. kept \<sigma> \<tau> \<Longrightarrow> P \<tau>) \<Longrightarrow> ensures (set_offset_instr \<sigma> off p) P"
  unfolding set_offset_instr_def by (intro wp) (simp_all add: kept_def)

lemma import_targets_kept: "ensures (import_targets n il base off \<sigma>) (\<lambda>(_, _, \<tau>). kept \<sigma> \<tau>)"
proof (induction n arbitrary: off \<sigma>)
  case (Suc n)
  have loop: "ensures (import_targets n il base o' \<tau>) (\<lambda>(_, _, \<rho>). kept \<sigma> \<rho>)" if "kept \<sigma> \<tau>" for o' \<tau>
    by (rule ensures_mono [OF Suc.IH]) (use that in \<open>auto simp: kept_def\<close>)
  show ?case unfolding import_targets.simps NewILInstr_def Let_def prod.case
    by (intro wp store_kept insert_kept any_kept loop) (simp_all add: kept_def)
qed (simp add: wp)

lemma import_operand_kept: "ensures (import_operand il off flags p \<sigma>) (\<lambda>(_, _, _, \<tau>). kept \<sigma> \<tau>)"
proof -
  have tg: "ensures (import_targets n il base o' \<tau>) (\<lambda>x. ensures (f x) (\<lambda>(_, _, _, \<tau>). kept \<sigma> \<tau>))"
    if "kept \<sigma> \<tau>" "\<And>h o2 \<rho>. kept \<sigma> \<rho> \<Longrightarrow> ensures (f (h, o2, \<rho>)) (\<lambda>(_, _, _, \<tau>). kept \<sigma> \<tau>)" for n base o' \<tau> f
    by (rule ensures_mono [OF import_targets_kept]) (use that in \<open>auto simp: kept_def\<close>)
  show ?thesis unfolding import_operand_def Let_def
    by (intro wp store_kept any_kept tg) (simp_all add: kept_def ensures_def)
qed

lemma import_instr_kept: "ensures (import_instr il off fb \<sigma>) (\<lambda>(_, _, _, \<tau>). kept \<sigma> \<tau>)"
proof -
  have op: "ensures (import_operand il o' flags p \<tau>) (\<lambda>x. ensures (f x) (\<lambda>(_, _, _, \<tau>). kept \<sigma> \<tau>))"
    if "kept \<sigma> \<tau>" "\<And>h o2 b \<rho>. kept \<sigma> \<rho> \<Longrightarrow> ensures (f (h, o2, b, \<rho>)) (\<lambda>(_, _, _, \<tau>). kept \<sigma> \<tau>)" for o' flags p \<tau> f
    by (rule ensures_mono [OF import_operand_kept]) (use that in \<open>auto simp: kept_def\<close>)
  show ?thesis unfolding import_instr_def NewILInstr_def Let_def prod.case
    by (intro wp store_kept insert_kept offset_kept any_kept op ensures_any [where m = "if b then c else d" for b c d])
      (simp_all add: kept_def ensures_def)
qed

lemma import_loop_kept: "ensures (import_loop n il off fb \<sigma>) (\<lambda>(_, _, \<tau>). kept \<sigma> \<tau>)"
proof (induction n arbitrary: off fb \<sigma>)
  case (Suc n)
  have loop: "ensures (import_loop n il o' b \<tau>) (\<lambda>(_, _, \<rho>). kept \<sigma> \<rho>)" if "kept \<sigma> \<tau>" for o' b \<tau>
    by (rule ensures_mono [OF Suc.IH]) (use that in \<open>auto simp: kept_def\<close>)
  have "ensures (import_instr il off fb \<sigma>) (\<lambda>(hr, off, fb, \<tau>). ensures (if FAILED hr then Inr (hr, fb, \<tau>)
      else import_loop n il off fb \<tau>) (\<lambda>(_, _, \<rho>). kept \<sigma> \<rho>))"
    by (rule ensures_mono [OF import_instr_kept]) (auto intro!: wp loop)
  then show ?case by (auto simp: ensures_def split: sum.splits)
qed (simp add: wp)

lemma import_target_kept: "ensures (import_target p (u, \<sigma>)) (\<lambda>(_, \<tau>). kept \<sigma> \<tau>)"
  unfolding import_target_def by (simp, intro wp store_kept any_kept) simp_all

lemma resolve_targets_kept: "ensures (for_instrs n import_target q (u, \<sigma>)) (\<lambda>(_, \<tau>). kept \<sigma> \<tau>)"
proof (induction n arbitrary: q u \<sigma>)
  case (Suc n)
  have loop: "ensures (for_instrs n import_target q (v, \<tau>)) (\<lambda>(_, \<rho>). kept \<sigma> \<rho>)" if "kept \<sigma> \<tau>" for q v \<tau>
    by (rule ensures_mono [OF Suc.IH]) (use that in \<open>auto simp: kept_def\<close>)
  have "ensures (import_target q (u, \<sigma>)) (\<lambda>s. ensures (bindO (load_instr (snd s) q) (\<lambda>i. for_instrs n import_target (m_pNext i) s))
      (\<lambda>(_, \<rho>). kept \<sigma> \<rho>))"
    by (rule ensures_mono [OF import_target_kept]) (auto intro!: wp any_kept loop)
  then show ?case by (auto intro!: wp)
qed (simp add: wp)

lemma ImportIL_kept: "ensures (ImportIL il \<sigma>) (\<lambda>(_, \<tau>). kept \<sigma> \<tau>)"
proof -
  have res: "ensures (for_each_instr import_target ((), \<tau>)) (\<lambda>x. ensures (f x) (\<lambda>(_, \<tau>). kept \<sigma> \<tau>))"
    if "kept \<sigma> \<tau>" "\<And>u \<rho>. kept \<sigma> \<rho> \<Longrightarrow> ensures (f (u, \<rho>)) (\<lambda>(_, \<tau>). kept \<sigma> \<tau>)" for \<tau> f
    unfolding for_each_instr_def
    by (intro wp any_kept ensures_mono [OF resolve_targets_kept]) (use that in \<open>auto simp: kept_def\<close>)
  have loop: "ensures (import_loop n il 0 False \<tau>) (\<lambda>x. ensures (f x) (\<lambda>(_, \<tau>). kept \<sigma> \<tau>))"
    if "kept \<sigma> \<tau>" "\<And>h b \<rho>. kept \<sigma> \<rho> \<Longrightarrow> ensures (f (h, b, \<rho>)) (\<lambda>(_, \<tau>). kept \<sigma> \<tau>)" for n \<tau> f
    by (rule ensures_mono [OF import_loop_kept]) (use that in \<open>auto simp: kept_def\<close>)
  show ?thesis unfolding ImportIL_def
    by (intro wp store_kept loop res) (auto simp: kept_def)
qed

lemma ImportEH_kept: "ensures (ImportEH m p n \<tau>) (\<lambda>(_, \<rho>). kept \<tau> \<rho>)"
  unfolding ImportEH_def Let_def
  by (intro wp ensures_any [where m = "import_clauses m s \<sigma> k n" for m s \<sigma> k n]) (simp_all add: kept_def)

section \<open>An export imported again\<close>

text \<open>Where an instruction of the exported list is in the imported one.\<close>

definition moved :: "addr list \<Rightarrow> addr \<Rightarrow> addr \<Rightarrow> addr" where
  "moved xs a0 t =
     (if t = IL then IL
      else case map_of (zip xs [a0..<a0 + length xs]) t of None \<Rightarrow> NULL | Some p \<Rightarrow> p)"

definition moved_arg :: "addr list \<Rightarrow> addr \<Rightarrow> ILInstr \<Rightarrow> ILArg" where
  "moved_arg xs a0 i =
     (if is_branch (m_opcode i) then m_pTarget (moved xs a0 (target_of i))
      else if flags_of (m_opcode i) = 0 then m_pTarget NULL else m_arg i)"

definition moved_clause :: "addr list \<Rightarrow> addr \<Rightarrow> EHClause \<Rightarrow> EHClause" where
  "moved_clause xs a0 c =
     \<lparr>m_Flags = m_Flags c, m_pTryBegin = moved xs a0 (m_pTryBegin c), m_pTryEnd = moved xs a0 (m_pTryEnd c),
      m_pHandlerBegin = moved xs a0 (m_pHandlerBegin c), m_pHandlerEnd = moved xs a0 (m_pHandlerEnd c),
      m_eharg = (case m_eharg c of m_ClassToken t \<Rightarrow> m_ClassToken t | m_pFilter f \<Rightarrow> m_pFilter (moved xs a0 f))\<rparr>"

lemma moved_nth:
  assumes "distinct (IL # xs)"
  shows "moved xs a0 IL = IL" "k < length xs \<Longrightarrow> moved xs a0 (xs ! k) = a0 + k"
    "map (moved xs a0) (IL # xs @ [IL]) = IL # [a0..<a0 + length xs] @ [IL]"
proof -
  show IL: "moved xs a0 IL = IL" by (simp add: moved_def)
  show nth: "moved xs a0 (xs ! k) = a0 + k" if k: "k < length xs" for k
  proof -
    have "map_of (zip xs [a0..<a0 + length xs]) (xs ! k) = Some ([a0..<a0 + length xs] ! k)"
      using assms k by (intro map_of_zip_nth) simp_all
    moreover have "xs ! k \<noteq> IL" using assms nth_mem [OF k] by auto
    ultimately show ?thesis using k by (simp add: moved_def)
  qed
  have "map (moved xs a0) xs = [a0..<a0 + length xs]" by (rule nth_equalityI) (simp_all add: nth)
  then show "map (moved xs a0) (IL # xs @ [IL]) = IL # [a0..<a0 + length xs] @ [IL]" by (simp add: IL)
qed

lemma linked_nth:
  "linked h L \<Longrightarrow> Suc k < length L \<Longrightarrow> next_of h (L ! k) = Some (L ! Suc k) \<and> prev_of h (L ! Suc k) = Some (L ! k)"
proof (induction h L arbitrary: k rule: linked.induct)
  case (1 h a b r)
  then show ?case by (cases k) auto
qed auto

text \<open>The instruction before the successor is the instruction itself, in the imported list too.\<close>

lemma moved_next:
  assumes "holds \<sigma> xs" "holds \<rho> [a0..<a0 + length xs]" "p \<in> set (IL # xs)" "heap \<sigma> p = Some i"
  shows "\<exists>j. heap \<rho> (moved xs a0 (m_pNext i)) = Some j \<and> m_pPrev j = moved xs a0 p"
proof -
  let ?L = "IL # xs @ [IL]" and ?M = "IL # [a0..<a0 + length xs] @ [IL]"
  obtain k where k: "k < length (IL # xs)" "(IL # xs) ! k = p" using assms(3) by (metis in_set_conv_nth)
  have "?L = (IL # xs) @ [IL]" by simp
  then have k: "Suc k < length ?L" "?L ! k = p" using k by (simp, simp only: nth_append if_True)
  have "m_pNext i = ?L ! Suc k"
    using linked_nth [OF linked_next(1) [OF assms(1)] k(1)] k(2) assms(4) by (simp add: next_of_def)
  moreover have M: "?M = map (moved xs a0) ?L" using moved_nth(3) linked_next(2) [OF assms(1)] by simp
  ultimately have "moved xs a0 (m_pNext i) = ?M ! Suc k" "moved xs a0 p = ?M ! k"
    using k by (simp_all only: M nth_map length_map Suc_lessD)
  moreover have "prev_of (heap \<rho>) (?M ! Suc k) = Some (?M ! k)"
    using linked_nth [OF linked_next(1) [OF assms(2)], of k] k(1) by simp
  ultimately show ?thesis by (auto simp: prev_of_def)
qed

lemma instr_at_moved:
  assumes "laid_out \<sigma> xs" "holds \<sigma> xs" "plain_code (heap \<sigma>) xs" "t \<in> set (IL # xs)"
  shows "instr_at (map (decoded (heap \<sigma>)) xs) a0 (code_total (heap \<sigma>) xs) (unat (offset_at (heap \<sigma>) t)) = moved xs a0 t"
proof -
  let ?h = "heap \<sigma>" and ?l = "map (decoded (heap \<sigma>)) xs" and ?cs = "code_total (heap \<sigma>) xs"
  have laid: "laid ?h xs" using assms(1) by (simp add: laid_out_def)
  have d: "decode_from (code_of ?h xs) ?cs 0 = (?l, Complete)"
    using decode_code_of [OF assms(1-3), of _ "[]" 0] by simp
  show ?thesis
  proof (cases "t = IL")
    case True
    then show ?thesis using laid by (simp add: laid_def instr_at_def moved_def)
  next
    case False
    then obtain k where k: "k < length xs" "t = xs ! k" using assms(4) by (auto simp: in_set_conv_nth)
    let ?o = "unat (offset_at ?h t)"
    have "fst (?l ! k) = ?o" using k by (simp add: decoded_def)
    moreover have "?l ! k \<in> set ?l" using k(1) by simp
    then have "fst (?l ! k) < ?cs" using decode_from_offsets [of "code_of ?h xs" ?cs 0] unfolding d by (metis fst_conv)
    moreover have "map_of (zip (map fst ?l) [a0..<a0 + length ?l]) (map fst ?l ! k) = Some ([a0..<a0 + length ?l] ! k)"
      using decode_from_shape [OF d] k(1) by (intro map_of_zip_nth) simp_all
    ultimately have "instr_at ?l a0 ?cs ?o = a0 + k" using k(1) by (simp add: instr_at_def)
    then show ?thesis using moved_nth(2) [OF linked_next(2) [OF assms(2)] k(1)] k(2) by simp
  qed
qed

lemma relaxed_plain:
  assumes "relaxed h h'" "plain_code h xs" "exportable h xs"
  shows "plain_code h' xs"
  unfolding plain_code_def
proof
  fix y assume y: "y \<in> set xs"
  then obtain i where i: "h y = Some i" "typed_instr i" using assms(3) by (auto simp: exportable_def typed_at_def)
  then obtain j where j: "h' y = Some j" "relaxed_instr i j" using relaxed_Some [OF assms(1)] by metis
  have pi: "plain_opcode (m_opcode i)" using assms(2) y i(1) by (auto simp: plain_code_def)
  show "plain_opcode (m_opcode (the (h' y)))"
  proof (cases "m_opcode j = m_opcode i")
    case True
    then show ?thesis using pi j(1) by simp
  next
    case False
    then have w: "flags_of (m_opcode i) = 0x11" "m_opcode i < CEE_COUNT" "m_opcode j = widen (m_opcode i)"
      using j(2) by (auto simp: relaxed_instr_def)
    have fl: "flags_of (m_opcode j) = 0x14" "m_opcode j < CEE_COUNT" using flags_widen [OF w(1,2)] w(3) by simp_all
    have sw: "m_opcode j \<noteq> CEE_SWITCH" using fl(1) by (auto simp: flags_of_def)
    have all: "list_all (\<lambda>k. s_OpCodeFlags ! k = 0) [0xf8..<0xff]" by code_simp
    have "\<not> (CEE_PREFIX7 \<le> m_opcode j \<and> m_opcode j \<le> CEE_PREFIX1)"
    proof
      assume "CEE_PREFIX7 \<le> m_opcode j \<and> m_opcode j \<le> CEE_PREFIX1"
      then have "unat (m_opcode j) \<in> set [0xf8..<0xff]" by (auto simp: word_le_nat_alt)
      then have "s_OpCodeFlags ! unat (m_opcode j) = 0" using all by (simp only: list_all_iff)
      then show False using fl OpCodeFlags_flags_of [OF fl(2)] by (simp add: OpCodeFlags_def split: if_splits)
    qed
    then show ?thesis using fl(2) sw j(1) by (simp add: plain_opcode_def)
  qed
qed

lemma import_clause_moved:
  assumes lo: "laid_out \<sigma> xs" and h: "holds \<sigma> xs" and pl: "plain_code (heap \<sigma>) xs"
    and r: "holds \<rho> [a0..<a0 + length xs]"
    and g: "\<forall>v. GetInstrFromOffset \<rho> v = Inr (instr_at (map (decoded (heap \<sigma>)) xs) a0 (code_total (heap \<sigma>) xs) (unat v))"
    and c: "clause_ok xs c" and s: "SectEH_EHClause m s (word_of_nat k) = Inr (clause_of (heap \<sigma>) c)"
  shows "import_clause m s \<rho> k = Inr (moved_clause xs a0 c)"
proof -
  have in_list: "m_pTryBegin c \<in> set (IL # xs)" "m_pTryEnd c \<in> set (IL # xs)"
    "m_pHandlerBegin c \<in> set (IL # xs)" "m_pHandlerEnd c \<in> set (IL # xs)"
    using c by (simp_all add: clause_ok_def)
  have gm: "GetInstrFromOffset \<rho> (offset_at (heap \<sigma>) t) = Inr (moved xs a0 t)" if "t \<in> set (IL # xs)" for t
    using g instr_at_moved [OF lo h pl that] by simp
  obtain he where he: "heap \<sigma> (m_pHandlerEnd c) = Some he" "m_pNext he \<in> set (IL # xs)"
    using holds_next [OF h in_list(4)] by metis
  obtain j where j: "heap \<rho> (moved xs a0 (m_pNext he)) = Some j" "m_pPrev j = moved xs a0 (m_pHandlerEnd c)"
    using moved_next [OF h r in_list(4) he(1)] by blast
  show ?thesis
  proof (cases "m_eharg c")
    case (m_ClassToken t)
    then show ?thesis
      using c s j he(1) by (simp add: import_clause_def clause_of_def clause_ok_def moved_clause_def
          gm [OF in_list(1)] gm [OF in_list(2)] gm [OF in_list(3)] gm [OF he(2)])
  next
    case (m_pFilter f)
    then have "f \<in> set (IL # xs)" using c by (simp add: clause_ok_def)
    then show ?thesis
      using c s j he(1) m_pFilter by (simp add: import_clause_def clause_of_def clause_ok_def moved_clause_def
          gm [OF in_list(1)] gm [OF in_list(2)] gm [OF in_list(3)] gm [OF he(2)] gm [of f])
  qed
qed

lemma import_clauses_moved:
  assumes "\<forall>i < length cs. import_clause m s \<rho> i = Inr (f (cs ! i))" "k + n = length cs"
  shows "import_clauses m s \<rho> n k = Inr (map f (drop k cs))"
  using assms(2)
proof (induction n arbitrary: k)
  case (Suc n)
  then have k: "k < length cs" by simp
  then show ?case
    using Suc assms(1) by (simp add: Cons_nth_drop_Suc [symmetric])
qed simp


lemma export_header_flags:
  "fat_GetFlags (fat_header_bytes (export_header \<sigma> c)) AND CorILMethod_InitLocals = m_flags \<sigma> AND CorILMethod_InitLocals"
proof -
  have b: "bit (16 :: int) k \<longleftrightarrow> k = 4" "bit (3 :: int) k \<longleftrightarrow> k < 2" for k
    using bit_exp_iff [of 4 k, where 'a = int] bit_mask_iff [of 2 k, where 'a = int]
    by (simp_all add: mask_eq_exp_minus_1)
  show ?thesis
    by (rule bit_word_eqI) (auto simp: export_header_def CorILMethod_MoreSects_def CorILMethod_FatFormat_def
        CorILMethod_InitLocals_def bit_simps b bit_int_8)
qed

text \<open>The code of an export, laid out at \<open>il\<close>, imported into an empty list: the instructions are the copies
  and every offset is resolved to a copy.\<close>

lemma ImportIL_moved:
  assumes lo: "laid_out \<sigma> xs" and h: "holds \<sigma> xs" and pl: "plain_code (heap \<sigma>) xs"
    and bound: "code_total (heap \<sigma>) xs + 16 < 2 ^ 32" and il: "il = code_of (heap \<sigma>) xs @ post"
    and \<rho>: "holds \<rho> []" "code_total (heap \<sigma>) xs = unat (m_CodeSize \<rho>)"
  shows "\<exists>\<rho>1. ImportIL il \<rho> = Inr (S_OK, \<rho>1) \<and> holds \<rho>1 [next_addr \<rho>..<next_addr \<rho> + length xs] \<and> m_pEH \<rho>1 = m_pEH \<rho> \<and>
    kept \<rho> \<rho>1 \<and>
    (\<forall>v. GetInstrFromOffset \<rho>1 v =
       Inr (instr_at (map (decoded (heap \<sigma>)) xs) (next_addr \<rho>) (code_total (heap \<sigma>) xs) (unat v))) \<and>
    (\<forall>k < length xs. let i = the (heap \<sigma> (xs ! k)) in
       content_of (heap \<rho>1) (next_addr \<rho> + k) = Some (m_opcode i, 0, moved_arg xs (next_addr \<rho>) i))"
proof -
  let ?h = "heap \<sigma>" and ?a0 = "next_addr \<rho>" and ?cs = "code_total (heap \<sigma>) xs"
  let ?g = "\<lambda>v. instr_at (map (decoded ?h) xs) ?a0 ?cs (unat v)"
  have dec: "decode_from il ?cs 0 = (map (decoded ?h) xs, Complete)"
    using decode_code_of [OF lo h pl il, of 0] by simp
  have len: "?cs \<le> length il" using length_code_of [of ?h xs] lo by (simp add: il laid_out_def)
  obtain \<rho>1 where r: "ImportIL il \<rho> = Inr (S_OK, \<rho>1)"
    "holds \<rho>1 [?a0..<?a0 + length xs]" "m_pEH \<rho>1 = m_pEH \<rho>" "\<forall>v. GetInstrFromOffset \<rho>1 v = Inr (?g v)"
    "\<forall>i < length xs. content_of (heap \<rho>1) (?a0 + i) =
        (case map (decoded ?h) xs ! i of (_, op, arg) \<Rightarrow> Some (op, 0, resolve_arg ?g op arg))"
    using ImportIL_decodes [OF \<rho> len bound dec] by auto
  have "content_of (heap \<rho>1) (?a0 + k) = Some (m_opcode i, 0, moved_arg xs ?a0 i)"
    if k: "k < length xs" and i: "i = the (?h (xs ! k))" for k i
  proof -
    have "xs ! k \<in> set xs" using k by simp
    then have "typed_at ?h (xs ! k)" "branch_at ?h (xs ! k) \<longrightarrow> target_of i \<in> set (IL # xs)"
      using lo i unfolding laid_out_def exportable_def by auto
    then have "resolve_arg ?g (m_opcode i) (raw_arg ?h i) = moved_arg xs ?a0 i"
      using instr_at_moved [OF lo h pl, of "target_of i" ?a0] i
      by (cases "m_arg i") (auto simp: raw_arg_def moved_arg_def branch_at_def)
    then show ?thesis using r(5) k i by (simp add: decoded_def)
  qed
  moreover have "kept \<rho> \<rho>1" using ensuresD [OF ImportIL_kept r(1)] by simp
  ultimately show ?thesis using r(1-4) by (intro exI [of _ \<rho>1]) (simp add: Let_def)
qed

text \<open>The exception clauses, imported after the code.\<close>

lemma ImportEH_moved:
  assumes lo: "laid_out \<sigma> xs" and h: "holds \<sigma> xs" and pl: "plain_code (heap \<sigma>) xs"
    and r: "holds \<rho> [a0..<a0 + length xs]" "m_pEH \<rho> = []"
    and g: "\<forall>v. GetInstrFromOffset \<rho> v = Inr (instr_at (map (decoded (heap \<sigma>)) xs) a0 (code_total (heap \<sigma>) xs) (unat v))"
    and n: "unat n = length cs" "\<forall>c \<in> set cs. clause_ok xs c"
    and s: "\<forall>i < length cs. \<exists>s. q = Some s \<and> SectEH_EHClause m s (word_of_nat i) = Inr (clause_of (heap \<sigma>) (cs ! i))"
  shows "\<exists>\<rho>'. ImportEH m q n \<rho> = Inr (S_OK, \<rho>') \<and> heap \<rho>' = heap \<rho> \<and> holds \<rho>' [a0..<a0 + length xs] \<and>
    m_pEH \<rho>' = map (moved_clause xs a0) cs"
proof (cases "n = 0")
  case True
  have "holds (\<rho>\<lparr>m_nEH := 0\<rparr>) [a0..<a0 + length xs]" by (rule holds_cong [OF r(1)]) simp_all
  then show ?thesis using r(2) n(1) True by (simp add: ImportEH_def)
next
  case False
  then obtain s' where s': "q = Some s'" using s n(1) by (metis length_0_conv not_gr_zero list.size(3) unat_eq_0)
  let ?\<rho> = "\<rho>\<lparr>m_nEH := n\<rparr>"
  have h1: "holds ?\<rho> [a0..<a0 + length xs]" by (rule holds_cong [OF r(1)]) simp_all
  have "GetInstrFromOffset ?\<rho> v = GetInstrFromOffset \<rho> v" for v by (simp add: GetInstrFromOffset_def)
  then have g1: "\<forall>v. GetInstrFromOffset ?\<rho> v = Inr (instr_at (map (decoded (heap \<sigma>)) xs) a0 (code_total (heap \<sigma>) xs) (unat v))"
    using g by simp
  have "import_clause m s' ?\<rho> i = Inr (moved_clause xs a0 (cs ! i))" if "i < length cs" for i
    using import_clause_moved [OF lo h pl h1 g1, of "cs ! i" m s' i] s s' n(2) that by auto
  then have "import_clauses m s' ?\<rho> (unat n) 0 = Inr (map (moved_clause xs a0) cs)"
    using import_clauses_moved [of cs m s' ?\<rho> "moved_clause xs a0" 0] n(1) by simp
  moreover have "holds (?\<rho>\<lparr>m_pEH := map (moved_clause xs a0) cs\<rparr>) [a0..<a0 + length xs]"
    by (rule holds_cong [OF h1]) simp_all
  ultimately show ?thesis using False s' by (simp add: ImportEH_def)
qed

text \<open>C1: exporting a rewriter into a fat body and importing the body into a fresh one gives the method back: the same
  instructions in the same order (short branches that were widened apart), every branch and every exception clause
  pointing to the copies of its instructions, the token of the locals' signature and the \<open>InitLocals\<close> flag. This is
  stated for methods exported with the fat header whose \<open>m_flags\<close> has none of the four format bits (an import leaves
  at most \<open>InitLocals\<close> there) and whose code has no \<open>switch\<close> (its import faults, see the claim on \<open>CEE_SWITCH_ARG\<close>)
  and none of the reserved opcodes 0xF8 to 0xFE, which are prefix bytes and no instructions.\<close>

theorem Import_of_Export:
  assumes ready: "export_ready \<sigma> xs" and fat: "\<not> m_fGenerateTinyHeader \<sigma>" "\<forall>n. AllocateILMemory api \<sigma> n"
      "m_flags \<sigma> AND 0xF = 0" "a mod 4 = 0"
    and plain: "plain_code (heap \<sigma>) xs" and fresh: "holds \<rho> []" "m_pEH \<rho> = []"
  shows "\<exists>hr b \<sigma>' \<rho>'. Export api \<sigma> = Inr (hr, Some b, \<sigma>') \<and> relaxed (heap \<sigma>) (heap \<sigma>') \<and>
     Import (S_OK, a, b) \<rho> = Inr (S_OK, \<rho>') \<and>
     holds \<rho>' [next_addr \<rho>..<next_addr \<rho> + length xs] \<and>
     (\<forall>k < length xs. let i = the (heap \<sigma>' (xs ! k)) in
        content_of (heap \<rho>') (next_addr \<rho> + k) = Some (m_opcode i, 0, moved_arg xs (next_addr \<rho>) i)) \<and>
     m_pEH \<rho>' = map (moved_clause xs (next_addr \<rho>)) (m_pEH \<sigma>) \<and>
     m_tkLocalVarSig \<rho>' = m_tkLocalVarSig \<sigma> \<and> m_flags \<rho>' = m_flags \<sigma> AND CorILMethod_InitLocals"
proof -
  obtain hr b \<sigma>' d where e: "Export api \<sigma> = Inr (hr, Some b, \<sigma>')" "relaxed (heap \<sigma>) (heap \<sigma>')"
    "DecoderInit a b = Inr d" "dec_Code d = Some 12" "export_state api \<sigma> xs \<sigma>'"
    "dec_fat d = fat_header_bytes (export_header \<sigma>' (word_of_nat (code_total (heap \<sigma>') xs)))"
    "take (unat (fat_GetCodeSize (dec_fat d))) (drop 12 b) = code_of (heap \<sigma>') xs"
    "fat_GetLocalVarSigTok (dec_fat d) = m_tkLocalVarSig \<sigma>"
    "decoder_EHCount b d = Inr (m_nEH \<sigma>)"
    "\<forall>i < length (m_pEH \<sigma>). \<exists>s. dec_EH d = Some s \<and>
        SectEH_EHClause b s (word_of_nat i) = Inr (clause_of (heap \<sigma>') (m_pEH \<sigma> ! i))"
    using export_fat_decodes [OF ready fat] by (elim exE conjE) (rule that)
  note p = export_state_parts [OF e(5) ready]
  let ?cs = "code_total (heap \<sigma>') xs"
  have u: "unat (word_of_nat ?cs :: 32 word) = ?cs" by (rule unat_total [OF e(5)])
  have cs: "fat_GetCodeSize (dec_fat d) = word_of_nat ?cs" by (simp add: e(6) export_header_def)
  have "exportable (heap \<sigma>) xs" using ready by (simp add: export_ready_def)
  then have pl: "plain_code (heap \<sigma>') xs" by (rule relaxed_plain [OF e(2) plain])
  have il: "drop 12 b = code_of (heap \<sigma>') xs @ drop ?cs (drop 12 b)" using e(7) by (metis append_take_drop_id cs u)
  let ?\<rho> = "\<rho>\<lparr>m_tkLocalVarSig := fat_GetLocalVarSigTok (dec_fat d), m_maxStack := fat_GetMaxStack (dec_fat d),
      m_flags := fat_GetFlags (dec_fat d) AND CorILMethod_InitLocals, m_CodeSize := fat_GetCodeSize (dec_fat d)\<rparr>"
  have h\<rho>: "holds ?\<rho> []" "?cs = unat (m_CodeSize ?\<rho>)" using u by (auto simp: cs intro: holds_cong [OF fresh(1)])
  have bound: "?cs + 16 < 2 ^ 32" using p(6) by simp
  obtain \<rho>1 where r: "ImportIL (drop 12 b) ?\<rho> = Inr (S_OK, \<rho>1)" "holds \<rho>1 [next_addr ?\<rho>..<next_addr ?\<rho> + length xs]"
    "m_pEH \<rho>1 = m_pEH ?\<rho>" "kept ?\<rho> \<rho>1"
    "\<forall>v. GetInstrFromOffset \<rho>1 v = Inr (instr_at (map (decoded (heap \<sigma>')) xs) (next_addr ?\<rho>) ?cs (unat v))"
    "\<forall>k < length xs. let i = the (heap \<sigma>' (xs ! k)) in
       content_of (heap \<rho>1) (next_addr ?\<rho> + k) = Some (m_opcode i, 0, moved_arg xs (next_addr ?\<rho>) i)"
    using ImportIL_moved [OF p(2,1) pl bound il h\<rho>] by (elim exE conjE) (rule that)
  have n: "unat (m_nEH \<sigma>) = length (m_pEH \<sigma>)" "\<forall>c \<in> set (m_pEH \<sigma>). clause_ok xs c" "m_pEH \<rho>1 = []"
    using ready r(3) fresh(2) by (simp_all add: export_ready_def)
  from ImportEH_moved [OF p(2,1) pl r(2) n(3) r(5) n(1,2) e(10)] obtain \<rho>2 where
    r2: "ImportEH b (dec_EH d) (m_nEH \<sigma>) \<rho>1 = Inr (S_OK, \<rho>2)" "heap \<rho>2 = heap \<rho>1"
      "holds \<rho>2 [next_addr ?\<rho>..<next_addr ?\<rho> + length xs]" "m_pEH \<rho>2 = map (moved_clause xs (next_addr ?\<rho>)) (m_pEH \<sigma>)"
    by blast
  have "kept \<rho>1 \<rho>2" using ensuresD [OF ImportEH_kept r2(1)] by simp
  moreover have "fat_GetFlags (dec_fat d) AND CorILMethod_InitLocals = m_flags \<sigma>' AND CorILMethod_InitLocals"
    unfolding e(6) by (rule export_header_flags)
  ultimately have k: "m_tkLocalVarSig \<rho>2 = m_tkLocalVarSig \<sigma>" "m_flags \<rho>2 = m_flags \<sigma>' AND CorILMethod_InitLocals"
    using r(4) e(8) by (simp_all add: kept_def)
  have "m_flags \<sigma>' = m_flags \<sigma>" using same_rest_fields(5) [OF p(8)] .
  moreover have "Import (S_OK, a, b) \<rho> = Inr (S_OK, \<rho>2)"
    using e(3,4,9) r(1) r2(1) by (simp add: Import_def Let_def)
  ultimately show ?thesis
    using e(1,2) r(6) r2(2-4) k
    by (intro exI [of _ hr] exI [of _ b] exI [of _ \<sigma>'] exI [of _ \<rho>2]) simp
qed

theorem Import_of_Export_witness:
  "\<exists>hr b \<sigma>' \<rho>'. Export example_api (example_export False) = Inr (hr, Some b, \<sigma>') \<and>
     Import (S_OK, 0x1000, b) (example_import 0) = Inr (S_OK, \<rho>') \<and> holds \<rho>' [2, 3] \<and>
     m_pEH \<rho>' = map (moved_clause [2, 3] 2) (m_pEH (example_export False)) \<and>
     m_tkLocalVarSig \<rho>' = m_tkLocalVarSig (example_export False)"
proof -
  let ?\<sigma> = "example_export False"
  have h: "\<not> m_fGenerateTinyHeader ?\<sigma>" "\<forall>n. AllocateILMemory example_api ?\<sigma> n" "m_flags ?\<sigma> AND 0xF = 0"
    "(0x1000 :: nat) mod 4 = 0"
    by (simp_all add: example_export_def AllocateILMemory_def example_api_def)
  have p: "plain_code (heap ?\<sigma>) [2, 3]"
    by (simp add: plain_code_def example_export_def plain_opcode_def CEE_COUNT_def)
  have n: "m_pEH (example_import 0) = []" "next_addr (example_import 0) = 2" "[2..<2 + length [2 :: nat, 3]] = [2, 3]"
    by (simp_all add: example_import_def upt_rec)
  from Import_of_Export [OF example_export_ready h p example_import_holds n(1)] show ?thesis
    unfolding n by (elim exE conjE) (intro exI conjI)
qed

end
