(* ===== verification/Miniutf.thy ===== *)
theory Miniutf
  imports CorSig
begin

text \<open>
  The UTF-8 and UTF-16 conversions of \<^verbatim>\<open>miniutf/miniutf.cpp\<close>, which \<^verbatim>\<open>util/util.cpp\<close> uses for every
  string literal and every configuration entry.

  A \<open>std::string\<close> is the list of its bytes, a \<open>std::u16string\<close> the list of its units and a
  \<open>std::u32string\<close> the list of its code points. Indexing a string at its length yields the
  terminator; indexing past it is the fault \<open>OutOfBounds\<close>.
\<close>

section \<open>Encoding\<close>

type_synonym char32 = "32 word"

definition utf8_encode :: "char32 \<Rightarrow> BYTE list \<Rightarrow> BYTE list" where
  "utf8_encode pt out =
     (if pt < 0x80 then out @ [ucast pt]
      else if pt < 0x800 then out @ [ucast (drop_bit 6 pt OR 0xC0), ucast ((pt AND 0x3F) OR 0x80)]
      else if pt < 0x10000 then out @ [ucast (drop_bit 12 pt OR 0xE0), ucast ((drop_bit 6 pt AND 0x3F) OR 0x80),
         ucast ((pt AND 0x3F) OR 0x80)]
      else if pt < 0x110000 then out @ [ucast (drop_bit 18 pt OR 0xF0), ucast ((drop_bit 12 pt AND 0x3F) OR 0x80),
         ucast ((drop_bit 6 pt AND 0x3F) OR 0x80), ucast ((pt AND 0x3F) OR 0x80)]
      else out @ [0xEF, 0xBF, 0xBD])"

definition utf16_encode :: "char32 \<Rightarrow> WCHAR list \<Rightarrow> WCHAR list" where
  "utf16_encode pt out =
     (if pt < 0x10000 then out @ [ucast pt]
      else if pt < 0x110000 then
        out @ [ucast (drop_bit 10 (pt - 0x10000) + 0xD800), ucast ((pt AND 0x3FF) + 0xDC00)]
      else out @ [0xFFFD])"

section \<open>Decoding\<close>

record offset_pt =
  offset :: int
  pt :: char32

definition invalid_pt :: offset_pt where
  "invalid_pt = \<lparr>offset = -1, pt = 0\<rparr>"

definition char_at :: "'a::zero list \<Rightarrow> nat \<Rightarrow> 'a outcome" where
  "char_at str i = (if i < length str then Inr (str ! i) else if i = length str then Inr 0 else Inl OutOfBounds)"

text \<open>A continuation byte, read as a signed \<open>char\<close> and widened.\<close>

definition cont_at :: "BYTE list \<Rightarrow> nat \<Rightarrow> char32 outcome" where
  "cont_at str i = bindO (char_at str i) (\<lambda>b. Inr (scast b))"

definition utf8_decode_check :: "BYTE list \<Rightarrow> nat \<Rightarrow> offset_pt outcome" where
  "utf8_decode_check str i =
     bindO (char_at str i) (\<lambda>b.
     let b0 = ucast b :: char32 in
     if b0 < 0x80 then Inr \<lparr>offset = 1, pt = b0\<rparr>
     else if b0 < 0xC0 then Inr invalid_pt
     else if b0 < 0xE0 then
       bindO (cont_at str (i + 1)) (\<lambda>b1.
       if b1 AND 0xC0 \<noteq> 0x80 then Inr invalid_pt
       else
         let p = push_bit 6 (b0 AND 0x1F) OR (b1 AND 0x3F) in
         if p < 0x80 then Inr invalid_pt else Inr \<lparr>offset = 2, pt = p\<rparr>)
     else if b0 < 0xF0 then
       bindO (cont_at str (i + 1)) (\<lambda>b1.
       if b1 AND 0xC0 \<noteq> 0x80 then Inr invalid_pt
       else bindO (cont_at str (i + 2)) (\<lambda>b2.
       if b2 AND 0xC0 \<noteq> 0x80 then Inr invalid_pt
       else
         let p = push_bit 12 (b0 AND 0x0F) OR push_bit 6 (b1 AND 0x3F) OR (b2 AND 0x3F) in
         if p < 0x800 then Inr invalid_pt else Inr \<lparr>offset = 3, pt = p\<rparr>))
     else if b0 < 0xF8 then
       bindO (cont_at str (i + 1)) (\<lambda>b1.
       if b1 AND 0xC0 \<noteq> 0x80 then Inr invalid_pt
       else bindO (cont_at str (i + 2)) (\<lambda>b2.
       if b2 AND 0xC0 \<noteq> 0x80 then Inr invalid_pt
       else bindO (cont_at str (i + 3)) (\<lambda>b3.
       if b3 AND 0xC0 \<noteq> 0x80 then Inr invalid_pt
       else
         let p = push_bit 18 (b0 AND 0x0F) OR push_bit 12 (b1 AND 0x3F) OR push_bit 6 (b2 AND 0x3F) OR
             (b3 AND 0x3F) in
         if p < 0x10000 \<or> p \<ge> 0x110000 then Inr invalid_pt else Inr \<lparr>offset = 4, pt = p\<rparr>)))
     else Inr invalid_pt)"

definition is_high_surrogate :: "WCHAR \<Rightarrow> bool" where
  "is_high_surrogate c \<longleftrightarrow> c \<ge> 0xD800 \<and> c < 0xDC00"

definition is_low_surrogate :: "WCHAR \<Rightarrow> bool" where
  "is_low_surrogate c \<longleftrightarrow> c \<ge> 0xDC00 \<and> c < 0xE000"

definition utf16_decode_check :: "WCHAR list \<Rightarrow> nat \<Rightarrow> offset_pt outcome" where
  "utf16_decode_check str i =
     bindO (char_at str i) (\<lambda>c.
     bindO (if is_high_surrogate c then bindO (char_at str (i + 1)) (\<lambda>d. Inr (Some d)) else Inr None) (\<lambda>d.
     case d of
       Some d \<Rightarrow>
         if is_low_surrogate d then
           Inr \<lparr>offset = 2, pt = (push_bit 10 (ucast c - 0xD800) OR (ucast d - 0xDC00)) + 0x10000\<rparr>
         else Inr invalid_pt
     | None \<Rightarrow> if is_low_surrogate c then Inr invalid_pt else Inr \<lparr>offset = 1, pt = ucast c\<rparr>))"

definition utf32_decode_check :: "char32 list \<Rightarrow> nat \<Rightarrow> offset_pt outcome" where
  "utf32_decode_check str i =
     bindO (char_at str i) (\<lambda>c. if c < 0x110000 then Inr \<lparr>offset = 1, pt = c\<rparr> else Inr invalid_pt)"

text \<open>(code point, advanced index, whether \<open>*replacement_flag\<close> is set).\<close>

definition utf8_decode :: "BYTE list \<Rightarrow> nat \<Rightarrow> (char32 \<times> nat \<times> bool) outcome" where
  "utf8_decode str i =
     bindO (utf8_decode_check str i) (\<lambda>res.
       if offset res < 0 then Inr (0xFFFD, i + 1, True) else Inr (pt res, i + nat (offset res), False))"

definition utf16_decode :: "WCHAR list \<Rightarrow> nat \<Rightarrow> (char32 \<times> nat \<times> bool) outcome" where
  "utf16_decode str i =
     bindO (utf16_decode_check str i) (\<lambda>res.
       if offset res < 0 then Inr (0xFFFD, i + 1, True) else Inr (pt res, i + nat (offset res), False))"

section \<open>The loops\<close>

text \<open>A decoder that consumes at least one unit; the index at the end of the loop is the string's
  length or more.\<close>

lemma utf8_decode_check_offset:
  "utf8_decode_check str i = Inr r \<Longrightarrow> r = invalid_pt \<or> offset r \<in> {1, 2, 3, 4}"
  by (auto simp: utf8_decode_check_def Let_def split: if_splits)

lemma utf16_decode_check_offset:
  "utf16_decode_check str i = Inr r \<Longrightarrow> r = invalid_pt \<or> offset r \<in> {1, 2}"
  by (auto simp: utf16_decode_check_def split: if_splits option.splits)

lemma utf8_decode_advances: "utf8_decode str i = Inr (p, j, f) \<Longrightarrow> i < j"
  by (auto simp: utf8_decode_def invalid_pt_def dest!: utf8_decode_check_offset split: if_splits)

lemma utf16_decode_advances: "utf16_decode str i = Inr (p, j, f) \<Longrightarrow> i < j"
  by (auto simp: utf16_decode_def invalid_pt_def dest!: utf16_decode_check_offset split: if_splits)

function utf8_check_from :: "BYTE list \<Rightarrow> nat \<Rightarrow> bool outcome" where
  "utf8_check_from str i =
     (if i < length str then
        bindO (utf8_decode_check str i) (\<lambda>res.
          if offset res < 0 then Inr False else utf8_check_from str (i + nat (offset res)))
      else Inr True)"
  by pat_completeness auto
termination
  by (relation "measure (\<lambda>(str, i). length str - i)")
    (auto dest!: utf8_decode_check_offset simp: invalid_pt_def)

function utf16_check_from :: "WCHAR list \<Rightarrow> nat \<Rightarrow> bool outcome" where
  "utf16_check_from str i =
     (if i < length str then
        bindO (utf16_decode_check str i) (\<lambda>res.
          if offset res < 0 then Inr False else utf16_check_from str (i + nat (offset res)))
      else Inr True)"
  by pat_completeness auto
termination
  by (relation "measure (\<lambda>(str, i). length str - i)")
    (auto dest!: utf16_decode_check_offset simp: invalid_pt_def)

function utf32_check_from :: "char32 list \<Rightarrow> nat \<Rightarrow> bool outcome" where
  "utf32_check_from str i =
     (if i < length str then
        bindO (utf32_decode_check str i) (\<lambda>res.
          if offset res < 0 then Inr False else utf32_check_from str (i + nat (offset res)))
      else Inr True)"
  by pat_completeness auto
termination
  by (relation "measure (\<lambda>(str, i). length str - i)")
    (auto simp: utf32_decode_check_def invalid_pt_def split: if_splits)

definition utf8_check :: "BYTE list \<Rightarrow> bool outcome" where
  "utf8_check str = utf8_check_from str 0"

definition utf16_check :: "WCHAR list \<Rightarrow> bool outcome" where
  "utf16_check str = utf16_check_from str 0"

definition utf32_check :: "char32 list \<Rightarrow> bool outcome" where
  "utf32_check str = utf32_check_from str 0"

function to_utf32_from :: "BYTE list \<Rightarrow> nat \<Rightarrow> char32 list \<Rightarrow> char32 list outcome" where
  "to_utf32_from str i out =
     (if i < length str then
        bindO (utf8_decode str i) (\<lambda>(p, i, _). to_utf32_from str i (out @ [p]))
      else Inr out)"
  by pat_completeness auto
termination
  by (relation "measure (\<lambda>(str, i, out). length str - i)") (auto dest!: utf8_decode_advances)

function to_utf16_from :: "BYTE list \<Rightarrow> nat \<Rightarrow> WCHAR list \<Rightarrow> WCHAR list outcome" where
  "to_utf16_from str i out =
     (if i < length str then
        bindO (utf8_decode str i) (\<lambda>(p, i, _). to_utf16_from str i (utf16_encode p out))
      else Inr out)"
  by pat_completeness auto
termination
  by (relation "measure (\<lambda>(str, i, out). length str - i)") (auto dest!: utf8_decode_advances)

function to_utf8_from :: "WCHAR list \<Rightarrow> nat \<Rightarrow> BYTE list \<Rightarrow> BYTE list outcome" where
  "to_utf8_from str i out =
     (if i < length str then
        bindO (utf16_decode str i) (\<lambda>(p, i, _). to_utf8_from str i (utf8_encode p out))
      else Inr out)"
  by pat_completeness auto
termination
  by (relation "measure (\<lambda>(str, i, out). length str - i)") (auto dest!: utf16_decode_advances)

definition to_utf32 :: "BYTE list \<Rightarrow> char32 list outcome" where
  "to_utf32 str = to_utf32_from str 0 []"

definition to_utf16 :: "BYTE list \<Rightarrow> WCHAR list outcome" where
  "to_utf16 str = to_utf16_from str 0 []"

definition to_utf8 :: "WCHAR list \<Rightarrow> BYTE list outcome" where
  "to_utf8 str = to_utf8_from str 0 []"

definition to_utf8_32 :: "char32 list \<Rightarrow> BYTE list" where
  "to_utf8_32 str = fold utf8_encode str []"

declare utf8_check_from.simps [simp del] utf16_check_from.simps [simp del] utf32_check_from.simps [simp del] to_utf32_from.simps [simp del]
  to_utf16_from.simps [simp del] to_utf8_from.simps [simp del]

section \<open>Bytes and code points\<close>

text \<open>The comparisons of the decoder as tests of the leading bits of a byte.\<close>

lemma lead_lt: "k < 2 ^ 32 \<Longrightarrow> (ucast (b :: BYTE) :: char32) < word_of_nat k \<longleftrightarrow> unat b < k"
  by (simp add: word_less_nat_alt unat_of_nat_32 unat_ucast_byte)

lemma unat_NOT_byte: "unat (NOT b :: BYTE) = 255 - unat b"
proof -
  have "NOT b = - 1 - b" by (simp add: not_eq_complement)
  moreover have "unat (- 1 - b) = unat (- 1 :: BYTE) - unat b" by (rule unat_sub) simp
  moreover have "unat (- 1 :: BYTE) = 255" by (simp add: unsigned_minus_1_eq_mask mask_eq_exp_minus_1)
  ultimately show ?thesis by simp
qed

lemma lead_ge:
  assumes "k \<le> 8"
  shows "256 - 2 ^ k \<le> unat (b :: BYTE) \<longleftrightarrow> (\<forall>n. k \<le> n \<longrightarrow> n < 8 \<longrightarrow> bit b n)"
proof -
  have n: "unat b < 256" using unsigned_less [of b] by simp
  have "uint (mask k :: BYTE) = 2 ^ k - 1"
    using assms by (simp only: uint_mask_eq) (simp add: min_def mask_eq_exp_minus_1)
  then have m: "unat (mask k :: BYTE) = 2 ^ k - 1"
    by (simp add: nat_diff_distrib nat_power_eq flip: nat_uint_eq)
  have p: "1 \<le> (2 :: nat) ^ k" "(2 :: nat) ^ k \<le> 256"
    using power_increasing [OF assms, of "2 :: nat"] by simp_all
  have "256 - 2 ^ k \<le> unat b \<longleftrightarrow> NOT b \<le> mask k"
    using n p unfolding word_le_nat_alt unat_NOT_byte m by linarith
  also have "\<dots> \<longleftrightarrow> (\<forall>n. k \<le> n \<longrightarrow> n < 8 \<longrightarrow> bit b n)"
    by (auto simp: le_mask_iff_bits bit_simps) (use not_le in blast)
  finally show ?thesis .
qed

lemma between: "(\<forall>n. k \<le> n \<longrightarrow> n < 8 \<longrightarrow> P n) \<longleftrightarrow> list_all P [k..<8]" for k :: nat
  by (auto simp: list_all_iff)

lemma lead_bits:
  "(ucast (b :: BYTE) :: char32) < 0x80 \<longleftrightarrow> \<not> bit b 7"
  "(ucast (b :: BYTE) :: char32) < 0xC0 \<longleftrightarrow> \<not> (bit b 7 \<and> bit b 6)"
  "(ucast (b :: BYTE) :: char32) < 0xE0 \<longleftrightarrow> \<not> (bit b 7 \<and> bit b 6 \<and> bit b 5)"
  "(ucast (b :: BYTE) :: char32) < 0xF0 \<longleftrightarrow> \<not> (bit b 7 \<and> bit b 6 \<and> bit b 5 \<and> bit b 4)"
  "(ucast (b :: BYTE) :: char32) < 0xF8 \<longleftrightarrow> \<not> (bit b 7 \<and> bit b 6 \<and> bit b 5 \<and> bit b 4 \<and> bit b 3)"
proof -
  have lt: "(ucast b :: char32) < word_of_nat (256 - 2 ^ k) \<longleftrightarrow> \<not> list_all (bit b) [k..<8]" if "k \<le> 8" for k
  proof -
    have "(256 :: nat) - 2 ^ k < 2 ^ 32" by (rule le_less_trans [of _ 256]) simp_all
    from lead_lt [OF this, of b]
    have "(ucast b :: char32) < word_of_nat (256 - 2 ^ k) \<longleftrightarrow> \<not> 256 - 2 ^ k \<le> unat b"
      by (simp only: not_le)
    then show ?thesis unfolding lead_ge [OF that] between .
  qed
  show "(ucast b :: char32) < 0x80 \<longleftrightarrow> \<not> bit b 7"
    using lt [of 7] by (simp add: upt_rec)
  show "(ucast b :: char32) < 0xC0 \<longleftrightarrow> \<not> (bit b 7 \<and> bit b 6)"
    using lt [of 6] by (simp add: upt_rec conj_commute)
  show "(ucast b :: char32) < 0xE0 \<longleftrightarrow> \<not> (bit b 7 \<and> bit b 6 \<and> bit b 5)"
    using lt [of 5] by (simp add: upt_rec) blast
  show "(ucast b :: char32) < 0xF0 \<longleftrightarrow> \<not> (bit b 7 \<and> bit b 6 \<and> bit b 5 \<and> bit b 4)"
    using lt [of 4] by (simp add: upt_rec) blast
  show "(ucast b :: char32) < 0xF8 \<longleftrightarrow> \<not> (bit b 7 \<and> bit b 6 \<and> bit b 5 \<and> bit b 4 \<and> bit b 3)"
    using lt [of 3] by (simp add: upt_rec) blast
qed

lemma cont_bits: "(scast (b :: BYTE) :: char32) AND 0xC0 = 0x80 \<longleftrightarrow> bit b 7 \<and> \<not> bit b 6"
proof
  assume a: "(scast b :: char32) AND 0xC0 = 0x80"
  have "bit ((scast b :: char32) AND 0xC0) 7" "\<not> bit ((scast b :: char32) AND 0xC0) 6"
    unfolding a by (simp_all add: wbits)
  then show "bit b 7 \<and> \<not> bit b 6" by (simp add: wbits)
next
  assume "bit b 7 \<and> \<not> bit b 6"
  then show "(scast b :: char32) AND 0xC0 = 0x80" by (intro bit_word_eqI) (auto simp: wbits)
qed

lemma scast_mask: "(scast (b :: BYTE) :: char32) AND 0x3F = ucast b AND 0x3F"
  by (intro bit_word_eqI) (auto simp: wbits)

lemma bit_int_lead: "bit (0xF0 :: int) n \<longleftrightarrow> n = 7 \<or> n = 6 \<or> n = 5 \<or> n = 4"
proof -
  have m: "(0xF0 :: int) = push_bit 4 (mask 4)" by (simp add: mask_eq_exp_minus_1 push_bit_eq_mult)
  show ?thesis unfolding m bit_push_bit_iff bit_mask_iff by auto
qed

lemmas ubits = wbits bit_int_lead lead_bits cont_bits

text \<open>The bytes of a code point, and the reading of the bytes of a code point.\<close>

definition utf8_bytes :: "char32 \<Rightarrow> BYTE list" where
  "utf8_bytes p = utf8_encode p []"

definition utf16_units :: "char32 \<Rightarrow> WCHAR list" where
  "utf16_units p = utf16_encode p []"

lemma utf8_encode_append: "utf8_encode p out = out @ utf8_bytes p"
  by (simp add: utf8_bytes_def utf8_encode_def)

lemma utf16_encode_append: "utf16_encode p out = out @ utf16_units p"
  by (simp add: utf16_units_def utf16_encode_def)

lemma char_at_append [simp]: "char_at (pre @ xs) (length pre + i) = char_at xs i"
  by (simp add: char_at_def)

lemma char_at_Cons [simp]: "char_at (b # xs) 0 = Inr b" "char_at (b # xs) (Suc i) = char_at xs i"
  by (simp_all add: char_at_def)

lemma numeral_nat_Suc: "(2 :: nat) = Suc (Suc 0)" "(3 :: nat) = Suc (Suc (Suc 0))"
  by simp_all

lemma decode_check_skip: "utf8_decode_check (pre @ xs) (length pre) = utf8_decode_check xs 0"
  using char_at_append [of pre xs 0]
  by (simp only: utf8_decode_check_def cont_at_def char_at_append add_0 add_0_right)

definition code_point :: "char32 \<Rightarrow> bool" where
  "code_point p \<longleftrightarrow> p < 0x110000"

lemma word_le_pred: "p < q + 1 \<Longrightarrow> q + 1 \<noteq> 0 \<Longrightarrow> p \<le> (q :: char32)"
  by (metis inc_le linorder_not_le)

lemma bits_of_point:
  fixes p :: char32
  shows "p < 0x80 \<Longrightarrow> 7 \<le> n \<Longrightarrow> \<not> bit p n" "p < 0x800 \<Longrightarrow> 11 \<le> n \<Longrightarrow> \<not> bit p n"
    "p < 0x10000 \<Longrightarrow> 16 \<le> n \<Longrightarrow> \<not> bit p n" "p < 0x110000 \<Longrightarrow> 21 \<le> n \<Longrightarrow> \<not> bit p n"
proof -
  have m: "(mask 7 :: char32) = 0x7F" "(mask 11 :: char32) = 0x7FF" "(mask 16 :: char32) = 0xFFFF" "(mask 21 :: char32) = 0x1FFFFF"
    by (simp_all add: mask_eq_exp_minus_1)
  note le = word_le_pred [of p]
  show "p < 0x80 \<Longrightarrow> 7 \<le> n \<Longrightarrow> \<not> bit p n"
    by (rule bits_above [of _ 7]) (use le [of "0x7F"] in \<open>simp_all add: m\<close>)
  show "p < 0x800 \<Longrightarrow> 11 \<le> n \<Longrightarrow> \<not> bit p n"
    by (rule bits_above [of _ 11]) (use le [of "0x7FF"] in \<open>simp_all add: m\<close>)
  show "p < 0x10000 \<Longrightarrow> 16 \<le> n \<Longrightarrow> \<not> bit p n"
    by (rule bits_above [of _ 16]) (use le [of "0xFFFF"] in \<open>simp_all add: m\<close>)
  show "p < 0x110000 \<Longrightarrow> 21 \<le> n \<Longrightarrow> \<not> bit p n"
    by (rule bits_above [of _ 21]) (use le [of "0x10FFFF"] in \<open>simp_all add: m order_trans [of p "0x10FFFF"]\<close>)
qed

text \<open>The bits the decoder assembles.\<close>

lemma piece_bit:
  "k + m \<le> 32 \<Longrightarrow> m \<le> 8 \<Longrightarrow>
     bit (push_bit k (ucast (b :: BYTE) AND mask m) :: char32) n \<longleftrightarrow> k \<le> n \<and> n < k + m \<and> bit b (n - k)"
  "m \<le> 8 \<Longrightarrow> bit (ucast (b :: BYTE) AND mask m :: char32) n \<longleftrightarrow> n < m \<and> bit b n"
  by (auto simp: bit_simps)

lemma pack2_bit:
  "bit (push_bit 6 (ucast (b0 :: BYTE) AND 0x1F) OR (ucast (b1 :: BYTE) AND 0x3F) :: char32) n \<longleftrightarrow>
     6 \<le> n \<and> n < 11 \<and> bit b0 (n - 6) \<or> n < 6 \<and> bit b1 n"
  unfolding mask_eq_numeral bit_or_iff by (simp only: piece_bit arith_simps rel_simps disj_assoc)

lemma pack3_bit:
  "bit (push_bit 12 (ucast (b0 :: BYTE) AND 0x0F) OR push_bit 6 (ucast (b1 :: BYTE) AND 0x3F) OR
      (ucast (b2 :: BYTE) AND 0x3F) :: char32) n \<longleftrightarrow>
     (12 \<le> n \<and> n < 16 \<and> bit b0 (n - 12) \<or> 6 \<le> n \<and> n < 12 \<and> bit b1 (n - 6)) \<or> n < 6 \<and> bit b2 n"
  unfolding mask_eq_numeral bit_or_iff by (simp only: piece_bit arith_simps rel_simps disj_assoc)

lemma pack4_bit:
  "bit (push_bit 18 (ucast (b0 :: BYTE) AND 0x0F) OR push_bit 12 (ucast (b1 :: BYTE) AND 0x3F) OR
      push_bit 6 (ucast (b2 :: BYTE) AND 0x3F) OR (ucast (b3 :: BYTE) AND 0x3F) :: char32) n \<longleftrightarrow>
     ((18 \<le> n \<and> n < 22 \<and> bit b0 (n - 18) \<or> 12 \<le> n \<and> n < 18 \<and> bit b1 (n - 12)) \<or>
      6 \<le> n \<and> n < 12 \<and> bit b2 (n - 6)) \<or> n < 6 \<and> bit b3 n"
  unfolding mask_eq_numeral bit_or_iff by (simp only: piece_bit arith_simps rel_simps disj_assoc)

lemma pack4:
  fixes p :: char32
  assumes "\<And>k. k < 6 \<Longrightarrow> bit b3 k = bit p k" "\<And>k. k < 6 \<Longrightarrow> bit b2 k = bit p (6 + k)"
    "\<And>k. k < 6 \<Longrightarrow> bit b1 k = bit p (12 + k)" "\<And>k. k < 4 \<Longrightarrow> bit b0 k = bit p (18 + k)"
    "\<And>n. 22 \<le> n \<Longrightarrow> \<not> bit p n"
  shows "push_bit 18 (ucast (b0 :: BYTE) AND 0x0F) OR push_bit 12 (ucast (b1 :: BYTE) AND 0x3F) OR
      push_bit 6 (ucast (b2 :: BYTE) AND 0x3F) OR (ucast (b3 :: BYTE) AND 0x3F) = p"
proof (rule bit_word_eqI)
  fix n :: nat
  consider "n < 6" | "6 \<le> n" "n < 12" | "12 \<le> n" "n < 18" | "18 \<le> n" "n < 22" | "22 \<le> n" by linarith
  then show "bit (push_bit 18 (ucast b0 AND 0x0F) OR push_bit 12 (ucast b1 AND 0x3F) OR
      push_bit 6 (ucast b2 AND 0x3F) OR (ucast b3 AND 0x3F) :: char32) n = bit p n"
    unfolding pack4_bit
    using assms(1) [of n] assms(2) [of "n - 6"] assms(3) [of "n - 12"] assms(4) [of "n - 18"] assms(5) [of n]
    by cases simp_all
qed

lemma utf8_decode_bytes:
  assumes "code_point p"
  shows "utf8_decode_check (utf8_bytes p @ xs) 0 = Inr \<lparr>offset = int (length (utf8_bytes p)), pt = p\<rparr>"
proof -
  consider "p < 0x80" | "\<not> p < 0x80" "p < 0x800" | "\<not> p < 0x80" "\<not> p < 0x800" "p < 0x10000"
    | "\<not> p < 0x80" "\<not> p < 0x800" "\<not> p < 0x10000" "p < 0x110000"
    using assms by (auto simp: code_point_def)
  then show ?thesis
  proof cases
    case 1
    have "p \<le> 0x7F" using word_le_pred [of p "0x7F"] 1 by simp
    then have "ucast (ucast p :: BYTE) = p" by (rule byte1_bytes(2))
    then show ?thesis
      using 1 by (simp add: utf8_bytes_def utf8_encode_def utf8_decode_check_def)
  next
    case 2
    let ?b0 = "ucast (drop_bit 6 p OR 0xC0) :: BYTE" and ?b1 = "ucast ((p AND 0x3F) OR 0x80) :: BYTE"
    note a = bits_of_point(2) [OF 2(2)]
    have "push_bit 6 (ucast ?b0 AND 0x1F) OR (scast ?b1 AND 0x3F) = p"
      unfolding scast_mask by (intro bit_word_eqI) (auto simp: ubits not_less a intro: ccontr)
    moreover have "\<not> (ucast ?b0 :: char32) < 0x80" "\<not> (ucast ?b0 :: char32) < 0xC0" "(ucast ?b0 :: char32) < 0xE0"
      "(scast ?b1 :: char32) AND 0xC0 = 0x80"
      by (simp_all add: ubits a)
    ultimately show ?thesis
      using 2 by (simp add: utf8_bytes_def utf8_encode_def utf8_decode_check_def cont_at_def Let_def)
  next
    case 3
    let ?b0 = "ucast (drop_bit 12 p OR 0xE0) :: BYTE" and ?b1 = "ucast ((drop_bit 6 p AND 0x3F) OR 0x80) :: BYTE"
      and ?b2 = "ucast ((p AND 0x3F) OR 0x80) :: BYTE"
    note a = bits_of_point(3) [OF 3(3)]
    have "push_bit 12 (ucast ?b0 AND 0x0F) OR push_bit 6 (scast ?b1 AND 0x3F) OR (scast ?b2 AND 0x3F) = p"
      unfolding scast_mask by (intro bit_word_eqI) (auto simp: ubits not_less a intro: ccontr)
    moreover have "\<not> (ucast ?b0 :: char32) < 0x80" "\<not> (ucast ?b0 :: char32) < 0xC0" "\<not> (ucast ?b0 :: char32) < 0xE0"
      "(ucast ?b0 :: char32) < 0xF0" "(scast ?b1 :: char32) AND 0xC0 = 0x80" "(scast ?b2 :: char32) AND 0xC0 = 0x80"
      by (simp_all add: ubits a)
    ultimately show ?thesis
      using 3 by (simp add: utf8_bytes_def utf8_encode_def utf8_decode_check_def cont_at_def Let_def numeral_nat_Suc)
  next
    case 4
    let ?b0 = "ucast (drop_bit 18 p OR 0xF0) :: BYTE" and ?b1 = "ucast ((drop_bit 12 p AND 0x3F) OR 0x80) :: BYTE"
      and ?b2 = "ucast ((drop_bit 6 p AND 0x3F) OR 0x80) :: BYTE" and ?b3 = "ucast ((p AND 0x3F) OR 0x80) :: BYTE"
    note a = bits_of_point(4) [OF 4(4)]
    have "push_bit 18 (ucast ?b0 AND 0x0F) OR push_bit 12 (scast ?b1 AND 0x3F) OR push_bit 6 (scast ?b2 AND 0x3F) OR
        (scast ?b3 AND 0x3F) = p"
      unfolding scast_mask
      by (rule pack4) (simp_all add: wbits bit_int_lead a)
    moreover have "\<not> (ucast ?b0 :: char32) < 0x80" "\<not> (ucast ?b0 :: char32) < 0xC0" "\<not> (ucast ?b0 :: char32) < 0xE0"
      "\<not> (ucast ?b0 :: char32) < 0xF0" "(ucast ?b0 :: char32) < 0xF8" "(scast ?b1 :: char32) AND 0xC0 = 0x80"
      "(scast ?b2 :: char32) AND 0xC0 = 0x80" "(scast ?b3 :: char32) AND 0xC0 = 0x80"
      by (simp_all add: ubits a)
    ultimately show ?thesis
      using 4 by (simp add: utf8_bytes_def utf8_encode_def utf8_decode_check_def cont_at_def Let_def numeral_nat_Suc)
  qed
qed

definition scalar :: "char32 \<Rightarrow> bool" where
  "scalar p \<longleftrightarrow> p < 0x110000 \<and> \<not> (0xD800 \<le> p \<and> p < 0xE000)"

lemma utf16_skip: "utf16_decode_check (pre @ xs) (length pre) = utf16_decode_check xs 0"
  using char_at_append [of pre xs 0]
  by (simp only: utf16_decode_check_def char_at_append add_0 add_0_right)

lemma ucast_WCHAR:
  assumes "(x :: char32) < 0x10000"
  shows "ucast (ucast x :: WCHAR) = x" and "unat (ucast x :: WCHAR) = unat x"
proof -
  show u: "ucast (ucast x :: WCHAR) = x"
    by (intro bit_word_eqI) (use bits_of_point(3) [OF assms] in \<open>auto simp: bit_simps not_le intro: ccontr\<close>)
  show "unat (ucast x :: WCHAR) = unat x"
    using arg_cong [OF u, of unat] by (simp add: unsigned_ucast_eq unsigned_take_bit_eq)
qed

text \<open>The pair of surrogates of a code point beyond the basic plane.\<close>

lemma surrogates:
  fixes p :: char32
  assumes "0x10000 \<le> p" and "p < 0x110000"
  defines "hi \<equiv> ucast (drop_bit 10 (p - 0x10000) + 0xD800) :: WCHAR" and "lo \<equiv> ucast ((p AND 0x3FF) + 0xDC00) :: WCHAR"
  shows "is_high_surrogate hi" and "is_low_surrogate lo"
    and "(push_bit 10 (ucast hi - 0xD800) OR (ucast lo - 0xDC00)) + 0x10000 = p"
proof -
  let ?q = "p - 0x10000"
  have p: "0x10000 \<le> unat p" "unat p < 0x110000"
    using assms(1,2) by (simp_all add: word_le_nat_alt word_less_nat_alt)
  have d: "unat ?q = unat p - 0x10000" using p by (simp add: unat_sub word_le_nat_alt)
  have h: "unat (drop_bit 10 ?q) < 1024"
    using p by (simp add: d drop_bit_eq_div unat_div)
  have l: "unat (p AND 0x3FF) < 1024"
    unfolding mask_eq_numeral by (simp add: take_bit_eq_mod unat_mod flip: take_bit_eq_mask)
  have h': "unat (drop_bit 10 ?q + 0xD800) = unat (drop_bit 10 ?q) + 0xD800"
    using h by (subst unat_add_lem [THEN iffD1]) simp_all
  have l': "unat ((p AND 0x3FF) + 0xDC00) = unat (p AND 0x3FF) + 0xDC00"
    using l by (subst unat_add_lem [THEN iffD1]) simp_all
  have "drop_bit 10 ?q + 0xD800 < 0x10000" "(p AND 0x3FF) + 0xDC00 < 0x10000"
    using h l by (simp_all add: word_less_nat_alt h' l')
  note u = ucast_WCHAR [OF this(1)] ucast_WCHAR [OF this(2)]
  show "is_high_surrogate hi" "is_low_surrogate lo"
    using h l by (simp_all add: is_high_surrogate_def is_low_surrogate_def hi_def lo_def word_le_nat_alt
        word_less_nat_alt u h' l')
  have "(unat p - 0x10000) mod 1024 = unat p mod 1024"
    using p(1) mod_mult_self4 [of 1024 64 "unat p - 0x10000"] by simp
  then have "unat (take_bit 10 p) = unat (take_bit 10 ?q)"
    unfolding unsigned_take_bit_eq d by (simp only: take_bit_eq_mod) simp
  then have "take_bit 10 p = take_bit 10 ?q" by (simp only: unsigned_word_eqI)
  then have "p AND 0x3FF = take_bit 10 ?q" unfolding mask_eq_numeral by (simp add: take_bit_eq_mask)
  then have "push_bit 10 (drop_bit 10 ?q) OR (p AND 0x3FF) = ?q"
    by (intro bit_word_eqI) (auto simp: bit_simps)
  then show "(push_bit 10 (ucast hi - 0xD800) OR (ucast lo - 0xDC00)) + 0x10000 = p"
    by (simp add: hi_def lo_def u)
qed

lemma utf16_decode_units:
  assumes "scalar p"
  shows "utf16_decode_check (utf16_units p @ xs) 0 = Inr \<lparr>offset = int (length (utf16_units p)), pt = p\<rparr>"
proof (cases "p < 0x10000")
  case True
  have "\<not> is_high_surrogate (ucast p)" "\<not> is_low_surrogate (ucast p)"
    using assms by (auto simp: scalar_def is_high_surrogate_def is_low_surrogate_def word_le_nat_alt
        word_less_nat_alt ucast_WCHAR [OF True])
  then show ?thesis
    using True by (simp add: utf16_units_def utf16_encode_def utf16_decode_check_def ucast_WCHAR [OF True])
next
  case False
  then have p: "0x10000 \<le> p" "p < 0x110000" using assms by (simp_all add: scalar_def)
  show ?thesis
    using False surrogates [OF p] p(2)
    by (simp add: utf16_units_def utf16_encode_def utf16_decode_check_def)
qed

section \<open>The decoder reads inside the string\<close>

lemma char_at_le: "i \<le> length str \<Longrightarrow> \<exists>b. char_at str i = Inr b"
  by (auto simp: char_at_def)

lemma cont_at_inside:
  "cont_at str j = Inr c \<Longrightarrow> c AND 0xC0 = 0x80 \<Longrightarrow> j < length str \<and> c = scast (str ! j)"
  by (auto simp: cont_at_def char_at_def split: if_splits)

lemma cont_at_le: "j \<le> length str \<Longrightarrow> \<exists>c. cont_at str j = Inr c"
  using char_at_le [of j str] by (auto simp: cont_at_def)

lemma cont_step:
  assumes "j < length str"
    and "\<And>b. Suc j < length str \<Longrightarrow> b = str ! Suc j \<Longrightarrow> bit b 7 \<Longrightarrow> \<not> bit b 6 \<Longrightarrow> \<exists>r. f (scast b) = Inr r \<and> P r"
    and "P invalid_pt"
  shows "\<exists>r. bindO (cont_at str (Suc j)) (\<lambda>c. if c AND 0xC0 \<noteq> 0x80 then Inr invalid_pt else f c) = Inr r \<and> P r"
proof -
  obtain c where c: "cont_at str (Suc j) = Inr c" using cont_at_le [of "Suc j" str] assms(1) by auto
  show ?thesis
  proof (cases "c AND 0xC0 = 0x80")
    case True
    with cont_at_inside [OF c] have "Suc j < length str" "c = scast (str ! Suc j)" by simp_all
    with assms(2) [of "str ! Suc j"] True cont_bits [of "str ! Suc j"] c show ?thesis by simp
  qed (simp add: c assms(3))
qed

text \<open>What a decoded code point says of the bytes it was read from.\<close>

lemma byte_eqI:
  assumes "bit (a :: BYTE) 0 = bit b 0" "bit a 1 = bit b 1" "bit a 2 = bit b 2" "bit a 3 = bit b 3"
    "bit a 4 = bit b 4" "bit a 5 = bit b 5" "bit a 6 = bit b 6" "bit a 7 = bit b 7"
  shows "a = b"
proof (rule bit_word_eqI)
  fix n assume "n < LENGTH(8)"
  then have "n = 0 \<or> n = 1 \<or> n = 2 \<or> n = 3 \<or> n = 4 \<or> n = 5 \<or> n = 6 \<or> n = 7" by auto
  with assms show "bit a n = bit b n" by (elim disjE) simp_all
qed

lemma char32_below: "(\<And>n. bit (p :: char32) n \<Longrightarrow> n < k) \<Longrightarrow> mask k < q \<Longrightarrow> p < q"
  using le_mask_iff_bits [of p k] by (auto intro: le_less_trans)

lemma bytes2:
  fixes b0 b1 :: BYTE and p :: char32
  assumes p: "\<And>n. bit p n \<longleftrightarrow> 6 \<le> n \<and> n < 11 \<and> bit b0 (n - 6) \<or> n < 6 \<and> bit b1 n"
    and b: "bit b0 7" "bit b0 6" "\<not> bit b0 5" "bit b1 7" "\<not> bit b1 6" and "\<not> p < 0x80"
  shows "p < 0x800" "utf8_bytes p = [b0, b1]"
proof -
  show l: "p < 0x800" by (rule char32_below [of _ 11]) (auto simp: p mask_eq_exp_minus_1)
  have "ucast (drop_bit 6 p OR 0xC0) = b0" "ucast ((p AND 0x3F) OR 0x80) = b1"
    by (rule byte_eqI; use b in \<open>simp add: wbits p\<close>)+
  then show "utf8_bytes p = [b0, b1]" using l \<open>\<not> p < 0x80\<close> by (simp add: utf8_bytes_def utf8_encode_def)
qed

lemma bytes3:
  fixes b0 b1 b2 :: BYTE and p :: char32
  assumes p: "\<And>n. bit p n \<longleftrightarrow> (12 \<le> n \<and> n < 16 \<and> bit b0 (n - 12) \<or> 6 \<le> n \<and> n < 12 \<and> bit b1 (n - 6)) \<or>
      n < 6 \<and> bit b2 n"
    and b: "bit b0 7" "bit b0 6" "bit b0 5" "\<not> bit b0 4" "bit b1 7" "\<not> bit b1 6" "bit b2 7" "\<not> bit b2 6"
    and "\<not> p < 0x800"
  shows "p < 0x10000" "utf8_bytes p = [b0, b1, b2]"
proof -
  show l: "p < 0x10000" by (rule char32_below [of _ 16]) (auto simp: p mask_eq_exp_minus_1)
  have "\<not> p < 0x80" using \<open>\<not> p < 0x800\<close> less_trans [of p "0x80" "0x800"] by auto
  moreover have "ucast (drop_bit 12 p OR 0xE0) = b0" "ucast ((drop_bit 6 p AND 0x3F) OR 0x80) = b1"
    "ucast ((p AND 0x3F) OR 0x80) = b2"
    by (rule byte_eqI; use b in \<open>simp add: wbits p\<close>)+
  ultimately show "utf8_bytes p = [b0, b1, b2]"
    using l \<open>\<not> p < 0x800\<close> by (simp add: utf8_bytes_def utf8_encode_def)
qed

lemma bytes4:
  fixes b0 b1 b2 b3 :: BYTE and p :: char32
  assumes p: "\<And>n. bit p n \<longleftrightarrow> ((18 \<le> n \<and> n < 22 \<and> bit b0 (n - 18) \<or> 12 \<le> n \<and> n < 18 \<and> bit b1 (n - 12)) \<or>
      6 \<le> n \<and> n < 12 \<and> bit b2 (n - 6)) \<or> n < 6 \<and> bit b3 n"
    and b: "bit b0 7" "bit b0 6" "bit b0 5" "bit b0 4" "\<not> bit b0 3" "bit b1 7" "\<not> bit b1 6" "bit b2 7" "\<not> bit b2 6"
      "bit b3 7" "\<not> bit b3 6"
    and "\<not> p < 0x10000" "p < 0x110000"
  shows "utf8_bytes p = [b0, b1, b2, b3]"
proof -
  have "\<not> p < 0x80" "\<not> p < 0x800"
    using \<open>\<not> p < 0x10000\<close> less_trans [of p "0x80" "0x10000"] less_trans [of p "0x800" "0x10000"] by auto
  moreover have "ucast (drop_bit 18 p OR 0xF0) = b0" "ucast ((drop_bit 12 p AND 0x3F) OR 0x80) = b1"
    "ucast ((drop_bit 6 p AND 0x3F) OR 0x80) = b2" "ucast ((p AND 0x3F) OR 0x80) = b3"
    by (rule byte_eqI; use b in \<open>simp add: wbits bit_int_lead p\<close>)+
  ultimately show "utf8_bytes p = [b0, b1, b2, b3]"
    using assms(13,14) by (simp add: utf8_bytes_def utf8_encode_def)
qed

text \<open>A decoding at an index inside the string: either it is refused, or the bytes from there on are
  those of the code point.\<close>

definition decodes :: "BYTE list \<Rightarrow> nat \<Rightarrow> offset_pt \<Rightarrow> bool" where
  "decodes str i r \<longleftrightarrow> r = invalid_pt \<or>
     (code_point (pt r) \<and> offset r = int (length (utf8_bytes (pt r))) \<and>
      take (length (utf8_bytes (pt r))) (drop i str) = utf8_bytes (pt r))"

lemma decodes_invalid [simp]: "decodes str i invalid_pt"
  by (simp add: decodes_def)

lemma take_drop_Cons: "i < length xs \<Longrightarrow> take (Suc n) (drop i xs) = xs ! i # take n (drop (Suc i) xs)"
  by (simp add: Cons_nth_drop_Suc [symmetric])

lemma decoded:
  assumes "\<not> bad \<Longrightarrow> utf8_bytes p = bs \<and> code_point p" and "take (length bs) (drop i str) = bs"
    and "k = int (length bs)"
  shows "\<exists>r. (if bad then Inr invalid_pt else Inr \<lparr>offset = k, pt = p\<rparr>) = Inr r \<and> decodes str i r"
  using assms by (cases bad) (simp_all add: decodes_def)

lemma code_point_below: "p < 0x800 \<Longrightarrow> code_point p" "p < 0x10000 \<Longrightarrow> code_point p"
  using less_trans [of p "0x800" "0x110000"] less_trans [of p "0x10000" "0x110000"] by (simp_all add: code_point_def)

lemma utf8_decode_check_total:
  assumes "i < length str"
  shows "\<exists>r. utf8_decode_check str i = Inr r \<and> decodes str i r"
proof -
  let ?b0 = "str ! i"
  have c: "char_at str i = Inr ?b0" using assms by (simp add: char_at_def)
  note bits = utf8_decode_check_def c lead_bits Let_def add_2_eq_Suc' numeral_3_eq_3
  consider "\<not> bit ?b0 7" | "bit ?b0 7" "\<not> bit ?b0 6" | "bit ?b0 7" "bit ?b0 6" "\<not> bit ?b0 5"
    | "bit ?b0 7" "bit ?b0 6" "bit ?b0 5" "\<not> bit ?b0 4"
    | "bit ?b0 7" "bit ?b0 6" "bit ?b0 5" "bit ?b0 4" "\<not> bit ?b0 3"
    | "bit ?b0 7" "bit ?b0 6" "bit ?b0 5" "bit ?b0 4" "bit ?b0 3" by blast
  then show ?thesis
  proof cases
    case 1
    then have l: "(ucast ?b0 :: char32) < 0x80" by (simp add: lead_bits)
    then have "code_point (ucast ?b0)" by (simp add: code_point_def less_trans [of _ "0x80"])
    moreover have "ucast (ucast ?b0 :: char32) = ?b0" by (intro bit_word_eqI) (simp add: bit_simps)
    then have "utf8_bytes (ucast ?b0) = [?b0]"
      using l by (simp add: utf8_bytes_def utf8_encode_def)
    ultimately show ?thesis using assms l by (simp add: utf8_decode_check_def c decodes_def take_drop_Cons)
  next
    case 3
    then have e: "utf8_decode_check str i =
       bindO (cont_at str (Suc i)) (\<lambda>b1. if b1 AND 0xC0 \<noteq> 0x80 then Inr invalid_pt
         else if push_bit 6 (ucast ?b0 AND 0x1F) OR (b1 AND 0x3F) < 0x80 then Inr invalid_pt
         else Inr \<lparr>offset = 2, pt = push_bit 6 (ucast ?b0 AND 0x1F) OR (b1 AND 0x3F)\<rparr>)"
      by (simp add: bits cong del: if_weak_cong)
    show ?thesis
      unfolding e
    proof (rule cont_step [OF assms])
      fix b1 assume b1: "Suc i < length str" "b1 = str ! Suc i" "bit b1 7" "\<not> bit b1 6"
      note p = bytes2 [OF pack2_bit 3 b1(3,4)]
      show "\<exists>r. (if push_bit 6 (ucast ?b0 AND 0x1F) OR (scast b1 AND 0x3F) < (0x80 :: char32) then Inr invalid_pt
         else Inr \<lparr>offset = 2, pt = push_bit 6 (ucast ?b0 AND 0x1F) OR (scast b1 AND 0x3F)\<rparr>) =
           Inr r \<and> decodes str i r"
        unfolding scast_mask
        by (rule decoded [where bs = "[?b0, b1]"])
          (use p code_point_below(1) in blast, use b1 assms in \<open>simp_all add: take_drop_Cons\<close>)
    qed simp
  next
    case 4
    then have e: "utf8_decode_check str i =
       bindO (cont_at str (Suc i)) (\<lambda>b1. if b1 AND 0xC0 \<noteq> 0x80 then Inr invalid_pt
         else bindO (cont_at str (Suc (Suc i))) (\<lambda>b2. if b2 AND 0xC0 \<noteq> 0x80 then Inr invalid_pt
         else if push_bit 12 (ucast ?b0 AND 0x0F) OR push_bit 6 (b1 AND 0x3F) OR (b2 AND 0x3F) < 0x800 then Inr invalid_pt
         else Inr \<lparr>offset = 3, pt = push_bit 12 (ucast ?b0 AND 0x0F) OR push_bit 6 (b1 AND 0x3F) OR (b2 AND 0x3F)\<rparr>))"
      by (simp add: bits cong del: if_weak_cong)
    show ?thesis
      unfolding e
    proof (rule cont_step [OF assms], rule cont_step)
      fix b1 b2 assume b1: "Suc i < length str" "b1 = str ! Suc i" "bit b1 7" "\<not> bit b1 6"
        and b2: "Suc (Suc i) < length str" "b2 = str ! Suc (Suc i)" "bit b2 7" "\<not> bit b2 6"
      note p = bytes3 [OF pack3_bit 4 b1(3,4) b2(3,4)]
      show "\<exists>r. (if push_bit 12 (ucast ?b0 AND 0x0F) OR push_bit 6 (scast b1 AND 0x3F) OR (scast b2 AND 0x3F) < (0x800 :: char32)
           then Inr invalid_pt
         else Inr \<lparr>offset = 3,
           pt = push_bit 12 (ucast ?b0 AND 0x0F) OR push_bit 6 (scast b1 AND 0x3F) OR (scast b2 AND 0x3F)\<rparr>) =
           Inr r \<and> decodes str i r"
        unfolding scast_mask
        by (rule decoded [where bs = "[?b0, b1, b2]"])
          (use p code_point_below(2) in blast, use b1 b2 assms in \<open>simp_all add: take_drop_Cons\<close>)
    qed simp_all
  next
    case 5
    then have e: "utf8_decode_check str i =
       bindO (cont_at str (Suc i)) (\<lambda>b1. if b1 AND 0xC0 \<noteq> 0x80 then Inr invalid_pt
         else bindO (cont_at str (Suc (Suc i))) (\<lambda>b2. if b2 AND 0xC0 \<noteq> 0x80 then Inr invalid_pt
         else bindO (cont_at str (Suc (Suc (Suc i)))) (\<lambda>b3. if b3 AND 0xC0 \<noteq> 0x80 then Inr invalid_pt
         else if push_bit 18 (ucast ?b0 AND 0x0F) OR push_bit 12 (b1 AND 0x3F) OR push_bit 6 (b2 AND 0x3F) OR
             (b3 AND 0x3F) < 0x10000 \<or> push_bit 18 (ucast ?b0 AND 0x0F) OR push_bit 12 (b1 AND 0x3F) OR
             push_bit 6 (b2 AND 0x3F) OR (b3 AND 0x3F) \<ge> 0x110000 then Inr invalid_pt
         else Inr \<lparr>offset = 4, pt = push_bit 18 (ucast ?b0 AND 0x0F) OR push_bit 12 (b1 AND 0x3F) OR
             push_bit 6 (b2 AND 0x3F) OR (b3 AND 0x3F)\<rparr>)))"
      by (simp add: bits cong del: if_weak_cong)
    show ?thesis
      unfolding e
    proof (rule cont_step [OF assms], rule cont_step, assumption, rule cont_step)
      fix b1 b2 b3 assume b1: "Suc i < length str" "b1 = str ! Suc i" "bit b1 7" "\<not> bit b1 6"
        and b2: "Suc (Suc i) < length str" "b2 = str ! Suc (Suc i)" "bit b2 7" "\<not> bit b2 6"
        and b3: "Suc (Suc (Suc i)) < length str" "b3 = str ! Suc (Suc (Suc i))" "bit b3 7" "\<not> bit b3 6"
      note p = bytes4 [OF pack4_bit 5 b1(3,4) b2(3,4) b3(3,4)]
      show "\<exists>r. (if push_bit 18 (ucast ?b0 AND 0x0F) OR push_bit 12 (scast b1 AND 0x3F) OR push_bit 6 (scast b2 AND 0x3F) OR
             (scast b3 AND 0x3F) < (0x10000 :: char32) \<or> push_bit 18 (ucast ?b0 AND 0x0F) OR push_bit 12 (scast b1 AND 0x3F) OR
             push_bit 6 (scast b2 AND 0x3F) OR (scast b3 AND 0x3F) \<ge> (0x110000 :: char32) then Inr invalid_pt
         else Inr \<lparr>offset = 4, pt = push_bit 18 (ucast ?b0 AND 0x0F) OR push_bit 12 (scast b1 AND 0x3F) OR
             push_bit 6 (scast b2 AND 0x3F) OR (scast b3 AND 0x3F)\<rparr>) =
           Inr r \<and> decodes str i r"
        unfolding scast_mask
        by (rule decoded [where bs = "[?b0, b1, b2, b3]"])
          (use p in \<open>simp only: de_Morgan_disj not_le code_point_def simp_thms\<close>,
           use b1 b2 b3 assms in \<open>simp_all add: take_drop_Cons\<close>)
    qed simp_all
  qed (simp_all add: bits)
qed

section \<open>The conversion loops\<close>

lemma utf8_bytes_length [simp]: "utf8_bytes p \<noteq> []" "0 < length (utf8_bytes p)"
  by (simp_all add: utf8_bytes_def utf8_encode_def)

lemma units_le_bytes: "length (utf16_units p) \<le> length (utf8_bytes p)"
proof -
  have "p < 0x10000" if "p < 0x80 \<or> p < 0x800" using that less_trans [of p _ "0x10000"] by auto
  then show ?thesis by (auto simp: utf16_units_def utf16_encode_def utf8_bytes_def utf8_encode_def)
qed

lemma bytes_le_units: "length (utf8_bytes p) \<le> 3 * length (utf16_units p)"
  by (simp add: utf16_units_def utf16_encode_def utf8_bytes_def utf8_encode_def)

lemma utf8_decode_total:
  assumes "i < length str"
  obtains p j f where "utf8_decode str i = Inr (p, j, f)" "i < j" "j \<le> length str" "code_point p"
    "length (utf16_units p) \<le> j - i"
proof -
  obtain r where r: "utf8_decode_check str i = Inr r" "decodes str i r"
    using utf8_decode_check_total [OF assms] by blast
  show thesis
  proof (cases "r = invalid_pt")
    case True
    then have "utf8_decode str i = Inr (0xFFFD, i + 1, True)" by (simp add: utf8_decode_def r invalid_pt_def)
    then show thesis
      by (rule that) (use assms in \<open>simp_all add: code_point_def utf16_units_def utf16_encode_def\<close>)
  next
    case False
    let ?n = "length (utf8_bytes (pt r))"
    have d: "code_point (pt r)" "offset r = int ?n" "take ?n (drop i str) = utf8_bytes (pt r)"
      using r(2) False by (simp_all add: decodes_def)
    have "utf8_decode str i = Inr (pt r, i + ?n, False)" by (simp add: utf8_decode_def r d(2))
    moreover have "i + ?n \<le> length str" using arg_cong [OF d(3), of length] assms by simp
    ultimately show thesis
      using that [of "pt r" "i + ?n" False] d(1) units_le_bytes [of "pt r"] by (simp del: length_greater_0_conv)
  qed
qed

lemma to_utf16_from_total:
  "i \<le> length str \<Longrightarrow> \<exists>out'. to_utf16_from str i out = Inr out' \<and> length out' \<le> length out + (length str - i)"
proof (induction str i out rule: to_utf16_from.induct)
  case (1 str i out)
  show ?case
  proof (cases "i < length str")
    case True
    then obtain p j f where d: "utf8_decode str i = Inr (p, j, f)" "i < j" "j \<le> length str"
        "length (utf16_units p) \<le> j - i"
      by (rule utf8_decode_total)
    from "1.IH" [OF True d(1) refl refl d(3)]
    obtain out' where "to_utf16_from str j (utf16_encode p out) = Inr out'"
      "length out' \<le> length (utf16_encode p out) + (length str - j)" by blast
    then show ?thesis
      using d True by (subst to_utf16_from.simps) (simp add: utf16_encode_append)
  qed (subst to_utf16_from.simps, simp)
qed

lemma to_utf32_from_total:
  "i \<le> length str \<Longrightarrow> list_all code_point out \<Longrightarrow>
     \<exists>out'. to_utf32_from str i out = Inr out' \<and> length out' \<le> length out + (length str - i) \<and> list_all code_point out'"
proof (induction str i out rule: to_utf32_from.induct)
  case (1 str i out)
  show ?case
  proof (cases "i < length str")
    case True
    then obtain p j f where d: "utf8_decode str i = Inr (p, j, f)" "i < j" "j \<le> length str" "code_point p"
      by (rule utf8_decode_total)
    have "list_all code_point (out @ [p])" using "1.prems"(2) d(4) by simp
    from "1.IH" [OF True d(1) refl refl d(3) this]
    obtain out' where "to_utf32_from str j (out @ [p]) = Inr out'"
      "length out' \<le> length (out @ [p]) + (length str - j)" "list_all code_point out'" by blast
    then show ?thesis using d True by (subst to_utf32_from.simps) simp
  qed (use "1.prems" in \<open>subst to_utf32_from.simps, simp\<close>)
qed

lemma utf16_decode_total:
  assumes "i < length str"
  obtains p j f where "utf16_decode str i = Inr (p, j, f)" "i < j" "j \<le> length str"
    "length (utf8_bytes p) \<le> 3 * (j - i)"
proof -
  have one: "length (utf8_bytes (ucast (c :: WCHAR))) \<le> 3" for c
  proof -
    have "(ucast c :: char32) < 0x10000"
      by (rule char32_below [of _ 16]) (auto simp: bit_simps mask_eq_exp_minus_1 dest: bit_imp_less)
    then show ?thesis by (simp add: utf8_bytes_def utf8_encode_def)
  qed
  have four: "length (utf8_bytes p) \<le> 6" for p by (simp add: utf8_bytes_def utf8_encode_def)
  have c: "char_at str i = Inr (str ! i)" using assms by (simp add: char_at_def)
  consider (pair) "is_high_surrogate (str ! i)" "Suc i < length str" "is_low_surrogate (str ! Suc i)"
    | (bad) "utf16_decode_check str i = Inr invalid_pt"
    | (one) "utf16_decode_check str i = Inr \<lparr>offset = 1, pt = ucast (str ! i)\<rparr>"
  proof (cases "is_high_surrogate (str ! i)")
    case True
    obtain d where d: "char_at str (Suc i) = Inr d" "Suc i = length str \<longrightarrow> d = 0" "Suc i < length str \<longrightarrow> d = str ! Suc i"
      using assms by (cases "Suc i = length str") (simp_all add: char_at_def)
    show thesis
    proof (cases "is_low_surrogate d")
      case low: True
      then have "Suc i < length str" using d(2) assms by (auto simp: is_low_surrogate_def)
      with True low d show thesis by (intro pair) simp_all
    qed (use True d in \<open>auto intro: bad simp: utf16_decode_check_def c\<close>)
  next
    case False
    then show thesis
      by (cases "is_low_surrogate (str ! i)") (auto intro: bad one simp: utf16_decode_check_def c)
  qed
  then show thesis
  proof cases
    case pair
    then have "char_at str (Suc i) = Inr (str ! Suc i)" by (simp add: char_at_def)
    then show thesis
      by (intro that [of _ "i + 2" False]) (use pair four in \<open>simp_all add: utf16_decode_def utf16_decode_check_def c\<close>)
  next
    case bad
    then have "utf16_decode str i = Inr (0xFFFD, i + 1, True)" by (simp add: utf16_decode_def invalid_pt_def)
    then show thesis by (rule that) (use assms in \<open>simp_all add: utf8_bytes_def utf8_encode_def\<close>)
  next
    case one
    then have "utf16_decode str i = Inr (ucast (str ! i), i + 1, False)" by (simp add: utf16_decode_def)
    then show thesis
      by (rule that) (use assms \<open>\<And>c. length (utf8_bytes (ucast (c :: WCHAR))) \<le> 3\<close> in simp_all)
  qed
qed

lemma to_utf8_from_total:
  "i \<le> length str \<Longrightarrow> \<exists>out'. to_utf8_from str i out = Inr out' \<and> length out' \<le> length out + 3 * (length str - i)"
proof (induction str i out rule: to_utf8_from.induct)
  case (1 str i out)
  show ?case
  proof (cases "i < length str")
    case True
    then obtain p j f where d: "utf16_decode str i = Inr (p, j, f)" "i < j" "j \<le> length str"
        "length (utf8_bytes p) \<le> 3 * (j - i)"
      by (rule utf16_decode_total)
    from "1.IH" [OF True d(1) refl refl d(3)]
    obtain out' where "to_utf8_from str j (utf8_encode p out) = Inr out'"
      "length out' \<le> length (utf8_encode p out) + 3 * (length str - j)" by blast
    then show ?thesis
      using d True by (subst to_utf8_from.simps) (simp add: utf8_encode_append)
  qed (subst to_utf8_from.simps, simp)
qed

text \<open>On the encodings of a list of code points the loops are folds.\<close>

lemma utf8_decode_at:
  "code_point p \<Longrightarrow> utf8_decode (pre @ utf8_bytes p @ xs) (length pre) =
     Inr (p, length pre + length (utf8_bytes p), False)"
  by (simp add: utf8_decode_def decode_check_skip utf8_decode_bytes)

lemma utf16_decode_at:
  "scalar p \<Longrightarrow> utf16_decode (pre @ utf16_units p @ xs) (length pre) =
     Inr (p, length pre + length (utf16_units p), False)"
  by (simp add: utf16_decode_def utf16_skip utf16_decode_units)

lemma to_utf16_from_bytes:
  "list_all code_point ps \<Longrightarrow>
     to_utf16_from (pre @ concat (map utf8_bytes ps)) (length pre) out = Inr (out @ concat (map utf16_units ps))"
proof (induction ps arbitrary: pre out)
  case (Cons p ps)
  from Cons.IH [of "pre @ utf8_bytes p" "out @ utf16_units p"] Cons.prems show ?case
    by (subst to_utf16_from.simps) (simp add: utf8_decode_at utf16_encode_append)
qed (subst to_utf16_from.simps, simp)

lemma to_utf32_from_bytes:
  "list_all code_point ps \<Longrightarrow>
     to_utf32_from (pre @ concat (map utf8_bytes ps)) (length pre) out = Inr (out @ ps)"
proof (induction ps arbitrary: pre out)
  case (Cons p ps)
  from Cons.IH [of "pre @ utf8_bytes p" "out @ [p]"] Cons.prems show ?case
    by (subst to_utf32_from.simps) (simp add: utf8_decode_at)
qed (subst to_utf32_from.simps, simp)

lemma utf16_units_length [simp]: "utf16_units p \<noteq> []"
  by (simp add: utf16_units_def utf16_encode_def)

lemma to_utf8_from_units:
  "list_all scalar ps \<Longrightarrow>
     to_utf8_from (pre @ concat (map utf16_units ps)) (length pre) out = Inr (out @ concat (map utf8_bytes ps))"
proof (induction ps arbitrary: pre out)
  case (Cons p ps)
  from Cons.IH [of "pre @ utf16_units p" "out @ utf8_bytes p"] Cons.prems show ?case
    by (subst to_utf8_from.simps) (simp add: utf16_decode_at utf8_encode_append)
qed (subst to_utf8_from.simps, simp)

lemma utf8_check_from_bytes:
  "list_all code_point ps \<Longrightarrow> utf8_check_from (pre @ concat (map utf8_bytes ps)) (length pre) = Inr True"
proof (induction ps arbitrary: pre)
  case (Cons p ps)
  from Cons.IH [of "pre @ utf8_bytes p"] Cons.prems show ?case
    by (subst utf8_check_from.simps) (simp add: decode_check_skip utf8_decode_bytes)
qed (subst utf8_check_from.simps, simp)

lemma utf8_check_from_sound:
  "i \<le> length str \<Longrightarrow> utf8_check_from str i = Inr True \<Longrightarrow>
     \<exists>ps. list_all code_point ps \<and> drop i str = concat (map utf8_bytes ps)"
proof (induction str i rule: utf8_check_from.induct)
  case (1 str i)
  show ?case
  proof (cases "i < length str")
    case True
    then obtain r where r: "utf8_decode_check str i = Inr r" "decodes str i r"
      using utf8_decode_check_total by blast
    have check: "utf8_check_from str i = (if offset r < 0 then Inr False else utf8_check_from str (i + nat (offset r)))"
      using True r(1) by (subst utf8_check_from.simps) simp
    with "1.prems" have "\<not> offset r < 0" by auto
    then have "r \<noteq> invalid_pt" by (auto simp: invalid_pt_def)
    let ?n = "length (utf8_bytes (pt r))"
    have d: "code_point (pt r)" "offset r = int ?n" "take ?n (drop i str) = utf8_bytes (pt r)"
      using r(2) \<open>r \<noteq> invalid_pt\<close> by (simp_all add: decodes_def)
    have "i + ?n \<le> length str" using arg_cong [OF d(3), of length] True by simp
    with "1.IH" [OF True r(1) \<open>\<not> offset r < 0\<close>] "1.prems" check d(2)
    obtain ps where ps: "list_all code_point ps" "drop (i + ?n) str = concat (map utf8_bytes ps)" by auto
    have "drop i str = concat (map utf8_bytes (pt r # ps))"
      using append_take_drop_id [of ?n "drop i str"] d(3) ps(2) by (simp add: add.commute)
    with ps(1) d(1) show ?thesis by (intro exI [of _ "pt r # ps"]) simp
  qed (use "1.prems" in \<open>auto intro: exI [of _ "[]"]\<close>)
qed

lemma utf8_check_from_total: "i \<le> length str \<Longrightarrow> \<exists>b. utf8_check_from str i = Inr b"
proof (induction str i rule: utf8_check_from.induct)
  case (1 str i)
  show ?case
  proof (cases "i < length str")
    case True
    then obtain r where r: "utf8_decode_check str i = Inr r" "decodes str i r"
      using utf8_decode_check_total by blast
    show ?thesis
    proof (cases "offset r < 0")
      case False
      then have "r \<noteq> invalid_pt" by (auto simp: invalid_pt_def)
      let ?n = "length (utf8_bytes (pt r))"
      have d: "offset r = int ?n" "take ?n (drop i str) = utf8_bytes (pt r)"
        using r(2) \<open>r \<noteq> invalid_pt\<close> by (simp_all add: decodes_def)
      have "i + ?n \<le> length str" using arg_cong [OF d(2), of length] True by simp
      with "1.IH" [OF True r(1) False] d(1) show ?thesis
        using True r(1) False by (subst utf8_check_from.simps) simp
    qed (use True r(1) in \<open>subst utf8_check_from.simps, auto\<close>)
  qed (subst utf8_check_from.simps, auto)
qed

lemma utf32_check_from_eq:
  "utf32_check_from str i = Inr (list_all code_point (drop i str))"
proof (induction str i rule: utf32_check_from.induct)
  case (1 str i)
  show ?case
  proof (cases "i < length str")
    case True
    then have d: "drop i str = str ! i # drop (Suc i) str" by (simp add: Cons_nth_drop_Suc)
    have c: "char_at str i = Inr (str ! i)" using True by (simp add: char_at_def)
    show ?thesis
    proof (cases "code_point (str ! i)")
      case valid: True
      then have "utf32_decode_check str i = Inr \<lparr>offset = 1, pt = str ! i\<rparr>"
        by (simp add: utf32_decode_check_def c code_point_def)
      with "1.IH" [OF True this] True valid d show ?thesis by (subst utf32_check_from.simps) simp
    next
      case False
      then have "utf32_decode_check str i = Inr invalid_pt"
        by (simp add: utf32_decode_check_def c code_point_def)
      then show ?thesis using True False d by (subst utf32_check_from.simps) (simp add: invalid_pt_def)
    qed
  qed (subst utf32_check_from.simps, simp)
qed

lemma utf32_check_eq: "utf32_check str = Inr (list_all code_point str)"
  by (simp add: utf32_check_def utf32_check_from_eq)

section \<open>The properties of the conversions\<close>

text \<open>C26: converting a UTF-8 string of Unicode scalar values to UTF-16 and back gives the same bytes: \<open>to_utf16\<close> maps
  the encodings of the scalars, in order, to their UTF-16 units, and \<open>to_utf8\<close> maps those back.\<close>

theorem utf8_utf16_roundtrip:
  assumes "list_all scalar ps"
  shows "to_utf16 (concat (map utf8_bytes ps)) = Inr (concat (map utf16_units ps)) \<and>
    to_utf8 (concat (map utf16_units ps)) = Inr (concat (map utf8_bytes ps))"
proof -
  have "list_all code_point ps" using assms by (auto simp: list_all_iff scalar_def code_point_def)
  then show ?thesis
    using assms to_utf16_from_bytes [of ps "[]" "[]"] to_utf8_from_units [of ps "[]" "[]"]
    by (simp add: to_utf16_def to_utf8_def)
qed

lemma utf8_utf16_roundtrip_witness:
  "to_utf16 [0x41, 0xF0, 0x9F, 0x98, 0x80] = Inr [0x41, 0xD83D, 0xDE00] \<and>
   to_utf8 [0x41, 0xD83D, 0xDE00] = Inr [0x41, 0xF0, 0x9F, 0x98, 0x80]"
  using utf8_utf16_roundtrip [of "[0x41, 0x1F600]"]
  by (simp add: scalar_def utf8_bytes_def utf8_encode_def utf16_units_def utf16_encode_def)

text \<open>C27: the decoders never read past a string's terminator and the conversion loops end, with results of bounded length:
  for every byte string \<open>to_utf16\<close> and \<open>to_utf32\<close> return at most one unit per byte, and for every UTF-16 string \<open>to_utf8\<close>
  returns at most three bytes per unit; every code point \<open>to_utf32\<close> returns passes \<open>utf32_check\<close>. (What the functions
  reserve beforehand is an estimate only, which the result of \<open>to_utf8\<close> can exceed: the string then grows.)\<close>

theorem conversions_total:
  "(\<exists>u. to_utf16 bytes = Inr u \<and> length u \<le> length bytes) \<and>
   (\<exists>p. to_utf32 bytes = Inr p \<and> length p \<le> length bytes \<and> utf32_check p = Inr True) \<and>
   (\<exists>b. to_utf8 units = Inr b \<and> length b \<le> 3 * length units)"
  using to_utf16_from_total [of 0 bytes "[]"] to_utf32_from_total [of 0 bytes "[]"] to_utf8_from_total [of 0 units "[]"]
  by (simp add: to_utf16_def to_utf32_def to_utf8_def utf32_check_eq)

text \<open>C25: \<open>utf8_check\<close> answers for every byte string and accepts exactly the strings that are the concatenation of the
  encodings \<open>utf8_encode\<close> writes for code points below 0x110000; overlong forms, stray continuation bytes, truncated
  sequences and code points out of range are refused.\<close>

theorem utf8_check_exact:
  "(\<exists>b. utf8_check str = Inr b) \<and>
   (utf8_check str = Inr True \<longleftrightarrow>
      (\<exists>ps. list_all (\<lambda>p. p < 0x110000) ps \<and> str = fold utf8_encode ps []))"
proof -
  have f: "fold utf8_encode ps out = out @ concat (map utf8_bytes ps)" for ps out
    by (induction ps arbitrary: out) (simp_all add: utf8_encode_append)
  show ?thesis
    using utf8_check_from_total [of 0 str] utf8_check_from_sound [of 0 str] utf8_check_from_bytes [of _ "[]"]
    unfolding utf8_check_def f code_point_def [abs_def, symmetric] by auto
qed

end
