(* ===== verification/Normalize.thy ===== *)
theory Normalize
  imports UnicodeTables
begin

text \<open>
  Lowercasing and the normal forms of \<^verbatim>\<open>miniutf/miniutf.cpp\<close>: decomposition, canonical ordering and composition of
  the code points of a UTF-8 string.
\<close>

unbundle bit_operations_syntax

section \<open>Lowercase\<close>

function lowercase_from :: "BYTE list \<Rightarrow> nat \<Rightarrow> BYTE list \<Rightarrow> BYTE list outcome" where
  "lowercase_from str i out =
     (if i < length str then
        bindO (utf8_decode str i) (\<lambda>(p, i, _).
        bindO (lowercase_offset p) (\<lambda>d. lowercase_from str i (utf8_encode (p + word_of_int d) out)))
      else Inr out)"
  by pat_completeness auto
termination
  by (relation "measure (\<lambda>(str, i, out). length str - i)") (auto dest!: utf8_decode_advances)

definition lowercase :: "BYTE list \<Rightarrow> BYTE list outcome" where
  "lowercase str = lowercase_from str 0 []"

section \<open>Decomposition and composition\<close>

definition unicode_decompose :: "char32 \<Rightarrow> char32 list \<Rightarrow> char32 list outcome" where
  "unicode_decompose p out =
     (if p \<ge> 0xAC00 \<and> p < 0xD7A4 then
        let out = out @ [0x1100 + (p - 0xAC00) div 588];
            out = out @ [0x1161 + ((p - 0xAC00) mod 588) div 28] in
        Inr (if (p - 0xAC00) mod 28 \<noteq> 0 then out @ [0x11A7 + (p - 0xAC00) mod 28] else out)
      else
        bindO (decomp_idx p) (\<lambda>decomp_start_idx.
        if decomp_start_idx = 0 then Inr (out @ [p])
        else
          let len = nat (drop_bit 14 decomp_start_idx) + 1;
              decomp_start_idx = decomp_start_idx AND (2 ^ 14 - 1) in
          foldO (\<lambda>i out.
            bindO (entry decomp_seq (decomp_start_idx + int i)) (\<lambda>k.
            bindO (entry xref k) (\<lambda>x. Inr (out @ [word_of_int x])))) [0..<len] out))"

text \<open>The scan of a group of compositions; its end is flagged.\<close>

function compose_scan :: "char32 \<Rightarrow> int \<Rightarrow> char32 outcome" where
  "compose_scan C comp_seq_idx =
     bindO (entry comp_seq (comp_seq_idx * 2)) (\<lambda>e.
     bindO (entry xref (e AND NOT 0x8000)) (\<lambda>x.
     if word_of_int x = C then
       bindO (entry comp_seq (comp_seq_idx * 2 + 1)) (\<lambda>k. bindO (entry xref k) (\<lambda>x. Inr (word_of_int x)))
     else if e AND 0x8000 \<noteq> 0 then Inr 0
     else compose_scan C (comp_seq_idx + 1)))"
  by pat_completeness auto
termination
  by (relation "measure (\<lambda>(C, i). nat (int (length comp_seq) - i * 2))") (auto simp: entry_def split: if_splits)

definition unicode_compose :: "char32 \<Rightarrow> char32 \<Rightarrow> char32 outcome" where
  "unicode_compose L C =
     (if L \<ge> 0x1100 \<and> L < 0x1113 \<and> C \<ge> 0x1161 \<and> C < 0x1176 then
        Inr (((L - 0x1100) * 21 + C - 0x1161) * 28 + 0xAC00)
      else if L \<ge> 0xAC00 \<and> L < 0xD7A4 \<and> (L - 0xAC00) mod 28 = 0 \<and> C \<ge> 0x11A8 \<and> C < 0x11C3 then Inr (L + C - 0x11A7)
      else bindO (comp_idx L) (compose_scan C))"

section \<open>Normal forms\<close>

text \<open>The decompositions of the code points, and whether \<open>*replacement_flag\<close> is set.\<close>

function decompose_from :: "BYTE list \<Rightarrow> nat \<Rightarrow> char32 list \<Rightarrow> bool \<Rightarrow> (char32 list \<times> bool) outcome" where
  "decompose_from str i codepoints flag =
     (if i < length str then
        bindO (utf8_decode str i) (\<lambda>(p, i, replaced).
        bindO (unicode_decompose p codepoints) (\<lambda>codepoints. decompose_from str i codepoints (flag \<or> replaced)))
      else Inr (codepoints, flag))"
  by pat_completeness auto
termination
  by (relation "measure (\<lambda>(str, i, _). length str - i)") (auto dest!: utf8_decode_advances)

text \<open>\<open>stable_sort\<close> of a run by combining class.\<close>

fun classes :: "char32 list \<Rightarrow> int list outcome" where
  "classes [] = Inr []"
| "classes (c # cs) = bindO (ccc c) (\<lambda>k. bindO (classes cs) (\<lambda>ks. Inr (k # ks)))"

definition sort_run :: "char32 list \<Rightarrow> char32 list outcome" where
  "sort_run run = bindO (classes run) (\<lambda>ks. Inr (map snd (sort_key fst (zip ks run))))"

text \<open>The first position from \<open>e\<close> on that ends a run of characters with a combining class.\<close>

function run_end :: "char32 list \<Rightarrow> nat \<Rightarrow> nat outcome" where
  "run_end codepoints e =
     (if e < length codepoints then
        bindO (ccc (codepoints ! e)) (\<lambda>k. if k \<noteq> 0 then run_end codepoints (e + 1) else Inr e)
      else Inr e)"
  by pat_completeness auto
termination
  by (relation "measure (\<lambda>(codepoints, e). length codepoints - e)") auto

declare lowercase_from.simps [simp del] compose_scan.simps [simp del] decompose_from.simps [simp del] run_end.simps [simp del]

lemma classes_length: "classes cs = Inr ks \<Longrightarrow> length ks = length cs"
  by (induction cs arbitrary: ks) auto

lemma sort_run_length: "sort_run run = Inr r \<Longrightarrow> length r = length run"
  by (auto simp: sort_run_def dest: classes_length)

lemma run_end_bounds: "run_end cs e = Inr e' \<Longrightarrow> e \<le> length cs \<Longrightarrow> e \<le> e' \<and> e' \<le> length cs"
proof (induction cs e rule: run_end.induct)
  case (1 cs e)
  show ?case
  proof (cases "e < length cs")
    case True
    with "1.prems"(1) obtain k where k: "ccc (cs ! e) = Inr k" "(if k \<noteq> 0 then run_end cs (e + 1) else Inr e) = Inr e'"
      by (subst (asm) run_end.simps) auto
    then show ?thesis using "1.IH" [OF True k(1)] "1.prems"(2) True by (auto split: if_splits)
  qed (use "1.prems" in \<open>subst (asm) run_end.simps, simp\<close>)
qed

text \<open>The canonical ordering of every run from \<open>start\<close> on.\<close>

function order_from :: "char32 list \<Rightarrow> nat \<Rightarrow> char32 list outcome" where
  "order_from codepoints start =
     (if start < length codepoints then
        bindO (ccc (codepoints ! start)) (\<lambda>k.
        if k = 0 then order_from codepoints (start + 1)
        else
          bindO (run_end codepoints (start + 1)) (\<lambda>e.
          bindO (if e - start > 1 then
                   bindO (sort_run (take (e - start) (drop start codepoints))) (\<lambda>run.
                     Inr (take start codepoints @ run @ drop e codepoints))
                 else Inr codepoints) (\<lambda>codepoints.
            order_from codepoints (e + 1))))
      else Inr codepoints)"
  by pat_completeness auto
termination
  by (relation "measure (\<lambda>(codepoints, start). length codepoints - start)")
    (auto dest!: run_end_bounds sort_run_length split: if_splits)

definition put_at :: "char32 list \<Rightarrow> nat \<Rightarrow> char32 \<Rightarrow> char32 list outcome" where
  "put_at codepoints k ch = (if k < length codepoints then Inr (codepoints[k := ch]) else Inl OutOfBounds)"

text \<open>The loop of the composition and the final \<open>resize\<close>.\<close>

function compose_from :: "char32 list \<Rightarrow> nat \<Rightarrow> int \<Rightarrow> nat \<Rightarrow> nat \<Rightarrow> char32 \<Rightarrow> char32 list outcome" where
  "compose_from codepoints i last_class starter_pos target_pos starter =
     (if i < length codepoints then
        let ch = codepoints ! i in
        bindO (ccc ch) (\<lambda>ch_class.
        bindO (unicode_compose starter ch) (\<lambda>composite.
        if composite \<noteq> 0 \<and> last_class < ch_class then
          bindO (put_at codepoints starter_pos composite) (\<lambda>codepoints.
            compose_from codepoints (i + 1) last_class starter_pos target_pos composite)
        else if ch_class = 0 then
          bindO (put_at codepoints target_pos ch) (\<lambda>codepoints.
            compose_from codepoints (i + 1) (-1) target_pos (target_pos + 1) ch)
        else
          bindO (put_at codepoints target_pos ch) (\<lambda>codepoints.
            compose_from codepoints (i + 1) ch_class starter_pos (target_pos + 1) starter)))
      else Inr (take target_pos codepoints @ replicate (target_pos - length codepoints) 0))"
  by pat_completeness auto
termination
  by (relation "measure (\<lambda>(codepoints, i, _). length codepoints - i)") (auto simp: put_at_def split: if_splits)

declare order_from.simps [simp del] compose_from.simps [simp del]

definition normalize32 :: "BYTE list \<Rightarrow> bool \<Rightarrow> (char32 list \<times> bool) outcome" where
  "normalize32 str compose =
     (if str = [] then Inr ([], False)
      else
        bindO (decompose_from str 0 [] False) (\<lambda>(codepoints, flag).
        bindO (order_from codepoints 0) (\<lambda>codepoints.
        if compose then
          bindO (char_at codepoints 0) (\<lambda>starter.
          bindO (compose_from codepoints 1 (-1) 0 1 starter) (\<lambda>codepoints. Inr (codepoints, flag)))
        else Inr (codepoints, flag))))"

definition normalize8 :: "BYTE list \<Rightarrow> bool \<Rightarrow> (BYTE list \<times> bool) outcome" where
  "normalize8 str compose = bindO (normalize32 str compose) (\<lambda>(codepoints, flag). Inr (to_utf8_32 codepoints, flag))"

definition nfc :: "BYTE list \<Rightarrow> (BYTE list \<times> bool) outcome" where
  "nfc str = normalize8 str True"

definition nfd :: "BYTE list \<Rightarrow> (BYTE list \<times> bool) outcome" where
  "nfd str = normalize8 str False"

section \<open>Code points stay code points\<close>

lemma sint_char32: "n < 2 ^ 31 \<Longrightarrow> sint (word_of_nat n :: char32) = int n"
  by (simp add: signed_of_nat signed_take_bit_int_eq_self)

lemma code_point_sint: "code_point c \<Longrightarrow> 0 \<le> sint c \<and> sint c = int (unat c)"
  using sint_char32 [of "unat c"] by (simp add: code_point_def word_less_nat_alt)

lemma code_point_of_int: "0 \<le> x \<Longrightarrow> x < 0x110000 \<Longrightarrow> code_point (word_of_int x)"
  by (simp add: code_point_def word_less_def unsigned_of_int take_bit_int_eq_self)

definition cls :: "char32 \<Rightarrow> int" where
  "cls c = (case ccc c of Inl _ \<Rightarrow> 0 | Inr k \<Rightarrow> k)"

lemma ccc_cls: "code_point c \<Longrightarrow> ccc c = Inr (cls c) \<and> 0 \<le> cls c"
  using ccc_total [of c] code_point_sint [of c] by (auto simp: cls_def)

lemma xref_entry:
  assumes "0 \<le> k" and "k < 3343"
  shows "\<exists>x. entry xref k = Inr x \<and> code_point (word_of_int x)"
  using entry_in [of k xref] assms sequences(2) code_point_of_int by (auto simp: table_lengths list_all_iff)

lemma word_of_nat_div:
  assumes "a < 2 ^ 32" and "b < 2 ^ 32"
  shows "(word_of_nat a :: char32) div word_of_nat b = word_of_nat (a div b)"
    and "(word_of_nat a :: char32) mod word_of_nat b = word_of_nat (a mod b)"
proof -
  note u = unat_of_nat_32 [OF assms(1)] unat_of_nat_32 [OF assms(2)]
  have "a div b < 2 ^ 32" using assms(1) by (rule le_less_trans [OF div_le_dividend])
  from unat_of_nat_32 [OF this] show "(word_of_nat a :: char32) div word_of_nat b = word_of_nat (a div b)"
    unfolding word_unat_eq_iff unat_div u by simp
  have "a mod b < 2 ^ 32" using assms(1) by (rule le_less_trans [OF mod_less_eq_dividend])
  from unat_of_nat_32 [OF this] show "(word_of_nat a :: char32) mod word_of_nat b = word_of_nat (a mod b)"
    unfolding word_unat_eq_iff unat_mod u by simp
qed

text \<open>A Hangul syllable and its parts.\<close>

lemma hangul_range: "0xAC00 \<le> p \<and> p < 0xD7A4 \<longleftrightarrow> (\<exists>s. s < 11172 \<and> p = 0xAC00 + word_of_nat s)" for p :: char32
proof
  assume p: "0xAC00 \<le> p \<and> p < 0xD7A4"
  then have u: "0xAC00 \<le> unat p" "unat p < 0xD7A4" by (simp_all add: word_le_nat_alt word_less_nat_alt)
  have "p = 0xAC00 + word_of_nat (unat p - 0xAC00)" using u(1) by (simp add: of_nat_diff)
  moreover have "unat p - 0xAC00 < 11172" using u by simp
  ultimately show "\<exists>s. s < 11172 \<and> p = 0xAC00 + word_of_nat s" by blast
next
  assume "\<exists>s. s < 11172 \<and> p = 0xAC00 + word_of_nat s"
  then obtain s where s: "s < 11172" "p = word_of_nat (0xAC00 + s)" by auto
  have "unat p = 0xAC00 + s" unfolding s(2) by (rule unat_of_nat_32) (use s(1) in simp)
  then show "0xAC00 \<le> p \<and> p < 0xD7A4" using s(1) by (simp add: word_le_nat_alt word_less_nat_alt)
qed

definition jamo :: "nat \<Rightarrow> nat \<Rightarrow> nat \<Rightarrow> char32 list" where
  "jamo l v t = [0x1100 + word_of_nat l, 0x1161 + word_of_nat v] @ (if t = 0 then [] else [0x11A7 + word_of_nat t])"

definition syllable :: "nat \<Rightarrow> nat \<Rightarrow> nat \<Rightarrow> char32" where
  "syllable l v t = 0xAC00 + word_of_nat ((l * 21 + v) * 28 + t)"

lemma hangul_decompose:
  assumes "l < 19" and "v < 21" and "t < 28"
  shows "unicode_decompose (syllable l v t) out = Inr (out @ jamo l v t)"
proof -
  let ?s = "(l * 21 + v) * 28 + t"
  have s: "?s < 11172" using assms by simp
  then have r: "0xAC00 \<le> syllable l v t \<and> syllable l v t < 0xD7A4" unfolding hangul_range syllable_def by blast
  have d: "syllable l v t - 0xAC00 = word_of_nat ?s" by (simp add: syllable_def)
  have n: "588 < (2 :: nat) ^ 32" "28 < (2 :: nat) ^ 32" by simp_all
  have b: "?s < 2 ^ 32" "?s mod 588 < 2 ^ 32" using s by simp_all
  have "(word_of_nat ?s :: char32) div 588 = word_of_nat (?s div 588)" "(word_of_nat ?s :: char32) mod 28 = word_of_nat (?s mod 28)"
      "(word_of_nat ?s :: char32) mod 588 div 28 = word_of_nat (?s mod 588 div 28)"
    using word_of_nat_div(1) [OF b(1) n(1)] word_of_nat_div(2) [OF b(1) n(2)] word_of_nat_div(2) [OF b(1) n(1)]
      word_of_nat_div(1) [OF b(2) n(2)]
    by (simp_all only: of_nat_numeral)
  moreover have e: "?s = l * 588 + (v * 28 + t)" by simp
  have "?s div 588 = l" using assms unfolding e by simp
  moreover have "?s mod 28 = t" unfolding mod_mult_self3 using assms(3) by simp
  moreover have "?s mod 588 div 28 = v" unfolding e mod_mult_self3 using assms by simp
  moreover have "(word_of_nat t :: char32) = 0 \<longleftrightarrow> t = 0" using assms(3) by (auto simp: word_of_nat_eq_0_iff dest: dvd_imp_le)
  ultimately show ?thesis using r by (simp add: unicode_decompose_def d jamo_def)
qed

lemma hangul_cases:
  assumes "0xAC00 \<le> p" and "p < (0xD7A4 :: char32)"
  obtains l v t where "l < 19" "v < 21" "t < 28" "p = syllable l v t"
proof -
  obtain s where s: "s < 11172" "p = 0xAC00 + word_of_nat s" using hangul_range [of p] assms by blast
  have "(s div 588 * 21 + s mod 588 div 28) * 28 + s mod 28 = s"
  proof -
    have "s mod 588 mod 28 = s mod 28" by (rule mod_mod_cancel) simp
    moreover have "(a * 21 + b) * 28 + c = a * 588 + (b * 28 + c)" for a b c :: nat by simp
    ultimately show ?thesis using div_mult_mod_eq [of s 588] div_mult_mod_eq [of "s mod 588" 28] by metis
  qed
  then have "p = syllable (s div 588) (s mod 588 div 28) (s mod 28)" unfolding syllable_def s(2) by simp
  moreover have "s div 588 < 19" "s mod 588 div 28 < 21" "s mod 28 < 28" using s(1) by (simp_all add: less_mult_imp_div_less)
  ultimately show thesis using that by blast
qed

lemma code_point_nat: "n < 0x110000 \<Longrightarrow> code_point (word_of_nat n)"
  using code_point_of_int [of "int n"] by simp

lemma jamo_points: "l < 19 \<Longrightarrow> v < 21 \<Longrightarrow> t < 28 \<Longrightarrow> list_all code_point (jamo l v t)"
  using code_point_nat [of "0x1100 + l"] code_point_nat [of "0x1161 + v"] code_point_nat [of "0x11A7 + t"]
  by (simp add: jamo_def)

section \<open>The operations are total\<close>

lemma unicode_decompose_total:
  assumes "code_point p" and "list_all code_point out"
  shows "\<exists>ds. unicode_decompose p out = Inr (out @ ds) \<and> ds \<noteq> [] \<and> list_all code_point ds"
proof (cases "0xAC00 \<le> p \<and> p < 0xD7A4")
  case True
  then obtain l v t where "l < 19" "v < 21" "t < 28" "p = syllable l v t" using hangul_cases by blast
  then show ?thesis using hangul_decompose jamo_points by (auto simp: jamo_def)
next
  case False
  obtain d where d: "decomp_idx p = Inr d" "0 \<le> d" "(d AND (2 ^ 14 - 1)) + (drop_bit 14 d + 1) \<le> 3237"
    using decomp_idx_total [of p] code_point_sint [OF assms(1)] by blast
  let ?s = "d AND (2 ^ 14 - 1)" and ?n = "nat (drop_bit 14 d) + 1"
  let ?f = "\<lambda>i out. bindO (entry decomp_seq (?s + int i)) (\<lambda>k. bindO (entry xref k) (\<lambda>x. Inr (out @ [word_of_int x :: char32])))"
  have s: "0 \<le> ?s" "0 \<le> drop_bit 14 d" using d(2) by simp_all
  have step: "\<exists>x. ?f i out = Inr (out @ [x]) \<and> code_point x" if "i < ?n" for i out
  proof -
    have i: "0 \<le> ?s + int i" "?s + int i < 3237" using that d(3) s by linarith+
    then obtain k where k: "entry decomp_seq (?s + int i) = Inr k" "0 \<le> k" "k < 3343"
      using entry_in [of "?s + int i" decomp_seq] sequences(1) by (auto simp: table_lengths list_all_iff)
    then show ?thesis using xref_entry [OF k(2,3)] by auto
  qed
  have run: "\<exists>ds. foldO ?f xs out = Inr (out @ ds) \<and> length ds = length xs \<and> list_all code_point ds" if "set xs \<subseteq> {..<?n}" for xs out
    using that
  proof (induction xs arbitrary: out)
    case (Cons i xs)
    then have i: "i < ?n" "set xs \<subseteq> {..<?n}" by auto
    obtain x where x: "?f i out = Inr (out @ [x])" "code_point x" using step [OF i(1), of out] by metis
    obtain ds where "foldO ?f xs (out @ [x]) = Inr ((out @ [x]) @ ds)" "length ds = length xs" "list_all code_point ds"
      using Cons.IH [OF i(2)] by blast
    then show ?case using x by (intro exI [of _ "x # ds"]) simp
  qed simp
  obtain ds where "foldO ?f [0..<?n] out = Inr (out @ ds)" "length ds = ?n" "list_all code_point ds"
    using run [of "[0..<?n]" out] by (metis atLeast_upt diff_zero length_upt order_refl)
  then show ?thesis using False d(1) assms(1) by (cases "d = 0") (auto simp: unicode_decompose_def Let_def)
qed

lemma comp_seq_entry:
  assumes "0 \<le> i" and "i < 933"
  obtains e k where "entry comp_seq (i * 2) = Inr e" "entry comp_seq (i * 2 + 1) = Inr k" "0 \<le> e AND NOT 0x8000"
    "e AND NOT 0x8000 < 3343" "0 \<le> k" "k < 3343" "i \<noteq> 932 \<or> e AND 0x8000 \<noteq> 0"
proof -
  let ?i = "nat i"
  have n: "nat (i * 2) = 2 * ?i" "nat (i * 2 + 1) = 2 * ?i + 1" using assms by auto
  have l: "2 * ?i < length comp_seq" using assms by (simp add: table_lengths)
  note p = pairs_nth [OF comp_seq_pairs l]
  have "entry comp_seq (i * 2) = Inr (comp_seq ! (2 * ?i))" "entry comp_seq (i * 2 + 1) = Inr (comp_seq ! (2 * ?i + 1))"
    using assms n by (simp_all add: entry_def table_lengths)
  moreover have "i \<noteq> 932 \<or> comp_seq ! (2 * ?i) AND 0x8000 \<noteq> 0" using comp_seq_last by simp
  ultimately show thesis using p that by blast
qed

lemma compose_scan_total:
  "0 \<le> i \<Longrightarrow> i < 933 \<Longrightarrow> \<exists>r. compose_scan C i = Inr r \<and> code_point r"
proof (induction C i rule: compose_scan.induct)
  case (1 C i)
  obtain e k where e: "entry comp_seq (i * 2) = Inr e" "entry comp_seq (i * 2 + 1) = Inr k" "0 \<le> e AND NOT 0x8000"
      "e AND NOT 0x8000 < 3343" "0 \<le> k" "k < 3343" "i \<noteq> 932 \<or> e AND 0x8000 \<noteq> 0"
    by (rule comp_seq_entry [OF "1.prems"])
  obtain x where x: "entry xref (e AND NOT 0x8000) = Inr x" using xref_entry [OF e(3,4)] by blast
  obtain y where y: "entry xref k = Inr y" "code_point (word_of_int y)" using xref_entry [OF e(5,6)] by blast
  show ?case
  proof (cases "word_of_int x = C \<or> e AND 0x8000 \<noteq> 0")
    case True
    then show ?thesis using e(1,2) x y by (subst compose_scan.simps) (auto simp: code_point_def)
  next
    case False
    then have "i + 1 < 933" using e(7) "1.prems"(2) by (cases "i = 932") auto
    then show ?thesis using False e(1) x "1.IH" [OF e(1) x] "1.prems"(1) by (subst compose_scan.simps) simp
  qed
qed

lemma hangul_compose:
  assumes "l < 19" and "v < 21"
  shows "unicode_compose (0x1100 + word_of_nat l) (0x1161 + word_of_nat v) = Inr (syllable l v 0)"
proof -
  have "unat (word_of_nat (0x1100 + l) :: char32) = 0x1100 + l" "unat (word_of_nat (0x1161 + v) :: char32) = 0x1161 + v"
    using assms by (intro unat_of_nat_32; simp)+
  then have r: "(0x1100 + word_of_nat l :: char32) \<ge> 0x1100" "(0x1100 + word_of_nat l :: char32) < 0x1113"
      "(0x1161 + word_of_nat v :: char32) \<ge> 0x1161" "(0x1161 + word_of_nat v :: char32) < 0x1176"
    using assms by (simp_all add: word_le_nat_alt word_less_nat_alt)
  then show ?thesis by (simp add: unicode_compose_def syllable_def algebra_simps)
qed

lemma syllable_range:
  assumes "l < 19" and "v < 21" and "t < 28"
  shows "0xAC00 \<le> syllable l v t" "syllable l v t < 0xD7A4" "unat (syllable l v t) = 0xAC00 + ((l * 21 + v) * 28 + t)"
proof -
  have s: "(l * 21 + v) * 28 + t < 11172" using assms by simp
  then show "0xAC00 \<le> syllable l v t" "syllable l v t < 0xD7A4"
    using hangul_range [of "syllable l v t"] unfolding syllable_def by blast+
  have "syllable l v t = word_of_nat (0xAC00 + ((l * 21 + v) * 28 + t))" by (simp add: syllable_def)
  then show "unat (syllable l v t) = 0xAC00 + ((l * 21 + v) * 28 + t)"
    using unat_of_nat_32 [of "0xAC00 + ((l * 21 + v) * 28 + t)"] s by simp
qed

lemma syllable_mod:
  assumes "l < 19" and "v < 21" and "t < 28"
  shows "(syllable l v t - 0xAC00) mod 28 = word_of_nat t"
proof -
  have b: "(l * 21 + v) * 28 + t < 2 ^ 32" "28 < (2 :: nat) ^ 32" using assms by simp_all
  have "syllable l v t - 0xAC00 = word_of_nat ((l * 21 + v) * 28 + t)" by (simp add: syllable_def)
  also have "\<dots> mod 28 = word_of_nat (((l * 21 + v) * 28 + t) mod 28)"
    using word_of_nat_div(2) [OF b] by (simp only: of_nat_numeral)
  also have "((l * 21 + v) * 28 + t) mod 28 = t" unfolding mod_mult_self3 using assms(3) by simp
  finally show ?thesis .
qed

lemma hangul_compose_final:
  assumes "l < 19" and "v < 21" and "0 < t" and "t < 28"
  shows "unicode_compose (syllable l v 0) (0x11A7 + word_of_nat t) = Inr (syllable l v t)"
proof -
  have u: "unat (word_of_nat (0x11A7 + t) :: char32) = 0x11A7 + t" using assms by (intro unat_of_nat_32) simp
  then have r: "(0x11A7 + word_of_nat t :: char32) \<ge> 0x11A8" "(0x11A7 + word_of_nat t :: char32) < 0x11C3"
    using assms by (simp_all add: word_le_nat_alt word_less_nat_alt)
  have n: "\<not> syllable l v 0 < 0x1113" using syllable_range(3) [of l v 0] assms by (simp add: word_less_nat_alt)
  have "syllable l v 0 + (0x11A7 + word_of_nat t) - 0x11A7 = syllable l v t" by (simp add: syllable_def)
  then show ?thesis using r n syllable_range(1,2) [of l v 0] syllable_mod [of l v 0] assms
    by (simp add: unicode_compose_def)
qed

lemma unicode_compose_total:
  assumes "code_point L" and "code_point C"
  shows "\<exists>r. unicode_compose L C = Inr r \<and> code_point r"
proof -
  consider (lv) "L \<ge> 0x1100 \<and> L < 0x1113 \<and> C \<ge> 0x1161 \<and> C < 0x1176"
    | (lvt) "\<not> (L \<ge> 0x1100 \<and> L < 0x1113 \<and> C \<ge> 0x1161 \<and> C < 0x1176)"
        "L \<ge> 0xAC00 \<and> L < 0xD7A4 \<and> (L - 0xAC00) mod 28 = 0 \<and> C \<ge> 0x11A8 \<and> C < 0x11C3"
    | (table) "\<not> (L \<ge> 0x1100 \<and> L < 0x1113 \<and> C \<ge> 0x1161 \<and> C < 0x1176)"
        "\<not> (L \<ge> 0xAC00 \<and> L < 0xD7A4 \<and> (L - 0xAC00) mod 28 = 0 \<and> C \<ge> 0x11A8 \<and> C < 0x11C3)" by blast
  then show ?thesis
  proof cases
    case lv
    let ?l = "unat L - 0x1100" and ?v = "unat C - 0x1161"
    have "0x1100 \<le> unat L \<and> unat L < 0x1113 \<and> 0x1161 \<le> unat C \<and> unat C < 0x1176"
      using lv by (simp add: word_le_nat_alt word_less_nat_alt)
    then have l: "?l < 19" "?v < 21" "0x1100 \<le> unat L" "0x1161 \<le> unat C" by arith+
    then have "L = 0x1100 + word_of_nat ?l" "C = 0x1161 + word_of_nat ?v" by (simp_all add: of_nat_diff)
    then have "unicode_compose L C = Inr (syllable ?l ?v 0)" using hangul_compose [OF l(1,2)] by metis
    moreover have "code_point (syllable ?l ?v 0)"
      using syllable_range(3) [of ?l ?v 0] l(1,2) by (simp add: code_point_def word_less_nat_alt)
    ultimately show ?thesis by blast
  next
    case lvt
    have u: "unat L < 0xD7A4" "unat C < 0x11C3" "0x11A8 \<le> unat C" using lvt(2) by (simp_all add: word_le_nat_alt word_less_nat_alt)
    have "L + C - 0x11A7 = word_of_nat (unat L + unat C - 0x11A7)" using u by (simp add: of_nat_diff)
    moreover have "code_point (word_of_nat (unat L + unat C - 0x11A7))" by (rule code_point_nat) (use u in simp)
    ultimately have "code_point (L + C - 0x11A7)" by simp
    moreover have "unicode_compose L C = Inr (L + C - 0x11A7)"
      unfolding unicode_compose_def if_not_P [OF lvt(1)] if_P [OF lvt(2)] ..
    ultimately show ?thesis by blast
  next
    case table
    obtain i where "comp_idx L = Inr i" "0 \<le> i" "i < 933"
      using comp_idx_total [of L] code_point_sint [OF assms(1)] by blast
    moreover obtain r where "compose_scan C i = Inr r" "code_point r" using compose_scan_total [OF calculation(2,3)] by blast
    ultimately show ?thesis using table by (auto simp: unicode_compose_def)
  qed
qed

lemma decompose_from_total:
  "i \<le> length str \<Longrightarrow> list_all code_point out \<Longrightarrow>
    \<exists>ds f'. decompose_from str i out f = Inr (out @ ds, f') \<and> list_all code_point ds \<and> (i < length str \<longrightarrow> ds \<noteq> [])"
proof (induction str i out f rule: decompose_from.induct)
  case (1 str i out f)
  show ?case
  proof (cases "i < length str")
    case True
    then obtain p j g where d: "utf8_decode str i = Inr (p, j, g)" "i < j" "j \<le> length str" "code_point p"
      by (rule utf8_decode_total)
    obtain ds where ds: "unicode_decompose p out = Inr (out @ ds)" "ds \<noteq> []" "list_all code_point ds"
      using unicode_decompose_total [OF d(4) "1.prems"(2)] by blast
    have "list_all code_point (out @ ds)" using ds(3) "1.prems"(2) by simp
    from "1.IH" [OF True d(1) refl refl ds(1) d(3) this] obtain es f' where
      "decompose_from str j (out @ ds) (f \<or> g) = Inr ((out @ ds) @ es, f')" "list_all code_point es" by blast
    then show ?thesis using d(1) ds True by (intro exI [of _ "ds @ es"] exI [of _ f']) (subst decompose_from.simps, simp)
  qed (subst decompose_from.simps, simp)
qed


section \<open>Canonical ordering\<close>

text \<open>The reference: each maximal run of characters with a nonzero class is sorted by class, stably.\<close>

function canonical :: "char32 list \<Rightarrow> char32 list" where
  "canonical cs =
     (case cs of
        [] \<Rightarrow> []
      | c # cs' \<Rightarrow>
          if cls c = 0 then c # canonical cs'
          else sort_key cls (takeWhile (\<lambda>c. cls c \<noteq> 0) cs) @ canonical (dropWhile (\<lambda>c. cls c \<noteq> 0) cs))"
  by pat_completeness auto
termination
  by (relation "measure length") (auto simp: le_imp_less_Suc length_dropWhile_le)

declare canonical.simps [simp del]

lemma canonical_simps:
  "canonical [] = []"
  "cls c = 0 \<Longrightarrow> canonical (c # cs) = c # canonical cs"
  by (subst canonical.simps; simp)+

lemma canonical_run:
  assumes "\<forall>c \<in> set run. cls c \<noteq> 0" and "run \<noteq> []" and "cs = [] \<or> cls (hd cs) = 0"
  shows "canonical (run @ cs) = sort_key cls run @ canonical cs"
proof -
  obtain c r where r: "run = c # r" using assms(2) by (cases run) auto
  have "takeWhile (\<lambda>c. cls c \<noteq> 0) (run @ cs) = run" "dropWhile (\<lambda>c. cls c \<noteq> 0) (run @ cs) = cs"
    using assms(1,3) by (cases cs; auto simp: takeWhile_append dropWhile_append)+
  then show ?thesis using assms(1) r by (subst canonical.simps) simp
qed

lemma classes_cls: "list_all code_point cs \<Longrightarrow> classes cs = Inr (map cls cs)"
  by (induction cs) (simp_all add: ccc_cls)

lemma sort_run_cls:
  assumes "list_all code_point run"
  shows "sort_run run = Inr (sort_key cls run)"
proof -
  have "zip (map cls run) run = map (\<lambda>c. (cls c, c)) run" by (simp add: zip_map1 zip_same_conv_map)
  moreover have "map snd (sort_key fst (map (\<lambda>c. (cls c, c)) cs)) = sort_key cls cs" for cs
  proof -
    have "sort_key fst (map (\<lambda>c. (cls c, c)) cs) = map (\<lambda>c. (cls c, c)) (sort_key cls cs)"
    proof (induction cs)
      case (Cons c cs)
      have "insort_key fst (cls c, c) (map (\<lambda>c. (cls c, c)) ds) = map (\<lambda>c. (cls c, c)) (insort_key cls c ds)" for ds
        by (induction ds) simp_all
      then show ?case using Cons.IH by simp
    qed simp
    then show ?thesis by (simp add: comp_def)
  qed
  ultimately show ?thesis by (simp add: sort_run_def classes_cls [OF assms])
qed

lemma run_end_splits:
  "run_end cs e = Inr e' \<Longrightarrow> e \<le> length cs \<Longrightarrow> list_all code_point cs \<Longrightarrow>
    (\<forall>c \<in> set (take (e' - e) (drop e cs)). cls c \<noteq> 0) \<and> (drop e' cs = [] \<or> cls (hd (drop e' cs)) = 0)"
proof (induction cs e rule: run_end.induct)
  case (1 cs e)
  show ?case
  proof (cases "e < length cs")
    case True
    then have k: "ccc (cs ! e) = Inr (cls (cs ! e))" using "1.prems"(3) ccc_cls by (simp add: list_all_length)
    show ?thesis
    proof (cases "cls (cs ! e) = 0")
      case True
      then have "e' = e" using "1.prems"(1) \<open>e < length cs\<close> k by (subst (asm) run_end.simps) simp
      then show ?thesis using True \<open>e < length cs\<close> by (simp add: hd_drop_conv_nth)
    next
      case False
      then have r: "run_end cs (e + 1) = Inr e'" using "1.prems"(1) \<open>e < length cs\<close> k by (subst (asm) run_end.simps) simp
      have b: "e + 1 \<le> e'" using run_end_bounds [OF r] \<open>e < length cs\<close> by simp
      then have "take (e' - e) (drop e cs) = cs ! e # take (e' - (e + 1)) (drop (e + 1) cs)"
        using \<open>e < length cs\<close> by (simp add: Cons_nth_drop_Suc [symmetric] take_Cons')
      then show ?thesis using "1.IH" [OF \<open>e < length cs\<close> k False r] \<open>e < length cs\<close> "1.prems"(3) False by simp
    qed
  qed (use "1.prems" in \<open>subst (asm) run_end.simps, simp\<close>)
qed

lemma take_prefix: "length xs = n \<Longrightarrow> take n (xs @ ys) = xs" "length xs = n \<Longrightarrow> drop n (xs @ ys) = ys"
  by simp_all

lemma run_end_total: "list_all code_point cs \<Longrightarrow> \<exists>e'. run_end cs e = Inr e'"
proof (induction cs e rule: run_end.induct)
  case (1 cs e)
  show ?case
  proof (cases "e < length cs")
    case True
    then have k: "ccc (cs ! e) = Inr (cls (cs ! e))" using "1.prems" ccc_cls by (simp add: list_all_length)
    show ?thesis
    proof (cases "cls (cs ! e) = 0")
      case True
      then show ?thesis using \<open>e < length cs\<close> k by (subst run_end.simps) simp
    next
      case False
      then show ?thesis using \<open>e < length cs\<close> k "1.IH" [OF \<open>e < length cs\<close> k False "1.prems"] by (subst run_end.simps) simp
    qed
  qed (subst run_end.simps, simp)
qed

lemma order_from_canonical:
  "list_all code_point cs \<Longrightarrow> start \<le> length cs \<Longrightarrow> order_from cs start = Inr (take start cs @ canonical (drop start cs))"
proof (induction cs start rule: order_from.induct)
  case (1 cs start)
  show ?case
  proof (cases "start < length cs")
    case True
    then have k: "ccc (cs ! start) = Inr (cls (cs ! start))" using "1.prems"(1) ccc_cls by (simp add: list_all_length)
    have d: "drop start cs = cs ! start # drop (start + 1) cs" using True by (simp add: Cons_nth_drop_Suc)
    have t: "take (start + 1) cs = take start cs @ [cs ! start]" using True by (simp add: take_Suc_conv_app_nth)
    show ?thesis
    proof (cases "cls (cs ! start) = 0")
      case True
      then have "order_from cs (start + 1) = Inr (take (start + 1) cs @ canonical (drop (start + 1) cs))"
        using "1.IH"(1) [OF \<open>start < length cs\<close> k True "1.prems"(1)] \<open>start < length cs\<close> by simp
      then show ?thesis using True \<open>start < length cs\<close> k d t
        by (subst order_from.simps) (simp add: canonical_simps(2) del: append_assoc)
    next
      case False
      obtain e where e: "run_end cs (start + 1) = Inr e" using run_end_total [OF "1.prems"(1)] by blast
      have b: "start + 1 \<le> e" "e \<le> length cs" using run_end_bounds [OF e] True by simp_all
      let ?run = "take (e - start) (drop start cs)"
      have rest: "drop e cs = [] \<or> cls (hd (drop e cs)) = 0" and tail: "\<forall>c \<in> set (take (e - (start + 1)) (drop (start + 1) cs)). cls c \<noteq> 0"
        using run_end_splits [OF e _ "1.prems"(1)] True by simp_all
      have r: "?run = cs ! start # take (e - (start + 1)) (drop (start + 1) cs)" using b d by (simp add: take_Cons')
      then have run: "\<forall>c \<in> set ?run. cls c \<noteq> 0" "?run \<noteq> []" using tail False by simp_all
      have cp: "list_all code_point ?run" using "1.prems"(1) by (auto simp: list_all_iff dest: in_set_takeD in_set_dropD)
      let ?cs = "take start cs @ sort_key cls ?run @ drop e cs"
      have step: "(if e - start > 1 then bindO (sort_run ?run) (\<lambda>run. Inr (take start cs @ run @ drop e cs)) else Inr cs) = Inr ?cs"
      proof (cases "e - start > 1")
        case True
        then show ?thesis by (simp add: sort_run_cls [OF cp])
      next
        case False
        then have "e = start + 1" using b by simp
        then show ?thesis using d \<open>start < length cs\<close> by (simp add: r id_take_nth_drop)
      qed
      have drops: "drop start cs = ?run @ drop e cs" using b(1) by (metis append_take_drop_id drop_drop le_add_diff_inverse2 add_leD1)
      have len: "length ?cs = length cs" "length (take start cs @ sort_key cls ?run) = e" using b by simp_all
      have cp': "list_all code_point ?cs" using "1.prems"(1) by (auto simp: list_all_iff dest: in_set_takeD in_set_dropD)
      have "order_from ?cs (e + 1) = Inr ((take start cs @ sort_key cls ?run) @ canonical (drop e cs))"
      proof (cases "drop e cs")
        case Nil
        then have "\<not> e + 1 < length ?cs" using len(1) by simp
        then show ?thesis using Nil by (subst order_from.simps) (simp add: canonical_simps)
      next
        case (Cons x xs)
        have "length (drop e cs) = Suc (length xs)" unfolding Cons by simp
        then have "e + 1 \<le> length cs" by simp
        then have x: "cls x = 0" "e + 1 \<le> length ?cs" using rest unfolding Cons len(1) by simp_all
        let ?pre = "take start cs @ sort_key cls ?run"
        have pre: "?cs = (?pre @ [x]) @ xs" "length (?pre @ [x]) = e + 1" using Cons len(2) by simp_all
        have "take (e + 1) ?cs = ?pre @ [x]" "drop (e + 1) ?cs = xs"
          unfolding pre(1) using take_prefix [OF pre(2)] by simp_all
        then show ?thesis
          using "1.IH"(2) [OF True k False e step cp' x(2)] Cons x(1) by (simp add: canonical_simps(2))
      qed
      moreover have "canonical (drop start cs) = sort_key cls ?run @ canonical (drop e cs)"
        using arg_cong [OF drops, of canonical] canonical_run [OF run rest] by (rule trans)
      ultimately show ?thesis using True k False e step by (subst order_from.simps) simp
    qed
  qed (use "1.prems" in \<open>subst order_from.simps, simp add: canonical_simps\<close>)
qed


lemma canonical_class: "filter (\<lambda>c. cls c = k) (canonical cs) = filter (\<lambda>c. cls c = k) cs"
proof (induction cs rule: canonical.induct)
  case (1 cs)
  show ?case
  proof (cases cs)
    case (Cons c cs')
    show ?thesis
    proof (cases "cls c = 0")
      case True
      then show ?thesis using "1.IH"(1) [OF Cons True] Cons by (auto simp: canonical_simps)
    next
      case False
      let ?P = "\<lambda>c. cls c \<noteq> 0"
      have "filter (\<lambda>c. cls c = k) (sort_key cls (takeWhile ?P cs)) = filter (\<lambda>c. cls c = k) (takeWhile ?P cs)"
        by (rule sort_key_stable)
      moreover have "canonical cs = sort_key cls (takeWhile ?P cs) @ canonical (dropWhile ?P cs)"
        using Cons False by (subst canonical.simps) simp
      moreover have "filter (\<lambda>c. cls c = k) cs = filter (\<lambda>c. cls c = k) (takeWhile ?P cs @ dropWhile ?P cs)" by simp
      ultimately show ?thesis using "1.IH"(2) [OF Cons False] unfolding filter_append by simp
    qed
  qed (simp add: canonical_simps)
qed

lemma canonical_starters: "map (\<lambda>c. cls c = 0) (canonical cs) = map (\<lambda>c. cls c = 0) cs"
proof (induction cs rule: canonical.induct)
  case (1 cs)
  show ?case
  proof (cases cs)
    case (Cons c cs')
    show ?thesis
    proof (cases "cls c = 0")
      case True
      then show ?thesis using "1.IH"(1) [OF Cons True] Cons by (simp add: canonical_simps)
    next
      case False
      let ?P = "\<lambda>c. cls c \<noteq> 0"
      have run: "map (\<lambda>c. cls c = 0) xs = replicate (length xs) False" if "\<forall>c \<in> set xs. ?P c" for xs
        using that by (induction xs) simp_all
      have "\<forall>c \<in> set (takeWhile ?P cs). ?P c" by (auto dest: set_takeWhileD)
      then have "map (\<lambda>c. cls c = 0) (sort_key cls (takeWhile ?P cs)) = map (\<lambda>c. cls c = 0) (takeWhile ?P cs)"
        by (simp add: run)
      moreover have "canonical cs = sort_key cls (takeWhile ?P cs) @ canonical (dropWhile ?P cs)"
        using Cons False by (subst canonical.simps) simp
      moreover have "map (\<lambda>c. cls c = 0) cs = map (\<lambda>c. cls c = 0) (takeWhile ?P cs @ dropWhile ?P cs)" by simp
      ultimately show ?thesis using "1.IH"(2) [OF Cons False] unfolding map_append by simp
    qed
  qed (simp add: canonical_simps)
qed

abbreviation in_order :: "char32 \<Rightarrow> char32 \<Rightarrow> bool" where
  "in_order a b \<equiv> cls b = 0 \<or> cls a \<le> cls b"

lemma canonical_head: "cls (hd cs) = 0 \<Longrightarrow> cs \<noteq> [] \<Longrightarrow> cls (hd (canonical cs)) = 0"
  by (cases cs) (simp_all add: canonical_simps)

lemma canonical_ordered: "list_all (\<lambda>c. 0 \<le> cls c) cs \<Longrightarrow> successively in_order (canonical cs)"
proof (induction cs rule: canonical.induct)
  case (1 cs)
  show ?case
  proof (cases cs)
    case (Cons c cs')
    show ?thesis
    proof (cases "cls c = 0")
      case True
      have "0 \<le> cls d" if "d \<in> set (canonical cs')" for d
      proof -
        have "d \<in> set (filter (\<lambda>c. cls c = cls d) (canonical cs'))" using that by simp
        then have "d \<in> set cs'" unfolding canonical_class by simp
        then show ?thesis using "1.prems" Cons by (simp add: list_all_iff)
      qed
      then have "canonical cs' \<noteq> [] \<Longrightarrow> 0 \<le> cls (hd (canonical cs'))" by simp
      then show ?thesis using "1.IH"(1) [OF Cons True] "1.prems" Cons True
        by (auto simp: canonical_simps successively_Cons)
    next
      case False
      let ?P = "\<lambda>c. cls c \<noteq> 0" and ?r = "dropWhile (\<lambda>c. cls c \<noteq> 0) cs"
      have "list_all (\<lambda>c. 0 \<le> cls c) ?r" using "1.prems" by (auto simp: list_all_iff dest: set_dropWhileD)
      then have r: "successively in_order (canonical ?r)" using "1.IH"(2) [OF Cons False] by blast
      have "sorted_wrt (\<lambda>a b. cls a \<le> cls b) (sort_key cls (takeWhile ?P cs))"
        using sorted_sort_key [of cls "takeWhile ?P cs"] by (simp add: sorted_map)
      then have s: "successively in_order (sort_key cls (takeWhile ?P cs))"
        by (rule successively_mono [OF successively_if_sorted_wrt]) simp
      have "canonical ?r = [] \<or> cls (hd (canonical ?r)) = 0"
      proof (cases ?r)
        case Nil
        then show ?thesis unfolding Nil by (simp add: canonical_simps)
      next
        case (Cons d ds)
        then have "cls d = 0" using hd_dropWhile [of ?P cs] by simp
        then show ?thesis unfolding Cons by (simp add: canonical_simps)
      qed
      moreover have "canonical cs = sort_key cls (takeWhile ?P cs) @ canonical ?r"
        using Cons False by (subst canonical.simps) simp
      ultimately show ?thesis using r s by (auto simp: successively_append_iff)
    qed
  qed (simp add: canonical_simps)
qed

section \<open>Composition\<close>

lemma put_at_in: "k < length cs \<Longrightarrow> put_at cs k c = Inr (cs[k := c])"
  by (simp add: put_at_def)

lemma list_all_update: "list_all P cs \<Longrightarrow> P c \<Longrightarrow> list_all P (cs[k := c])"
  by (auto simp: list_all_iff dest: set_update_subset_insert [THEN subsetD])

lemma compose_from_total:
  "list_all code_point cs \<Longrightarrow> code_point s \<Longrightarrow> sp < tp \<Longrightarrow> tp \<le> i \<Longrightarrow> i \<le> length cs \<Longrightarrow>
    \<exists>r. compose_from cs i lc sp tp s = Inr r \<and> list_all code_point r"
proof (induction cs i lc sp tp s rule: compose_from.induct)
  case (1 cs i lc sp tp s)
  show ?case
  proof (cases "i < length cs")
    case True
    let ?c = "cs ! i"
    have c: "code_point ?c" using "1.prems"(1) True by (simp add: list_all_length)
    have k: "ccc ?c = Inr (cls ?c)" using ccc_cls [OF c] by blast
    obtain r where r: "unicode_compose s ?c = Inr r" "code_point r" using unicode_compose_total [OF "1.prems"(2) c] by blast
    have put: "put_at cs sp r = Inr (cs[sp := r])" "put_at cs tp ?c = Inr (cs[tp := ?c])"
      using "1.prems"(3,4) True by (simp_all add: put_at_in)
    have cp: "list_all code_point (cs[sp := r])" "list_all code_point (cs[tp := ?c])"
      using "1.prems"(1) r(2) c by (simp_all add: list_all_update)
    note IH = "1.IH" [OF True refl k r(1)]
    consider (compose) "r \<noteq> 0 \<and> lc < cls ?c" | (starter) "\<not> (r \<noteq> 0 \<and> lc < cls ?c)" "cls ?c = 0"
      | (other) "\<not> (r \<noteq> 0 \<and> lc < cls ?c)" "cls ?c \<noteq> 0" by blast
    then show ?thesis
    proof cases
      case compose
      then show ?thesis using IH(1) [OF compose put(1) cp(1) r(2) "1.prems"(3)] "1.prems"(4) True k r(1) put(1)
        by (subst compose_from.simps) (simp add: Let_def)
    next
      case starter
      then show ?thesis using IH(2) [OF starter put(2) cp(2) c] "1.prems"(4) True k r(1) put(2)
        by (subst compose_from.simps) (auto simp: Let_def)
    next
      case other
      then show ?thesis using IH(3) [OF other put(2) cp(2) "1.prems"(2)] "1.prems"(3,4) True k r(1) put(2)
        by (subst compose_from.simps) (auto simp: Let_def)
    qed
  next
    case False
    then have "tp \<le> length cs" using "1.prems"(4,5) by simp
    then show ?thesis using False "1.prems"(1)
      by (subst compose_from.simps) (auto simp: list_all_iff dest: in_set_takeD)
  qed
qed

text \<open>The decomposition of a string, with its code points.\<close>

lemma decomposition:
  obtains ds f where "decompose_from str 0 [] False = Inr (ds, f)" "list_all code_point ds" "str = [] \<or> ds \<noteq> []"
  using decompose_from_total [of 0 str "[]" False] that by auto

lemma canonical_set: "set (canonical cs) = set cs"
proof -
  have "c \<in> set (canonical cs) \<longleftrightarrow> c \<in> set cs" for c
    using arg_cong [OF canonical_class [of "cls c" cs], of "\<lambda>xs. c \<in> set xs"] by simp
  then show ?thesis by blast
qed

lemma canonical_length: "length (canonical cs) = length cs"
  using arg_cong [OF canonical_starters [of cs], of length] by simp

lemma normalize32_decomposed:
  assumes "decompose_from str 0 [] False = Inr (ds, f)" and "list_all code_point ds"
  shows "normalize32 str False = Inr (canonical ds, f)"
proof (cases "str = []")
  case True
  then have "ds = []" "f = False" using assms(1) by (auto simp: decompose_from.simps)
  then show ?thesis using True by (simp add: normalize32_def canonical_simps)
next
  case False
  then show ?thesis using assms order_from_canonical [OF assms(2), of 0] by (simp add: normalize32_def)
qed

lemma normalize32_composed:
  assumes "decompose_from str 0 [] False = Inr (ds, f)" and "list_all code_point ds" and "str \<noteq> []" and "ds \<noteq> []"
  shows "normalize32 str True =
    bindO (compose_from (canonical ds) 1 (-1) 0 1 (hd (canonical ds))) (\<lambda>cs. Inr (cs, f))"
proof -
  have "canonical ds \<noteq> []" using canonical_length [of ds] assms(4) by auto
  then have "char_at (canonical ds) 0 = Inr (hd (canonical ds))" by (simp add: char_at_def hd_conv_nth)
  then show ?thesis using assms order_from_canonical [OF assms(2), of 0] by (simp add: normalize32_def)
qed

lemma normalize32_total: "\<exists>cs f. normalize32 str compose = Inr (cs, f) \<and> list_all code_point cs"
proof -
  obtain ds f where d: "decompose_from str 0 [] False = Inr (ds, f)" "list_all code_point ds" "str = [] \<or> ds \<noteq> []"
    by (rule decomposition [of str])
  have c: "list_all code_point (canonical ds)" using d(2) by (simp add: list_all_iff canonical_set)
  show ?thesis
  proof (cases "compose \<and> str \<noteq> []")
    case True
    then have ne: "canonical ds \<noteq> []" using canonical_length [of ds] d(3) by auto
    then have "code_point (hd (canonical ds))" using c by (simp add: list_all_iff)
    then obtain r where "compose_from (canonical ds) 1 (-1) 0 1 (hd (canonical ds)) = Inr r" "list_all code_point r"
      using compose_from_total [OF c, of "hd (canonical ds)" 0 1 1] ne by (auto simp: Suc_le_eq)
    then show ?thesis using normalize32_composed [OF d(1,2)] True d(3) by simp
  next
    case False
    then show ?thesis using normalize32_decomposed [OF d(1,2)] c by (cases "str = []") (auto simp: normalize32_def)
  qed
qed

lemma to_utf8_32_bytes: "to_utf8_32 cs = concat (map utf8_bytes cs)"
proof -
  have "fold utf8_encode cs out = out @ concat (map utf8_bytes cs)" for out
    by (induction cs arbitrary: out) (simp_all add: utf8_encode_append)
  then show ?thesis by (simp add: to_utf8_32_def)
qed

lemma to_utf8_32_valid: "list_all code_point cs \<Longrightarrow> utf8_check (to_utf8_32 cs) = Inr True"
  using utf8_check_from_bytes [of cs "[]"] by (simp add: utf8_check_def to_utf8_32_bytes)

lemma lowercase_from_total: "i \<le> length str \<Longrightarrow> \<exists>r. lowercase_from str i out = Inr r"
proof (induction str i out rule: lowercase_from.induct)
  case (1 str i out)
  show ?case
  proof (cases "i < length str")
    case True
    then obtain p j f where d: "utf8_decode str i = Inr (p, j, f)" "i < j" "j \<le> length str" "code_point p"
      by (rule utf8_decode_total)
    obtain v where v: "lowercase_offset p = Inr v" using lowercase_offset_total [of p] code_point_sint [OF d(4)] by blast
    from "1.IH" [OF True d(1) refl refl v d(3)] show ?thesis using d(1) v True
      by (subst lowercase_from.simps) simp
  qed (subst lowercase_from.simps, simp)
qed

text \<open>C38: Lowercasing and normalization answer for every byte string, well-formed or not: no index leaves a table or a
  string, the scans of the composition table end at their flags, and what the normal forms return is UTF-8.\<close>

theorem normalization_total:
  "(\<exists>r. lowercase str = Inr r) \<and>
   (\<exists>cs f. normalize32 str compose = Inr (cs, f) \<and> utf32_check cs = Inr True) \<and>
   (\<exists>r f. nfc str = Inr (r, f) \<and> utf8_check r = Inr True) \<and> (\<exists>r f. nfd str = Inr (r, f) \<and> utf8_check r = Inr True)"
proof -
  have "\<exists>r f. normalize8 str k = Inr (r, f) \<and> utf8_check r = Inr True" for k
    using normalize32_total [of str k] to_utf8_32_valid by (fastforce simp: normalize8_def)
  then show ?thesis
    using lowercase_from_total [of 0 str "[]"] normalize32_total [of str compose]
    by (auto simp: lowercase_def nfc_def nfd_def utf32_check_eq)
qed

text \<open>C39: Without composition the result is the canonical ordering of the decomposed code points: characters without a
  combining class stand where they stood, the characters of each class keep their order, and no character follows one of
  a higher class without one of class nought between them.\<close>

theorem nfd_canonical_order:
  "\<exists>ds cs f. decompose_from str 0 [] False = Inr (ds, f) \<and> normalize32 str False = Inr (cs, f) \<and>
     map (\<lambda>c. ccc c = Inr 0) cs = map (\<lambda>c. ccc c = Inr 0) ds \<and>
     (\<forall>k. filter (\<lambda>c. ccc c = Inr k) cs = filter (\<lambda>c. ccc c = Inr k) ds) \<and>
     successively (\<lambda>a b. \<exists>m n. ccc a = Inr m \<and> ccc b = Inr n \<and> (n = 0 \<or> m \<le> n)) cs"
proof -
  obtain ds f where d: "decompose_from str 0 [] False = Inr (ds, f)" "list_all code_point ds" by (rule decomposition)
  have cl: "ccc c = Inr (cls c) \<and> 0 \<le> cls c" if "c \<in> set ds" for c using that d(2) ccc_cls by (simp add: list_all_iff)
  have m: "map (\<lambda>c. ccc c = Inr 0) cs = map (\<lambda>c. cls c = 0) cs" "filter (\<lambda>c. ccc c = Inr k) cs = filter (\<lambda>c. cls c = k) cs"
    if "set cs = set ds" for cs k using that cl by (auto intro!: filter_cong)
  have "list_all (\<lambda>c. 0 \<le> cls c) ds" using cl by (simp add: list_all_iff)
  then have "successively in_order (canonical ds)" by (rule canonical_ordered)
  then have "successively (\<lambda>a b. \<exists>m n. ccc a = Inr m \<and> ccc b = Inr n \<and> (n = 0 \<or> m \<le> n)) (canonical ds)"
    by (rule successively_mono) (use cl canonical_set [of ds] in auto)
  then show ?thesis
    using d(1) normalize32_decomposed [OF d] m [of ds] m [of "canonical ds"] canonical_class canonical_starters
    by (intro exI [of _ ds] exI [of _ "canonical ds"] exI [of _ f]) (simp add: canonical_set)
qed

end
