(* ===== verification/Hangul.thy ===== *)
theory Hangul
  imports Normalize
begin

text \<open>
  Composition of characters without a combining class: Hangul text, which decomposition takes apart and composition puts
  together again, and a character the composition table loses.
\<close>

unbundle bit_operations_syntax

section \<open>Characters without a combining class\<close>

definition composite :: "char32 \<Rightarrow> char32 \<Rightarrow> char32" where
  "composite L C = (case unicode_compose L C of Inl _ \<Rightarrow> 0 | Inr r \<Rightarrow> r)"

fun compose_starters :: "char32 \<Rightarrow> char32 list \<Rightarrow> char32 list" where
  "compose_starters s [] = [s]"
| "compose_starters s (c # cs) = (if composite s c \<noteq> 0 then compose_starters (composite s c) cs else s # compose_starters c cs)"

lemma unicode_compose_comp: "code_point L \<Longrightarrow> code_point C \<Longrightarrow> unicode_compose L C = Inr (composite L C) \<and> code_point (composite L C)"
  using unicode_compose_total [of L C] by (auto simp: composite_def)

text \<open>On a list of starters the loop composes each with what it has so far, or begins anew.\<close>

lemma compose_from_starters:
  "list_all code_point cs \<Longrightarrow> \<forall>c \<in> set (drop i cs). cls c = 0 \<Longrightarrow> code_point s \<Longrightarrow> sp < i \<Longrightarrow> i \<le> length cs \<Longrightarrow> cs ! sp = s \<Longrightarrow>
    compose_from cs i (-1) sp (sp + 1) s = Inr (take sp cs @ compose_starters s (drop i cs))"
proof (induction "drop i cs" arbitrary: cs i sp s)
  case Nil
  then have "\<not> i < length cs" "sp < length cs" by simp_all
  then show ?case using Nil by (subst compose_from.simps) (simp add: take_Suc_conv_app_nth)
next
  case (Cons c rest)
  have i: "i < length cs" using Cons.hyps(2) by (metis drop_all list.distinct(1) linorder_not_less)
  have c: "cs ! i = c" "drop (Suc i) cs = rest" using Cons.hyps(2) i by (simp_all add: Cons_nth_drop_Suc [symmetric])
  have cp: "code_point c" using Cons.prems(1) i c(1) by (auto simp: list_all_length)
  have k: "ccc c = Inr 0" using ccc_cls [OF cp] Cons.prems(2) Cons.hyps(2) by (metis list.set_intros(1))
  note u = unicode_compose_comp [OF Cons.prems(3) cp]
  show ?case
  proof (cases "composite s c = 0")
    case False
    let ?cs = "cs[sp := composite s c]"
    have "compose_from ?cs (i + 1) (-1) sp (sp + 1) (composite s c) = Inr (take sp ?cs @ compose_starters (composite s c) (drop (i + 1) ?cs))"
    proof (rule Cons.hyps(1))
      show "rest = drop (i + 1) ?cs" using c(2) Cons.prems(4) by simp
      show "list_all code_point ?cs" using Cons.prems(1) u by (simp add: list_all_update)
      show "\<forall>c \<in> set (drop (i + 1) ?cs). cls c = 0" using Cons.prems(2,4) Cons.hyps(2) c(2) by (metis drop_update_cancel less_SucI Suc_eq_plus1 list.set_intros(2))
    qed (use Cons.prems i u in simp_all)
    then show ?thesis using False i c k u Cons.prems(4) Cons.hyps(2) [symmetric]
      by (subst compose_from.simps) (simp add: Let_def put_at_in)
  next
    case True
    let ?cs = "cs[sp + 1 := c]"
    have "compose_from ?cs (i + 1) (-1) (sp + 1) (sp + 1 + 1) c = Inr (take (sp + 1) ?cs @ compose_starters c (drop (i + 1) ?cs))"
    proof (rule Cons.hyps(1))
      show "rest = drop (i + 1) ?cs" using c(2) Cons.prems(4) by simp
      show "list_all code_point ?cs" using Cons.prems(1) cp by (simp add: list_all_update)
      show "\<forall>c \<in> set (drop (i + 1) ?cs). cls c = 0" using Cons.prems(2,4) Cons.hyps(2) c(2)
        by (metis drop_update_cancel add_less_mono1 Suc_eq_plus1 list.set_intros(2))
    qed (use Cons.prems i cp in simp_all)
    moreover have "take (sp + 1) ?cs = take sp cs @ [s]" using Cons.prems(4-6) by (simp add: take_Suc_conv_app_nth)
    moreover have "drop (i + 1) ?cs = rest" using c(2) Cons.prems(4) by simp
    ultimately show ?thesis using True i c k u Cons.prems(4) Cons.hyps(2) [symmetric]
      by (subst compose_from.simps) (simp add: Let_def put_at_in)
  qed
qed

lemma canonical_starters_only: "\<forall>c \<in> set cs. cls c = 0 \<Longrightarrow> canonical cs = cs"
  by (induction cs) (simp_all add: canonical_simps)

lemma normalize32_starters:
  assumes "decompose_from str 0 [] False = Inr (d # ds, f)" and "list_all code_point (d # ds)" and "str \<noteq> []"
    and "\<forall>c \<in> set (d # ds). cls c = 0"
  shows "normalize32 str True = Inr (compose_starters d ds, f)"
proof -
  have "compose_from (d # ds) 1 (-1) 0 (0 + 1) d = Inr (take 0 (d # ds) @ compose_starters d (drop 1 (d # ds)))"
    by (rule compose_from_starters) (use assms in simp_all)
  then show ?thesis using normalize32_composed [OF assms(1,2,3)] canonical_starters_only [OF assms(4)] by simp
qed

text \<open>Decoding a string of encoded code points.\<close>

lemma decompose_from_bytes:
  "list_all code_point ps \<Longrightarrow> \<forall>p \<in> set ps. \<forall>out. unicode_decompose p out = Inr (out @ D p) \<Longrightarrow>
    decompose_from (pre @ concat (map utf8_bytes ps)) (length pre) out f = Inr (out @ concat (map D ps), f)"
proof (induction ps arbitrary: pre out f)
  case (Cons p ps)
  from Cons.IH [of "pre @ utf8_bytes p" "out @ D p" f] Cons.prems show ?case
    by (subst decompose_from.simps) (simp add: utf8_decode_at)
qed (subst decompose_from.simps, simp)

section \<open>Blocks of zeros\<close>

definition zeros :: "int list \<Rightarrow> nat \<Rightarrow> nat \<Rightarrow> bool" where
  "zeros t a n \<longleftrightarrow> take n (drop a t) = replicate n 0"

lemma zeros_entry:
  assumes "zeros t a n" and "int a \<le> i" and "i < int (a + n)"
  shows "entry t i = Inr 0"
proof -
  have l: "length (take n (drop a t)) = n" using assms(1) by (simp add: zeros_def)
  have i: "nat i - a < n" "a + (nat i - a) = nat i" using assms(2,3) by linarith+
  have n: "a + n \<le> length t" using l i(1) by simp
  have "take n (drop a t) ! (nat i - a) = 0" using assms(1) i(1) by (simp add: zeros_def)
  moreover have "take n (drop a t) ! (nat i - a) = t ! nat i" using i n by simp
  ultimately show ?thesis using assms(2,3) n by (simp add: entry_def)
qed

lemma zeros_two_stages:
  assumes "zeros t1 a n" and "zeros t2 0 (2 ^ k)" and "int a * 2 ^ k \<le> c" and "c < int (a + n) * 2 ^ k"
  shows "bindO (entry t1 (drop_bit k c)) (\<lambda>b. entry t2 (push_bit k b + (c AND (2 ^ k - 1)))) = Inr 0"
proof -
  have l: "c AND (2 ^ k - 1) = c mod 2 ^ k" using take_bit_eq_mask [of k c] by (simp add: take_bit_eq_mod mask_eq_exp_minus_1)
  have "int a \<le> c div 2 ^ k" using zdiv_mono1 [OF assms(3), of "2 ^ k"] by simp
  moreover have "c div 2 ^ k < int (a + n)"
  proof (rule mult_right_less_imp_less)
    have m: "0 \<le> c mod 2 ^ k" by simp
    show "c div 2 ^ k * 2 ^ k < int (a + n) * 2 ^ k"
      using assms(4) div_mult_mod_eq [of c "2 ^ k"] m by linarith
  qed simp
  ultimately have "entry t1 (drop_bit k c) = Inr 0" by (intro zeros_entry [OF assms(1)]) (simp_all add: drop_bit_eq_div)
  moreover have "entry t2 (c AND (2 ^ k - 1)) = Inr 0" by (rule zeros_entry [OF assms(2)]) (simp_all add: l)
  ultimately show ?thesis by simp
qed

lemma zero_blocks:
  "zeros decomp_idx_t1 68 4" "zeros decomp_idx_t2 0 64" "zeros ccc_t1 68 4" "zeros ccc_t2 0 64"
  "zeros comp_idx_t1 1376 350" "zeros comp_idx_t2 0 32"
  by (simp_all add: zeros_def decomp_idx_t1_def decomp_idx_defs ccc_t1_def ccc_defs comp_idx_t1_def comp_idx_defs)

lemma jamo_indices:
  assumes "0x1100 \<le> sint c" and "sint c < 0x11C3"
  shows "decomp_idx c = Inr 0" "ccc c = Inr 0"
proof -
  have "bindO (entry decomp_idx_t1 (drop_bit 6 (sint c))) (\<lambda>b. entry decomp_idx_t2 (push_bit 6 b + (sint c AND (2 ^ 6 - 1)))) = Inr 0"
    by (rule zeros_two_stages [OF zero_blocks(1)]) (use assms zero_blocks(2) in simp_all)
  then show "decomp_idx c = Inr 0" using assms by (simp add: decomp_idx_def)
  have "bindO (entry ccc_t1 (drop_bit 6 (sint c))) (\<lambda>b. entry ccc_t2 (push_bit 6 b + (sint c AND (2 ^ 6 - 1)))) = Inr 0"
    by (rule zeros_two_stages [OF zero_blocks(3)]) (use assms zero_blocks(4) in simp_all)
  then show "ccc c = Inr 0" using assms by (simp add: ccc_def)
qed

lemma syllable_comp_idx:
  assumes "l < 19" and "v < 21" and "t < 28"
  shows "comp_idx (syllable l v t) = Inr 0"
proof -
  have s: "sint (syllable l v t) = int (0xAC00 + ((l * 21 + v) * 28 + t))"
    using sint_char32 [of "0xAC00 + ((l * 21 + v) * 28 + t)"] assms by (simp add: syllable_def)
  have "(l * 21 + v) * 28 + t < 11172" using assms by simp
  then have r: "44032 \<le> sint (syllable l v t)" "sint (syllable l v t) < 55204" unfolding s by linarith+
  have "bindO (entry comp_idx_t1 (drop_bit 5 (sint (syllable l v t))))
      (\<lambda>b. entry comp_idx_t2 (push_bit 5 b + (sint (syllable l v t) AND (2 ^ 5 - 1)))) = Inr 0"
    by (rule zeros_two_stages [OF zero_blocks(5)]) (use r zero_blocks(6) in simp_all)
  then show ?thesis using r by (simp add: comp_idx_def)
qed

text \<open>Index 0, which \<open>comp_idx\<close> answers for a character that begins no composition, is the group of the composition
  of 1025 and 102E to 1026.\<close>

lemma first_group: "compose_scan C 0 = Inr (if C = 0x102E then 0x1026 else 0)"
proof -
  have "entry comp_seq 0 = Inr 33432" "entry comp_seq 1 = Inr 663" "entry xref 664 = Inr 0x102E" "entry xref 663 = Inr 0x1026"
    by code_simp+
  moreover have "(33432 :: int) AND NOT 0x8000 = 664" "(33432 :: int) AND 0x8000 \<noteq> 0" by simp_all
  ultimately show ?thesis by (subst compose_scan.simps) auto
qed


section \<open>Hangul\<close>

lemma jamo_sint:
  "l < 19 \<Longrightarrow> sint (0x1100 + word_of_nat l :: char32) = int (0x1100 + l)"
  "v < 21 \<Longrightarrow> sint (0x1161 + word_of_nat v :: char32) = int (0x1161 + v)"
  "t < 28 \<Longrightarrow> sint (0x11A7 + word_of_nat t :: char32) = int (0x11A7 + t)"
  using sint_char32 [of "0x1100 + l"] sint_char32 [of "0x1161 + v"] sint_char32 [of "0x11A7 + t"] by simp_all

lemma jamo_inert:
  assumes "l < 19" and "v < 21" and "t < 28" and "c \<in> set (jamo l v t)"
  shows "code_point c" "cls c = 0" "unicode_decompose c out = Inr (out @ [c])"
proof -
  have "c = 0x1100 + word_of_nat l \<or> c = 0x1161 + word_of_nat v \<or> c = 0x11A7 + word_of_nat t"
    using assms(4) by (auto simp: jamo_def split: if_splits)
  then have "sint c = int (0x1100 + l) \<or> sint c = int (0x1161 + v) \<or> sint c = int (0x11A7 + t)"
    using jamo_sint(1) [OF assms(1)] jamo_sint(2) [OF assms(2)] jamo_sint(3) [OF assms(3)] by metis
  then have s: "0x1100 \<le> sint c" "sint c < 0x11C3" using assms(1-3) by linarith+
  show cp: "code_point c" using jamo_points [OF assms(1-3)] assms(4) by (simp add: list_all_iff)
  have "unat c < 0x11C3" using s(2) code_point_sint [OF cp] by linarith
  then have n: "\<not> 0xAC00 \<le> c" by (simp add: word_le_nat_alt)
  show "cls c = 0" "unicode_decompose c out = Inr (out @ [c])"
    using jamo_indices [OF s] n by (simp_all add: cls_def unicode_decompose_def)
qed

lemma jamo_range:
  assumes "l < 19" and "v < 21" and "t < 28" and "c \<in> set (jamo l v t)"
  shows "0x1100 \<le> c \<and> c < 0x11C3"
proof -
  have "c = word_of_nat (0x1100 + l) \<or> c = word_of_nat (0x1161 + v) \<or> c = word_of_nat (0x11A7 + t)"
    using assms(4) by (auto simp: jamo_def split: if_splits)
  then have "\<exists>n. c = word_of_nat n \<and> 0x1100 \<le> n \<and> n < 0x11C3"
    using assms(1-3) by (elim disjE) (intro exI conjI, assumption, simp, simp)+
  then obtain n where n: "c = word_of_nat n" "0x1100 \<le> n" "n < 0x11C3" by blast
  then have "unat c = n" using unat_of_nat_32 [of n] by simp
  then show ?thesis using n(2,3) by (simp add: word_le_nat_alt word_less_nat_alt)
qed

lemma comp_syllable_next:
  assumes "l < 19" and "v < 21" and "t < 28" and "l' < 19"
  shows "composite (syllable l v t) (0x1100 + word_of_nat l') = 0"
proof -
  let ?C = "0x1100 + word_of_nat l' :: char32"
  have u: "unat ?C = 0x1100 + l'" using unat_of_nat_32 [of "0x1100 + l'"] assms(4) by simp
  have "?C \<noteq> 0x102E"
  proof
    assume "?C = 0x102E"
    then have "unat ?C = unat (0x102E :: char32)" by (rule arg_cong)
    then show False unfolding u by simp
  qed
  moreover have "\<not> syllable l v t < 0x1113" "\<not> ?C \<ge> 0x11A8"
    using syllable_range(3) [OF assms(1-3)] u assms(4) by (simp_all add: word_less_nat_alt word_le_nat_alt)
  ultimately show ?thesis using syllable_comp_idx [OF assms(1-3)] first_group [of ?C]
    by (simp add: composite_def unicode_compose_def)
qed

type_synonym parts = "nat \<times> nat \<times> nat"

definition proper :: "parts \<Rightarrow> bool" where
  "proper = (\<lambda>(l, v, t). l < 19 \<and> v < 21 \<and> t < 28)"

lemma syllable_nonzero: "l < 19 \<Longrightarrow> v < 21 \<Longrightarrow> t < 28 \<Longrightarrow> syllable l v t \<noteq> 0"
  using syllable_range(1) [of l v t] by auto

lemma compose_jamo:
  "list_all proper ps \<Longrightarrow> concat (map (\<lambda>(l, v, t). jamo l v t) ps) = d # ds \<Longrightarrow>
    compose_starters d ds = map (\<lambda>(l, v, t). syllable l v t) ps"
proof (induction ps arbitrary: d ds)
  case (Cons p ps)
  obtain l v t where p: "p = (l, v, t)" by (cases p)
  have b: "l < 19" "v < 21" "t < 28" using Cons.prems(1) p by (simp_all add: proper_def)
  let ?rest = "concat (map (\<lambda>(l, v, t). jamo l v t) ps)"
  have lv: "composite (0x1100 + word_of_nat l) (0x1161 + word_of_nat v) = syllable l v 0"
    using hangul_compose [OF b(1,2)] by (simp add: composite_def)
  have lvt: "composite (syllable l v 0) (0x11A7 + word_of_nat t) = syllable l v t" if "t \<noteq> 0"
    using hangul_compose_final [OF b(1,2) _ b(3)] that by (simp add: composite_def)
  have "compose_starters d ds = compose_starters (syllable l v t) ?rest"
    using Cons.prems(2) p lv lvt syllable_nonzero [OF b(1,2)] b(3) by (auto simp: jamo_def split: if_splits)
  also have "\<dots> = syllable l v t # map (\<lambda>(l, v, t). syllable l v t) ps"
  proof (cases ?rest)
    case Nil
    then have "ps = []" by (cases ps) (auto simp: jamo_def)
    then show ?thesis by simp
  next
    case (Cons d' ds')
    then obtain l' v' t' ps' where ps: "ps = (l', v', t') # ps'" by (cases ps) auto
    then have "d' = 0x1100 + word_of_nat l'" "l' < 19" using Cons Cons.prems(1) by (simp_all add: jamo_def proper_def)
    then show ?thesis using comp_syllable_next [OF b] Cons.IH [of d' ds'] Cons.prems(1) Cons by simp
  qed
  finally show ?case using p by simp
qed simp


lemma hangul_parts:
  assumes "\<forall>p \<in> set ps. 0xAC00 \<le> p \<and> p < 0xD7A4"
  obtains qs where "list_all proper qs" "ps = map (\<lambda>(l, v, t). syllable l v t) qs"
proof -
  have "\<exists>q. proper q \<and> p = (\<lambda>(l, v, t). syllable l v t) q" if "p \<in> set ps" for p
  proof -
    have "0xAC00 \<le> p" "p < 0xD7A4" using assms that by auto
    then obtain l v t where "l < 19" "v < 21" "t < 28" "p = syllable l v t" by (rule hangul_cases)
    then show ?thesis by (intro exI [of _ "(l, v, t)"]) (simp add: proper_def)
  qed
  then have "\<exists>qs. list_all proper qs \<and> ps = map (\<lambda>(l, v, t). syllable l v t) qs"
  proof (induction ps)
    case (Cons p ps)
    then obtain q qs where "proper q" "p = (\<lambda>(l, v, t). syllable l v t) q" "list_all proper qs" "ps = map (\<lambda>(l, v, t). syllable l v t) qs"
      by (metis list.set_intros)
    then show ?case by (intro exI [of _ "q # qs"]) simp
  qed simp
  then show thesis using that by blast
qed

lemma code_point_syllable: "l < 19 \<Longrightarrow> v < 21 \<Longrightarrow> t < 28 \<Longrightarrow> code_point (syllable l v t)"
  using syllable_range(3) [of l v t] by (simp add: code_point_def word_less_nat_alt)

text \<open>C40: Text in precomposed Hangul is in composed normal form: \<open>nfc\<close> returns it unchanged; and what \<open>nfd\<close> takes
  apart \<open>nfc\<close> puts together again.\<close>

theorem hangul_roundtrip:
  assumes "\<forall>p \<in> set ps. 0xAC00 \<le> p \<and> p < 0xD7A4"
  shows "nfc (to_utf8_32 ps) = Inr (to_utf8_32 ps, False) \<and>
    (\<exists>js. nfd (to_utf8_32 ps) = Inr (to_utf8_32 js, False) \<and> (\<forall>j \<in> set js. 0x1100 \<le> j \<and> j < 0x11C3) \<and>
       nfc (to_utf8_32 js) = Inr (to_utf8_32 ps, False))"
proof -
  obtain qs where qs: "list_all proper qs" "ps = map (\<lambda>(l, v, t). syllable l v t) qs" by (rule hangul_parts [OF assms])
  let ?js = "concat (map (\<lambda>(l, v, t). jamo l v t) qs)"
  have cp: "list_all code_point ps" using qs code_point_syllable by (auto simp: list_all_iff proper_def)
  have inert: "code_point j \<and> cls j = 0 \<and> (\<forall>out. unicode_decompose j out = Inr (out @ [j])) \<and> 0x1100 \<le> j \<and> j < 0x11C3"
    if j: "j \<in> set ?js" for j
  proof -
    obtain k where k: "k \<in> set qs" "j \<in> set ((\<lambda>(l, v, t). jamo l v t) k)" using j by auto
    obtain l v t where "k = (l, v, t)" by (cases k)
    then have q: "l < 19" "v < 21" "t < 28" "j \<in> set (jamo l v t)"
      using k qs(1) by (auto simp: list_all_iff proper_def)
    show ?thesis using jamo_inert [OF q] jamo_range [OF q] by blast
  qed
  have dp: "decompose_from (to_utf8_32 ps) 0 [] False = Inr (?js, False)"
  proof -
    let ?D = "\<lambda>p. case unicode_decompose p [] of Inl _ \<Rightarrow> [] | Inr ds \<Rightarrow> ds"
    have D: "\<forall>p \<in> set ps. \<forall>out. unicode_decompose p out = Inr (out @ ?D p)"
      using qs hangul_decompose by (auto simp: list_all_iff proper_def)
    have "concat (map ?D ps) = ?js" unfolding qs(2) using qs(1)
      by (induction qs) (auto simp: proper_def hangul_decompose)
    then show ?thesis using decompose_from_bytes [OF cp D, of "[]" "[]" False]
      unfolding to_utf8_32_bytes by (simp only: append_Nil list.size)
  qed
  have dj: "decompose_from (to_utf8_32 ?js) 0 [] False = Inr (?js, False)"
  proof -
    have "list_all code_point ?js" "\<forall>j \<in> set ?js. \<forall>out. unicode_decompose j out = Inr (out @ [j])"
      using inert by (simp_all add: list_all_iff)
    from decompose_from_bytes [OF this, of "[]" "[]" False] show ?thesis
      unfolding to_utf8_32_bytes by (simp only: append_Nil list.size concat_map_singleton list.map_ident)
  qed
  have js: "list_all code_point ?js" "\<forall>j \<in> set ?js. cls j = 0" using inert by (simp_all add: list_all_iff)
  have composed: "nfc str = Inr (to_utf8_32 ps, False)" if "decompose_from str 0 [] False = Inr (?js, False)" for str
  proof (cases ?js)
    case Nil
    then have "qs = []" by (cases qs) (auto simp: jamo_def)
    then have "ps = []" using qs(2) by simp
    moreover have "str = []" using that decompose_from_total [of 0 str "[]" False] Nil by auto
    ultimately show ?thesis by (simp add: nfc_def normalize8_def normalize32_def)
  next
    case (Cons d ds)
    then have "str \<noteq> []" using that by (auto simp: decompose_from.simps)
    then have "normalize32 str True = Inr (compose_starters d ds, False)"
      by (intro normalize32_starters) (use that js Cons in simp_all)
    then show ?thesis using compose_jamo [OF qs(1) Cons] qs(2) by (simp add: nfc_def normalize8_def)
  qed
  have "nfd (to_utf8_32 ps) = Inr (to_utf8_32 ?js, False)"
    using normalize32_decomposed [OF dp js(1)] canonical_starters_only [OF js(2)] by (simp add: nfd_def normalize8_def)
  then show ?thesis using composed [OF dp] composed [OF dj] inert by blast
qed


text \<open>Two syllables, one without a final consonant.\<close>

lemma hangul_roundtrip_witness:
  "let text = to_utf8_32 [0xD55C, 0xAC00] in nfc text = Inr (text, False) \<and> nfd text \<noteq> Inr (text, False)"
proof -
  let ?text = "to_utf8_32 [0xD55C, 0xAC00]"
  obtain js where js: "nfc ?text = Inr (?text, False)" "nfd ?text = Inr (to_utf8_32 js, False)"
      "\<forall>j \<in> set js. 0x1100 \<le> j \<and> j < 0x11C3"
    using hangul_roundtrip [of "[0xD55C, 0xAC00]"] by auto
  have "nfd ?text \<noteq> Inr (?text, False)" by code_simp
  then show ?thesis using js(1) by (simp add: Let_def)
qed

section \<open>The lost base\<close>

text \<open>C37: A character that begins no composition, has no decomposition and is not Hangul is lost when the vowel sign 102E
  follows it: \<open>nfc\<close> returns the single character 1026, which is composed of 1025 and 102E, whatever the first character
  was.\<close>

theorem nfc_loses_base:
  assumes "L < 0x110000" and "decomp_idx L = Inr 0" and "comp_idx L = Inr 0" and "\<not> (0xAC00 \<le> L \<and> L < 0xD7A4)"
  shows "nfc (to_utf8_32 [L, 0x102E]) = Inr (to_utf8_32 [0x1026], False)"
proof -
  have cp: "list_all code_point [L, 0x102E]" using assms(1) by (simp add: code_point_def)
  have sign: "decomp_idx 0x102E = Inr 0" "ccc 0x102E = Inr 0" by code_simp+
  have "decompose_from (to_utf8_32 [L, 0x102E]) 0 [] False = Inr ([L, 0x102E], False)"
    using decompose_from_bytes [OF cp, of "\<lambda>p. [p]" "[]" "[]" False] assms(2,4) sign(1)
    by (simp add: to_utf8_32_bytes unicode_decompose_def)
  moreover have "canonical [L, 0x102E] = [L, 0x102E]"
  proof (cases "cls L = 0")
    case False
    then show ?thesis using canonical_run [of "[L]" "[0x102E]"] sign(2) by (simp add: canonical_simps cls_def)
  qed (use sign(2) in \<open>simp add: canonical_simps cls_def\<close>)
  moreover have "compose_from [L, 0x102E] 1 (-1) 0 1 L = Inr [0x1026]"
  proof -
    have "unicode_compose L 0x102E = Inr 0x1026" using assms(3) first_group by (simp add: unicode_compose_def)
    then show ?thesis using sign(2) by (simp add: compose_from.simps put_at_def)
  qed
  moreover have "to_utf8_32 [L, 0x102E] \<noteq> []" by (simp add: to_utf8_32_bytes)
  ultimately show ?thesis using normalize32_composed [OF _ cp, of "to_utf8_32 [L, 0x102E]" False]
    by (simp add: nfc_def normalize8_def)
qed

text \<open>The Burmese syllable of the letter KA with the vowel sign.\<close>

lemma nfc_loses_base_witness:
  "nfc [0xE1, 0x80, 0x80, 0xE1, 0x80, 0xAE] = Inr ([0xE1, 0x80, 0xA6], False)"
proof -
  have "to_utf8_32 [0x1000, 0x102E] = [0xE1, 0x80, 0x80, 0xE1, 0x80, 0xAE]" "to_utf8_32 [0x1026] = [0xE1, 0x80, 0xA6]"
      "decomp_idx 0x1000 = Inr 0" "comp_idx 0x1000 = Inr 0"
    by code_simp+
  then show ?thesis using nfc_loses_base [of "0x1000"] by simp
qed

end
