(* ===== verification/Util.thy ===== *)
theory Util
  imports Miniutf
begin

text \<open>
  The string utilities (\<^verbatim>\<open>util/util.cpp\<close>, \<^verbatim>\<open>util/util.h\<close>), the names of \<^verbatim>\<open>const/const.h\<close> and the log
  levels of \<^verbatim>\<open>logging/logging.cpp\<close>.

  A \<open>wstring\<close> (\<open>std::basic_string<WCHAR>\<close>) is the list of its units, a \<open>std::string\<close> the list of its
  bytes; the conversions between them go through the terminator of \<open>c_str()\<close>, so they see a string
  up to its first zero.
\<close>

section \<open>Strings\<close>

type_synonym wstring = "WCHAR list"

text \<open>\<open>std::getenv\<close> is a parameter: the value of a variable, if it is set.\<close>

definition GetEnvironmentValue :: "(BYTE list \<Rightarrow> BYTE list option) \<Rightarrow> BYTE list \<Rightarrow> BYTE list" where
  "GetEnvironmentValue getenv name = (case getenv name of None \<Rightarrow> [] | Some v \<Rightarrow> v)"

text \<open>The trimming loop of \<open>ToString\<close>: \<open>result[result.length() - 1]\<close> of an empty string is an access
  at the greatest index.\<close>

fun drop_zeros :: "nat \<Rightarrow> wstring \<Rightarrow> wstring outcome" where
  "drop_zeros 0 result = Inl OutOfFuel"
| "drop_zeros (Suc n) result =
     (if result = [] then Inl OutOfBounds
      else if last result = 0 then drop_zeros n (butlast result)
      else Inr result)"

definition ToString :: "WCHAR list \<Rightarrow> nat \<Rightarrow> wstring outcome" where
  "ToString data len =
     (if data = [] \<or> len = 0 then Inr []
      else if length data < len then Inl OutOfBounds
      else drop_zeros (len + 1) (take len data))"

definition ToRaw :: "wstring \<Rightarrow> WCHAR list" where
  "ToRaw str = str"

text \<open>The bytes of a signature: the memory from the pointer on, and a length.\<close>

definition ToRaw_signature :: "BYTE list \<Rightarrow> nat \<Rightarrow> BYTE list outcome" where
  "ToRaw_signature mem len = (if len \<le> length mem then Inr (take len mem) else Inl OutOfBounds)"

definition c_str :: "'a::zero list \<Rightarrow> 'a list" where
  "c_str = takeWhile (\<lambda>c. c \<noteq> 0)"

definition ToWSTRING :: "BYTE list \<Rightarrow> wstring outcome" where
  "ToWSTRING str = bindO (to_utf16 str) (\<lambda>ustr. Inr (c_str ustr))"

definition ToString_utf8 :: "wstring \<Rightarrow> BYTE list outcome" where
  "ToString_utf8 wstr = to_utf8 (c_str wstr)"

definition ToWSTRING_cstr :: "BYTE list \<Rightarrow> wstring outcome" where
  "ToWSTRING_cstr str = ToWSTRING (c_str str)"

definition wide_char :: "BYTE \<Rightarrow> WCHAR" where
  "wide_char c = scast c"

definition wide_literal :: "BYTE list \<Rightarrow> wstring outcome" where
  "wide_literal arr = ToWSTRING arr"

text \<open>The wide string of an ASCII literal.\<close>

definition W :: "string \<Rightarrow> wstring" where
  "W s = map of_char s"

section \<open>Trimming\<close>

definition find_first_not_of :: "'a list \<Rightarrow> 'a list \<Rightarrow> nat option" where
  "find_first_not_of str syms =
     (let i = length (takeWhile (\<lambda>c. c \<in> set syms) str) in if i < length str then Some i else None)"

definition find_last_not_of :: "'a list \<Rightarrow> 'a list \<Rightarrow> nat option" where
  "find_last_not_of str syms =
     (let i = length (takeWhile (\<lambda>c. c \<in> set syms) (rev str)) in
      if i < length str then Some (length str - 1 - i) else None)"

definition trim_by :: "'a list \<Rightarrow> 'a list \<Rightarrow> 'a list" where
  "trim_by trimSymbols str =
     (if str = [] then []
      else
        let trimmed = (case find_first_not_of str trimSymbols of
                         Some lpos \<Rightarrow> if lpos > 0 then drop lpos str else str
                       | None \<Rightarrow> str) in
        case find_last_not_of trimmed trimSymbols of
          Some rpos \<Rightarrow> take (rpos + 1) trimmed
        | None \<Rightarrow> trimmed)"

text \<open>Both literals \<open>" \t\r\n\0"\<close> end at their embedded zero: the wide one is built from the
  \<open>c_str()\<close> of the conversion, the narrow one is a \<open>const char*\<close>.\<close>

definition Trim :: "wstring \<Rightarrow> wstring" where
  "Trim str = trim_by [0x20, 0x09, 0x0D, 0x0A] str"

definition Trim_string :: "BYTE list \<Rightarrow> BYTE list" where
  "Trim_string str = trim_by [0x20, 0x09, 0x0D, 0x0A] str"

section \<open>Names\<close>

definition SystemBoolean :: wstring where "SystemBoolean = W ''System.Boolean''"
definition SystemChar :: wstring where "SystemChar = W ''System.Char''"
definition SystemByte :: wstring where "SystemByte = W ''System.Byte''"
definition SystemSByte :: wstring where "SystemSByte = W ''System.SByte''"
definition SystemUInt16 :: wstring where "SystemUInt16 = W ''System.UInt16''"
definition SystemInt16 :: wstring where "SystemInt16 = W ''System.Int16''"
definition SystemInt32 :: wstring where "SystemInt32 = W ''System.Int32''"
definition SystemUInt32 :: wstring where "SystemUInt32 = W ''System.UInt32''"
definition SystemInt64 :: wstring where "SystemInt64 = W ''System.Int64''"
definition SystemUInt64 :: wstring where "SystemUInt64 = W ''System.UInt64''"
definition SystemSingle :: wstring where "SystemSingle = W ''System.Single''"
definition SystemDouble :: wstring where "SystemDouble = W ''System.Double''"
definition SystemIntPtr :: wstring where "SystemIntPtr = W ''System.IntPtr''"
definition SystemUIntPtr :: wstring where "SystemUIntPtr = W ''System.UIntPtr''"
definition SystemString :: wstring where "SystemString = W ''System.String''"
definition SystemObject :: wstring where "SystemObject = W ''System.Object''"
definition SystemException :: wstring where "SystemException = W ''System.Exception''"
definition SystemType :: wstring where "SystemType = W ''System.Type''"
definition SystemRuntimeTypeHandle :: wstring where
  "SystemRuntimeTypeHandle = W ''System.RuntimeTypeHandle''"
definition SystemReflectionAssembly :: wstring where
  "SystemReflectionAssembly = W ''System.Reflection.Assembly''"
definition GetTypeFromHandle :: wstring where "GetTypeFromHandle = W ''GetTypeFromHandle''"
definition mscorlib :: wstring where "mscorlib = W ''mscorlib''"
definition LoadFrom :: wstring where "LoadFrom = W ''LoadFrom''"
definition ctor :: wstring where "ctor = W ''.ctor''"

section \<open>Log levels\<close>

datatype LogLevel = VERBOSE | DEBUG | INFO | NONE

text \<open>The enumeration's values, by which the levels compare.\<close>

fun level_value :: "LogLevel \<Rightarrow> int" where
  "level_value VERBOSE = 0"
| "level_value DEBUG = 10"
| "level_value INFO = 20"
| "level_value NONE = 10000"

lemma level_value_eq [simp]: "level_value a = level_value b \<longleftrightarrow> a = b"
  by (cases a; cases b) simp_all

instantiation LogLevel :: linorder
begin

definition less_eq_LogLevel :: "LogLevel \<Rightarrow> LogLevel \<Rightarrow> bool" where
  "less_eq_LogLevel a b \<longleftrightarrow> level_value a \<le> level_value b"

definition less_LogLevel :: "LogLevel \<Rightarrow> LogLevel \<Rightarrow> bool" where
  "less_LogLevel a b \<longleftrightarrow> level_value a < level_value b"

instance
  by standard (auto simp: less_eq_LogLevel_def less_LogLevel_def)

end

text \<open>The map from levels to names, in the order \<open>std::map\<close> iterates.\<close>

definition logLevelMap :: "(LogLevel \<times> string) list" where
  "logLevelMap = [(VERBOSE, ''VERBOSE''), (DEBUG, ''DEBUG''), (INFO, ''INFO''), (NONE, ''NONE'')]"

text \<open>\<open>init()\<close>: the least level that is logged, \<open>minLogLevel\<close>.\<close>

definition logging_init :: "(BYTE list \<Rightarrow> BYTE list option) \<Rightarrow> LogLevel" where
  "logging_init getenv =
     (let logLevelEnv = GetEnvironmentValue getenv (map of_char ''PROFILER_LOG_LEVEL'') in
      case find (\<lambda>mo. map of_char (snd mo) = logLevelEnv) logLevelMap of
        Some mo \<Rightarrow> fst mo
      | None \<Rightarrow> INFO)"

definition IsLogLevelEnabled :: "LogLevel \<Rightarrow> LogLevel \<Rightarrow> bool" where
  "IsLogLevelEnabled minLogLevel logLevel \<longleftrightarrow> logLevel \<ge> minLogLevel"

section \<open>The trimming loop\<close>

definition strip_zeros :: "wstring \<Rightarrow> wstring" where
  "strip_zeros str = rev (dropWhile (\<lambda>c. c = 0) (rev str))"

lemma strip_zeros_snoc: "strip_zeros (xs @ [x]) = (if x = 0 then strip_zeros xs else xs @ [x])"
  by (simp add: strip_zeros_def)

lemma drop_zeros_eq:
  "length result < n \<Longrightarrow>
     drop_zeros n result = (if \<exists>c \<in> set result. c \<noteq> 0 then Inr (strip_zeros result) else Inl OutOfBounds)"
proof (induction result arbitrary: n rule: rev_induct)
  case Nil
  then show ?case by (cases n) simp_all
next
  case (snoc x xs)
  then obtain m where "n = Suc m" "length xs < m" by (cases n) auto
  with snoc.IH [of m] show ?case by (auto simp: strip_zeros_snoc)
qed

lemma ToString_eq:
  "0 < len \<Longrightarrow> len \<le> length data \<Longrightarrow>
     ToString data len = (if \<exists>c \<in> set (take len data). c \<noteq> 0 then Inr (strip_zeros (take len data))
       else Inl OutOfBounds)"
  by (cases "data = []") (simp_all add: ToString_def drop_zeros_eq del: drop_zeros.simps)

text \<open>A name as the runtime writes it: the units of the name, then zeros.\<close>

lemma strip_zeros_name: "0 \<notin> set name \<Longrightarrow> strip_zeros (name @ replicate k 0) = name"
  by (induction k) (simp_all add: strip_zeros_snoc replicate_append_same [symmetric],
     cases name rule: rev_cases, simp_all add: strip_zeros_def)

section \<open>Literals\<close>

lemma ascii_bytes:
  assumes "(c :: char32) < 0x80"
  shows "utf8_bytes c = [ucast c]" "utf16_units c = [ucast c]" "code_point c"
  using assms less_trans [of c "0x80" "0x10000"] less_trans [of c "0x80" "0x110000"]
  by (simp_all add: utf8_bytes_def utf8_encode_def utf16_units_def utf16_encode_def code_point_def)

text \<open>The conversion of a string of ASCII bytes widens each of them.\<close>

lemma ToWSTRING_ascii:
  assumes "list_all (\<lambda>b. 0 < b \<and> b < 0x80) str"
  shows "ToWSTRING str = Inr (map ucast str)"
proof -
  let ?ps = "map ucast str :: char32 list"
  have p: "(ucast b :: char32) < 0x80" "ucast (ucast b :: char32) = b" "ucast (ucast b :: char32) = (ucast b :: WCHAR)"
    "(ucast b :: WCHAR) \<noteq> 0"
    if "b \<in> set str" for b :: BYTE
  proof -
    have b: "0 < unat b" "unat b < 128"
      using assms that by (auto simp: list_all_iff word_less_nat_alt)
    then show "(ucast b :: char32) < 0x80" by (simp add: word_less_nat_alt)
    show "ucast (ucast b :: char32) = b" "ucast (ucast b :: char32) = (ucast b :: WCHAR)"
      by (intro bit_word_eqI; auto simp: bit_simps)+
    have "unat (ucast b :: WCHAR) = unat b"
      by (simp add: unsigned_ucast_eq take_bit_nat_eq_self less_trans [OF unsigned_less])
    then show "(ucast b :: WCHAR) \<noteq> 0" using b by (metis less_irrefl unsigned_0)
  qed
  have "concat (map utf8_bytes ?ps) = str"
    using p by (induction str) (simp_all add: ascii_bytes comp_def)
  moreover have "concat (map utf16_units ?ps) = map ucast str"
    using p by (induction str) (simp_all add: ascii_bytes comp_def)
  moreover have "list_all code_point ?ps" using p ascii_bytes(3) by (auto simp: list_all_iff)
  ultimately have "to_utf16 str = Inr (map ucast str)"
    using to_utf16_from_bytes [of ?ps "[]" "[]"] by (simp add: to_utf16_def)
  moreover have "c_str (map ucast str :: wstring) = map ucast str"
    unfolding c_str_def using p(4) by (simp add: takeWhile_eq_all_conv)
  ultimately show ?thesis by (simp add: ToWSTRING_def)
qed

text \<open>A name the runtime reports with its terminator, as the length of a name includes it, is returned without it,
  but for the empty name: there the trimming loop of \<open>ToString\<close> runs past the beginning of the string and reads
  \<open>result[-1]\<close>.\<close>

theorem ToString_name:
  assumes "0 \<notin> set name" and "take (length name + 1) data = name @ [0]"
  shows "ToString data (length name + 1) = (if name = [] then Inl OutOfBounds else Inr name)"
proof -
  have "length name + 1 \<le> length data" using arg_cong [OF assms(2), of length] by simp
  moreover have "strip_zeros (name @ [0]) = name" using strip_zeros_name [OF assms(1), of 1] by simp
  ultimately show ?thesis
    using assms by (subst ToString_eq) (auto simp: neq_Nil_conv)
qed

lemma ToString_name_witness:
  "ToString [0x41, 0x42, 0, 0] 3 = Inr [0x41, 0x42] \<and> ToString [0, 0, 0] 1 = Inl OutOfBounds"
  using ToString_name [of "[0x41, 0x42]" "[0x41, 0x42, 0, 0]"] ToString_name [of "[]" "[0, 0, 0]"]
  by (simp add: numeral_3_eq_3)

end
