(* ===== verification/Metadata.thy ===== *)
theory Metadata
  imports Util TypeParser
begin

text \<open>
  The metadata interfaces of the runtime as the profiler uses them, and the helpers of
  \<^verbatim>\<open>util/helpers.cpp\<close> over them.

  The runtime is a parameter: \<open>'w\<close> is its state, and the record \<open>metadata\<close> holds what the interfaces
  of a module (\<open>IMetaDataEmit2\<close>, \<open>IMetaDataAssemblyEmit\<close>, \<open>IMetaDataImport2\<close>) answer in a state. A
  method that defines something changes the state; its answer is the HRESULT and the value the
  out-parameter then has, whether the method set it or not. A C string argument is what the callee
  sees of it, the units before the first zero.
\<close>

section \<open>The runtime's interfaces\<close>

type_synonym ModuleID = "64 word"
type_synonym AssemblyID = "64 word"
type_synonym AppDomainID = "64 word"
type_synonym FunctionID = "64 word"

text \<open>The members of \<open>ASSEMBLYMETADATA\<close> that are not zero throughout.\<close>

record ASSEMBLYMETADATA =
  usMajorVersion :: USHORT
  usMinorVersion :: USHORT
  usBuildNumber :: USHORT
  usRevisionNumber :: USHORT

type_synonym 'w definer = "'w \<Rightarrow> (HRESULT \<times> mdToken) \<times> 'w"

text \<open>The contents of a name buffer of \<open>MAX_CLASS_NAME\<close> units after a call, and the reported length.\<close>

type_synonym name_buffer = "WCHAR list \<times> nat"

record 'w metadata =
  md_DefineAssemblyRef :: "BYTE list \<Rightarrow> wstring \<Rightarrow> ASSEMBLYMETADATA \<Rightarrow> 'w definer"
  md_DefineTypeRefByName :: "mdToken \<Rightarrow> wstring \<Rightarrow> 'w definer"
  md_DefineTypeDef :: "wstring \<Rightarrow> DWORD \<Rightarrow> mdToken \<Rightarrow> 'w definer"
  md_DefineMethod :: "mdToken \<Rightarrow> wstring \<Rightarrow> DWORD \<Rightarrow> BYTE list \<Rightarrow> ULONG \<Rightarrow> DWORD \<Rightarrow> 'w definer"
  md_DefineMemberRef :: "mdToken \<Rightarrow> wstring \<Rightarrow> BYTE list \<Rightarrow> 'w definer"
  md_DefineUserString :: "wstring \<Rightarrow> 'w definer"
  md_GetTokenFromSig :: "BYTE list \<Rightarrow> 'w definer"
  md_GetTokenFromTypeSpec :: "BYTE list \<Rightarrow> 'w definer"
  md_GetSigFromToken :: "'w \<Rightarrow> mdToken \<Rightarrow> HRESULT \<times> BYTE list"
  md_GetMemberRefProps :: "'w \<Rightarrow> mdToken \<Rightarrow> HRESULT \<times> mdToken \<times> name_buffer \<times> BYTE list"
  md_GetMemberProps :: "'w \<Rightarrow> mdToken \<Rightarrow> HRESULT \<times> mdToken \<times> name_buffer \<times> BYTE list"
  md_GetMethodSpecProps :: "'w \<Rightarrow> mdToken \<Rightarrow> HRESULT \<times> mdToken \<times> BYTE list"
  md_GetMethodProps :: "'w \<Rightarrow> mdToken \<Rightarrow> HRESULT \<times> mdToken"
  md_GetTypeDefProps :: "'w \<Rightarrow> mdToken \<Rightarrow> HRESULT \<times> name_buffer"
  md_GetTypeRefProps :: "'w \<Rightarrow> mdToken \<Rightarrow> HRESULT \<times> name_buffer"
  md_GetModuleRefProps :: "'w \<Rightarrow> mdToken \<Rightarrow> HRESULT \<times> name_buffer"
  md_GetTypeSpecFromToken :: "'w \<Rightarrow> mdToken \<Rightarrow> HRESULT \<times> BYTE list"
  md_CustomAttributes :: "'w \<Rightarrow> mdToken \<Rightarrow> mdToken list"
  md_GetCustomAttributeProps :: "'w \<Rightarrow> mdToken \<Rightarrow> mdToken"

section \<open>Assembly references\<close>

definition CreateAssemblyRef ::
  "'w metadata \<Rightarrow> BYTE list \<Rightarrow> ASSEMBLYMETADATA \<Rightarrow> wstring \<Rightarrow> 'w definer" where
  "CreateAssemblyRef md public_key metadata assemblyName =
     md_DefineAssemblyRef md public_key (c_str assemblyName) metadata"

definition GetMsCorLibRef :: "'w metadata \<Rightarrow> 'w definer" where
  "GetMsCorLibRef md =
     (let metadata = \<lparr>usMajorVersion = 4, usMinorVersion = 0, usBuildNumber = 0, usRevisionNumber = 0\<rparr> in
      CreateAssemblyRef md [0xB7, 0x7A, 0x5C, 0x56, 0x19, 0x34, 0xE0, 0x89] metadata mscorlib)"

definition GetWrapperRef :: "'w metadata \<Rightarrow> wstring \<Rightarrow> 'w definer" where
  "GetWrapperRef md assemblyName =
     (let metadata = \<lparr>usMajorVersion = 1, usMinorVersion = 0, usBuildNumber = 0, usRevisionNumber = 0\<rparr> in
      CreateAssemblyRef md [] metadata assemblyName)"

section \<open>The token of a type\<close>

text \<open>The name \<open>GetTypeToken\<close> refers to for an element type, the first part of its switch.\<close>

definition type_token_name :: "BYTE \<Rightarrow> wstring option" where
  "type_token_name b =
     (if b = ELEMENT_TYPE_BOOLEAN then Some SystemBoolean
      else if b = ELEMENT_TYPE_CHAR then Some SystemChar
      else if b = ELEMENT_TYPE_I1 then Some SystemByte
      else if b = ELEMENT_TYPE_U1 then Some SystemSByte
      else if b = ELEMENT_TYPE_U2 then Some SystemUInt16
      else if b = ELEMENT_TYPE_I2 then Some SystemInt16
      else if b = ELEMENT_TYPE_I4 then Some SystemInt32
      else if b = ELEMENT_TYPE_U4 then Some SystemUInt32
      else if b = ELEMENT_TYPE_I8 then Some SystemInt64
      else if b = ELEMENT_TYPE_U8 then Some SystemUInt64
      else if b = ELEMENT_TYPE_R4 then Some SystemSingle
      else if b = ELEMENT_TYPE_R8 then Some SystemDouble
      else if b = ELEMENT_TYPE_I then Some SystemIntPtr
      else if b = ELEMENT_TYPE_U then Some SystemUIntPtr
      else if b = ELEMENT_TYPE_STRING then Some SystemString
      else if b = ELEMENT_TYPE_OBJECT then Some SystemObject
      else None)"

definition GetTypeToken :: "'w metadata \<Rightarrow> mdToken \<Rightarrow> BYTE list \<Rightarrow> 'w \<Rightarrow> (mdToken \<times> 'w) outcome" where
  "GetTypeToken md mscorlibRef ty w =
     bindO (peek_byte ty) (\<lambda>b0.
     bindO (if b0 = ELEMENT_TYPE_BYREF then advance 1 ty else Inr ty) (\<lambda>iter.
     bindO (peek_byte iter) (\<lambda>b.
     case type_token_name b of
       Some name \<Rightarrow>
         (case md_DefineTypeRefByName md mscorlibRef (c_str name) w of ((hr, token), w) \<Rightarrow> Inr (token, w))
     | None \<Rightarrow>
         if b = ELEMENT_TYPE_CLASS \<or> b = ELEMENT_TYPE_VALUETYPE then
           bindO (advance 1 iter) (\<lambda>temp.
           bindO (CorSigUncompressTokenRef temp) (\<lambda>(token, _). Inr (token, w)))
         else if b \<in> {ELEMENT_TYPE_GENERICINST, ELEMENT_TYPE_SZARRAY, ELEMENT_TYPE_MVAR, ELEMENT_TYPE_VAR} then
           (case md_GetTokenFromTypeSpec md iter w of ((hr, token), w) \<Rightarrow> Inr (token, w))
         else Inr (mdTokenNil, w))))"

text \<open>The names of \<^verbatim>\<open>const.h\<close> contain no zero.\<close>

lemma c_str_names [simp]:
  "c_str SystemBoolean = SystemBoolean" "c_str SystemChar = SystemChar" "c_str SystemByte = SystemByte"
  "c_str SystemSByte = SystemSByte" "c_str SystemUInt16 = SystemUInt16" "c_str SystemInt16 = SystemInt16"
  "c_str SystemInt32 = SystemInt32" "c_str SystemUInt32 = SystemUInt32" "c_str SystemInt64 = SystemInt64"
  "c_str SystemUInt64 = SystemUInt64" "c_str SystemSingle = SystemSingle" "c_str SystemDouble = SystemDouble"
  "c_str SystemIntPtr = SystemIntPtr" "c_str SystemUIntPtr = SystemUIntPtr" "c_str SystemString = SystemString"
  "c_str SystemObject = SystemObject" "c_str SystemException = SystemException" "c_str SystemType = SystemType"
  "c_str SystemRuntimeTypeHandle = SystemRuntimeTypeHandle"
  "c_str SystemReflectionAssembly = SystemReflectionAssembly" "c_str mscorlib = mscorlib"
  "c_str LoadFrom = LoadFrom" "c_str ctor = ctor"
  by (simp_all add: c_str_def W_def SystemBoolean_def SystemChar_def SystemByte_def SystemSByte_def
      SystemUInt16_def SystemInt16_def SystemInt32_def SystemUInt32_def SystemInt64_def SystemUInt64_def
      SystemSingle_def SystemDouble_def SystemIntPtr_def SystemUIntPtr_def SystemString_def SystemObject_def
      SystemException_def SystemType_def SystemRuntimeTypeHandle_def SystemReflectionAssembly_def
      mscorlib_def LoadFrom_def ctor_def)

text \<open>By reference or not, the token is that of the type itself.\<close>

lemma GetTypeToken_byref:
  "b \<noteq> ELEMENT_TYPE_BYREF \<Longrightarrow>
     GetTypeToken md r (ELEMENT_TYPE_BYREF # b # ty) w = GetTypeToken md r (b # ty) w"
  by (simp add: GetTypeToken_def peek_byte_def advance_def)

text \<open>The token of a class or value type is read from the signature, without touching the metadata.\<close>

lemma GetTypeToken_named:
  assumes "k \<in> {ELEMENT_TYPE_CLASS, ELEMENT_TYPE_VALUETYPE}"
  shows "GetTypeToken md r (k # bs) w = bindO (CorSigUncompressTokenRef bs) (\<lambda>(tk, _). Inr (tk, w))"
proof -
  have "type_token_name k = None" "k \<noteq> ELEMENT_TYPE_BYREF"
    using assms by (auto simp: type_token_name_def element_types)
  then show ?thesis using assms by (simp add: GetTypeToken_def peek_byte_def advance_def)
qed

end
