(* ===== verification/RewriterHelper.thy ===== *)
theory RewriterHelper
  imports Metadata ILLayout
begin

text \<open>
  \<open>ILRewriterHelper\<close> (\<^verbatim>\<open>rewriter/ILRewriterHelper.cpp\<close>): creates instructions and inserts them before a
  position of the rewriter's list.

  \<open>emits\<close> is what each of the methods promises: wherever the helper stands, the method completes and
  puts its instructions, freshly created, right before the position, in order, and changes nothing else
  but the bound on the stack. The promise composes, so the code of a sequence of calls is the
  concatenation of what each emits.
\<close>

unbundle bit_operations_syntax

section \<open>The helper\<close>

text \<open>\<open>_rewriter\<close> is the rewriter's state, \<open>_instr\<close> the position.\<close>

record ILRewriterHelper =
  h_rewriter :: ILRewriter
  h_instr :: addr

definition ILRewriterHelper_new :: "ILRewriter \<Rightarrow> ILRewriterHelper" where
  "ILRewriterHelper_new \<sigma> = \<lparr>h_rewriter = \<sigma>, h_instr = NULL\<rparr>"

definition SetILPosition :: "addr \<Rightarrow> ILRewriterHelper \<Rightarrow> ILRewriterHelper" where
  "SetILPosition p h = h\<lparr>h_instr := p\<rparr>"

text \<open>\<open>NewILInstr\<close> and the assignments of the opcode and, for some, of a member of the union.\<close>

definition create_instr :: "OPCODE \<Rightarrow> ILArg option \<Rightarrow> ILRewriter \<Rightarrow> (addr \<times> ILRewriter) outcome" where
  "create_instr op arg \<sigma> =
     (case NewILInstr \<sigma> of (pNewInstr, \<sigma>) \<Rightarrow>
        bindO (store_instr \<sigma> pNewInstr (\<lambda>i. i\<lparr>m_opcode := op\<rparr>)) (\<lambda>\<sigma>.
        bindO (case arg of None \<Rightarrow> Inr \<sigma> | Some a \<Rightarrow> store_instr \<sigma> pNewInstr (\<lambda>i. i\<lparr>m_arg := a\<rparr>)) (\<lambda>\<sigma>.
          Inr (pNewInstr, \<sigma>))))"

definition emit :: "OPCODE \<Rightarrow> ILArg option \<Rightarrow> ILRewriterHelper \<Rightarrow> (addr \<times> ILRewriterHelper) outcome" where
  "emit op arg h =
     bindO (create_instr op arg (h_rewriter h)) (\<lambda>(pNewInstr, \<sigma>).
     bindO (InsertBefore \<sigma> (h_instr h) pNewInstr) (\<lambda>\<sigma>.
       Inr (pNewInstr, h\<lparr>h_rewriter := \<sigma>\<rparr>)))"

text \<open>The methods without a result.\<close>

definition emit_void :: "OPCODE \<Rightarrow> ILArg option \<Rightarrow> ILRewriterHelper \<Rightarrow> ILRewriterHelper outcome" where
  "emit_void op arg h = bindO (emit op arg h) (\<lambda>(_, h). Inr h)"

section \<open>The emitters\<close>

definition StLocal :: "32 word \<Rightarrow> ILRewriterHelper \<Rightarrow> (addr \<times> ILRewriterHelper) outcome" where
  "StLocal index h =
     (let opcodes = [CEE_STLOC_0, CEE_STLOC_1, CEE_STLOC_2, CEE_STLOC_3] in
      if index \<le> 3 then emit (opcodes ! unat index) None h
      else if index \<le> 255 then emit CEE_STLOC_S (Some (m_Arg8 (ucast index))) h
      else emit CEE_STLOC (Some (m_Arg16 (ucast index))) h)"

definition LoadInt32 :: "INT32 \<Rightarrow> ILRewriterHelper \<Rightarrow> (addr \<times> ILRewriterHelper) outcome" where
  "LoadInt32 value h =
     (let opcodes = [CEE_LDC_I4_0, CEE_LDC_I4_1, CEE_LDC_I4_2, CEE_LDC_I4_3, CEE_LDC_I4_4, CEE_LDC_I4_5,
                     CEE_LDC_I4_6, CEE_LDC_I4_7, CEE_LDC_I4_8] in
      if sint value \<ge> 0 \<and> sint value \<le> 8 then emit (opcodes ! nat (sint value)) None h
      else if sint value = -1 then emit CEE_LDC_I4_M1 None h
      else if -128 \<le> sint value \<and> sint value \<le> 127 then emit CEE_LDC_I4_S (Some (m_Arg8 (ucast value))) h
      else emit CEE_LDC_I4 (Some (m_Arg32 value)) h)"

definition CreateArray :: "mdToken \<Rightarrow> INT32 \<Rightarrow> ILRewriterHelper \<Rightarrow> ILRewriterHelper outcome" where
  "CreateArray typeRef n h =
     bindO (if sint n > 0 then bindO (LoadInt32 n h) (\<lambda>(_, h). Inr h) else Inr h) (\<lambda>h.
       emit_void CEE_NEWARR (Some (m_Arg32 typeRef)) h)"

definition Duplicate :: "ILRewriterHelper \<Rightarrow> ILRewriterHelper outcome" where
  "Duplicate h = emit_void CEE_DUP None h"

definition LoadInt64 :: "INT64 \<Rightarrow> ILRewriterHelper \<Rightarrow> ILRewriterHelper outcome" where
  "LoadInt64 value h = emit_void CEE_LDC_I8 (Some (m_Arg64 value)) h"

definition BeginLoadValueIntoArray :: "INT32 \<Rightarrow> ILRewriterHelper \<Rightarrow> ILRewriterHelper outcome" where
  "BeginLoadValueIntoArray arrayIndex h =
     bindO (Duplicate h) (\<lambda>h. bindO (LoadInt32 arrayIndex h) (\<lambda>(_, h). Inr h))"

definition LoadArgument :: "16 word \<Rightarrow> ILRewriterHelper \<Rightarrow> ILRewriterHelper outcome" where
  "LoadArgument index h =
     (let opcodes = [CEE_LDARG_0, CEE_LDARG_1, CEE_LDARG_2, CEE_LDARG_3] in
      if index \<ge> 0 \<and> index \<le> 3 then emit_void (opcodes ! unat index) None h
      else if index \<le> 255 then emit_void CEE_LDARG_S (Some (m_Arg8 (ucast index))) h
      else emit_void CEE_LDARG (Some (m_Arg16 index)) h)"

definition EndLoadValueIntoArray :: "ILRewriterHelper \<Rightarrow> ILRewriterHelper outcome" where
  "EndLoadValueIntoArray h = emit_void CEE_STELEM_REF None h"

definition CallMember :: "mdToken \<Rightarrow> bool \<Rightarrow> ILRewriterHelper \<Rightarrow> ILRewriterHelper outcome" where
  "CallMember memberRef isVirtual h =
     emit_void (if isVirtual then CEE_CALLVIRT else CEE_CALL) (Some (m_Arg32 memberRef)) h"

definition Cast :: "mdToken \<Rightarrow> ILRewriterHelper \<Rightarrow> ILRewriterHelper outcome" where
  "Cast typeRef h = emit_void CEE_CASTCLASS (Some (m_Arg32 typeRef)) h"

definition LoadLocal :: "32 word \<Rightarrow> ILRewriterHelper \<Rightarrow> (addr \<times> ILRewriterHelper) outcome" where
  "LoadLocal index h =
     (let opcodes = [CEE_LDLOC_0, CEE_LDLOC_1, CEE_LDLOC_2, CEE_LDLOC_3] in
      if index \<le> 3 then emit (opcodes ! unat index) None h
      else if index \<le> 255 then emit CEE_LDLOC_S (Some (m_Arg8 (ucast index))) h
      else emit CEE_LDLOC (Some (m_Arg16 (ucast index))) h)"

definition LoadLocalAddress :: "32 word \<Rightarrow> ILRewriterHelper \<Rightarrow> ILRewriterHelper outcome" where
  "LoadLocalAddress index h =
     (if index \<le> 255 then emit_void CEE_LDLOCA_S (Some (m_Arg8 (ucast index))) h
      else emit_void CEE_LDLOCA (Some (m_Arg16 (ucast index))) h)"

definition NewObject :: "mdToken \<Rightarrow> ILRewriterHelper \<Rightarrow> ILRewriterHelper outcome" where
  "NewObject token h = emit_void CEE_NEWOBJ (Some (m_Arg32 token)) h"

definition Pop :: "ILRewriterHelper \<Rightarrow> ILRewriterHelper outcome" where
  "Pop h = emit_void CEE_POP None h"

definition Ret :: "ILRewriterHelper \<Rightarrow> ILRewriterHelper outcome" where
  "Ret h = emit_void CEE_RET None h"

definition LoadStr :: "mdToken \<Rightarrow> ILRewriterHelper \<Rightarrow> ILRewriterHelper outcome" where
  "LoadStr token h = emit_void CEE_LDSTR (Some (m_Arg32 token)) h"

definition Box :: "mdToken \<Rightarrow> ILRewriterHelper \<Rightarrow> ILRewriterHelper outcome" where
  "Box token h = emit_void CEE_BOX (Some (m_Arg32 token)) h"

definition ldind_opcode :: "BYTE \<Rightarrow> OPCODE" where
  "ldind_opcode typeDef =
     (if typeDef = ELEMENT_TYPE_I1 then CEE_LDIND_I1
      else if typeDef \<in> {ELEMENT_TYPE_BOOLEAN, ELEMENT_TYPE_U1} then CEE_LDIND_U1
      else if typeDef = ELEMENT_TYPE_I2 then CEE_LDIND_I2
      else if typeDef \<in> {ELEMENT_TYPE_CHAR, ELEMENT_TYPE_U2} then CEE_LDIND_U2
      else if typeDef = ELEMENT_TYPE_I4 then CEE_LDIND_I4
      else if typeDef = ELEMENT_TYPE_U4 then CEE_LDIND_U4
      else if typeDef = ELEMENT_TYPE_I8 then CEE_LDIND_I8
      else if typeDef = ELEMENT_TYPE_U8 then CEE_LDIND_I8
      else if typeDef = ELEMENT_TYPE_R4 then CEE_LDIND_R4
      else if typeDef = ELEMENT_TYPE_R8 then CEE_LDIND_R8
      else if typeDef \<in> {ELEMENT_TYPE_PTR, ELEMENT_TYPE_FNPTR, ELEMENT_TYPE_I, ELEMENT_TYPE_U} then CEE_LDIND_I
      else if typeDef \<in> {ELEMENT_TYPE_STRING, ELEMENT_TYPE_CLASS, ELEMENT_TYPE_ARRAY, ELEMENT_TYPE_SZARRAY,
                          ELEMENT_TYPE_OBJECT, ELEMENT_TYPE_INTERNAL} then CEE_LDIND_REF
      else 0)"

definition LoadInd :: "BYTE \<Rightarrow> ILRewriterHelper \<Rightarrow> ILRewriterHelper outcome" where
  "LoadInd typeDef h =
     (let opCode = ldind_opcode typeDef in if opCode > 0 then emit_void opCode None h else Inr h)"

definition stind_opcode :: "BYTE \<Rightarrow> OPCODE" where
  "stind_opcode typeDef =
     (if typeDef \<in> {ELEMENT_TYPE_I1, ELEMENT_TYPE_BOOLEAN, ELEMENT_TYPE_U1} then CEE_STIND_I1
      else if typeDef \<in> {ELEMENT_TYPE_I2, ELEMENT_TYPE_CHAR, ELEMENT_TYPE_U2} then CEE_STIND_I2
      else if typeDef \<in> {ELEMENT_TYPE_I4, ELEMENT_TYPE_U4} then CEE_STIND_I4
      else if typeDef \<in> {ELEMENT_TYPE_I8, ELEMENT_TYPE_U8} then CEE_STIND_I8
      else if typeDef = ELEMENT_TYPE_R4 then CEE_STIND_R4
      else if typeDef = ELEMENT_TYPE_R8 then CEE_STIND_R8
      else if typeDef \<in> {ELEMENT_TYPE_PTR, ELEMENT_TYPE_FNPTR, ELEMENT_TYPE_I, ELEMENT_TYPE_U} then CEE_STIND_I
      else if typeDef \<in> {ELEMENT_TYPE_STRING, ELEMENT_TYPE_CLASS, ELEMENT_TYPE_ARRAY, ELEMENT_TYPE_SZARRAY,
                          ELEMENT_TYPE_OBJECT, ELEMENT_TYPE_INTERNAL} then CEE_STIND_REF
      else 0)"

definition StInd :: "BYTE \<Rightarrow> ILRewriterHelper \<Rightarrow> ILRewriterHelper outcome" where
  "StInd typeDef h =
     (let opCode = stind_opcode typeDef in if opCode > 0 then emit_void opCode None h else Inr h)"

definition BrTrueS :: "ILRewriterHelper \<Rightarrow> (addr \<times> ILRewriterHelper) outcome" where
  "BrTrueS h = emit CEE_BRTRUE_S None h"

definition BrFalseS :: "ILRewriterHelper \<Rightarrow> (addr \<times> ILRewriterHelper) outcome" where
  "BrFalseS h = emit CEE_BRFALSE_S None h"

definition BrS :: "ILRewriterHelper \<Rightarrow> (addr \<times> ILRewriterHelper) outcome" where
  "BrS h = emit CEE_BR_S None h"

definition Nop :: "ILRewriterHelper \<Rightarrow> (addr \<times> ILRewriterHelper) outcome" where
  "Nop h = emit CEE_NOP None h"

definition LoadNull :: "ILRewriterHelper \<Rightarrow> (addr \<times> ILRewriterHelper) outcome" where
  "LoadNull h = emit CEE_LDNULL None h"

definition CgtUn :: "ILRewriterHelper \<Rightarrow> (addr \<times> ILRewriterHelper) outcome" where
  "CgtUn h = emit CEE_CGT_UN None h"

definition Throw :: "ILRewriterHelper \<Rightarrow> (addr \<times> ILRewriterHelper) outcome" where
  "Throw h = emit CEE_THROW None h"

text \<open>\<open>UnboxAny\<close> creates its instruction and does not insert it.\<close>

definition UnboxAny :: "mdToken \<Rightarrow> ILRewriterHelper \<Rightarrow> ILRewriterHelper outcome" where
  "UnboxAny typeRef h =
     bindO (create_instr CEE_UNBOX_ANY (Some (m_Arg32 typeRef)) (h_rewriter h)) (\<lambda>(_, \<sigma>).
       Inr (h\<lparr>h_rewriter := \<sigma>\<rparr>))"

section \<open>Local variables\<close>

text \<open>The bytes \<open>compressedToken\<close> to \<open>compressedToken + newLength\<close> of a buffer of 10: a length of -1
  reads past it.\<close>

definition compressed :: "ULONG \<times> BYTE list \<Rightarrow> BYTE list outcome" where
  "compressed c = (case c of (len, bs) \<Rightarrow> if unat len \<le> length bs then Inr (take (unat len) bs) else Inl OutOfBounds)"

text \<open>The new local signature and the index of the added variable.\<close>

definition added_local_signature ::
  "BYTE list option \<Rightarrow> mdToken \<Rightarrow> (BYTE list \<times> INT32) outcome" where
  "added_local_signature original typeRef =
     bindO (case original of
        Some originalSignature \<Rightarrow>
          bindO (advance 1 originalSignature) (\<lambda>iter.
          bindO (ParseNumber iter) (\<lambda>(_, n, iter).
          let originalVariablesCount = n + 1 in
          bindO (compressed (CorSigCompressData originalVariablesCount)) (\<lambda>count.
            Inr ([IMAGE_CEE_CS_CALLCONV_LOCAL_SIG] @ count @ iter, originalVariablesCount - 1))))
      | None \<Rightarrow>
          bindO (compressed (CorSigCompressData 1)) (\<lambda>count.
            Inr ([IMAGE_CEE_CS_CALLCONV_LOCAL_SIG] @ count, 0))) (\<lambda>(signature, newIndex).
     bindO (compressed (CorSigCompressToken typeRef)) (\<lambda>ty.
       Inr (signature @ [ELEMENT_TYPE_CLASS] @ ty, newIndex)))"

text \<open>(HRESULT, \<open>newIndex\<close> unless the call failed before it was set, helper, runtime).
  \<open>module_metadata\<close> is the answer to \<open>GetModuleMetaData\<close>.\<close>

definition AddLocalVariable ::
  "HRESULT \<times> 'w metadata \<Rightarrow> mdToken \<Rightarrow> ILRewriterHelper \<Rightarrow> 'w
    \<Rightarrow> (HRESULT \<times> INT32 option \<times> ILRewriterHelper \<times> 'w) outcome" where
  "AddLocalVariable module_metadata typeRef h w =
     (case module_metadata of (hr, md) \<Rightarrow>
        if FAILED hr then Inr (hr, None, h, w)
        else
          let tk = GetTkLocalVarSig (h_rewriter h) in
          case (if tk \<noteq> mdTokenNil then map_prod id Some (md_GetSigFromToken md w tk) else (S_OK, None)) of
            (hr, original) \<Rightarrow>
              if FAILED hr then Inr (hr, None, h, w)
              else
                bindO (added_local_signature original typeRef) (\<lambda>(signature, newIndex).
                case md_GetTokenFromSig md signature w of ((hr, newSigToken), w) \<Rightarrow>
                  Inr (S_OK, Some newIndex, h\<lparr>h_rewriter := SetTkLocalVarSig (h_rewriter h) newSigToken\<rparr>, w)))"

section \<open>What an emitter promises\<close>

definition helper_at :: "ILRewriterHelper \<Rightarrow> addr list \<Rightarrow> addr list \<Rightarrow> bool" where
  "helper_at h as bs \<longleftrightarrow> holds (h_rewriter h) (as @ bs) \<and> h_instr h = hd (bs @ [IL])"

text \<open>The members of the rewriter an emitter leaves alone.\<close>

definition header_of :: "ILRewriter \<Rightarrow> bool \<times> mdToken \<times> 32 word \<times> bool \<times> 32 word \<times> EHClause list \<times> addr list \<times> 32 word" where
  "header_of \<sigma> = (m_fRejit \<sigma>, m_tkLocalVarSig \<sigma>, m_flags \<sigma>, m_fGenerateTinyHeader \<sigma>, m_nEH \<sigma>, m_pEH \<sigma>,
     m_pOffsetToInstr \<sigma>, m_CodeSize \<sigma>)"

type_synonym il_code = "(OPCODE \<times> ILArg) list"

definition pushed :: "OPCODE \<Rightarrow> 32 word" where
  "pushed op = (case StackPushes op of Inl _ \<Rightarrow> 0 | Inr k \<Rightarrow> k)"

definition stack_growth :: "il_code \<Rightarrow> 32 word" where
  "stack_growth code = sum_list (map (pushed \<circ> fst) code)"

lemma stack_growth_simps [simp]:
  "stack_growth [] = 0" "stack_growth (i # c) = pushed (fst i) + stack_growth c"
  "stack_growth (c @ d) = stack_growth c + stack_growth d"
  by (simp_all add: stack_growth_def)

definition emitted :: "ILRewriterHelper \<Rightarrow> addr list \<Rightarrow> addr list \<Rightarrow> addr list \<Rightarrow> il_code \<Rightarrow> ILRewriterHelper \<Rightarrow> bool" where
  "emitted h as bs ps code h' \<longleftrightarrow>
     helper_at h' (as @ ps) bs \<and> h_instr h' = h_instr h \<and>
     header_of (h_rewriter h') = header_of (h_rewriter h) \<and>
     m_maxStack (h_rewriter h') = m_maxStack (h_rewriter h) + stack_growth code \<and>
     set ps \<inter> dom (heap (h_rewriter h)) = {} \<and>
     map (content_of (heap (h_rewriter h'))) ps = map (\<lambda>(op, a). Some (op, 0, a)) code \<and>
     (\<forall>a \<in> dom (heap (h_rewriter h)). content_of (heap (h_rewriter h')) a = content_of (heap (h_rewriter h)) a)"

definition emits :: "(ILRewriterHelper \<Rightarrow> ILRewriterHelper outcome) \<Rightarrow> il_code \<Rightarrow> bool" where
  "emits f code \<longleftrightarrow>
     (\<forall>h as bs. helper_at h as bs \<longrightarrow> (\<exists>h' ps. f h = Inr h' \<and> emitted h as bs ps code h'))"

lemma emitsI:
  "(\<And>h as bs. helper_at h as bs \<Longrightarrow> \<exists>h' ps. f h = Inr h' \<and> emitted h as bs ps code h') \<Longrightarrow> emits f code"
  unfolding emits_def by blast

lemma emitsE:
  assumes "emits f code" and "helper_at h as bs"
  obtains h' ps where "f h = Inr h'" "emitted h as bs ps code h'"
  using assms unfolding emits_def by blast

named_theorems emit_rules \<open>the code each method of the helper emits\<close>

lemma emits_Inr [emit_rules]: "emits Inr []"
  by (rule emitsI) (auto simp: emitted_def intro!: exI [of _ "[]"])

lemma content_dom: "content_of h a \<noteq> None \<longleftrightarrow> a \<in> dom h"
  by (auto simp: content_of_def)

lemma emitted_trans:
  assumes 1: "emitted h as bs ps c h1" and 2: "emitted h1 (as @ ps) bs qs d h2"
  shows "emitted h as bs (ps @ qs) (c @ d) h2"
proof -
  let ?c = "\<lambda>h. content_of (heap (h_rewriter h))"
  have keep1: "?c h1 a = ?c h a" if "a \<in> dom (heap (h_rewriter h))" for a
    using 1 that by (simp add: emitted_def)
  have dom: "dom (heap (h_rewriter h)) \<subseteq> dom (heap (h_rewriter h1))"
    using keep1 by (metis content_dom subsetI)
  have keep2: "?c h2 a = ?c h1 a" if "a \<in> dom (heap (h_rewriter h1))" for a
    using 2 that by (simp add: emitted_def)
  have c: "map (?c h1) ps = map (\<lambda>(op, a). Some (op, 0, a)) c" using 1 by (simp add: emitted_def)
  have "set ps \<subseteq> dom (heap (h_rewriter h1))"
  proof
    fix p assume "p \<in> set ps"
    then have "?c h1 p \<in> set (map (\<lambda>(op, a). Some (op, 0, a)) c)" unfolding c [symmetric] by simp
    then show "p \<in> dom (heap (h_rewriter h1))" unfolding content_dom [symmetric] by auto
  qed
  then have "map (?c h2) ps = map (?c h1) ps" using keep2 by auto
  then have code: "map (?c h2) (ps @ qs) = map (\<lambda>(op, a). Some (op, 0, a)) (c @ d)"
    using c 2 by (simp add: emitted_def)
  have keep: "\<forall>a \<in> dom (heap (h_rewriter h)). ?c h2 a = ?c h a"
    by (intro ballI) (simp only: keep1 keep2 [OF subsetD [OF dom]])
  have "set (ps @ qs) \<inter> dom (heap (h_rewriter h)) = {}" using 1 2 dom by (auto simp: emitted_def)
  with code keep 1 2 show ?thesis by (simp add: emitted_def add.assoc)
qed

lemma emits_bind:
  assumes "emits f c" and "emits g d"
  shows "emits (\<lambda>h. bindO (f h) g) (c @ d)"
proof (rule emitsI)
  fix h as bs assume "helper_at h as bs"
  with assms(1) obtain h1 ps where 1: "f h = Inr h1" "emitted h as bs ps c h1" by (rule emitsE)
  then have "helper_at h1 (as @ ps) bs" by (simp add: emitted_def)
  with assms(2) obtain h2 qs where "g h1 = Inr h2" "emitted h1 (as @ ps) bs qs d h2" by (rule emitsE)
  with 1 show "\<exists>h' ps. bindO (f h) g = Inr h' \<and> emitted h as bs ps (c @ d) h'"
    using emitted_trans by fastforce
qed

text \<open>A call whose result, the new instruction, is dropped.\<close>

abbreviation drop_result :: "(addr \<times> ILRewriterHelper) outcome \<Rightarrow> ILRewriterHelper outcome" where
  "drop_result m \<equiv> bindO m (\<lambda>(_, h). Inr h)"

definition plain :: "OPCODE \<Rightarrow> OPCODE \<times> ILArg" where
  "plain op = (op, m_pTarget NULL)"

definition with_arg :: "OPCODE \<Rightarrow> ILArg option \<Rightarrow> OPCODE \<times> ILArg" where
  "with_arg op arg = (op, case arg of None \<Rightarrow> m_pTarget NULL | Some a \<Rightarrow> a)"

lemma with_arg_simps [simp]: "with_arg op None = plain op" "with_arg op (Some a) = (op, a)"
  by (simp_all add: with_arg_def plain_def)

lemma create_instr_eq:
  assumes "holds \<sigma> xs"
  obtains p \<sigma>' where "create_instr op arg \<sigma> = Inr (p, \<sigma>')" "holds \<sigma>' xs" "p \<notin> set (IL # xs)" "heap \<sigma> p = None"
    "content_of (heap \<sigma>') = (content_of (heap \<sigma>))(p \<mapsto> (op, 0, snd (with_arg op arg)))"
    "header_of \<sigma>' = header_of \<sigma>" "m_maxStack \<sigma>' = m_maxStack \<sigma>"
proof -
  obtain p \<sigma>1 where new: "NewILInstr \<sigma> = (p, \<sigma>1)" by (cases "NewILInstr \<sigma>")
  note n = NewILInstr_holds [OF assms new]
  let ?z = "\<lparr>m_pNext = NULL, m_pPrev = NULL, m_opcode = 0, m_offset = 0, m_arg = m_pTarget NULL\<rparr>"
  let ?f = "\<lambda>i. i\<lparr>m_opcode := op, m_arg := snd (with_arg op arg)\<rparr>"
  let ?\<sigma> = "\<sigma>1\<lparr>heap := (heap \<sigma>1)(p \<mapsto> ?f ?z)\<rparr>"
  have z: "heap \<sigma>1 p = Some ?z" by (simp add: n(4))
  have fresh: "heap \<sigma> p = None" using assms n(3) by (auto simp: holds_def dom_def subset_iff)
  have "create_instr op arg \<sigma> = Inr (p, ?\<sigma>)"
    by (cases arg) (simp_all add: create_instr_def new z with_arg_def)
  moreover have "holds ?\<sigma> xs" by (rule store_content(2) [OF n(1) z]) simp_all
  moreover have "content_of (heap ?\<sigma>) = (content_of (heap \<sigma>))(p \<mapsto> (op, 0, snd (with_arg op arg)))"
    by (simp add: content_of_upd n(4))
  moreover have "header_of ?\<sigma> = header_of \<sigma>" "m_maxStack ?\<sigma> = m_maxStack \<sigma>"
    using new by (auto simp: NewILInstr_def header_of_def)
  ultimately show thesis using that n(2) fresh by blast
qed

lemma emits_emit_void:
  assumes "op < CEE_COUNT"
  shows "emits (emit_void op arg) [with_arg op arg]"
proof (rule emitsI)
  fix h as bs assume at: "helper_at h as bs"
  then have "holds (h_rewriter h) (as @ bs)" by (simp add: helper_at_def)
  then obtain p \<sigma> where c: "create_instr op arg (h_rewriter h) = Inr (p, \<sigma>)" "holds \<sigma> (as @ bs)"
    "p \<notin> set (IL # as @ bs)" "heap (h_rewriter h) p = None"
    "content_of (heap \<sigma>) = (content_of (heap (h_rewriter h)))(p \<mapsto> (op, 0, snd (with_arg op arg)))"
    "header_of \<sigma> = header_of (h_rewriter h)" "m_maxStack \<sigma> = m_maxStack (h_rewriter h)"
    by (rule create_instr_eq)
  have "content_of (heap \<sigma>) p = Some (op, 0, snd (with_arg op arg))" by (simp add: c(5))
  then obtain i where i: "heap \<sigma> p = Some i" "m_opcode i = op" by (auto simp: content_of_Some)
  then have "insertable \<sigma> (as @ bs) p" using c(3) assms by (simp add: insertable_def)
  then obtain \<sigma>' where s: "InsertBefore \<sigma> (hd (bs @ [IL])) p = Inr \<sigma>'" "holds \<sigma>' (as @ p # bs)" "inserted \<sigma> p \<sigma>'"
    using insert_refines [OF c(2)] by blast
  let ?h = "h\<lparr>h_rewriter := \<sigma>'\<rparr>"
  have "emit_void op arg h = Inr ?h"
    using at c(1) s(1) by (simp add: emit_void_def emit_def helper_at_def)
  moreover have "content_of (heap \<sigma>') = content_of (heap \<sigma>)" using s(3) by (simp add: inserted_def)
  moreover have "header_of \<sigma>' = header_of \<sigma>" "m_maxStack \<sigma>' = m_maxStack \<sigma> + pushes \<sigma> p"
  proof -
    have e: "\<sigma>' = \<sigma>\<lparr>heap := heap \<sigma>', m_maxStack := m_maxStack \<sigma> + pushes \<sigma> p\<rparr>"
      using s(3) unfolding inserted_def by (elim conjE)
    show "header_of \<sigma>' = header_of \<sigma>" by (subst e) (simp add: header_of_def)
    show "m_maxStack \<sigma>' = m_maxStack \<sigma> + pushes \<sigma> p" by (subst e) simp
  qed
  moreover have "pushes \<sigma> p = pushed op" by (simp add: pushes_def pushed_def i)
  ultimately have "emitted h as bs [p] [with_arg op arg] ?h"
    using at s(2) c(4-7) by (auto simp: emitted_def helper_at_def with_arg_def)
  with \<open>emit_void op arg h = Inr ?h\<close> show "\<exists>h' ps. emit_void op arg h = Inr h' \<and> emitted h as bs ps [with_arg op arg] h'"
    by blast
qed

lemma CEE_below: "op \<le> 0x122 \<Longrightarrow> op < CEE_COUNT"
  unfolding CEE_COUNT_def by (erule le_less_trans) simp

text \<open>The instruction each method inserts.\<close>

definition stloc :: "32 word \<Rightarrow> OPCODE \<times> ILArg" where
  "stloc n = (if n \<le> 3 then plain (CEE_STLOC_0 + n) else if n \<le> 255 then (CEE_STLOC_S, m_Arg8 (ucast n))
     else (CEE_STLOC, m_Arg16 (ucast n)))"

definition ldloc :: "32 word \<Rightarrow> OPCODE \<times> ILArg" where
  "ldloc n = (if n \<le> 3 then plain (CEE_LDLOC_0 + n) else if n \<le> 255 then (CEE_LDLOC_S, m_Arg8 (ucast n))
     else (CEE_LDLOC, m_Arg16 (ucast n)))"

definition ldarg :: "16 word \<Rightarrow> OPCODE \<times> ILArg" where
  "ldarg n = (if n \<le> 3 then plain (CEE_LDARG_0 + ucast n) else if n \<le> 255 then (CEE_LDARG_S, m_Arg8 (ucast n))
     else (CEE_LDARG, m_Arg16 n))"

definition ldloca :: "32 word \<Rightarrow> OPCODE \<times> ILArg" where
  "ldloca n = (if n \<le> 255 then (CEE_LDLOCA_S, m_Arg8 (ucast n)) else (CEE_LDLOCA, m_Arg16 (ucast n)))"

definition ldc_i4 :: "INT32 \<Rightarrow> OPCODE \<times> ILArg" where
  "ldc_i4 v = (if -1 \<le> sint v \<and> sint v \<le> 8 then plain (CEE_LDC_I4_0 + v)
     else if -128 \<le> sint v \<and> sint v \<le> 127 then (CEE_LDC_I4_S, m_Arg8 (ucast v)) else (CEE_LDC_I4, m_Arg32 v))"

lemma word_small_cases:
  fixes n :: "'a::len word"
  assumes "n \<le> 3" and "2 < LENGTH('a)"
  shows "n = 0 \<or> n = 1 \<or> n = 2 \<or> n = 3"
proof -
  have "unat (3 :: 'a word) \<le> 3" by (metis of_nat_numeral unat_of_nat mod_less_eq_dividend)
  then have "unat n \<le> 3" using assms(1) unfolding word_le_nat_alt by linarith
  then have "unat n = 0 \<or> unat n = 1 \<or> unat n = 2 \<or> unat n = 3" by auto
  moreover have "n = of_nat (unat n)" by simp
  ultimately show ?thesis by (elim disjE) simp_all
qed

lemma emits_plain: "op < CEE_COUNT \<Longrightarrow> emits (emit_void op None) [plain op]"
  using emits_emit_void [of op None] by simp

lemma emits_arg: "op < CEE_COUNT \<Longrightarrow> emits (emit_void op (Some a)) [(op, a)]"
  using emits_emit_void [of op "Some a"] by simp

lemma drop_emit: "(\<lambda>h. drop_result (emit op arg h)) = emit_void op arg"
  by (rule ext) (simp add: emit_void_def)

lemma opcode_bounds [simp]: "numeral k \<le> (0x122 :: 32 word) \<Longrightarrow> numeral k < CEE_COUNT"
  by (rule CEE_below)

lemma zero_below [simp]: "0 < CEE_COUNT"
  by (simp add: CEE_COUNT_def)

lemma emits_StLocal [emit_rules]: "emits (\<lambda>h. drop_result (StLocal n h)) [stloc n]"
proof (cases "n \<le> 3")
  case True
  then have "n = 0 \<or> n = 1 \<or> n = 2 \<or> n = 3" by (rule word_small_cases) simp
  then show ?thesis
    by (elim disjE) (simp_all add: StLocal_def stloc_def drop_emit emits_plain)
next
  case False
  then show ?thesis by (simp add: StLocal_def stloc_def drop_emit emits_arg)
qed

lemma emits_LoadLocal [emit_rules]: "emits (\<lambda>h. drop_result (LoadLocal n h)) [ldloc n]"
proof (cases "n \<le> 3")
  case True
  then have "n = 0 \<or> n = 1 \<or> n = 2 \<or> n = 3" by (rule word_small_cases) simp
  then show ?thesis
    by (elim disjE) (simp_all add: LoadLocal_def ldloc_def drop_emit emits_plain)
next
  case False
  then show ?thesis by (simp add: LoadLocal_def ldloc_def drop_emit emits_arg)
qed

lemma emits_LoadArgument [emit_rules]: "emits (LoadArgument n) [ldarg n]"
proof (cases "n \<le> 3")
  case True
  then have "n = 0 \<or> n = 1 \<or> n = 2 \<or> n = 3" by (rule word_small_cases) simp
  then show ?thesis
    by (elim disjE) (simp_all add: LoadArgument_def [abs_def] ldarg_def emits_plain)
next
  case False
  then show ?thesis by (simp add: LoadArgument_def [abs_def] ldarg_def emits_arg)
qed

lemma ldc_opcodes:
  assumes "j \<le> 8"
  shows "[CEE_LDC_I4_0, CEE_LDC_I4_1, CEE_LDC_I4_2, CEE_LDC_I4_3, CEE_LDC_I4_4, CEE_LDC_I4_5, CEE_LDC_I4_6,
     CEE_LDC_I4_7, CEE_LDC_I4_8] ! j = CEE_LDC_I4_0 + of_nat j"
proof -
  have "j = 0 \<or> j = 1 \<or> j = 2 \<or> j = 3 \<or> j = 4 \<or> j = 5 \<or> j = 6 \<or> j = 7 \<or> j = 8"
    using assms by arith
  then show ?thesis by (elim disjE) simp_all
qed

lemma word_sint_cases:
  assumes "0 \<le> sint (v :: INT32)"
  shows "of_nat (nat (sint v)) = v"
  using assms by (simp add: of_nat_nat)

lemma small_int:
  assumes "0 \<le> sint (v :: INT32)" "sint v \<le> 8"
  shows "unat v = nat (sint v)" "unat (CEE_LDC_I4_0 + v) = 0x16 + nat (sint v)"
proof -
  have "nat (sint v) < 2 ^ 32" using assms by simp
  then have "unat (of_nat (nat (sint v)) :: INT32) = nat (sint v)" by (rule unat_of_nat_32)
  then show u: "unat v = nat (sint v)" unfolding word_sint_cases [OF assms(1)] .
  show "unat (CEE_LDC_I4_0 + v) = 0x16 + nat (sint v)"
    using assms u by (subst unat_add_lem [THEN iffD1]) simp_all
qed

lemma emits_LoadInt32 [emit_rules]: "emits (\<lambda>h. drop_result (LoadInt32 v h)) [ldc_i4 v]"
proof -
  consider (small) "0 \<le> sint v" "sint v \<le> 8" | (minus) "sint v = -1" | (other) "sint v < -1 \<or> 8 < sint v"
    by arith
  then show ?thesis
  proof cases
    case small
    then have "ldc_i4 v = plain (CEE_LDC_I4_0 + v)" by (simp add: ldc_i4_def)
    moreover have "LoadInt32 v h = emit (CEE_LDC_I4_0 + v) None h" for h
      using small ldc_opcodes [of "nat (sint v)"] word_sint_cases [OF small(1)]
      by (simp add: LoadInt32_def del: of_nat_nat)
    moreover have "CEE_LDC_I4_0 + v < CEE_COUNT"
      using small_int(2) [OF small] small by (simp add: CEE_COUNT_def word_less_nat_alt)
    ultimately show ?thesis by (simp only: drop_emit emits_plain)
  next
    case minus
    then have "v = -1" by (intro signed_word_eqI) simp
    then have "ldc_i4 v = plain CEE_LDC_I4_M1" by (simp add: ldc_i4_def)
    moreover have "LoadInt32 v h = emit CEE_LDC_I4_M1 None h" for h using minus by (simp add: LoadInt32_def)
    moreover have "CEE_LDC_I4_M1 < CEE_COUNT" by simp
    ultimately show ?thesis by (simp only: drop_emit emits_plain)
  next
    case other
    then show ?thesis by (auto simp: LoadInt32_def ldc_i4_def drop_emit emits_arg)
  qed
qed

lemma emits_void_methods [emit_rules]:
  "emits Duplicate [plain CEE_DUP]"
  "emits (LoadInt64 k) [(CEE_LDC_I8, m_Arg64 k)]"
  "emits EndLoadValueIntoArray [plain CEE_STELEM_REF]"
  "emits (CallMember tk virt) [(if virt then CEE_CALLVIRT else CEE_CALL, m_Arg32 tk)]"
  "emits (Cast tk) [(CEE_CASTCLASS, m_Arg32 tk)]"
  "emits (LoadLocalAddress n) [ldloca n]"
  "emits (NewObject tk) [(CEE_NEWOBJ, m_Arg32 tk)]"
  "emits Pop [plain CEE_POP]"
  "emits Ret [plain CEE_RET]"
  "emits (LoadStr tk) [(CEE_LDSTR, m_Arg32 tk)]"
  "emits (Box tk) [(CEE_BOX, m_Arg32 tk)]"
  by (simp_all add: Duplicate_def [abs_def] LoadInt64_def [abs_def] EndLoadValueIntoArray_def [abs_def]
      CallMember_def [abs_def] Cast_def [abs_def] LoadLocalAddress_def [abs_def] ldloca_def NewObject_def [abs_def]
      Pop_def [abs_def] Ret_def [abs_def] LoadStr_def [abs_def] Box_def [abs_def] emits_plain emits_arg)

lemma emits_result_methods [emit_rules]:
  "emits (\<lambda>h. drop_result (BrTrueS h)) [plain CEE_BRTRUE_S]"
  "emits (\<lambda>h. drop_result (BrFalseS h)) [plain CEE_BRFALSE_S]"
  "emits (\<lambda>h. drop_result (BrS h)) [plain CEE_BR_S]"
  "emits (\<lambda>h. drop_result (Nop h)) [plain CEE_NOP]"
  "emits (\<lambda>h. drop_result (LoadNull h)) [plain CEE_LDNULL]"
  "emits (\<lambda>h. drop_result (CgtUn h)) [plain CEE_CGT_UN]"
  "emits (\<lambda>h. drop_result (Throw h)) [plain CEE_THROW]"
  by (simp_all add: BrTrueS_def BrFalseS_def BrS_def Nop_def LoadNull_def CgtUn_def Throw_def drop_emit emits_plain)

lemma ind_opcodes: "ldind_opcode t \<le> 0x122" "stind_opcode t \<le> 0x122"
  by (simp_all add: ldind_opcode_def stind_opcode_def)

lemma emits_LoadInd [emit_rules]:
  "emits (LoadInd t) (if ldind_opcode t > 0 then [plain (ldind_opcode t)] else [])"
  using emits_plain [OF CEE_below [OF ind_opcodes(1)], of t] emits_Inr
  by (simp add: LoadInd_def [abs_def])

lemma emits_StInd [emit_rules]:
  "emits (StInd t) (if stind_opcode t > 0 then [plain (stind_opcode t)] else [])"
  using emits_plain [OF CEE_below [OF ind_opcodes(2)], of t] emits_Inr
  by (simp add: StInd_def [abs_def])

lemma emits_CreateArray [emit_rules]:
  "emits (CreateArray tk n) ((if sint n > 0 then [ldc_i4 n] else []) @ [(CEE_NEWARR, m_Arg32 tk)])"
proof -
  have "emits (\<lambda>h. if sint n > 0 then drop_result (LoadInt32 n h) else Inr h) (if sint n > 0 then [ldc_i4 n] else [])"
    by (simp add: emit_rules)
  moreover have "emits (emit_void CEE_NEWARR (Some (m_Arg32 tk))) [(CEE_NEWARR, m_Arg32 tk)]"
    by (rule emits_arg) simp
  ultimately show ?thesis
    using emits_bind unfolding CreateArray_def [abs_def] by blast
qed

lemma emits_BeginLoadValueIntoArray [emit_rules]:
  "emits (BeginLoadValueIntoArray i) [plain CEE_DUP, ldc_i4 i]"
  using emits_bind [OF emits_void_methods(1) emits_LoadInt32 [of i]]
  by (simp add: BeginLoadValueIntoArray_def [abs_def])

text \<open>\<open>UnboxAny\<close> leaves an instruction nobody refers to.\<close>

lemma emits_UnboxAny [emit_rules]: "emits (UnboxAny tk) []"
proof (rule emitsI)
  fix h as bs assume at: "helper_at h as bs"
  then have "holds (h_rewriter h) (as @ bs)" by (simp add: helper_at_def)
  then obtain p \<sigma> where c: "create_instr CEE_UNBOX_ANY (Some (m_Arg32 tk)) (h_rewriter h) = Inr (p, \<sigma>)"
    "holds \<sigma> (as @ bs)" "p \<notin> set (IL # as @ bs)" "heap (h_rewriter h) p = None"
    "content_of (heap \<sigma>) = (content_of (heap (h_rewriter h)))
       (p \<mapsto> (CEE_UNBOX_ANY, 0, snd (with_arg CEE_UNBOX_ANY (Some (m_Arg32 tk)))))"
    "header_of \<sigma> = header_of (h_rewriter h)" "m_maxStack \<sigma> = m_maxStack (h_rewriter h)"
    by (rule create_instr_eq)
  then have "UnboxAny tk h = Inr (h\<lparr>h_rewriter := \<sigma>\<rparr>)" by (simp add: UnboxAny_def)
  moreover have "emitted h as bs [] [] (h\<lparr>h_rewriter := \<sigma>\<rparr>)"
    using at c by (auto simp: emitted_def helper_at_def)
  ultimately show "\<exists>h' ps. UnboxAny tk h = Inr h' \<and> emitted h as bs ps [] h'" by blast
qed

lemma emits_fold:
  "(\<And>x. x \<in> set xs \<Longrightarrow> emits (f x) (c x)) \<Longrightarrow> emits (foldO f xs) (concat (map c xs))"
proof (induction xs)
  case Nil
  have "foldO f [] = Inr" by (rule ext) simp
  then show ?case by (simp add: emits_Inr)
next
  case (Cons x xs)
  have "foldO f (x # xs) = (\<lambda>h. bindO (f x h) (foldO f xs))" by (rule ext) simp
  then show ?case using Cons by (simp add: emits_bind)
qed

section \<open>What the inserted instructions mean\<close>

text \<open>The constant an instruction loads, and the local variable or argument it accesses (ECMA-335
  III.3.40, III.3.43, III.3.63 and III.3.38).\<close>

definition loaded_int :: "OPCODE \<times> ILArg \<Rightarrow> int option" where
  "loaded_int i = (case i of (op, arg) \<Rightarrow>
     if CEE_LDC_I4_M1 \<le> op \<and> op \<le> CEE_LDC_I4_8 then Some (int (unat op) - int (unat CEE_LDC_I4_0))
     else if op = CEE_LDC_I4_S then (case arg of m_Arg8 v \<Rightarrow> Some (sint v) | _ \<Rightarrow> None)
     else if op = CEE_LDC_I4 then (case arg of m_Arg32 v \<Rightarrow> Some (sint v) | _ \<Rightarrow> None)
     else None)"

definition accessed :: "OPCODE \<Rightarrow> OPCODE \<Rightarrow> OPCODE \<Rightarrow> OPCODE \<times> ILArg \<Rightarrow> nat option" where
  "accessed first short long i = (case i of (op, arg) \<Rightarrow>
     if first \<le> op \<and> op \<le> first + 3 then Some (unat (op - first))
     else if op = short then (case arg of m_Arg8 v \<Rightarrow> Some (unat v) | _ \<Rightarrow> None)
     else if op = long then (case arg of m_Arg16 v \<Rightarrow> Some (unat v) | _ \<Rightarrow> None)
     else None)"

abbreviation stored_local :: "OPCODE \<times> ILArg \<Rightarrow> nat option" where
  "stored_local \<equiv> accessed CEE_STLOC_0 CEE_STLOC_S CEE_STLOC"

abbreviation loaded_local :: "OPCODE \<times> ILArg \<Rightarrow> nat option" where
  "loaded_local \<equiv> accessed CEE_LDLOC_0 CEE_LDLOC_S CEE_LDLOC"

abbreviation loaded_arg :: "OPCODE \<times> ILArg \<Rightarrow> nat option" where
  "loaded_arg \<equiv> accessed CEE_LDARG_0 CEE_LDARG_S CEE_LDARG"

lemma unat_ucast_small:
  "unat n < 2 ^ LENGTH('b) \<Longrightarrow> unat (ucast (n :: 'a::len word) :: 'b::len word) = unat n"
  by (simp add: unsigned_ucast_eq take_bit_nat_eq_self)

lemma sint_ucast_small:
  fixes v :: INT32
  assumes "-128 \<le> sint v" "sint v \<le> 127"
  shows "sint (ucast v :: INT8) = sint v"
proof -
  have "sint (ucast v :: INT8) = signed_take_bit 7 (sint v)"
    by (simp add: signed_ucast_eq uint_sint [of v] signed_take_bit_take_bit)
  also have "\<dots> = sint v" using assms by (intro signed_take_bit_int_eq_self) simp_all
  finally show ?thesis .
qed

lemma ldc_i4_means: "loaded_int (ldc_i4 v) = Some (sint v)"
proof -
  consider (small) "0 \<le> sint v" "sint v \<le> 8" | (minus) "sint v = -1"
    | (short) "sint v < -1 \<or> 8 < sint v" "-128 \<le> sint v" "sint v \<le> 127"
    | (long) "\<not> (-128 \<le> sint v \<and> sint v \<le> 127)" by arith
  then show ?thesis
  proof cases
    case small
    note u = small_int(2) [OF small]
    have "CEE_LDC_I4_M1 \<le> CEE_LDC_I4_0 + v" "CEE_LDC_I4_0 + v \<le> CEE_LDC_I4_8"
      using small u by (simp_all add: word_le_nat_alt)
    then show ?thesis using small u
      by (simp only: ldc_i4_def plain_def loaded_int_def) simp
  next
    case minus
    then have "v = -1" by (intro signed_word_eqI) simp
    then show ?thesis by (simp add: ldc_i4_def plain_def loaded_int_def)
  next
    case short
    then show ?thesis by (auto simp: ldc_i4_def loaded_int_def sint_ucast_small)
  next
    case long
    then show ?thesis by (auto simp: ldc_i4_def loaded_int_def)
  qed
qed

lemma unat_three: "2 < LENGTH('a) \<Longrightarrow> unat (3 :: 'a::len word) = 3"
  using take_bit_nat_eq_self [of 3 "LENGTH('a)"] power_increasing [of 3 "LENGTH('a)" "2 :: nat"] by simp

lemma first_four:
  assumes "n \<le> (3 :: 32 word)" and "unat (first :: OPCODE) \<le> 0x100"
  shows "accessed first short long (plain (first + n)) = Some (unat n)"
proof -
  have n: "unat n \<le> 3" using assms(1) by (simp add: word_le_nat_alt)
  have u: "unat (first + n) = unat first + unat n" "unat (first + 3) = unat first + 3"
    using n assms(2) by (subst unat_add_lem [THEN iffD1]; simp)+
  then have "first \<le> first + n" "first + n \<le> first + 3"
    using n u by (simp_all add: word_le_nat_alt)
  then show ?thesis by (simp add: accessed_def plain_def)
qed

lemma locals_mean:
  assumes "unat n < 2 ^ 16"
  shows "stored_local (stloc n) = Some (unat n)" "loaded_local (ldloc n) = Some (unat n)"
proof -
  have n: "n \<le> 255 \<Longrightarrow> unat n < 2 ^ 8" by (simp add: word_le_nat_alt)
  show "stored_local (stloc n) = Some (unat n)"
    using assms n first_four [of n CEE_STLOC_0]
    by (auto simp: stloc_def accessed_def [of _ _ _ "(_, _)"] unat_ucast_small)
  show "loaded_local (ldloc n) = Some (unat n)"
    using assms n first_four [of n CEE_LDLOC_0]
    by (auto simp: ldloc_def accessed_def [of _ _ _ "(_, _)"] unat_ucast_small)
qed

lemma argument_means: "loaded_arg (ldarg n) = Some (unat n)"
proof -
  have b: "unat n < 2 ^ 16" using unsigned_less [of n] by simp
  then have u: "unat (ucast n :: 32 word) = unat n" by (intro unat_ucast_small) simp
  have n: "n \<le> 255 \<Longrightarrow> unat n < 2 ^ 8" by (simp add: word_le_nat_alt)
  show ?thesis
  proof (cases "n \<le> 3")
    case True
    then have "(ucast n :: 32 word) \<le> 3" using u by (simp add: word_le_nat_alt)
    from first_four [OF this, of CEE_LDARG_0] True u show ?thesis by (simp add: ldarg_def)
  next
    case False
    then show ?thesis using n by (auto simp: ldarg_def accessed_def unat_ucast_small)
  qed
qed

section \<open>Local variables\<close>

text \<open>A local signature as the list of the encodings of its variables.\<close>

definition local_sig :: "BYTE list list \<Rightarrow> BYTE list" where
  "local_sig vars = [IMAGE_CEE_CS_CALLCONV_LOCAL_SIG] @ count_bytes vars @ concat vars"

lemma compressed_data: "n \<le> 0x1FFFFFFF \<Longrightarrow> compressed (CorSigCompressData n) = Inr (number_bytes n)"
  using CorSigCompressData_length [of n "fst (CorSigCompressData n)" "snd (CorSigCompressData n)"]
  by (simp add: compressed_def split_beta)

lemma compressed_token: "compressed (CorSigCompressToken tk) = Inr (token_bytes tk)"
  using CorSigToken_length [of tk "fst (CorSigCompressToken tk)" "snd (CorSigCompressToken tk)"]
  by (simp add: compressed_def split_beta)

lemma added_local_signature_appends:
  assumes "length vars < 0x1FFFFFFF" and "original = (if vars = [] then None else Some (local_sig vars)) \<or> original = Some (local_sig vars)"
  shows "added_local_signature original ty =
    Inr (local_sig (vars @ [ELEMENT_TYPE_CLASS # token_bytes ty]), word_of_nat (length vars))"
proof -
  have n: "unat (word_of_nat (length vars) :: ULONG) = length vars"
    using assms(1) by (intro unat_of_nat_32) simp
  then have n1: "unat (word_of_nat (length vars) + 1 :: ULONG) = length vars + 1"
    using assms(1) by (subst unat_add_lem [THEN iffD1]) simp_all
  have le: "(word_of_nat (length vars) :: ULONG) \<le> 0x1FFFFFFF" "(word_of_nat (length vars) + 1 :: ULONG) \<le> 0x1FFFFFFF"
    using assms(1) by (simp_all only: word_le_nat_alt n n1) simp_all
  have plus: "(1 + word_of_nat (length vars) :: ULONG) = word_of_nat (length vars) + 1" by simp
  show ?thesis
  proof (cases original)
    case None
    then have "vars = []" using assms(2) by (auto split: if_splits)
    then show ?thesis
      by (simp add: added_local_signature_def None compressed_data compressed_token local_sig_def)
  next
    case (Some s)
    then have "s = local_sig vars" using assms(2) by (auto split: if_splits)
    then show ?thesis using le
      by (simp add: added_local_signature_def Some local_sig_def advance_def ParseNumber_bytes compressed_data
          compressed_token plus)
  qed
qed

section \<open>Properties\<close>

text \<open>A metadata scope whose state is the list of the signatures and names defined so far; a token is a
  kind and a position, and every definition succeeds.\<close>

definition example_define :: "mdToken \<Rightarrow> BYTE list \<Rightarrow> (BYTE list list) definer" where
  "example_define kind s w = ((S_OK, kind OR (word_of_nat (length w) + 1)), w @ [s])"

definition example_metadata :: "(BYTE list list) metadata" where
  "example_metadata =
     \<lparr>md_DefineAssemblyRef = (\<lambda>_ _ _. example_define 0x23000000 []),
      md_DefineTypeRefByName = (\<lambda>_ _. example_define mdtTypeRef []),
      md_DefineTypeDef = (\<lambda>_ _ _. example_define mdtTypeDef []),
      md_DefineMethod = (\<lambda>_ _ _ s _ _. example_define mdtMethodDef s),
      md_DefineMemberRef = (\<lambda>_ _ s. example_define mdtMemberRef s),
      md_DefineUserString = (\<lambda>_. example_define 0x70000000 []),
      md_GetTokenFromSig = example_define 0x11000000,
      md_GetTokenFromTypeSpec = example_define mdtTypeSpec,
      md_GetSigFromToken = (\<lambda>w tk. (S_OK, w ! (unat (RidFromToken tk) - 1))),
      md_GetMemberRefProps = (\<lambda>w tk. (S_OK, mdTokenNil, ([], 0), w ! (unat (RidFromToken tk) - 1))),
      md_GetMemberProps = (\<lambda>w tk. (S_OK, mdTokenNil, ([], 0), w ! (unat (RidFromToken tk) - 1))),
      md_GetMethodSpecProps = (\<lambda>w tk. (E_FAIL, mdTokenNil, [])),
      md_GetMethodProps = (\<lambda>w tk. (S_OK, mdTokenNil)),
      md_GetTypeDefProps = (\<lambda>w tk. (S_OK, ([0x41, 0], 2))),
      md_GetTypeRefProps = (\<lambda>w tk. (S_OK, ([0x41, 0], 2))),
      md_GetModuleRefProps = (\<lambda>w tk. (S_OK, ([0x41, 0], 2))),
      md_GetTypeSpecFromToken = (\<lambda>w tk. (S_OK, w ! (unat (RidFromToken tk) - 1))),
      md_CustomAttributes = (\<lambda>w tk. []),
      md_GetCustomAttributeProps = (\<lambda>w tk. mdTokenNil)\<rparr>"

text \<open>C29: whichever short or long form the methods choose, they insert exactly one instruction, and it means what was
  asked for: \<open>LoadInt32\<close> loads the given 32-bit value, and \<open>StLocal\<close>, \<open>LoadLocal\<close> and \<open>LoadArgument\<close> access the
  given local variable or argument, for every index an instruction can hold.\<close>

theorem short_forms_mean_the_same:
  assumes "unat index < 2 ^ 16"
  shows "(\<exists>i. emits (\<lambda>h. drop_result (LoadInt32 v h)) [i] \<and> loaded_int i = Some (sint v)) \<and>
    (\<exists>i. emits (\<lambda>h. drop_result (StLocal index h)) [i] \<and> stored_local i = Some (unat index)) \<and>
    (\<exists>i. emits (\<lambda>h. drop_result (LoadLocal index h)) [i] \<and> loaded_local i = Some (unat index)) \<and>
    (\<exists>i. emits (LoadArgument arg) [i] \<and> loaded_arg i = Some (unat arg))"
  using emits_LoadInt32 ldc_i4_means emits_StLocal emits_LoadLocal locals_mean [OF assms] emits_LoadArgument
    argument_means by blast

lemma short_forms_mean_the_same_witness:
  "\<exists>i. emits (\<lambda>h. drop_result (StLocal 300 h)) [i] \<and> stored_local i = Some 300"
  using short_forms_mean_the_same [of 300 0 0] by simp

text \<open>\<open>UnboxAny\<close> inserts nothing: it completes at every position and leaves the list of instructions as it was.\<close>

theorem UnboxAny_emits_nothing:
  "emits (UnboxAny typeRef) []"
  by (rule emits_UnboxAny)

text \<open>C30: \<open>AddLocalVariable\<close> appends exactly one variable of the given class type to the local signature: from a method
  without a signature, or with the signature of the variables \<open>vars\<close>, it asks for the token of the signature of
  \<open>vars\<close> and the new variable, stores that token, forces a fat header and returns the number of variables
  before as the new index.\<close>

theorem AddLocalVariable_appends:
  assumes "SUCCEEDED hr" and "length vars < 0x1FFFFFFF"
    and "if GetTkLocalVarSig (h_rewriter h) = mdTokenNil then vars = []
         else md_GetSigFromToken md w (GetTkLocalVarSig (h_rewriter h)) = (S_OK, local_sig vars)"
    and "md_GetTokenFromSig md (local_sig (vars @ [ELEMENT_TYPE_CLASS # token_bytes typeRef])) w = ((hr', tk), w')"
  shows "\<exists>h'. AddLocalVariable (hr, md) typeRef h w = Inr (S_OK, Some (word_of_nat (length vars)), h', w') \<and>
    GetTkLocalVarSig (h_rewriter h') = tk \<and> \<not> m_fGenerateTinyHeader (h_rewriter h') \<and>
    heap (h_rewriter h') = heap (h_rewriter h) \<and> h_instr h' = h_instr h"
proof -
  let ?h = "h\<lparr>h_rewriter := SetTkLocalVarSig (h_rewriter h) tk\<rparr>"
  have "AddLocalVariable (hr, md) typeRef h w = Inr (S_OK, Some (word_of_nat (length vars)), ?h, w')"
  proof (cases "GetTkLocalVarSig (h_rewriter h) = mdTokenNil")
    case True
    then have "vars = []" using assms(3) by simp
    then show ?thesis
      using True assms(1,4) added_local_signature_appends [of "[]" None typeRef]
      by (simp add: AddLocalVariable_def)
  next
    case False
    then show ?thesis
      using assms added_local_signature_appends [of vars "Some (local_sig vars)" typeRef]
      by (simp add: AddLocalVariable_def)
  qed
  then show ?thesis by (simp add: GetTkLocalVarSig_def SetTkLocalVarSig_def)
qed

lemma AddLocalVariable_appends_witness:
  "\<exists>h'. AddLocalVariable (S_OK, example_metadata) 0x01000002 (ILRewriterHelper_new (example_rewriter CEE_NOP)) [] =
     Inr (S_OK, Some 0, h', [[7, 1, 0x12, 9]]) \<and> GetTkLocalVarSig (h_rewriter h') = 0x11000001"
proof -
  let ?h = "ILRewriterHelper_new (example_rewriter CEE_NOP)"
  have sig: "local_sig ([] @ [ELEMENT_TYPE_CLASS # token_bytes 0x01000002]) = [7, 1, 0x12, 9]"
    by (simp add: local_sig_def CorSigCompressData_def CorSigCompressToken_def Let_def RidFromToken_def TypeFromToken_def
        g_tkCorEncodeToken_def mdt_defs callconvs element_types)
  have "GetTkLocalVarSig (h_rewriter ?h) = mdTokenNil"
    by (simp add: GetTkLocalVarSig_def ILRewriterHelper_new_def example_rewriter_def mdTokenNil_def)
  moreover have "md_GetTokenFromSig example_metadata [7, 1, 0x12, 9] [] = ((S_OK, 0x11000001), [[7, 1, 0x12, 9]])"
    by (simp add: example_metadata_def example_define_def)
  ultimately show ?thesis
    using AddLocalVariable_appends [of S_OK "[]" ?h example_metadata "[]" "0x01000002"]
    unfolding sig by auto
qed

end
