(* ===== verification/Info.thy ===== *)
theory Info
  imports RewriterHelper
begin

text \<open>
  The views the profiler takes of the metadata (\<^verbatim>\<open>info/\<close>): types, method signatures, functions, modules
  and assemblies.

  \<open>TypeInfo\<close> holds the types of its generic arguments, so it is a datatype; a \<open>TypeInfo\<close> whose
  constructor was not given a member has the member's initial value. \<open>GetTypeInfo\<close> and
  \<open>GetFunctionInfo\<close> call each other along the tokens of the metadata, which is a parameter: their
  recursion is bounded by fuel, and \<open>fuel_enough\<close> says when it suffices.
\<close>

section \<open>Types\<close>

datatype TypeInfo = TypeInfo
  (ti_Id: mdToken) (ti_Name: wstring) (ti_Raw: "BYTE list") (ti_Generics: "TypeInfo list")
  (ti_IsRefType: bool) (ti_TypeDef: BYTE) (ti_IsBoxed: bool) (ti_IsVoid: bool)
  (ti_IsGenericClassRef: bool) (ti_IsGenericMethodRef: bool) (ti_GenericRefNumber: ULONG)

definition TypeInfo_default :: TypeInfo where
  "TypeInfo_default = TypeInfo 0 [] [] [] False 0 False False False False 0"

definition TypeInfo_named :: "mdToken \<Rightarrow> wstring \<Rightarrow> BYTE list \<Rightarrow> TypeInfo" where
  "TypeInfo_named token name raw = TypeInfo token name raw [] False 0 False False False False 0"

definition set_Raw :: "BYTE list \<Rightarrow> TypeInfo \<Rightarrow> TypeInfo" where
  "set_Raw raw t = TypeInfo (ti_Id t) (ti_Name t) raw (ti_Generics t) (ti_IsRefType t) (ti_TypeDef t) (ti_IsBoxed t)
     (ti_IsVoid t) (ti_IsGenericClassRef t) (ti_IsGenericMethodRef t) (ti_GenericRefNumber t)"

definition set_Generics :: "TypeInfo list \<Rightarrow> TypeInfo \<Rightarrow> TypeInfo" where
  "set_Generics gs t = TypeInfo (ti_Id t) (ti_Name t) (ti_Raw t) gs (ti_IsRefType t) (ti_TypeDef t) (ti_IsBoxed t)
     (ti_IsVoid t) (ti_IsGenericClassRef t) (ti_IsGenericMethodRef t) (ti_GenericRefNumber t)"

definition set_IsRefType :: "bool \<Rightarrow> TypeInfo \<Rightarrow> TypeInfo" where
  "set_IsRefType b t = TypeInfo (ti_Id t) (ti_Name t) (ti_Raw t) (ti_Generics t) b (ti_TypeDef t) (ti_IsBoxed t)
     (ti_IsVoid t) (ti_IsGenericClassRef t) (ti_IsGenericMethodRef t) (ti_GenericRefNumber t)"

definition boxed_types :: "BYTE list" where
  "boxed_types = [ELEMENT_TYPE_VOID, ELEMENT_TYPE_BOOLEAN, ELEMENT_TYPE_CHAR, ELEMENT_TYPE_I1, ELEMENT_TYPE_U1,
     ELEMENT_TYPE_I2, ELEMENT_TYPE_U2, ELEMENT_TYPE_I4, ELEMENT_TYPE_U4, ELEMENT_TYPE_I8, ELEMENT_TYPE_U8,
     ELEMENT_TYPE_R4, ELEMENT_TYPE_R8, ELEMENT_TYPE_I, ELEMENT_TYPE_U, ELEMENT_TYPE_STRING]"

text \<open>The constructor from a signature.\<close>

definition TypeInfo_raw :: "BYTE list \<Rightarrow> TypeInfo outcome" where
  "TypeInfo_raw raw =
     (let isRef = (length raw > 0 \<and> raw ! 0 = ELEMENT_TYPE_BYREF);
          isVoid = (length raw > 0 \<and> raw ! 0 = ELEMENT_TYPE_VOID);
          shift = (if isRef then 1 else 0) in
      bindO (advance shift raw) (\<lambda>rest.
      bindO (peek_byte rest) (\<lambda>b.
        if b \<in> set boxed_types then
          Inr (TypeInfo 0 [] raw [] isRef b True isVoid False False 0)
        else if b = ELEMENT_TYPE_MVAR then
          bindO (advance (1 + shift) raw) (\<lambda>iter. bindO (ParseNumber iter) (\<lambda>(_, number, _).
            Inr (TypeInfo 0 [] raw [] isRef 0 False isVoid False True number)))
        else if b = ELEMENT_TYPE_VAR then
          bindO (advance (1 + shift) raw) (\<lambda>iter. bindO (ParseNumber iter) (\<lambda>(_, number, _).
            Inr (TypeInfo 0 [] raw [] isRef 0 False isVoid True False number)))
        else Inr (TypeInfo 0 [] raw [] isRef ELEMENT_TYPE_OBJECT False isVoid False False 0))))"

text \<open>The loop that cuts \<open>number\<close> types off a signature, each the bytes its parser consumed.\<close>

fun parse_infos :: "(BYTE list \<Rightarrow> parsed) \<Rightarrow> nat \<Rightarrow> BYTE list \<Rightarrow> TypeInfo list outcome" where
  "parse_infos parse 0 iter = Inr []"
| "parse_infos parse (Suc n) iter =
     bindO (parse iter) (\<lambda>(ok, iter').
       if \<not> ok then Inr []
       else bindO (TypeInfo_raw (take (length iter - length iter') iter)) (\<lambda>t.
            bindO (parse_infos parse n iter') (\<lambda>ts. Inr (t # ts))))"

definition TryParseGeneric :: "TypeInfo \<Rightarrow> TypeInfo outcome" where
  "TryParseGeneric t =
     bindO (ParseNumber (ti_Raw t)) (\<lambda>(_, _, iter).
     bindO (ParseNumber iter) (\<lambda>(_, elemenType, iter).
       if elemenType \<noteq> ucast ELEMENT_TYPE_CLASS \<and> elemenType \<noteq> ucast ELEMENT_TYPE_VALUETYPE then Inr t
       else
         bindO (ParseNumber iter) (\<lambda>(_, _, iter).
         bindO (ParseNumber iter) (\<lambda>(_, number, iter).
         bindO (parse_infos ParseType (unat number) iter) (\<lambda>ts.
           Inr (set_Generics (ti_Generics t @ ts) t))))))"

section \<open>Signatures\<close>

record GenericMethodSignature =
  gs_Raw :: "BYTE list"
  gs_Generics :: "TypeInfo list"

definition GenericMethodSignature_default :: GenericMethodSignature where
  "GenericMethodSignature_default = \<lparr>gs_Raw = [], gs_Generics = []\<rparr>"

definition GenericMethodSignature_raw :: "BYTE list \<Rightarrow> GenericMethodSignature outcome" where
  "GenericMethodSignature_raw raw =
     bindO (ParseNumber raw) (\<lambda>(_, skip, iter).
     bindO (ParseNumber iter) (\<lambda>(_, number, iter).
     bindO (parse_infos ParseType (unat number) iter) (\<lambda>ts.
       Inr \<lparr>gs_Raw = raw, gs_Generics = ts\<rparr>)))"

record MethodSignature =
  argumentsOffset :: nat
  ms_Raw :: "BYTE list"
  ms_ReturnType :: TypeInfo
  ms_Arguments :: "TypeInfo list"

definition MethodSignature_default :: MethodSignature where
  "MethodSignature_default = \<lparr>argumentsOffset = 0, ms_Raw = [], ms_ReturnType = TypeInfo_default, ms_Arguments = []\<rparr>"

definition CallingConvention :: "MethodSignature \<Rightarrow> BYTE" where
  "CallingConvention s = (if ms_Raw s = [] then 0 else ms_Raw s ! 0)"

definition IsInstanceMethod :: "MethodSignature \<Rightarrow> bool" where
  "IsInstanceMethod s \<longleftrightarrow> CallingConvention s AND IMAGE_CEE_CS_CALLCONV_HASTHIS \<noteq> 0"

definition IsGeneric :: "MethodSignature \<Rightarrow> bool" where
  "IsGeneric s \<longleftrightarrow> length (ms_Raw s) > 2 \<and> CallingConvention s AND IMAGE_CEE_CS_CALLCONV_GENERIC \<noteq> 0"

definition NumberOfArguments :: "MethodSignature \<Rightarrow> ULONG" where
  "NumberOfArguments s =
     (if IsGeneric s then ucast (ms_Raw s ! 2) else if length (ms_Raw s) > 1 then ucast (ms_Raw s ! 1) else 0)"

definition MethodSignature_raw :: "BYTE list \<Rightarrow> MethodSignature outcome" where
  "MethodSignature_raw raw =
     (let s = MethodSignature_default\<lparr>ms_Raw := raw\<rparr> in
      bindO (advance (2 + (if IsGeneric s then 1 else 0)) raw) (\<lambda>begin.
      bindO (ParseRetType begin) (\<lambda>(ok, iter).
        if ok then
          bindO (TypeInfo_raw (take (length begin - length iter) begin)) (\<lambda>t.
            Inr (s\<lparr>ms_ReturnType := t, argumentsOffset := length raw - length iter\<rparr>))
        else Inr s)))"

definition ParseArguments :: "MethodSignature \<Rightarrow> MethodSignature outcome" where
  "ParseArguments s =
     bindO (advance (argumentsOffset s) (ms_Raw s)) (\<lambda>iter.
     bindO (parse_infos ParseParam (unat (NumberOfArguments s)) iter) (\<lambda>ts.
       Inr (s\<lparr>ms_Arguments := ms_Arguments s @ ts\<rparr>)))"

section \<open>Functions\<close>

record FunctionInfo =
  fi_Id :: mdToken
  fi_Name :: wstring
  fi_Type :: TypeInfo
  fi_Signature :: MethodSignature
  fi_FunctionSpecSignature :: GenericMethodSignature
  fi_MethodDefId :: mdToken
  fi_Attributes :: "wstring list"

definition FunctionInfo_default :: FunctionInfo where
  "FunctionInfo_default =
     \<lparr>fi_Id = 0, fi_Name = [], fi_Type = TypeInfo_default, fi_Signature = MethodSignature_default,
      fi_FunctionSpecSignature = GenericMethodSignature_default, fi_MethodDefId = 0, fi_Attributes = []\<rparr>"

text \<open>The attributes of a token. The enumeration delivers \<open>md_CustomAttributes\<close>, ten at a time; an
  unordered set is a list without repetition.\<close>

definition attribute_class :: "'w metadata \<Rightarrow> 'w \<Rightarrow> mdToken \<Rightarrow> wstring list \<Rightarrow> wstring list outcome" where
  "attribute_class md w attribute attributes =
     (let tkType = md_GetCustomAttributeProps md w attribute;
          tkType = (if TypeFromToken tkType = mdtMemberRef then fst (snd (md_GetMemberRefProps md w tkType))
                    else if TypeFromToken tkType = mdtMethodDef then snd (md_GetMethodProps md w tkType)
                    else tkType) in
      if TypeFromToken tkType = mdtTypeDef then
        (case md_GetTypeDefProps md w tkType of (hr, (className, len)) \<Rightarrow>
           bindO (ToString className len) (\<lambda>name. Inr (List.insert name attributes)))
      else if TypeFromToken tkType = mdtTypeRef then
        (case md_GetTypeRefProps md w tkType of (hr, (className, len)) \<Rightarrow>
           bindO (ToString className len) (\<lambda>name. Inr (List.insert name attributes)))
      else Inr attributes)"

definition ExtractAttributes :: "'w metadata \<Rightarrow> 'w \<Rightarrow> mdToken \<Rightarrow> wstring list outcome" where
  "ExtractAttributes md w token = foldO (attribute_class md w) (md_CustomAttributes md w token) []"

text \<open>\<open>signature_length < 3\<close> and the test of the first byte, for a type specification.\<close>

definition generic_spec :: "BYTE list \<Rightarrow> bool" where
  "generic_spec signature \<longleftrightarrow> signature ! 0 AND ELEMENT_TYPE_GENERICINST \<noteq> 0"

text \<open>The end of \<open>GetTypeInfo\<close>.\<close>

definition named_type :: "mdToken \<Rightarrow> HRESULT \<Rightarrow> name_buffer \<Rightarrow> TypeInfo outcome" where
  "named_type token hr name =
     (if FAILED hr \<or> snd name = 0 then Inr TypeInfo_default
      else bindO (ToString (fst name) (snd name)) (\<lambda>n. Inr (TypeInfo_named token n [])))"

fun GetFunctionInfo :: "nat \<Rightarrow> 'w metadata \<Rightarrow> 'w \<Rightarrow> mdToken \<Rightarrow> FunctionInfo outcome"
  and GetTypeInfo :: "nat \<Rightarrow> 'w metadata \<Rightarrow> 'w \<Rightarrow> mdToken \<Rightarrow> TypeInfo outcome" where
  "GetFunctionInfo 0 md w token = Inl OutOfFuel"
| "GetFunctionInfo (Suc n) md w token =
     (if TypeFromToken token = mdtMethodSpec then
        (case md_GetMethodSpecProps md w token of (hr, parentToken, rawSignature) \<Rightarrow>
           if FAILED hr then Inr FunctionInfo_default
           else
             bindO (GetFunctionInfo n md w parentToken) (\<lambda>genericInfo.
             let functionName = ToRaw (fi_Name genericInfo) in
             if length functionName = 0 then Inr FunctionInfo_default
             else
               bindO (ExtractAttributes md w token) (\<lambda>attributes.
               bindO (GetTypeInfo n md w parentToken) (\<lambda>typeInfo.
               bindO (ToString functionName (length functionName)) (\<lambda>name.
               bindO (MethodSignature_raw (ms_Raw (fi_Signature genericInfo))) (\<lambda>signature.
               bindO (GenericMethodSignature_raw rawSignature) (\<lambda>spec.
                 Inr \<lparr>fi_Id = token, fi_Name = name, fi_Type = typeInfo, fi_Signature = signature,
                      fi_FunctionSpecSignature = spec, fi_MethodDefId = fi_Id genericInfo,
                      fi_Attributes = attributes\<rparr>)))))))
      else
        let (hr, parentToken, functionName, rawSignature) =
              (if TypeFromToken token = mdtMemberRef then md_GetMemberRefProps md w token
               else if TypeFromToken token = mdtMethodDef then md_GetMemberProps md w token
               else (E_FAIL, mdTokenNil, ([], 0), [])) in
        if FAILED hr \<or> snd functionName = 0 then Inr FunctionInfo_default
        else
          bindO (ExtractAttributes md w token) (\<lambda>attributes.
          bindO (GetTypeInfo n md w parentToken) (\<lambda>typeInfo.
          bindO (ToString (fst functionName) (snd functionName)) (\<lambda>name.
          bindO (MethodSignature_raw rawSignature) (\<lambda>signature.
            Inr (FunctionInfo_default\<lparr>fi_Id := token, fi_Name := name, fi_Type := typeInfo, fi_Signature := signature,
                 fi_Attributes := attributes\<rparr>))))))"
| "GetTypeInfo 0 md w token = Inl OutOfFuel"
| "GetTypeInfo (Suc n) md w token =
     (if TypeFromToken token = mdtTypeDef then
        (case md_GetTypeDefProps md w token of (hr, typeName) \<Rightarrow> named_type token hr typeName)
      else if TypeFromToken token = mdtTypeRef then
        (case md_GetTypeRefProps md w token of (hr, typeName) \<Rightarrow> named_type token hr typeName)
      else if TypeFromToken token = mdtTypeSpec then
        (case md_GetTypeSpecFromToken md w token of (hr, signature) \<Rightarrow>
           if FAILED hr \<or> length signature < 3 then Inr TypeInfo_default
           else if generic_spec signature then
             bindO (CorSigUncompressToken (drop 2 signature)) (\<lambda>(_, typeToken).
             bindO (GetTypeInfo n md w typeToken) (\<lambda>ti.
               TryParseGeneric (set_Raw signature ti)))
           else Inr TypeInfo_default)
      else if TypeFromToken token = mdtMemberRef \<or> TypeFromToken token = mdtMethodDef then
        bindO (GetFunctionInfo n md w token) (\<lambda>f. Inr (fi_Type f))
      else Inr TypeInfo_default)"

definition ResolveParameterType :: "FunctionInfo \<Rightarrow> TypeInfo \<Rightarrow> TypeInfo outcome" where
  "ResolveParameterType f t =
     (let n = unat (ti_GenericRefNumber t) in
      if ti_IsGenericClassRef t then
        if n < length (ti_Generics (fi_Type f))
        then Inr (set_IsRefType (ti_IsRefType t) (ti_Generics (fi_Type f) ! n)) else Inl OutOfBounds
      else if ti_IsGenericMethodRef t then
        if n < length (gs_Generics (fi_FunctionSpecSignature f))
        then Inr (set_IsRefType (ti_IsRefType t) (gs_Generics (fi_FunctionSpecSignature f) ! n)) else Inl OutOfBounds
      else Inr t)"

section \<open>Assemblies and modules\<close>

record AssemblyInfo =
  as_id :: AssemblyID
  as_name :: wstring
  as_manifestModuleId :: ModuleID
  as_appDomainId :: AppDomainID
  as_appDomainName :: wstring

definition AssemblyInfo_default :: AssemblyInfo where
  "AssemblyInfo_default = \<lparr>as_id = 0, as_name = [], as_manifestModuleId = 0, as_appDomainId = 0, as_appDomainName = []\<rparr>"

record ModuleInfo =
  mod_id :: ModuleID
  mod_path :: wstring
  mod_assembly :: AssemblyInfo
  mod_flags :: DWORD

definition ModuleInfo_default :: ModuleInfo where
  "ModuleInfo_default = \<lparr>mod_id = 0, mod_path = [], mod_assembly = AssemblyInfo_default, mod_flags = 0\<rparr>"

text \<open>The answers of \<open>ICorProfilerInfo8\<close> about assemblies, application domains and modules.\<close>

record 'w module_api =
  pi_GetAssemblyInfo :: "'w \<Rightarrow> AssemblyID \<Rightarrow> HRESULT \<times> name_buffer \<times> AppDomainID \<times> ModuleID"
  pi_GetAppDomainInfo :: "'w \<Rightarrow> AppDomainID \<Rightarrow> HRESULT \<times> name_buffer"
  pi_GetModuleInfo2 :: "'w \<Rightarrow> ModuleID \<Rightarrow> HRESULT \<times> name_buffer \<times> AssemblyID \<times> DWORD"

definition GetAssemblyInfo :: "('w, 'a) module_api_scheme \<Rightarrow> 'w \<Rightarrow> AssemblyID \<Rightarrow> AssemblyInfo outcome" where
  "GetAssemblyInfo info w assemblyId =
     (case pi_GetAssemblyInfo info w assemblyId of (hr, assemblyName, appDomainId, manifestModuleId) \<Rightarrow>
        if FAILED hr \<or> snd assemblyName = 0 then Inr AssemblyInfo_default
        else
          (case pi_GetAppDomainInfo info w appDomainId of (hr, appDomainName) \<Rightarrow>
             if FAILED hr \<or> snd appDomainName = 0 then Inr AssemblyInfo_default
             else
               bindO (ToString (fst assemblyName) (snd assemblyName)) (\<lambda>name.
               bindO (ToString (fst appDomainName) (snd appDomainName)) (\<lambda>domain.
                 Inr \<lparr>as_id = assemblyId, as_name = name, as_manifestModuleId = manifestModuleId,
                      as_appDomainId = appDomainId, as_appDomainName = domain\<rparr>))))"

definition GetModuleInfo :: "('w, 'a) module_api_scheme \<Rightarrow> 'w \<Rightarrow> ModuleID \<Rightarrow> ModuleInfo outcome" where
  "GetModuleInfo info w moduleId =
     (case pi_GetModuleInfo2 info w moduleId of (hr, modulePath, assemblyId, moduleFlags) \<Rightarrow>
        if FAILED hr \<or> snd modulePath = 0 then Inr ModuleInfo_default
        else
          bindO (ToString (fst modulePath) (snd modulePath)) (\<lambda>path.
          bindO (GetAssemblyInfo info w assemblyId) (\<lambda>assembly.
            Inr \<lparr>mod_id = moduleId, mod_path = path, mod_assembly = assembly, mod_flags = moduleFlags\<rparr>)))"

section \<open>The types of a signature\<close>

lemma TypeInfo_raw_start:
  assumes "b \<noteq> ELEMENT_TYPE_BYREF"
    and "b = ELEMENT_TYPE_VAR \<or> b = ELEMENT_TYPE_MVAR \<Longrightarrow> \<exists>n \<le> 0x1FFFFFFF. r = number_bytes n"
  shows "\<exists>t. TypeInfo_raw (b # r) = Inr t \<and> ti_Raw t = b # r"
    and "\<exists>t. TypeInfo_raw (ELEMENT_TYPE_BYREF # b # r) = Inr t \<and> ti_Raw t = ELEMENT_TYPE_BYREF # b # r"
proof -
  have num: "\<exists>n. ParseNumber r = Inr (True, n, [])" if "b = ELEMENT_TYPE_VAR \<or> b = ELEMENT_TYPE_MVAR"
  proof -
    from assms(2) [OF that] obtain n where "n \<le> 0x1FFFFFFF" "r = number_bytes n" by (elim exE conjE)
    then have "ParseNumber r = Inr (True, n, [])" using ParseNumber_bytes [of n "[]"] by simp
    then show ?thesis by blast
  qed
  consider (plain) "b \<noteq> ELEMENT_TYPE_VAR" "b \<noteq> ELEMENT_TYPE_MVAR" | (var) n where
      "b = ELEMENT_TYPE_VAR \<or> b = ELEMENT_TYPE_MVAR" "ParseNumber r = Inr (True, n, [])"
    using num by blast
  then show "\<exists>t. TypeInfo_raw (b # r) = Inr t \<and> ti_Raw t = b # r"
    and "\<exists>t. TypeInfo_raw (ELEMENT_TYPE_BYREF # b # r) = Inr t \<and> ti_Raw t = ELEMENT_TYPE_BYREF # b # r"
    using assms(1)
    by (cases; auto simp: TypeInfo_raw_def advance_def peek_byte_def Let_def numeral_2_eq_2)+
qed

lemma TypeInfo_raw_type:
  assumes "good_type t"
  shows "\<exists>x. TypeInfo_raw (type_bytes t) = Inr x \<and> ti_Raw x = type_bytes t"
    and "\<exists>x. TypeInfo_raw (ELEMENT_TYPE_BYREF # type_bytes t) = Inr x \<and> ti_Raw x = ELEMENT_TYPE_BYREF # type_bytes t"
proof -
  obtain b r where t: "type_bytes t = b # r" "starts_type b" using assms by (rule type_bytes_start)
  have "\<exists>n \<le> 0x1FFFFFFF. r = number_bytes n" if "b = ELEMENT_TYPE_VAR \<or> b = ELEMENT_TYPE_MVAR"
    using that t assms by (cases t) (auto simp: simple_kinds_def named_kind_def ets)
  moreover have "b \<noteq> ELEMENT_TYPE_BYREF" using t(2) by (simp add: starts_type_def)
  ultimately show "\<exists>x. TypeInfo_raw (type_bytes t) = Inr x \<and> ti_Raw x = type_bytes t"
    and "\<exists>x. TypeInfo_raw (ELEMENT_TYPE_BYREF # type_bytes t) = Inr x \<and> ti_Raw x = ELEMENT_TYPE_BYREF # type_bytes t"
    using TypeInfo_raw_start [of b r] unfolding t(1) by blast+
qed

lemma TypeInfo_raw_param:
  assumes "good_param p"
  shows "\<exists>x. TypeInfo_raw (param_bytes p) = Inr x \<and> ti_Raw x = param_bytes p"
proof -
  have mods: "\<exists>x. TypeInfo_raw (mod_bytes (m # ms) @ s) = Inr x \<and> ti_Raw x = mod_bytes (m # ms) @ s"
    if "good_mods (m # ms)" for m ms s
  proof -
    obtain k tk where m: "m = (k, tk)" by fastforce
    with that have "k = ELEMENT_TYPE_CMOD_OPT \<or> k = ELEMENT_TYPE_CMOD_REQD" by (simp add: good_mods_def)
    then show ?thesis
      using TypeInfo_raw_start(1) [of k "token_bytes tk @ mod_bytes ms @ s"] by (auto simp: m mod_bytes_def ets)
  qed
  show ?thesis
  proof (cases p)
    case (Param ms ref t)
    with assms have "good_mods ms" "good_type t" by simp_all
    then show ?thesis
      using mods TypeInfo_raw_type [of t] Param by (cases ms; cases ref) (auto simp: mod_bytes_def)
  next
    case (TypedByRef ms)
    with assms have "good_mods ms" by simp
    then show ?thesis
      using mods TypeInfo_raw_start(1) [of ELEMENT_TYPE_TYPEDBYREF "[]"] TypedByRef
      by (cases ms) (auto simp: mod_bytes_def ets)
  qed
qed

lemma parse_infos_params:
  assumes "list_all good_param ps"
  shows "\<exists>ts. parse_infos ParseParam (length ps) (concat (map param_bytes ps) @ rest) = Inr ts \<and>
     map ti_Raw ts = map param_bytes ps \<and> map Inr ts = map (TypeInfo_raw \<circ> param_bytes) ps"
  using assms
proof (induction ps)
  case (Cons p ps)
  then obtain ts where ts: "parse_infos ParseParam (length ps) (concat (map param_bytes ps) @ rest) = Inr ts"
    "map ti_Raw ts = map param_bytes ps" "map Inr ts = map (TypeInfo_raw \<circ> param_bytes) ps" by auto
  have g: "good_param p" using Cons.prems by simp
  obtain x where x: "TypeInfo_raw (param_bytes p) = Inr x" "ti_Raw x = param_bytes p"
    using TypeInfo_raw_param [OF g] by blast
  have "ParseParam (param_bytes p @ concat (map param_bytes ps) @ rest) = Inr (True, concat (map param_bytes ps) @ rest)"
    using ParseType_bytes(2) [OF g] by (simp add: ParseParam_def)
  then have "parse_infos ParseParam (length (p # ps)) (concat (map param_bytes (p # ps)) @ rest) = Inr (x # ts)"
    using ts(1) x(1) by simp
  then show ?case using ts x by simp
qed simp

text \<open>The bytes of a method signature (ECMA-335 II.23.2.1): calling convention, number of generic
  parameters if it is generic, number of parameters, return type, parameters. Both numbers are compressed: one byte
  below 128, two or four from there on.\<close>

definition method_sig :: "BYTE \<Rightarrow> ULONG \<Rightarrow> sig_param \<Rightarrow> sig_param list \<Rightarrow> BYTE list" where
  "method_sig cc gens ret params =
     cc # (if cc AND IMAGE_CEE_CS_CALLCONV_GENERIC \<noteq> 0 then number_bytes gens else []) @ count_bytes params @
     param_bytes ret @ concat (map param_bytes params)"

lemma method_sig_small:
  assumes "gens < 128" "length params < 128"
  shows "method_sig cc gens ret params =
     cc # (if cc AND IMAGE_CEE_CS_CALLCONV_GENERIC \<noteq> 0 then [ucast gens] else []) @ [word_of_nat (length params)] @
     param_bytes ret @ concat (map param_bytes params)"
proof -
  have one: "number_bytes n = [ucast n]" if "n < 128" for n
  proof -
    have "n \<le> 0x7F" using that by (simp add: word_le_nat_alt word_less_nat_alt)
    then show ?thesis by (simp add: CorSigCompressData_def)
  qed
  have "(word_of_nat (length params) :: ULONG) < 128"
    using assms(2) by (simp add: word_less_nat_alt unat_of_nat_32)
  moreover have "(ucast (word_of_nat (length params) :: ULONG) :: BYTE) = word_of_nat (length params)"
    using assms(2) by (simp add: word_unat_eq_iff unsigned_ucast_eq unsigned_of_nat)
  ultimately show ?thesis using one [OF assms(1)] one [of "word_of_nat (length params)"] by (simp add: method_sig_def)
qed

lemma param_bytes_nonempty: "good_param p \<Longrightarrow> param_bytes p \<noteq> []"
  by (erule param_bytes_start) simp

lemma method_sig_reads:
  assumes "good_param ret" "list_all good_param params" and "length params < 128" and "gens < 128"
  shows "\<exists>s rt s'. MethodSignature_raw (method_sig cc gens ret params) = Inr s \<and>
     TypeInfo_raw (param_bytes ret) = Inr rt \<and> ms_ReturnType s = rt \<and> ms_Arguments s = [] \<and>
     ms_Raw s = method_sig cc gens ret params \<and>
     unat (NumberOfArguments s) = length params \<and>
     (IsInstanceMethod s \<longleftrightarrow> cc AND IMAGE_CEE_CS_CALLCONV_HASTHIS \<noteq> 0) \<and>
     ParseArguments s = Inr s' \<and> ms_ReturnType s' = rt \<and> ms_Raw s' = ms_Raw s \<and>
     map ti_Raw (ms_Arguments s') = map param_bytes params \<and>
     map Inr (ms_Arguments s') = map (TypeInfo_raw \<circ> param_bytes) params"
proof -
  note sig = method_sig_small [OF assms(4,3)]
  let ?raw = "method_sig cc gens ret params" and ?rest = "concat (map param_bytes params)"
  let ?hd = "cc # (if cc AND IMAGE_CEE_CS_CALLCONV_GENERIC \<noteq> 0 then [ucast gens] else []) @ [word_of_nat (length params)]"
  let ?d = "MethodSignature_default\<lparr>ms_Raw := ?raw\<rparr>"
  obtain rt where rt: "TypeInfo_raw (param_bytes ret) = Inr rt" using TypeInfo_raw_param [OF assms(1)] by blast
  obtain ts where ts: "parse_infos ParseParam (length params) ?rest = Inr ts"
    "map ti_Raw ts = map param_bytes params" "map Inr ts = map (TypeInfo_raw \<circ> param_bytes) params"
    using parse_infos_params [OF assms(2), of "[]"] by auto
  have raw: "?raw = ?hd @ param_bytes ret @ ?rest" by (simp add: sig)
  have ne: "param_bytes ret \<noteq> []" using assms(1) by (rule param_bytes_nonempty)
  have gen: "IsGeneric ?d \<longleftrightarrow> cc AND IMAGE_CEE_CS_CALLCONV_GENERIC \<noteq> 0"
    using ne by (auto simp: IsGeneric_def CallingConvention_def sig neq_Nil_conv)
  have hd: "length ?hd = 2 + (if IsGeneric ?d then 1 else 0)" by (simp add: gen)
  have ret: "ParseRetType (param_bytes ret @ ?rest) = Inr (True, ?rest)"
    using ParseType_bytes(2) [OF assms(1)] by (simp add: ParseRetType_def)
  let ?s = "?d\<lparr>ms_ReturnType := rt, argumentsOffset := length ?raw - length ?rest\<rparr>"
  have adv: "advance (2 + (if IsGeneric ?d then 1 else 0)) ?raw = Inr (param_bytes ret @ ?rest)"
  proof -
    have "advance (length ?hd) (?hd @ param_bytes ret @ ?rest) = Inr (param_bytes ret @ ?rest)"
      unfolding advance_Inr by (simp only: append_eq_conv_conj length_append) simp
    then show ?thesis unfolding hd raw [symmetric] .
  qed
  have s: "MethodSignature_raw ?raw = Inr ?s"
    unfolding MethodSignature_raw_def Let_def adv by (simp add: ret rt)
  have n: "unat (NumberOfArguments ?s) = length params"
  proof -
    have "unat (word_of_nat (length params) :: BYTE) = length params"
      using assms(3) by (simp add: unat_of_nat take_bit_nat_eq_self)
    moreover have "IsGeneric ?s = IsGeneric ?d" by (simp add: IsGeneric_def CallingConvention_def)
    ultimately show ?thesis
      using ne unfolding NumberOfArguments_def
      by (simp add: gen) (simp add: sig)
  qed
  have "advance (argumentsOffset ?s) (ms_Raw ?s) = Inr ?rest"
    by (simp add: advance_Inr) (simp add: raw)
  then have "ParseArguments ?s = Inr (?s\<lparr>ms_Arguments := ts\<rparr>)"
    by (simp only: ParseArguments_def n) (simp add: ts(1) MethodSignature_default_def)
  moreover have "IsInstanceMethod ?s \<longleftrightarrow> cc AND IMAGE_CEE_CS_CALLCONV_HASTHIS \<noteq> 0"
    by (simp add: IsInstanceMethod_def CallingConvention_def sig)
  ultimately show ?thesis
    using s rt n ts(2,3) by (intro exI [of _ ?s] exI [of _ rt] exI [of _ "?s\<lparr>ms_Arguments := ts\<rparr>"])
      (simp add: MethodSignature_default_def)
qed

section \<open>Fuel\<close>

abbreviation fuel_ok :: "'a outcome \<Rightarrow> bool" where
  "fuel_ok m \<equiv> ends m (\<lambda>_. True)"

named_theorems fuel_rules \<open>computations that do not run out of fuel\<close>

lemma fuel_bind: "fuel_ok m \<Longrightarrow> (\<And>x. m = Inr x \<Longrightarrow> fuel_ok (f x)) \<Longrightarrow> fuel_ok (bindO m f)"
  by (cases m) (simp_all add: ends_def)

lemma fuel_if [fuel_rules]: "(b \<Longrightarrow> fuel_ok m) \<Longrightarrow> (\<not> b \<Longrightarrow> fuel_ok n) \<Longrightarrow> fuel_ok (if b then m else n)"
  by simp

lemma fuel_prod [fuel_rules]: "(\<And>a b. p = (a, b) \<Longrightarrow> fuel_ok (f a b)) \<Longrightarrow> fuel_ok (case p of (a, b) \<Rightarrow> f a b)"
  by (cases p) simp

lemma fuel_Inr [fuel_rules]: "fuel_ok (Inr x)" by simp

lemma fuel_basic [fuel_rules]:
  "fuel_ok (advance n p)" "fuel_ok (peek_byte p)" "fuel_ok (ParseNumber p)" "fuel_ok (CorSigUncompressToken p)"
  "fuel_ok (ToString data len)"
proof -
  show "fuel_ok (advance n p)" by (rule ends_mono [OF ends_advance]) simp
  show "fuel_ok (peek_byte p)" by (rule ends_mono [OF ends_peek]) simp
  show "fuel_ok (ParseNumber p)" by (rule ends_mono [OF ends_number]) simp
  show "fuel_ok (CorSigUncompressToken p)"
    using CorSigUncompressData_fuel [of p]
    by (auto simp: CorSigUncompressToken_def ends_def bindO_def split: sum.splits)
  show "fuel_ok (ToString data len)"
    by (simp add: ToString_def drop_zeros_eq ends_def)
qed

lemma fuel_parse [fuel_rules]: "fuel_ok (ParseType p)" "fuel_ok (ParseRetType p)" "fuel_ok (ParseParam p)"
proof -
  have t: "same_upto (length p) ParseType ParseType" by (simp add: same_upto_def same_ParseType)
  have "ends (ParseType p) (shrunk p)" "ends (ParseRetType p) (shrunk p)" "ends (ParseParam p) (shrunk p)"
    using same_ParseType [of p] same_ret_type [OF t order.refl] same_param [OF t order.refl]
    by (simp_all add: same_def ParseRetType_def ParseParam_def)
  then show "fuel_ok (ParseType p)" "fuel_ok (ParseRetType p)" "fuel_ok (ParseParam p)"
    by (auto intro: ends_mono)
qed

lemma fuel_TypeInfo_raw [fuel_rules]: "fuel_ok (TypeInfo_raw raw)"
  unfolding TypeInfo_raw_def Let_def by (intro fuel_bind fuel_rules)

lemma fuel_parse_infos [fuel_rules]:
  assumes "\<And>q. fuel_ok (parse q)"
  shows "fuel_ok (parse_infos parse n p)"
proof (induction n arbitrary: p)
  case (Suc n)
  then show ?case unfolding parse_infos.simps by (intro fuel_bind fuel_rules assms)
qed simp

lemma fuel_signatures [fuel_rules]:
  "fuel_ok (TryParseGeneric t)" "fuel_ok (GenericMethodSignature_raw raw)" "fuel_ok (MethodSignature_raw raw)"
  unfolding TryParseGeneric_def GenericMethodSignature_raw_def MethodSignature_raw_def Let_def
  by (intro fuel_bind fuel_rules)+

lemma fuel_fold:
  assumes "\<And>x s. fuel_ok (f x s)"
  shows "fuel_ok (foldO f xs s)"
proof (induction xs arbitrary: s)
  case (Cons x xs)
  then show ?case unfolding foldO.simps by (intro fuel_bind assms)
qed simp

lemma fuel_ExtractAttributes [fuel_rules]: "fuel_ok (ExtractAttributes md w token)"
  unfolding ExtractAttributes_def attribute_class_def Let_def
  by (intro fuel_fold fuel_bind fuel_rules)

lemma fuel_named_type [fuel_rules]: "fuel_ok (named_type token hr name)"
  unfolding named_type_def by (intro fuel_bind fuel_rules)

text \<open>What ECMA-335 II.22 says of the kinds of the tokens in valid metadata: a method instantiation
  instantiates a method definition or reference, a method definition belongs to a type definition, and a member
  reference to a type, a module or a method definition. Nothing is said of where the third byte of a type
  specification leads but that a number read there, a coded token or a part of another type, is below \<open>2 ^ 26\<close>, as the
  coded tokens of every row number and the ranks and counts of signatures are.\<close>

definition kinds_ok :: "'w metadata \<Rightarrow> 'w \<Rightarrow> bool" where
  "kinds_ok md w \<longleftrightarrow>
     (\<forall>tk. TypeFromToken tk = mdtMethodSpec \<longrightarrow>
        TypeFromToken (fst (snd (md_GetMethodSpecProps md w tk))) \<in> {mdtMethodDef, mdtMemberRef}) \<and>
     (\<forall>tk. TypeFromToken tk = mdtMethodDef \<longrightarrow>
        TypeFromToken (fst (snd (md_GetMemberProps md w tk))) = mdtTypeDef) \<and>
     (\<forall>tk. TypeFromToken tk = mdtMemberRef \<longrightarrow>
        TypeFromToken (fst (snd (md_GetMemberRefProps md w tk))) \<in>
          {mdtTypeDef, mdtTypeRef, mdtTypeSpec, mdtModuleRef, mdtMethodDef}) \<and>
     (\<forall>tk n d. TypeFromToken tk = mdtTypeSpec \<longrightarrow>
        CorSigUncompressData (drop 2 (snd (md_GetTypeSpecFromToken md w tk))) = Inr (n, d) \<longrightarrow> d < 0x4000000)"

text \<open>The token \<open>GetTypeInfo\<close> goes on to from a type specification that passes its test, the token it reaches in \<open>k\<close>
  such steps, and the class of a method.\<close>

definition spec_next :: "'w metadata \<Rightarrow> 'w \<Rightarrow> mdToken \<Rightarrow> mdToken option" where
  "spec_next md w token =
     (if TypeFromToken token = mdtTypeSpec then
        (case md_GetTypeSpecFromToken md w token of (hr, signature) \<Rightarrow>
           if FAILED hr \<or> length signature < 3 \<or> \<not> generic_spec signature then None
           else (case CorSigUncompressToken (drop 2 signature) of Inl _ \<Rightarrow> None | Inr (_, typeToken) \<Rightarrow> Some typeToken))
      else None)"

primrec spec_chain :: "'w metadata \<Rightarrow> 'w \<Rightarrow> nat \<Rightarrow> mdToken \<Rightarrow> mdToken option" where
  "spec_chain md w 0 token = Some token"
| "spec_chain md w (Suc k) token = (case spec_next md w token of None \<Rightarrow> None | Some t \<Rightarrow> spec_chain md w k t)"

definition owner :: "'w metadata \<Rightarrow> 'w \<Rightarrow> mdToken \<Rightarrow> mdToken" where
  "owner md w token =
     (if TypeFromToken token = mdtMethodSpec then fst (snd (md_GetMethodSpecProps md w token))
      else if TypeFromToken token = mdtMemberRef then fst (snd (md_GetMemberRefProps md w token))
      else if TypeFromToken token = mdtMethodDef then fst (snd (md_GetMemberProps md w token))
      else token)"

definition class_of_method :: "'w metadata \<Rightarrow> 'w \<Rightarrow> mdToken \<Rightarrow> mdToken" where
  "class_of_method md w token = owner md w (owner md w (owner md w token))"

lemma token_kinds [simp]:
  "mdtTypeDef \<noteq> mdtMemberRef" "mdtTypeRef \<noteq> mdtMemberRef" "mdtTypeSpec \<noteq> mdtMemberRef"
  "mdtTypeDef \<noteq> mdtMethodDef" "mdtTypeRef \<noteq> mdtMethodDef" "mdtTypeSpec \<noteq> mdtMethodDef"
  "mdtTypeDef \<noteq> mdtTypeRef" "mdtTypeDef \<noteq> mdtTypeSpec" "mdtTypeRef \<noteq> mdtTypeSpec" "mdtTypeRef \<noteq> mdtTypeDef"
  "mdtTypeSpec \<noteq> mdtTypeDef" "mdtTypeSpec \<noteq> mdtTypeRef" "mdtMethodDef \<noteq> mdtMethodSpec" "mdtMemberRef \<noteq> mdtMethodSpec"
  "mdtMethodDef \<noteq> mdtMemberRef" "mdtMemberRef \<noteq> mdtMethodDef" "mdtMethodDef \<noteq> mdtTypeDef" "mdtMethodDef \<noteq> mdtTypeRef"
  "mdtMethodDef \<noteq> mdtTypeSpec" "mdtMemberRef \<noteq> mdtTypeDef" "mdtMemberRef \<noteq> mdtTypeRef" "mdtMemberRef \<noteq> mdtTypeSpec"
  "mdtModuleRef \<noteq> mdtTypeDef" "mdtModuleRef \<noteq> mdtTypeRef" "mdtModuleRef \<noteq> mdtTypeSpec" "mdtModuleRef \<noteq> mdtMemberRef"
  "mdtModuleRef \<noteq> mdtMethodDef" "mdtMethodSpec \<noteq> mdtMethodDef" "mdtMethodSpec \<noteq> mdtMemberRef"
  "mdtMethodSpec \<noteq> mdtTypeDef" "mdtMethodSpec \<noteq> mdtTypeRef" "mdtMethodSpec \<noteq> mdtTypeSpec"
  by (simp_all add: mdtTypeDef_def mdtTypeRef_def mdtTypeSpec_def mdtMethodDef_def mdtMemberRef_def mdtModuleRef_def
      mdtMethodSpec_def)

lemma fuel_type_leaf:
  "1 \<le> n \<Longrightarrow> TypeFromToken tk \<notin> {mdtTypeSpec, mdtMemberRef, mdtMethodDef} \<Longrightarrow> fuel_ok (GetTypeInfo n md w tk)"
  by (cases n) (auto intro!: fuel_rules)

lemma token_of_data_kind:
  assumes "d < 0x4000000"
  shows "TypeFromToken (token_of_data d) \<in> {mdtTypeDef, mdtTypeRef, mdtTypeSpec, mdtBaseType}"
proof -
  let ?t = "g_tkCorEncodeToken ! unat (d AND 3)"
  have "drop_bit 2 d \<le> mask 24"
    using assms by (simp add: word_le_nat_alt unat_drop_bit_eq drop_bit_eq_div unat_div word_less_nat_alt mask_eq_exp_minus_1)
  then have rid: "\<not> bit (drop_bit 2 d) n" if "24 \<le> n" for n by (rule bits_above [OF _ that])
  have "d AND 3 \<le> 3" by (rule word_and_le1)
  then have "unat (d AND 3) \<le> 3" by (simp add: word_le_nat_alt)
  then have "unat (d AND 3) \<in> {0, 1, 2, 3}" by auto
  then have kind: "?t \<in> {mdtTypeDef, mdtTypeRef, mdtTypeSpec, mdtBaseType}"
    by (auto simp: g_tkCorEncodeToken_def)
  then have "?t AND 0xff000000 = ?t" by (auto simp: mdt_defs)
  moreover have "drop_bit 2 d AND 0xff000000 = 0"
    unfolding not_mask24 by (rule bit_word_eqI) (use rid in \<open>auto simp: bit_and_iff bit_not_iff bit_mask_iff not_less\<close>)
  ultimately have "TypeFromToken (token_of_data d) = ?t"
    unfolding TypeFromToken_def token_of_data_def TokenFromRid_def bit.conj_disj_distrib2 by simp
  then show ?thesis using kind by simp
qed

lemma fuel_type_spec:
  assumes "kinds_ok md w" and "spec_chain md w k tk = None" and "TypeFromToken tk = mdtTypeSpec" and "k < n"
  shows "fuel_ok (GetTypeInfo n md w tk)"
  using assms(2-4)
proof (induction k arbitrary: tk n)
  case (Suc k)
  obtain m where n: "n = Suc m" "k < m" using Suc.prems(3) by (cases n) auto
  obtain hr sig where s: "md_GetTypeSpecFromToken md w tk = (hr, sig)" by fastforce
  have rest: "fuel_ok (GetTypeInfo m md w t)"
    if t: "CorSigUncompressToken (drop 2 sig) = Inr (l, t)" "\<not> (FAILED hr \<or> length sig < 3)" "generic_spec sig" for l t
  proof (cases "TypeFromToken t = mdtTypeSpec")
    case True
    have "spec_next md w tk = Some t" using t Suc.prems(2) s by (simp add: spec_next_def)
    then show ?thesis using Suc.prems(1) n(2) by (intro Suc.IH True) simp_all
  next
    case False
    obtain d where d: "CorSigUncompressData (drop 2 sig) = Inr (l, d)" "t = token_of_data d"
      using t(1) by (auto simp: CorSigUncompressToken_def)
    then have "d < 0x4000000" using assms(1) Suc.prems(2) s unfolding kinds_ok_def by (metis snd_conv)
    then have "TypeFromToken t \<notin> {mdtTypeSpec, mdtMemberRef, mdtMethodDef}"
      using token_of_data_kind [of d] d(2) False by (auto simp: mdt_defs mdtMemberRef_def mdtMethodDef_def)
    then show ?thesis using n(2) by (intro fuel_type_leaf) auto
  qed
  show ?case
    unfolding n(1) GetTypeInfo.simps s Suc.prems(2) prod.case
    by (simp only: token_kinds if_False if_True simp_thms)
      (intro fuel_rules fuel_bind, auto simp del: GetTypeInfo.simps intro: rest fuel_rules)
qed simp

text \<open>A chain that never ends exhausts every fuel.\<close>

lemma spec_chain_diverges:
  assumes "\<forall>k. spec_chain md w k tk \<noteq> None"
  shows "GetTypeInfo n md w tk = Inl OutOfFuel"
  using assms
proof (induction n arbitrary: tk)
  case (Suc n)
  obtain t where t: "spec_next md w tk = Some t" using Suc.prems [rule_format, of 1] by (auto split: option.splits)
  then have "spec_chain md w k t \<noteq> None" for k using Suc.prems [rule_format, of "Suc k"] by simp
  then have ih: "GetTypeInfo n md w t = Inl OutOfFuel" by (intro Suc.IH) simp
  have k: "TypeFromToken tk = mdtTypeSpec" using t by (simp add: spec_next_def split: if_splits)
  obtain hr sig where s: "md_GetTypeSpecFromToken md w tk = (hr, sig)" by fastforce
  obtain l where "\<not> (FAILED hr \<or> length sig < 3)" "generic_spec sig" "CorSigUncompressToken (drop 2 sig) = Inr (l, t)"
    using t k s by (auto simp: spec_next_def split: if_splits sum.splits)
  then show ?case
    unfolding GetTypeInfo.simps k s prod.case by (simp only: token_kinds if_False if_True simp_thms) (simp add: ih)
qed simp

lemma fuel_function:
  assumes "TypeFromToken tk \<in> {mdtMethodDef, mdtMemberRef}"
    and "\<And>p. p \<in> {fst (snd (md_GetMemberRefProps md w tk)), fst (snd (md_GetMemberProps md w tk))} \<Longrightarrow>
      TypeFromToken tk = mdtMethodDef \<longrightarrow> p = fst (snd (md_GetMemberProps md w tk)) \<Longrightarrow>
      TypeFromToken tk = mdtMemberRef \<longrightarrow> p = fst (snd (md_GetMemberRefProps md w tk)) \<Longrightarrow> fuel_ok (GetTypeInfo n md w p)"
  shows "fuel_ok (GetFunctionInfo (Suc n) md w tk)"
proof -
  obtain hr p name sig where props:
    "(if TypeFromToken tk = mdtMemberRef then md_GetMemberRefProps md w tk
      else if TypeFromToken tk = mdtMethodDef then md_GetMemberProps md w tk
      else (E_FAIL, mdTokenNil, ([], 0), [])) = (hr, p, name, sig)"
    by (metis prod_cases4)
  have "fuel_ok (GetTypeInfo n md w p)"
  proof (cases "TypeFromToken tk = mdtMemberRef")
    case True
    then have "p = fst (snd (md_GetMemberRefProps md w tk))" using props by simp
    then show ?thesis using True by (intro assms(2)) auto
  next
    case False
    then have "TypeFromToken tk = mdtMethodDef" using assms(1) by simp
    then have "p = fst (snd (md_GetMemberProps md w tk))" using props by simp
    then show ?thesis using False by (intro assms(2)) auto
  qed
  moreover have "TypeFromToken tk \<noteq> mdtMethodSpec" using assms(1) by auto
  ultimately show ?thesis
    unfolding GetFunctionInfo.simps props Let_def prod.case
    by (simp only: if_False) (intro fuel_rules fuel_bind)
qed

lemma fuel_method_def:
  assumes "kinds_ok md w" and "TypeFromToken tk = mdtMethodDef"
  shows "2 \<le> n \<Longrightarrow> fuel_ok (GetFunctionInfo n md w tk)" and "3 \<le> n \<Longrightarrow> fuel_ok (GetTypeInfo n md w tk)"
proof -
  have parent: "TypeFromToken (fst (snd (md_GetMemberProps md w tk))) = mdtTypeDef"
    using assms by (simp add: kinds_ok_def)
  show f: "fuel_ok (GetFunctionInfo n md w tk)" if "2 \<le> n" for n
  proof -
    obtain m where n: "n = Suc m" "1 \<le> m" using \<open>2 \<le> n\<close> by (cases n) auto
    show ?thesis unfolding n(1)
      by (rule fuel_function) (use assms(2) parent in \<open>auto intro!: fuel_type_leaf n(2)\<close>)
  qed
  show "fuel_ok (GetTypeInfo n md w tk)" if "3 \<le> n"
  proof -
    obtain m where n: "n = Suc m" "2 \<le> m" using \<open>3 \<le> n\<close> by (cases n) auto
    show ?thesis unfolding n(1) GetTypeInfo.simps assms(2)
      by (simp only: token_kinds if_False if_True simp_thms) (intro fuel_bind f n(2) fuel_rules)
  qed
qed

lemma fuel_member_ref:
  assumes "kinds_ok md w" and "TypeFromToken tk = mdtMemberRef" and "spec_chain md w k (owner md w (owner md w tk)) = None"
  shows "k + 4 \<le> n \<Longrightarrow> fuel_ok (GetFunctionInfo n md w tk)" and "k + 5 \<le> n \<Longrightarrow> fuel_ok (GetTypeInfo n md w tk)"
proof -
  let ?p = "fst (snd (md_GetMemberRefProps md w tk))"
  have parent: "TypeFromToken ?p \<in> {mdtTypeDef, mdtTypeRef, mdtTypeSpec, mdtModuleRef, mdtMethodDef}"
    using assms(1,2) by (simp add: kinds_ok_def)
  have p: "fuel_ok (GetTypeInfo m md w ?p)" if "k + 3 \<le> m" for m
  proof (cases "TypeFromToken ?p \<in> {mdtMethodDef, mdtTypeSpec}")
    case True
    have "owner md w (owner md w tk) = ?p" if "TypeFromToken ?p = mdtTypeSpec"
      using that assms(2) by (simp add: owner_def mdt_defs mdtMethodSpec_def mdtMemberRef_def mdtMethodDef_def)
    then show ?thesis
      using True that assms(1,3) fuel_method_def(2) [of md w ?p m] fuel_type_spec [of md w k ?p m] by auto
  next
    case False
    then show ?thesis using parent that by (intro fuel_type_leaf) auto
  qed
  show f: "fuel_ok (GetFunctionInfo n md w tk)" if "k + 4 \<le> n" for n
  proof -
    obtain m where n: "n = Suc m" "k + 3 \<le> m" using \<open>k + 4 \<le> n\<close> by (cases n) auto
    show ?thesis unfolding n(1)
      by (rule fuel_function) (use assms(2) p n(2) in auto)
  qed
  show "fuel_ok (GetTypeInfo n md w tk)" if "k + 5 \<le> n"
  proof -
    obtain m where n: "n = Suc m" "k + 4 \<le> m" using \<open>k + 5 \<le> n\<close> by (cases n) auto
    show ?thesis unfolding n(1) GetTypeInfo.simps assms(2)
      by (simp only: token_kinds if_False if_True simp_thms) (intro fuel_bind f n(2) fuel_rules)
  qed
qed

text \<open>The class of a method is a type already, whose owner is itself.\<close>

lemma class_of_member_ref:
  assumes "kinds_ok md w" and "TypeFromToken tk = mdtMemberRef"
  shows "class_of_method md w tk = owner md w (owner md w tk)"
proof -
  let ?p = "owner md w tk"
  have "?p = fst (snd (md_GetMemberRefProps md w tk))" using assms(2) by (simp add: owner_def)
  then have p: "TypeFromToken ?p \<in> {mdtTypeDef, mdtTypeRef, mdtTypeSpec, mdtModuleRef, mdtMethodDef}"
    using assms by (simp add: kinds_ok_def)
  have type: "owner md w t = t" if "TypeFromToken t \<in> {mdtTypeDef, mdtTypeRef, mdtTypeSpec, mdtModuleRef}" for t
    using that by (auto simp: owner_def mdt_defs mdtMethodSpec_def mdtMemberRef_def mdtMethodDef_def mdtModuleRef_def)
  show ?thesis
  proof (cases "TypeFromToken ?p = mdtMethodDef")
    case True
    then have "owner md w ?p = fst (snd (md_GetMemberProps md w ?p))" by (simp add: owner_def)
    then have "TypeFromToken (owner md w ?p) = mdtTypeDef" using assms(1) True by (simp add: kinds_ok_def)
    then show ?thesis using type [of "owner md w ?p"] by (simp add: class_of_method_def)
  qed (use p type [of ?p] in \<open>simp add: class_of_method_def\<close>)
qed

lemma fuel_enough:
  assumes "kinds_ok md w" and "spec_chain md w k (class_of_method md w tk) = None" and "k + 6 \<le> n"
  shows "fuel_ok (GetFunctionInfo n md w tk)"
proof -
  obtain m where n: "n = Suc m" "k + 5 \<le> m" using assms(3) by (cases n) auto
  consider (spec) "TypeFromToken tk = mdtMethodSpec" | (def) "TypeFromToken tk = mdtMethodDef"
    | (member) "TypeFromToken tk = mdtMemberRef"
    | (other) "TypeFromToken tk \<notin> {mdtMethodSpec, mdtMethodDef, mdtMemberRef}" by auto
  then show ?thesis
  proof cases
    case spec
    obtain hr p sig where s: "md_GetMethodSpecProps md w tk = (hr, p, sig)" by (metis prod_cases3)
    have kind: "TypeFromToken p \<in> {mdtMethodDef, mdtMemberRef}"
      using assms(1) spec s unfolding kinds_ok_def by (metis fst_conv snd_conv)
    have "class_of_method md w tk = owner md w (owner md w p)" using spec s by (simp add: class_of_method_def owner_def)
    then have "fuel_ok (GetFunctionInfo m md w p)" "fuel_ok (GetTypeInfo m md w p)"
      using kind assms(2) fuel_method_def [OF assms(1), of p m] fuel_member_ref [OF assms(1), of p k m] n(2) by auto
    then show ?thesis
      unfolding n(1) GetFunctionInfo.simps spec s Let_def prod.case
      by (simp only: if_True simp_thms) (intro fuel_rules fuel_bind)
  next
    case def
    then show ?thesis using assms by (intro fuel_method_def(1)) auto
  next
    case member
    then show ?thesis using assms class_of_member_ref [OF assms(1) member] by (intro fuel_member_ref(1) [of _ _ _ k]) auto
  next
    case other
    then show ?thesis by (simp add: n(1))
  qed
qed

section \<open>Properties\<close>

text \<open>C31: a method signature whose parts the type grammar covers and whose two counts, of the parameters and of the
  generic parameters, are below 128, so that each takes one byte, is taken apart exactly: the return type is the one read
  from its bytes, the number of arguments is that of the parameters, and \<open>ParseArguments\<close> yields, in order, the type of
  every parameter, with the bytes of the parameter as its raw signature.\<close>

theorem MethodSignature_parses:
  assumes "good_param ret" and "list_all good_param params" and "length params < 128" and "gens < 128"
  shows "\<exists>s rt s'. MethodSignature_raw (method_sig cc gens ret params) = Inr s \<and>
     TypeInfo_raw (param_bytes ret) = Inr rt \<and> ms_ReturnType s = rt \<and>
     unat (NumberOfArguments s) = length params \<and>
     (IsInstanceMethod s \<longleftrightarrow> cc AND IMAGE_CEE_CS_CALLCONV_HASTHIS \<noteq> 0) \<and>
     ParseArguments s = Inr s' \<and> map ti_Raw (ms_Arguments s') = map param_bytes params \<and>
     map Inr (ms_Arguments s') = map (TypeInfo_raw \<circ> param_bytes) params"
  using method_sig_reads [OF assms, of cc] by blast

lemma MethodSignature_parses_witness:
  "\<exists>s s'. MethodSignature_raw [0x20, 2, 1, 8, 0x10, 0x0e] = Inr s \<and> ParseArguments s = Inr s' \<and>
     map ti_Raw (ms_Arguments s') = [[8], [0x10, 0x0e]]"
proof -
  let ?p = "\<lambda>r t. Param [] r (Simple t)"
  have "method_sig 0x20 0 (?p False ELEMENT_TYPE_VOID) [?p False ELEMENT_TYPE_I4, ?p True ELEMENT_TYPE_STRING] =
      [0x20, 2, 1, 8, 0x10, 0x0e]"
    by (simp add: method_sig_small mod_bytes_def ets callconvs)
  note sig = this
  have g: "good_param (?p False ELEMENT_TYPE_VOID)"
    "list_all good_param [?p False ELEMENT_TYPE_I4, ?p True ELEMENT_TYPE_STRING]"
    by (simp_all add: good_mods_def simple_kinds_def)
  have b: "map param_bytes [?p False ELEMENT_TYPE_I4, ?p True ELEMENT_TYPE_STRING] = [[8], [0x10, 0x0e]]"
    by (simp add: mod_bytes_def ets)
  have l: "length [?p False ELEMENT_TYPE_I4, ?p True ELEMENT_TYPE_STRING] < 128" by simp
  have z: "(0 :: ULONG) < 128" by simp
  obtain s s' where "MethodSignature_raw [0x20, 2, 1, 8, 0x10, 0x0e] = Inr s" "ParseArguments s = Inr s'"
    "map ti_Raw (ms_Arguments s') = [[8], [0x10, 0x0e]]"
    using MethodSignature_parses [OF g l z, of "0x20"] unfolding sig b by (elim exE conjE)
  then show ?thesis by (intro exI conjI)
qed

text \<open>C32: the mutual recursion of \<open>GetFunctionInfo\<close> and \<open>GetTypeInfo\<close> ends exactly where the chains of type specifications
  do. From a specification \<open>GetTypeInfo\<close> goes on to the token it reads in the third byte, and it ends at some depth if and
  only if that chain, followed from specification to specification, ends. A method is described within \<open>k + 6\<close> calls
  when the chain from its class ends in less than \<open>k\<close> steps. The metadata need only have the token kinds ECMA-335 prescribes and
  numbers below \<open>2 ^ 26\<close> in the third bytes; the chain need not end in valid metadata, see the next claim.\<close>

theorem GetFunctionInfo_terminates:
  assumes "kinds_ok md w"
  shows "(TypeFromToken token = mdtTypeSpec \<longrightarrow>
      (\<exists>n. GetTypeInfo n md w token \<noteq> Inl OutOfFuel) = (\<exists>k. spec_chain md w k token = None)) \<and>
    (\<forall>k n. spec_chain md w k (class_of_method md w token) = None \<longrightarrow> k + 6 \<le> n \<longrightarrow>
      GetFunctionInfo n md w token \<noteq> Inl OutOfFuel)"
proof (intro conjI impI allI iffI)
  assume "\<exists>n. GetTypeInfo n md w token \<noteq> Inl OutOfFuel"
  then show "\<exists>k. spec_chain md w k token = None" by (metis spec_chain_diverges)
next
  assume t: "TypeFromToken token = mdtTypeSpec" and "\<exists>k. spec_chain md w k token = None"
  then obtain k where "spec_chain md w k token = None" by blast
  then show "\<exists>n. GetTypeInfo n md w token \<noteq> Inl OutOfFuel"
    using fuel_type_spec [OF assms _ t, of k "Suc k"] by (intro exI [of _ "Suc k"]) (auto simp: ends_def)
next
  fix k n
  assume "spec_chain md w k (class_of_method md w token) = None" "k + 6 \<le> n"
  then show "GetFunctionInfo n md w token \<noteq> Inl OutOfFuel" using fuel_enough [OF assms, of k token n] by (auto simp: ends_def)
qed

text \<open>One generic type, its specification by a vector of it, one method of the specification and one instantiation.\<close>

definition example_scope :: "(BYTE list list) metadata" where
  "example_scope = example_metadata\<lparr>
     md_GetMethodSpecProps := (\<lambda>w tk. (S_OK, 0x0a000001, [0x0a, 1, 8])),
     md_GetMemberRefProps := (\<lambda>w tk. (S_OK, 0x1b000001, ([0x42, 0], 2), [0x20, 0, 1])),
     md_GetMemberProps := (\<lambda>w tk. (S_OK, 0x02000001, ([0x42, 0], 2), [0x20, 0, 1])),
     md_GetTypeSpecFromToken := (\<lambda>w tk. (S_OK, [0x15, 0x12, 0x04, 1, 8]))\<rparr>"

lemma GetFunctionInfo_terminates_witness:
  "GetFunctionInfo 8 example_scope [] 0x2b000001 \<noteq> Inl OutOfFuel \<and>
   (\<exists>n. GetTypeInfo n example_scope [] 0x1b000001 \<noteq> Inl OutOfFuel)"
proof -
  have d: "CorSigUncompressData [4, 1, 8] = Inr (1, 4)"
    by (simp add: CorSigUncompressData_def CorSigUncompressDataLen_def peek_byte_def)
  then have t: "CorSigUncompressToken [4, 1, 8] = Inr (1, 0x02000001)"
    by (simp add: CorSigUncompressToken_def token_of_data_def TokenFromRid_def g_tkCorEncodeToken_def mdt_defs)
  have ok: "kinds_ok example_scope []"
    by (simp add: kinds_ok_def example_scope_def TypeFromToken_def mdt_defs mdtMethodSpec_def mdtMemberRef_def mdtMethodDef_def d)
  have c: "class_of_method example_scope [] 0x2b000001 = 0x1b000001" "TypeFromToken 0x1b000001 = mdtTypeSpec"
    by (simp_all add: class_of_method_def owner_def example_scope_def TypeFromToken_def mdt_defs
        mdtMethodSpec_def mdtMemberRef_def mdtMethodDef_def)
  have "spec_next example_scope [] 0x1b000001 = Some 0x02000001" "spec_next example_scope [] 0x02000001 = None"
    by (simp_all add: spec_next_def example_scope_def TypeFromToken_def mdt_defs generic_spec_def element_types t)
  then have k: "spec_chain example_scope [] (Suc (Suc 0)) 0x1b000001 = None" by simp
  have "GetFunctionInfo 8 example_scope [] 0x2b000001 \<noteq> Inl OutOfFuel"
    by (rule conjunct2 [OF GetFunctionInfo_terminates [OF ok, of "0x2b000001"], rule_format, of "Suc (Suc 0)" 8, unfolded c(1), OF k])
      simp
  moreover have "\<exists>n. GetTypeInfo n example_scope [] 0x1b000001 \<noteq> Inl OutOfFuel"
    using GetFunctionInfo_terminates [OF ok, of "0x1b000001"] c(2) k by blast
  ultimately show ?thesis ..
qed

text \<open>C33: the test for a generic instantiation, which looks at the common bits of the codes, takes the specification of
  an array for one and reads the rank of the array as a token: with the six-dimensional array of integers as the
  first type specification of a module, \<open>GetTypeInfo\<close> calls itself on the very same token, and no depth is
  enough.\<close>

theorem GetTypeInfo_array_diverges:
  assumes "md_GetTypeSpecFromToken md w 0x1b000001 = (S_OK, [ELEMENT_TYPE_ARRAY, ELEMENT_TYPE_I4, 6, 0, 0])"
  shows "GetTypeInfo n md w 0x1b000001 = Inl OutOfFuel"
proof (induction n)
  case (Suc n)
  have k: "TypeFromToken 0x1b000001 = mdtTypeSpec" by (simp add: TypeFromToken_def mdtTypeSpec_def)
  have t: "CorSigUncompressToken (drop 2 [ELEMENT_TYPE_ARRAY, ELEMENT_TYPE_I4, 6, 0, 0]) = Inr (1, 0x1b000001)"
    by (simp add: CorSigUncompressToken_def CorSigUncompressData_def CorSigUncompressDataLen_def peek_byte_def
        token_of_data_def TokenFromRid_def g_tkCorEncodeToken_def mdt_defs)
  have g: "generic_spec [ELEMENT_TYPE_ARRAY, ELEMENT_TYPE_I4, 6, 0, 0]" by (simp add: generic_spec_def element_types)
  show ?case
    unfolding GetTypeInfo.simps k assms prod.case
    by (simp only: token_kinds if_False if_True simp_thms g t) (simp add: Suc.IH)
qed simp

lemma GetTypeInfo_array_diverges_witness:
  "GetTypeInfo 100 (example_scope\<lparr>md_GetTypeSpecFromToken := (\<lambda>w tk. (S_OK, [0x14, 8, 6, 0, 0]))\<rparr>) [] 0x1b000001 = Inl OutOfFuel"
  by (rule GetTypeInfo_array_diverges) (simp add: element_types)

end
