(* ===== verification/Config.thy ===== *)
theory Config
  imports Complex_Main Info
begin

text \<open>
  The configuration (\<^verbatim>\<open>configuration/\<close>): what \<open>LoadFromStream\<close> makes of the JSON document
  \<open>PROFILER_CONFIGURATION\<close> names.

  The document is a value of the JSON library (\<^verbatim>\<open>nlohmann/json.hpp\<close>); the parser is the library's and not
  modelled, the access functions the loader calls are. A C++ exception leaves the loader as
  \<open>UncaughtException\<close>. Strings are bytes in UTF-8, an unordered set is a list without repetition and an
  unordered map a list of pairs with distinct keys, in the order of their insertion.
\<close>

section \<open>JSON values\<close>

text \<open>An object is a \<open>std::map\<close>: its pairs have distinct keys. A number keeps the kind the parser gave
  it.\<close>

datatype json =
  JNull
| JObject "(BYTE list \<times> json) list"
| JArray "json list"
| JString "BYTE list"
| JBoolean bool
| JInteger INT64
| JUnsigned "64 word"
| JFloat rat

text \<open>A \<open>std::string\<close> from an ASCII literal.\<close>

definition B :: "string \<Rightarrow> BYTE list" where
  "B s = map of_char s"

text \<open>\<open>operator[]\<close> of a value that is not constant: a missing key is inserted with null, and null becomes
  an object.\<close>

definition json_subscript :: "BYTE list \<Rightarrow> json \<Rightarrow> (json \<times> json) outcome" where
  "json_subscript key j =
     (case (if j = JNull then JObject [] else j) of
        JObject m \<Rightarrow>
          (case map_of m key of
             Some v \<Rightarrow> Inr (v, JObject m)
           | None \<Rightarrow> Inr (JNull, JObject (m @ [(key, JNull)])))
      | _ \<Rightarrow> Inl UncaughtException)"

text \<open>\<open>operator[]\<close> of a constant value dereferences what \<open>find\<close> returns, the end for a missing key.\<close>

definition json_const_subscript :: "BYTE list \<Rightarrow> json \<Rightarrow> json outcome" where
  "json_const_subscript key j =
     (case j of
        JObject m \<Rightarrow> (case map_of m key of Some v \<Rightarrow> Inr v | None \<Rightarrow> Inl OutOfBounds)
      | _ \<Rightarrow> Inl UncaughtException)"

text \<open>The elements a range-based \<open>for\<close> visits: of an object its values, of a value that is neither null
  nor a container the value itself.\<close>

definition json_elements :: "json \<Rightarrow> json list" where
  "json_elements j =
     (case j of JNull \<Rightarrow> [] | JArray xs \<Rightarrow> xs | JObject m \<Rightarrow> map snd m | v \<Rightarrow> [v])"

definition is_object :: "json \<Rightarrow> bool" where
  "is_object j = (case j of JObject m \<Rightarrow> True | _ \<Rightarrow> False)"

definition json_string :: "json \<Rightarrow> BYTE list outcome" where
  "json_string j = (case j of JString s \<Rightarrow> Inr s | _ \<Rightarrow> Inl UncaughtException)"

text \<open>\<open>static_cast<int>\<close> of a number that has no such value is undefined for a floating-point number.\<close>

definition int_of_float :: "rat \<Rightarrow> INT32 outcome" where
  "int_of_float r =
     (let n = (if r \<ge> 0 then \<lfloor>r\<rfloor> else \<lceil>r\<rceil>) in
      if - (2 ^ 31) \<le> n \<and> n < 2 ^ 31 then Inr (word_of_int n) else Inl OutOfBounds)"

definition json_int :: "json \<Rightarrow> INT32 outcome" where
  "json_int j =
     (case j of
        JUnsigned n \<Rightarrow> Inr (ucast n)
      | JInteger n \<Rightarrow> Inr (ucast n)
      | JFloat r \<Rightarrow> int_of_float r
      | JBoolean b \<Rightarrow> Inr (if b then 1 else 0)
      | _ \<Rightarrow> Inl UncaughtException)"

definition json_value :: "(json \<Rightarrow> 'a outcome) \<Rightarrow> BYTE list \<Rightarrow> 'a \<Rightarrow> json \<Rightarrow> 'a outcome" where
  "json_value get key default_value j =
     (case j of
        JObject m \<Rightarrow> (case map_of m key of Some v \<Rightarrow> get v | None \<Rightarrow> Inr default_value)
      | _ \<Rightarrow> Inl UncaughtException)"

section \<open>The configuration\<close>

record ConfigTypeInfo =
  ci_AssemblyName :: wstring
  ci_TypeName :: wstring

definition ConfigTypeInfo_default :: ConfigTypeInfo where
  "ConfigTypeInfo_default = \<lparr>ci_AssemblyName = [], ci_TypeName = []\<rparr>"

record TargetMethod =
  tm_AssemblyName :: wstring
  tm_TypeName :: wstring
  tm_MethodName :: wstring
  tm_MethodParametersCount :: INT32

definition TargetMethod_default :: TargetMethod where
  "TargetMethod_default =
     \<lparr>tm_AssemblyName = [], tm_TypeName = [], tm_MethodName = [], tm_MethodParametersCount = 0\<rparr>"

record StrictInterception =
  si_IgnoreCallerAssemblies :: "wstring list"
  si_Target :: TargetMethod
  si_Interceptor :: ConfigTypeInfo

definition StrictInterception_default :: StrictInterception where
  "StrictInterception_default =
     \<lparr>si_IgnoreCallerAssemblies = [], si_Target = TargetMethod_default, si_Interceptor = ConfigTypeInfo_default\<rparr>"

record MethodFinder =
  mf_Target :: TargetMethod
  mf_Finder :: ConfigTypeInfo

definition MethodFinder_default :: MethodFinder where
  "MethodFinder_default = \<lparr>mf_Target = TargetMethod_default, mf_Finder = ConfigTypeInfo_default\<rparr>"

record AttributedInterceptor =
  ai_Interceptor :: ConfigTypeInfo
  ai_AttributeType :: wstring

definition AttributedInterceptor_default :: AttributedInterceptor where
  "AttributedInterceptor_default = \<lparr>ai_Interceptor = ConfigTypeInfo_default, ai_AttributeType = []\<rparr>"

record Configuration =
  StrictInterceptions :: "StrictInterception list"
  Assemblies :: "wstring list"
  AttributedInterceptors :: "(wstring \<times> AttributedInterceptor) list"
  InterceptorInterface :: ConfigTypeInfo
  ComposedInterceptor :: ConfigTypeInfo
  MethodFinderInterface :: ConfigTypeInfo
  MethodFinders :: "MethodFinder list"
  SkipAssemblies :: "wstring list"
  EnabledAssemblies :: "wstring list"

definition Configuration_default :: Configuration where
  "Configuration_default =
     \<lparr>StrictInterceptions = [], Assemblies = [], AttributedInterceptors = [],
      InterceptorInterface = ConfigTypeInfo_default, ComposedInterceptor = ConfigTypeInfo_default,
      MethodFinderInterface = ConfigTypeInfo_default, MethodFinders = [], SkipAssemblies = [],
      EnabledAssemblies = []\<rparr>"

section \<open>Loading\<close>

definition LoadTypeInfoFromJson :: "json \<Rightarrow> (ConfigTypeInfo \<times> bool) outcome" where
  "LoadTypeInfoFromJson src =
     (if \<not> is_object src then Inr (ConfigTypeInfo_default, False)
      else
        bindO (json_value json_string (B ''AssemblyName'') [] src) (\<lambda>a. bindO (ToWSTRING a) (\<lambda>assemblyName.
        bindO (json_value json_string (B ''TypeName'') [] src) (\<lambda>t. bindO (ToWSTRING t) (\<lambda>typeName.
          Inr (\<lparr>ci_AssemblyName = assemblyName, ci_TypeName = typeName\<rparr>, True))))))"

definition LoadTargetFromJson :: "json \<Rightarrow> (TargetMethod \<times> bool) outcome" where
  "LoadTargetFromJson src =
     (if \<not> is_object src then Inr (TargetMethod_default, False)
      else
        bindO (json_value json_string (B ''AssemblyName'') [] src) (\<lambda>a. bindO (ToWSTRING a) (\<lambda>assemblyName.
        bindO (json_value json_string (B ''TypeName'') [] src) (\<lambda>t. bindO (ToWSTRING t) (\<lambda>typeName.
        bindO (json_value json_string (B ''MethodName'') [] src) (\<lambda>m. bindO (ToWSTRING m) (\<lambda>methodName.
        bindO (json_value json_int (B ''MethodParametersCount'') 0 src) (\<lambda>methodParametersCount.
          Inr (\<lparr>tm_AssemblyName = assemblyName, tm_TypeName = typeName, tm_MethodName = methodName,
                tm_MethodParametersCount = methodParametersCount\<rparr>, True)))))))))"

definition LoadAttributedInterceptorFromJson :: "json \<Rightarrow> (AttributedInterceptor \<times> bool) outcome" where
  "LoadAttributedInterceptorFromJson src =
     (if \<not> is_object src then Inr (AttributedInterceptor_default, False)
      else
        bindO (json_value json_string (B ''AttributeType'') [] src) (\<lambda>a. bindO (ToWSTRING a) (\<lambda>attributeType.
        bindO (json_const_subscript (B ''Interceptor'') src) (\<lambda>i.
        bindO (LoadTypeInfoFromJson i) (\<lambda>(interceptor, _).
          Inr (\<lparr>ai_Interceptor = interceptor, ai_AttributeType = attributeType\<rparr>, True))))))"

definition LoadMethodFinder :: "json \<Rightarrow> (MethodFinder \<times> bool) outcome" where
  "LoadMethodFinder src =
     (if \<not> is_object src then Inr (MethodFinder_default, False)
      else
        bindO (json_const_subscript (B ''MethodFinder'') src) (\<lambda>f.
        bindO (LoadTypeInfoFromJson f) (\<lambda>(typeInfo, _).
        bindO (json_const_subscript (B ''Target'') src) (\<lambda>t.
        bindO (LoadTargetFromJson t) (\<lambda>(target, _).
          Inr (\<lparr>mf_Target = target, mf_Finder = typeInfo\<rparr>, True))))))"

text \<open>The loop that inserts strings into an unordered set.\<close>

definition insert_string :: "json \<Rightarrow> wstring list \<Rightarrow> wstring list outcome" where
  "insert_string el names =
     bindO (json_string el) (\<lambda>s. bindO (ToWSTRING s) (\<lambda>n. Inr (if n \<in> set names then names else names @ [n])))"

definition push_string :: "json \<Rightarrow> wstring list \<Rightarrow> wstring list outcome" where
  "push_string el names = bindO (json_string el) (\<lambda>s. bindO (ToWSTRING s) (\<lambda>n. Inr (names @ [n])))"

definition LoadInterceptionFromJson :: "json \<Rightarrow> (StrictInterception \<times> bool) outcome" where
  "LoadInterceptionFromJson src =
     (if \<not> is_object src then Inr (StrictInterception_default, False)
      else
        bindO (json_const_subscript (B ''Interceptor'') src) (\<lambda>i.
        bindO (LoadTypeInfoFromJson i) (\<lambda>(interceptor, _).
        bindO (json_const_subscript (B ''Target'') src) (\<lambda>t.
        bindO (LoadTargetFromJson t) (\<lambda>(target, _).
        bindO (json_const_subscript (B ''IgnoreCallerAssemblies'') src) (\<lambda>ignored.
        bindO (foldO insert_string (json_elements ignored) []) (\<lambda>ignoreCallerAssemblies.
          Inr (\<lparr>si_IgnoreCallerAssemblies = ignoreCallerAssemblies, si_Target = target,
                si_Interceptor = interceptor\<rparr>, True))))))))"

text \<open>The loops of \<open>LoadFromStream\<close>: an element that was loaded is appended.\<close>

definition push_loaded :: "(json \<Rightarrow> ('a \<times> bool) outcome) \<Rightarrow> json \<Rightarrow> 'a list \<Rightarrow> 'a list outcome" where
  "push_loaded load el xs = bindO (load el) (\<lambda>(i, loaded). Inr (if loaded then xs @ [i] else xs))"

definition insert_attributed ::
  "json \<Rightarrow> (wstring \<times> AttributedInterceptor) list \<Rightarrow> (wstring \<times> AttributedInterceptor) list outcome" where
  "insert_attributed el m =
     bindO (LoadAttributedInterceptorFromJson el) (\<lambda>(i, loaded).
       Inr (if loaded \<and> map_of m (ai_AttributeType i) = None then m @ [(ai_AttributeType i, i)] else m))"

text \<open>\<open>stream\<close> is what the parser makes of the stream: a value, or an exception.\<close>

definition LoadFromStream :: "json option \<Rightarrow> Configuration outcome" where
  "LoadFromStream stream =
     (case stream of None \<Rightarrow> Inl UncaughtException | Some j \<Rightarrow>
        bindO (json_subscript (B ''strict'') j) (\<lambda>(strict, j).
        bindO (foldO (push_loaded LoadInterceptionFromJson) (json_elements strict) []) (\<lambda>interceptions.
        bindO (json_subscript (B ''methodFinders'') j) (\<lambda>(finders, j).
        bindO (foldO (push_loaded LoadMethodFinder) (json_elements finders) []) (\<lambda>methodFinders.
        bindO (json_subscript (B ''assemblies'') j) (\<lambda>(names, j).
        bindO (foldO push_string (json_elements names) []) (\<lambda>assemblies.
        bindO (json_subscript (B ''skipAssemblies'') j) (\<lambda>(skip, j).
        bindO (foldO insert_string (json_elements skip) []) (\<lambda>skipAssemblies.
        bindO (json_subscript (B ''enabledAssemblies'') j) (\<lambda>(enabled, j).
        bindO (foldO insert_string (json_elements enabled) []) (\<lambda>enabledAssemblies.
        bindO (json_subscript (B ''attributed'') j) (\<lambda>(attributed, j).
        bindO (foldO insert_attributed (json_elements attributed) []) (\<lambda>attributedInterceptors.
        bindO (json_subscript (B ''interceptorInterface'') j) (\<lambda>(t, j).
        bindO (LoadTypeInfoFromJson t) (\<lambda>(interceptorInterface, _).
        bindO (json_subscript (B ''composedInterceptor'') j) (\<lambda>(t, j).
        bindO (LoadTypeInfoFromJson t) (\<lambda>(composedInterceptor, _).
        bindO (json_subscript (B ''methodFinderInterface'') j) (\<lambda>(t, j).
        bindO (LoadTypeInfoFromJson t) (\<lambda>(methodFinderInterface, _).
          Inr \<lparr>StrictInterceptions = interceptions, Assemblies = assemblies,
               AttributedInterceptors = attributedInterceptors, InterceptorInterface = interceptorInterface,
               ComposedInterceptor = composedInterceptor, MethodFinderInterface = methodFinderInterface,
               MethodFinders = methodFinders, SkipAssemblies = skipAssemblies,
               EnabledAssemblies = enabledAssemblies\<rparr>)))))))))))))))))))"

text \<open>\<open>open\<close> is a parameter: what the parser makes of the file of that name, if it opens. Every exception
  is rethrown.\<close>

definition LoadConfiguration :: "(BYTE list \<Rightarrow> json option option) \<Rightarrow> BYTE list \<Rightarrow> Configuration outcome" where
  "LoadConfiguration opened path =
     (case opened path of Some stream \<Rightarrow> LoadFromStream stream | None \<Rightarrow> Inr Configuration_default)"

section \<open>Reading back what was written\<close>

lemma of_char_byte_eq [simp]: "(of_char c :: BYTE) = of_char d \<longleftrightarrow> c = d"
proof -
  have "unat (of_char x :: BYTE) = of_char x" for x
  proof -
    have "(of_char x :: nat) < 2 ^ 8" using of_char_mod_256 [of x, where 'a = nat] by (simp add: mod_eq_nat1E) 
    then have "unat (of_nat (of_char x) :: BYTE) = of_char x" by (simp only: unat_of_nat) (simp add: take_bit_nat_eq_self)
    then show ?thesis by (simp only: of_nat_of_char)
  qed
  then show ?thesis by (metis of_char_eq_iff)
qed

lemma B_eq [simp]: "B s = B t \<longleftrightarrow> s = t"
  unfolding B_def by (rule inj_map_eq_map) (rule injI, simp)

text \<open>The wide strings that are the UTF-16 of scalar values other than zero, and their UTF-8.\<close>

definition readable :: "wstring \<Rightarrow> bool" where
  "readable s \<longleftrightarrow> (\<exists>ps. list_all (\<lambda>p. scalar p \<and> p \<noteq> 0) ps \<and> s = concat (map utf16_units ps))"

definition narrow :: "wstring \<Rightarrow> BYTE list" where
  "narrow s = (case to_utf8 s of Inr b \<Rightarrow> b | Inl _ \<Rightarrow> [])"

lemma utf16_units_nonzero:
  assumes "scalar p" "p \<noteq> 0"
  shows "0 \<notin> set (utf16_units p)"
proof (cases "p < 0x10000")
  case True
  have "unat (ucast p :: WCHAR) \<noteq> 0" using assms(2) by (simp add: ucast_WCHAR [OF True] unat_eq_0)
  then have "(ucast p :: WCHAR) \<noteq> 0" by (metis unat_0)
  then show ?thesis using True by (simp add: utf16_units_def utf16_encode_def)
next
  case False
  then have p: "0x10000 \<le> p" "p < 0x110000" using assms(1) by (simp_all add: scalar_def)
  have "\<not> is_high_surrogate 0" "\<not> is_low_surrogate 0"
    by (simp_all add: is_high_surrogate_def is_low_surrogate_def)
  then show ?thesis using False surrogates(1,2) [OF p]
    by (auto simp: utf16_units_def utf16_encode_def Let_def)
qed

lemma ToWSTRING_narrow:
  assumes "readable s"
  shows "ToWSTRING (narrow s) = Inr s"
proof -
  obtain ps where ps: "list_all (\<lambda>p. scalar p \<and> p \<noteq> 0) ps" "s = concat (map utf16_units ps)"
    using assms by (auto simp: readable_def)
  then have "list_all scalar ps" "list_all code_point ps"
    by (auto simp: list_all_iff scalar_def code_point_def)
  then have "to_utf16 (narrow s) = Inr s"
    using to_utf16_from_bytes [of ps "[]" "[]"] to_utf8_from_units [of ps "[]" "[]"] ps(2)
    by (simp add: to_utf16_def to_utf8_def narrow_def)
  moreover have "0 \<notin> set s" using ps utf16_units_nonzero by (auto simp: list_all_iff)
  then have "c_str s = s" by (auto simp: c_str_def takeWhile_eq_all_conv)
  ultimately show ?thesis by (simp add: ToWSTRING_def)
qed

lemma readable_empty [simp]: "readable []"
  unfolding readable_def by (rule exI [of _ "[]"]) simp

text \<open>The documents of the members, of any configuration.\<close>

definition json_of_type :: "ConfigTypeInfo \<Rightarrow> json" where
  "json_of_type t = JObject [(B ''AssemblyName'', JString (narrow (ci_AssemblyName t))),
     (B ''TypeName'', JString (narrow (ci_TypeName t)))]"

definition json_of_int :: "INT32 \<Rightarrow> json" where
  "json_of_int n = (if sint n < 0 then JInteger (scast n) else JUnsigned (scast n))"

definition json_of_target :: "TargetMethod \<Rightarrow> json" where
  "json_of_target t = JObject [(B ''AssemblyName'', JString (narrow (tm_AssemblyName t))),
     (B ''MethodName'', JString (narrow (tm_MethodName t))),
     (B ''MethodParametersCount'', json_of_int (tm_MethodParametersCount t)),
     (B ''TypeName'', JString (narrow (tm_TypeName t)))]"

definition json_of_names :: "wstring list \<Rightarrow> json" where
  "json_of_names names = JArray (map (JString \<circ> narrow) names)"

definition json_of_strict :: "StrictInterception \<Rightarrow> json" where
  "json_of_strict i = JObject [(B ''IgnoreCallerAssemblies'', json_of_names (si_IgnoreCallerAssemblies i)),
     (B ''Interceptor'', json_of_type (si_Interceptor i)), (B ''Target'', json_of_target (si_Target i))]"

definition json_of_finder :: "MethodFinder \<Rightarrow> json" where
  "json_of_finder f = JObject [(B ''MethodFinder'', json_of_type (mf_Finder f)),
     (B ''Target'', json_of_target (mf_Target f))]"

definition json_of_attributed :: "AttributedInterceptor \<Rightarrow> json" where
  "json_of_attributed a = JObject [(B ''AttributeType'', JString (narrow (ai_AttributeType a))),
     (B ''Interceptor'', json_of_type (ai_Interceptor a))]"

definition json_of_configuration :: "Configuration \<Rightarrow> json" where
  "json_of_configuration c = JObject
     [(B ''assemblies'', json_of_names (Assemblies c)),
      (B ''attributed'', JArray (map (json_of_attributed \<circ> snd) (AttributedInterceptors c))),
      (B ''composedInterceptor'', json_of_type (ComposedInterceptor c)),
      (B ''enabledAssemblies'', json_of_names (EnabledAssemblies c)),
      (B ''interceptorInterface'', json_of_type (InterceptorInterface c)),
      (B ''methodFinderInterface'', json_of_type (MethodFinderInterface c)),
      (B ''methodFinders'', JArray (map json_of_finder (MethodFinders c))),
      (B ''skipAssemblies'', json_of_names (SkipAssemblies c)),
      (B ''strict'', JArray (map json_of_strict (StrictInterceptions c)))]"

text \<open>The strings of a configuration are readable, and its sets and its map are sets and a map.\<close>

definition readable_type :: "ConfigTypeInfo \<Rightarrow> bool" where
  "readable_type t \<longleftrightarrow> readable (ci_AssemblyName t) \<and> readable (ci_TypeName t)"

definition readable_target :: "TargetMethod \<Rightarrow> bool" where
  "readable_target t \<longleftrightarrow> readable (tm_AssemblyName t) \<and> readable (tm_TypeName t) \<and> readable (tm_MethodName t)"

definition readable_names :: "wstring list \<Rightarrow> bool" where
  "readable_names names \<longleftrightarrow> list_all readable names \<and> distinct names"

definition readable_configuration :: "Configuration \<Rightarrow> bool" where
  "readable_configuration c \<longleftrightarrow>
     list_all (\<lambda>i. readable_names (si_IgnoreCallerAssemblies i) \<and> readable_target (si_Target i) \<and>
       readable_type (si_Interceptor i)) (StrictInterceptions c) \<and>
     list_all readable (Assemblies c) \<and>
     list_all (\<lambda>(k, a). k = ai_AttributeType a \<and> readable k \<and> readable_type (ai_Interceptor a))
       (AttributedInterceptors c) \<and> distinct (map fst (AttributedInterceptors c)) \<and>
     readable_type (InterceptorInterface c) \<and> readable_type (ComposedInterceptor c) \<and>
     readable_type (MethodFinderInterface c) \<and>
     list_all (\<lambda>f. readable_target (mf_Target f) \<and> readable_type (mf_Finder f)) (MethodFinders c) \<and>
     readable_names (SkipAssemblies c) \<and> readable_names (EnabledAssemblies c)"

lemma ucast_scast_int: "ucast (scast (n :: INT32) :: 64 word) = n"
  by (intro bit_word_eqI) (auto simp: bit_simps)

lemma load_type: "readable_type t \<Longrightarrow> LoadTypeInfoFromJson (json_of_type t) = Inr (t, True)"
  by (simp add: LoadTypeInfoFromJson_def json_of_type_def is_object_def json_value_def json_string_def
      readable_type_def ToWSTRING_narrow)

lemma load_target: "readable_target t \<Longrightarrow> LoadTargetFromJson (json_of_target t) = Inr (t, True)"
  by (simp add: LoadTargetFromJson_def json_of_target_def is_object_def json_value_def json_string_def json_int_def
      readable_target_def ToWSTRING_narrow json_of_int_def ucast_scast_int)

lemma load_names:
  "list_all readable names \<Longrightarrow> foldO push_string (map (JString \<circ> narrow) names) acc = Inr (acc @ names)"
  by (induction names arbitrary: acc) (simp_all add: push_string_def json_string_def ToWSTRING_narrow)

lemma load_set:
  "list_all readable names \<Longrightarrow> distinct (acc @ names) \<Longrightarrow>
     foldO insert_string (map (JString \<circ> narrow) names) acc = Inr (acc @ names)"
  by (induction names arbitrary: acc) (simp_all add: insert_string_def json_string_def ToWSTRING_narrow)

lemma load_strict:
  assumes "readable_names (si_IgnoreCallerAssemblies i)" "readable_target (si_Target i)" "readable_type (si_Interceptor i)"
  shows "LoadInterceptionFromJson (json_of_strict i) = Inr (i, True)"
  using assms load_set [of "si_IgnoreCallerAssemblies i" "[]"]
  by (simp add: LoadInterceptionFromJson_def json_of_strict_def is_object_def json_const_subscript_def load_type
      load_target readable_names_def json_of_names_def json_elements_def)

lemma load_finder:
  "readable_target (mf_Target f) \<Longrightarrow> readable_type (mf_Finder f) \<Longrightarrow> LoadMethodFinder (json_of_finder f) = Inr (f, True)"
  by (simp add: LoadMethodFinder_def json_of_finder_def is_object_def json_const_subscript_def load_type load_target)

lemma load_attributed:
  "readable (ai_AttributeType a) \<Longrightarrow> readable_type (ai_Interceptor a) \<Longrightarrow>
     LoadAttributedInterceptorFromJson (json_of_attributed a) = Inr (a, True)"
  by (simp add: LoadAttributedInterceptorFromJson_def json_of_attributed_def is_object_def json_value_def
      json_string_def json_const_subscript_def load_type ToWSTRING_narrow)

lemma load_all:
  "(\<And>x. x \<in> set xs \<Longrightarrow> load (f x) = Inr (x, True)) \<Longrightarrow> foldO (push_loaded load) (map f xs) acc = Inr (acc @ xs)"
  by (induction xs arbitrary: acc) (simp_all add: push_loaded_def)

lemma load_map:
  assumes "list_all (\<lambda>(k, a). k = ai_AttributeType a \<and> readable k \<and> readable_type (ai_Interceptor a)) m"
    and "distinct (map fst (acc @ m))"
  shows "foldO insert_attributed (map (json_of_attributed \<circ> snd) m) acc = Inr (acc @ m)"
  using assms
proof (induction m arbitrary: acc)
  case (Cons x m)
  obtain k a where x: "x = (k, a)" by (cases x)
  have a: "k = ai_AttributeType a" "readable (ai_AttributeType a)" "readable_type (ai_Interceptor a)"
    using Cons.prems(1) x by auto
  have "map_of acc k = None" using Cons.prems(2) x by (auto simp: map_of_eq_None_iff)
  then have "insert_attributed (json_of_attributed a) acc = Inr (acc @ [(k, a)])"
    using a by (simp add: insert_attributed_def load_attributed)
  moreover have "foldO insert_attributed (map (json_of_attributed \<circ> snd) m) (acc @ [(k, a)]) = Inr ((acc @ [(k, a)]) @ m)"
    using Cons.prems x by (intro Cons.IH) auto
  ultimately show ?case by (simp add: x comp_def)
qed simp

section \<open>Properties\<close>

text \<open>C34: every configuration with readable strings, proper sets and a proper map is read back from its document exactly:
  each list in its order, each set and map with its members, each type, target and count with its value.\<close>

theorem LoadFromStream_roundtrip:
  assumes "readable_configuration c"
  shows "LoadFromStream (Some (json_of_configuration c)) = Inr c"
proof -
  have 1: "foldO (push_loaded LoadInterceptionFromJson) (map json_of_strict (StrictInterceptions c)) [] =
      Inr (StrictInterceptions c)"
    using assms by (subst load_all) (auto simp: readable_configuration_def list_all_iff intro!: load_strict)
  have 2: "foldO (push_loaded LoadMethodFinder) (map json_of_finder (MethodFinders c)) [] = Inr (MethodFinders c)"
    using assms by (subst load_all) (auto simp: readable_configuration_def list_all_iff intro!: load_finder)
  have 3: "foldO push_string (map (JString \<circ> narrow) (Assemblies c)) [] = Inr (Assemblies c)"
    using assms load_names [of "Assemblies c" "[]"] by (simp add: readable_configuration_def)
  have 4: "foldO insert_string (map (JString \<circ> narrow) (SkipAssemblies c)) [] = Inr (SkipAssemblies c)"
    "foldO insert_string (map (JString \<circ> narrow) (EnabledAssemblies c)) [] = Inr (EnabledAssemblies c)"
    using assms load_set [of "SkipAssemblies c" "[]"] load_set [of "EnabledAssemblies c" "[]"]
    by (simp_all add: readable_configuration_def readable_names_def)
  have 5: "foldO insert_attributed (map (json_of_attributed \<circ> snd) (AttributedInterceptors c)) [] =
      Inr (AttributedInterceptors c)"
    using assms load_map [of "AttributedInterceptors c" "[]"] by (simp add: readable_configuration_def)
  have 6: "readable_type (InterceptorInterface c)" "readable_type (ComposedInterceptor c)"
    "readable_type (MethodFinderInterface c)"
    using assms by (simp_all add: readable_configuration_def)
  show ?thesis
    unfolding LoadFromStream_def json_of_configuration_def json_of_names_def
    by (simp add: json_subscript_def json_elements_def 1 2 3 4 5 load_type [OF 6(1)] load_type [OF 6(2)]
        load_type [OF 6(3)])
qed

lemma LoadFromStream_roundtrip_witness:
  "LoadFromStream (Some (json_of_configuration (Configuration_default\<lparr>Assemblies := [[0x41], [0x42, 0x43]],
     SkipAssemblies := [[0x41]]\<rparr>))) =
   Inr (Configuration_default\<lparr>Assemblies := [[0x41], [0x42, 0x43]], SkipAssemblies := [[0x41]]\<rparr>)"
proof (rule LoadFromStream_roundtrip)
  have "scalar p \<and> p \<noteq> 0 \<and> utf16_units p = [ucast p]" if "p \<in> {0x41, 0x42, 0x43}" for p
    using that by (auto simp: scalar_def utf16_units_def utf16_encode_def)
  then have "readable [0x41]" "readable [0x42, 0x43]"
    unfolding readable_def by (intro exI [of _ "[0x41]"] exI [of _ "[0x42, 0x43]"]; simp)+
  then show "readable_configuration (Configuration_default\<lparr>Assemblies := [[0x41], [0x42, 0x43]], SkipAssemblies := [[0x41]]\<rparr>)"
    by (simp add: readable_configuration_def readable_names_def readable_type_def Configuration_default_def
        ConfigTypeInfo_default_def)
qed

text \<open>The loader checks that a strict interception is an object, but not that it has the members it subscripts: an
  interception without an interceptor, a target or a list of ignored assemblies makes it dereference the end of the
  object, whatever the rest of the document holds.\<close>

theorem LoadFromStream_missing_member:
  assumes "map_of m (B ''strict'') = Some (JArray (JObject e # els))"
    and "map_of e (B ''Interceptor'') = None"
  shows "LoadFromStream (Some (JObject m)) = Inl OutOfBounds"
  using assms
  by (simp add: LoadFromStream_def json_subscript_def json_elements_def push_loaded_def LoadInterceptionFromJson_def
      is_object_def json_const_subscript_def)

lemma LoadFromStream_missing_member_witness:
  "LoadFromStream (Some (JObject [(B ''strict'', JArray [JObject []])])) = Inl OutOfBounds"
  by (rule LoadFromStream_missing_member [where e = "[]" and els = "[]"]) simp_all

end
