(* ===== verification/Machine.thy ===== *)
theory Machine
  imports Prelude
begin

text \<open>
  Machines: a state, operations that may fault, and the states a client that respects the operations'
  preconditions can bring about. \<open>machine\<close> is the contract of an invariant: it holds initially, and every
  operation used as allowed completes and keeps it.
\<close>

inductive reachable ::
  "('s \<Rightarrow> bool) \<Rightarrow> ('op \<Rightarrow> 's \<Rightarrow> bool) \<Rightarrow> ('op \<Rightarrow> 's \<Rightarrow> 's outcome) \<Rightarrow> 's \<Rightarrow> bool"
  for initial allowed exec where
  reach_initial: "initial s \<Longrightarrow> reachable initial allowed exec s"
| reach_step: "reachable initial allowed exec s \<Longrightarrow> allowed op s \<Longrightarrow> exec op s = Inr s' \<Longrightarrow>
    reachable initial allowed exec s'"

text \<open>A sequence of operations each of which is allowed where it is used.\<close>

fun allowed_run :: "('op \<Rightarrow> 's \<Rightarrow> bool) \<Rightarrow> ('op \<Rightarrow> 's \<Rightarrow> 's outcome) \<Rightarrow> 'op list \<Rightarrow> 's \<Rightarrow> bool" where
  "allowed_run allowed exec [] s \<longleftrightarrow> True"
| "allowed_run allowed exec (op # ops) s \<longleftrightarrow>
     allowed op s \<and> (case exec op s of Inl _ \<Rightarrow> True | Inr s' \<Rightarrow> allowed_run allowed exec ops s')"

lemma reachable_run:
  "reachable initial allowed exec s \<Longrightarrow> allowed_run allowed exec ops s \<Longrightarrow> foldO exec ops s = Inr s' \<Longrightarrow>
    reachable initial allowed exec s'"
proof (induction ops arbitrary: s)
  case (Cons op ops)
  then obtain t where t: "exec op s = Inr t" "foldO exec ops t = Inr s'" by auto
  have "reachable initial allowed exec t" using Cons.prems(1,2) t(1) by (auto intro: reach_step)
  then show ?case using Cons.IH [of t] Cons.prems(2) t by simp
qed simp

locale machine =
  fixes initial :: "'s \<Rightarrow> bool"
    and allowed :: "'op \<Rightarrow> 's \<Rightarrow> bool"
    and exec :: "'op \<Rightarrow> 's \<Rightarrow> 's outcome"
    and inv :: "'s \<Rightarrow> bool"
  assumes initial_inv: "initial s \<Longrightarrow> inv s"
    and step_inv: "inv s \<Longrightarrow> allowed op s \<Longrightarrow> \<exists>s'. exec op s = Inr s' \<and> inv s'"
begin

lemma reachable_inv: "reachable initial allowed exec s \<Longrightarrow> inv s"
proof (induction rule: reachable.induct)
  case (reach_initial s)
  then show ?case by (rule initial_inv)
next
  case (reach_step s op s')
  then show ?case using step_inv [of s op] by auto
qed

lemma reachable_progress:
  assumes "reachable initial allowed exec s" and "allowed op s"
  shows "\<exists>s'. exec op s = Inr s' \<and> inv s'"
  using step_inv [OF reachable_inv [OF assms(1)] assms(2)] .

lemma run_completes:
  "inv s \<Longrightarrow> allowed_run allowed exec ops s \<Longrightarrow> \<exists>s'. foldO exec ops s = Inr s' \<and> inv s'"
proof (induction ops arbitrary: s)
  case (Cons op ops)
  then obtain s' where "exec op s = Inr s'" "inv s'" using step_inv [of s op] by auto
  with Cons.prems(2) Cons.IH [of s'] show ?case by simp
qed simp

end

text \<open>An invariant every operation that completes keeps, used as it may be.\<close>

locale stable =
  fixes exec :: "'op \<Rightarrow> 's \<Rightarrow> 's outcome"
    and inv :: "'s \<Rightarrow> bool"
  assumes step_stable: "inv s \<Longrightarrow> exec op s = Inr s' \<Longrightarrow> inv s'"
begin

lemma run_stable: "inv s \<Longrightarrow> foldO exec ops s = Inr s' \<Longrightarrow> inv s'"
proof (induction ops arbitrary: s)
  case (Cons op ops)
  then obtain t where "exec op s = Inr t" "foldO exec ops t = Inr s'" by auto
  then show ?case using Cons.IH [of t] step_stable [OF Cons.prems(1)] by blast
qed simp

end

end
