(* ===== verification/ComPtr.thy ===== *)
theory ComPtr
  imports Machine
begin

text \<open>
  The smart pointer to COM objects (\<^verbatim>\<open>util/ComPtr.h\<close>): \<open>m_ptr\<close> gives the pointer each \<open>ComPtr\<close> object holds, and
  \<open>refs\<close> the reference counts of the live objects, which \<open>IUnknown\<close> keeps as documented: \<open>AddRef\<close> adds one, \<open>Release\<close>
  takes one away and frees the object at none. A call on a freed object, or on an object through a null pointer,
  is a fault. Objects that hold references of their own to each other are not modelled.
\<close>

section \<open>Objects\<close>

type_synonym object = nat
type_synonym pointer = nat

record com =
  refs :: "object \<Rightarrow> nat option"
  m_ptr :: "pointer \<Rightarrow> object option option"

definition com_AddRef :: "object \<Rightarrow> com \<Rightarrow> com outcome" where
  "com_AddRef x s =
     (case refs s x of None \<Rightarrow> Inl NullDeref | Some n \<Rightarrow> Inr (s\<lparr>refs := (refs s)(x \<mapsto> n + 1)\<rparr>))"

definition com_Release :: "object \<Rightarrow> com \<Rightarrow> com outcome" where
  "com_Release x s =
     (case refs s x of
        None \<Rightarrow> Inl NullDeref
      | Some n \<Rightarrow> Inr (s\<lparr>refs := (refs s)(x := (if n \<le> 1 then None else Some (n - 1)))\<rparr>))"

section \<open>The pointer\<close>

definition get_ptr :: "pointer \<Rightarrow> com \<Rightarrow> object option outcome" where
  "get_ptr p s = (case m_ptr s p of None \<Rightarrow> Inl NullDeref | Some v \<Rightarrow> Inr v)"

definition set_ptr :: "pointer \<Rightarrow> object option \<Rightarrow> com \<Rightarrow> com" where
  "set_ptr p v s = s\<lparr>m_ptr := (m_ptr s)(p \<mapsto> v)\<rparr>"

definition InternalAddRef :: "pointer \<Rightarrow> com \<Rightarrow> com outcome" where
  "InternalAddRef p s =
     bindO (get_ptr p s) (\<lambda>m. case m of None \<Rightarrow> Inr s | Some x \<Rightarrow> com_AddRef x s)"

definition InternalRelease :: "pointer \<Rightarrow> com \<Rightarrow> com outcome" where
  "InternalRelease p s =
     bindO (get_ptr p s) (\<lambda>temp. case temp of None \<Rightarrow> Inr s | Some x \<Rightarrow> com_Release x (set_ptr p None s))"

definition InternalCopy :: "pointer \<Rightarrow> object option \<Rightarrow> com \<Rightarrow> com outcome" where
  "InternalCopy p other s =
     bindO (get_ptr p s) (\<lambda>m.
       if m \<noteq> other then bindO (InternalRelease p s) (\<lambda>s. InternalAddRef p (set_ptr p other s)) else Inr s)"

definition InternalMove :: "pointer \<Rightarrow> pointer \<Rightarrow> com \<Rightarrow> com outcome" where
  "InternalMove p other s =
     bindO (get_ptr p s) (\<lambda>m. bindO (get_ptr other s) (\<lambda>o'.
       if m \<noteq> o' then
         bindO (InternalRelease p s) (\<lambda>s. bindO (get_ptr other s) (\<lambda>o'.
           Inr (set_ptr other None (set_ptr p o' s))))
       else Inr s))"

definition ComPtr_new :: "pointer \<Rightarrow> com \<Rightarrow> com outcome" where
  "ComPtr_new p s = Inr (set_ptr p None s)"

definition ComPtr_copy :: "pointer \<Rightarrow> pointer \<Rightarrow> com \<Rightarrow> com outcome" where
  "ComPtr_copy p other s = bindO (get_ptr other s) (\<lambda>o'. InternalAddRef p (set_ptr p o' s))"

definition ComPtr_move :: "pointer \<Rightarrow> pointer \<Rightarrow> com \<Rightarrow> com outcome" where
  "ComPtr_move p other s = bindO (get_ptr other s) (\<lambda>o'. Inr (set_ptr other None (set_ptr p o' s)))"

definition ComPtr_delete :: "pointer \<Rightarrow> com \<Rightarrow> com outcome" where
  "ComPtr_delete p s = bindO (InternalRelease p s) (\<lambda>s. Inr (s\<lparr>m_ptr := (m_ptr s)(p := None)\<rparr>))"

definition Swap :: "pointer \<Rightarrow> pointer \<Rightarrow> com \<Rightarrow> com outcome" where
  "Swap p other s =
     bindO (get_ptr p s) (\<lambda>temp. bindO (get_ptr other s) (\<lambda>o'. Inr (set_ptr other temp (set_ptr p o' s))))"

definition ComPtr_swap :: "pointer \<Rightarrow> pointer \<Rightarrow> com \<Rightarrow> com outcome" where
  "ComPtr_swap left right s = Swap left right s"

definition Reset :: "pointer \<Rightarrow> com \<Rightarrow> com outcome" where
  "Reset p s = InternalRelease p s"

definition Get :: "pointer \<Rightarrow> com \<Rightarrow> object option outcome" where
  "Get p s = get_ptr p s"

definition Detach :: "pointer \<Rightarrow> com \<Rightarrow> (object option \<times> com) outcome" where
  "Detach p s = bindO (get_ptr p s) (\<lambda>temp. Inr (temp, set_ptr p None s))"

definition Copy :: "pointer \<Rightarrow> object option \<Rightarrow> com \<Rightarrow> com outcome" where
  "Copy p other s = InternalCopy p other s"

definition Attach :: "pointer \<Rightarrow> object option \<Rightarrow> com \<Rightarrow> com outcome" where
  "Attach p other s = bindO (InternalRelease p s) (\<lambda>s. Inr (set_ptr p other s))"

text \<open>The assertion that the pointer is null is compiled out of a release build.\<close>

definition GetAddressOf :: "pointer \<Rightarrow> pointer" where
  "GetAddressOf p = p"

definition CopyTo :: "pointer \<Rightarrow> com \<Rightarrow> (object option \<times> com) outcome" where
  "CopyTo p s = bindO (InternalAddRef p s) (\<lambda>s. bindO (get_ptr p s) (\<lambda>m. Inr (m, s)))"

text \<open>\<open>query\<close> is \<open>QueryInterface\<close> of the objects: the object that offers an interface, if any, whose reference the
  call counts. The result is constructed at \<open>temp\<close>.\<close>

definition As :: "(object \<Rightarrow> 'iid \<Rightarrow> object option) \<Rightarrow> pointer \<Rightarrow> 'iid \<Rightarrow> pointer \<Rightarrow> com \<Rightarrow> com outcome" where
  "As query p iid temp s =
     bindO (ComPtr_new temp s) (\<lambda>s. bindO (get_ptr p s) (\<lambda>m.
       case m of
         None \<Rightarrow> Inl NullDeref
       | Some x \<Rightarrow>
           if refs s x = None then Inl NullDeref
           else (case query x iid of
             None \<Rightarrow> Inr (set_ptr (GetAddressOf temp) None s)
           | Some y \<Rightarrow> bindO (com_AddRef y s) (\<lambda>s. Inr (set_ptr (GetAddressOf temp) (Some y) s)))))"

definition ComPtr_IsNull :: "pointer \<Rightarrow> com \<Rightarrow> bool outcome" where
  "ComPtr_IsNull p s = bindO (get_ptr p s) (\<lambda>m. Inr (m = None))"

definition assign_copy :: "pointer \<Rightarrow> pointer \<Rightarrow> com \<Rightarrow> com outcome" where
  "assign_copy p other s = bindO (get_ptr other s) (\<lambda>o'. InternalCopy p o' s)"

definition assign_move :: "pointer \<Rightarrow> pointer \<Rightarrow> com \<Rightarrow> com outcome" where
  "assign_move p other s = InternalMove p other s"

section \<open>Clients\<close>

text \<open>What a client can do, with the object it creates or lets go itself. \<open>owed\<close> counts, for each object, the
  references clients hold outside smart pointers: those they created, detached or copied out and have not
  released or attached.\<close>

datatype 'iid com_op =
  Create object | Drop object
| New pointer | CopyNew pointer pointer | MoveNew pointer pointer | Delete pointer
| SwapOp pointer pointer | ResetOp pointer | DetachOp pointer | CopyOp pointer "object option"
| AttachOp pointer "object option" | CopyToOp pointer | AsOp pointer 'iid pointer
| AssignCopy pointer pointer | AssignMove pointer pointer

type_synonym com_state = "com \<times> (object \<Rightarrow> nat)"

definition owe :: "object option \<Rightarrow> (object \<Rightarrow> nat) \<Rightarrow> object \<Rightarrow> nat" where
  "owe v owed = (case v of None \<Rightarrow> owed | Some x \<Rightarrow> owed(x := owed x + 1))"

definition settle :: "object option \<Rightarrow> (object \<Rightarrow> nat) \<Rightarrow> object \<Rightarrow> nat" where
  "settle v owed = (case v of None \<Rightarrow> owed | Some x \<Rightarrow> owed(x := owed x - 1))"

fun com_exec :: "(object \<Rightarrow> 'iid \<Rightarrow> object option) \<Rightarrow> 'iid com_op \<Rightarrow> com_state \<Rightarrow> com_state outcome" where
  "com_exec query (Create x) (s, owed) = Inr (s\<lparr>refs := (refs s)(x \<mapsto> 1)\<rparr>, owe (Some x) owed)"
| "com_exec query (Drop x) (s, owed) = bindO (com_Release x s) (\<lambda>s. Inr (s, settle (Some x) owed))"
| "com_exec query (New p) (s, owed) = bindO (ComPtr_new p s) (\<lambda>s. Inr (s, owed))"
| "com_exec query (CopyNew p q) (s, owed) = bindO (ComPtr_copy p q s) (\<lambda>s. Inr (s, owed))"
| "com_exec query (MoveNew p q) (s, owed) = bindO (ComPtr_move p q s) (\<lambda>s. Inr (s, owed))"
| "com_exec query (Delete p) (s, owed) = bindO (ComPtr_delete p s) (\<lambda>s. Inr (s, owed))"
| "com_exec query (SwapOp p q) (s, owed) = bindO (ComPtr_swap p q s) (\<lambda>s. Inr (s, owed))"
| "com_exec query (ResetOp p) (s, owed) = bindO (Reset p s) (\<lambda>s. Inr (s, owed))"
| "com_exec query (DetachOp p) (s, owed) = bindO (Detach p s) (\<lambda>(v, s). Inr (s, owe v owed))"
| "com_exec query (CopyOp p v) (s, owed) = bindO (Copy p v s) (\<lambda>s. Inr (s, owed))"
| "com_exec query (AttachOp p v) (s, owed) = bindO (Attach p v s) (\<lambda>s. Inr (s, settle v owed))"
| "com_exec query (CopyToOp p) (s, owed) = bindO (CopyTo p s) (\<lambda>(v, s). Inr (s, owe v owed))"
| "com_exec query (AsOp p iid temp) (s, owed) = bindO (As query p iid temp s) (\<lambda>s. Inr (s, owed))"
| "com_exec query (AssignCopy p q) (s, owed) = bindO (assign_copy p q s) (\<lambda>s. Inr (s, owed))"
| "com_exec query (AssignMove p q) (s, owed) = bindO (assign_move p q s) (\<lambda>s. Inr (s, owed))"

text \<open>The client uses constructed smart pointers, constructs only at free places, passes live objects, gives away only
  references it holds, asks only through a pointer that is not null, and is answered with live objects.\<close>

fun com_allowed :: "(object \<Rightarrow> 'iid \<Rightarrow> object option) \<Rightarrow> 'iid com_op \<Rightarrow> com_state \<Rightarrow> bool" where
  "com_allowed query (Create x) (s, owed) \<longleftrightarrow> refs s x = None"
| "com_allowed query (Drop x) (s, owed) \<longleftrightarrow> 0 < owed x"
| "com_allowed query (New p) (s, owed) \<longleftrightarrow> m_ptr s p = None"
| "com_allowed query (CopyNew p q) (s, owed) \<longleftrightarrow> m_ptr s p = None \<and> m_ptr s q \<noteq> None"
| "com_allowed query (MoveNew p q) (s, owed) \<longleftrightarrow> m_ptr s p = None \<and> m_ptr s q \<noteq> None"
| "com_allowed query (Delete p) (s, owed) \<longleftrightarrow> m_ptr s p \<noteq> None"
| "com_allowed query (SwapOp p q) (s, owed) \<longleftrightarrow> m_ptr s p \<noteq> None \<and> m_ptr s q \<noteq> None"
| "com_allowed query (ResetOp p) (s, owed) \<longleftrightarrow> m_ptr s p \<noteq> None"
| "com_allowed query (DetachOp p) (s, owed) \<longleftrightarrow> m_ptr s p \<noteq> None"
| "com_allowed query (CopyOp p v) (s, owed) \<longleftrightarrow> m_ptr s p \<noteq> None \<and> (\<forall>x \<in> set_option v. refs s x \<noteq> None)"
| "com_allowed query (AttachOp p v) (s, owed) \<longleftrightarrow> m_ptr s p \<noteq> None \<and> (\<forall>x \<in> set_option v. 0 < owed x)"
| "com_allowed query (CopyToOp p) (s, owed) \<longleftrightarrow> m_ptr s p \<noteq> None"
| "com_allowed query (AsOp p iid temp) (s, owed) \<longleftrightarrow> m_ptr s temp = None \<and>
     (\<exists>x. m_ptr s p = Some (Some x) \<and> (\<forall>y \<in> set_option (query x iid). refs s y \<noteq> None))"
| "com_allowed query (AssignCopy p q) (s, owed) \<longleftrightarrow> m_ptr s p \<noteq> None \<and> m_ptr s q \<noteq> None"
| "com_allowed query (AssignMove p q) (s, owed) \<longleftrightarrow> m_ptr s p \<noteq> None \<and> m_ptr s q \<noteq> None"

definition com_initial :: "com_state \<Rightarrow> bool" where
  "com_initial c \<longleftrightarrow> c = (\<lparr>refs = \<lambda>_. None, m_ptr = \<lambda>_. None\<rparr>, \<lambda>_. 0)"

text \<open>Every reference count is the number of the references there are: the smart pointers that hold the object and
  the references clients hold.\<close>

definition held :: "com \<Rightarrow> object \<Rightarrow> nat" where
  "held s x = card {p. m_ptr s p = Some (Some x)}"

definition ref_count :: "com \<Rightarrow> object \<Rightarrow> nat" where
  "ref_count s x = (case refs s x of None \<Rightarrow> 0 | Some n \<Rightarrow> n)"

definition balanced :: "com_state \<Rightarrow> bool" where
  "balanced c = (case c of (s, owed) \<Rightarrow>
     finite (dom (m_ptr s)) \<and> (\<forall>x. refs s x \<noteq> Some 0) \<and> (\<forall>x. ref_count s x = held s x + owed x))"

section \<open>The counts stay balanced\<close>

text \<open>The same for any account \<open>f\<close> of the references outside smart pointers.\<close>

definition bal :: "com \<Rightarrow> (object \<Rightarrow> nat) \<Rightarrow> bool" where
  "bal s f \<longleftrightarrow> finite (dom (m_ptr s)) \<and> (\<forall>x. refs s x \<noteq> Some 0) \<and> (\<forall>x. ref_count s x = held s x + f x)"

lemma balanced_bal: "balanced (s, owed) \<longleftrightarrow> bal s owed"
  by (simp add: balanced_def bal_def)

lemma held_upd:
  assumes "finite (dom (m_ptr s))"
  shows "held (s\<lparr>m_ptr := (m_ptr s)(p := v)\<rparr>) x =
    held s x - (if m_ptr s p = Some (Some x) then 1 else 0) + (if v = Some (Some x) then 1 else 0)"
proof -
  let ?A = "{q. m_ptr s q = Some (Some x)}"
  have fin: "finite ?A" by (rule finite_subset [OF _ assms]) auto
  have "{q. ((m_ptr s)(p := v)) q = Some (Some x)} = (?A - {p}) \<union> (if v = Some (Some x) then {p} else {})"
    by auto
  then have "held (s\<lparr>m_ptr := (m_ptr s)(p := v)\<rparr>) x = card ((?A - {p}) \<union> (if v = Some (Some x) then {p} else {}))"
    by (simp add: held_def)
  also have "\<dots> = card (?A - {p}) + (if v = Some (Some x) then 1 else 0)"
    using fin by (subst card_Un_disjoint) auto
  also have "card (?A - {p}) = held s x - (if m_ptr s p = Some (Some x) then 1 else 0)"
    using fin by (simp add: held_def card_Diff_singleton_if)
  finally show ?thesis .
qed

lemma held_set:
  "finite (dom (m_ptr s)) \<Longrightarrow> held (set_ptr p v s) x =
    held s x - (if m_ptr s p = Some (Some x) then 1 else 0) + (if v = Some x then 1 else 0)"
  by (simp add: set_ptr_def held_upd)

lemma held_pos: "finite (dom (m_ptr s)) \<Longrightarrow> m_ptr s p = Some (Some x) \<Longrightarrow> 0 < held s x"
  unfolding held_def by (subst card_gt_0_iff) (auto intro: finite_subset [of _ "dom (m_ptr s)"])

lemma bal_count: "bal s f \<Longrightarrow> ref_count s x = held s x + f x"
  by (simp add: bal_def)

lemma live_count: "bal s f \<Longrightarrow> refs s x \<noteq> None \<longleftrightarrow> 0 < held s x + f x"
proof -
  assume b: "bal s f"
  then have "refs s x \<noteq> Some 0" by (simp add: bal_def)
  then show ?thesis unfolding bal_count [OF b, symmetric] by (cases "refs s x") (auto simp: ref_count_def)
qed

lemma bal_alive: "bal s f \<Longrightarrow> m_ptr s p = Some (Some x) \<Longrightarrow> refs s x \<noteq> None"
  using held_pos [of s p x] live_count [of s f x] by (simp add: bal_def)

lemma bal_owed_alive: "bal s f \<Longrightarrow> 0 < f x \<Longrightarrow> refs s x \<noteq> None"
  using live_count [of s f x] by simp

lemma bal_live:
  assumes "bal s f" and "refs s x \<noteq> None"
  shows "0 < f x \<or> (\<exists>p. m_ptr s p = Some (Some x))"
proof (rule ccontr)
  assume n: "\<not> (0 < f x \<or> (\<exists>p. m_ptr s p = Some (Some x)))"
  then have "held s x = 0" by (simp add: held_def)
  with n assms live_count [of s f x] show False by simp
qed

lemma held_refs [simp]: "held (s\<lparr>refs := r\<rparr>) x = held s x"
  by (simp add: held_def)

lemma AddRef_counts:
  assumes "refs s x \<noteq> None" and "\<forall>y. refs s y \<noteq> Some 0"
  obtains s' where "com_AddRef x s = Inr s'" "m_ptr s' = m_ptr s" "held s' = held s"
    "ref_count s' = (ref_count s)(x := ref_count s x + 1)" "\<forall>y. refs s' y \<noteq> Some 0"
proof -
  obtain n where n: "refs s x = Some n" using assms(1) by auto
  let ?s = "s\<lparr>refs := (refs s)(x \<mapsto> n + 1)\<rparr>"
  have "com_AddRef x s = Inr ?s" by (simp add: com_AddRef_def n)
  moreover have "held ?s = held s" by (rule ext) simp
  moreover have "ref_count ?s = (ref_count s)(x := ref_count s x + 1)"
    by (rule ext) (simp add: ref_count_def n)
  ultimately show thesis using assms(2) by (intro that [of ?s]) simp_all
qed

lemma Release_counts:
  assumes "refs s x \<noteq> None" and "\<forall>y. refs s y \<noteq> Some 0"
  obtains s' where "com_Release x s = Inr s'" "m_ptr s' = m_ptr s" "held s' = held s"
    "ref_count s' = (ref_count s)(x := ref_count s x - 1)" "\<forall>y. refs s' y \<noteq> Some 0"
proof -
  obtain n where n: "refs s x = Some n" using assms(1) by auto
  let ?s = "s\<lparr>refs := (refs s)(x := (if n \<le> 1 then None else Some (n - 1)))\<rparr>"
  have "com_Release x s = Inr ?s" by (simp add: com_Release_def n)
  moreover have "held ?s = held s" by (rule ext) simp
  moreover have "ref_count ?s = (ref_count s)(x := ref_count s x - 1)"
    by (rule ext) (simp add: ref_count_def n)
  ultimately show thesis using assms(2) by (intro that [of ?s]) simp_all
qed

lemma release_bal:
  assumes "bal s f" and "m_ptr s p \<noteq> None"
  obtains s' where "InternalRelease p s = Inr s'" "bal s' f" "m_ptr s' = (m_ptr s)(p \<mapsto> None)"
proof (cases "m_ptr s p = Some None")
  case True
  then have "InternalRelease p s = Inr s" "(m_ptr s)(p \<mapsto> None) = m_ptr s"
    by (simp_all add: InternalRelease_def get_ptr_def fun_upd_idem)
  with assms(1) show ?thesis by (intro that) simp_all
next
  case False
  then obtain x where x: "m_ptr s p = Some (Some x)" using assms(2) by auto
  let ?s = "set_ptr p None s"
  have fin: "finite (dom (m_ptr s))" using assms(1) by (simp add: bal_def)
  have "refs ?s x \<noteq> None" "\<forall>y. refs ?s y \<noteq> Some 0"
    using bal_alive [OF assms(1) x] assms(1) by (simp_all add: set_ptr_def bal_def)
  then obtain s' where s': "com_Release x ?s = Inr s'" "m_ptr s' = m_ptr ?s" "held s' = held ?s"
    "ref_count s' = (ref_count ?s)(x := ref_count ?s x - 1)" "\<forall>y. refs s' y \<noteq> Some 0"
    by (rule Release_counts)
  have rc: "ref_count ?s y = held s y + f y" for y
    using bal_count [OF assms(1), of y] by (simp add: ref_count_def set_ptr_def)
  have "ref_count s' y = held s' y + f y" for y
    unfolding s'(3,4) using held_pos [OF fin x] x
    by (auto simp: rc held_set [OF fin])
  moreover have "InternalRelease p s = Inr s'"
    by (simp add: InternalRelease_def get_ptr_def x s'(1))
  ultimately show ?thesis
    using s'(2,5) fin by (intro that) (simp_all add: bal_def set_ptr_def)
qed

text \<open>Storing a counted reference in a pointer that holds none.\<close>

lemma add_bal:
  assumes "bal s f" and empty: "\<And>y. m_ptr s p \<noteq> Some (Some y)" and "\<And>x. v = Some x \<Longrightarrow> refs s x \<noteq> None"
  obtains s' where "InternalAddRef p (set_ptr p v s) = Inr s'" "bal s' f" "m_ptr s' = (m_ptr s)(p \<mapsto> v)"
proof (cases v)
  case None
  have "finite (dom (m_ptr s))" using assms(1) by (simp add: bal_def)
  then have "bal (set_ptr p v s) f"
    using assms(1) empty None by (auto simp: bal_def set_ptr_def held_upd ref_count_def)
  then show ?thesis using None
    by (intro that [of "set_ptr p v s"]) (simp_all add: InternalAddRef_def get_ptr_def set_ptr_def)
next
  case (Some x)
  let ?s = "set_ptr p (Some x) s"
  have fin: "finite (dom (m_ptr s))" using assms(1) by (simp add: bal_def)
  have "refs ?s x \<noteq> None" "\<forall>y. refs ?s y \<noteq> Some 0"
    using assms(3) [OF Some] assms(1) by (simp_all add: set_ptr_def bal_def)
  then obtain s' where s': "com_AddRef x ?s = Inr s'" "m_ptr s' = m_ptr ?s" "held s' = held ?s"
    "ref_count s' = (ref_count ?s)(x := ref_count ?s x + 1)" "\<forall>y. refs s' y \<noteq> Some 0"
    by (rule AddRef_counts)
  have rc: "ref_count ?s y = held s y + f y" for y
    using bal_count [OF assms(1), of y] by (simp add: ref_count_def set_ptr_def)
  have "ref_count s' y = held s' y + f y" for y
    unfolding s'(3,4) using empty by (auto simp: rc held_set [OF fin])
  then show ?thesis using Some fin s'(1,2,5)
    by (intro that) (simp_all add: InternalAddRef_def get_ptr_def bal_def set_ptr_def)
qed

text \<open>Moving a reference between pointers, or between a pointer and a client.\<close>

lemma bal_cong:
  assumes "bal s f" "refs s' = refs s" "finite (dom (m_ptr s'))" "\<And>x. held s' x + g x = held s x + f x"
  shows "bal s' g"
  using assms by (simp add: bal_def ref_count_def)

lemma copy_bal:
  assumes "bal s f" and "m_ptr s p \<noteq> None" and live: "\<And>x. v = Some x \<Longrightarrow> refs s x \<noteq> None"
  obtains s' where "InternalCopy p v s = Inr s'" "bal s' f" "m_ptr s' = (m_ptr s)(p \<mapsto> v)"
proof (cases "m_ptr s p = Some v")
  case True
  then have "InternalCopy p v s = Inr s" "(m_ptr s)(p \<mapsto> v) = m_ptr s"
    by (simp_all add: InternalCopy_def get_ptr_def fun_upd_idem)
  with assms(1) show ?thesis by (intro that) simp_all
next
  case False
  obtain s1 where s1: "InternalRelease p s = Inr s1" "bal s1 f" "m_ptr s1 = (m_ptr s)(p \<mapsto> None)"
    by (rule release_bal [OF assms(1,2)])
  have "refs s1 x \<noteq> None" if "v = Some x" for x
  proof -
    have "0 < f x \<or> (\<exists>q. m_ptr s1 q = Some (Some x))"
      using bal_live [OF assms(1) live [OF that]] False that s1(3) by auto
    then show ?thesis using bal_alive [OF s1(2)] bal_owed_alive [OF s1(2)] by blast
  qed
  moreover have "m_ptr s1 p \<noteq> Some (Some y)" for y by (simp add: s1(3))
  ultimately obtain s' where "InternalAddRef p (set_ptr p v s1) = Inr s'" "bal s' f" "m_ptr s' = (m_ptr s1)(p \<mapsto> v)"
    using add_bal [OF s1(2), of p v] by metis
  then show ?thesis using False assms(2) s1(1,3)
    by (intro that) (auto simp: InternalCopy_def get_ptr_def split: option.splits)
qed

text \<open>Each operation, used as allowed, completes and keeps the balance.\<close>

lemma alloc_bal:
  assumes "bal s f" "refs s x = None"
  shows "bal (s\<lparr>refs := (refs s)(x \<mapsto> 1)\<rparr>) (owe (Some x) f)"
proof -
  have "held s x + f x = 0" using assms live_count [of s f x] by simp
  then show ?thesis using assms(1) by (auto simp: bal_def ref_count_def owe_def)
qed

lemma drop_bal:
  assumes "bal s f" "0 < f x"
  shows "\<exists>s'. com_Release x s = Inr s' \<and> bal s' (settle (Some x) f)"
proof -
  have "refs s x \<noteq> None" "\<forall>y. refs s y \<noteq> Some 0"
    using bal_owed_alive [OF assms] assms(1) by (simp_all add: bal_def)
  then obtain s' where s': "com_Release x s = Inr s'" "m_ptr s' = m_ptr s" "held s' = held s"
    "ref_count s' = (ref_count s)(x := ref_count s x - 1)" "\<forall>y. refs s' y \<noteq> Some 0"
    by (rule Release_counts)
  have "ref_count s' y = held s' y + settle (Some x) f y" for y
    unfolding s'(3,4) using assms by (auto simp: bal_def settle_def)
  then show ?thesis using s'(1,2,5) assms(1) by (simp add: bal_def)
qed

lemma new_bal: "bal s f \<Longrightarrow> m_ptr s p = None \<Longrightarrow> bal (set_ptr p None s) f"
  by (rule bal_cong) (simp_all add: bal_def held_set, simp_all add: set_ptr_def)

lemma swap_bal:
  assumes "bal s f" "m_ptr s p = Some u" "m_ptr s q = Some v"
  shows "bal (set_ptr q u (set_ptr p v s)) f"
proof (cases "p = q")
  case True
  then have "set_ptr q u (set_ptr p v s) = s" using assms(2,3) by (simp add: set_ptr_def fun_upd_idem)
  then show ?thesis using assms(1) by simp
next
  case False
  have fin: "finite (dom (m_ptr s))" using assms(1) by (simp add: bal_def)
  have fin1: "finite (dom (m_ptr (set_ptr p v s)))" using fin by (simp add: set_ptr_def)
  have q: "m_ptr (set_ptr p v s) q = Some v" using False assms(3) by (simp add: set_ptr_def)
  have "held (set_ptr q u (set_ptr p v s)) x = held s x" for x
  proof -
    have "m_ptr s p = Some (Some x) \<Longrightarrow> 0 < held s x" "m_ptr s q = Some (Some x) \<Longrightarrow> 0 < held s x"
      using held_pos [OF fin] by blast+
    then show ?thesis using assms(2,3) by (simp add: held_set [OF fin1] q held_set [OF fin])
  qed
  then show ?thesis
    by (intro bal_cong [OF assms(1)]) (simp_all add: set_ptr_def fin)
qed

text \<open>The pointer \<open>p\<close>, new or empty, takes over what \<open>q\<close> holds.\<close>

lemma move_bal:
  assumes "bal s f" "m_ptr s q = Some v" "\<And>y. m_ptr s p \<noteq> Some (Some y)" "p \<noteq> q"
  shows "bal (set_ptr q None (set_ptr p v s)) f"
proof -
  let ?s = "set_ptr p None s"
  have "bal ?s f"
  proof (cases "m_ptr s p")
    case None
    then show ?thesis by (rule new_bal [OF assms(1)])
  next
    case (Some u)
    then have "?s = s" using assms(3) by (cases u) (simp_all add: set_ptr_def fun_upd_idem)
    then show ?thesis using assms(1) by simp
  qed
  from swap_bal [OF this, of p None q v] show ?thesis using assms(2,4) by (simp add: set_ptr_def)
qed

lemma detach_bal:
  assumes "bal s f" "m_ptr s p = Some v"
  shows "bal (set_ptr p None s) (owe v f)"
proof (rule bal_cong [OF assms(1)])
  have fin: "finite (dom (m_ptr s))" using assms(1) by (simp add: bal_def)
  then show "finite (dom (m_ptr (set_ptr p None s)))" by (simp add: set_ptr_def)
  show "held (set_ptr p None s) x + owe v f x = held s x + f x" for x
    using held_pos [OF fin, of p x] assms(2) by (cases v) (auto simp: held_set [OF fin] owe_def)
qed (simp add: set_ptr_def)

lemma attach_bal:
  assumes "bal s f" "m_ptr s p = Some None" "\<forall>x \<in> set_option v. 0 < f x"
  shows "bal (set_ptr p v s) (settle v f)"
proof (rule bal_cong [OF assms(1)])
  have fin: "finite (dom (m_ptr s))" using assms(1) by (simp add: bal_def)
  then show "finite (dom (m_ptr (set_ptr p v s)))" by (simp add: set_ptr_def)
  show "held (set_ptr p v s) x + settle v f x = held s x + f x" for x
    using assms(2,3) by (cases v) (auto simp: held_set [OF fin] settle_def)
qed (simp add: set_ptr_def)

lemma copyto_bal:
  assumes "bal s f" "m_ptr s p = Some v"
  shows "\<exists>s'. InternalAddRef p s = Inr s' \<and> m_ptr s' = m_ptr s \<and> bal s' (owe v f)"
proof (cases v)
  case None
  then show ?thesis using assms by (simp add: InternalAddRef_def get_ptr_def owe_def)
next
  case (Some x)
  have "refs s x \<noteq> None" "\<forall>y. refs s y \<noteq> Some 0"
    using bal_alive [OF assms(1)] assms Some by (simp_all add: bal_def)
  then obtain s' where s': "com_AddRef x s = Inr s'" "m_ptr s' = m_ptr s" "held s' = held s"
    "ref_count s' = (ref_count s)(x := ref_count s x + 1)" "\<forall>y. refs s' y \<noteq> Some 0"
    by (rule AddRef_counts)
  have "ref_count s' y = held s' y + owe v f y" for y
    unfolding s'(3,4) using assms(1) Some by (auto simp: bal_def owe_def)
  then show ?thesis using s'(1,2,5) assms Some by (simp add: bal_def InternalAddRef_def get_ptr_def)
qed

lemma InternalMove_bal:
  assumes "bal s f" "m_ptr s p = Some u" "m_ptr s q = Some v"
  shows "\<exists>s'. InternalMove p q s = Inr s' \<and> bal s' f"
proof (cases "u = v")
  case True
  then show ?thesis using assms by (simp add: InternalMove_def get_ptr_def)
next
  case False
  then have "p \<noteq> q" using assms(2,3) by auto
  have "m_ptr s p \<noteq> None" using assms(2) by simp
  with assms(1) obtain s1 where s1: "InternalRelease p s = Inr s1" "bal s1 f" "m_ptr s1 = (m_ptr s)(p \<mapsto> None)"
    by (rule release_bal)
  have q: "m_ptr s1 q = Some v" using s1(3) \<open>p \<noteq> q\<close> assms(3) by simp
  have "bal (set_ptr q None (set_ptr p v s1)) f"
    by (rule move_bal [OF s1(2) q _ \<open>p \<noteq> q\<close>]) (simp add: s1(3))
  then show ?thesis using assms(2,3) False s1(1) q by (simp add: InternalMove_def get_ptr_def)
qed

lemma As_bal:
  assumes "bal s f" "m_ptr s t = None" "m_ptr s p = Some (Some x)" "\<forall>y \<in> set_option (query x iid). refs s y \<noteq> None"
  shows "\<exists>s'. As query p iid t s = Inr s' \<and> bal s' f"
proof -
  let ?s = "set_ptr t None s"
  have "t \<noteq> p" using assms(2,3) by auto
  have b: "bal ?s f" by (rule new_bal [OF assms(1,2)])
  have p: "m_ptr ?s p = Some (Some x)" using \<open>t \<noteq> p\<close> assms(3) by (simp add: set_ptr_def)
  have x: "refs ?s x \<noteq> None" by (rule bal_alive [OF b p])
  have idem: "set_ptr t None ?s = ?s" by (simp add: set_ptr_def)
  show ?thesis
  proof (cases "query x iid")
    case None
    then show ?thesis using b p x idem by (auto simp: As_def ComPtr_new_def get_ptr_def GetAddressOf_def)
  next
    case (Some y)
    have "refs ?s y \<noteq> None" using assms(4) Some by (simp add: set_ptr_def)
    then obtain s' where s': "InternalAddRef t (set_ptr t (Some y) ?s) = Inr s'" "bal s' f"
      using add_bal [OF b, of t "Some y"] by (auto simp: set_ptr_def)
    have "As query p iid t s = bindO (com_AddRef y ?s) (\<lambda>s. Inr (set_ptr t (Some y) s))"
      using p x Some by (auto simp: As_def ComPtr_new_def get_ptr_def GetAddressOf_def)
    also have "\<dots> = InternalAddRef t (set_ptr t (Some y) ?s)"
      using \<open>refs ?s y \<noteq> None\<close> by (auto simp: InternalAddRef_def get_ptr_def set_ptr_def com_AddRef_def)
    finally show ?thesis using s' by auto
  qed
qed

lemma com_step:
  assumes "balanced c" "com_allowed query op c"
  shows "\<exists>c'. com_exec query op c = Inr c' \<and> balanced c'"
proof -
  obtain s f where c: "c = (s, f)" by (cases c)
  have b: "bal s f" using assms(1) by (simp add: c balanced_bal)
  note a = assms(2) [unfolded c]
  show ?thesis
  proof (cases op)
    case (Create x)
    then show ?thesis using a alloc_bal [OF b] by (simp add: c balanced_bal)
  next
    case (Drop x)
    then show ?thesis using a drop_bal [OF b, of x] by (auto simp: c balanced_bal)
  next
    case (New p)
    then show ?thesis using a new_bal [OF b] by (simp add: c balanced_bal ComPtr_new_def)
  next
    case (CopyNew p q)
    then obtain v where v: "m_ptr s q = Some v" using a by auto
    have "refs s x \<noteq> None" if "v = Some x" for x using bal_alive [OF b] v that by simp
    moreover have "m_ptr s p \<noteq> Some (Some y)" for y using CopyNew a by simp
    ultimately obtain s' where "InternalAddRef p (set_ptr p v s) = Inr s'" "bal s' f"
      using add_bal [OF b, of p v] by metis
    then show ?thesis using CopyNew v by (simp add: c balanced_bal ComPtr_copy_def get_ptr_def)
  next
    case (MoveNew p q)
    then obtain v where v: "m_ptr s q = Some v" using a by auto
    then have "p \<noteq> q" using MoveNew a by auto
    then show ?thesis using MoveNew a v move_bal [OF b v, of p]
      by (simp add: c balanced_bal ComPtr_move_def get_ptr_def)
  next
    case (Delete p)
    then obtain s1 where s1: "InternalRelease p s = Inr s1" "bal s1 f" "m_ptr s1 = (m_ptr s)(p \<mapsto> None)"
      using a release_bal [OF b, of p] by auto
    have fin: "finite (dom (m_ptr s1))" using s1(2) by (simp add: bal_def)
    have "held (s1\<lparr>m_ptr := (m_ptr s1)(p := None)\<rparr>) x = held s1 x" for x
      unfolding held_upd [OF fin] by (simp add: s1(3))
    then have "bal (s1\<lparr>m_ptr := (m_ptr s1)(p := None)\<rparr>) f"
      using fin by (intro bal_cong [OF s1(2)]) simp_all
    then show ?thesis using Delete s1(1) by (simp add: c balanced_bal ComPtr_delete_def)
  next
    case (SwapOp p q)
    then obtain u v where uv: "m_ptr s p = Some u" "m_ptr s q = Some v" using a by auto
    then show ?thesis using SwapOp swap_bal [OF b uv] by (simp add: c balanced_bal ComPtr_swap_def Swap_def get_ptr_def)
  next
    case (ResetOp p)
    then have "m_ptr s p \<noteq> None" using a by simp
    with b obtain s1 where "InternalRelease p s = Inr s1" "bal s1 f" by (rule release_bal)
    then show ?thesis using ResetOp by (simp add: c balanced_bal Reset_def)
  next
    case (DetachOp p)
    then obtain v where v: "m_ptr s p = Some v" using a by auto
    then show ?thesis using DetachOp detach_bal [OF b v] by (simp add: c balanced_bal Detach_def get_ptr_def)
  next
    case (CopyOp p v)
    then have p: "m_ptr s p \<noteq> None" and "x \<in> set_option v \<Longrightarrow> refs s x \<noteq> None" for x using a by auto
    then obtain s1 where "InternalCopy p v s = Inr s1" "bal s1 f" by (auto intro: copy_bal [OF b p, of v])
    then show ?thesis using CopyOp by (simp add: c balanced_bal Copy_def)
  next
    case (AttachOp p v)
    then obtain s1 where s1: "InternalRelease p s = Inr s1" "bal s1 f" "m_ptr s1 = (m_ptr s)(p \<mapsto> None)"
      using a release_bal [OF b, of p] by auto
    then show ?thesis using AttachOp a attach_bal [OF s1(2), of p v]
      by (simp add: c balanced_bal Attach_def)
  next
    case (CopyToOp p)
    then obtain v where v: "m_ptr s p = Some v" using a by auto
    then show ?thesis using CopyToOp copyto_bal [OF b v] by (auto simp: c balanced_bal CopyTo_def get_ptr_def)
  next
    case (AsOp p iid t)
    then show ?thesis using a As_bal [OF b, of t p _ query iid] by (auto simp: c balanced_bal)
  next
    case (AssignCopy p q)
    then obtain v where v: "m_ptr s q = Some v" using a by auto
    have p: "m_ptr s p \<noteq> None" using AssignCopy a by simp
    have "x \<in> set_option v \<Longrightarrow> refs s x \<noteq> None" for x using bal_alive [OF b] v by auto
    then obtain s1 where "InternalCopy p v s = Inr s1" "bal s1 f" by (auto intro: copy_bal [OF b p, of v])
    then show ?thesis using AssignCopy v by (simp add: c balanced_bal assign_copy_def get_ptr_def)
  next
    case (AssignMove p q)
    then obtain u v where uv: "m_ptr s p = Some u" "m_ptr s q = Some v" using a by auto
    then show ?thesis using AssignMove InternalMove_bal [OF b uv] by (auto simp: c balanced_bal assign_move_def)
  qed
qed

interpretation com: machine com_initial "com_allowed query" "com_exec query" balanced
  for query :: "object \<Rightarrow> 'iid \<Rightarrow> object option"
proof unfold_locales
  show "com_initial s \<Longrightarrow> balanced s" for s
    by (simp add: com_initial_def balanced_def ref_count_def held_def)
qed (rule com_step)

section \<open>Properties\<close>

text \<open>C35: whatever a client does with smart pointers that it may do, in any order and with any aliasing between the
  pointers: the reference count of every object stays the number of the smart pointers that hold it and the
  references clients hold, so no smart pointer ever holds a freed object, and no operation calls one.\<close>

theorem ComPtr_counts_references:
  assumes "reachable com_initial (com_allowed query) (com_exec query) (s, owed)"
    and "com_allowed query op (s, owed)"
  shows "(\<forall>p x. m_ptr s p = Some (Some x) \<longrightarrow> refs s x \<noteq> None) \<and>
    (\<forall>x. (case refs s x of None \<Rightarrow> 0 | Some n \<Rightarrow> n) = card {p. m_ptr s p = Some (Some x)} + owed x) \<and>
    (\<exists>c. com_exec query op (s, owed) = Inr c)"
proof (intro conjI)
  have b: "bal s owed" using com.reachable_inv [OF assms(1)] by (simp add: balanced_bal)
  show "\<forall>p x. m_ptr s p = Some (Some x) \<longrightarrow> refs s x \<noteq> None" using bal_alive [OF b] by blast
  show "\<forall>x. (case refs s x of None \<Rightarrow> 0 | Some n \<Rightarrow> n) = card {p. m_ptr s p = Some (Some x)} + owed x"
    using bal_count [OF b] by (simp add: ref_count_def held_def)
  show "\<exists>c. com_exec query op (s, owed) = Inr c" using com.reachable_progress [OF assms] by blast
qed

text \<open>An object created, attached to a pointer and moved to another by the assignment, where the count stays one.\<close>

lemma ComPtr_counts_references_witness:
  "\<exists>s. foldO (com_exec (\<lambda>x (_ :: unit). Some x)) [New 1, New 2, Create 7, AttachOp 1 (Some 7), AssignMove 2 1]
      (\<lparr>refs = \<lambda>_. None, m_ptr = \<lambda>_. None\<rparr>, \<lambda>_. 0) = Inr (s, \<lambda>_. 0) \<and>
    refs s 7 = Some 1 \<and> m_ptr s 2 = Some (Some 7) \<and> m_ptr s 1 = Some None \<and>
    (case refs s 7 of None \<Rightarrow> 0 | Some n \<Rightarrow> n) = card {p. m_ptr s p = Some (Some 7)}"
proof -
  let ?q = "\<lambda>x (_ :: unit). Some x :: object option" and ?z = "\<lambda>_. 0 :: nat"
  let ?s1 = "\<lparr>refs = \<lambda>_. None, m_ptr = [1 \<mapsto> None]\<rparr>"
  let ?s2 = "\<lparr>refs = \<lambda>_. None, m_ptr = [1 \<mapsto> None, 2 \<mapsto> None]\<rparr>"
  let ?s3 = "\<lparr>refs = [7 \<mapsto> 1], m_ptr = [1 \<mapsto> None, 2 \<mapsto> None]\<rparr>"
  let ?s4 = "\<lparr>refs = [7 \<mapsto> 1], m_ptr = [1 \<mapsto> Some 7, 2 \<mapsto> None]\<rparr>"
  let ?s5 = "\<lparr>refs = [7 \<mapsto> 1], m_ptr = [1 \<mapsto> None, 2 \<mapsto> Some 7]\<rparr>"
  let ?R = "reachable com_initial (com_allowed ?q) (com_exec ?q)"
  have e: "com_exec ?q (New 1) (\<lparr>refs = \<lambda>_. None, m_ptr = \<lambda>_. None\<rparr>, ?z) = Inr (?s1, ?z)"
    "com_exec ?q (New 2) (?s1, ?z) = Inr (?s2, ?z)"
    "com_exec ?q (Create 7) (?s2, ?z) = Inr (?s3, ?z(7 := 1))"
    "com_exec ?q (AttachOp 1 (Some 7)) (?s3, ?z(7 := 1)) = Inr (?s4, ?z)"
    "com_exec ?q (AssignMove 2 1) (?s4, ?z) = Inr (?s5, ?z)"
    by (auto simp: ComPtr_new_def set_ptr_def owe_def settle_def Attach_def InternalRelease_def get_ptr_def
        assign_move_def InternalMove_def fun_eq_iff)
  have "?R (\<lparr>refs = \<lambda>_. None, m_ptr = \<lambda>_. None\<rparr>, ?z)" by (rule reach_initial) (simp add: com_initial_def)
  then have "?R (?s1, ?z)" by (rule reach_step [where op = "New 1"]) (simp, rule e(1))
  then have "?R (?s2, ?z)" by (rule reach_step [where op = "New 2"]) (simp, rule e(2))
  then have "?R (?s3, ?z(7 := 1))" by (rule reach_step [where op = "Create 7"]) (simp, rule e(3))
  then have "?R (?s4, ?z)" by (rule reach_step [where op = "AttachOp 1 (Some 7)"]) (simp, rule e(4))
  then have "?R (?s5, ?z)" by (rule reach_step [where op = "AssignMove 2 1"]) (simp, rule e(5))
  note r = ComPtr_counts_references [OF this, of "ResetOp 2"]
  have "com_allowed ?q (ResetOp 2) (?s5, ?z)" by simp
  from r [OF this] have "\<forall>x. (case refs ?s5 x of None \<Rightarrow> 0 | Some n \<Rightarrow> n) =
      card {p. m_ptr ?s5 p = Some (Some x)} + ?z x" by (elim conjE)
  then have "(case refs ?s5 7 of None \<Rightarrow> 0 | Some n \<Rightarrow> n) = card {p. m_ptr ?s5 p = Some (Some 7)} + ?z 7" by (rule spec)
  moreover have "foldO (com_exec ?q) [New 1, New 2, Create 7, AttachOp 1 (Some 7), AssignMove 2 1]
      (\<lparr>refs = \<lambda>_. None, m_ptr = \<lambda>_. None\<rparr>, ?z) = Inr (?s5, ?z)"
    by (simp only: foldO.simps e bindO_simps)
  ultimately show ?thesis by (intro exI [of _ ?s5]) simp
qed

end
