(* ===== verification/Profiler.thy ===== *)
theory Profiler
  imports Config ILBody ILImport Machine
begin

text \<open>
  \<open>CorProfiler\<close> (\<^verbatim>\<open>profiler/CorProfiler.cpp\<close>): its state, the callbacks that only keep it, and the searches in
  the configuration.

  The runtime is a parameter: \<open>'w\<close> is its state, and \<open>profiler_info\<close> holds what \<open>ICorProfilerInfo8\<close> and the
  metadata interfaces of a module answer in a state. Logging writes to standard output only and is left out; so are
  the reference counts of the interfaces, which \<open>ComPtr\<close> keeps. An interface a module does not offer is a null
  \<open>ComPtr\<close> the code dereferences; the runtime is taken to offer the three it is asked for.
\<close>

unbundle bit_operations_syntax

section \<open>The runtime\<close>

record GUID =
  Data1 :: "32 word"
  Data2 :: "16 word"
  Data3 :: "16 word"
  Data4 :: "BYTE list"

text \<open>\<open>pi_GetScopeProps\<close> is the version identifier after the call, \<open>pi_allocator\<close> whether the IL allocator of a module
  delivers memory, \<open>pi_fresh\<close> what memory holds before it is written, and \<open>pi_version_ptr\<close> the address of the
  element of \<open>modules\<close> for a module.\<close>

record 'w profiler_info = "'w module_api" +
  pi_SetEventMask :: "DWORD \<Rightarrow> 'w \<Rightarrow> HRESULT \<times> 'w"
  pi_GetModuleMetaData :: "'w \<Rightarrow> ModuleID \<Rightarrow> HRESULT \<times> 'w metadata"
  pi_GetScopeProps :: "'w \<Rightarrow> ModuleID \<Rightarrow> GUID"
  pi_GetFunctionInfo :: "'w \<Rightarrow> FunctionID \<Rightarrow> HRESULT \<times> ModuleID \<times> mdToken"
  pi_GetILFunctionBody :: "'w \<Rightarrow> ModuleID \<Rightarrow> mdToken \<Rightarrow> HRESULT \<times> nat \<times> BYTE list"
  pi_SetILFunctionBody :: "ModuleID \<Rightarrow> mdToken \<Rightarrow> BYTE list \<Rightarrow> 'w \<Rightarrow> HRESULT \<times> 'w"
  pi_allocator :: "'w \<Rightarrow> ModuleID \<Rightarrow> 32 word \<Rightarrow> bool"
  pi_uninit :: "nat \<Rightarrow> BYTE"
  pi_fresh :: "ILRewriter \<times> ILInstr"
  pi_version_ptr :: "ModuleID \<Rightarrow> INT64"

section \<open>The state\<close>

text \<open>An unordered set is a list without repetition; \<open>corProfilerInfo\<close> is whether the pointer is set.\<close>

record CorProfiler =
  refCount :: INT32
  loadedIntoAppDomains :: "AppDomainID list"
  modules :: "ModuleID \<Rightarrow> GUID option"
  enabledModules :: "ModuleID list"
  configuration :: Configuration
  corProfilerInfo :: bool

definition CorProfiler_new :: CorProfiler where
  "CorProfiler_new =
     \<lparr>refCount = 0, loadedIntoAppDomains = [], modules = Map.empty, enabledModules = [],
      configuration = Configuration_default, corProfilerInfo = False\<rparr>"

text \<open>The number of releases of \<open>corProfilerInfo\<close> the destructor and \<open>Shutdown\<close> make.\<close>

definition release_info :: "CorProfiler \<Rightarrow> nat \<times> CorProfiler" where
  "release_info p = (if corProfilerInfo p then (1, p\<lparr>corProfilerInfo := False\<rparr>) else (0, p))"

definition CorProfiler_delete :: "CorProfiler \<Rightarrow> nat" where
  "CorProfiler_delete p = fst (release_info p)"

definition Shutdown :: "CorProfiler \<Rightarrow> HRESULT \<times> nat \<times> CorProfiler" where
  "Shutdown p = (case release_info p of (n, p) \<Rightarrow> (S_OK, n, p))"

definition COR_PRF_MONITOR_MODULE_LOADS :: DWORD where "COR_PRF_MONITOR_MODULE_LOADS = 0x4"
definition COR_PRF_MONITOR_JIT_COMPILATION :: DWORD where "COR_PRF_MONITOR_JIT_COMPILATION = 0x20"
definition COR_PRF_DISABLE_INLINING :: DWORD where "COR_PRF_DISABLE_INLINING = 0x200000"
definition COR_PRF_DISABLE_TRANSPARENCY_CHECKS_UNDER_FULL_TRUST :: DWORD where
  "COR_PRF_DISABLE_TRANSPARENCY_CHECKS_UNDER_FULL_TRUST = 0x40000000"
definition COR_PRF_DISABLE_ALL_NGEN_IMAGES :: DWORD where "COR_PRF_DISABLE_ALL_NGEN_IMAGES = 0x80000000"

text \<open>\<open>query\<close> is the answer to \<open>QueryInterface\<close>: its HRESULT, and whether it set the pointer. \<open>load\<close> is
  \<open>LoadConfiguration\<close> of the file the environment names.\<close>

definition Initialize ::
  "('w, 'a) profiler_info_scheme \<Rightarrow> HRESULT \<times> bool \<Rightarrow> Configuration outcome \<Rightarrow> CorProfiler \<Rightarrow> 'w
    \<Rightarrow> (HRESULT \<times> CorProfiler \<times> 'w) outcome" where
  "Initialize info query load p w =
     (case query of (queryInterfaceResult, assigned) \<Rightarrow>
        let p = p\<lparr>corProfilerInfo := assigned\<rparr> in
        if FAILED queryInterfaceResult then Inr (E_FAIL, p, w)
        else if \<not> corProfilerInfo p then Inl NullDeref
        else
          let eventMask = COR_PRF_MONITOR_JIT_COMPILATION OR COR_PRF_DISABLE_TRANSPARENCY_CHECKS_UNDER_FULL_TRUST OR
                COR_PRF_DISABLE_INLINING OR COR_PRF_MONITOR_MODULE_LOADS OR COR_PRF_DISABLE_ALL_NGEN_IMAGES in
          case pi_SetEventMask info eventMask w of (hr, w) \<Rightarrow>
            bindO load (\<lambda>c. Inr (S_OK, p\<lparr>configuration := c\<rparr>, w)))"

text \<open>\<open>LoadConfiguration(GetEnvironmentValue("PROFILER_CONFIGURATION"))\<close>.\<close>

definition configured ::
  "(BYTE list \<Rightarrow> BYTE list option) \<Rightarrow> (BYTE list \<Rightarrow> json option option) \<Rightarrow> Configuration outcome" where
  "configured getenv opened = LoadConfiguration opened (GetEnvironmentValue getenv (B ''PROFILER_CONFIGURATION''))"

section \<open>Modules\<close>

definition ModuleLoadFinished ::
  "('w, 'a) profiler_info_scheme \<Rightarrow> ModuleID \<Rightarrow> CorProfiler \<Rightarrow> 'w \<Rightarrow> (HRESULT \<times> CorProfiler) outcome" where
  "ModuleLoadFinished info moduleId p w =
     (if \<not> corProfilerInfo p then Inl NullDeref
      else
        bindO (GetModuleInfo info w moduleId) (\<lambda>module_info.
        let (hr, metadataImport) = pi_GetModuleMetaData info w moduleId in
        if FAILED hr then Inr (hr, p)
        else
          let p = p\<lparr>modules := (modules p)(moduleId \<mapsto> pi_GetScopeProps info w moduleId)\<rparr>;
              p = p\<lparr>enabledModules := enabledModules p @ [moduleId]\<rparr>;
              p = (if as_name (mod_assembly module_info) \<in> set (EnabledAssemblies (configuration p))
                   then p\<lparr>enabledModules := enabledModules p @ [moduleId]\<rparr> else p) in
          Inr (S_OK, p)))"

section \<open>Searching the configuration\<close>

definition SkipAssembly :: "CorProfiler \<Rightarrow> wstring \<Rightarrow> bool" where
  "SkipAssembly p name \<longleftrightarrow> name \<in> set (SkipAssemblies (configuration p))"

text \<open>The comparison of the number of arguments, of type \<open>ULONG\<close>, with an \<open>int\<close> is one of unsigned numbers.\<close>

definition target_matches :: "FunctionInfo \<Rightarrow> TargetMethod \<Rightarrow> bool" where
  "target_matches target t \<longleftrightarrow>
     ti_Name (fi_Type target) = tm_TypeName t \<and> fi_Name target = tm_MethodName t \<and>
     NumberOfArguments (fi_Signature target) = tm_MethodParametersCount t"

definition FindInterceptions :: "CorProfiler \<Rightarrow> wstring \<Rightarrow> FunctionInfo \<Rightarrow> ConfigTypeInfo list" where
  "FindInterceptions p callerAssemblyName target =
     map si_Interceptor
       (filter (\<lambda>i. callerAssemblyName \<notin> set (si_IgnoreCallerAssemblies i) \<and> target_matches target (si_Target i))
         (StrictInterceptions (configuration p))) @
     List.map_filter (\<lambda>a. map_option ai_Interceptor (map_of (AttributedInterceptors (configuration p)) a))
       (fi_Attributes target)"

definition FindMethodFinder :: "CorProfiler \<Rightarrow> FunctionInfo \<Rightarrow> ConfigTypeInfo \<times> bool" where
  "FindMethodFinder p target =
     (case find (\<lambda>m. target_matches target (mf_Target m)) (MethodFinders (configuration p)) of
        Some m \<Rightarrow> (mf_Finder m, True)
      | None \<Rightarrow> (ConfigTypeInfo_default, False))"

section \<open>Rewriters\<close>

text \<open>\<open>CreateILRewriter\<close> and the constructor with a null function control.\<close>

definition CreateILRewriter :: "('w, 'a) profiler_info_scheme \<Rightarrow> ILRewriter" where
  "CreateILRewriter info = ILRewriter_new False (fst (pi_fresh info)) (snd (pi_fresh info))"

text \<open>\<open>Export\<close> of the rewriter of a method: the body it hands over, if any, reaches the runtime.\<close>

definition Export_method ::
  "('w, 'a) profiler_info_scheme \<Rightarrow> ModuleID \<Rightarrow> mdToken \<Rightarrow> ILRewriter \<Rightarrow> 'w
    \<Rightarrow> (HRESULT \<times> ILRewriter \<times> 'w) outcome" where
  "Export_method info moduleId token \<sigma> w =
     bindO (Export \<lparr>api_alloc = pi_allocator info w moduleId,
                    api_SetILFunctionBody = (\<lambda>body. fst (pi_SetILFunctionBody info moduleId token body w)),
                    api_uninit = pi_uninit info\<rparr> \<sigma>) (\<lambda>(hr, body, \<sigma>).
       Inr (hr, \<sigma>, case body of None \<Rightarrow> w | Some b \<Rightarrow> snd (pi_SetILFunctionBody info moduleId token b w)))"

definition Import_method ::
  "('w, 'a) profiler_info_scheme \<Rightarrow> ModuleID \<Rightarrow> mdToken \<Rightarrow> ILRewriter \<Rightarrow> 'w \<Rightarrow> (HRESULT \<times> ILRewriter) outcome" where
  "Import_method info moduleId token \<sigma> w = Import (pi_GetILFunctionBody info w moduleId token) \<sigma>"

end
