(* ===== verification/LoadMethod.thy ===== *)
theory LoadMethod
  imports Profiler
begin

text \<open>
  The method that loads the interceptors' assemblies into an application domain (\<open>CorProfiler::GenerateLoadMethod\<close>
  and \<open>InjectLoadMethod\<close>).

  What a sequence of emitters and questions to the runtime does is stated as code: \<open>emits_with\<close> extends the promise
  \<open>emits\<close> of the helper by the state of the runtime and by faults. Straight-line code is exported into a tiny body
  that holds exactly its encodings.
\<close>

unbundle bit_operations_syntax

section \<open>Loading the interceptors' assemblies\<close>

definition tdAbstract :: DWORD where "tdAbstract = 0x80"
definition tdSealed :: DWORD where "tdSealed = 0x100"
definition mdPublic :: DWORD where "mdPublic = 0x6"
definition mdStatic :: DWORD where "mdStatic = 0x10"
definition miAggressiveInlining :: DWORD where "miAggressiveInlining = 0x100"

text \<open>The calls whose HRESULT is assigned and not looked at: the token they leave, and the state.\<close>

definition token_of :: "(HRESULT \<times> mdToken) \<times> 'w \<Rightarrow> mdToken \<times> 'w" where
  "token_of r = (case r of ((hr, token), w) \<Rightarrow> (token, w))"

definition loadMethodSignature :: "BYTE list" where
  "loadMethodSignature = [IMAGE_CEE_CS_CALLCONV_DEFAULT, 0, ELEMENT_TYPE_VOID]"

definition assemblyLoadFromSignature :: "mdToken \<Rightarrow> BYTE list outcome" where
  "assemblyLoadFromSignature assemblyTypeRef =
     bindO (compressed (CorSigCompressToken assemblyTypeRef)) (\<lambda>compressedToken.
       Inr ([IMAGE_CEE_CS_CALLCONV_DEFAULT, 1, ELEMENT_TYPE_CLASS] @ compressedToken @ [ELEMENT_TYPE_STRING]))"

text \<open>The body of the loop over \<open>configuration.Assemblies\<close>.\<close>

definition load_assembly ::
  "'w metadata \<Rightarrow> mdToken \<Rightarrow> wstring \<Rightarrow> ILRewriterHelper \<times> 'w \<Rightarrow> (ILRewriterHelper \<times> 'w) outcome" where
  "load_assembly md assemblyLoadFromRef el = (\<lambda>(helper, w).
     case token_of (md_DefineUserString md el w) of (pathToken, w) \<Rightarrow>
       bindO (LoadStr pathToken helper) (\<lambda>helper.
       bindO (CallMember assemblyLoadFromRef False helper) (\<lambda>helper.
       bindO (Pop helper) (\<lambda>helper. Inr (helper, w)))))"

text \<open>(HRESULT, \<open>retMethodToken\<close> if it was assigned, runtime).\<close>

definition GenerateLoadMethod ::
  "('w, 'a) profiler_info_scheme \<Rightarrow> ModuleID \<Rightarrow> CorProfiler \<Rightarrow> 'w \<Rightarrow> (HRESULT \<times> mdToken option \<times> 'w) outcome" where
  "GenerateLoadMethod info moduleId p w =
     (let (hr, md) = pi_GetModuleMetaData info w moduleId in
      if FAILED hr then Inr (hr, None, w)
      else
        let ((hr, mscorlibRef), w) = GetMsCorLibRef md w in
        if FAILED hr then Inr (hr, None, w)
        else
          let (objectTypeRef, w) = token_of (md_DefineTypeRefByName md mscorlibRef (c_str SystemObject) w);
              (newTypeDef, w) = token_of (md_DefineTypeDef md (W ''__InterceptionDllLoaderClass__'')
                 (tdAbstract OR tdSealed) objectTypeRef w);
              (retMethodToken, w) = token_of (md_DefineMethod md newTypeDef (W ''__InterceptionDllLoaderMethod__'')
                 (mdStatic OR mdPublic OR miAggressiveInlining) loadMethodSignature 0 0 w);
              (assemblyTypeRef, w) = token_of (md_DefineTypeRefByName md mscorlibRef (c_str SystemReflectionAssembly) w) in
          bindO (assemblyLoadFromSignature assemblyTypeRef) (\<lambda>signature.
          let (assemblyLoadFromRef, w) = token_of (md_DefineMemberRef md assemblyTypeRef (c_str LoadFrom) signature w);
              rewriter = InitializeTiny (CreateILRewriter info) in
          bindO (load_instr rewriter GetILList) (\<lambda>il.
          let helper = SetILPosition (m_pNext il) (ILRewriterHelper_new rewriter) in
          bindO (foldO (load_assembly md assemblyLoadFromRef) (Assemblies (configuration p)) (helper, w)) (\<lambda>(helper, w).
          bindO (Ret helper) (\<lambda>helper.
          bindO (Export_method info moduleId retMethodToken (h_rewriter helper) w) (\<lambda>(hr, _, w).
            Inr (hr, Some retMethodToken, w)))))))"

definition InjectLoadMethod ::
  "('w, 'a) profiler_info_scheme \<Rightarrow> ModuleID \<Rightarrow> CorProfiler \<Rightarrow> ILRewriter \<Rightarrow> 'w
    \<Rightarrow> (HRESULT \<times> ILRewriter \<times> 'w) outcome" where
  "InjectLoadMethod info moduleId p rewriter w =
     bindO (GenerateLoadMethod info moduleId p w) (\<lambda>(hr, retMethodToken, w).
       if FAILED hr then Inr (hr, rewriter, w)
       else
         (case retMethodToken of
            None \<Rightarrow> Inl Indeterminate
          | Some token \<Rightarrow>
              bindO (load_instr rewriter GetILList) (\<lambda>il.
              let helper = SetILPosition (m_pNext il) (ILRewriterHelper_new rewriter) in
              bindO (CallMember token False helper) (\<lambda>helper. Inr (S_OK, h_rewriter helper, w)))))"

section \<open>Emission with the runtime\<close>

text \<open>The promise of a computation that emits code and asks the runtime: \<open>c\<close> is the code it emits and the runtime
  afterwards, or the fault it ends in, for each state of the runtime; the list of instructions does not matter.\<close>

type_synonym 'w code_spec = "'w \<Rightarrow> (il_code \<times> 'w) outcome"

definition emits_with :: "(ILRewriterHelper \<times> 'w \<Rightarrow> (ILRewriterHelper \<times> 'w) outcome) \<Rightarrow> 'w code_spec \<Rightarrow> bool" where
  "emits_with f c \<longleftrightarrow>
     (\<forall>h w as bs. helper_at h as bs \<longrightarrow>
        (case c w of
           Inl e \<Rightarrow> f (h, w) = Inl e
         | Inr (code, w') \<Rightarrow> \<exists>h' ps. f (h, w) = Inr (h', w') \<and> emitted h as bs ps code h'))"

definition then_code :: "'w code_spec \<Rightarrow> 'w code_spec \<Rightarrow> 'w code_spec" where
  "then_code c d w = bindO (c w) (\<lambda>(a, w). bindO (d w) (\<lambda>(b, w). Inr (a @ b, w)))"

definition no_code :: "'w code_spec" where
  "no_code w = Inr ([], w)"

definition fold_code :: "('a \<Rightarrow> 'w code_spec) \<Rightarrow> 'a list \<Rightarrow> 'w code_spec" where
  "fold_code c xs = foldr (\<lambda>x d. then_code (c x) d) xs no_code"

lemma fold_code_simps [simp]: "fold_code c [] = no_code" "fold_code c (x # xs) = then_code (c x) (fold_code c xs)"
  by (simp_all add: fold_code_def)

lemma emits_withI:
  assumes "\<And>h w as bs e. helper_at h as bs \<Longrightarrow> c w = Inl e \<Longrightarrow> f (h, w) = Inl e"
    and "\<And>h w as bs code w'. helper_at h as bs \<Longrightarrow> c w = Inr (code, w') \<Longrightarrow>
      \<exists>h' ps. f (h, w) = Inr (h', w') \<and> emitted h as bs ps code h'"
  shows "emits_with f c"
  unfolding emits_with_def using assms by (auto split: sum.splits)

lemma emits_withD:
  assumes "emits_with f c" "helper_at h as bs"
  shows "c w = Inl e \<Longrightarrow> f (h, w) = Inl e"
    and "c w = Inr (code, w') \<Longrightarrow> \<exists>h' ps. f (h, w) = Inr (h', w') \<and> emitted h as bs ps code h'"
proof -
  have s: "case c w of Inl e \<Rightarrow> f (h, w) = Inl e
      | Inr (code, w') \<Rightarrow> \<exists>h' ps. f (h, w) = Inr (h', w') \<and> emitted h as bs ps code h'"
    using assms unfolding emits_with_def by blast
  show "c w = Inl e \<Longrightarrow> f (h, w) = Inl e" using s by simp
  show "c w = Inr (code, w') \<Longrightarrow> \<exists>h' ps. f (h, w) = Inr (h', w') \<and> emitted h as bs ps code h'" using s by simp
qed

named_theorems emit_with_rules \<open>the code computations with the runtime emit\<close>

lemma with_Inr [emit_with_rules]: "emits_with Inr no_code"
  by (rule emits_withI) (auto simp: no_code_def emitted_def intro!: exI [of _ "[]"])

lemma with_bind:
  assumes f: "emits_with f c" and g: "emits_with g d"
  shows "emits_with (\<lambda>x. bindO (f x) g) (then_code c d)"
proof (rule emits_withI)
  fix h :: ILRewriterHelper and w as bs e assume at: "helper_at h as bs" and e: "then_code c d w = Inl e"
  show "bindO (f (h, w)) g = Inl e"
  proof (cases "c w")
    case (Inl e')
    then show ?thesis using e emits_withD(1) [OF f at Inl] by (simp add: then_code_def)
  next
    case (Inr r)
    then obtain code w' where c: "c w = Inr (code, w')" by (cases r) simp
    then obtain h' ps where h': "f (h, w) = Inr (h', w')" "emitted h as bs ps code h'"
      using emits_withD(2) [OF f at] by blast
    then have at': "helper_at h' (as @ ps) bs" by (simp add: emitted_def)
    have "d w' = Inl e" using e c by (auto simp: then_code_def bindO_def split: sum.splits prod.splits)
    then show ?thesis using emits_withD(1) [OF g at'] h'(1) by simp
  qed
next
  fix h :: ILRewriterHelper and w as bs code w2 assume at: "helper_at h as bs" and e: "then_code c d w = Inr (code, w2)"
  then obtain a w1 b where c: "c w = Inr (a, w1)" "d w1 = Inr (b, w2)" "code = a @ b"
    by (auto simp: then_code_def)
  then obtain h1 ps where h1: "f (h, w) = Inr (h1, w1)" "emitted h as bs ps a h1"
    using emits_withD(2) [OF f at] by blast
  then have at1: "helper_at h1 (as @ ps) bs" by (simp add: emitted_def)
  obtain h2 qs where h2: "g (h1, w1) = Inr (h2, w2)" "emitted h1 (as @ ps) bs qs b h2"
    using emits_withD(2) [OF g at1 c(2)] by blast
  show "\<exists>h' ps. bindO (f (h, w)) g = Inr (h', w2) \<and> emitted h as bs ps code h'"
    using h1 h2 c(3) emitted_trans [OF h1(2) h2(2)] by auto
qed

lemma with_pure:
  assumes "emits f code"
  shows "emits_with (\<lambda>(h, w). bindO (f h) (\<lambda>h. Inr (h, w))) (\<lambda>w. Inr (code, w))"
proof (rule emits_withI)
  fix h :: ILRewriterHelper and w as bs code' and w'
  assume "helper_at h as bs" and c: "(Inr (code, w) :: (il_code \<times> 'b) outcome) = Inr (code', w')"
  with assms obtain h' ps where "f h = Inr h'" "emitted h as bs ps code h'" by (elim emitsE)
  with c show "\<exists>h' ps. (case (h, w) of (h, w) \<Rightarrow> bindO (f h) (\<lambda>h. Inr (h, w))) = Inr (h', w') \<and> emitted h as bs ps code' h'"
    by auto
qed simp

text \<open>A question to the runtime before the emission.\<close>

lemma with_ask:
  assumes "\<And>a. emits_with (f a) (c a)"
  shows "emits_with (\<lambda>(h, w). case q w of (a, w) \<Rightarrow> f a (h, w)) (\<lambda>w. case q w of (a, w) \<Rightarrow> c a w)"
  using assms unfolding emits_with_def by (auto split: prod.splits)

lemma with_if: "(b \<Longrightarrow> emits_with f c) \<Longrightarrow> (\<not> b \<Longrightarrow> emits_with g d) \<Longrightarrow>
    emits_with (if b then f else g) (if b then c else d)"
  by simp

lemma with_fold:
  "(\<And>x. x \<in> set xs \<Longrightarrow> emits_with (f x) (c x)) \<Longrightarrow> emits_with (foldO f xs) (fold_code c xs)"
proof (induction xs)
  case Nil
  have "foldO f [] = Inr" by (rule ext) simp
  then show ?case by (simp add: with_Inr)
next
  case (Cons x xs)
  have "foldO f (x # xs) = (\<lambda>g. bindO (f x g) (foldO f xs))" by (rule ext) simp
  then show ?case using Cons by (simp add: with_bind)
qed

text \<open>The helper of a fresh rewriter, before its first instruction.\<close>

lemma fresh_helper:
  assumes "\<sigma> = InitializeTiny (CreateILRewriter info) \<or> \<sigma> = SetTkLocalVarSig (InitializeTiny (CreateILRewriter info)) tk"
  shows "\<exists>il. load_instr \<sigma> GetILList = Inr il \<and> helper_at (SetILPosition (m_pNext il) (ILRewriterHelper_new \<sigma>)) [] []"
  using assms
  by (auto simp: InitializeTiny_def SetTkLocalVarSig_def CreateILRewriter_def ILRewriter_new_def load_instr_def GetILList_def
      helper_at_def SetILPosition_def ILRewriterHelper_new_def holds_def dll_def next_of_def prev_of_def IL_def)

section \<open>The body of straight-line code\<close>

definition linear :: "il_code \<Rightarrow> bool" where
  "linear code \<longleftrightarrow> list_all (\<lambda>(op, a). op < CEE_COUNT \<and> arg_fits (flags_of op) a \<and> \<not> is_branch op) code"

definition code_bytes :: "il_code \<Rightarrow> BYTE list" where
  "code_bytes code = concat (map (\<lambda>(op, a). opcode_bytes op @ (if flags_of op = 0 then [] else operand_bytes a)) code)"

lemma linear_simps [simp]:
  "linear []" "linear (i # c) \<longleftrightarrow> (case i of (op, a) \<Rightarrow> op < CEE_COUNT \<and> arg_fits (flags_of op) a \<and> \<not> is_branch op) \<and> linear c"
  "linear (c @ d) \<longleftrightarrow> linear c \<and> linear d"
  by (simp_all add: linear_def)

lemma code_bytes_simps [simp]:
  "code_bytes [] = []"
  "code_bytes (i # c) = (case i of (op, a) \<Rightarrow> opcode_bytes op @ (if flags_of op = 0 then [] else operand_bytes a)) @ code_bytes c"
  "code_bytes (c @ d) = code_bytes c @ code_bytes d"
  by (simp_all add: code_bytes_def)

lemma linear_heap:
  assumes "map (content_of h) ps = map (\<lambda>(op, a). Some (op, 0, a)) code" and "linear code" and "relaxed h h'"
  shows "exportable h ps" and "code_of h' ps = code_bytes code"
  using assms
proof (induction ps arbitrary: code)
  case Nil
  {
    case 1
    show ?case by (simp add: exportable_def)
  next
    case 2
    then show ?case by (simp add: code_of_def)
  }
next
  case (Cons p ps)
  {
    case 1
    then obtain op a c where c: "code = (op, a) # c" "content_of h p = Some (op, 0, a)"
      "map (content_of h) ps = map (\<lambda>(op, a). Some (op, 0, a)) c" by auto
    then obtain i where i: "h p = Some i" "m_opcode i = op" "m_arg i = a" by (auto simp: content_of_Some)
    have "exportable h ps" using Cons.IH(1) [OF c(3)] 1(2,3) c(1) by simp
    moreover have "typed_at h p" "\<not> branch_at h p"
      using 1(2) i by (simp_all add: c(1) typed_at_def typed_instr_def branch_at_def)
    ultimately show ?case by (auto simp: exportable_def)
  next
    case 2
    then obtain op a c where c: "code = (op, a) # c" "content_of h p = Some (op, 0, a)"
      "map (content_of h) ps = map (\<lambda>(op, a). Some (op, 0, a)) c" by auto
    then obtain i where i: "h p = Some i" "m_opcode i = op" "m_arg i = a" by (auto simp: content_of_Some)
    from relaxed_Some [OF 2(3) i(1)] obtain j where j: "h' p = Some j" "relaxed_instr i j" by blast
    have "m_opcode j = op" "m_arg j = a"
      using j(2) i 2(2) by (auto simp: c(1) relaxed_instr_def is_branch_def)
    then have "encoding h' j = opcode_bytes op @ (if flags_of op = 0 then [] else operand_bytes a)"
      using 2(2) by (simp add: c(1) encoding_def head_bytes_def)
    then show ?case using Cons.IH(2) [OF c(3)] 2(2,3) j(1) by (simp add: c(1) code_of_def)
  }
qed

text \<open>A tiny body around straight-line code.\<close>

definition tiny_of :: "BYTE list \<Rightarrow> BYTE list" where
  "tiny_of code = ucast (CorILMethod_TinyFormat OR push_bit 2 (word_of_nat (length code) :: 32 word)) # code"

lemma Export_linear:
  assumes "holds \<sigma> ps" and "map (content_of (heap \<sigma>)) ps = map (\<lambda>(op, a). Some (op, 0, a)) code" and "linear code"
    and "next_addr \<sigma> \<le> 2 ^ 27" and "m_nEH \<sigma> = 0" and "m_pEH \<sigma> = []" and "m_fGenerateTinyHeader \<sigma>"
    and "AllocateILMemory api \<sigma> (1 + word_of_nat (length (code_bytes code)))"
  shows "\<exists>\<sigma>'. Export api \<sigma> =
    (if 64 \<le> length (code_bytes code) then Inr (E_FAIL, None, \<sigma>')
     else Inr (if FAILED (api_SetILFunctionBody api (tiny_of (code_bytes code)))
               then api_SetILFunctionBody api (tiny_of (code_bytes code)) else S_OK,
            Some (tiny_of (code_bytes code)), \<sigma>'))"
proof -
  have "export_ready \<sigma> ps"
    using assms(1,4-6) linear_heap(1) [OF assms(2,3) relaxed_refl] by (simp add: export_ready_def)
  then obtain \<sigma>' where s: "export_state api \<sigma> ps \<sigma>'" by (rule export_layout)
  note p = export_state_parts [OF s \<open>export_ready \<sigma> ps\<close>]
  have code: "code_of (heap \<sigma>') ps = code_bytes code" by (rule linear_heap(2) [OF assms(2,3) p(7)])
  have len: "code_total (heap \<sigma>') ps = length (code_bytes code)"
    using length_code_of [of "heap \<sigma>'" ps] p(2) by (simp add: laid_out_def code)
  have big: "64 \<le> (word_of_nat (length (code_bytes code)) :: 32 word) \<longleftrightarrow> 64 \<le> length (code_bytes code)"
    using unat_total [OF s] by (simp add: word_le_nat_alt len)
  show ?thesis
  proof (cases "64 \<le> length (code_bytes code)")
    case True
    then have "Export api \<sigma> = Inr (E_FAIL, None, \<sigma>')"
      unfolding Export_unfold [OF s] Let_def len big using assms(7) by simp
    then show ?thesis using True by auto
  next
    case False
    then have "tiny_body api \<sigma>' (word_of_nat (length (code_bytes code))) = Inr (tiny_of (code_bytes code))"
      using tiny_body_eq [OF p(2), of api] by (simp add: len code tiny_of_def)
    then have "Export api \<sigma> = Inr (if FAILED (api_SetILFunctionBody api (tiny_of (code_bytes code)))
               then api_SetILFunctionBody api (tiny_of (code_bytes code)) else S_OK,
            Some (tiny_of (code_bytes code)), \<sigma>')"
      unfolding Export_unfold [OF s] Let_def len big using assms(7,8) False by simp
    then show ?thesis using False by auto
  qed
qed

text \<open>The instructions a helper creates take one address each.\<close>

lemma store_next: "store_instr \<sigma> p f = Inr \<sigma>' \<Longrightarrow> next_addr \<sigma>' = next_addr \<sigma>"
  by (auto simp: store_instr_def split: option.splits)

lemma insert_next: "InsertBefore \<sigma> p q = Inr \<sigma>' \<Longrightarrow> next_addr \<sigma>' = next_addr \<sigma>"
  by (auto simp: InsertBefore_def AdjustState_def dest!: store_next)

lemma create_next: "create_instr op arg \<sigma> = Inr (p, \<sigma>') \<Longrightarrow> next_addr \<sigma>' = next_addr \<sigma> + 1"
  by (auto simp: create_instr_def NewILInstr_def dest!: store_next split: option.splits)

lemma emit_next: "emit_void op arg h = Inr h' \<Longrightarrow> next_addr (h_rewriter h') = next_addr (h_rewriter h) + 1"
  by (auto simp: emit_void_def emit_def dest!: create_next insert_next)

section \<open>The method that loads the assemblies\<close>

definition load_assembly_code :: "'w metadata \<Rightarrow> mdToken \<Rightarrow> wstring \<Rightarrow> 'w code_spec" where
  "load_assembly_code md loadFrom el = (\<lambda>w.
     case token_of (md_DefineUserString md el w) of (path, w) \<Rightarrow>
       Inr ([(CEE_LDSTR, m_Arg32 path), (CEE_CALL, m_Arg32 loadFrom), plain CEE_POP], w))"

lemma load_assembly_emits: "emits_with (load_assembly md loadFrom el) (load_assembly_code md loadFrom el)"
proof -
  have "emits (\<lambda>h. bindO (LoadStr path h) (\<lambda>h. bindO (CallMember loadFrom False h) Pop))
      ([(CEE_LDSTR, m_Arg32 path)] @ [(CEE_CALL, m_Arg32 loadFrom)] @ [plain CEE_POP])" for path
    using emits_void_methods(4) [of loadFrom False] by (intro emits_bind emit_rules) simp
  from with_pure [OF this] have p: "emits_with (\<lambda>(h, w). bindO (LoadStr path h) (\<lambda>h. bindO (CallMember loadFrom False h)
        (\<lambda>h. bindO (Pop h) (\<lambda>h. Inr (h, w)))))
      (\<lambda>w. Inr ([(CEE_LDSTR, m_Arg32 path), (CEE_CALL, m_Arg32 loadFrom), plain CEE_POP], w))" for path
    by (simp add: bindO_assoc)
  have "load_assembly md loadFrom el = (\<lambda>(h, w). case token_of (md_DefineUserString md el w) of (path, w) \<Rightarrow>
      (\<lambda>(h, w). bindO (LoadStr path h) (\<lambda>h. bindO (CallMember loadFrom False h)
        (\<lambda>h. bindO (Pop h) (\<lambda>h. Inr (h, w))))) (h, w))"
    by (rule ext) (simp add: load_assembly_def split_beta)
  then show ?thesis using with_ask [OF p, where q = "\<lambda>w. token_of (md_DefineUserString md el w)"]
    by (simp only: load_assembly_code_def)
qed

lemma load_assembly_next:
  "load_assembly md loadFrom el (h, w) = Inr (h', w') \<Longrightarrow> next_addr (h_rewriter h') = next_addr (h_rewriter h) + 3"
  by (auto simp: load_assembly_def LoadStr_def CallMember_def Pop_def split_beta dest!: emit_next)

lemma load_assemblies_next:
  "foldO (load_assembly md loadFrom) els g = Inr g' \<Longrightarrow>
     next_addr (h_rewriter (fst g')) = next_addr (h_rewriter (fst g)) + 3 * length els"
proof (induction els arbitrary: g)
  case (Cons el els)
  then obtain g1 where g1: "load_assembly md loadFrom el g = Inr g1" "foldO (load_assembly md loadFrom) els g1 = Inr g'"
    by auto
  then have "next_addr (h_rewriter (fst g1)) = next_addr (h_rewriter (fst g)) + 3"
    using load_assembly_next [of md loadFrom el "fst g" "snd g" "fst g1" "snd g1"] by simp
  then show ?case using Cons.IH [OF g1(2)] by simp
qed simp

definition load_instrs :: "mdToken \<Rightarrow> mdToken list \<Rightarrow> il_code" where
  "load_instrs loadFrom paths =
     concat (map (\<lambda>path. [(CEE_LDSTR, m_Arg32 path), (CEE_CALL, m_Arg32 loadFrom), plain CEE_POP]) paths) @ [plain CEE_RET]"

lemma load_opcodes:
  "flags_of CEE_LDSTR = 4" "flags_of CEE_CALL = 4" "flags_of CEE_POP = 0" "flags_of CEE_RET = 0"
  by (simp_all add: flags_of_def)

lemma load_instrs_linear: "linear (load_instrs loadFrom paths)"
  by (induction paths) (simp_all add: load_instrs_def plain_def arg_fits_def is_branch_def load_opcodes CEE_COUNT_def)

lemma load_instrs_length: "length (code_bytes (load_instrs loadFrom paths)) = 11 * length paths + 1"
  by (induction paths) (simp_all add: load_instrs_def plain_def load_opcodes opcode_bytes_def)

text \<open>What the method refers to, as the runtime answers the profiler's questions one after the other: the tokens of the
  path strings of the assemblies, in the order of the configuration, and before them the token of the new method and
  that of \<open>System.Reflection.Assembly.LoadFrom(string)\<close>.\<close>

primrec path_tokens :: "'w metadata \<Rightarrow> wstring list \<Rightarrow> 'w \<Rightarrow> mdToken list \<times> 'w" where
  "path_tokens md [] w = ([], w)"
| "path_tokens md (el # els) w =
     (let (path, w) = token_of (md_DefineUserString md el w); (paths, w) = path_tokens md els w in (path # paths, w))"

definition load_method_tokens :: "'w metadata \<Rightarrow> mdToken \<Rightarrow> 'w \<Rightarrow> mdToken \<times> mdToken \<times> 'w" where
  "load_method_tokens md mscorlibRef w =
     (let (objectTypeRef, w) = token_of (md_DefineTypeRefByName md mscorlibRef (c_str SystemObject) w);
          (newTypeDef, w) = token_of (md_DefineTypeDef md (W ''__InterceptionDllLoaderClass__'')
            (tdAbstract OR tdSealed) objectTypeRef w);
          (token, w) = token_of (md_DefineMethod md newTypeDef (W ''__InterceptionDllLoaderMethod__'')
            (mdStatic OR mdPublic OR miAggressiveInlining) loadMethodSignature 0 0 w);
          (assemblyTypeRef, w) = token_of (md_DefineTypeRefByName md mscorlibRef (c_str SystemReflectionAssembly) w);
          (loadFrom, w) = token_of (md_DefineMemberRef md assemblyTypeRef (c_str LoadFrom)
            ([IMAGE_CEE_CS_CALLCONV_DEFAULT, 1, ELEMENT_TYPE_CLASS] @ token_bytes assemblyTypeRef @ [ELEMENT_TYPE_STRING]) w)
      in (token, loadFrom, w))"

lemma path_tokens_length: "length (fst (path_tokens md els w)) = length els"
  by (induction els arbitrary: w) (simp_all add: split_beta Let_def)

lemma load_assemblies_code:
  "fold_code (load_assembly_code md loadFrom) els w =
     (case path_tokens md els w of (paths, w') \<Rightarrow>
        Inr (concat (map (\<lambda>path. [(CEE_LDSTR, m_Arg32 path), (CEE_CALL, m_Arg32 loadFrom), plain CEE_POP]) paths), w'))"
  by (induction els arbitrary: w) (simp_all add: no_code_def then_code_def load_assembly_code_def split_beta Let_def)

text \<open>The helper of the load method after its code was emitted.\<close>

lemma load_method_emitted:
  assumes "helper_at h [] []" and paths: "path_tokens md els w = (paths, w')"
  shows "\<exists>h' ps. bindO (foldO (load_assembly md loadFrom) els (h, w)) (\<lambda>(h, w). bindO (Ret h) (\<lambda>h. Inr (h, w))) =
      Inr (h', w') \<and> emitted h [] [] ps (load_instrs loadFrom paths) h' \<and>
      next_addr (h_rewriter h') = next_addr (h_rewriter h) + 3 * length els + 1"
proof -
  have c: "fold_code (load_assembly_code md loadFrom) els w =
      Inr (concat (map (\<lambda>path. [(CEE_LDSTR, m_Arg32 path), (CEE_CALL, m_Arg32 loadFrom), plain CEE_POP]) paths), w')"
    by (simp add: load_assemblies_code paths)
  have "emits_with (foldO (load_assembly md loadFrom) els) (fold_code (load_assembly_code md loadFrom) els)"
    by (rule with_fold) (rule load_assembly_emits)
  from emits_withD(2) [OF this assms(1) c] obtain h1 ps where h1: "foldO (load_assembly md loadFrom) els (h, w) = Inr (h1, w')"
    "emitted h [] [] ps (concat (map (\<lambda>path. [(CEE_LDSTR, m_Arg32 path), (CEE_CALL, m_Arg32 loadFrom), plain CEE_POP]) paths)) h1"
    by blast
  then have "helper_at h1 ps []" by (simp add: emitted_def)
  with emits_void_methods(9) obtain h2 qs where h2: "Ret h1 = Inr h2" "emitted h1 ps [] qs [plain CEE_RET] h2"
    by (rule emitsE)
  from emitted_trans [OF h1(2)] h2(2) have "emitted h [] [] (ps @ qs) (load_instrs loadFrom paths) h2"
    by (simp add: load_instrs_def)
  moreover have "next_addr (h_rewriter h2) = next_addr (h_rewriter h) + 3 * length els + 1"
    using load_assemblies_next [OF h1(1)] emit_next [OF h2(1) [unfolded Ret_def]] by simp
  ultimately show ?thesis using h1(1) h2(1) by (intro exI [of _ h2]) auto
qed

text \<open>The export of its code, from the helper of a fresh rewriter.\<close>

lemma load_method_exported:
  assumes e: "emitted (SetILPosition q (ILRewriterHelper_new (InitializeTiny (CreateILRewriter info)))) [] [] ps (load_instrs loadFrom paths) h'"
    and next_addr: "next_addr (h_rewriter h') = next_addr (InitializeTiny (CreateILRewriter info)) + 3 * length paths + 1"
    and alloc: "\<And>w n. pi_allocator info w moduleId n" and "length paths < 2 ^ 20"
  shows "\<exists>\<sigma>'. Export_method info moduleId token (h_rewriter h') w =
    (if 6 \<le> length paths then Inr (E_FAIL, \<sigma>', w)
     else case pi_SetILFunctionBody info moduleId token (tiny_of (code_bytes (load_instrs loadFrom paths))) w of
       (hr, w') \<Rightarrow> Inr (if FAILED hr then hr else S_OK, \<sigma>', w'))"
proof -
  let ?\<sigma> = "h_rewriter h'"
  have "header_of ?\<sigma> = header_of (InitializeTiny (CreateILRewriter info))"
    using e by (simp add: emitted_def SetILPosition_def ILRewriterHelper_new_def)
  then have fields: "m_nEH ?\<sigma> = 0" "m_pEH ?\<sigma> = []" "m_fGenerateTinyHeader ?\<sigma>" "\<not> m_fRejit ?\<sigma>"
    by (simp_all add: header_of_def InitializeTiny_def CreateILRewriter_def ILRewriter_new_def)
  have small: "next_addr ?\<sigma> \<le> 2 ^ 27"
    using next_addr assms(4) by (simp add: InitializeTiny_def CreateILRewriter_def ILRewriter_new_def)
  let ?code = "code_bytes (load_instrs loadFrom paths)"
  let ?api = "\<lparr>api_alloc = pi_allocator info w moduleId,
      api_SetILFunctionBody = (\<lambda>body. fst (pi_SetILFunctionBody info moduleId token body w)), api_uninit = pi_uninit info\<rparr>"
  obtain \<sigma>' where x: "Export ?api ?\<sigma> =
      (if 64 \<le> length ?code then Inr (E_FAIL, None, \<sigma>')
       else Inr (if FAILED (api_SetILFunctionBody ?api (tiny_of ?code)) then api_SetILFunctionBody ?api (tiny_of ?code)
                 else S_OK, Some (tiny_of ?code), \<sigma>'))"
    using Export_linear [of ?\<sigma> ps "load_instrs loadFrom paths" ?api] e small fields alloc
    by (auto simp: emitted_def helper_at_def load_instrs_linear AllocateILMemory_def)
  have size: "64 \<le> length ?code \<longleftrightarrow> 6 \<le> length paths" unfolding load_instrs_length by arith
  show ?thesis unfolding Export_method_def x size by (simp add: split_beta)
qed

text \<open>C10: \<open>GenerateLoadMethod\<close> makes a static method that, for each configured assembly in the order of the configuration,
  loads the string of its path, calls \<open>System.Reflection.Assembly.LoadFrom\<close> and drops the result, and returns: the
  strings, the member reference and the method are those the runtime answers for the paths, the type, the name and the
  signature. The code takes eleven bytes per assembly and is given a tiny header: up to five assemblies it is installed as
  the method's body, and from the sixth on the generation fails with \<open>E_FAIL\<close> and nothing is installed. The runtime has to
  deliver the metadata, the reference to its core library and the memory for the body.\<close>

theorem GenerateLoadMethod_body:
  assumes "pi_GetModuleMetaData info w moduleId = (hr, md)" and "SUCCEEDED hr"
    and "GetMsCorLibRef md w = ((hr', mscorlibRef), w1)" and "SUCCEEDED hr'"
    and "\<And>w n. pi_allocator info w moduleId n" and "length (Assemblies (configuration p)) < 2 ^ 20"
  shows "GenerateLoadMethod info moduleId p w =
    (let (token, loadFrom, w2) = load_method_tokens md mscorlibRef w1;
         (paths, w3) = path_tokens md (Assemblies (configuration p)) w2 in
     if 6 \<le> length (Assemblies (configuration p)) then Inr (E_FAIL, Some token, w3)
     else case pi_SetILFunctionBody info moduleId token (tiny_of (code_bytes (load_instrs loadFrom paths))) w3 of
       (hr, w4) \<Rightarrow> Inr (if FAILED hr then hr else S_OK, Some token, w4))"
proof -
  let ?els = "Assemblies (configuration p)"
  obtain objectTypeRef w2 where t1: "token_of (md_DefineTypeRefByName md mscorlibRef (c_str SystemObject) w1) = (objectTypeRef, w2)"
    by fastforce
  obtain newTypeDef w3 where t2: "token_of (md_DefineTypeDef md (W ''__InterceptionDllLoaderClass__'')
      (tdAbstract OR tdSealed) objectTypeRef w2) = (newTypeDef, w3)" by fastforce
  obtain token w4 where t3: "token_of (md_DefineMethod md newTypeDef (W ''__InterceptionDllLoaderMethod__'')
      (mdStatic OR mdPublic OR miAggressiveInlining) loadMethodSignature 0 0 w3) = (token, w4)" by fastforce
  obtain assemblyTypeRef w5 where t4: "token_of (md_DefineTypeRefByName md mscorlibRef (c_str SystemReflectionAssembly) w4) =
      (assemblyTypeRef, w5)" by fastforce
  let ?sig = "[IMAGE_CEE_CS_CALLCONV_DEFAULT, 1, ELEMENT_TYPE_CLASS] @ token_bytes assemblyTypeRef @ [ELEMENT_TYPE_STRING]"
  have sig: "assemblyLoadFromSignature assemblyTypeRef = Inr ?sig"
    by (simp add: assemblyLoadFromSignature_def compressed_token)
  obtain loadFrom w6 where t5: "token_of (md_DefineMemberRef md assemblyTypeRef (c_str LoadFrom) ?sig w5) = (loadFrom, w6)"
    by fastforce
  have tokens: "load_method_tokens md mscorlibRef w1 = (token, loadFrom, w6)"
    unfolding load_method_tokens_def Let_def t1 t2 t3 t4 t5 prod.case ..
  obtain paths w7 where paths: "path_tokens md ?els w6 = (paths, w7)" by fastforce
  then have n: "length paths = length ?els" using path_tokens_length [of md ?els w6] by simp
  let ?r = "InitializeTiny (CreateILRewriter info)"
  obtain il where il: "load_instr ?r GetILList = Inr il" "helper_at (SetILPosition (m_pNext il) (ILRewriterHelper_new ?r)) [] []"
    using fresh_helper by blast
  let ?h = "SetILPosition (m_pNext il) (ILRewriterHelper_new ?r)"
  obtain h' ps where e: "bindO (foldO (load_assembly md loadFrom) ?els (?h, w6))
        (\<lambda>(h, w). bindO (Ret h) (\<lambda>h. Inr (h, w))) = Inr (h', w7)"
    "emitted ?h [] [] ps (load_instrs loadFrom paths) h'"
    "next_addr (h_rewriter h') = next_addr (h_rewriter ?h) + 3 * length ?els + 1"
    using load_method_emitted [OF il(2) paths, of loadFrom] by (elim exE conjE) (rule that)
  have loop: "bindO (foldO (load_assembly md loadFrom) ?els (?h, w6))
        (\<lambda>(h, w). bindO (Ret h) (\<lambda>h. f h w)) = f h' w7" for f :: "ILRewriterHelper \<Rightarrow> 'a \<Rightarrow> 'c outcome"
    using e(1) by (cases "foldO (load_assembly md loadFrom) ?els (?h, w6)") (auto simp: split_beta)
  have "next_addr (h_rewriter h') = next_addr ?r + 3 * length paths + 1"
    using e(3) n by (simp add: SetILPosition_def ILRewriterHelper_new_def)
  from load_method_exported [OF e(2) this assms(5)] assms(6) n obtain \<sigma>' where
    x: "Export_method info moduleId token (h_rewriter h') w7 =
      (if 6 \<le> length paths then Inr (E_FAIL, \<sigma>', w7)
       else case pi_SetILFunctionBody info moduleId token (tiny_of (code_bytes (load_instrs loadFrom paths))) w7 of
         (hr, w') \<Rightarrow> Inr (if FAILED hr then hr else S_OK, \<sigma>', w'))" by auto
  have "GenerateLoadMethod info moduleId p w =
      bindO (Export_method info moduleId token (h_rewriter h') w7) (\<lambda>(hr, _, w). Inr (hr, Some token, w))"
    unfolding GenerateLoadMethod_def assms(1,3) Let_def prod.case t1 t2 t3 t4 sig bindO_simps t5 il(1)
    using assms(2,4) by (simp add: loop)
  then show ?thesis unfolding x tokens paths Let_def prod.case by (simp add: split_beta n)
qed

text \<open>A runtime whose state lists what was defined and installed, with one module that offers \<open>example_metadata\<close> and one
  method, whose body is a call and a return.\<close>

definition example_info :: "(BYTE list list) profiler_info" where
  "example_info =
     \<lparr>pi_GetAssemblyInfo = (\<lambda>_ _. (S_OK, ([0x41, 0], 2), 1, 1)),
      pi_GetAppDomainInfo = (\<lambda>_ _. (S_OK, ([0x42, 0], 2))),
      pi_GetModuleInfo2 = (\<lambda>_ _. (S_OK, ([0x43, 0], 2), 1, 0)),
      pi_SetEventMask = (\<lambda>_ w. (S_OK, w)),
      pi_GetModuleMetaData = (\<lambda>_ _. (S_OK, example_metadata)),
      pi_GetScopeProps = (\<lambda>_ _. \<lparr>Data1 = 1, Data2 = 2, Data3 = 3, Data4 = replicate 8 4\<rparr>),
      pi_GetFunctionInfo = (\<lambda>_ _. (S_OK, 1, 0x06000001)),
      pi_GetILFunctionBody = (\<lambda>_ _ _. (S_OK, 0, [0x1A, 0x28, 1, 0, 0, 0x0A, 0x2A])),
      pi_SetILFunctionBody = (\<lambda>_ _ b w. (S_OK, w @ [b])),
      pi_allocator = (\<lambda>_ _ _. True), pi_uninit = (\<lambda>_. 0),
      pi_fresh = (example_export True, \<lparr>m_pNext = 0, m_pPrev = 0, m_opcode = 0, m_offset = 0, m_arg = m_pTarget 0\<rparr>),
      pi_version_ptr = (\<lambda>_. 0x1000)\<rparr>"

text \<open>Two assemblies are loaded in order; six are refused.\<close>

lemma GenerateLoadMethod_body_witness:
  "(\<exists>token w. GenerateLoadMethod example_info 1
     (CorProfiler_new\<lparr>configuration := Configuration_default\<lparr>Assemblies := replicate 6 [0x41]\<rparr>\<rparr>) [] = Inr (E_FAIL, Some token, w)) \<and>
   (\<exists>token w. GenerateLoadMethod example_info 1
     (CorProfiler_new\<lparr>configuration := Configuration_default\<lparr>Assemblies := [[0x41], [0x42]]\<rparr>\<rparr>) [] =
     Inr (S_OK, Some token, w @ [tiny_of (code_bytes (load_instrs 0x0A000006 [0x70000007, 0x70000008]))]))"
proof -
  let ?p = "\<lambda>els. CorProfiler_new\<lparr>configuration := Configuration_default\<lparr>Assemblies := els\<rparr>\<rparr>"
  have a: "pi_GetModuleMetaData example_info [] 1 = (S_OK, example_metadata)" "SUCCEEDED S_OK"
    by (simp_all add: example_info_def)
  have b: "GetMsCorLibRef example_metadata [] = ((S_OK, 0x23000001), [[]])"
    by (simp add: GetMsCorLibRef_def CreateAssemblyRef_def example_metadata_def example_define_def)
  have c: "pi_allocator example_info w 1 n" for w n by (simp add: example_info_def)
  have d: "length (Assemblies (configuration (?p (replicate 6 [0x41])))) < 2 ^ 20"
    "length (Assemblies (configuration (?p [[0x41], [0x42]]))) < 2 ^ 20" by simp_all
  have els: "Assemblies (configuration (?p xs)) = xs" for xs by simp
  have set: "pi_SetILFunctionBody example_info m tk code w = (S_OK, w @ [code])" for m tk code w by (simp add: example_info_def)
  have "case load_method_tokens example_metadata 0x23000001 [[]] of (token, loadFrom, w) \<Rightarrow>
      token = 0x06000004 \<and> loadFrom = 0x0A000006 \<and> fst (path_tokens example_metadata [[0x41], [0x42]] w) = [0x70000007, 0x70000008]"
    by code_simp
  then obtain w w' where t: "load_method_tokens example_metadata 0x23000001 [[]] = (0x06000004, 0x0A000006, w)"
    "path_tokens example_metadata [[0x41], [0x42]] w = ([0x70000007, 0x70000008], w')"
    by (cases "load_method_tokens example_metadata 0x23000001 [[]]") (auto intro: prod_eqI simp: prod_eq_iff)
  have "GenerateLoadMethod example_info 1 (?p [[0x41], [0x42]]) [] =
      Inr (S_OK, Some 0x06000004, w' @ [tiny_of (code_bytes (load_instrs 0x0A000006 [0x70000007, 0x70000008]))])"
    using GenerateLoadMethod_body [OF a b a(2) c d(2)] unfolding els t Let_def prod.case set by simp
  moreover have "\<exists>w'. GenerateLoadMethod example_info 1 (?p (replicate 6 [0x41])) [] = Inr (E_FAIL, Some 0x06000004, w')"
    using GenerateLoadMethod_body [OF a b a(2) c d(1)] unfolding t Let_def prod.case by (simp add: split_beta)
  ultimately show ?thesis by blast
qed

end
