(* ===== verification/Interceptor.thy ===== *)
theory Interceptor
  imports LoadMethod
begin

text \<open>
  The interceptor method (\<open>CorProfiler::GenerateInterceptMethod\<close>): its class and signature, its variables and its
  code.

  The code is stated without the list of instructions: \<open>intercept_code\<close> computes it from the tokens the runtime hands
  out, and the emitters are shown to put exactly this code into the rewriter.
\<close>

unbundle bit_operations_syntax
section \<open>The interceptor method\<close>

record InterceptionVarInfo =
  TypeRef :: mdToken
  LocalVarIndex :: INT32

definition interceptor_class_name :: "FunctionInfo \<Rightarrow> wstring" where
  "interceptor_class_name target =
     map (\<lambda>c. if c = of_char (CHR ''.'') then of_char (CHR ''_'') else c)
       (ti_Name (fi_Type target) @ fi_Name target @ W ''Interception'')"

text \<open>\<open>target.Signature.Arguments[i]\<close>, resolved.\<close>

definition argument_at :: "FunctionInfo \<Rightarrow> nat \<Rightarrow> TypeInfo outcome" where
  "argument_at target i =
     (if i < length (ms_Arguments (fi_Signature target))
      then ResolveParameterType target (ms_Arguments (fi_Signature target) ! i) else Inl OutOfBounds)"

definition argument_count :: "FunctionInfo \<Rightarrow> nat" where
  "argument_count target = unat (NumberOfArguments (fi_Signature target))"

definition push_argument :: "FunctionInfo \<Rightarrow> nat \<Rightarrow> BYTE list \<Rightarrow> BYTE list outcome" where
  "push_argument target i signature =
     bindO (argument_at target i) (\<lambda>argument.
       Inr (signature @ (if ti_IsRefType argument then [ELEMENT_TYPE_BYREF] else []) @ [ti_TypeDef argument]))"

text \<open>The signature of the method; it parses the arguments of the target on the way.\<close>

definition interceptor_signature :: "FunctionInfo \<Rightarrow> (BYTE list \<times> TypeInfo \<times> FunctionInfo) outcome" where
  "interceptor_signature target =
     (let sig = fi_Signature target;
          count = ucast (NumberOfArguments sig + (if IsInstanceMethod sig then 1 else 0)) in
      bindO (ResolveParameterType target (ms_ReturnType sig)) (\<lambda>retType.
      let signature = [IMAGE_CEE_CS_CALLCONV_DEFAULT, count] @ ti_Raw retType @
                      (if IsInstanceMethod sig then [ELEMENT_TYPE_OBJECT] else []) in
      bindO (ParseArguments sig) (\<lambda>sig.
      let target = target\<lparr>fi_Signature := sig\<rparr> in
      bindO (foldO (push_argument target) [0..<argument_count target] signature) (\<lambda>signature.
        Inr (signature, retType, target)))))"

text \<open>\<open>AddLocalVariable\<close> with an index that is zero beforehand and a result nobody looks at.\<close>

definition add_local ::
  "('w, 'a) profiler_info_scheme \<Rightarrow> ModuleID \<Rightarrow> mdToken \<Rightarrow> ILRewriterHelper \<times> 'w
    \<Rightarrow> (INT32 \<times> ILRewriterHelper \<times> 'w) outcome" where
  "add_local info moduleId typeRef = (\<lambda>(helper, w).
     bindO (AddLocalVariable (pi_GetModuleMetaData info w moduleId) typeRef helper w) (\<lambda>(_, index, helper, w).
       Inr (case index of Some i \<Rightarrow> i | None \<Rightarrow> 0, helper, w)))"

text \<open>The reference to a type of an interceptor's assembly: the loops and the method finder define it the same way.
  (HRESULT, token, runtime).\<close>

definition define_type :: "'w metadata \<Rightarrow> ConfigTypeInfo \<Rightarrow> 'w \<Rightarrow> HRESULT \<times> mdToken \<times> 'w" where
  "define_type md t w =
     (case token_of (GetWrapperRef md (ci_AssemblyName t) w) of (dllRef, w) \<Rightarrow>
        case md_DefineTypeRefByName md dllRef (c_str (ci_TypeName t)) w of ((hr, typeRef), w) \<Rightarrow> (hr, typeRef, w))"

text \<open>The loop that declares a variable per interception. \<open>Inl\<close> in the second component is the HRESULT of an early
  return.\<close>

fun declare_interceptors ::
  "('w, 'a) profiler_info_scheme \<Rightarrow> ModuleID \<Rightarrow> 'w metadata \<Rightarrow> ConfigTypeInfo list \<Rightarrow> ILRewriterHelper \<times> 'w
    \<Rightarrow> ((HRESULT + InterceptionVarInfo list) \<times> ILRewriterHelper \<times> 'w) outcome" where
  "declare_interceptors info moduleId md [] (helper, w) = Inr (Inr [], helper, w)"
| "declare_interceptors info moduleId md (t # ts) (helper, w) =
     (case define_type md t w of (hr, interceptorTypeRef, w) \<Rightarrow>
        if FAILED hr then Inr (Inl hr, helper, w)
        else
          bindO (add_local info moduleId interceptorTypeRef (helper, w)) (\<lambda>(i, helper, w).
          bindO (declare_interceptors info moduleId md ts (helper, w)) (\<lambda>(vars, helper, w).
            Inr (map_sum id ((#) \<lparr>TypeRef = interceptorTypeRef, LocalVarIndex = i\<rparr>) vars, helper, w))))"

definition member_ref :: "'w metadata \<Rightarrow> mdToken \<Rightarrow> wstring \<Rightarrow> BYTE list \<Rightarrow> 'w \<Rightarrow> mdToken \<times> 'w" where
  "member_ref md typeRef name signature w = token_of (md_DefineMemberRef md typeRef (c_str name) signature w)"

text \<open>\<open>newobj .ctor; stloc index\<close>.\<close>

definition construct ::
  "'w metadata \<Rightarrow> mdToken \<Rightarrow> INT32 \<Rightarrow> ILRewriterHelper \<times> 'w \<Rightarrow> (ILRewriterHelper \<times> 'w) outcome" where
  "construct md typeRef index = (\<lambda>(helper, w).
     case member_ref md typeRef ctor [IMAGE_CEE_CS_CALLCONV_HASTHIS, 0, ELEMENT_TYPE_VOID] w of (ctorRef, w) \<Rightarrow>
       bindO (NewObject ctorRef helper) (\<lambda>helper.
       bindO (StLocal index helper) (\<lambda>(_, helper). Inr (helper, w))))"

text \<open>A member of the composed interceptor is defined, and called with what \<open>push\<close> loads. What \<open>push\<close> asks of the
  runtime, it asks after the definition, as the code does.\<close>

definition call_composed ::
  "'w metadata \<Rightarrow> mdToken \<Rightarrow> INT32 \<Rightarrow> wstring \<Rightarrow> BYTE list
    \<Rightarrow> (ILRewriterHelper \<times> 'w \<Rightarrow> (ILRewriterHelper \<times> 'w) outcome)
    \<Rightarrow> ILRewriterHelper \<times> 'w \<Rightarrow> (ILRewriterHelper \<times> 'w) outcome" where
  "call_composed md composedRef composedIndex name signature push = (\<lambda>(helper, w).
     case member_ref md composedRef name signature w of (ref, w) \<Rightarrow>
       bindO (LoadLocal composedIndex helper) (\<lambda>(_, helper).
       bindO (push (helper, w)) (\<lambda>(helper, w).
       bindO (CallMember ref False helper) (\<lambda>helper. Inr (helper, w)))))"

text \<open>A \<open>push\<close> that does not ask the runtime.\<close>

definition pure_push ::
  "(ILRewriterHelper \<Rightarrow> ILRewriterHelper outcome) \<Rightarrow> ILRewriterHelper \<times> 'w \<Rightarrow> (ILRewriterHelper \<times> 'w) outcome" where
  "pure_push f = (\<lambda>(helper, w). bindO (f helper) (\<lambda>helper. Inr (helper, w)))"

definition push_method_name ::
  "'w metadata \<Rightarrow> FunctionInfo \<Rightarrow> ILRewriterHelper \<times> 'w \<Rightarrow> (ILRewriterHelper \<times> 'w) outcome" where
  "push_method_name md target = (\<lambda>(helper, w).
     case token_of (md_DefineUserString md (fi_Name target) w) of (methodNameToken, w) \<Rightarrow>
       bindO (LoadStr methodNameToken helper) (\<lambda>helper. Inr (helper, w)))"

text \<open>The body of the loop that adds the parameters.\<close>

definition add_parameter ::
  "'w metadata \<Rightarrow> FunctionInfo \<Rightarrow> mdToken \<Rightarrow> mdToken \<Rightarrow> INT32 \<Rightarrow> nat \<Rightarrow> nat
    \<Rightarrow> ILRewriterHelper \<times> 'w \<Rightarrow> (ILRewriterHelper \<times> 'w) outcome" where
  "add_parameter md target mscorlibRef addParameterRef composedIndex shift i = (\<lambda>(helper, w).
     bindO (LoadLocal composedIndex helper) (\<lambda>(_, helper).
     bindO (LoadInt32 (word_of_nat i) helper) (\<lambda>(_, helper).
     bindO (LoadArgument (word_of_nat (shift + i)) helper) (\<lambda>helper.
     bindO (argument_at target i) (\<lambda>argument.
     bindO (if ti_IsRefType argument then LoadInd (ti_TypeDef argument) helper else Inr helper) (\<lambda>helper.
     bindO (if ti_IsBoxed argument then
              bindO (GetTypeToken md mscorlibRef (ti_Raw argument) w) (\<lambda>(token, w).
              bindO (Box token helper) (\<lambda>helper. Inr (helper, w)))
            else Inr (helper, w)) (\<lambda>(helper, w).
     bindO (CallMember addParameterRef False helper) (\<lambda>helper. Inr (helper, w)))))))))"

text \<open>The loop that adds the interceptors to the composed one.\<close>

definition add_child :: "mdToken \<Rightarrow> INT32 \<Rightarrow> InterceptionVarInfo \<Rightarrow> ILRewriterHelper \<Rightarrow> ILRewriterHelper outcome" where
  "add_child addChildRef composedIndex v helper =
     bindO (LoadLocal composedIndex helper) (\<lambda>(_, helper).
     bindO (LoadLocal (LocalVarIndex v) helper) (\<lambda>(_, helper).
       CallMember addChildRef False helper))"

text \<open>The signature of a member that takes one object of a class.\<close>

definition class_argument_signature :: "mdToken \<Rightarrow> BYTE list outcome" where
  "class_argument_signature typeRef =
     bindO (compressed (CorSigCompressToken typeRef)) (\<lambda>compressedToken.
       Inr ([IMAGE_CEE_CS_CALLCONV_HASTHIS, 1, ELEMENT_TYPE_VOID, ELEMENT_TYPE_CLASS] @ compressedToken))"

text \<open>The body of the loop that stores the by-reference parameters back.\<close>

definition get_parameter ::
  "'w metadata \<Rightarrow> FunctionInfo \<Rightarrow> mdToken \<Rightarrow> mdToken \<Rightarrow> INT32 \<Rightarrow> nat \<Rightarrow> nat
    \<Rightarrow> ILRewriterHelper \<times> 'w \<Rightarrow> (ILRewriterHelper \<times> 'w) outcome" where
  "get_parameter md target mscorlibRef getParameterRef composedIndex shift i = (\<lambda>(helper, w).
     bindO (argument_at target i) (\<lambda>argument.
     if \<not> ti_IsRefType argument then Inr (helper, w)
     else
       bindO (LoadArgument (word_of_nat (shift + i)) helper) (\<lambda>helper.
       bindO (LoadLocal composedIndex helper) (\<lambda>(_, helper).
       bindO (LoadInt32 (word_of_nat i) helper) (\<lambda>(_, helper).
       bindO (CallMember getParameterRef False helper) (\<lambda>helper.
       bindO (GetTypeToken md mscorlibRef (ti_Raw argument) w) (\<lambda>(token, w).
       bindO (if ti_IsBoxed argument then UnboxAny token helper else Inr helper) (\<lambda>helper.
       bindO (StInd (ti_TypeDef argument) helper) (\<lambda>helper. Inr (helper, w))))))))))"

section \<open>The interceptor's code\<close>

text \<open>The tokens and indices the code of an interceptor refers to: \<open>finder\<close> is the method finder's type and variable.\<close>

record intercept_env =
  ie_mscorlib :: mdToken
  ie_interface :: mdToken
  ie_composed :: mdToken
  ie_finder_interface :: mdToken
  ie_vars :: "InterceptionVarInfo list"
  ie_composed_index :: INT32
  ie_finder :: "(mdToken \<times> INT32) option"

text \<open>From the constructors to the parameters.\<close>

definition emit_setup ::
  "'w metadata \<Rightarrow> intercept_env \<Rightarrow> FunctionInfo \<Rightarrow> mdToken \<Rightarrow> INT64
    \<Rightarrow> ILRewriterHelper \<times> 'w \<Rightarrow> (ILRewriterHelper \<times> 'w) outcome" where
  "emit_setup md e target targetMdToken version_ptr = (\<lambda>g.
     let call = call_composed md (ie_composed e) (ie_composed_index e);
         setter = (\<lambda>t. [IMAGE_CEE_CS_CALLCONV_HASTHIS, 1, ELEMENT_TYPE_VOID, t]) in
     bindO (foldO (\<lambda>v. construct md (TypeRef v) (LocalVarIndex v)) (ie_vars e) g) (\<lambda>g.
     bindO (case ie_finder e of Some (t, i) \<Rightarrow> construct md t i g | None \<Rightarrow> Inr g) (\<lambda>g.
     bindO (construct md (ie_composed e) (ie_composed_index e) g) (\<lambda>g.
     bindO (if IsInstanceMethod (fi_Signature target)
            then call (W ''set_This'') (setter ELEMENT_TYPE_OBJECT) (pure_push (LoadArgument 0)) g else Inr g) (\<lambda>g.
     bindO (call (W ''set_MdToken'') (setter ELEMENT_TYPE_I4)
              (pure_push (\<lambda>h. drop_result (LoadInt32 targetMdToken h))) g) (\<lambda>g.
     bindO (call (W ''set_MethodName'') (setter ELEMENT_TYPE_STRING) (push_method_name md target) g) (\<lambda>g.
     bindO (call (W ''set_ModuleVersionPtr'') (setter ELEMENT_TYPE_I8) (pure_push (LoadInt64 version_ptr)) g) (\<lambda>g.
       call (W ''SetArgumentCount'') (setter ELEMENT_TYPE_I4)
         (pure_push (\<lambda>h. drop_result (LoadInt32 (NumberOfArguments (fi_Signature target)) h))) g))))))))"

definition emit_parameters ::
  "'w metadata \<Rightarrow> intercept_env \<Rightarrow> FunctionInfo \<Rightarrow> ILRewriterHelper \<times> 'w \<Rightarrow> (ILRewriterHelper \<times> 'w) outcome" where
  "emit_parameters md e target = (\<lambda>(helper, w).
     let shift = (if IsInstanceMethod (fi_Signature target) then 1 else 0);
         (addParameterRef, w) = member_ref md (ie_composed e) (W ''AddParameter'')
           [IMAGE_CEE_CS_CALLCONV_HASTHIS, 2, ELEMENT_TYPE_VOID, ELEMENT_TYPE_I4, ELEMENT_TYPE_OBJECT] w in
     foldO (add_parameter md target (ie_mscorlib e) addParameterRef (ie_composed_index e) shift)
       [0..<argument_count target] (helper, w))"

definition emit_children ::
  "'w metadata \<Rightarrow> intercept_env \<Rightarrow> ILRewriterHelper \<times> 'w \<Rightarrow> (ILRewriterHelper \<times> 'w) outcome" where
  "emit_children md e = (\<lambda>(helper, w).
     bindO (class_argument_signature (ie_interface e)) (\<lambda>addChildSignature.
     let (addChildRef, w) = member_ref md (ie_composed e) (W ''AddChild'') addChildSignature w in
     bindO (foldO (add_child addChildRef (ie_composed_index e)) (ie_vars e) helper) (\<lambda>helper.
     case ie_finder e of
       None \<Rightarrow> Inr (helper, w)
     | Some (t, i) \<Rightarrow>
         bindO (class_argument_signature (ie_finder_interface e)) (\<lambda>setMethodFinderSignature.
           call_composed md (ie_composed e) (ie_composed_index e) (W ''set_MethodFinder'') setMethodFinderSignature
             (pure_push (\<lambda>h. drop_result (LoadLocal i h))) (helper, w)))))"

text \<open>The call of \<open>Execute\<close>, whose result goes to the first variable, the by-reference parameters and the return.\<close>

definition emit_finish ::
  "'w metadata \<Rightarrow> intercept_env \<Rightarrow> FunctionInfo \<Rightarrow> TypeInfo \<Rightarrow> ILRewriterHelper \<times> 'w
    \<Rightarrow> (ILRewriterHelper \<times> 'w) outcome" where
  "emit_finish md e target retType = (\<lambda>g.
     let shift = (if IsInstanceMethod (fi_Signature target) then 1 else 0); resultIndex = 0 in
     bindO (call_composed md (ie_composed e) (ie_composed_index e) (W ''Execute'')
              [IMAGE_CEE_CS_CALLCONV_HASTHIS, 0, ELEMENT_TYPE_OBJECT] Inr g) (\<lambda>(helper, w).
     bindO (StLocal resultIndex helper) (\<lambda>(_, helper).
     let (getParameterRef, w) = member_ref md (ie_composed e) (W ''GetParameter'')
           [IMAGE_CEE_CS_CALLCONV_HASTHIS, 1, ELEMENT_TYPE_OBJECT, ELEMENT_TYPE_I4] w in
     bindO (foldO (get_parameter md target (ie_mscorlib e) getParameterRef (ie_composed_index e) shift)
              [0..<argument_count target] (helper, w)) (\<lambda>(helper, w).
     bindO (if \<not> ti_IsVoid retType then drop_result (LoadLocal resultIndex helper) else Inr helper) (\<lambda>helper.
     bindO (Ret helper) (\<lambda>helper. Inr (helper, w)))))))"


text \<open>The references to the three interfaces of \<open>baseDllRef\<close>; \<open>Inl\<close> is the HRESULT of an early return.\<close>

definition define_interfaces ::
  "'w metadata \<Rightarrow> mdToken \<Rightarrow> Configuration \<Rightarrow> 'w \<Rightarrow> (HRESULT + mdToken \<times> mdToken \<times> mdToken) \<times> 'w" where
  "define_interfaces md baseDllRef c w =
     (case md_DefineTypeRefByName md baseDllRef (c_str (ci_TypeName (InterceptorInterface c))) w of ((hr, interface), w) \<Rightarrow>
      if FAILED hr then (Inl hr, w)
      else case md_DefineTypeRefByName md baseDllRef (c_str (ci_TypeName (ComposedInterceptor c))) w of ((hr, composed), w) \<Rightarrow>
      if FAILED hr then (Inl hr, w)
      else case md_DefineTypeRefByName md baseDllRef (c_str (ci_TypeName (MethodFinderInterface c))) w of ((hr, finder), w) \<Rightarrow>
      if FAILED hr then (Inl hr, w) else (Inr (interface, composed, finder), w))"

text \<open>The variables of the composed interceptor, of a type (never used), and of the method finder, if there is one for
  the target.\<close>

definition declare_rest ::
  "('w, 'a) profiler_info_scheme \<Rightarrow> ModuleID \<Rightarrow> 'w metadata \<Rightarrow> CorProfiler \<Rightarrow> FunctionInfo \<Rightarrow> mdToken \<Rightarrow> mdToken
    \<Rightarrow> ILRewriterHelper \<times> 'w
    \<Rightarrow> ((HRESULT + INT32 \<times> (mdToken \<times> INT32) option) \<times> ILRewriterHelper \<times> 'w) outcome" where
  "declare_rest info moduleId md p target composedInterceptorTypeRef typeRef = (\<lambda>g.
     bindO (add_local info moduleId composedInterceptorTypeRef g) (\<lambda>(composedIndex, g).
     bindO (add_local info moduleId typeRef g) (\<lambda>(typeIndex, helper, w).
     case FindMethodFinder p target of (finder, found) \<Rightarrow>
       if found then
         (case define_type md finder w of (hr, methodFinderTypeRef, w) \<Rightarrow>
            if FAILED hr then Inr (Inl hr, helper, w)
            else
              bindO (add_local info moduleId methodFinderTypeRef (helper, w)) (\<lambda>(i, g).
                Inr (Inr (composedIndex, Some (methodFinderTypeRef, i)), g)))
       else Inr (Inr (composedIndex, None), helper, w))))"

text \<open>\<open>&modules[moduleId]\<close> inserts an element that is not there.\<close>

definition subscript_modules :: "ModuleID \<Rightarrow> CorProfiler \<Rightarrow> CorProfiler" where
  "subscript_modules moduleId p =
     (if modules p moduleId = None
      then p\<lparr>modules := (modules p)(moduleId \<mapsto> \<lparr>Data1 = 0, Data2 = 0, Data3 = 0, Data4 = replicate 8 0\<rparr>)\<rparr> else p)"

text \<open>The type and the method of the interceptor, and the rewriter for its code, with a variable for the result.\<close>

definition define_interceptor ::
  "('w, 'a) profiler_info_scheme \<Rightarrow> 'w metadata \<Rightarrow> CorProfiler \<Rightarrow> FunctionInfo \<Rightarrow> 'w
    \<Rightarrow> ((mdToken \<times> mdToken \<times> mdToken \<times> mdToken) \<times> TypeInfo \<times> FunctionInfo \<times> ILRewriterHelper \<times> 'w) outcome" where
  "define_interceptor info md p target w =
     (let (mscorlibRef, w) = token_of (GetMsCorLibRef md w);
          (baseDllRef, w) = token_of (GetWrapperRef md (ci_AssemblyName (InterceptorInterface (configuration p))) w);
          (objectTypeRef, w) = token_of (md_DefineTypeRefByName md mscorlibRef (c_str SystemObject) w);
          (exceptionTypeRef, w) = token_of (md_DefineTypeRefByName md mscorlibRef (c_str SystemException) w);
          (typeRef, w) = token_of (md_DefineTypeRefByName md mscorlibRef (c_str SystemType) w);
          (runtimeTypeHandleRef, w) = token_of (md_DefineTypeRefByName md mscorlibRef (c_str SystemRuntimeTypeHandle) w);
          (newTypeDef, w) = token_of (md_DefineTypeDef md (c_str (interceptor_class_name target))
             (tdAbstract OR tdSealed) objectTypeRef w) in
      bindO (interceptor_signature target) (\<lambda>(signature, retType, target).
      let (retMethodToken, w) = token_of (md_DefineMethod md newTypeDef (W ''__InterceptionMethod__'')
            (mdStatic OR mdPublic OR miAggressiveInlining) signature 0 0 w);
          (localSigToken, w) = token_of (md_GetTokenFromSig md [IMAGE_CEE_CS_CALLCONV_LOCAL_SIG, 1, ELEMENT_TYPE_OBJECT] w);
          rewriter = SetTkLocalVarSig (InitializeTiny (CreateILRewriter info)) localSigToken in
      bindO (load_instr rewriter GetILList) (\<lambda>il.
        Inr ((mscorlibRef, baseDllRef, typeRef, retMethodToken), retType, target,
             SetILPosition (m_pNext il) (ILRewriterHelper_new rewriter), w))))"

text \<open>(HRESULT, \<open>retMethodToken\<close> if it was assigned, profiler, runtime).\<close>

definition GenerateInterceptMethod ::
  "('w, 'a) profiler_info_scheme \<Rightarrow> ModuleID \<Rightarrow> FunctionInfo \<Rightarrow> ConfigTypeInfo list \<Rightarrow> mdToken \<Rightarrow> CorProfiler \<Rightarrow> 'w
    \<Rightarrow> (HRESULT \<times> mdToken option \<times> CorProfiler \<times> 'w) outcome" where
  "GenerateInterceptMethod info moduleId target interceptions targetMdToken p w =
     (let (hr, md) = pi_GetModuleMetaData info w moduleId in
      if FAILED hr then Inr (hr, None, p, w)
      else
        bindO (define_interceptor info md p target w)
          (\<lambda>((mscorlibRef, baseDllRef, typeRef, retMethodToken), retType, target, helper, w).
        case define_interfaces md baseDllRef (configuration p) w of
          (Inl hr, w) \<Rightarrow> Inr (hr, Some retMethodToken, p, w)
        | (Inr (interface, composed, finder_interface), w) \<Rightarrow>
            bindO (declare_interceptors info moduleId md interceptions (helper, w)) (\<lambda>(vars, g).
            case vars of
              Inl hr \<Rightarrow> Inr (hr, Some retMethodToken, p, snd g)
            | Inr vars \<Rightarrow>
                bindO (declare_rest info moduleId md p target composed typeRef g) (\<lambda>(rest, g).
                case rest of
                  Inl hr \<Rightarrow> Inr (hr, Some retMethodToken, p, snd g)
                | Inr (composedIndex, finder) \<Rightarrow>
                    let e = \<lparr>ie_mscorlib = mscorlibRef, ie_interface = interface, ie_composed = composed,
                             ie_finder_interface = finder_interface, ie_vars = vars,
                             ie_composed_index = composedIndex, ie_finder = finder\<rparr>;
                        p = subscript_modules moduleId p in
                    bindO (emit_setup md e target targetMdToken (pi_version_ptr info moduleId) g) (\<lambda>g.
                    bindO (emit_parameters md e target g) (\<lambda>g.
                    bindO (emit_children md e g) (\<lambda>g.
                    bindO (emit_finish md e target retType g) (\<lambda>(helper, w).
                    bindO (Export_method info moduleId retMethodToken (h_rewriter helper) w) (\<lambda>(hr, _, w).
                      Inr (S_OK, Some retMethodToken, p, w))))))))))"

section \<open>The code of the interceptor\<close>

text \<open>More computations with the runtime: questions that may fault, and code that is known.\<close>

definition just :: "il_code \<Rightarrow> 'w code_spec" where
  "just code w = Inr (code, w)"

lemma with_query:
  assumes "\<And>a. emits_with (f a) (c a)"
  shows "emits_with (\<lambda>(h, w). bindO (q w) (\<lambda>(a, w). f a (h, w))) (\<lambda>w. bindO (q w) (\<lambda>(a, w). c a w))"
proof (rule emits_withI)
  fix h :: ILRewriterHelper and w as bs e assume "helper_at h as bs" "bindO (q w) (\<lambda>(a, w). c a w) = Inl e"
  then show "(case (h, w) of (h, w) \<Rightarrow> bindO (q w) (\<lambda>(a, w). f a (h, w))) = Inl e"
    using emits_withD(1) [OF assms] by (cases "q w") (auto simp: case_prod_unfold)
next
  fix h :: ILRewriterHelper and w as bs code w' assume "helper_at h as bs" "bindO (q w) (\<lambda>(a, w). c a w) = Inr (code, w')"
  then show "\<exists>h' ps. (case (h, w) of (h, w) \<Rightarrow> bindO (q w) (\<lambda>(a, w). f a (h, w))) = Inr (h', w') \<and> emitted h as bs ps code h'"
    using emits_withD(2) [OF assms] by (cases "q w") (auto simp: case_prod_unfold)
qed

lemma with_known:
  assumes "\<And>a. x = Inr a \<Longrightarrow> emits_with (f a) (c a)"
  shows "emits_with (\<lambda>g. bindO x (\<lambda>a. f a g)) (\<lambda>w. bindO x (\<lambda>a. c a w))"
proof (cases x)
  case (Inl e)
  then show ?thesis by (simp add: emits_with_def)
next
  case (Inr a)
  then show ?thesis using assms [of a] by simp
qed

lemma with_push: "emits f code \<Longrightarrow> emits_with (pure_push f) (just code)"
  using with_pure [of f code] unfolding pure_push_def just_def .

lemma bind_pure_push: "bindO (pure_push f (h, w)) k = bindO (f h) (\<lambda>h. k (h, w))"
  by (simp add: pure_push_def bindO_assoc)

text \<open>The code of each of the emitters.\<close>

definition construct_code :: "'w metadata \<Rightarrow> mdToken \<Rightarrow> INT32 \<Rightarrow> 'w code_spec" where
  "construct_code md typeRef index = (\<lambda>w.
     case member_ref md typeRef ctor [IMAGE_CEE_CS_CALLCONV_HASTHIS, 0, ELEMENT_TYPE_VOID] w of (ctorRef, w) \<Rightarrow>
       Inr ([(CEE_NEWOBJ, m_Arg32 ctorRef), stloc index], w))"

definition call_code ::
  "'w metadata \<Rightarrow> mdToken \<Rightarrow> INT32 \<Rightarrow> wstring \<Rightarrow> BYTE list \<Rightarrow> 'w code_spec \<Rightarrow> 'w code_spec" where
  "call_code md composedRef index name signature push = (\<lambda>w.
     case member_ref md composedRef name signature w of (ref, w) \<Rightarrow>
       then_code (just [ldloc index]) (then_code push (just [(CEE_CALL, m_Arg32 ref)])) w)"

definition method_name_code :: "'w metadata \<Rightarrow> FunctionInfo \<Rightarrow> 'w code_spec" where
  "method_name_code md target = (\<lambda>w.
     case token_of (md_DefineUserString md (fi_Name target) w) of (token, w) \<Rightarrow> Inr ([(CEE_LDSTR, m_Arg32 token)], w))"

definition optional_opcode :: "OPCODE \<Rightarrow> il_code" where
  "optional_opcode op = (if op > 0 then [plain op] else [])"

definition parameter_code ::
  "'w metadata \<Rightarrow> FunctionInfo \<Rightarrow> mdToken \<Rightarrow> mdToken \<Rightarrow> INT32 \<Rightarrow> nat \<Rightarrow> nat \<Rightarrow> 'w code_spec" where
  "parameter_code md target mscorlibRef addParameterRef index shift i =
     then_code (just [ldloc index, ldc_i4 (word_of_nat i), ldarg (word_of_nat (shift + i))]) (\<lambda>w.
     bindO (argument_at target i) (\<lambda>a.
       then_code (just (if ti_IsRefType a then optional_opcode (ldind_opcode (ti_TypeDef a)) else []))
         (then_code (if ti_IsBoxed a then (\<lambda>w. bindO (GetTypeToken md mscorlibRef (ti_Raw a) w) (\<lambda>(token, w).
                       just [(CEE_BOX, m_Arg32 token)] w)) else no_code)
           (just [(CEE_CALL, m_Arg32 addParameterRef)])) w))"

definition child_code :: "mdToken \<Rightarrow> INT32 \<Rightarrow> InterceptionVarInfo \<Rightarrow> il_code" where
  "child_code addChildRef index v = [ldloc index, ldloc (LocalVarIndex v), (CEE_CALL, m_Arg32 addChildRef)]"

definition reference_code ::
  "'w metadata \<Rightarrow> FunctionInfo \<Rightarrow> mdToken \<Rightarrow> mdToken \<Rightarrow> INT32 \<Rightarrow> nat \<Rightarrow> nat \<Rightarrow> 'w code_spec" where
  "reference_code md target mscorlibRef getParameterRef index shift i = (\<lambda>w.
     bindO (argument_at target i) (\<lambda>a.
       (if \<not> ti_IsRefType a then no_code
        else
          then_code (just [ldarg (word_of_nat (shift + i)), ldloc index, ldc_i4 (word_of_nat i),
                           (CEE_CALL, m_Arg32 getParameterRef)]) (\<lambda>w.
          bindO (GetTypeToken md mscorlibRef (ti_Raw a) w) (\<lambda>(token, w).
            just (optional_opcode (stind_opcode (ti_TypeDef a))) w))) w))"

lemma construct_emits: "emits_with (construct md typeRef index) (construct_code md typeRef index)"
proof -
  have e: "emits (\<lambda>h. bindO (NewObject r h) (\<lambda>h. drop_result (StLocal index h))) ([(CEE_NEWOBJ, m_Arg32 r)] @ [stloc index])" for r
    by (intro emits_bind emit_rules)
  have "construct md typeRef index = (\<lambda>(h, w). case member_ref md typeRef ctor [IMAGE_CEE_CS_CALLCONV_HASTHIS, 0, ELEMENT_TYPE_VOID] w
      of (r, w) \<Rightarrow> pure_push (\<lambda>h. bindO (NewObject r h) (\<lambda>h. drop_result (StLocal index h))) (h, w))"
    by (rule ext) (simp add: construct_def pure_push_def case_prod_unfold bindO_assoc)
  then show ?thesis
    using with_ask [OF with_push [OF e], where q = "\<lambda>w. member_ref md typeRef ctor [IMAGE_CEE_CS_CALLCONV_HASTHIS, 0, ELEMENT_TYPE_VOID] w"]
    by (simp add: construct_code_def just_def)
qed

lemma call_emits:
  assumes "emits_with push c"
  shows "emits_with (call_composed md composedRef index name signature push) (call_code md composedRef index name signature c)"
proof -
  have eq: "call_composed md composedRef index name signature push =
      (\<lambda>(h, w). case member_ref md composedRef name signature w of (ref, w) \<Rightarrow>
         (\<lambda>g. bindO (pure_push (\<lambda>h. drop_result (LoadLocal index h)) g) (\<lambda>g. bindO (push g) (pure_push (CallMember ref False)))) (h, w))"
    by (rule ext) (simp add: call_composed_def pure_push_def case_prod_unfold bindO_assoc)
  have e: "emits_with (\<lambda>g. bindO (pure_push (\<lambda>h. drop_result (LoadLocal index h)) g) (\<lambda>g. bindO (push g) (pure_push (CallMember ref False))))
      (then_code (just [ldloc index]) (then_code c (just [(CEE_CALL, m_Arg32 ref)])))" for ref
    using emits_void_methods(4) [of ref False] by (intro with_bind with_push assms emit_rules) simp
  show ?thesis
    using with_ask [OF e, where q = "\<lambda>w. member_ref md composedRef name signature w"] unfolding eq call_code_def .
qed

lemma method_name_emits: "emits_with (push_method_name md target) (method_name_code md target)"
proof -
  have "push_method_name md target = (\<lambda>(h, w). case token_of (md_DefineUserString md (fi_Name target) w) of (token, w) \<Rightarrow>
      pure_push (LoadStr token) (h, w))"
    by (rule ext) (simp add: push_method_name_def pure_push_def case_prod_unfold)
  then show ?thesis
    using with_ask [OF with_push [OF emits_void_methods(10)], where q = "\<lambda>w. token_of (md_DefineUserString md (fi_Name target) w)"]
    by (simp add: method_name_code_def just_def)
qed


lemma parameter_emits:
  "emits_with (add_parameter md target mscorlibRef ref index shift i) (parameter_code md target mscorlibRef ref index shift i)"
proof -
  let ?load = "\<lambda>h. bindO (drop_result (LoadLocal index h)) (\<lambda>h. bindO (drop_result (LoadInt32 (word_of_nat i) h))
      (LoadArgument (word_of_nat (shift + i))))"
  let ?ind = "\<lambda>a. if ti_IsRefType a then LoadInd (ti_TypeDef a) else Inr"
  let ?box = "\<lambda>a. if ti_IsBoxed a then (\<lambda>(h, w). bindO (GetTypeToken md mscorlibRef (ti_Raw a) w) (\<lambda>(token, w). pure_push (Box token) (h, w)))
      else Inr"
  have "emits ?load ([ldloc index] @ [ldc_i4 (word_of_nat i)] @ [ldarg (word_of_nat (shift + i))])"
    by (intro emits_bind emit_rules)
  then have load: "emits_with (pure_push ?load) (just [ldloc index, ldc_i4 (word_of_nat i), ldarg (word_of_nat (shift + i))])"
    by (simp only: append_Cons append_Nil with_push)
  have ind: "emits_with (pure_push (?ind a)) (just (if ti_IsRefType a then optional_opcode (ldind_opcode (ti_TypeDef a)) else []))" for a
    using emits_LoadInd [of "ti_TypeDef a"] emits_Inr by (intro with_push) (simp add: optional_opcode_def)
  have box: "emits_with (?box a) (if ti_IsBoxed a then (\<lambda>w. bindO (GetTypeToken md mscorlibRef (ti_Raw a) w) (\<lambda>(token, w).
      just [(CEE_BOX, m_Arg32 token)] w)) else no_code)" for a
    by (rule with_if) (rule with_query with_Inr, rule with_push, rule emit_rules, rule with_Inr)
  have call: "emits_with (pure_push (CallMember ref False)) (just [(CEE_CALL, m_Arg32 ref)])"
    using emits_void_methods(4) [of ref False] by (intro with_push) simp
  have eq: "add_parameter md target mscorlibRef ref index shift i =
      (\<lambda>g. bindO (pure_push ?load g) (\<lambda>g. bindO (argument_at target i) (\<lambda>a.
         bindO (pure_push (?ind a) g) (\<lambda>g. bindO (?box a g) (pure_push (CallMember ref False))))))"
    by (rule ext) (simp add: add_parameter_def pure_push_def case_prod_unfold bindO_assoc if_distrib [of "\<lambda>f. f _"] cong: if_cong)
  show ?thesis unfolding eq parameter_code_def
    by (intro with_known with_bind load ind box call)
qed

lemma reference_emits:
  "emits_with (get_parameter md target mscorlibRef ref index shift i) (reference_code md target mscorlibRef ref index shift i)"
proof -
  let ?get = "\<lambda>h. bindO (LoadArgument (word_of_nat (shift + i)) h) (\<lambda>h. bindO (drop_result (LoadLocal index h))
      (\<lambda>h. bindO (drop_result (LoadInt32 (word_of_nat i) h)) (CallMember ref False)))"
  let ?put = "\<lambda>a token h. bindO (if ti_IsBoxed a then UnboxAny token h else Inr h) (StInd (ti_TypeDef a))"
  have call: "emits (CallMember ref False) [(CEE_CALL, m_Arg32 ref)]" using emits_void_methods(4) [of ref False] by simp
  have "emits ?get ([ldarg (word_of_nat (shift + i))] @ [ldloc index] @ [ldc_i4 (word_of_nat i)] @ [(CEE_CALL, m_Arg32 ref)])"
    by (intro emits_bind emit_rules call)
  then have get: "emits_with (pure_push ?get) (just [ldarg (word_of_nat (shift + i)), ldloc index, ldc_i4 (word_of_nat i), (CEE_CALL, m_Arg32 ref)])"
    by (simp only: append_Cons append_Nil with_push)
  have "emits (\<lambda>h. if ti_IsBoxed a then UnboxAny token h else Inr h) []" for a token
    using emits_UnboxAny [of token] emits_Inr by (cases "ti_IsBoxed a") simp_all
  from emits_bind [OF this emits_StInd] have put: "emits_with (pure_push (?put a token)) (just (optional_opcode (stind_opcode (ti_TypeDef a))))"
    for a token by (intro with_push) (simp add: optional_opcode_def)
  have eq: "get_parameter md target mscorlibRef ref index shift i = (\<lambda>g. bindO (argument_at target i) (\<lambda>a.
      (if \<not> ti_IsRefType a then Inr
       else (\<lambda>g. bindO (pure_push ?get g) (\<lambda>(h, w). bindO (GetTypeToken md mscorlibRef (ti_Raw a) w) (\<lambda>(token, w).
         pure_push (?put a token) (h, w))))) g))"
    by (rule ext) (simp add: get_parameter_def pure_push_def case_prod_unfold bindO_assoc if_distrib [of "\<lambda>f. f _"] cong: if_cong)
  show ?thesis unfolding eq reference_code_def
    by (intro with_known with_if with_bind with_query get put with_Inr)
qed


text \<open>The parts of the interceptor's code, and the whole.\<close>

definition setter :: "BYTE \<Rightarrow> BYTE list" where
  "setter t = [IMAGE_CEE_CS_CALLCONV_HASTHIS, 1, ELEMENT_TYPE_VOID, t]"

definition setup_code :: "'w metadata \<Rightarrow> intercept_env \<Rightarrow> FunctionInfo \<Rightarrow> mdToken \<Rightarrow> INT64 \<Rightarrow> 'w code_spec" where
  "setup_code md e target targetMdToken version_ptr =
     (let call = call_code md (ie_composed e) (ie_composed_index e) in
      then_code (fold_code (\<lambda>v. construct_code md (TypeRef v) (LocalVarIndex v)) (ie_vars e))
     (then_code (case ie_finder e of Some (t, i) \<Rightarrow> construct_code md t i | None \<Rightarrow> no_code)
     (then_code (construct_code md (ie_composed e) (ie_composed_index e))
     (then_code (if IsInstanceMethod (fi_Signature target)
        then call (W ''set_This'') (setter ELEMENT_TYPE_OBJECT) (just [ldarg 0]) else no_code)
     (then_code (call (W ''set_MdToken'') (setter ELEMENT_TYPE_I4) (just [ldc_i4 targetMdToken]))
     (then_code (call (W ''set_MethodName'') (setter ELEMENT_TYPE_STRING) (method_name_code md target))
     (then_code (call (W ''set_ModuleVersionPtr'') (setter ELEMENT_TYPE_I8) (just [(CEE_LDC_I8, m_Arg64 version_ptr)]))
       (call (W ''SetArgumentCount'') (setter ELEMENT_TYPE_I4)
         (just [ldc_i4 (NumberOfArguments (fi_Signature target))])))))))))"

definition this_shift :: "FunctionInfo \<Rightarrow> nat" where
  "this_shift target = (if IsInstanceMethod (fi_Signature target) then 1 else 0)"

definition parameters_code :: "'w metadata \<Rightarrow> intercept_env \<Rightarrow> FunctionInfo \<Rightarrow> 'w code_spec" where
  "parameters_code md e target = (\<lambda>w.
     case member_ref md (ie_composed e) (W ''AddParameter'')
        [IMAGE_CEE_CS_CALLCONV_HASTHIS, 2, ELEMENT_TYPE_VOID, ELEMENT_TYPE_I4, ELEMENT_TYPE_OBJECT] w of (ref, w) \<Rightarrow>
       fold_code (parameter_code md target (ie_mscorlib e) ref (ie_composed_index e) (this_shift target))
         [0..<argument_count target] w)"

definition children_code :: "'w metadata \<Rightarrow> intercept_env \<Rightarrow> 'w code_spec" where
  "children_code md e = (\<lambda>w.
     bindO (class_argument_signature (ie_interface e)) (\<lambda>signature.
     (\<lambda>w. case member_ref md (ie_composed e) (W ''AddChild'') signature w of (ref, w) \<Rightarrow>
       then_code (just (concat (map (child_code ref (ie_composed_index e)) (ie_vars e))))
         (case ie_finder e of
            None \<Rightarrow> no_code
          | Some (t, i) \<Rightarrow> (\<lambda>w. bindO (class_argument_signature (ie_finder_interface e)) (\<lambda>signature.
              call_code md (ie_composed e) (ie_composed_index e) (W ''set_MethodFinder'') signature (just [ldloc i]) w))) w) w))"

definition finish_code :: "'w metadata \<Rightarrow> intercept_env \<Rightarrow> FunctionInfo \<Rightarrow> TypeInfo \<Rightarrow> 'w code_spec" where
  "finish_code md e target retType =
     then_code (call_code md (ie_composed e) (ie_composed_index e) (W ''Execute'')
       [IMAGE_CEE_CS_CALLCONV_HASTHIS, 0, ELEMENT_TYPE_OBJECT] no_code)
    (then_code (just [stloc 0]) (\<lambda>w.
       case member_ref md (ie_composed e) (W ''GetParameter'')
         [IMAGE_CEE_CS_CALLCONV_HASTHIS, 1, ELEMENT_TYPE_OBJECT, ELEMENT_TYPE_I4] w of (ref, w) \<Rightarrow>
       then_code (fold_code (reference_code md target (ie_mscorlib e) ref (ie_composed_index e) (this_shift target))
           [0..<argument_count target])
         (just ((if \<not> ti_IsVoid retType then [ldloc 0] else []) @ [plain CEE_RET])) w))"

definition intercept_code ::
  "'w metadata \<Rightarrow> intercept_env \<Rightarrow> FunctionInfo \<Rightarrow> TypeInfo \<Rightarrow> mdToken \<Rightarrow> INT64 \<Rightarrow> 'w code_spec" where
  "intercept_code md e target retType targetMdToken version_ptr =
     then_code (setup_code md e target targetMdToken version_ptr)
    (then_code (parameters_code md e target) (then_code (children_code md e) (finish_code md e target retType)))"

lemma setup_eq:
  "emit_setup md e target tk vp = (\<lambda>g.
      let call = call_composed md (ie_composed e) (ie_composed_index e) in
      bindO (foldO (\<lambda>v. construct md (TypeRef v) (LocalVarIndex v)) (ie_vars e) g) (\<lambda>g.
      bindO ((case ie_finder e of Some (t, i) \<Rightarrow> construct md t i | None \<Rightarrow> Inr) g) (\<lambda>g.
      bindO (construct md (ie_composed e) (ie_composed_index e) g) (\<lambda>g.
      bindO ((if IsInstanceMethod (fi_Signature target)
              then call (W ''set_This'') (setter ELEMENT_TYPE_OBJECT) (pure_push (LoadArgument 0)) else Inr) g) (\<lambda>g.
      bindO (call (W ''set_MdToken'') (setter ELEMENT_TYPE_I4) (pure_push (\<lambda>h. drop_result (LoadInt32 tk h))) g) (\<lambda>g.
      bindO (call (W ''set_MethodName'') (setter ELEMENT_TYPE_STRING) (push_method_name md target) g) (\<lambda>g.
      bindO (call (W ''set_ModuleVersionPtr'') (setter ELEMENT_TYPE_I8) (pure_push (LoadInt64 vp)) g)
        (call (W ''SetArgumentCount'') (setter ELEMENT_TYPE_I4)
          (pure_push (\<lambda>h. drop_result (LoadInt32 (NumberOfArguments (fi_Signature target)) h)))))))))))"
  by (rule ext) (simp add: emit_setup_def Let_def setter_def split: option.splits)

lemma setup_emits: "emits_with (emit_setup md e target tk vp) (setup_code md e target tk vp)"
proof -
  have finder: "emits_with (case ie_finder e of Some (t, i) \<Rightarrow> construct md t i | None \<Rightarrow> Inr)
      (case ie_finder e of Some (t, i) \<Rightarrow> construct_code md t i | None \<Rightarrow> no_code)"
    using construct_emits with_Inr by (auto split: option.split)
  have i64: "emits (LoadInt64 vp) [(CEE_LDC_I8, m_Arg64 vp)]" by (rule emit_rules)
  show ?thesis unfolding setup_eq setup_code_def Let_def
    by (intro with_bind with_fold with_if call_emits construct_emits finder method_name_emits with_push with_Inr emit_rules i64)
qed

lemma parameters_emit: "emits_with (emit_parameters md e target) (parameters_code md e target)"
proof -
  have "emits_with (foldO (add_parameter md target (ie_mscorlib e) ref (ie_composed_index e) (this_shift target)) [0..<argument_count target])
      (fold_code (parameter_code md target (ie_mscorlib e) ref (ie_composed_index e) (this_shift target)) [0..<argument_count target])" for ref
    by (intro with_fold parameter_emits)
  from with_ask [OF this, where q = "\<lambda>w. member_ref md (ie_composed e) (W ''AddParameter'')
      [IMAGE_CEE_CS_CALLCONV_HASTHIS, 2, ELEMENT_TYPE_VOID, ELEMENT_TYPE_I4, ELEMENT_TYPE_OBJECT] w"]
  show ?thesis by (simp add: emit_parameters_def parameters_code_def this_shift_def)
qed

lemma child_emits: "emits (add_child ref index v) (child_code ref index v)"
proof -
  have "emits (\<lambda>h. bindO (drop_result (LoadLocal index h)) (\<lambda>h. bindO (drop_result (LoadLocal (LocalVarIndex v) h)) (CallMember ref False)))
      ([ldloc index] @ [ldloc (LocalVarIndex v)] @ [(CEE_CALL, m_Arg32 ref)])"
    using emits_void_methods(4) [of ref False] by (intro emits_bind emit_rules) simp
  then show ?thesis by (simp add: add_child_def [abs_def] child_code_def bindO_assoc case_prod_unfold)
qed

lemma children_eq:
  "emit_children md e = (\<lambda>g. bindO (class_argument_signature (ie_interface e)) (\<lambda>signature.
      (\<lambda>(h, w). case member_ref md (ie_composed e) (W ''AddChild'') signature w of (ref, w) \<Rightarrow>
         (\<lambda>g. bindO (pure_push (foldO (add_child ref (ie_composed_index e)) (ie_vars e)) g) (case ie_finder e of None \<Rightarrow> Inr
      | Some (t, i) \<Rightarrow> (\<lambda>g. bindO (class_argument_signature (ie_finder_interface e)) (\<lambda>signature.
          call_composed md (ie_composed e) (ie_composed_index e) (W ''set_MethodFinder'') signature
            (pure_push (\<lambda>h. drop_result (LoadLocal i h))) g)))) (h, w)) g))"
  by (rule ext) (simp add: emit_children_def pure_push_def case_prod_unfold bindO_assoc Let_def split: option.splits)

lemma children_emit: "emits_with (emit_children md e) (children_code md e)"
proof -
  let ?finder = "case ie_finder e of None \<Rightarrow> Inr
      | Some (t, i) \<Rightarrow> (\<lambda>g. bindO (class_argument_signature (ie_finder_interface e)) (\<lambda>signature.
          call_composed md (ie_composed e) (ie_composed_index e) (W ''set_MethodFinder'') signature
            (pure_push (\<lambda>h. drop_result (LoadLocal i h))) g))"
  have finder: "emits_with ?finder (case ie_finder e of None \<Rightarrow> no_code
      | Some (t, i) \<Rightarrow> (\<lambda>w. bindO (class_argument_signature (ie_finder_interface e)) (\<lambda>signature.
          call_code md (ie_composed e) (ie_composed_index e) (W ''set_MethodFinder'') signature (just [ldloc i]) w)))"
    by (auto split: option.split intro!: with_Inr with_known call_emits with_push emit_rules)
  show ?thesis unfolding children_eq children_code_def
    by (intro with_known with_ask with_bind with_push emits_fold child_emits finder)
qed

lemma finish_eq:
  "emit_finish md e target retType = (\<lambda>g.
      bindO (call_composed md (ie_composed e) (ie_composed_index e) (W ''Execute'')
        [IMAGE_CEE_CS_CALLCONV_HASTHIS, 0, ELEMENT_TYPE_OBJECT] Inr g) (\<lambda>g.
      bindO (pure_push (\<lambda>h. drop_result (StLocal 0 h)) g) (\<lambda>(h, w).
        case member_ref md (ie_composed e) (W ''GetParameter'')
          [IMAGE_CEE_CS_CALLCONV_HASTHIS, 1, ELEMENT_TYPE_OBJECT, ELEMENT_TYPE_I4] w of (ref, w) \<Rightarrow>
        (\<lambda>g. bindO (foldO (get_parameter md target (ie_mscorlib e) ref (ie_composed_index e) (this_shift target))
           [0..<argument_count target] g) (pure_push (\<lambda>h. bindO (if \<not> ti_IsVoid retType then drop_result (LoadLocal 0 h) else Inr h) Ret))) (h, w))))"
  by (rule ext) (simp add: emit_finish_def pure_push_def case_prod_unfold bindO_assoc Let_def this_shift_def)

lemma finish_emits: "emits_with (emit_finish md e target retType) (finish_code md e target retType)"
proof -
  let ?ret = "\<lambda>h. bindO (if \<not> ti_IsVoid retType then drop_result (LoadLocal 0 h) else Inr h) Ret"
  have "emits (\<lambda>h. if \<not> ti_IsVoid retType then drop_result (LoadLocal 0 h) else Inr h) (if \<not> ti_IsVoid retType then [ldloc 0] else [])"
    using emits_LoadLocal [of 0] emits_Inr by (cases "ti_IsVoid retType") simp_all
  from with_push [OF emits_bind [OF this emits_void_methods(9)]]
  have ret: "emits_with (pure_push ?ret) (just ((if \<not> ti_IsVoid retType then [ldloc 0] else []) @ [plain CEE_RET]))" .
  show ?thesis unfolding finish_eq finish_code_def
    by (intro with_bind with_ask call_emits with_push with_fold reference_emits ret with_Inr emit_rules)
qed

text \<open>What the emitters put into the list is \<open>intercept_code\<close>.\<close>

definition emit_interceptor ::
  "'w metadata \<Rightarrow> intercept_env \<Rightarrow> FunctionInfo \<Rightarrow> TypeInfo \<Rightarrow> mdToken \<Rightarrow> INT64
    \<Rightarrow> ILRewriterHelper \<times> 'w \<Rightarrow> (ILRewriterHelper \<times> 'w) outcome" where
  "emit_interceptor md e target retType tk vp g =
     bindO (emit_setup md e target tk vp g) (\<lambda>g. bindO (emit_parameters md e target g) (\<lambda>g.
     bindO (emit_children md e g) (emit_finish md e target retType)))"

lemma interceptor_emits: "emits_with (emit_interceptor md e target retType tk vp) (intercept_code md e target retType tk vp)"
  unfolding emit_interceptor_def [abs_def] intercept_code_def
  by (intro with_bind setup_emits parameters_emit children_emit finish_emits)

end
