(* ===== verification/InterceptorBody.thy ===== *)
theory InterceptorBody
  imports Interceptor
begin

text \<open>
  What \<open>GenerateInterceptMethod\<close> installs: straight-line code exported into a fat body, the number of instructions the
  emitters take, the variables an interceptor declares, and the body as a whole.
\<close>

unbundle bit_operations_syntax
section \<open>The interceptor's body\<close>

text \<open>A fat body without exception clauses around straight-line code; the flags are those of the tiny format the rewriter
  started with, extended to the fat format.\<close>

definition fat_of :: "mdToken \<Rightarrow> 32 word \<Rightarrow> BYTE list \<Rightarrow> BYTE list \<Rightarrow> BYTE list" where
  "fat_of localVarSig maxStack code pad =
     fat_header_bytes \<lparr>fh_Flags = 3, fh_Size = 3, fh_MaxStack = ucast maxStack,
       fh_CodeSize = word_of_nat (length code), fh_LocalVarSigTok = localVarSig\<rparr> @ code @ pad"

lemma Export_linear_fat:
  assumes "holds \<sigma> ps" and "map (content_of (heap \<sigma>)) ps = map (\<lambda>(op, a). Some (op, 0, a)) code" and "linear code"
    and "next_addr \<sigma> \<le> 2 ^ 27" and "m_nEH \<sigma> = 0" and "m_pEH \<sigma> = []" and "\<not> m_fGenerateTinyHeader \<sigma>" and "m_flags \<sigma> = 2"
    and "\<And>n. AllocateILMemory api \<sigma> n"
  shows "\<exists>pad \<sigma>'. length pad < 4 \<and>
    (let body = fat_of (m_tkLocalVarSig \<sigma>) (m_maxStack \<sigma>) (code_bytes code) pad;
         hr = api_SetILFunctionBody api body in
     Export api \<sigma> = Inr (if FAILED hr then hr else S_OK, Some body, \<sigma>'))"
proof -
  have "export_ready \<sigma> ps"
    using assms(1,4-6) linear_heap(1) [OF assms(2,3) relaxed_refl] by (simp add: export_ready_def)
  then obtain \<sigma>' where s: "export_state api \<sigma> ps \<sigma>'" by (rule export_layout)
  note p = export_state_parts [OF s \<open>export_ready \<sigma> ps\<close>]
  note f = same_rest_fields [OF p(8)]
  have code: "code_of (heap \<sigma>') ps = code_bytes code" by (rule linear_heap(2) [OF assms(2,3) p(7)])
  have len: "code_total (heap \<sigma>') ps = length (code_bytes code)"
    using length_code_of [of "heap \<sigma>'" ps] p(2) by (simp add: laid_out_def code)
  have flags: "fh_Flags (export_header \<sigma>' c) = 3" for c
    by (simp add: export_header_def f assms(5,8) CorILMethod_FatFormat_def)
  have header: "export_header \<sigma>' c = \<lparr>fh_Flags = 3, fh_Size = 3, fh_MaxStack = ucast (m_maxStack \<sigma>), fh_CodeSize = c,
      fh_LocalVarSigTok = m_tkLocalVarSig \<sigma>\<rparr>" for c
    using flags [of c] by (simp add: export_header_def f)
  obtain pad where b: "fat_body api \<sigma>' (word_of_nat (code_total (heap \<sigma>') ps)) =
      Inr (fat_of (m_tkLocalVarSig \<sigma>) (m_maxStack \<sigma>) (code_bytes code) pad)" "length pad < 4"
    using fat_body_eq [OF p(1-6), of api] by (auto simp: header fat_of_def code len export_section_def f(2) assms(5))
  show ?thesis
    unfolding Export_unfold [OF s] Let_def b(1) using assms(7,9) b(2)
    by (intro exI [of _ pad] exI [of _ \<sigma>']) simp
qed

section \<open>Straight-line code\<close>

definition straight :: "'w code_spec \<Rightarrow> bool" where
  "straight c \<longleftrightarrow> (\<forall>w code w'. c w = Inr (code, w') \<longrightarrow> linear code)"

lemma straightD: "straight c \<Longrightarrow> c w = Inr (code, w') \<Longrightarrow> linear code"
  unfolding straight_def by blast

lemma straight_rules:
  "straight no_code" "linear code \<Longrightarrow> straight (just code)"
  "straight c \<Longrightarrow> straight d \<Longrightarrow> straight (then_code c d)"
  "straight c \<Longrightarrow> straight d \<Longrightarrow> straight (if b then c else d)"
  by (auto simp: straight_def no_code_def just_def then_code_def bindO_Inr_iff) blast+

lemma straight_questions:
  "(\<And>a. straight (d a)) \<Longrightarrow> straight (\<lambda>w. case q w of (a, w) \<Rightarrow> d a w)"
  "(\<And>a. straight (d a)) \<Longrightarrow> straight (\<lambda>w. bindO (r w) (\<lambda>(a, w). d a w))"
  "(\<And>a. straight (d a)) \<Longrightarrow> straight (\<lambda>w. bindO x (\<lambda>a. d a w))"
  unfolding straight_def bindO_Inr_iff by (auto split: prod.splits)

lemma straight_fold: "(\<And>x. straight (c x)) \<Longrightarrow> straight (fold_code c xs)"
  by (induction xs) (simp_all add: straight_rules)

lemma linear_plain: "flags_of op = 0 \<Longrightarrow> op < CEE_COUNT \<Longrightarrow> linear [plain op]"
  by (simp add: plain_def arg_fits_def is_branch_def)

lemma linear_optional: "op \<in> {0, 0x46, 0x47, 0x48, 0x49, 0x4A, 0x4B, 0x4C, 0x4D, 0x4E, 0x4F, 0x50, 0x51, 0x52, 0x53, 0x54,
    0x55, 0x56, 0x57, 0xDF} \<Longrightarrow> linear (optional_opcode op)"
  by (elim insertE emptyE) (simp_all add: optional_opcode_def flags_of_def linear_plain del: linear_simps(2))

lemma linear_ind: "linear (optional_opcode (ldind_opcode t))" "linear (optional_opcode (stind_opcode t))"
  by (intro linear_optional; simp add: ldind_opcode_def; fail | intro linear_optional; simp add: stind_opcode_def)+

lemma linear_locals: "linear [stloc n]" "linear [ldloc n]" "linear [ldarg k]"
proof -
  note o = stloc_def ldloc_def ldarg_def flags_of_def arg_fits_def is_branch_def
  show "linear [stloc n]"
  proof (cases "n \<le> 3")
    case True
    then have "n = 0 \<or> n = 1 \<or> n = 2 \<or> n = 3" by (rule word_small_cases) simp
    then show ?thesis by (elim disjE) (simp_all add: o plain_def)
  qed (simp add: o)
  show "linear [ldloc n]"
  proof (cases "n \<le> 3")
    case True
    then have "n = 0 \<or> n = 1 \<or> n = 2 \<or> n = 3" by (rule word_small_cases) simp
    then show ?thesis by (elim disjE) (simp_all add: o plain_def)
  qed (simp add: o)
  show "linear [ldarg k]"
  proof (cases "k \<le> 3")
    case True
    then have "k = 0 \<or> k = 1 \<or> k = 2 \<or> k = 3" by (rule word_small_cases) simp
    then show ?thesis by (elim disjE) (simp_all add: o plain_def)
  qed (simp add: o)
qed

lemma linear_constants: "op \<in> {0x15, 0x16, 0x17, 0x18, 0x19, 0x1A, 0x1B, 0x1C, 0x1D, 0x1E} \<Longrightarrow> linear [plain op]"
  by (elim insertE emptyE) (simp_all add: flags_of_def linear_plain del: linear_simps(2))

lemma linear_ldc: "linear [ldc_i4 v]"
proof (cases "-1 \<le> sint v \<and> sint v \<le> 8")
  case True
  then have "sint v \<in> {-1, 0, 1, 2, 3, 4, 5, 6, 7, 8}" unfolding insert_iff empty_iff by arith
  moreover have "v = word_of_int (sint v)" by simp
  ultimately have "v \<in> word_of_int ` {-1, 0, 1, 2, 3, 4, 5, 6, 7, 8}" by blast
  then have "CEE_LDC_I4_0 + v \<in> {0x15, 0x16, 0x17, 0x18, 0x19, 0x1A, 0x1B, 0x1C, 0x1D, 0x1E}" by auto
  then have "linear [plain (CEE_LDC_I4_0 + v)]" by (rule linear_constants)
  then show ?thesis using True by (simp add: ldc_i4_def)
qed (auto simp: ldc_i4_def flags_of_def arg_fits_def is_branch_def)

lemma linear_args:
  "linear [(CEE_NEWOBJ, m_Arg32 t)]" "linear [(CEE_CALL, m_Arg32 t)]" "linear [(CEE_LDSTR, m_Arg32 t)]"
  "linear [(CEE_BOX, m_Arg32 t)]" "linear [(CEE_LDC_I8, m_Arg64 k)]" "linear [plain CEE_RET]"
  by (simp_all add: flags_of_def arg_fits_def is_branch_def plain_def)

lemma linear_Cons2: "linear (i # j # c) \<longleftrightarrow> linear [i] \<and> linear (j # c)"
  by (simp only: linear_simps) simp

lemmas linear_code = linear_locals linear_ldc linear_args linear_ind

lemma straight_known: "straight (\<lambda>w. Inr (code w, w))" if "\<And>w. linear (code w)" for code :: "'w \<Rightarrow> il_code"
  using that by (simp add: straight_def)

lemma straight_construct: "straight (construct_code md t i)"
  unfolding construct_code_def straight_def
  by (auto simp: split_beta linear_Cons2 linear_code simp del: linear_simps(2))

lemma straight_call: "straight c \<Longrightarrow> straight (call_code md t i name sig c)"
  unfolding call_code_def by (intro straight_rules straight_questions linear_code)

lemma straight_name: "straight (method_name_code md target)"
  unfolding method_name_code_def straight_def by (auto simp: split_beta linear_code simp del: linear_simps(2))

lemma straight_parameter: "straight (parameter_code md target m ref i shift k)"
  unfolding parameter_code_def
  by (intro straight_rules straight_questions; simp add: linear_Cons2 linear_code del: linear_simps(2))

lemma straight_reference: "straight (reference_code md target m ref i shift k)"
  unfolding reference_code_def
  by (intro straight_rules straight_questions; simp add: linear_Cons2 linear_code del: linear_simps(2))

lemma linear_children: "linear (concat (map (child_code ref i) vs))"
proof (induction vs)
  case (Cons v vs)
  have "linear (child_code ref i v)" by (simp add: child_code_def linear_Cons2 linear_code del: linear_simps(2))
  with Cons show ?case by simp
qed simp

lemma straight_intercept: "straight (intercept_code md e target retType tk vp)"
proof -
  have "straight (setup_code md e target tk vp)"
    unfolding setup_code_def Let_def
    by (intro straight_rules straight_questions straight_fold straight_construct straight_call straight_name linear_code)
      (auto intro: straight_rules straight_construct split: option.split)
  moreover have "straight (parameters_code md e target)"
    unfolding parameters_code_def by (intro straight_rules straight_questions straight_fold straight_parameter)
  moreover have "straight (children_code md e)"
    unfolding children_code_def
    by (intro straight_rules straight_questions linear_children) (auto intro!: straight_rules straight_questions straight_call linear_code split: option.split)
  moreover have "straight (finish_code md e target retType)"
    unfolding finish_code_def
    by (intro straight_rules straight_questions straight_fold straight_reference straight_call linear_code) (auto simp: linear_code simp del: linear_simps(2))
  ultimately show ?thesis unfolding intercept_code_def by (intro straight_rules straight_questions)
qed


section \<open>The addresses the emitters take\<close>

text \<open>A computation takes at most \<open>k\<close> addresses.\<close>

definition takes :: "nat \<Rightarrow> (ILRewriterHelper \<times> 'w \<Rightarrow> (ILRewriterHelper \<times> 'w) outcome) \<Rightarrow> bool" where
  "takes k f \<longleftrightarrow> (\<forall>h w h' w'. f (h, w) = Inr (h', w') \<longrightarrow> next_addr (h_rewriter h') \<le> next_addr (h_rewriter h) + k)"

lemma emit_pair_next: "emit op arg h = Inr (p, h') \<Longrightarrow> next_addr (h_rewriter h') = next_addr (h_rewriter h) + 1"
  by (auto simp: emit_def dest!: create_next insert_next)

lemma emitter_next:
  "StLocal n h = Inr (p, h') \<Longrightarrow> next_addr (h_rewriter h') = next_addr (h_rewriter h) + 1"
  "LoadLocal n h = Inr (p, h') \<Longrightarrow> next_addr (h_rewriter h') = next_addr (h_rewriter h) + 1"
  "LoadInt32 v h = Inr (p, h') \<Longrightarrow> next_addr (h_rewriter h') = next_addr (h_rewriter h) + 1"
  "LoadArgument k h = Inr h' \<Longrightarrow> next_addr (h_rewriter h') = next_addr (h_rewriter h) + 1"
  "LoadInt64 x h = Inr h' \<Longrightarrow> next_addr (h_rewriter h') = next_addr (h_rewriter h) + 1"
  "CallMember t b h = Inr h' \<Longrightarrow> next_addr (h_rewriter h') = next_addr (h_rewriter h) + 1"
  "NewObject t h = Inr h' \<Longrightarrow> next_addr (h_rewriter h') = next_addr (h_rewriter h) + 1"
  "LoadStr t h = Inr h' \<Longrightarrow> next_addr (h_rewriter h') = next_addr (h_rewriter h) + 1"
  "Box t h = Inr h' \<Longrightarrow> next_addr (h_rewriter h') = next_addr (h_rewriter h) + 1"
  "UnboxAny t h = Inr h' \<Longrightarrow> next_addr (h_rewriter h') = next_addr (h_rewriter h) + 1"
  "Ret h = Inr h' \<Longrightarrow> next_addr (h_rewriter h') = next_addr (h_rewriter h) + 1"
  "LoadInd ty h = Inr h' \<Longrightarrow> next_addr (h_rewriter h') \<le> next_addr (h_rewriter h) + 1"
  "StInd ty h = Inr h' \<Longrightarrow> next_addr (h_rewriter h') \<le> next_addr (h_rewriter h) + 1"
  by (auto simp: StLocal_def LoadLocal_def LoadInt32_def LoadArgument_def LoadInt64_def CallMember_def NewObject_def
      LoadStr_def Box_def UnboxAny_def Ret_def LoadInd_def StInd_def Let_def dest!: emit_pair_next emit_next create_next
      split: if_splits)

lemma takesD: "takes k f \<Longrightarrow> f (h, w) = Inr (h', w') \<Longrightarrow> next_addr (h_rewriter h') \<le> next_addr (h_rewriter h) + k"
  unfolding takes_def by blast

lemma takes_bind:
  assumes "takes j f" and "takes k g"
  shows "takes (j + k) (\<lambda>x. bindO (f x) g)"
  unfolding takes_def
proof (intro allI impI)
  fix h w h' w' assume "bindO (f (h, w)) g = Inr (h', w')"
  then obtain h1 w1 where "f (h, w) = Inr (h1, w1)" "g (h1, w1) = Inr (h', w')" by auto
  with takesD [OF assms(1)] takesD [OF assms(2)]
  have "next_addr (h_rewriter h1) \<le> next_addr (h_rewriter h) + j" "next_addr (h_rewriter h') \<le> next_addr (h_rewriter h1) + k"
    by blast+
  then show "next_addr (h_rewriter h') \<le> next_addr (h_rewriter h) + (j + k)" by simp
qed

lemma takes_fold: "(\<And>x. takes k (f x)) \<Longrightarrow> takes (k * length xs) (foldO f xs)"
proof (induction xs)
  case (Cons x xs)
  have "foldO f (x # xs) = (\<lambda>g. bindO (f x g) (foldO f xs))" by (rule ext) simp
  then show ?case using takes_bind [OF Cons.prems [of x] Cons.IH [OF Cons.prems]] by simp
qed (simp add: takes_def)

lemma takes_more: "takes j f \<Longrightarrow> j \<le> k \<Longrightarrow> takes k f"
  unfolding takes_def by (fastforce intro: le_trans)

lemma takes_Inr: "takes 0 Inr"
  by (simp add: takes_def)

lemma construct_takes: "takes 2 (construct md t i)"
  by (auto simp: takes_def construct_def split_beta dest!: emitter_next)

lemma call_takes:
  assumes "takes k push"
  shows "takes (k + 2) (call_composed md t i name sig push)"
  unfolding takes_def
proof (intro allI impI)
  fix h w h' w' assume "call_composed md t i name sig push (h, w) = Inr (h', w')"
  then obtain p h1 h2 w1 ref where s: "LoadLocal i h = Inr (p, h1)" "push (h1, snd (member_ref md t name sig w)) = Inr (h2, w1)"
    "CallMember ref False h2 = Inr h'" by (auto simp: call_composed_def split_beta)
  show "next_addr (h_rewriter h') \<le> next_addr (h_rewriter h) + (k + 2)"
    using emitter_next(2) [OF s(1)] emitter_next(6) [OF s(3)] takesD [OF assms s(2)] by simp
qed

lemma push_takes: "(\<And>h h'. f h = Inr h' \<Longrightarrow> next_addr (h_rewriter h') \<le> next_addr (h_rewriter h) + k) \<Longrightarrow> takes k (pure_push f)"
  by (auto simp: takes_def pure_push_def)

lemma name_takes: "takes 1 (push_method_name md target)"
  by (auto simp: takes_def push_method_name_def split_beta dest!: emitter_next)

lemma parameter_takes: "takes 6 (add_parameter md target m ref i shift k)"
  by (auto simp: takes_def add_parameter_def split_beta dest!: emitter_next split: if_splits)

lemma reference_takes: "takes 6 (get_parameter md target m ref i shift k)"
  by (auto simp: takes_def get_parameter_def split_beta dest!: emitter_next split: if_splits)


lemma takes_any: "takes k Inr"
  by (simp add: takes_def)

lemma takes_if: "takes k f \<Longrightarrow> takes k g \<Longrightarrow> takes k (if b then f else g)"
  by simp

lemma takes_ask: "(\<And>a. takes k (f a)) \<Longrightarrow> takes k (\<lambda>(h, w). case q w of (a, w) \<Rightarrow> f a (h, w))"
  unfolding takes_def by (auto split: prod.splits)

lemma takes_known: "(\<And>a. takes k (f a)) \<Longrightarrow> takes k (\<lambda>g. bindO x (\<lambda>a. f a g))"
  unfolding takes_def by (cases x) auto

lemma push_one: "takes 1 (pure_push (\<lambda>h. drop_result (LoadInt32 v h)))" "takes 1 (pure_push (\<lambda>h. drop_result (LoadLocal n h)))"
  "takes 1 (pure_push (\<lambda>h. drop_result (StLocal n h)))" "takes 1 (pure_push (LoadArgument k))" "takes 1 (pure_push (LoadInt64 x))"
  by (auto simp: takes_def pure_push_def dest!: emitter_next)

lemma setup_takes: "takes (2 * length (ie_vars e) + 19) (emit_setup md e target tk vp)"
proof -
  have finder: "takes 2 (case ie_finder e of Some (t, i) \<Rightarrow> construct md t i | None \<Rightarrow> Inr)"
    using construct_takes takes_any by (auto split: option.split)
  have this_arg: "takes 3 (if IsInstanceMethod (fi_Signature target) then call_composed md (ie_composed e) (ie_composed_index e)
      (W ''set_This'') (setter ELEMENT_TYPE_OBJECT) (pure_push (LoadArgument 0)) else Inr)"
    by (rule takes_if [OF takes_more [OF call_takes [OF push_one(4)]] takes_any]) simp
  show ?thesis unfolding setup_eq Let_def
    by (rule takes_more, (rule takes_bind takes_fold this_arg call_takes construct_takes finder name_takes push_one)+) simp
qed

lemma parameters_take: "takes (6 * argument_count target) (emit_parameters md e target)"
proof -
  have "takes (6 * length [0..<argument_count target]) (foldO (add_parameter md target m ref i shift) [0..<argument_count target])" for m ref i shift
    by (intro takes_fold parameter_takes)
  then show ?thesis by (auto simp: takes_def emit_parameters_def Let_def split_beta)
qed

lemma children_take: "takes (3 * length (ie_vars e) + 3) (emit_children md e)"
proof -
  have child: "takes 3 (\<lambda>g. pure_push (add_child ref i v) g)" for ref i v
    by (auto simp: takes_def pure_push_def add_child_def dest!: emitter_next)
  have fold: "pure_push (foldO (add_child ref i) vs) = foldO (\<lambda>v. pure_push (add_child ref i v)) vs" for ref i vs
  proof (rule ext)
    fix g
    show "pure_push (foldO (add_child ref i) vs) g = foldO (\<lambda>v. pure_push (add_child ref i v)) vs g"
    proof (induction vs arbitrary: g)
      case (Cons v vs)
      have "pure_push (foldO (add_child ref i) vs) (h, snd g) = foldO (\<lambda>v. pure_push (add_child ref i v)) vs (h, snd g)" for h
        by (rule Cons.IH)
      then show ?case by (simp add: pure_push_def case_prod_unfold bindO_assoc)
    qed (simp add: pure_push_def case_prod_unfold)
  qed
  have finder: "takes 3 (case ie_finder e of None \<Rightarrow> Inr
      | Some (t, i) \<Rightarrow> (\<lambda>g. bindO (class_argument_signature (ie_finder_interface e)) (\<lambda>signature.
          call_composed md (ie_composed e) (ie_composed_index e) (W ''set_MethodFinder'') signature
            (pure_push (\<lambda>h. drop_result (LoadLocal i h))) g)))"
    by (auto split: option.split intro!: takes_any takes_known takes_more [OF call_takes [OF push_one(2)]])
  show ?thesis unfolding children_eq fold
    by (intro takes_known takes_ask takes_bind takes_fold child finder)
qed

lemma finish_takes: "takes (6 * argument_count target + 5) (emit_finish md e target retType)"
proof -
  have ret: "takes 2 (pure_push (\<lambda>h. bindO (if \<not> ti_IsVoid retType then drop_result (LoadLocal 0 h) else Inr h) Ret))"
    by (auto simp: takes_def pure_push_def dest!: emitter_next split: if_splits)
  show ?thesis unfolding finish_eq
    by (rule takes_more, (rule takes_bind takes_fold takes_ask call_takes reference_takes push_one ret takes_Inr)+) simp
qed

lemma interceptor_takes: "takes (5 * length (ie_vars e) + 12 * argument_count target + 27) (emit_interceptor md e target retType tk vp)"
  unfolding emit_interceptor_def [abs_def]
  by (rule takes_more, (rule takes_bind setup_takes parameters_take children_take finish_takes)+) simp

section \<open>The variables\<close>

text \<open>A rewriter an interceptor's code goes into: empty, with a fat header to come.\<close>

definition empty_fat :: "ILRewriterHelper \<Rightarrow> bool" where
  "empty_fat h \<longleftrightarrow> helper_at h [] [] \<and> next_addr (h_rewriter h) = 2 \<and> m_maxStack (h_rewriter h) = 8 \<and>
     m_flags (h_rewriter h) = 2 \<and> m_nEH (h_rewriter h) = 0 \<and> m_pEH (h_rewriter h) = [] \<and>
     \<not> m_fGenerateTinyHeader (h_rewriter h)"

lemma fresh_empty:
  assumes "load_instr (SetTkLocalVarSig (InitializeTiny (CreateILRewriter info)) tk) GetILList = Inr il"
  shows "empty_fat (SetILPosition (m_pNext il) (ILRewriterHelper_new (SetTkLocalVarSig (InitializeTiny (CreateILRewriter info)) tk)))"
proof -
  obtain j where "load_instr (SetTkLocalVarSig (InitializeTiny (CreateILRewriter info)) tk) GetILList = Inr j"
    "helper_at (SetILPosition (m_pNext j) (ILRewriterHelper_new (SetTkLocalVarSig (InitializeTiny (CreateILRewriter info)) tk))) [] []"
    using fresh_helper by blast
  with assms show ?thesis
    by (simp add: empty_fat_def SetILPosition_def ILRewriterHelper_new_def SetTkLocalVarSig_def InitializeTiny_def
        CreateILRewriter_def ILRewriter_new_def)
qed

lemma define_interceptor_empty:
  "define_interceptor info md p target w = Inr (tokens, retType, target', h, w') \<Longrightarrow> empty_fat h"
  unfolding define_interceptor_def Let_def split_beta by (auto intro: fresh_empty)

lemma empty_fat_sig: "empty_fat h \<Longrightarrow> empty_fat (h\<lparr>h_rewriter := SetTkLocalVarSig (h_rewriter h) tk\<rparr>)"
  by (auto simp: empty_fat_def helper_at_def SetTkLocalVarSig_def intro: holds_cong)

lemma AddLocalVariable_empty:
  "AddLocalVariable m t h w = Inr (hr, i, h', w') \<Longrightarrow> empty_fat h \<Longrightarrow> empty_fat h'"
  by (auto simp: AddLocalVariable_def Let_def empty_fat_sig split: prod.splits if_splits)

lemma add_local_empty: "add_local info moduleId t (h, w) = Inr (i, h', w') \<Longrightarrow> empty_fat h \<Longrightarrow> empty_fat h'"
  by (auto simp: add_local_def dest: AddLocalVariable_empty)

lemma declare_interceptors_empty:
  "declare_interceptors info moduleId md ts (h, w) = Inr (Inr vars, h', w') \<Longrightarrow> empty_fat h \<Longrightarrow>
     empty_fat h' \<and> length vars = length ts"
proof (induction ts arbitrary: h w vars)
  case (Cons t ts)
  obtain hr ref w1 where d: "define_type md t w = (hr, ref, w1)" by (cases "define_type md t w") auto
  with Cons.prems(1) have "\<not> FAILED hr" by (auto split: if_splits)
  with d Cons.prems(1) obtain i h1 w2 r where s: "add_local info moduleId ref (h, w1) = Inr (i, h1, w2)"
    "declare_interceptors info moduleId md ts (h1, w2) = Inr (r, h', w')"
    "Inr vars = map_sum id ((#) \<lparr>TypeRef = ref, LocalVarIndex = i\<rparr>) r"
    by auto
  then obtain vs where r: "r = Inr vs" "vars = \<lparr>TypeRef = ref, LocalVarIndex = i\<rparr> # vs" by (cases r) auto
  from Cons.IH [OF s(2) [unfolded r(1)] add_local_empty [OF s(1) Cons.prems(2)]] r(2) show ?case by simp
qed simp

lemma declare_rest_empty:
  "declare_rest info moduleId md p target composed typeRef (h, w) = Inr (r, h', w') \<Longrightarrow> empty_fat h \<Longrightarrow> empty_fat h'"
  by (auto simp: declare_rest_def split: prod.splits if_splits dest!: add_local_empty)


section \<open>The generation\<close>

lemma argument_count_bound: "argument_count target < 2 ^ 8"
proof -
  have "unat (ucast b :: ULONG) < 2 ^ 8" for b :: BYTE
    using unsigned_less [of b] by simp
  then show ?thesis by (simp add: argument_count_def NumberOfArguments_def)
qed

text \<open>From the code to the installed body.\<close>

lemma interceptor_body:
  assumes h: "empty_fat h" and n: "length (ie_vars e) < 2 ^ 20"
    and alloc: "\<And>w n. pi_allocator info w moduleId n"
  shows "\<exists>pad. length pad < 4 \<and>
    bindO (emit_interceptor md e target retType tk vp (h, w)) (\<lambda>(helper, w).
      bindO (Export_method info moduleId token (h_rewriter helper) w) (\<lambda>(hr, _, w). f w)) =
    (case intercept_code md e target retType tk vp w of
       Inl fault \<Rightarrow> Inl fault
     | Inr (code, w) \<Rightarrow> f (snd (pi_SetILFunctionBody info moduleId token
         (fat_of (GetTkLocalVarSig (h_rewriter h)) (8 + stack_growth code) (code_bytes code) pad) w)))"
proof -
  have at: "helper_at h [] []" using h by (simp add: empty_fat_def)
  show ?thesis
  proof (cases "intercept_code md e target retType tk vp w")
    case (Inl fault)
    then show ?thesis using emits_withD(1) [OF interceptor_emits at Inl] by (intro exI [of _ "[]"]) simp
  next
    case (Inr r)
    then obtain code w' where c: "intercept_code md e target retType tk vp w = Inr (code, w')" by (cases r) simp
    obtain h' ps where e: "emit_interceptor md e target retType tk vp (h, w) = Inr (h', w')" "emitted h [] [] ps code h'"
      using emits_withD(2) [OF interceptor_emits at c] by blast
    let ?\<sigma> = "h_rewriter h'"
    have \<sigma>: "holds ?\<sigma> ps" "map (content_of (heap ?\<sigma>)) ps = map (\<lambda>(op, a). Some (op, 0, a)) code"
      "header_of ?\<sigma> = header_of (h_rewriter h)" "m_maxStack ?\<sigma> = 8 + stack_growth code"
      using e(2) h by (simp_all add: emitted_def helper_at_def empty_fat_def)
    have small: "next_addr ?\<sigma> \<le> 2 ^ 27"
    proof -
      have "next_addr ?\<sigma> \<le> next_addr (h_rewriter h) + (5 * length (ie_vars e) + 12 * argument_count target + 27)"
        by (rule takesD [OF interceptor_takes e(1)])
      moreover have "next_addr (h_rewriter h) = 2" using h by (simp add: empty_fat_def)
      moreover have "argument_count target < 2 ^ 8" by (rule argument_count_bound)
      ultimately show ?thesis using n by simp
    qed
    let ?api = "\<lparr>api_alloc = pi_allocator info w' moduleId,
        api_SetILFunctionBody = (\<lambda>body. fst (pi_SetILFunctionBody info moduleId token body w')), api_uninit = pi_uninit info\<rparr>"
    have fields: "m_nEH ?\<sigma> = 0" "m_pEH ?\<sigma> = []" "\<not> m_fGenerateTinyHeader ?\<sigma>" "m_flags ?\<sigma> = 2"
      "m_tkLocalVarSig ?\<sigma> = GetTkLocalVarSig (h_rewriter h)"
      using h \<sigma>(3) by (simp_all add: empty_fat_def header_of_def GetTkLocalVarSig_def)
    have mem: "AllocateILMemory ?api ?\<sigma> n" for n by (simp add: AllocateILMemory_def alloc)
    obtain pad \<sigma>' hr where x: "length pad < 4" "Export ?api ?\<sigma> = Inr (hr, Some (fat_of (GetTkLocalVarSig (h_rewriter h))
        (8 + stack_growth code) (code_bytes code) pad), \<sigma>')"
      using Export_linear_fat [OF \<sigma>(1,2) straightD [OF straight_intercept c] small fields(1-4) mem]
      unfolding \<sigma>(4) fields(5) Let_def by blast
    show ?thesis
      using x(1) by (intro exI [of _ pad]) (simp add: e(1) c Export_method_def x(2))
  qed
qed

text \<open>The generation after the type, the interfaces and the variables were declared.\<close>

lemma generated_body:
  assumes "pi_GetModuleMetaData info w moduleId = (hr, md)" and "SUCCEEDED hr"
    and "define_interceptor info md p target w = Inr ((mscorlibRef, baseDllRef, typeRef, token), retType, target', h1, w1)"
    and "define_interfaces md baseDllRef (configuration p) w1 = (Inr (interface, composed, finder_interface), w2)"
    and "declare_interceptors info moduleId md interceptions (h1, w2) = Inr (Inr vars, h2, w3)"
    and "declare_rest info moduleId md p target' composed typeRef (h2, w3) = Inr (Inr (index, finder), h3, w4)"
    and "\<And>w n. pi_allocator info w moduleId n" and "length interceptions < 2 ^ 20"
  shows "\<exists>pad. length pad < 4 \<and>
    GenerateInterceptMethod info moduleId target interceptions targetMdToken p w =
      (case intercept_code md \<lparr>ie_mscorlib = mscorlibRef, ie_interface = interface, ie_composed = composed,
              ie_finder_interface = finder_interface, ie_vars = vars, ie_composed_index = index, ie_finder = finder\<rparr>
            target' retType targetMdToken (pi_version_ptr info moduleId) w4 of
         Inl fault \<Rightarrow> Inl fault
       | Inr (code, w5) \<Rightarrow>
           Inr (S_OK, Some token, subscript_modules moduleId p,
             snd (pi_SetILFunctionBody info moduleId token
               (fat_of (GetTkLocalVarSig (h_rewriter h3)) (8 + stack_growth code) (code_bytes code) pad) w5)))"
proof -
  let ?e = "\<lparr>ie_mscorlib = mscorlibRef, ie_interface = interface, ie_composed = composed,
      ie_finder_interface = finder_interface, ie_vars = vars, ie_composed_index = index, ie_finder = finder\<rparr>"
  have "empty_fat h1" by (rule define_interceptor_empty [OF assms(3)])
  from declare_interceptors_empty [OF assms(5) this] have h2: "empty_fat h2" "length vars = length interceptions" by auto
  have h3: "empty_fat h3" by (rule declare_rest_empty [OF assms(6) h2(1)])
  have e: "GenerateInterceptMethod info moduleId target interceptions targetMdToken p w =
      bindO (emit_interceptor md ?e target' retType targetMdToken (pi_version_ptr info moduleId) (h3, w4)) (\<lambda>(helper, w).
        bindO (Export_method info moduleId token (h_rewriter helper) w) (\<lambda>(hr, _, w).
          Inr (S_OK, Some token, subscript_modules moduleId p, w)))"
    unfolding GenerateInterceptMethod_def assms(1) Let_def prod.case assms(3) bindO_simps assms(4) sum.case assms(5,6)
    using assms(2) by (simp add: emit_interceptor_def bindO_assoc)
  show ?thesis unfolding e
    by (rule interceptor_body [OF h3]) (use h2(2) assms(7,8) in simp_all)
qed

section \<open>The variables and their indices\<close>

text \<open>What a module's metadata promises of signatures: the token of a signature yields it, and goes on yielding it.\<close>

definition keeps_signatures :: "'w metadata \<Rightarrow> bool" where
  "keeps_signatures md \<longleftrightarrow>
     (\<forall>sig w. case md_GetTokenFromSig md sig w of ((hr, tk), w') \<Rightarrow>
        tk \<noteq> mdTokenNil \<and> md_GetSigFromToken md w' tk = (S_OK, sig)) \<and>
     (\<forall>t w tk sig. md_GetSigFromToken md w tk = (S_OK, sig) \<longrightarrow>
        md_GetSigFromToken md (snd (snd (define_type md t w))) tk = (S_OK, sig))"

lemma keeps_signatures_type:
  assumes "keeps_signatures md" and "md_GetSigFromToken md w tk = (S_OK, sig)" and "define_type md t w = (hr, ref, w')"
  shows "md_GetSigFromToken md w' tk = (S_OK, sig)"
proof -
  have "md_GetSigFromToken md (snd (snd (define_type md t w))) tk = (S_OK, sig)"
    using assms(1,2) unfolding keeps_signatures_def by blast
  then show ?thesis by (simp add: assms(3))
qed

definition class_variable :: "mdToken \<Rightarrow> BYTE list" where
  "class_variable t = ELEMENT_TYPE_CLASS # token_bytes t"

text \<open>The signature of a rewriter's variables is \<open>vars\<close>.\<close>

definition variables :: "'w metadata \<Rightarrow> BYTE list list \<Rightarrow> ILRewriterHelper \<times> 'w \<Rightarrow> bool" where
  "variables md vars = (\<lambda>(h, w). GetTkLocalVarSig (h_rewriter h) \<noteq> mdTokenNil \<and>
     md_GetSigFromToken md w (GetTkLocalVarSig (h_rewriter h)) = (S_OK, local_sig vars))"

lemma add_local_appends:
  assumes "\<And>w. pi_GetModuleMetaData info w moduleId = (S_OK, md)" and "variables md vars (h, w)" and "length vars < 0x1FFFFFFF"
    and "md_GetTokenFromSig md (local_sig (vars @ [class_variable t])) w = ((hr, tk), w')"
  shows "add_local info moduleId t (h, w) =
    Inr (word_of_nat (length vars), h\<lparr>h_rewriter := SetTkLocalVarSig (h_rewriter h) tk\<rparr>, w')"
  using assms added_local_signature_appends [of vars "Some (local_sig vars)" t]
  by (simp add: add_local_def AddLocalVariable_def variables_def class_variable_def)

lemma add_local_variables:
  assumes "\<And>w. pi_GetModuleMetaData info w moduleId = (S_OK, md)" and "keeps_signatures md"
    and "variables md vars (h, w)" and "length vars < 0x1FFFFFFF"
  shows "\<exists>h' w'. add_local info moduleId t (h, w) = Inr (word_of_nat (length vars), h', w') \<and>
    variables md (vars @ [class_variable t]) (h', w')"
proof -
  obtain hr tk w' where r: "md_GetTokenFromSig md (local_sig (vars @ [class_variable t])) w = ((hr, tk), w')"
    by (metis surj_pair)
  then have "tk \<noteq> mdTokenNil" "md_GetSigFromToken md w' tk = (S_OK, local_sig (vars @ [class_variable t]))"
    using assms(2) by (auto simp: keeps_signatures_def split: prod.splits)
  then show ?thesis
    using add_local_appends [OF assms(1,3,4) r] by (simp add: variables_def GetTkLocalVarSig_def SetTkLocalVarSig_def)
qed

text \<open>The loop over the interceptions declares one variable per interceptor: it completes, and unless a type reference
  is refused, the \<open>k\<close>-th interceptor's variable gets the next free index, and the local signature has grown by exactly
  one variable of that interceptor's class at that index.\<close>

theorem declare_interceptors_variables:
  assumes "\<And>w. pi_GetModuleMetaData info w moduleId = (S_OK, md)" and "keeps_signatures md"
    and "variables md vars (h, w)" and "length vars + length interceptions < 0x1FFFFFFF"
  shows "\<exists>r h' w'. declare_interceptors info moduleId md interceptions (h, w) = Inr (r, h', w') \<and>
    (\<forall>vs. r = Inr vs \<longrightarrow> length vs = length interceptions \<and>
       map LocalVarIndex vs = map word_of_nat [length vars..<length vars + length vs] \<and>
       variables md (vars @ map (\<lambda>v. class_variable (TypeRef v)) vs) (h', w'))"
  using assms(3,4)
proof (induction interceptions arbitrary: vars h w)
  case (Cons t ts)
  obtain hr ref w1 where d: "define_type md t w = (hr, ref, w1)" by (cases "define_type md t w") auto
  show ?case
  proof (cases "FAILED hr")
    case False
    have "variables md vars (h, w1)"
      using Cons.prems(1) keeps_signatures_type [OF assms(2) _ d] by (simp add: variables_def)
    moreover have "length vars < 0x1FFFFFFF" using Cons.prems(2) by simp
    ultimately obtain h2 w2 where a: "add_local info moduleId ref (h, w1) = Inr (word_of_nat (length vars), h2, w2)"
      "variables md (vars @ [class_variable ref]) (h2, w2)" using add_local_variables [OF assms(1,2), of vars h w1 ref] by blast
    have "length (vars @ [class_variable ref]) + length ts < 0x1FFFFFFF" using Cons.prems(2) by simp
    from Cons.IH [OF a(2) this] obtain r h' w' where i:
      "declare_interceptors info moduleId md ts (h2, w2) = Inr (r, h', w')"
      "\<And>vs. r = Inr vs \<Longrightarrow> length vs = length ts \<and>
         map LocalVarIndex vs = map word_of_nat [length (vars @ [class_variable ref])..<length (vars @ [class_variable ref]) + length vs] \<and>
         variables md ((vars @ [class_variable ref]) @ map (\<lambda>v. class_variable (TypeRef v)) vs) (h', w')" by blast
    have e: "declare_interceptors info moduleId md (t # ts) (h, w) =
        Inr (map_sum id ((#) \<lparr>TypeRef = ref, LocalVarIndex = word_of_nat (length vars)\<rparr>) r, h', w')"
      using False by (simp add: d a(1) i(1))
    show ?thesis
    proof (cases r)
      case (Inr vs)
      from i(2) [OF this] show ?thesis unfolding e Inr by (auto simp: upt_conv_Cons simp del: upt_Suc)
    qed (simp add: e del: declare_interceptors.simps)
  qed (simp add: d)
qed (simp add: variables_def)

text \<open>Metadata that remember the last signature.\<close>

definition one_signature :: "(BYTE list list) metadata" where
  "one_signature = example_metadata\<lparr>md_DefineAssemblyRef := (\<lambda>_ _ _ w. ((S_OK, 0x23000001), w)),
     md_DefineTypeRefByName := (\<lambda>_ _ w. ((S_OK, 0x01000002), w)),
     md_GetTokenFromSig := (\<lambda>sig w. ((S_OK, 0x11000001), [sig])), md_GetSigFromToken := (\<lambda>w tk. (S_OK, hd w))\<rparr>"

lemma declare_interceptors_variables_witness:
  "\<exists>r h' w'. declare_interceptors (example_info\<lparr>pi_GetModuleMetaData := \<lambda>_ _. (S_OK, one_signature)\<rparr>) 1 one_signature
     [ConfigTypeInfo_default, ConfigTypeInfo_default]
     (ILRewriterHelper_new (SetTkLocalVarSig (example_rewriter CEE_NOP) 0x11000001), [local_sig [[ELEMENT_TYPE_OBJECT]]]) = Inr (r, h', w')"
proof -
  let ?info = "example_info\<lparr>pi_GetModuleMetaData := \<lambda>_ _. (S_OK, one_signature)\<rparr>"
  let ?h = "ILRewriterHelper_new (SetTkLocalVarSig (example_rewriter CEE_NOP) 0x11000001)"
  have "pi_GetModuleMetaData ?info w 1 = (S_OK, one_signature)" for w by simp
  moreover have "keeps_signatures one_signature"
    by (simp add: keeps_signatures_def one_signature_def define_type_def GetWrapperRef_def CreateAssemblyRef_def token_of_def mdTokenNil_def
        split_beta)
  moreover have "variables one_signature [[ELEMENT_TYPE_OBJECT]] (?h, [local_sig [[ELEMENT_TYPE_OBJECT]]])"
    by (simp add: variables_def one_signature_def ILRewriterHelper_new_def GetTkLocalVarSig_def SetTkLocalVarSig_def mdTokenNil_def)
  moreover have "length [[ELEMENT_TYPE_OBJECT]] + length [ConfigTypeInfo_default, ConfigTypeInfo_default] < 0x1FFFFFFF" by simp
  ultimately show ?thesis
    using declare_interceptors_variables [of ?info 1 one_signature "[[ELEMENT_TYPE_OBJECT]]" ?h "[local_sig [[ELEMENT_TYPE_OBJECT]]]"
        "[ConfigTypeInfo_default, ConfigTypeInfo_default]"] by blast
qed

text \<open>C3: \<open>GenerateInterceptMethod\<close> generates exactly the code \<open>intercept_code\<close> describes, which is built from the tokens
  the runtime hands out and never from the list of instructions: once the type, the interfaces and the variables are
  declared, the generation ends in the fault the description ends in, or installs a fat body with that code, the local
  signature of the declared variables and a stack bound of 8 and what the code pushes, and answers \<open>S_OK\<close> whatever the
  installation answered.\<close>

theorem GenerateInterceptMethod_body:
  assumes "pi_GetModuleMetaData info w moduleId = (hr, md)" and "SUCCEEDED hr"
    and "define_interceptor info md p target w = Inr ((mscorlibRef, baseDllRef, typeRef, token), retType, target', h1, w1)"
    and "define_interfaces md baseDllRef (configuration p) w1 = (Inr (interface, composed, finder_interface), w2)"
    and "declare_interceptors info moduleId md interceptions (h1, w2) = Inr (Inr vars, h2, w3)"
    and "declare_rest info moduleId md p target' composed typeRef (h2, w3) = Inr (Inr (index, finder), h3, w4)"
    and "\<And>w n. pi_allocator info w moduleId n" and "length interceptions < 2 ^ 20"
  shows "\<exists>pad. length pad < 4 \<and>
    GenerateInterceptMethod info moduleId target interceptions targetMdToken p w =
      (case intercept_code md \<lparr>ie_mscorlib = mscorlibRef, ie_interface = interface, ie_composed = composed,
              ie_finder_interface = finder_interface, ie_vars = vars, ie_composed_index = index, ie_finder = finder\<rparr>
            target' retType targetMdToken (pi_version_ptr info moduleId) w4 of
         Inl fault \<Rightarrow> Inl fault
       | Inr (code, w5) \<Rightarrow>
           Inr (S_OK, Some token, subscript_modules moduleId p,
             snd (pi_SetILFunctionBody info moduleId token
               (fat_of (GetTkLocalVarSig (h_rewriter h3)) (8 + stack_growth code) (code_bytes code) pad) w5)))"
  by (rule generated_body [OF assms])

definition example_target :: FunctionInfo where
  "example_target = \<lparr>fi_Id = 0x0A000001, fi_Name = W ''F'', fi_Type = TypeInfo_named 0x01000002 (W ''T'') [],
     fi_Signature = \<lparr>argumentsOffset = 3, ms_Raw = [0, 0, 1],
       ms_ReturnType = TypeInfo 0 [] [1] [] False 1 True True False False 0, ms_Arguments = []\<rparr>,
     fi_FunctionSpecSignature = GenericMethodSignature_default, fi_MethodDefId = 0, fi_Attributes = []\<rparr>"

lemmas example_defs = example_metadata_def example_define_def token_of_def mdt_defs

lemma example_interceptor:
  "\<exists>h. define_interceptor example_info example_metadata CorProfiler_new example_target [] =
     Inr ((0x23000001, 0x23000002, 0x01000005, 0x06000008), ms_ReturnType (fi_Signature example_target), example_target, h,
       [[], [], [], [], [], [], [], [0, 0, 1], [7, 1, 28]]) \<and> GetTkLocalVarSig (h_rewriter h) = 0x11000009"
proof -
  have s: "interceptor_signature example_target = Inr ([0, 0, 1], ms_ReturnType (fi_Signature example_target), example_target)"
    by (simp add: interceptor_signature_def example_target_def ResolveParameterType_def IsInstanceMethod_def CallingConvention_def
        NumberOfArguments_def IsGeneric_def ParseArguments_def advance_def argument_count_def callconvs)
  let ?r = "SetTkLocalVarSig (InitializeTiny (CreateILRewriter example_info)) 0x11000009"
  obtain il where il: "load_instr ?r GetILList = Inr il" using fresh_helper by blast
  have "define_interceptor example_info example_metadata CorProfiler_new example_target [] =
     Inr ((0x23000001, 0x23000002, 0x01000005, 0x06000008), ms_ReturnType (fi_Signature example_target), example_target,
       SetILPosition (m_pNext il) (ILRewriterHelper_new ?r), [[], [], [], [], [], [], [], [0, 0, 1], [7, 1, 28]])"
    using il by (simp add: define_interceptor_def Let_def GetMsCorLibRef_def GetWrapperRef_def CreateAssemblyRef_def example_defs s
        callconvs element_types mdtMethodDef_def)
  then show ?thesis by (auto simp: SetILPosition_def ILRewriterHelper_new_def SetTkLocalVarSig_def GetTkLocalVarSig_def)
qed


lemma example_signatures:
  "local_sig [[ELEMENT_TYPE_OBJECT]] = [7, 1, 28]" "local_sig [[ELEMENT_TYPE_OBJECT], class_variable 0x0100000E] = [7, 2, 28, 18, 57]"
  "local_sig [[ELEMENT_TYPE_OBJECT], class_variable 0x0100000E, class_variable 0x0100000B] = [7, 3, 28, 18, 57, 18, 45]"
  "local_sig [[ELEMENT_TYPE_OBJECT], class_variable 0x0100000E, class_variable 0x0100000B, class_variable 0x01000005] =
     [7, 4, 28, 18, 57, 18, 45, 18, 21]"
  by (simp_all add: local_sig_def class_variable_def CorSigCompressData_def CorSigCompressToken_def Let_def RidFromToken_def
      TypeFromToken_def g_tkCorEncodeToken_def mdt_defs callconvs element_types)

lemma example_variable:
  assumes "GetTkLocalVarSig (h_rewriter h) = tk" "tk \<noteq> mdTokenNil" "w ! (unat (RidFromToken tk) - 1) = local_sig vars"
    "length vars < 0x1FFFFFFF" "local_sig (vars @ [class_variable t]) = sig" "0x11000000 OR (word_of_nat (length w) + 1) = tk'"
  shows "\<exists>h'. add_local example_info 1 t (h, w) = Inr (word_of_nat (length vars), h', w @ [sig]) \<and>
    GetTkLocalVarSig (h_rewriter h') = tk'"
proof -
  have "variables example_metadata vars (h, w)" using assms(1-3) by (simp add: variables_def example_metadata_def)
  moreover have "pi_GetModuleMetaData example_info w 1 = (S_OK, example_metadata)" for w by (simp add: example_info_def)
  moreover have "md_GetTokenFromSig example_metadata (local_sig (vars @ [class_variable t])) w = ((S_OK, tk'), w @ [sig])"
    using assms(5,6) by (simp add: example_metadata_def example_define_def)
  ultimately show ?thesis
    using add_local_appends [of example_info 1 example_metadata vars h w t S_OK tk' "w @ [sig]"] assms(4)
    by (simp add: GetTkLocalVarSig_def SetTkLocalVarSig_def)
qed

text \<open>A target without parameters has a description that ends in no fault, whatever the metadata answer.\<close>

definition never_faults :: "'w code_spec \<Rightarrow> bool" where
  "never_faults c \<longleftrightarrow> (\<forall>w. \<exists>code w'. c w = Inr (code, w'))"

lemma never_faults_rules:
  "never_faults no_code" "never_faults (just code)" "never_faults c \<Longrightarrow> never_faults d \<Longrightarrow> never_faults (if b then c else d)"
  by (auto simp: never_faults_def no_code_def just_def)

lemma never_faults_then: "never_faults c \<Longrightarrow> never_faults d \<Longrightarrow> never_faults (then_code c d)"
proof -
  assume c: "never_faults c" and d: "never_faults d"
  show "never_faults (then_code c d)"
    unfolding never_faults_def
  proof
    fix w
    obtain a w1 where "c w = Inr (a, w1)" using c unfolding never_faults_def by blast
    moreover obtain b w2 where "d w1 = Inr (b, w2)" using d unfolding never_faults_def by blast
    ultimately show "\<exists>code w'. then_code c d w = Inr (code, w')" by (simp add: then_code_def)
  qed
qed

lemma never_faults_ask: "(\<And>a. never_faults (d a)) \<Longrightarrow> never_faults (\<lambda>w. case q w of (a, w) \<Rightarrow> d a w)"
  unfolding never_faults_def by (auto split: prod.split)

lemma never_faults_known: "x = Inr a \<Longrightarrow> never_faults (d a) \<Longrightarrow> never_faults (\<lambda>w. bindO x (\<lambda>a. d a w))"
  unfolding never_faults_def by simp

lemma never_faults_fold: "(\<And>x. never_faults (c x)) \<Longrightarrow> never_faults (fold_code c xs)"
  by (induction xs) (simp_all add: never_faults_rules never_faults_then)

lemma never_faults_emitters:
  "never_faults (construct_code md t i)" "never_faults c \<Longrightarrow> never_faults (call_code md t i name sig c)"
  "never_faults (method_name_code md target)"
  unfolding construct_code_def call_code_def method_name_code_def
  by (auto intro!: never_faults_ask never_faults_then never_faults_rules) (simp_all add: never_faults_def split_beta)

lemma example_code: "never_faults (intercept_code md e example_target retType tk vp)"
proof -
  have n: "argument_count example_target = 0"
    by (simp add: argument_count_def example_target_def NumberOfArguments_def IsGeneric_def CallingConvention_def)
  have signature: "class_argument_signature t =
      Inr ([IMAGE_CEE_CS_CALLCONV_HASTHIS, 1, ELEMENT_TYPE_VOID, ELEMENT_TYPE_CLASS] @ token_bytes t)" for t
    by (simp add: class_argument_signature_def compressed_token)
  note rules = never_faults_then never_faults_fold never_faults_emitters never_faults_rules never_faults_ask
    never_faults_known [OF signature]
  have "never_faults (setup_code md e example_target tk vp)"
    unfolding setup_code_def Let_def by (intro rules) (auto intro!: rules split: option.split)
  moreover have "never_faults (parameters_code md e example_target)"
    unfolding parameters_code_def n by (simp add: rules)
  moreover have "never_faults (children_code md e)"
    unfolding children_code_def by (intro rules) (auto intro!: rules split: option.split)
  moreover have "never_faults (finish_code md e example_target retType)"
    unfolding finish_code_def n upt_0 fold_code_simps by (intro rules)
  ultimately show ?thesis unfolding intercept_code_def by (intro never_faults_then)
qed

lemma GenerateInterceptMethod_body_witness:
  "\<exists>p' w'. GenerateInterceptMethod example_info 1 example_target [ConfigTypeInfo_default] 0x0A000001 CorProfiler_new [] =
     Inr (S_OK, Some 0x06000008, p', w')"
proof -
  let ?w1 = "[[], [], [], [], [], [], [], [0, 0, 1], [7, 1, 28]] :: BYTE list list" and ?c = "[] :: BYTE list"
  let ?s1 = "[7, 2, 28, 18, 57] :: BYTE list" and ?s2 = "[7, 3, 28, 18, 57, 18, 45] :: BYTE list"
    and ?s3 = "[7, 4, 28, 18, 57, 18, 45, 18, 21] :: BYTE list"
  note eval = example_signatures RidFromToken_def mdTokenNil_def
  obtain h1 where d: "define_interceptor example_info example_metadata CorProfiler_new example_target [] =
     Inr ((0x23000001, 0x23000002, 0x01000005, 0x06000008), ms_ReturnType (fi_Signature example_target), example_target, h1, ?w1)"
    "GetTkLocalVarSig (h_rewriter h1) = 0x11000009" using example_interceptor by blast
  have i: "define_interfaces example_metadata 0x23000002 (configuration CorProfiler_new) ?w1 =
     (Inr (0x0100000A, 0x0100000B, 0x0100000C), ?w1 @ [?c, ?c, ?c])"
    by (simp add: define_interfaces_def example_defs)
  have t: "define_type example_metadata ConfigTypeInfo_default (?w1 @ [?c, ?c, ?c]) = (S_OK, 0x0100000E, ?w1 @ [?c, ?c, ?c, ?c, ?c])"
    by (simp add: define_type_def GetWrapperRef_def CreateAssemblyRef_def example_defs)
  obtain h2 where h2: "add_local example_info 1 0x0100000E (h1, ?w1 @ [?c, ?c, ?c, ?c, ?c]) = Inr (1, h2, (?w1 @ [?c, ?c, ?c, ?c, ?c]) @ [?s1])"
    "GetTkLocalVarSig (h_rewriter h2) = 0x1100000F"
    using example_variable [of h1 "0x11000009" "?w1 @ [?c, ?c, ?c, ?c, ?c]" "[[ELEMENT_TYPE_OBJECT]]" "0x0100000E" ?s1 "0x1100000F"] d(2)
    by (auto simp: eval)
  obtain h3 where h3: "add_local example_info 1 0x0100000B (h2, (?w1 @ [?c, ?c, ?c, ?c, ?c]) @ [?s1]) =
      Inr (2, h3, ((?w1 @ [?c, ?c, ?c, ?c, ?c]) @ [?s1]) @ [?s2])"
    "GetTkLocalVarSig (h_rewriter h3) = 0x11000010"
    using example_variable [of h2 "0x1100000F" "(?w1 @ [?c, ?c, ?c, ?c, ?c]) @ [?s1]"
        "[[ELEMENT_TYPE_OBJECT], class_variable 0x0100000E]" "0x0100000B" ?s2 "0x11000010"] h2(2)
    by (auto simp: eval)
  obtain h4 where h4: "add_local example_info 1 0x01000005 (h3, ((?w1 @ [?c, ?c, ?c, ?c, ?c]) @ [?s1]) @ [?s2]) =
      Inr (3, h4, (((?w1 @ [?c, ?c, ?c, ?c, ?c]) @ [?s1]) @ [?s2]) @ [?s3])"
    using example_variable [of h3 "0x11000010" "((?w1 @ [?c, ?c, ?c, ?c, ?c]) @ [?s1]) @ [?s2]"
        "[[ELEMENT_TYPE_OBJECT], class_variable 0x0100000E, class_variable 0x0100000B]" "0x01000005" ?s3 "0x11000011"] h3(2)
    by (auto simp: eval)
  have vars: "declare_interceptors example_info 1 example_metadata [ConfigTypeInfo_default] (h1, ?w1 @ [?c, ?c, ?c]) =
      Inr (Inr [\<lparr>TypeRef = 0x0100000E, LocalVarIndex = 1\<rparr>], h2, (?w1 @ [?c, ?c, ?c, ?c, ?c]) @ [?s1])"
    unfolding declare_interceptors.simps t prod.case h2(1) by simp
  have "FindMethodFinder CorProfiler_new example_target = (ConfigTypeInfo_default, False)"
    by (simp add: FindMethodFinder_def CorProfiler_new_def Configuration_default_def)
  then have rest: "declare_rest example_info 1 example_metadata CorProfiler_new example_target 0x0100000B 0x01000005
      (h2, (?w1 @ [?c, ?c, ?c, ?c, ?c]) @ [?s1]) =
      Inr (Inr (2, None), h4, (((?w1 @ [?c, ?c, ?c, ?c, ?c]) @ [?s1]) @ [?s2]) @ [?s3])"
    unfolding declare_rest_def h3(1) prod.case bindO_simps h4 by simp
  have m: "pi_GetModuleMetaData example_info [] 1 = (S_OK, example_metadata)" "SUCCEEDED S_OK" "pi_allocator example_info w 1 n" for w n
    by (simp_all add: example_info_def)
  have n: "length [ConfigTypeInfo_default] < 2 ^ 20" by simp
  let ?e = "\<lparr>ie_mscorlib = 0x23000001, ie_interface = 0x0100000A, ie_composed = 0x0100000B, ie_finder_interface = 0x0100000C,
      ie_vars = [\<lparr>TypeRef = 0x0100000E, LocalVarIndex = 1\<rparr>], ie_composed_index = 2, ie_finder = None\<rparr>"
  obtain code w5 where code: "intercept_code example_metadata ?e example_target (ms_ReturnType (fi_Signature example_target)) 0x0A000001
      (pi_version_ptr example_info 1) ((((?w1 @ [?c, ?c, ?c, ?c, ?c]) @ [?s1]) @ [?s2]) @ [?s3]) = Inr (code, w5)"
    using example_code [of example_metadata ?e "ms_ReturnType (fi_Signature example_target)" "0x0A000001" "pi_version_ptr example_info 1"]
    unfolding never_faults_def by blast
  show ?thesis
    using GenerateInterceptMethod_body [OF m(1,2) d(1) i vars rest m(3) n, of "0x0A000001"] unfolding code by auto
qed

end
