(* ===== verification/HelperTyping.thy ===== *)
theory HelperTyping
  imports InterceptorBody "HOL-Library.Sublist"
begin

text \<open>
  The helper as a machine over a rewriter's list: any sequence of its methods, used at positions of the list, completes and
  leaves a list that has the old instructions in their order and only instructions whose operand is of the kind the
  exporter reads for their opcode.
\<close>

section \<open>The methods as operations\<close>

datatype helper_op =
    AtPosition addr | OpStLocal "32 word" | OpCreateArray mdToken INT32 | OpDuplicate | OpLoadInt32 INT32 | OpLoadInt64 INT64
  | OpBeginLoadValueIntoArray INT32 | OpLoadArgument "16 word" | OpEndLoadValueIntoArray | OpCallMember mdToken bool
  | OpCast mdToken | OpLoadLocal "32 word" | OpLoadLocalAddress "32 word" | OpNewObject mdToken | OpPop | OpRet
  | OpLoadStr mdToken | OpBox mdToken | OpLoadInd BYTE | OpStInd BYTE | OpBrTrueS | OpBrFalseS | OpBrS | OpNop
  | OpLoadNull | OpCgtUn | OpThrow | OpUnboxAny mdToken

fun helper_exec :: "helper_op \<Rightarrow> ILRewriterHelper \<Rightarrow> ILRewriterHelper outcome" where
  "helper_exec (AtPosition p) = (\<lambda>h. Inr (SetILPosition p h))"
| "helper_exec (OpStLocal n) = (\<lambda>h. drop_result (StLocal n h))"
| "helper_exec (OpCreateArray tk n) = CreateArray tk n"
| "helper_exec OpDuplicate = Duplicate"
| "helper_exec (OpLoadInt32 v) = (\<lambda>h. drop_result (LoadInt32 v h))"
| "helper_exec (OpLoadInt64 v) = LoadInt64 v"
| "helper_exec (OpBeginLoadValueIntoArray i) = BeginLoadValueIntoArray i"
| "helper_exec (OpLoadArgument n) = LoadArgument n"
| "helper_exec OpEndLoadValueIntoArray = EndLoadValueIntoArray"
| "helper_exec (OpCallMember tk virt) = CallMember tk virt"
| "helper_exec (OpCast tk) = Cast tk"
| "helper_exec (OpLoadLocal n) = (\<lambda>h. drop_result (LoadLocal n h))"
| "helper_exec (OpLoadLocalAddress n) = LoadLocalAddress n"
| "helper_exec (OpNewObject tk) = NewObject tk"
| "helper_exec OpPop = Pop"
| "helper_exec OpRet = Ret"
| "helper_exec (OpLoadStr tk) = LoadStr tk"
| "helper_exec (OpBox tk) = Box tk"
| "helper_exec (OpLoadInd t) = LoadInd t"
| "helper_exec (OpStInd t) = StInd t"
| "helper_exec OpBrTrueS = (\<lambda>h. drop_result (BrTrueS h))"
| "helper_exec OpBrFalseS = (\<lambda>h. drop_result (BrFalseS h))"
| "helper_exec OpBrS = (\<lambda>h. drop_result (BrS h))"
| "helper_exec OpNop = (\<lambda>h. drop_result (Nop h))"
| "helper_exec OpLoadNull = (\<lambda>h. drop_result (LoadNull h))"
| "helper_exec OpCgtUn = (\<lambda>h. drop_result (CgtUn h))"
| "helper_exec OpThrow = (\<lambda>h. drop_result (Throw h))"
| "helper_exec (OpUnboxAny tk) = UnboxAny tk"

text \<open>The code each inserts.\<close>

fun helper_code :: "helper_op \<Rightarrow> il_code" where
  "helper_code (AtPosition p) = []"
| "helper_code (OpStLocal n) = [stloc n]"
| "helper_code (OpCreateArray tk n) = (if sint n > 0 then [ldc_i4 n] else []) @ [(CEE_NEWARR, m_Arg32 tk)]"
| "helper_code OpDuplicate = [plain CEE_DUP]"
| "helper_code (OpLoadInt32 v) = [ldc_i4 v]"
| "helper_code (OpLoadInt64 v) = [(CEE_LDC_I8, m_Arg64 v)]"
| "helper_code (OpBeginLoadValueIntoArray i) = [plain CEE_DUP, ldc_i4 i]"
| "helper_code (OpLoadArgument n) = [ldarg n]"
| "helper_code OpEndLoadValueIntoArray = [plain CEE_STELEM_REF]"
| "helper_code (OpCallMember tk virt) = [(if virt then CEE_CALLVIRT else CEE_CALL, m_Arg32 tk)]"
| "helper_code (OpCast tk) = [(CEE_CASTCLASS, m_Arg32 tk)]"
| "helper_code (OpLoadLocal n) = [ldloc n]"
| "helper_code (OpLoadLocalAddress n) = [ldloca n]"
| "helper_code (OpNewObject tk) = [(CEE_NEWOBJ, m_Arg32 tk)]"
| "helper_code OpPop = [plain CEE_POP]"
| "helper_code OpRet = [plain CEE_RET]"
| "helper_code (OpLoadStr tk) = [(CEE_LDSTR, m_Arg32 tk)]"
| "helper_code (OpBox tk) = [(CEE_BOX, m_Arg32 tk)]"
| "helper_code (OpLoadInd t) = (if ldind_opcode t > 0 then [plain (ldind_opcode t)] else [])"
| "helper_code (OpStInd t) = (if stind_opcode t > 0 then [plain (stind_opcode t)] else [])"
| "helper_code OpBrTrueS = [plain CEE_BRTRUE_S]"
| "helper_code OpBrFalseS = [plain CEE_BRFALSE_S]"
| "helper_code OpBrS = [plain CEE_BR_S]"
| "helper_code OpNop = [plain CEE_NOP]"
| "helper_code OpLoadNull = [plain CEE_LDNULL]"
| "helper_code OpCgtUn = [plain CEE_CGT_UN]"
| "helper_code OpThrow = [plain CEE_THROW]"
| "helper_code (OpUnboxAny tk) = []"

text \<open>A position is one of the instructions the list had, or its end; everything else needs one to be set.\<close>

fun is_position :: "helper_op \<Rightarrow> bool" where
  "is_position (AtPosition _) \<longleftrightarrow> True"
| "is_position _ \<longleftrightarrow> False"

definition helper_allowed :: "addr list \<Rightarrow> helper_op \<Rightarrow> ILRewriterHelper \<Rightarrow> bool" where
  "helper_allowed xs op h \<longleftrightarrow> (case op of AtPosition p \<Rightarrow> p \<in> set (IL # xs) | _ \<Rightarrow> h_instr h \<noteq> NULL)"

lemma op_emits: "\<not> is_position op \<Longrightarrow> emits (helper_exec op) (helper_code op)"
  by (cases op) (simp_all only: is_position.simps helper_exec.simps helper_code.simps emit_rules not_True_eq_False)

section \<open>Types\<close>

definition typed_code :: "il_code \<Rightarrow> bool" where
  "typed_code code \<longleftrightarrow> list_all (\<lambda>(op, a). op < CEE_COUNT \<and> arg_fits (flags_of op) a) code"

lemma typed_linear: "linear code \<Longrightarrow> typed_code code"
  by (auto simp: linear_def typed_code_def list_all_iff)

lemma typed_code_simps [simp]: "typed_code []" "typed_code (c @ d) \<longleftrightarrow> typed_code c \<and> typed_code d"
  by (simp_all add: typed_code_def)

lemma typed_code_Cons: "typed_code (i # j # c) \<longleftrightarrow> typed_code [i] \<and> typed_code (j # c)"
  by (auto simp: typed_code_def)

lemma typed_ldloca: "typed_code [ldloca n]"
  by (simp add: ldloca_def typed_code_def flags_of_def arg_fits_def)

lemma helper_code_typed: "typed_code (helper_code op)"
  using typed_linear [OF linear_ind(1)] typed_linear [OF linear_ind(2)]
  by (cases op) (auto simp: typed_code_Cons typed_ldloca optional_opcode_def typed_linear [OF linear_ldc]
     typed_linear [OF linear_locals(1)] typed_linear [OF linear_locals(2)] typed_linear [OF linear_locals(3)] ,
     simp_all add: typed_code_def plain_def flags_of_def arg_fits_def)


lemma typed_at_content:
  "typed_at h p \<longleftrightarrow> (\<exists>op off a. content_of h p = Some (op, off, a) \<and> op < CEE_COUNT \<and> arg_fits (flags_of op) a)"
  by (auto simp: typed_at_def content_of_def typed_instr_def)

section \<open>The machine\<close>

text \<open>What every operation keeps: a list that extends the one the helper began with, typed throughout.\<close>

definition extends_typed :: "ILRewriter \<Rightarrow> addr list \<Rightarrow> ILRewriterHelper \<Rightarrow> addr list \<Rightarrow> bool" where
  "extends_typed \<sigma> xs h ys \<longleftrightarrow>
     holds (h_rewriter h) ys \<and> subseq xs ys \<and> (\<forall>y \<in> set ys. typed_at (heap (h_rewriter h)) y) \<and>
     (\<forall>x \<in> set xs. content_of (heap (h_rewriter h)) x = content_of (heap \<sigma>) x) \<and>
     header_of (h_rewriter h) = header_of \<sigma>"

definition helper_inv :: "ILRewriter \<Rightarrow> addr list \<Rightarrow> ILRewriterHelper \<Rightarrow> bool" where
  "helper_inv \<sigma> xs h \<longleftrightarrow> (\<exists>ys. extends_typed \<sigma> xs h ys) \<and> (h_instr h = NULL \<or> h_instr h \<in> set (IL # xs))"

lemma position_splits:
  assumes "holds \<sigma> ys" and "p \<in> set (IL # ys)"
  obtains as bs where "ys = as @ bs" "p = hd (bs @ [IL])"
proof (cases "p = IL")
  case True
  then show ?thesis by (intro that [of ys "[]"]) simp_all
next
  case False
  then have "p \<in> set ys" using assms(2) by simp
  then obtain as bs where "ys = as @ p # bs" by (meson split_list)
  then show ?thesis by (intro that [of as "p # bs"]) simp_all
qed

lemma subseq_member: "subseq xs ys \<Longrightarrow> set xs \<subseteq> set ys"
  by (auto elim: list_emb_set)

lemma emitted_extends:
  assumes "extends_typed \<sigma> xs h (as @ bs)" and "emitted h as bs ps code h'" and "typed_code code"
  shows "extends_typed \<sigma> xs h' (as @ ps @ bs)"
proof -
  let ?c = "\<lambda>h. content_of (heap (h_rewriter h))"
  have keep: "?c h' a = ?c h a" if "a \<in> set (as @ bs)" for a
  proof -
    have "typed_at (heap (h_rewriter h)) a" using assms(1) that by (simp add: extends_typed_def)
    then have "a \<in> dom (heap (h_rewriter h))" by (auto simp: typed_at_def)
    then show ?thesis using assms(2) by (simp add: emitted_def)
  qed
  have sub: "subseq xs (as @ bs)" using assms(1) by (simp add: extends_typed_def)
  also have "subseq (as @ bs) (as @ ps @ bs)" by (intro list_emb_append_mono list_emb_append2 subseq_order.refl)
  finally have longer: "subseq xs (as @ ps @ bs)" .
  have old: "set xs \<subseteq> set (as @ bs)" using sub by (rule subseq_member)
  have new: "map (?c h') ps = map (\<lambda>(op, a). Some (op, 0, a)) code" using assms(2) by (simp add: emitted_def)
  have "typed_at (heap (h_rewriter h')) p" if "p \<in> set ps" for p
  proof -
    have "?c h' p \<in> set (map (\<lambda>(op, a). Some (op, 0, a)) code)" using that unfolding new [symmetric] by simp
    then show ?thesis using assms(3) by (auto simp: typed_at_content typed_code_def list_all_iff)
  qed
  moreover have "typed_at (heap (h_rewriter h')) a" if "a \<in> set (as @ bs)" for a
    using assms(1) that keep [OF that] by (simp add: extends_typed_def typed_at_content)
  ultimately have typed: "\<forall>y \<in> set (as @ ps @ bs). typed_at (heap (h_rewriter h')) y" by auto
  have "\<forall>x \<in> set xs. ?c h' x = content_of (heap \<sigma>) x"
    using assms(1) keep old by (auto simp: extends_typed_def)
  then show ?thesis using assms(1,2) longer typed by (simp add: extends_typed_def emitted_def helper_at_def)
qed

lemma helper_step:
  assumes "helper_inv \<sigma> xs h" and "helper_allowed xs op h"
  shows "\<exists>h'. helper_exec op h = Inr h' \<and> helper_inv \<sigma> xs h'"
proof (cases "is_position op")
  case True
  then obtain p where "op = AtPosition p" by (cases op) simp_all
  then show ?thesis using assms by (auto simp: helper_inv_def helper_allowed_def extends_typed_def SetILPosition_def)
next
  case False
  obtain ys where ys: "extends_typed \<sigma> xs h ys" "h_instr h = NULL \<or> h_instr h \<in> set (IL # xs)"
    using assms(1) by (auto simp: helper_inv_def)
  have "h_instr h \<noteq> NULL" using False assms(2) by (cases op) (simp_all add: helper_allowed_def)
  then have pos: "h_instr h \<in> set (IL # xs)" using ys(2) by simp
  moreover have "set xs \<subseteq> set ys" using ys(1) by (simp add: extends_typed_def subseq_member)
  ultimately have "h_instr h \<in> set (IL # ys)" by auto
  moreover have "holds (h_rewriter h) ys" using ys(1) by (simp add: extends_typed_def)
  ultimately obtain as bs where s: "ys = as @ bs" "h_instr h = hd (bs @ [IL])" using position_splits by blast
  then have "helper_at h as bs" using ys(1) by (simp add: helper_at_def extends_typed_def)
  with op_emits [OF False] obtain h' ps where h': "helper_exec op h = Inr h'" "emitted h as bs ps (helper_code op) h'"
    by (rule emitsE)
  have "extends_typed \<sigma> xs h' (as @ ps @ bs)" using ys(1) h'(2) helper_code_typed unfolding s by (rule emitted_extends)
  moreover have "h_instr h' = h_instr h" using h'(2) by (simp add: emitted_def)
  ultimately show ?thesis using h'(1) pos by (auto simp: helper_inv_def)
qed

interpretation helper: machine "\<lambda>h. h = ILRewriterHelper_new \<sigma> \<and> extends_typed \<sigma> xs h xs" "helper_allowed xs" helper_exec "helper_inv \<sigma> xs"
  for \<sigma> xs
proof unfold_locales
  show "helper_inv \<sigma> xs h" if "h = ILRewriterHelper_new \<sigma> \<and> extends_typed \<sigma> xs h xs" for h
    using that by (auto simp: helper_inv_def ILRewriterHelper_new_def)
  show "\<exists>h'. helper_exec op h = Inr h' \<and> helper_inv \<sigma> xs h'" if "helper_inv \<sigma> xs h" "helper_allowed xs op h" for h op
    using that by (rule helper_step)
qed

text \<open>C28: On a list of well-typed instructions any sequence of the helper's methods, used at positions of that list,
  completes without a fault and leaves a list in which the old instructions stand unchanged in their order and every
  instruction, old or new, has an opcode of the table and an operand of the kind and width its opcode is exported with.\<close>

theorem helper_keeps_typing:
  assumes "holds \<sigma> xs" and "\<forall>x \<in> set xs. typed_at (heap \<sigma>) x"
    and "allowed_run (helper_allowed xs) helper_exec ops (ILRewriterHelper_new \<sigma>)"
  shows "\<exists>h ys. foldO helper_exec ops (ILRewriterHelper_new \<sigma>) = Inr h \<and> holds (h_rewriter h) ys \<and> subseq xs ys \<and>
    (\<forall>x \<in> set xs. content_of (heap (h_rewriter h)) x = content_of (heap \<sigma>) x) \<and>
    (\<forall>y \<in> set ys. \<exists>op off arg. content_of (heap (h_rewriter h)) y = Some (op, off, arg) \<and> op < CEE_COUNT \<and>
       arg_fits (flags_of op) arg)"
proof -
  have "extends_typed \<sigma> xs (ILRewriterHelper_new \<sigma>) xs"
    using assms(1,2) by (simp add: extends_typed_def ILRewriterHelper_new_def)
  then have "helper_inv \<sigma> xs (ILRewriterHelper_new \<sigma>)" by (auto simp: helper_inv_def ILRewriterHelper_new_def)
  from helper.run_completes [OF this assms(3)] show ?thesis
    unfolding helper_inv_def extends_typed_def typed_at_content by blast
qed

text \<open>A local set to a long constant, a branch and a return, at the end of an empty list.\<close>

lemma helper_keeps_typing_witness:
  "let ops = [AtPosition IL, OpLoadInt32 1000, OpStLocal 300, OpBrS, OpRet];
       \<sigma> = CreateILRewriter example_info in
   \<exists>h ys. foldO helper_exec ops (ILRewriterHelper_new \<sigma>) = Inr h \<and> holds (h_rewriter h) ys \<and>
    (\<forall>y \<in> set ys. \<exists>op off arg. content_of (heap (h_rewriter h)) y = Some (op, off, arg) \<and> op < CEE_COUNT \<and>
       arg_fits (flags_of op) arg)"
proof -
  let ?\<sigma> = "CreateILRewriter example_info"
  let ?ops = "[AtPosition IL, OpLoadInt32 1000, OpStLocal 300, OpBrS, OpRet]"
  have "holds ?\<sigma> []"
    by (simp add: CreateILRewriter_def ILRewriter_new_def holds_def dll_def next_of_def prev_of_def IL_def)
  moreover have "allowed_run (helper_allowed []) helper_exec ?ops (ILRewriterHelper_new ?\<sigma>)" by code_simp
  ultimately show ?thesis using helper_keeps_typing [of ?\<sigma> "[]" ?ops] unfolding Let_def by auto
qed

end
