(* ===== verification/Jit.thy ===== *)
theory Jit
  imports InterceptorBody
begin

text \<open>
  Rewriting and compiling methods (\<open>CorProfiler::Rewrite\<close>, \<open>CorProfiler::JITCompilationStarted\<close>), and the callbacks of
  the profiler as the operations of a machine.
\<close>

unbundle bit_operations_syntax
section \<open>Rewriting a method\<close>

text \<open>The body of the loop over the instructions; the loop's own state is \<open>alreadyChanged\<close>, the profiler and the
  runtime. \<open>fuel\<close> bounds the recursion of \<open>GetFunctionInfo\<close>.\<close>

type_synonym 'w rewrite_state = "bool \<times> CorProfiler \<times> 'w"

definition rewrite_call ::
  "nat \<Rightarrow> ('w, 'a) profiler_info_scheme \<Rightarrow> ModuleID \<Rightarrow> 'w metadata \<Rightarrow> wstring \<Rightarrow> addr
    \<Rightarrow> 'w rewrite_state \<times> ILRewriter \<Rightarrow> ('w rewrite_state \<times> ILRewriter) outcome" where
  "rewrite_call fuel info moduleId metadataImport assembly_name pInstr = (\<lambda>((alreadyChanged, p, w), rewriter).
     bindO (load_instr rewriter pInstr) (\<lambda>i.
     if m_opcode i \<noteq> CEE_CALL \<and> m_opcode i \<noteq> CEE_CALLVIRT then Inr ((alreadyChanged, p, w), rewriter)
     else
       bindO (read_Arg32 i) (\<lambda>targetMdToken.
       bindO (GetFunctionInfo fuel metadataImport w targetMdToken) (\<lambda>target.
       let interceptions = FindInterceptions p assembly_name target in
       if interceptions = [] then Inr ((alreadyChanged, p, w), rewriter)
       else
         let helper = SetILPosition pInstr (ILRewriterHelper_new rewriter) in
         bindO (GenerateInterceptMethod info moduleId target interceptions targetMdToken p w)
           (\<lambda>(_, interceptorRef, p, w).
         case interceptorRef of
           None \<Rightarrow> Inl Indeterminate
         | Some token \<Rightarrow>
             bindO (CallMember token False helper) (\<lambda>helper.
             bindO (store_instr (h_rewriter helper) pInstr (\<lambda>i. i\<lparr>m_opcode := CEE_NOP\<rparr>)) (\<lambda>rewriter.
               Inr ((True, p, w), rewriter))))))))"

definition Rewrite ::
  "nat \<Rightarrow> ('w, 'a) profiler_info_scheme \<Rightarrow> ModuleID \<Rightarrow> mdToken \<Rightarrow> ILRewriter \<Rightarrow> bool \<Rightarrow> CorProfiler \<Rightarrow> 'w
    \<Rightarrow> (HRESULT \<times> ILRewriter \<times> CorProfiler \<times> 'w) outcome" where
  "Rewrite fuel info moduleId functionToken rewriter alreadyChanged p w =
     (let (hr, md) = pi_GetModuleMetaData info w moduleId in
      if FAILED hr then Inr (hr, rewriter, p, w)
      else
        bindO (GetModuleInfo info w moduleId) (\<lambda>moduleInfo.
        bindO (for_each_instr (rewrite_call fuel info moduleId md (as_name (mod_assembly moduleInfo)))
                 ((alreadyChanged, p, w), rewriter)) (\<lambda>((alreadyChanged, p, w), rewriter).
        if alreadyChanged then
          bindO (Export_method info moduleId functionToken rewriter w) (\<lambda>(hr, rewriter, w).
            if FAILED hr then Inr (hr, rewriter, p, w) else Inr (S_OK, rewriter, p, w))
        else Inr (S_OK, rewriter, p, w))))"

section \<open>Compiling a method\<close>

text \<open>Loading once into an application domain: the set is extended before anything is done, and the function is looked
  up for the log.\<close>

definition load_into_domain ::
  "nat \<Rightarrow> ('w, 'a) profiler_info_scheme \<Rightarrow> ModuleID \<Rightarrow> mdToken \<Rightarrow> AppDomainID \<Rightarrow> ILRewriter \<Rightarrow> CorProfiler \<Rightarrow> 'w
    \<Rightarrow> (HRESULT \<times> ILRewriter \<times> CorProfiler \<times> 'w) outcome" where
  "load_into_domain fuel info moduleId functionToken appDomainId rewriter p w =
     (let p = p\<lparr>loadedIntoAppDomains := List.insert appDomainId (loadedIntoAppDomains p)\<rparr>;
          (hr, metadataImport) = pi_GetModuleMetaData info w moduleId in
      if FAILED hr then Inr (hr, rewriter, p, w)
      else
        bindO (GetFunctionInfo fuel metadataImport w functionToken) (\<lambda>functionInfo.
        bindO (InjectLoadMethod info moduleId p rewriter w) (\<lambda>(hr, rewriter, w).
          Inr (hr, rewriter, p, w))))"

text \<open>An early return with a failure leaves the rewriter allocated.\<close>

definition JITCompilationStarted ::
  "nat \<Rightarrow> ('w, 'a) profiler_info_scheme \<Rightarrow> FunctionID \<Rightarrow> CorProfiler \<Rightarrow> 'w
    \<Rightarrow> (HRESULT \<times> CorProfiler \<times> 'w) outcome" where
  "JITCompilationStarted fuel info functionId p w =
     (if \<not> corProfilerInfo p then Inl NullDeref
      else case pi_GetFunctionInfo info w functionId of (hr, moduleId, functionToken) \<Rightarrow>
      if FAILED hr then Inr (hr, p, w)
      else
        bindO (GetModuleInfo info w moduleId) (\<lambda>moduleInfo.
        if SkipAssembly p (as_name (mod_assembly moduleInfo)) then Inr (S_OK, p, w)
        else if moduleId \<notin> set (enabledModules p) then Inr (S_OK, p, w)
        else
          bindO (Import_method info moduleId functionToken (CreateILRewriter info) w) (\<lambda>(hr, rewriter).
          if FAILED hr then Inr (hr, p, w)
          else
            let appDomainId = as_appDomainId (mod_assembly moduleInfo);
                new = appDomainId \<notin> set (loadedIntoAppDomains p) in
            bindO (if new then load_into_domain fuel info moduleId functionToken appDomainId rewriter p w
                   else Inr (S_OK, rewriter, p, w)) (\<lambda>(hr, rewriter, p, w).
            if FAILED hr then Inr (hr, p, w)
            else
              bindO (Rewrite fuel info moduleId functionToken rewriter new p w) (\<lambda>(result, rewriter, p, w).
              bindO (ILRewriter_delete rewriter) (\<lambda>_. Inr (result, p, w)))))))"

section \<open>The rewritten list\<close>

text \<open>Whether an instruction is a call that is intercepted: \<open>F\<close> tells what the metadata say of a token.\<close>

type_synonym instr_content = "OPCODE \<times> ULONG \<times> ILArg"

definition intercepted :: "(mdToken \<Rightarrow> FunctionInfo) \<Rightarrow> CorProfiler \<Rightarrow> wstring \<Rightarrow> instr_content option \<Rightarrow> bool" where
  "intercepted F p assembly_name c \<longleftrightarrow>
     (case c of
        Some (op, _, m_Arg32 token) \<Rightarrow>
          (op = CEE_CALL \<or> op = CEE_CALLVIRT) \<and> FindInterceptions p assembly_name (F token) \<noteq> []
      | _ \<Rightarrow> False)"

text \<open>The metadata resolves the operand of an instruction, if it is a call, to \<open>F\<close> of its token.\<close>

definition resolves :: "nat \<Rightarrow> 'w metadata \<Rightarrow> (mdToken \<Rightarrow> FunctionInfo) \<Rightarrow> instr_content option \<Rightarrow> bool" where
  "resolves fuel md F c \<longleftrightarrow>
     (case c of
        Some (op, _, arg) \<Rightarrow> op = CEE_CALL \<or> op = CEE_CALLVIRT \<longrightarrow>
          (case arg of m_Arg32 token \<Rightarrow> \<forall>w. GetFunctionInfo fuel md w token = Inr (F token) | _ \<Rightarrow> False)
      | None \<Rightarrow> True)"

text \<open>What rewriting makes of the contents of a list, from first to last. \<open>interceptor_of\<close> asks for the interceptor of an
  intercepted call: \<open>GenerateInterceptMethod\<close> for the function the metadata say its token names, with the interceptions
  found for it and the token of the call. The call of the token it returned is put in front, the old instruction becomes a
  no-operation with its operand and offset, and the next call meets the profiler and the runtime as the generation left
  them.\<close>

definition interceptor_of ::
  "('w, 'a) profiler_info_scheme \<Rightarrow> ModuleID \<Rightarrow> (mdToken \<Rightarrow> FunctionInfo) \<Rightarrow> wstring
    \<Rightarrow> CorProfiler \<times> 'w \<Rightarrow> instr_content option \<Rightarrow> (mdToken \<times> CorProfiler \<times> 'w) option" where
  "interceptor_of info moduleId F name s c =
     (case s of (p, w) \<Rightarrow>
      case c of
        Some (op, _, m_Arg32 token) \<Rightarrow>
          if (op = CEE_CALL \<or> op = CEE_CALLVIRT) \<and> FindInterceptions p name (F token) \<noteq> [] then
            (case GenerateInterceptMethod info moduleId (F token) (FindInterceptions p name (F token)) token p w of
               Inr (_, interceptorRef, p, w) \<Rightarrow> map_option (\<lambda>ref. (ref, p, w)) interceptorRef
             | Inl _ \<Rightarrow> None)
          else None
      | _ \<Rightarrow> None)"

fun rewriting ::
  "('s \<Rightarrow> instr_content option \<Rightarrow> (mdToken \<times> 's) option) \<Rightarrow> 's \<Rightarrow> instr_content option list \<Rightarrow> instr_content option list \<times> 's" where
  "rewriting g s [] = ([], s)"
| "rewriting g s (c # cs) =
     (case g s c of
        None \<Rightarrow> (case rewriting g s cs of (ds, s') \<Rightarrow> (c # ds, s'))
      | Some (token, s1) \<Rightarrow> (case rewriting g s1 cs of (ds, s') \<Rightarrow>
          (Some (CEE_CALL, 0, m_Arg32 token) # map_option (\<lambda>(_, off, arg). (CEE_NOP, off, arg)) c # ds, s')))"

lemma rewriting_Cons:
  "rewriting g s [c] = (ds, s1) \<Longrightarrow> rewriting g s1 cs = (ds', s') \<Longrightarrow> rewriting g s (c # cs) = (ds @ ds', s')"
  by (auto split: option.splits)

text \<open>The instruction in the old place. \<open>rewrote\<close> relates the objects of the list \<open>xs\<close> before to those of \<open>ys\<close> after: those of
  \<open>xs\<close> are the same objects in the same order, the others are calls, and nothing else of the rewriter has changed.\<close>

definition replaced :: "(instr_content option \<Rightarrow> bool) \<Rightarrow> instr_content option \<Rightarrow> instr_content option" where
  "replaced hit c = (if hit c then map_option (\<lambda>(_, off, arg). (CEE_NOP, off, arg)) c else c)"

definition rewrote :: "(instr_content option \<Rightarrow> bool) \<Rightarrow> ILRewriter \<Rightarrow> addr list \<Rightarrow> ILRewriter \<Rightarrow> addr list \<Rightarrow> bool" where
  "rewrote hit \<sigma> xs \<sigma>' ys \<longleftrightarrow>
     filter (\<lambda>a. a \<in> set xs) ys = xs \<and>
     (\<forall>q \<in> set xs. content_of (heap \<sigma>') q = replaced hit (content_of (heap \<sigma>) q)) \<and>
     (\<forall>y \<in> set ys - set xs. \<exists>token. content_of (heap \<sigma>') y = Some (CEE_CALL, 0, m_Arg32 token)) \<and>
     (\<forall>a \<in> dom (heap \<sigma>) - set xs. content_of (heap \<sigma>') a = content_of (heap \<sigma>) a) \<and>
     header_of \<sigma>' = header_of \<sigma> \<and> next_addr \<sigma>' \<le> next_addr \<sigma> + length xs"

lemma CallMember_emits: "emits (CallMember token False) [(CEE_CALL, m_Arg32 token)]"
  using emits_void_methods(4) [of token False] by simp

text \<open>The profiler's configuration and lists are not changed by an interceptor's generation.\<close>

definition same_lists :: "CorProfiler \<Rightarrow> CorProfiler \<Rightarrow> bool" where
  "same_lists p p' \<longleftrightarrow> loadedIntoAppDomains p' = loadedIntoAppDomains p \<and> enabledModules p' = enabledModules p \<and>
     configuration p' = configuration p \<and> corProfilerInfo p' = corProfilerInfo p \<and> dom (modules p) \<subseteq> dom (modules p')"

lemma same_lists_refl [simp]: "same_lists p p"
  by (simp add: same_lists_def)

lemma same_lists_trans: "same_lists p q \<Longrightarrow> same_lists q r \<Longrightarrow> same_lists p r"
  by (auto simp: same_lists_def)

lemma same_lists_subscript [simp]: "same_lists p (subscript_modules moduleId p)"
  by (auto simp: same_lists_def subscript_modules_def)

lemma GenerateInterceptMethod_lists:
  "GenerateInterceptMethod info moduleId target interceptions token p w = Inr (hr, tk, p', w') \<Longrightarrow> same_lists p p'"
  by (auto simp: GenerateInterceptMethod_def Let_def split_beta split: if_splits sum.splits)

lemma FindInterceptions_lists: "same_lists p p' \<Longrightarrow> FindInterceptions p' = FindInterceptions p"
  by (intro ext) (simp add: FindInterceptions_def same_lists_def)

text \<open>An interceptor is generated for each target that has interceptions.\<close>

definition generates ::
  "('w, 'a) profiler_info_scheme \<Rightarrow> ModuleID \<Rightarrow> (mdToken \<Rightarrow> FunctionInfo) \<Rightarrow> wstring \<Rightarrow> CorProfiler \<Rightarrow> bool" where
  "generates info moduleId F name p \<longleftrightarrow>
     (\<forall>p' w tk. same_lists p p' \<longrightarrow> FindInterceptions p name (F tk) \<noteq> [] \<longrightarrow>
        (\<exists>hr token r. GenerateInterceptMethod info moduleId (F tk) (FindInterceptions p name (F tk)) tk p' w = Inr (hr, Some token, r)))"

lemma generates_lists: "same_lists p p' \<Longrightarrow> generates info moduleId F name p \<Longrightarrow> generates info moduleId F name p'"
  unfolding generates_def by (auto simp: FindInterceptions_lists dest: same_lists_trans)

text \<open>One step of the loop, at the instruction \<open>q\<close>.\<close>

lemma rewrite_call_step:
  assumes h: "holds \<sigma> (as @ q # bs)"
    and F: "resolves fuel md F (content_of (heap \<sigma>) q)" and G: "generates info moduleId F name p"
  shows "\<exists>ch' p' w' \<sigma>' qs. rewrite_call fuel info moduleId md name q ((ch, p, w), \<sigma>) = Inr ((ch', p', w'), \<sigma>') \<and>
    holds \<sigma>' (as @ qs @ bs) \<and> same_lists p p' \<and> rewrote (intercepted F p name) \<sigma> [q] \<sigma>' qs \<and>
    rewriting (interceptor_of info moduleId F name) (p, w) [content_of (heap \<sigma>) q] = (map (content_of (heap \<sigma>')) qs, (p', w')) \<and>
    (ch' \<longleftrightarrow> ch \<or> intercepted F p name (content_of (heap \<sigma>) q)) \<and> last qs = q"
proof -
  obtain i where i: "heap \<sigma> q = Some i" by (rule holds_dom [OF h, of q]) simp
  have c: "content_of (heap \<sigma>) q = Some (m_opcode i, m_offset i, m_arg i)" by (simp add: content_of_def i)
  show ?thesis
  proof (cases "intercepted F p name (content_of (heap \<sigma>) q)")
    case False
    have "rewrite_call fuel info moduleId md name q ((ch, p, w), \<sigma>) = Inr ((ch, p, w), \<sigma>)"
      using False F i by (auto simp: rewrite_call_def c intercepted_def resolves_def Let_def split: if_splits ILArg.splits)
    moreover have "rewrote (intercepted F p name) \<sigma> [q] \<sigma> [q]" using False by (simp add: rewrote_def replaced_def)
    moreover have "interceptor_of info moduleId F name (p, w) (content_of (heap \<sigma>) q) = None"
      using False by (auto simp: c intercepted_def interceptor_of_def split: ILArg.splits)
    ultimately show ?thesis using h False
      by (intro exI [of _ ch] exI [of _ p] exI [of _ w] exI [of _ \<sigma>] exI [of _ "[q]"]) auto
  next
    case True
    then obtain token where t: "m_arg i = m_Arg32 token" "m_opcode i = CEE_CALL \<or> m_opcode i = CEE_CALLVIRT"
      "FindInterceptions p name (F token) \<noteq> []"
      by (auto simp: intercepted_def c split: ILArg.splits)
    then have F': "GetFunctionInfo fuel md w token = Inr (F token)" for w using F by (auto simp: resolves_def c)
    let ?h = "SetILPosition q (ILRewriterHelper_new \<sigma>)"
    obtain hr tk p1 w1 where g: "GenerateInterceptMethod info moduleId (F token) (FindInterceptions p name (F token)) token p w =
        Inr (hr, Some tk, p1, w1)" using G t(3) unfolding generates_def by (metis same_lists_refl surj_pair)
    have "helper_at ?h as (q # bs)" using h by (simp add: helper_at_def SetILPosition_def ILRewriterHelper_new_def)
    with CallMember_emits obtain h' qs where e: "CallMember tk False ?h = Inr h'"
      "emitted ?h as (q # bs) qs [(CEE_CALL, m_Arg32 tk)] h'" by (rule emitsE)
    let ?\<tau> = "h_rewriter h'"
    have \<tau>: "holds ?\<tau> (as @ qs @ q # bs)" "map (content_of (heap ?\<tau>)) qs = [Some (CEE_CALL, 0, m_Arg32 tk)]"
      "\<And>a. a \<in> dom (heap \<sigma>) \<Longrightarrow> content_of (heap ?\<tau>) a = content_of (heap \<sigma>) a" "header_of ?\<tau> = header_of \<sigma>"
      "set qs \<inter> dom (heap \<sigma>) = {}"
      using e(2) by (simp_all add: emitted_def helper_at_def SetILPosition_def ILRewriterHelper_new_def)
    then obtain x where x: "qs = [x]" "content_of (heap ?\<tau>) x = Some (CEE_CALL, 0, m_Arg32 tk)" by auto
    have "content_of (heap ?\<tau>) q = Some (m_opcode i, m_offset i, m_arg i)" using \<tau>(3) [of q] c i by auto
    then obtain j where j: "heap ?\<tau> q = Some j" "m_offset j = m_offset i" "m_arg j = m_arg i"
      by (auto simp: content_of_Some)
    let ?f = "\<lambda>i. i\<lparr>m_opcode := CEE_NOP\<rparr>"
    let ?\<sigma> = "?\<tau>\<lparr>heap := (heap ?\<tau>)(q \<mapsto> ?f j)\<rparr>"
    have run: "rewrite_call fuel info moduleId md name q ((ch, p, w), \<sigma>) = Inr ((True, p1, w1), ?\<sigma>)"
      using t i g e(1) j(1) by (auto simp: rewrite_call_def F' Let_def)
    have cont: "content_of (heap ?\<sigma>) = (content_of (heap ?\<tau>))(q \<mapsto> (CEE_NOP, m_offset i, m_arg i))"
      by (simp add: content_of_upd j)
    have "x \<noteq> q" using \<tau>(5) i x(1) by auto
    have "holds ?\<sigma> (as @ [x, q] @ bs)"
      by (rule store_content(2) [OF _ j(1)]) (use \<tau>(1) x(1) in simp_all)
    moreover have "interceptor_of info moduleId F name (p, w) (content_of (heap \<sigma>) q) = Some (tk, p1, w1)"
      using t g by (auto simp: c interceptor_of_def)
    then have "rewriting (interceptor_of info moduleId F name) (p, w) [content_of (heap \<sigma>) q] =
        (map (content_of (heap ?\<sigma>)) [x, q], (p1, w1))"
      using x(2) \<open>x \<noteq> q\<close> unfolding cont by (simp add: c)
    moreover have "same_lists p p1" by (rule GenerateInterceptMethod_lists [OF g])
    moreover have "rewrote (intercepted F p name) \<sigma> [q] ?\<sigma> [x, q]"
      unfolding rewrote_def list.map
    proof (intro conjI)
      show "\<forall>r \<in> set [q]. content_of (heap ?\<sigma>) r = replaced (intercepted F p name) (content_of (heap \<sigma>) r)"
        using True unfolding cont by (simp add: c replaced_def)
      show "\<forall>y \<in> set [x, q] - set [q]. \<exists>token. content_of (heap ?\<sigma>) y = Some (CEE_CALL, 0, m_Arg32 token)"
        using x(2) \<open>x \<noteq> q\<close> unfolding cont by auto
      show "\<forall>a \<in> dom (heap \<sigma>) - set [q]. content_of (heap ?\<sigma>) a = content_of (heap \<sigma>) a"
        using \<tau>(3) unfolding cont by simp
      show "header_of ?\<sigma> = header_of \<sigma>" using \<tau>(4) by (simp add: header_of_def)
      show "next_addr ?\<sigma> \<le> next_addr \<sigma> + length [q]"
        using emit_next [OF e(1) [unfolded CallMember_def if_False]] by (simp add: SetILPosition_def ILRewriterHelper_new_def)
    qed (use \<open>x \<noteq> q\<close> in simp)
    ultimately show ?thesis using run True
      by (intro exI [of _ True] exI [of _ p1] exI [of _ w1] exI [of _ ?\<sigma>] exI [of _ "[x, q]"]) simp
  qed
qed

lemma holds_content: "holds \<sigma> xs \<Longrightarrow> b \<in> set xs \<Longrightarrow> b \<in> dom (heap \<sigma>)"
  by (rule holds_dom [of \<sigma> xs b]) (simp_all add: domI)

text \<open>The rewriting of the first instruction, followed by that of the others.\<close>

lemma rewrote_Cons:
  assumes "rewrote hit \<sigma> [q] \<sigma>1 qs" and "rewrote hit \<sigma>1 bs \<sigma>' ys"
    and "holds \<sigma> (as @ q # bs)" and "holds \<sigma>1 (as @ qs @ bs)" and "holds \<sigma>' ((as @ qs) @ ys)"
  shows "rewrote hit \<sigma> (q # bs) \<sigma>' (qs @ ys)"
proof -
  note a = assms(1) [unfolded rewrote_def] and b = assms(2) [unfolded rewrote_def]
  have q: "q \<notin> set bs" using assms(3) by (auto simp: holds_def dll_def)
  have disj: "set qs \<inter> set bs = {}" "set qs \<inter> set ys = {}" using assms(4,5) by (auto simp: holds_def dll_def)
  have "filter (\<lambda>a. a \<in> set [q]) qs = [q]" using assms(1) unfolding rewrote_def by (elim conjE)
  then have "q \<in> set (filter (\<lambda>a. a \<in> set [q]) qs)" by simp
  then have qq: "q \<in> set qs" by simp
  have old: "content_of (heap \<sigma>1) x = content_of (heap \<sigma>) x" if "x \<in> set bs" for x
    using a q that holds_content [OF assms(3), of x] by auto
  have new: "content_of (heap \<sigma>') x = content_of (heap \<sigma>1) x" if "x \<in> set qs" for x
    using b disj(1) that holds_content [OF assms(4), of x] by auto
  have "filter (\<lambda>a. a \<in> set (q # bs)) (qs @ ys) = q # bs"
  proof -
    have "filter (\<lambda>a. a \<in> set (q # bs)) qs = filter (\<lambda>a. a \<in> set [q]) qs"
      using disj(1) by (intro filter_cong) auto
    moreover have "filter (\<lambda>a. a \<in> set (q # bs)) ys = filter (\<lambda>a. a \<in> set bs) ys"
      using disj(2) qq by (intro filter_cong) auto
    ultimately show ?thesis using a b by simp
  qed
  moreover have "\<forall>x \<in> set (q # bs). content_of (heap \<sigma>') x = replaced hit (content_of (heap \<sigma>) x)"
    using a b old new [OF qq] by auto
  moreover have "\<forall>y \<in> set (qs @ ys) - set (q # bs). \<exists>token. content_of (heap \<sigma>') y = Some (CEE_CALL, 0, m_Arg32 token)"
    using a b new by auto
  moreover have "\<forall>x \<in> dom (heap \<sigma>) - set (q # bs). content_of (heap \<sigma>') x = content_of (heap \<sigma>) x"
  proof
    fix x assume x: "x \<in> dom (heap \<sigma>) - set (q # bs)"
    then have "content_of (heap \<sigma>1) x = content_of (heap \<sigma>) x" using a by simp
    moreover from this have "x \<in> dom (heap \<sigma>1)" using x by (metis Diff_iff content_dom)
    ultimately show "content_of (heap \<sigma>') x = content_of (heap \<sigma>) x" using x b by simp
  qed
  moreover have "header_of \<sigma>' = header_of \<sigma>" "next_addr \<sigma>' \<le> next_addr \<sigma> + length (q # bs)" using a b by simp_all
  ultimately show ?thesis unfolding rewrote_def by (intro conjI)
qed

text \<open>The loop, from the instruction after \<open>as\<close> on.\<close>

lemma rewrite_loop:
  assumes "holds \<sigma> (as @ bs)" and "\<And>q. q \<in> set bs \<Longrightarrow> resolves fuel md F (content_of (heap \<sigma>) q)"
    and "generates info moduleId F name p" and "length bs < n"
  shows "\<exists>ch' p' w' \<sigma>' ys.
    for_instrs n (rewrite_call fuel info moduleId md name) (hd (bs @ [IL])) ((ch, p, w), \<sigma>) = Inr ((ch', p', w'), \<sigma>') \<and>
    holds \<sigma>' (as @ ys) \<and> same_lists p p' \<and> rewrote (intercepted F p name) \<sigma> bs \<sigma>' ys \<and>
    rewriting (interceptor_of info moduleId F name) (p, w) (map (content_of (heap \<sigma>)) bs) = (map (content_of (heap \<sigma>')) ys, (p', w')) \<and>
    (ch' \<longleftrightarrow> ch \<or> (\<exists>q \<in> set bs. intercepted F p name (content_of (heap \<sigma>) q)))"
  using assms
proof (induction bs arbitrary: n as ch p w \<sigma>)
  case Nil
  then obtain m where "n = Suc m" by (cases n) auto
  then show ?case using Nil.prems(1)
    by (intro exI [of _ ch] exI [of _ p] exI [of _ w] exI [of _ \<sigma>] exI [of _ "[]"]) (simp add: rewrote_def)
next
  case (Cons q bs)
  have "q \<noteq> IL" "q \<notin> set bs" using Cons.prems(1) by (auto simp: holds_def dll_def)
  obtain m where n: "n = Suc m" "length bs < m" using Cons.prems(4) by (cases n) auto
  from Cons.prems(2) have "resolves fuel md F (content_of (heap \<sigma>) q)" by simp
  from rewrite_call_step [OF Cons.prems(1) this Cons.prems(3), of ch w] obtain ch1 p1 w1 \<sigma>1 qs where
    s1: "rewrite_call fuel info moduleId md name q ((ch, p, w), \<sigma>) = Inr ((ch1, p1, w1), \<sigma>1)"
    and qs: "holds \<sigma>1 (as @ qs @ bs)" "same_lists p p1" "rewrote (intercepted F p name) \<sigma> [q] \<sigma>1 qs"
    "rewriting (interceptor_of info moduleId F name) (p, w) [content_of (heap \<sigma>) q] = (map (content_of (heap \<sigma>1)) qs, (p1, w1))"
    "ch1 \<longleftrightarrow> ch \<or> intercepted F p name (content_of (heap \<sigma>) q)" "last qs = q"
    by (elim exE conjE) (rule that)
  have "qs \<noteq> []" using qs(3) by (auto simp: rewrote_def)
  then have split: "qs = butlast qs @ [q]" using qs(6) by (metis append_butlast_last_id)
  have tail: "bs @ [IL] = hd (bs @ [IL]) # tl (bs @ [IL])" by simp
  have eq: "IL # (as @ qs @ bs) @ [IL] = (IL # as @ butlast qs) @ q # hd (bs @ [IL]) # tl (bs @ [IL])"
    by (subst split) (simp flip: tail)
  have "linked (heap \<sigma>1) (IL # (as @ qs @ bs) @ [IL])" using qs(1) unfolding holds_def dll_def by blast
  from linked_dom(1) [OF this [unfolded eq]] have "next_of (heap \<sigma>1) q = Some (hd (bs @ [IL]))" .
  then obtain i where i: "load_instr \<sigma>1 q = Inr i" "m_pNext i = hd (bs @ [IL])"
    by (auto simp: next_of_def load_instr_def split: option.splits)
  have bs: "content_of (heap \<sigma>1) b = content_of (heap \<sigma>) b" if "b \<in> set bs" for b
    using qs(3) that \<open>q \<notin> set bs\<close> holds_content [OF Cons.prems(1), of b] unfolding rewrote_def by auto
  have "holds \<sigma>1 ((as @ qs) @ bs)" using qs(1) by simp
  moreover have res: "resolves fuel md F (content_of (heap \<sigma>1) b)" if "b \<in> set bs" for b
    unfolding bs [OF that] using Cons.prems(2) that by simp
  moreover have "generates info moduleId F name p1" by (rule generates_lists [OF qs(2) Cons.prems(3)])
  ultimately have "\<exists>ch' p' w' \<sigma>' ys.
      for_instrs m (rewrite_call fuel info moduleId md name) (hd (bs @ [IL])) ((ch1, p1, w1), \<sigma>1) = Inr ((ch', p', w'), \<sigma>') \<and>
      holds \<sigma>' ((as @ qs) @ ys) \<and> same_lists p1 p' \<and> rewrote (intercepted F p1 name) \<sigma>1 bs \<sigma>' ys \<and>
      rewriting (interceptor_of info moduleId F name) (p1, w1) (map (content_of (heap \<sigma>1)) bs) = (map (content_of (heap \<sigma>')) ys, (p', w')) \<and>
      (ch' \<longleftrightarrow> ch1 \<or> (\<exists>q \<in> set bs. intercepted F p1 name (content_of (heap \<sigma>1) q)))"
    using n(2) by (intro Cons.IH)
  then obtain ch' p' w' \<sigma>' ys where
    l: "for_instrs m (rewrite_call fuel info moduleId md name) (hd (bs @ [IL])) ((ch1, p1, w1), \<sigma>1) = Inr ((ch', p', w'), \<sigma>')"
    and ys: "holds \<sigma>' ((as @ qs) @ ys)" "same_lists p1 p'" "rewrote (intercepted F p1 name) \<sigma>1 bs \<sigma>' ys"
    "rewriting (interceptor_of info moduleId F name) (p1, w1) (map (content_of (heap \<sigma>1)) bs) = (map (content_of (heap \<sigma>')) ys, (p', w'))"
    "ch' \<longleftrightarrow> ch1 \<or> (\<exists>q \<in> set bs. intercepted F p1 name (content_of (heap \<sigma>1) q))"
    by (elim exE conjE) (rule that)
  have run: "for_instrs n (rewrite_call fuel info moduleId md name) (hd ((q # bs) @ [IL])) ((ch, p, w), \<sigma>) = Inr ((ch', p', w'), \<sigma>')"
    using \<open>q \<noteq> IL\<close> by (simp add: n(1) s1 i l)
  have same: "intercepted F p1 name = intercepted F p name"
    unfolding intercepted_def [abs_def] FindInterceptions_lists [OF qs(2)] ..
  have "rewrote (intercepted F p name) \<sigma> (q # bs) \<sigma>' (qs @ ys)"
    by (rule rewrote_Cons [OF qs(3) ys(3) [unfolded same] Cons.prems(1) qs(1) ys(1)])
  moreover have "ch' \<longleftrightarrow> ch \<or> (\<exists>q \<in> set (q # bs). intercepted F p name (content_of (heap \<sigma>) q))"
    using ys(5) qs(5) bs by (auto simp: same)
  moreover have "rewriting (interceptor_of info moduleId F name) (p, w) (map (content_of (heap \<sigma>)) (q # bs)) =
      (map (content_of (heap \<sigma>')) (qs @ ys), (p', w'))"
  proof -
    have cs: "map (content_of (heap \<sigma>1)) bs = map (content_of (heap \<sigma>)) bs" using bs by simp
    have "set qs \<inter> set bs = {}" using qs(1) by (auto simp: holds_def dll_def)
    then have "\<forall>x \<in> set qs. x \<in> dom (heap \<sigma>1) - set bs" using holds_content [OF qs(1)] by auto
    moreover have "\<forall>x \<in> dom (heap \<sigma>1) - set bs. content_of (heap \<sigma>') x = content_of (heap \<sigma>1) x"
      using ys(3) unfolding rewrote_def by (elim conjE)
    ultimately have "map (content_of (heap \<sigma>')) qs = map (content_of (heap \<sigma>1)) qs" by simp
    then show ?thesis using rewriting_Cons [OF qs(4) ys(4)] by (simp only: list.map map_append cs)
  qed
  ultimately show ?case
    using run ys(1) same_lists_trans [OF qs(2) ys(2)]
    by (intro exI [of _ ch'] exI [of _ p'] exI [of _ w'] exI [of _ \<sigma>'] exI [of _ "qs @ ys"] conjI) simp_all
qed

section \<open>The rewriting of a method\<close>

lemma Rewrite_list:
  assumes "pi_GetModuleMetaData info w moduleId = (hr, md)" and "SUCCEEDED hr"
    and "GetModuleInfo info w moduleId = Inr m" and "holds \<sigma> xs"
    and "\<forall>q \<in> set xs. resolves fuel md F (content_of (heap \<sigma>) q)"
    and "generates info moduleId F (as_name (mod_assembly m)) p"
  shows "\<exists>changed p' w' \<sigma>' ys.
    Rewrite fuel info moduleId token \<sigma> alreadyChanged p w =
      (if changed then bindO (Export_method info moduleId token \<sigma>' w') (\<lambda>(hr, \<sigma>, w).
         Inr (if FAILED hr then hr else S_OK, \<sigma>, p', w))
       else Inr (S_OK, \<sigma>', p', w')) \<and>
    holds \<sigma>' ys \<and> same_lists p p' \<and>
    rewriting (interceptor_of info moduleId F (as_name (mod_assembly m))) (p, w) (map (content_of (heap \<sigma>)) xs) =
      (map (content_of (heap \<sigma>')) ys, (p', w')) \<and>
    (let hit = intercepted F p (as_name (mod_assembly m)) in
     rewrote hit \<sigma> xs \<sigma>' ys \<and> (changed \<longleftrightarrow> alreadyChanged \<or> (\<exists>q \<in> set xs. hit (content_of (heap \<sigma>) q))))"
proof -
  let ?body = "rewrite_call fuel info moduleId md (as_name (mod_assembly m))"
  let ?hit = "intercepted F p (as_name (mod_assembly m))"
  obtain i where i: "heap \<sigma> IL = Some i" by (rule holds_dom [OF assms(4), of IL]) simp
  have "linked (heap \<sigma>) (IL # xs @ [IL])" using assms(4) by (simp add: holds_def dll_def)
  then have "next_of (heap \<sigma>) IL = Some (hd (xs @ [IL]))" by (cases xs) auto
  then have nx: "m_pNext i = hd (xs @ [IL])" by (simp add: next_of_def i)
  have "length xs < next_addr \<sigma>" using holds_length [OF assms(4)] by simp
  from rewrite_loop [of \<sigma> "[]" xs fuel md F info moduleId, OF _ bspec [OF assms(5)] assms(6) this, of alreadyChanged w] assms(4)
  obtain ch' p' w' \<sigma>' ys where l: "for_instrs (next_addr \<sigma>) ?body (hd (xs @ [IL])) ((alreadyChanged, p, w), \<sigma>) = Inr ((ch', p', w'), \<sigma>')"
    and ys: "holds \<sigma>' ys" "same_lists p p'" "rewrote ?hit \<sigma> xs \<sigma>' ys"
    "rewriting (interceptor_of info moduleId F (as_name (mod_assembly m))) (p, w) (map (content_of (heap \<sigma>)) xs) =
      (map (content_of (heap \<sigma>')) ys, (p', w'))"
    "ch' \<longleftrightarrow> alreadyChanged \<or> (\<exists>q \<in> set xs. ?hit (content_of (heap \<sigma>) q))"
    by (auto simp del: for_instrs.simps)
  have "for_each_instr ?body ((alreadyChanged, p, w), \<sigma>) = Inr ((ch', p', w'), \<sigma>')"
    using l by (simp add: for_each_instr_def load_instr_def i nx del: for_instrs.simps)
  then have "Rewrite fuel info moduleId token \<sigma> alreadyChanged p w =
      (if ch' then bindO (Export_method info moduleId token \<sigma>' w') (\<lambda>(hr, \<sigma>, w).
         Inr (if FAILED hr then hr else S_OK, \<sigma>, p', w))
       else Inr (S_OK, \<sigma>', p', w'))"
    using assms(1,2,3) by (auto simp: Rewrite_def intro!: bindO_cong split: prod.splits)
  then show ?thesis using ys by (intro exI [of _ ch'] exI [of _ p'] exI [of _ w'] exI [of _ \<sigma>'] exI [of _ ys]) (simp add: Let_def)
qed

text \<open>C5: \<open>Rewrite\<close> runs over the instructions of the method once and ends, and the list it leaves is the one \<open>rewriting\<close>
  describes: in front of every intercepted call stands a call of the very method \<open>GenerateInterceptMethod\<close> returned for
  the function the call names, its interceptions and its token, asked in the order of the calls, and the call itself
  became a no-operation. Every old instruction is the same object, in the same order, and those that are not intercepted
  have the same content, so that a branch to an intercepted call now leads to the no-operation behind the interceptor's
  call. The method is exported exactly if a call was intercepted or the code was changed before, with the runtime as the
  last generation left it, and no exception clause or header member has changed. Assumed are that the runtime delivers the
  module's metadata and that they describe, the same through all states of the runtime, the function of every call
  (\<open>resolves\<close>), and that \<open>GenerateInterceptMethod\<close> returns a token for each function with interceptions
  (\<open>generates\<close>).\<close>

theorem Rewrite_calls:
  assumes "pi_GetModuleMetaData info w moduleId = (hr, md)" and "SUCCEEDED hr"
    and "GetModuleInfo info w moduleId = Inr m" and "holds \<sigma> xs"
    and "\<forall>q \<in> set xs. resolves fuel md F (content_of (heap \<sigma>) q)"
    and "generates info moduleId F (as_name (mod_assembly m)) p"
  shows "\<exists>changed p' w' \<sigma>' ys.
    Rewrite fuel info moduleId token \<sigma> alreadyChanged p w =
      (if changed then bindO (Export_method info moduleId token \<sigma>' w') (\<lambda>(hr, \<sigma>, w).
         Inr (if FAILED hr then hr else S_OK, \<sigma>, p', w))
       else Inr (S_OK, \<sigma>', p', w')) \<and>
    holds \<sigma>' ys \<and>
    rewriting (interceptor_of info moduleId F (as_name (mod_assembly m))) (p, w) (map (content_of (heap \<sigma>)) xs) =
      (map (content_of (heap \<sigma>')) ys, (p', w')) \<and>
    (let hit = intercepted F p (as_name (mod_assembly m)) in
     rewrote hit \<sigma> xs \<sigma>' ys \<and> (changed \<longleftrightarrow> alreadyChanged \<or> (\<exists>q \<in> set xs. hit (content_of (heap \<sigma>) q))))"
  using Rewrite_list [OF assms, of token alreadyChanged] by (elim exE conjE) (intro exI conjI)

section \<open>The callbacks\<close>

text \<open>The callbacks that look at none of their arguments and do nothing, in the order of the file.\<close>

datatype loading_callback = AppDomainCreationStarted | AppDomainCreationFinished | AppDomainShutdownStarted
  | AppDomainShutdownFinished | AssemblyLoadStarted | AssemblyLoadFinished | AssemblyUnloadStarted | AssemblyUnloadFinished
  | ModuleLoadStarted

datatype unloading_callback = ModuleUnloadStarted | ModuleUnloadFinished | ModuleAttachedToAssembly | ClassLoadStarted
  | ClassLoadFinished | ClassUnloadStarted | ClassUnloadFinished | FunctionUnloadStarted

datatype execution_callback = JITCompilationFinished | JITCachedFunctionSearchStarted | JITCachedFunctionSearchFinished
  | JITFunctionPitched | JITInlining | ThreadCreated | ThreadDestroyed | ThreadAssignedToOSThread
  | RemotingClientInvocationStarted | RemotingClientSendingMessage | RemotingClientReceivingReply
  | RemotingClientInvocationFinished | RemotingServerReceivingMessage | RemotingServerInvocationStarted
  | RemotingServerInvocationReturned | RemotingServerSendingReply | UnmanagedToManagedTransition | ManagedToUnmanagedTransition

datatype runtime_callback = RuntimeSuspendStarted | RuntimeSuspendFinished | RuntimeSuspendAborted | RuntimeResumeStarted
  | RuntimeResumeFinished | RuntimeThreadSuspended | RuntimeThreadResumed | MovedReferences | ObjectAllocated
  | ObjectsAllocatedByClass | ObjectReferences | RootReferences

datatype exception_callback = ExceptionThrown | ExceptionSearchFunctionEnter | ExceptionSearchFunctionLeave
  | ExceptionSearchFilterEnter | ExceptionSearchFilterLeave | ExceptionSearchCatcherFound | ExceptionOSHandlerEnter
  | ExceptionOSHandlerLeave | ExceptionUnwindFunctionEnter | ExceptionUnwindFunctionLeave | ExceptionUnwindFinallyEnter
  | ExceptionUnwindFinallyLeave | ExceptionCatcherEnter | ExceptionCatcherLeave

datatype later_callback = COMClassicVTableCreated | COMClassicVTableDestroyed | ExceptionCLRCatcherFound
  | ExceptionCLRCatcherExecute | ThreadNameChanged | GarbageCollectionStarted | SurvivingReferences
  | GarbageCollectionFinished | FinalizeableObjectQueued | RootReferences2 | HandleCreated | HandleDestroyed
  | InitializeForAttach | ProfilerAttachComplete | ProfilerDetachSucceeded | ReJITCompilationStarted | GetReJITParameters
  | ReJITCompilationFinished | ReJITError | MovedReferences2 | SurvivingReferences2
  | ConditionalWeakTableElementReferences | GetAssemblyReferences | ModuleInMemorySymbolsUpdated
  | DynamicMethodJITCompilationStarted | DynamicMethodJITCompilationFinished

text \<open>A call of the profiler by the runtime, with the arguments the profiler looks at; for \<open>Initialize\<close>, what its surroundings
  answer.\<close>

datatype callback =
    on_Initialize "HRESULT \<times> bool" "Configuration outcome"
  | on_Shutdown
  | on_ModuleLoadFinished ModuleID
  | on_JITCompilationStarted FunctionID
  | on_loading loading_callback
  | on_unloading unloading_callback
  | on_execution execution_callback
  | on_runtime runtime_callback
  | on_exception exception_callback
  | on_later later_callback

definition callback_exec ::
  "nat \<Rightarrow> ('w, 'a) profiler_info_scheme \<Rightarrow> callback \<Rightarrow> CorProfiler \<times> 'w \<Rightarrow> (HRESULT \<times> CorProfiler \<times> 'w) outcome" where
  "callback_exec fuel info c = (\<lambda>(p, w).
     case c of
       on_Initialize query load \<Rightarrow> Initialize info query load p w
     | on_Shutdown \<Rightarrow> (case Shutdown p of (hr, _, p) \<Rightarrow> Inr (hr, p, w))
     | on_ModuleLoadFinished moduleId \<Rightarrow> bindO (ModuleLoadFinished info moduleId p w) (\<lambda>(hr, p). Inr (hr, p, w))
     | on_JITCompilationStarted functionId \<Rightarrow> JITCompilationStarted fuel info functionId p w
     | on_loading _ \<Rightarrow> Inr (S_OK, p, w)
     | on_unloading _ \<Rightarrow> Inr (S_OK, p, w)
     | on_execution _ \<Rightarrow> Inr (S_OK, p, w)
     | on_runtime _ \<Rightarrow> Inr (S_OK, p, w)
     | on_exception _ \<Rightarrow> Inr (S_OK, p, w)
     | on_later _ \<Rightarrow> Inr (S_OK, p, w))"

text \<open>Between two calls the runtime may change its state: an operation of the machine is a call, followed by such a
  change.\<close>

definition exec_call ::
  "nat \<Rightarrow> ('w, 'a) profiler_info_scheme \<Rightarrow> callback \<times> ('w \<Rightarrow> 'w) \<Rightarrow> CorProfiler \<times> 'w \<Rightarrow> (CorProfiler \<times> 'w) outcome" where
  "exec_call fuel info = (\<lambda>(c, change) s. bindO (callback_exec fuel info c s) (\<lambda>(_, p, w). Inr (p, change w)))"

definition marked :: "AppDomainID set \<Rightarrow> ModuleID set \<Rightarrow> CorProfiler \<times> 'w \<Rightarrow> bool" where
  "marked D M = (\<lambda>(p, _). D \<subseteq> set (loadedIntoAppDomains p) \<and> M \<subseteq> set (enabledModules p))"

lemma marked_same: "same_lists p p' \<Longrightarrow> marked D M (p, w) \<Longrightarrow> marked D M (p', w')"
  by (simp add: marked_def same_lists_def)

text \<open>Whatever the rewriting of a method does, it leaves the lists of the profiler alone.\<close>

lemma rewrite_call_lists:
  "rewrite_call fuel info moduleId md name q ((ch, p, w), \<sigma>) = Inr ((ch', p', w'), \<sigma>') \<Longrightarrow> same_lists p p'"
  by (auto simp: rewrite_call_def Let_def split: if_splits option.splits dest!: GenerateInterceptMethod_lists)

lemma for_instrs_lists:
  "for_instrs n (rewrite_call fuel info moduleId md name) q ((ch, p, w), \<sigma>) = Inr ((ch', p', w'), \<sigma>') \<Longrightarrow> same_lists p p'"
proof (induction n arbitrary: q ch p w \<sigma>)
  case (Suc n)
  then show ?case by (auto split: if_splits dest: rewrite_call_lists intro: same_lists_trans)
qed simp

lemma Rewrite_lists:
  "Rewrite fuel info moduleId tk \<sigma> ch p w = Inr (hr, \<sigma>', p', w') \<Longrightarrow> same_lists p p'"
  by (auto simp: Rewrite_def for_each_instr_def split: prod.splits if_splits dest!: for_instrs_lists)

lemma load_into_domain_lists:
  "load_into_domain fuel info moduleId tk d \<sigma> p w = Inr (hr, \<sigma>', p', w') \<Longrightarrow>
     p' = p\<lparr>loadedIntoAppDomains := List.insert d (loadedIntoAppDomains p)\<rparr>"
  by (auto simp: load_into_domain_def Let_def split: prod.splits if_splits)

definition grows :: "CorProfiler \<Rightarrow> CorProfiler \<Rightarrow> bool" where
  "grows p p' \<longleftrightarrow> set (loadedIntoAppDomains p) \<subseteq> set (loadedIntoAppDomains p') \<and> set (enabledModules p) \<subseteq> set (enabledModules p')"

lemma grows_marked: "grows p p' \<Longrightarrow> marked D M (p, w) \<Longrightarrow> marked D M (p', w')"
  unfolding grows_def marked_def by (auto dest: subsetD)

lemma same_grows: "same_lists p p' \<Longrightarrow> grows p p'"
  by (simp add: same_lists_def grows_def)

lemma JIT_grows:
  assumes "JITCompilationStarted fuel info f p w = Inr (hr, p', w')"
  shows "grows p p'"
proof -
  obtain hr0 moduleId tk where f: "pi_GetFunctionInfo info w f = (hr0, moduleId, tk)" by (metis surj_pair)
  show ?thesis
    using assms
    by (auto simp: JITCompilationStarted_def f Let_def grows_def same_lists_def split: if_splits
        dest!: Rewrite_lists load_into_domain_lists)
qed

lemma callback_grows:
  assumes "callback_exec fuel info c (p, w) = Inr (hr, p', w')"
  shows "grows p p'"
proof (cases c)
  case (on_JITCompilationStarted f)
  then show ?thesis using assms by (auto simp: callback_exec_def dest: JIT_grows)
qed (use assms in \<open>auto simp: callback_exec_def Initialize_def Shutdown_def release_info_def ModuleLoadFinished_def Let_def
  split_beta grows_def split: if_splits\<close>)

interpretation callbacks: stable "exec_call fuel info" "marked D M" for fuel and info :: "('w, 'a) profiler_info_scheme" and D M
proof
  fix s and op :: "callback \<times> ('w \<Rightarrow> 'w)" and s'
  assume m: "marked D M s" and e: "exec_call fuel info op s = Inr s'"
  obtain p w c change where s: "s = (p, w)" "op = (c, change)" by (cases s; cases op) auto
  obtain hr p' w' where r: "callback_exec fuel info c (p, w) = Inr (hr, p', w')" "s' = (p', change w')"
    using e by (auto simp: exec_call_def s)
  show "marked D M s'" using grows_marked [OF callback_grows [OF r(1)]] m by (simp add: r(2) s)
qed

section \<open>Properties of the callbacks\<close>

text \<open>The runtime's answers on the way of \<open>JITCompilationStarted\<close> to the method's instructions.\<close>

definition reaches ::
  "('w, 'a) profiler_info_scheme \<Rightarrow> FunctionID \<Rightarrow> CorProfiler \<Rightarrow> 'w \<Rightarrow> ModuleID \<Rightarrow> mdToken \<Rightarrow> AppDomainID \<Rightarrow> ILRewriter \<Rightarrow> bool" where
  "reaches info f p w moduleId tk d \<sigma> \<longleftrightarrow>
     (case pi_GetFunctionInfo info w f of (hr, moduleId', tk') \<Rightarrow> SUCCEEDED hr \<and> moduleId' = moduleId \<and> tk' = tk) \<and>
     (case GetModuleInfo info w moduleId of Inl _ \<Rightarrow> False
      | Inr m \<Rightarrow> \<not> SkipAssembly p (as_name (mod_assembly m)) \<and> as_appDomainId (mod_assembly m) = d) \<and>
     corProfilerInfo p \<and> moduleId \<in> set (enabledModules p) \<and>
     (case Import_method info moduleId tk (CreateILRewriter info) w of Inl _ \<Rightarrow> False
      | Inr (hr, \<sigma>') \<Rightarrow> SUCCEEDED hr \<and> \<sigma>' = \<sigma>)"

lemma reaches_JIT:
  assumes "reaches info f p w moduleId tk d \<sigma>"
  shows "JITCompilationStarted fuel info f p w =
    bindO (if d \<notin> set (loadedIntoAppDomains p) then load_into_domain fuel info moduleId tk d \<sigma> p w else Inr (S_OK, \<sigma>, p, w))
      (\<lambda>(hr, rewriter, p', w). if FAILED hr then Inr (hr, p', w)
       else bindO (Rewrite fuel info moduleId tk rewriter (d \<notin> set (loadedIntoAppDomains p)) p' w) (\<lambda>(result, rewriter, p, w).
         bindO (ILRewriter_delete rewriter) (\<lambda>_. Inr (result, p, w))))"
  using assms by (auto simp: reaches_def JITCompilationStarted_def Let_def split: prod.splits sum.splits)

text \<open>C11: the white list of assemblies has no effect. A module whose metadata the runtime delivers is added to
  \<open>enabledModules\<close> when its load is reported although the configuration's \<open>EnabledAssemblies\<close> do not list its assembly,
  because \<open>ModuleLoadFinished\<close> adds it before it looks at the list; it stays there through every further sequence of
  callbacks, and the test of \<open>JITCompilationStarted\<close> that a comment calls "white listed" lets every method of the module
  through: one whose assembly is not skipped and whose body can be imported reaches the rewriting.\<close>

theorem loaded_module_stays_enabled:
  assumes "GetModuleInfo info w moduleId = Inr m" and "as_name (mod_assembly m) \<notin> set (EnabledAssemblies (configuration p))"
    and "SUCCEEDED (fst (pi_GetModuleMetaData info w moduleId))" and "corProfilerInfo p"
  shows "\<exists>p1. callback_exec fuel info (on_ModuleLoadFinished moduleId) (p, w) = Inr (S_OK, p1, w) \<and>
    (\<forall>calls p2 w2. foldO (exec_call fuel info) calls (p1, w) = Inr (p2, w2) \<longrightarrow>
       moduleId \<in> set (enabledModules p2) \<and>
       (\<forall>f tk hr m2 \<sigma>. pi_GetFunctionInfo info w2 f = (S_OK, moduleId, tk) \<and> corProfilerInfo p2 \<and>
          GetModuleInfo info w2 moduleId = Inr m2 \<and> \<not> SkipAssembly p2 (as_name (mod_assembly m2)) \<and>
          Import_method info moduleId tk (CreateILRewriter info) w2 = Inr (hr, \<sigma>) \<and> SUCCEEDED hr \<longrightarrow>
          reaches info f p2 w2 moduleId tk (as_appDomainId (mod_assembly m2)) \<sigma>))"
proof -
  obtain p1 where r: "callback_exec fuel info (on_ModuleLoadFinished moduleId) (p, w) = Inr (S_OK, p1, w)"
    "moduleId \<in> set (enabledModules p1)"
    using assms by (auto simp: callback_exec_def ModuleLoadFinished_def Let_def split_beta)
  have "moduleId \<in> set (enabledModules p2)" if "foldO (exec_call fuel info) calls (p1, w) = Inr (p2, w2)" for calls p2 w2
    using callbacks.run_stable [OF _ that, of "{}" "{moduleId}"] r(2) by (simp add: marked_def)
  then show ?thesis using r(1) by (intro exI [of _ p1]) (auto simp: reaches_def)
qed

text \<open>C7: the interceptors' assemblies are loaded into an application domain at most once. When a method of the domain has
  been compiled and got as far as its instructions, then, whatever the load answered and whatever callbacks came in
  between, the compilation of every further method of that domain only rewrites its calls; no load method is generated
  or called any more.\<close>

theorem loads_once_per_domain:
  assumes "reaches info f p w moduleId tk d \<sigma>" and "JITCompilationStarted fuel info f p w = Inr (hr, p1, w1)"
    and "foldO (exec_call fuel info) calls (p1, w1) = Inr (p2, w2)"
    and "reaches info g p2 w2 moduleId' tk' d \<sigma>'"
  shows "JITCompilationStarted fuel info g p2 w2 =
    bindO (Rewrite fuel info moduleId' tk' \<sigma>' False p2 w2) (\<lambda>(result, rewriter, p, w).
      bindO (ILRewriter_delete rewriter) (\<lambda>_. Inr (result, p, w)))"
proof -
  have "d \<in> set (loadedIntoAppDomains p1)"
    using assms(2) unfolding reaches_JIT [OF assms(1)]
    by (auto split: if_splits dest!: load_into_domain_lists Rewrite_lists simp: same_lists_def)
  then have "marked {d} {} (p1, w1)" by (simp add: marked_def)
  from callbacks.run_stable [OF this assms(3)] have "d \<in> set (loadedIntoAppDomains p2)" by (simp add: marked_def)
  then show ?thesis unfolding reaches_JIT [OF assms(4)] by simp
qed

section \<open>Examples\<close>

text \<open>A module whose metadata answer the same whatever was defined: every member reference is the function \<open>example_target\<close>,
  and the configuration intercepts it.\<close>

definition one_scope :: "(BYTE list list) metadata" where
  "one_scope = one_signature\<lparr>md_GetMemberRefProps := (\<lambda>w tk. (S_OK, 0x01000002, ([0x46, 0], 2), [0, 0, 1])),
     md_GetTypeRefProps := (\<lambda>w tk. (S_OK, ([0x54, 0], 2)))\<rparr>"

definition one_info :: "(BYTE list list) profiler_info" where
  "one_info = example_info\<lparr>pi_GetModuleMetaData := (\<lambda>_ _. (S_OK, one_scope))\<rparr>"

definition one_profiler :: CorProfiler where
  "one_profiler = CorProfiler_new\<lparr>configuration := Configuration_default\<lparr>StrictInterceptions :=
     [StrictInterception_default\<lparr>si_Target := TargetMethod_default\<lparr>tm_TypeName := W ''T'', tm_MethodName := W ''F''\<rparr>\<rparr>]\<rparr>\<rparr>"

lemma one_scope_target: "GetFunctionInfo 6 one_scope w 0x0A000001 = Inr example_target"
proof -
  have s: "MethodSignature_raw [0, 0, 1] = Inr \<lparr>argumentsOffset = 3, ms_Raw = [0, 0, 1],
      ms_ReturnType = TypeInfo 0 [] [1] [] False 1 True True False False 0, ms_Arguments = []\<rparr>" by code_simp
  have nm: "ToString [0x46, 0] 2 = Inr (W ''F'')" "ToString [0x54, 0] 2 = Inr (W ''T'')" by code_simp+
  have "GetFunctionInfo (Suc (Suc n)) one_scope w 0x0A000001 = Inr example_target" for n
    by (simp add: one_scope_def one_signature_def example_metadata_def TypeFromToken_def mdt_defs mdtMethodDef_def mdtMemberRef_def mdtMethodSpec_def
        s nm ExtractAttributes_def named_type_def example_target_def FunctionInfo_default_def)
  from this [of 4] show ?thesis by simp
qed

lemma one_profiler_finds: "FindInterceptions one_profiler name example_target = [ConfigTypeInfo_default]"
  by (simp add: FindInterceptions_def one_profiler_def CorProfiler_new_def Configuration_default_def StrictInterception_default_def
      TargetMethod_default_def target_matches_def example_target_def TypeInfo_named_def NumberOfArguments_def IsGeneric_def
      CallingConvention_def)

lemma one_interceptor:
  "\<exists>h token. define_interceptor one_info one_scope p example_target w =
     Inr ((0x23000001, 0x23000001, 0x01000002, token), ms_ReturnType (fi_Signature example_target), example_target, h,
       [local_sig [[ELEMENT_TYPE_OBJECT]]]) \<and> GetTkLocalVarSig (h_rewriter h) = 0x11000001"
proof -
  have s: "interceptor_signature example_target = Inr ([0, 0, 1], ms_ReturnType (fi_Signature example_target), example_target)"
    by (simp add: interceptor_signature_def example_target_def ResolveParameterType_def IsInstanceMethod_def CallingConvention_def
        NumberOfArguments_def IsGeneric_def ParseArguments_def advance_def argument_count_def callconvs)
  let ?r = "SetTkLocalVarSig (InitializeTiny (CreateILRewriter one_info)) 0x11000001"
  obtain il where il: "load_instr ?r GetILList = Inr il" using fresh_helper by blast
  have sig: "local_sig [[28]] = [7, 1, 28]" by (simp add: local_sig_def CorSigCompressData_def callconvs)
  show ?thesis
    using il by (auto simp: sig define_interceptor_def Let_def GetMsCorLibRef_def GetWrapperRef_def CreateAssemblyRef_def one_scope_def
        one_signature_def example_defs s SetILPosition_def ILRewriterHelper_new_def SetTkLocalVarSig_def
        GetTkLocalVarSig_def callconvs element_types)
qed

lemma one_variable:
  assumes "GetTkLocalVarSig (h_rewriter h) = 0x11000001" "length vars < 0x1FFFFFFF"
  shows "\<exists>h'. add_local one_info 1 t (h, [local_sig vars]) = Inr (word_of_nat (length vars), h', [local_sig (vars @ [class_variable t])]) \<and>
    GetTkLocalVarSig (h_rewriter h') = 0x11000001"
proof -
  have "variables one_scope vars (h, [local_sig vars])"
    using assms(1) by (simp add: variables_def one_scope_def one_signature_def mdTokenNil_def)
  moreover have "pi_GetModuleMetaData one_info w 1 = (S_OK, one_scope)" for w by (simp add: one_info_def)
  moreover have "md_GetTokenFromSig one_scope (local_sig (vars @ [class_variable t])) [local_sig vars] =
      ((S_OK, 0x11000001), [local_sig (vars @ [class_variable t])])" by (simp add: one_scope_def one_signature_def)
  ultimately show ?thesis
    using add_local_appends [of one_info 1 one_scope vars h "[local_sig vars]" t S_OK "0x11000001"] assms(2)
    by (simp add: GetTkLocalVarSig_def SetTkLocalVarSig_def)
qed

lemma one_interceptor_generated:
  assumes same: "configuration p' = configuration one_profiler"
  shows "\<exists>hr token r. GenerateInterceptMethod one_info 1 example_target [ConfigTypeInfo_default] tk p' w = Inr (hr, Some token, r)"
proof -
  let ?vars = "[[ELEMENT_TYPE_OBJECT]]" and ?v = "class_variable 0x01000002"
  obtain h1 token where d: "define_interceptor one_info one_scope p' example_target w =
     Inr ((0x23000001, 0x23000001, 0x01000002, token), ms_ReturnType (fi_Signature example_target), example_target, h1, [local_sig ?vars])"
    "GetTkLocalVarSig (h_rewriter h1) = 0x11000001" using one_interceptor by blast
  have i: "define_interfaces one_scope 0x23000001 (configuration p') [local_sig ?vars] =
      (Inr (0x01000002, 0x01000002, 0x01000002), [local_sig ?vars])"
    by (simp add: define_interfaces_def one_scope_def one_signature_def)
  have t: "define_type one_scope ConfigTypeInfo_default [local_sig ?vars] = (S_OK, 0x01000002, [local_sig ?vars])"
    by (simp add: define_type_def GetWrapperRef_def CreateAssemblyRef_def one_scope_def one_signature_def token_of_def)
  obtain h2 where h2: "add_local one_info 1 0x01000002 (h1, [local_sig ?vars]) = Inr (1, h2, [local_sig (?vars @ [?v])])"
    "GetTkLocalVarSig (h_rewriter h2) = 0x11000001" using one_variable [OF d(2), of ?vars] by auto
  obtain h3 where h3: "add_local one_info 1 0x01000002 (h2, [local_sig (?vars @ [?v])]) = Inr (2, h3, [local_sig (?vars @ [?v, ?v])])"
    "GetTkLocalVarSig (h_rewriter h3) = 0x11000001" using one_variable [OF h2(2), of "?vars @ [?v]"] by auto
  obtain h4 where h4: "add_local one_info 1 0x01000002 (h3, [local_sig (?vars @ [?v, ?v])]) = Inr (3, h4, [local_sig (?vars @ [?v, ?v, ?v])])"
    using one_variable [OF h3(2), of "?vars @ [?v, ?v]"] by auto
  have vars: "declare_interceptors one_info 1 one_scope [ConfigTypeInfo_default] (h1, [local_sig ?vars]) =
      Inr (Inr [\<lparr>TypeRef = 0x01000002, LocalVarIndex = 1\<rparr>], h2, [local_sig (?vars @ [?v])])"
    unfolding declare_interceptors.simps t prod.case h2(1) by simp
  have "FindMethodFinder p' example_target = (ConfigTypeInfo_default, False)"
    using same by (simp add: FindMethodFinder_def one_profiler_def CorProfiler_new_def Configuration_default_def)
  then have rest: "declare_rest one_info 1 one_scope p' example_target 0x01000002 0x01000002 (h2, [local_sig (?vars @ [?v])]) =
      Inr (Inr (2, None), h4, [local_sig (?vars @ [?v, ?v, ?v])])"
    unfolding declare_rest_def h3(1) prod.case bindO_simps h4 by simp
  have m: "pi_GetModuleMetaData one_info w 1 = (S_OK, one_scope)" "SUCCEEDED S_OK" "pi_allocator one_info w 1 n" for w n
    by (simp_all add: one_info_def example_info_def)
  have n: "length [ConfigTypeInfo_default] < 2 ^ 20" by simp
  let ?e = "\<lparr>ie_mscorlib = 0x23000001, ie_interface = 0x01000002, ie_composed = 0x01000002, ie_finder_interface = 0x01000002,
      ie_vars = [\<lparr>TypeRef = 0x01000002, LocalVarIndex = 1\<rparr>], ie_composed_index = 2, ie_finder = None\<rparr>"
  obtain code w5 where code: "intercept_code one_scope ?e example_target (ms_ReturnType (fi_Signature example_target)) tk
      (pi_version_ptr one_info 1) [local_sig (?vars @ [?v, ?v, ?v])] = Inr (code, w5)"
    using example_code [of one_scope ?e "ms_ReturnType (fi_Signature example_target)" tk "pi_version_ptr one_info 1"]
    unfolding never_faults_def by blast
  show ?thesis using generated_body [OF m(1,2) d(1) i vars rest m(3) n, of tk] unfolding code by auto
qed

lemma one_generates: "generates one_info 1 (\<lambda>_. example_target) name one_profiler"
  unfolding generates_def one_profiler_finds using one_interceptor_generated by (auto simp: same_lists_def)

text \<open>A list with the call of \<open>F\<close> and a return.\<close>

definition one_list :: ILRewriter where
  "one_list = (example_export True)\<lparr>heap := (heap (example_export True))
     (2 \<mapsto> \<lparr>m_pNext = 3, m_pPrev = 1, m_opcode = CEE_CALL, m_offset = 0, m_arg = m_Arg32 0x0A000001\<rparr>)\<rparr>"

lemma one_list_holds: "holds one_list [2, 3]"
  by (simp add: one_list_def example_export_def holds_def dll_def next_of_def prev_of_def IL_def)

lemma Rewrite_calls_witness:
  "\<exists>p' w' \<sigma>' ys token hr1. GenerateInterceptMethod one_info 1 example_target [ConfigTypeInfo_default] 0x0A000001 one_profiler [] =
       Inr (hr1, Some token, p', w') \<and>
     Rewrite 6 one_info 1 0x06000001 one_list False one_profiler [] =
       bindO (Export_method one_info 1 0x06000001 \<sigma>' w') (\<lambda>(hr, \<sigma>, w). Inr (if FAILED hr then hr else S_OK, \<sigma>, p', w)) \<and>
     holds \<sigma>' ys \<and> map (content_of (heap \<sigma>')) ys =
       [Some (CEE_CALL, 0, m_Arg32 token), Some (CEE_NOP, 0, m_Arg32 0x0A000001), Some (CEE_RET, 0, m_pTarget NULL)]"
proof -
  let ?F = "\<lambda>_. example_target"
  have m: "pi_GetModuleMetaData one_info [] 1 = (S_OK, one_scope)" "SUCCEEDED S_OK" by (simp_all add: one_info_def)
  have "case GetModuleInfo one_info [] 1 of Inl _ \<Rightarrow> False | Inr _ \<Rightarrow> True" by code_simp
  then obtain mi where mi: "GetModuleInfo one_info [] 1 = Inr mi" by (auto split: sum.splits)
  let ?name = "as_name (mod_assembly mi)"
  have c: "content_of (heap one_list) 2 = Some (CEE_CALL, 0, m_Arg32 0x0A000001)"
    "content_of (heap one_list) 3 = Some (CEE_RET, 0, m_pTarget NULL)"
    by (simp_all add: one_list_def example_export_def content_of_def)
  have r: "\<forall>q \<in> set [2, 3]. resolves 6 one_scope ?F (content_of (heap one_list) q)"
    using one_scope_target by (auto simp: resolves_def c)
  have hit: "intercepted ?F one_profiler name (content_of (heap one_list) 2)"
    "\<not> intercepted ?F one_profiler name (content_of (heap one_list) 3)" for name
    by (simp_all add: intercepted_def c one_profiler_finds)
  obtain hr1 token p1 w1 where g: "GenerateInterceptMethod one_info 1 example_target [ConfigTypeInfo_default] 0x0A000001 one_profiler [] =
      Inr (hr1, Some token, p1, w1)"
    using one_generates [of ?name] unfolding generates_def one_profiler_finds by (metis list.distinct(1) same_lists_refl surj_pair)
  have i: "interceptor_of one_info 1 ?F ?name (one_profiler, []) (Some (CEE_CALL, 0, m_Arg32 0x0A000001)) = Some (token, p1, w1)"
    "interceptor_of one_info 1 ?F ?name s (Some (CEE_RET, 0, m_pTarget NULL)) = None" for s
    by (simp_all add: interceptor_of_def one_profiler_finds g split: prod.splits)
  from Rewrite_calls [OF m mi one_list_holds r one_generates, of "0x06000001" False] obtain changed p' w' \<sigma>' ys where
    x: "Rewrite 6 one_info 1 0x06000001 one_list False one_profiler [] =
      (if changed then bindO (Export_method one_info 1 0x06000001 \<sigma>' w') (\<lambda>(hr, \<sigma>, w).
         Inr (if FAILED hr then hr else S_OK, \<sigma>, p', w))
       else Inr (S_OK, \<sigma>', p', w'))" "holds \<sigma>' ys"
    "rewriting (interceptor_of one_info 1 ?F ?name) (one_profiler, []) (map (content_of (heap one_list)) [2, 3]) =
      (map (content_of (heap \<sigma>')) ys, (p', w'))"
    "let hit = intercepted ?F one_profiler ?name in
     rewrote hit one_list [2, 3] \<sigma>' ys \<and> (changed \<longleftrightarrow> False \<or> (\<exists>q \<in> set [2, 3]. hit (content_of (heap one_list) q)))"
    by (elim exE conjE) (rule that)
  have "changed" using x(4) hit by (simp add: Let_def)
  moreover have "map (content_of (heap \<sigma>')) ys = [Some (CEE_CALL, 0, m_Arg32 token), Some (CEE_NOP, 0, m_Arg32 0x0A000001),
      Some (CEE_RET, 0, m_pTarget NULL)]" "p' = p1" "w' = w1"
    using x(3) by (simp_all add: i c)
  ultimately show ?thesis
    using x(1,2) g by (intro exI [of _ p1] exI [of _ w1] exI [of _ \<sigma>'] exI [of _ ys] exI [of _ token] exI [of _ hr1]) simp
qed

text \<open>The white list names another assembly.\<close>

lemma loaded_module_stays_enabled_witness:
  "\<exists>p1 p2 w2. callback_exec 0 example_info (on_ModuleLoadFinished 1)
      (CorProfiler_new\<lparr>corProfilerInfo := True, configuration := Configuration_default\<lparr>EnabledAssemblies := [W ''Other'']\<rparr>\<rparr>, []) =
        Inr (S_OK, p1, []) \<and>
     foldO (exec_call 0 example_info) [(on_unloading ModuleUnloadFinished, id)] (p1, []) = Inr (p2, w2) \<and> 1 \<in> set (enabledModules p2)"
proof -
  let ?p = "CorProfiler_new\<lparr>corProfilerInfo := True, configuration := Configuration_default\<lparr>EnabledAssemblies := [W ''Other'']\<rparr>\<rparr>"
  have "case GetModuleInfo example_info [] 1 of Inl _ \<Rightarrow> False | Inr m \<Rightarrow> as_name (mod_assembly m) \<noteq> W ''Other''" by code_simp
  then obtain mi where mi: "GetModuleInfo example_info [] 1 = Inr mi" "as_name (mod_assembly mi) \<noteq> W ''Other''"
    by (auto split: sum.splits)
  have s: "SUCCEEDED (fst (pi_GetModuleMetaData example_info [] 1))" by (simp add: example_info_def)
  obtain p1 where p1: "callback_exec 0 example_info (on_ModuleLoadFinished 1) (?p, []) = Inr (S_OK, p1, [])"
    "\<forall>calls p2 w2. foldO (exec_call 0 example_info) calls (p1, []) = Inr (p2, w2) \<longrightarrow> 1 \<in> set (enabledModules p2)"
    using loaded_module_stays_enabled [OF mi(1) _ s, of ?p 0] mi(2) by auto
  obtain p2 w2 where p2: "foldO (exec_call 0 example_info) [(on_unloading ModuleUnloadFinished, id)] (p1, []) = Inr (p2, w2)"
    by (simp add: exec_call_def callback_exec_def)
  with p1 show ?thesis by blast
qed

text \<open>A module whose metadata are not there, and whose methods return.\<close>

definition ret_info :: "(BYTE list list) profiler_info" where
  "ret_info = example_info\<lparr>pi_GetILFunctionBody := (\<lambda>_ _ _. (S_OK, 0, [0x06, 0x2A])),
     pi_GetModuleMetaData := (\<lambda>_ _. (E_FAIL, example_metadata))\<rparr>"

lemma ret_reaches:
  assumes "corProfilerInfo p" "1 \<in> set (enabledModules p)" "configuration p = Configuration_default"
  shows "\<exists>\<sigma>. reaches ret_info f p [] 1 0x06000001 1 \<sigma>"
proof -
  have "case Import_method ret_info 1 0x06000001 (CreateILRewriter ret_info) [] of Inl _ \<Rightarrow> False | Inr (hr, _) \<Rightarrow> SUCCEEDED hr"
    by code_simp
  moreover have "case GetModuleInfo ret_info [] 1 of Inl _ \<Rightarrow> False | Inr m \<Rightarrow> as_appDomainId (mod_assembly m) = 1" by code_simp
  ultimately show ?thesis
    using assms by (auto simp: reaches_def SkipAssembly_def Configuration_default_def split: sum.splits)
      (simp_all add: ret_info_def example_info_def)
qed

lemma loads_once_per_domain_witness:
  "\<exists>p1 \<sigma>'. JITCompilationStarted 0 ret_info 7 (CorProfiler_new\<lparr>corProfilerInfo := True, enabledModules := [1]\<rparr>) [] = Inr (E_FAIL, p1, []) \<and>
     JITCompilationStarted 0 ret_info 8 p1 [] =
       bindO (Rewrite 0 ret_info 1 0x06000001 \<sigma>' False p1 []) (\<lambda>(result, rewriter, p, w).
         bindO (ILRewriter_delete rewriter) (\<lambda>_. Inr (result, p, w)))"
proof -
  let ?p = "CorProfiler_new\<lparr>corProfilerInfo := True, enabledModules := [1]\<rparr>"
  let ?p1 = "?p\<lparr>loadedIntoAppDomains := [1]\<rparr>"
  have c: "configuration ?p = Configuration_default" "configuration ?p1 = Configuration_default" by (simp_all add: CorProfiler_new_def)
  obtain \<sigma> where r: "reaches ret_info 7 ?p [] 1 0x06000001 1 \<sigma>" using ret_reaches [of ?p] c by auto
  obtain \<sigma>' where r': "reaches ret_info 8 ?p1 [] 1 0x06000001 1 \<sigma>'" using ret_reaches [of ?p1] c by auto
  have j: "JITCompilationStarted 0 ret_info 7 ?p [] = Inr (E_FAIL, ?p1, [])"
    unfolding reaches_JIT [OF r] by (simp add: CorProfiler_new_def load_into_domain_def ret_info_def)
  have "foldO (exec_call 0 ret_info) [(on_loading AssemblyLoadFinished, id)] (?p1, []) = Inr (?p1, [])"
    by (simp add: exec_call_def callback_exec_def)
  from loads_once_per_domain [OF r j this r'] j show ?thesis by blast
qed

end
