(* ===== verification/Compile.thy ===== *)
theory Compile
  imports Jit ILRoundtrip
begin

text \<open>
  The compilation of a method from the bytes the runtime has to the bytes it is handed: \<open>Import\<close>, the injection of the
  load method's call, \<open>Rewrite\<close> and \<open>Export\<close> composed as \<open>CorProfiler::JITCompilationStarted\<close> does.

  \<open>Import_ready\<close> says which methods an import makes ready for an export, and \<open>rewrote_ready\<close> that rewriting keeps
  them so.
\<close>

unbundle bit_operations_syntax

section \<open>What an import says of the header\<close>

lemma Import_flags:
  assumes "Import r \<sigma> = Inr (hr, \<sigma>')" and "SUCCEEDED hr"
  shows "m_fGenerateTinyHeader \<sigma>' = m_fGenerateTinyHeader \<sigma>" "m_flags \<sigma>' AND 0xF = 0"
proof -
  obtain hr0 a m where r: "r = (hr0, a, m)" by (cases r)
  let ?P = "\<lambda>(_, \<tau>). m_fGenerateTinyHeader \<tau> = m_fGenerateTinyHeader \<sigma> \<and> m_flags \<tau> AND 0xF = 0"
  let ?Q = "\<lambda>x. SUCCEEDED (fst x) \<longrightarrow> ?P x"
  have fl: "(v AND CorILMethod_InitLocals) AND 0xF = 0" for v :: "32 word" by (simp add: CorILMethod_InitLocals_def and.assoc)
  have il: "ensures (ImportIL c (\<sigma>\<lparr>m_tkLocalVarSig := t, m_maxStack := k, m_flags := v AND CorILMethod_InitLocals, m_CodeSize := n\<rparr>))
      (\<lambda>x. ensures (f x) ?Q)" if "\<And>h \<tau>. ?P (h, \<tau>) \<Longrightarrow> ensures (f (h, \<tau>)) ?Q" for c t k v n f
    by (rule ensures_mono [OF ImportIL_kept]) (use that fl in \<open>auto simp: kept_def\<close>)
  have eh: "ensures (ImportEH m p n \<tau>) (\<lambda>x. ensures (f x) ?Q)"
    if "?P (0, \<tau>)" "\<And>h \<rho>. ?P (h, \<rho>) \<Longrightarrow> ensures (f (h, \<rho>)) ?Q" for p n \<tau> f
    by (rule ensures_mono [OF ImportEH_kept]) (use that in \<open>auto simp: kept_def\<close>)
  have "ensures (Import r \<sigma>) ?Q"
    unfolding Import_def r prod.case Let_def
    by (intro wp il eh ensures_any [where m = "DecoderInit a m" for a m] ensures_any [where m = "decoder_EHCount m d" for m d])
      simp_all
  from ensuresD [OF this assms(1)] assms(2)
  show "m_fGenerateTinyHeader \<sigma>' = m_fGenerateTinyHeader \<sigma>" "m_flags \<sigma>' AND 0xF = 0" by simp_all
qed

section \<open>A rewritten list can be exported\<close>

lemma exportable_iff:
  assumes "holds \<sigma> xs"
  shows "exportable (heap \<sigma>) xs \<longleftrightarrow> (\<forall>y \<in> set xs. case content_of (heap \<sigma>) y of None \<Rightarrow> False
    | Some (op, _, arg) \<Rightarrow> op < CEE_COUNT \<and> arg_fits (flags_of op) arg \<and>
        (is_branch op \<longrightarrow> (case arg of m_pTarget t \<Rightarrow> t | _ \<Rightarrow> NULL) \<in> set (IL # xs)))"
  unfolding exportable_def
  by (intro ball_cong refl)
    (auto simp: typed_at_def typed_instr_def branch_at_def target_of_def content_of_def split: option.splits)

lemma rewrote_ready:
  assumes r: "export_ready \<sigma> xs" and w: "rewrote hit \<sigma> xs \<sigma>' ys" and h: "holds \<sigma>' ys" and n: "next_addr \<sigma>' \<le> 2 ^ 27"
  shows "export_ready \<sigma>' ys"
proof -
  note w = w [unfolded rewrote_def]
  have hs: "holds \<sigma> xs" and ex: "exportable (heap \<sigma>) xs" using r by (simp_all add: export_ready_def)
  have "set xs = set (filter (\<lambda>a. a \<in> set xs) ys)" using w by (metis (no_types))
  then have sub: "set xs \<subseteq> set ys" by auto
  have call: "CEE_CALL < CEE_COUNT" "arg_fits (flags_of CEE_CALL) (m_Arg32 t)" "\<not> is_branch CEE_CALL" for t
    by (simp_all add: CEE_COUNT_def arg_fits_def is_branch_def flags_of_def)
  have nop: "CEE_NOP < CEE_COUNT" "arg_fits (flags_of CEE_NOP) a" "\<not> is_branch CEE_NOP" for a
    by (simp_all add: CEE_COUNT_def arg_fits_def is_branch_def flags_of_def)
  have "exportable (heap \<sigma>') ys"
    unfolding exportable_iff [OF h]
  proof
    fix y assume y: "y \<in> set ys"
    show "case content_of (heap \<sigma>') y of None \<Rightarrow> False | Some (op, _, arg) \<Rightarrow> op < CEE_COUNT \<and> arg_fits (flags_of op) arg \<and>
        (is_branch op \<longrightarrow> (case arg of m_pTarget t \<Rightarrow> t | _ \<Rightarrow> NULL) \<in> set (IL # ys))"
    proof (cases "y \<in> set xs")
      case True
      then obtain op off arg where c: "content_of (heap \<sigma>) y = Some (op, off, arg)" "op < CEE_COUNT" "arg_fits (flags_of op) arg"
        "is_branch op \<longrightarrow> (case arg of m_pTarget t \<Rightarrow> t | _ \<Rightarrow> NULL) \<in> set (IL # xs)"
        using ex unfolding exportable_iff [OF hs] by (fastforce split: option.splits)
      have "content_of (heap \<sigma>') y = replaced hit (Some (op, off, arg))" using w True c(1) by simp
      then show ?thesis using c(2-4) sub nop by (cases "hit (Some (op, off, arg))") (auto simp: replaced_def)
    next
      case False
      then obtain t where "content_of (heap \<sigma>') y = Some (CEE_CALL, 0, m_Arg32 t)" using w y by blast
      then show ?thesis using call by simp
    qed
  qed
  moreover have eh: "m_nEH \<sigma>' = m_nEH \<sigma>" "m_pEH \<sigma>' = m_pEH \<sigma>" using w by (simp_all add: header_of_def)
  moreover have "clause_ok ys c" if "clause_ok xs c" for c
    using that sub by (auto simp: clause_ok_def split: EHArg.splits)
  ultimately show ?thesis using r h n by (simp add: export_ready_def)
qed

section \<open>The export of a list that is ready\<close>

lemma Export_answer:
  assumes "export_ready \<sigma> xs" and "Export api \<sigma> = Inr (hr, Some b, \<sigma>')"
  shows "hr = (if FAILED (api_SetILFunctionBody api b) then api_SetILFunctionBody api b else S_OK)"
proof -
  obtain \<tau> where s: "export_state api \<sigma> xs \<tau>" using export_layout [OF assms(1)] .
  show ?thesis using assms(2) unfolding Export_unfold [OF s] Let_def by (auto split: if_splits)
qed

text \<open>What the runtime reads from a body at address \<open>a\<close>: the code, the token of the locals, the exception clauses.\<close>

definition decodes_to :: "nat \<Rightarrow> BYTE list \<Rightarrow> BYTE list \<Rightarrow> mdToken \<Rightarrow> EH_CLAUSE_FAT list \<Rightarrow> bool" where
  "decodes_to a b code locals clauses \<longleftrightarrow>
     (\<exists>d c. DecoderInit a b = Inr d \<and> dec_Code d = Some c \<and> take (unat (fat_GetCodeSize (dec_fat d))) (drop c b) = code \<and>
       fat_GetLocalVarSigTok (dec_fat d) = locals \<and> decoder_EHCount b d = Inr (word_of_nat (length clauses)) \<and>
       (\<forall>i < length clauses. \<exists>s. dec_EH d = Some s \<and> SectEH_EHClause b s (word_of_nat i) = Inr (clauses ! i)))"

lemma Export_method_ready:
  assumes r: "export_ready \<sigma> xs" and fat: "\<not> m_fGenerateTinyHeader \<sigma>" "m_flags \<sigma> AND 0xF = 0"
    and alloc: "\<And>n. pi_allocator info w moduleId n" and a: "a mod 4 = 0"
  shows "\<exists>b \<sigma>'. Export_method info moduleId tk \<sigma> w =
      (case pi_SetILFunctionBody info moduleId tk b w of (hr, w') \<Rightarrow> Inr (if FAILED hr then hr else S_OK, \<sigma>', w')) \<and>
    holds \<sigma>' xs \<and> relaxed (heap \<sigma>) (heap \<sigma>') \<and>
    decodes_to a b (code_of (heap \<sigma>') xs) (m_tkLocalVarSig \<sigma>) (map (clause_of (heap \<sigma>')) (m_pEH \<sigma>))"
proof -
  let ?api = "\<lparr>api_alloc = pi_allocator info w moduleId,
      api_SetILFunctionBody = (\<lambda>body. fst (pi_SetILFunctionBody info moduleId tk body w)), api_uninit = pi_uninit info\<rparr>"
  have "\<forall>n. AllocateILMemory ?api \<sigma> n" using alloc by (simp add: AllocateILMemory_def)
  from export_fat_decodes [OF r fat(1) this fat(2) a] obtain hr b \<sigma>' d where
    e: "Export ?api \<sigma> = Inr (hr, Some b, \<sigma>')" "relaxed (heap \<sigma>) (heap \<sigma>')" "DecoderInit a b = Inr d" "dec_Code d = Some 12"
      "export_state ?api \<sigma> xs \<sigma>'" "take (unat (fat_GetCodeSize (dec_fat d))) (drop 12 b) = code_of (heap \<sigma>') xs"
      "fat_GetLocalVarSigTok (dec_fat d) = m_tkLocalVarSig \<sigma>" "decoder_EHCount b d = Inr (m_nEH \<sigma>)"
      "\<forall>i < length (m_pEH \<sigma>). \<exists>s. dec_EH d = Some s \<and>
        SectEH_EHClause b s (word_of_nat i) = Inr (clause_of (heap \<sigma>') (m_pEH \<sigma> ! i))"
    by (elim exE conjE) (rule that)
  have n: "m_nEH \<sigma> = word_of_nat (length (m_pEH \<sigma>))" using r by (auto simp: export_ready_def dest: unat_eqD)
  have "decodes_to a b (code_of (heap \<sigma>') xs) (m_tkLocalVarSig \<sigma>) (map (clause_of (heap \<sigma>')) (m_pEH \<sigma>))"
    unfolding decodes_to_def using e(3,4,6-9) n by (intro exI [of _ d] exI [of _ 12]) simp
  moreover have "Export_method info moduleId tk \<sigma> w =
      (case pi_SetILFunctionBody info moduleId tk b w of (hr, w') \<Rightarrow> Inr (if FAILED hr then hr else S_OK, \<sigma>', w'))"
    unfolding Export_method_def e(1) bindO_simps prod.case option.case using Export_answer [OF r e(1)] by (simp add: split_beta)
  ultimately show ?thesis using export_state_parts(1) [OF e(5) r] e(2) by blast
qed

section \<open>The call of the load method\<close>

text \<open>The call stands in front of the list; nothing else has changed but the stack bound.\<close>

definition injected :: "mdToken \<Rightarrow> ILRewriter \<Rightarrow> addr list \<Rightarrow> addr \<Rightarrow> ILRewriter \<Rightarrow> bool" where
  "injected loader \<sigma> xs x \<sigma>' \<longleftrightarrow>
     holds \<sigma>' (x # xs) \<and> x \<notin> dom (heap \<sigma>) \<and> content_of (heap \<sigma>') x = Some (CEE_CALL, 0, m_Arg32 loader) \<and>
     (\<forall>y \<in> dom (heap \<sigma>). content_of (heap \<sigma>') y = content_of (heap \<sigma>) y) \<and>
     header_of \<sigma>' = header_of \<sigma> \<and> next_addr \<sigma>' = next_addr \<sigma> + 1"

lemma InjectLoadMethod_injects:
  assumes "holds \<sigma> xs" and "GenerateLoadMethod info moduleId p w = Inr (hr, Some loader, w1)" and "SUCCEEDED hr"
  shows "\<exists>x \<sigma>'. InjectLoadMethod info moduleId p \<sigma> w = Inr (S_OK, \<sigma>', w1) \<and> injected loader \<sigma> xs x \<sigma>'"
proof -
  obtain i where i: "heap \<sigma> IL = Some i" by (rule holds_dom [OF assms(1), of IL]) simp
  have "linked (heap \<sigma>) (IL # xs @ [IL])" using assms(1) by (simp add: holds_def dll_def)
  then have "next_of (heap \<sigma>) IL = Some (hd (xs @ [IL]))" by (cases xs) auto
  then have nx: "m_pNext i = hd (xs @ [IL])" by (simp add: next_of_def i)
  let ?h = "SetILPosition (m_pNext i) (ILRewriterHelper_new \<sigma>)"
  have "helper_at ?h [] xs" using assms(1) nx by (simp add: helper_at_def SetILPosition_def ILRewriterHelper_new_def)
  with CallMember_emits obtain h' qs where e: "CallMember loader False ?h = Inr h'"
    "emitted ?h [] xs qs [(CEE_CALL, m_Arg32 loader)] h'" by (rule emitsE)
  then obtain x where x: "qs = [x]" by (auto simp: emitted_def)
  have "next_addr (h_rewriter h') = next_addr \<sigma> + 1"
    using emit_next [OF e(1) [unfolded CallMember_def if_False]] by (simp add: SetILPosition_def ILRewriterHelper_new_def)
  then have "injected loader \<sigma> xs x (h_rewriter h')"
    using e(2) x by (simp add: injected_def emitted_def helper_at_def SetILPosition_def ILRewriterHelper_new_def)
  moreover have "InjectLoadMethod info moduleId p \<sigma> w = Inr (S_OK, h_rewriter h', w1)"
    using assms(2,3) i e(1) by (simp add: InjectLoadMethod_def load_instr_def GetILList_def)
  ultimately show ?thesis by blast
qed

lemma injected_contents:
  assumes "injected loader \<sigma> xs x \<sigma>'" and "holds \<sigma> xs"
  shows "map (content_of (heap \<sigma>')) (x # xs) = Some (CEE_CALL, 0, m_Arg32 loader) # map (content_of (heap \<sigma>)) xs"
  using assms holds_content [OF assms(2)] by (auto simp: injected_def)

lemma injected_ready:
  assumes r: "export_ready \<sigma> xs" and i: "injected loader \<sigma> xs x \<sigma>'" and n: "next_addr \<sigma> < 2 ^ 27"
  shows "export_ready \<sigma>' (x # xs)"
proof -
  note i = i [unfolded injected_def]
  have hs: "holds \<sigma> xs" and ex: "exportable (heap \<sigma>) xs" using r by (simp_all add: export_ready_def)
  have h: "holds \<sigma>' (x # xs)" using i by simp
  have call: "CEE_CALL < CEE_COUNT" "arg_fits (flags_of CEE_CALL) (m_Arg32 t)" "\<not> is_branch CEE_CALL" for t
    by (simp_all add: CEE_COUNT_def arg_fits_def is_branch_def flags_of_def)
  have "exportable (heap \<sigma>') (x # xs)"
    unfolding exportable_iff [OF h]
  proof
    fix y assume y: "y \<in> set (x # xs)"
    show "case content_of (heap \<sigma>') y of None \<Rightarrow> False | Some (op, _, arg) \<Rightarrow> op < CEE_COUNT \<and> arg_fits (flags_of op) arg \<and>
        (is_branch op \<longrightarrow> (case arg of m_pTarget t \<Rightarrow> t | _ \<Rightarrow> NULL) \<in> set (IL # x # xs))"
    proof (cases "y = x")
      case True
      then show ?thesis using i call by simp
    next
      case False
      then have "content_of (heap \<sigma>') y = content_of (heap \<sigma>) y" using i y holds_content [OF hs, of y] by simp
      then show ?thesis using ex y False unfolding exportable_iff [OF hs] by (auto split: option.splits)
    qed
  qed
  moreover have eh: "m_nEH \<sigma>' = m_nEH \<sigma>" "m_pEH \<sigma>' = m_pEH \<sigma>" using i by (simp_all add: header_of_def)
  moreover have "clause_ok (x # xs) c" if "clause_ok xs c" for c
    using that by (auto simp: clause_ok_def split: EHArg.splits)
  ultimately show ?thesis using r h i n by (simp add: export_ready_def)
qed

section \<open>Importing a valid method\<close>

text \<open>A method without exception clauses, of less than 32 MB, whose code decodes to \<open>l\<close> and whose branches lead to
  instructions of it or to its end.\<close>

definition valid_method :: "nat \<Rightarrow> BYTE list \<Rightarrow> (nat \<times> OPCODE \<times> ILArg) list \<Rightarrow> bool" where
  "valid_method a m l \<longleftrightarrow>
     (\<exists>d c. DecoderInit a m = Inr d \<and> dec_Code d = Some c \<and> decoder_EHCount m d = Inr 0 \<and>
        (let cs = unat (fat_GetCodeSize (dec_fat d)) in
         cs < 2 ^ 25 \<and> cs \<le> length (drop c m) \<and> decode_from (drop c m) cs 0 = (l, Complete) \<and>
         (\<forall>(_, op, arg) \<in> set l. is_branch op \<longrightarrow>
            (case arg of m_Arg32 v \<Rightarrow> unat v = cs \<or> unat v \<in> fst ` set l | _ \<Rightarrow> False))))"

lemma decode_from_operands:
  "decode_from il cs off = (l, e) \<Longrightarrow>
     \<forall>x \<in> set l. flags_of (fst (snd x)) \<noteq> 0x20 \<and> (\<exists>o'. snd (snd x) = decode_operand il o' (flags_of (fst (snd x))))"
proof (induction il cs off arbitrary: l rule: decode_from.induct)
  case (1 il cs off)
  show ?case
  proof (cases "cs \<le> off \<or> map_option fst (decode_opcode il cs off) = Some CEE_SWITCH \<or> decode_at il cs off = None")
    case True
    then have "l = []" using 1(2) by (auto simp: decode_from.simps [of il cs off] split: if_splits)
    then show ?thesis by simp
  next
    case False
    then obtain op arg o' where d: "decode_at il cs off = Some (op, arg, o')" by (cases "decode_at il cs off") auto
    obtain l' where l': "decode_from il cs o' = (l', e)" "l = (off, op, arg) # l'"
      using 1(2) False d by (auto simp: decode_from.simps [of il cs off] split: prod.splits)
    have "flags_of op \<noteq> 0x20" using decode_at_bounds(3,4) [OF d] False flags_switch by auto
    moreover have "\<exists>o'. arg = decode_operand il o' (flags_of op)"
      using d by (auto simp: decode_at_def split: option.splits if_splits)
    moreover note 1(1) [OF _ _ d refl refl l'(1)]
    ultimately show ?thesis using False by (simp add: l'(2))
  qed
qed

lemma operand_fits:
  assumes "arg = decode_operand il o' (flags_of op)" "flags_of op \<noteq> 0x20"
  shows "arg_fits (flags_of op) (resolve_arg g op arg)"
  using assms
  by (cases rule: flags_of_cases [of op]; simp add: decode_operand_def arg_fits_def is_branch_def)

lemma instr_at_in_list:
  assumes "v = cs \<or> v \<in> fst ` set l"
  shows "instr_at l a0 cs v \<in> set (IL # [a0..<a0 + length l])"
proof (cases "v = cs")
  case False
  then have "v \<in> set (map fst l)" using assms by auto
  then obtain p where p: "map_of (zip (map fst l) [a0..<a0 + length l]) v = Some p"
    by (cases "map_of (zip (map fst l) [a0..<a0 + length l]) v") (simp_all add: map_of_zip_is_None)
  have "p \<in> set [a0..<a0 + length l]" by (rule set_zip_rightD [OF map_of_SomeD [OF p]])
  then show ?thesis using False p by (simp add: instr_at_def)
qed (simp add: instr_at_def)

lemma Import_ready:
  assumes v: "valid_method a m l" and \<rho>: "holds \<rho> []" "m_pEH \<rho> = []" "next_addr \<rho> \<le> 2"
  shows "\<exists>\<sigma>. Import (S_OK, a, m) \<rho> = Inr (S_OK, \<sigma>) \<and> export_ready \<sigma> [next_addr \<rho>..<next_addr \<rho> + length l] \<and>
    next_addr \<sigma> < 2 ^ 26 \<and>
    (\<forall>i < length l. case l ! i of (_, op, arg) \<Rightarrow>
       \<exists>arg'. content_of (heap \<sigma>) (next_addr \<rho> + i) = Some (op, 0, arg') \<and> (\<not> is_branch op \<longrightarrow> arg' = arg))"
proof -
  obtain d c where d: "DecoderInit a m = Inr d" "dec_Code d = Some c" "decoder_EHCount m d = Inr 0"
    and b: "let cs = unat (fat_GetCodeSize (dec_fat d)) in
         cs < 2 ^ 25 \<and> cs \<le> length (drop c m) \<and> decode_from (drop c m) cs 0 = (l, Complete) \<and>
         (\<forall>(_, op, arg) \<in> set l. is_branch op \<longrightarrow>
            (case arg of m_Arg32 v \<Rightarrow> unat v = cs \<or> unat v \<in> fst ` set l | _ \<Rightarrow> False))"
    using v unfolding valid_method_def by blast
  let ?cs = "unat (fat_GetCodeSize (dec_fat d))" and ?a0 = "next_addr \<rho>"
  have cs: "?cs < 2 ^ 25" "?cs \<le> length (drop c m)" "decode_from (drop c m) ?cs 0 = (l, Complete)"
    and tg: "\<forall>(_, op, arg) \<in> set l. is_branch op \<longrightarrow>
            (case arg of m_Arg32 v \<Rightarrow> unat v = ?cs \<or> unat v \<in> fst ` set l | _ \<Rightarrow> False)"
    using b by (simp_all add: Let_def)
  let ?\<rho> = "\<rho>\<lparr>m_tkLocalVarSig := fat_GetLocalVarSigTok (dec_fat d), m_maxStack := fat_GetMaxStack (dec_fat d),
      m_flags := fat_GetFlags (dec_fat d) AND CorILMethod_InitLocals, m_CodeSize := fat_GetCodeSize (dec_fat d)\<rparr>"
  have h: "holds ?\<rho> []" by (rule holds_cong [OF \<rho>(1)]) simp_all
  have sz: "?cs = unat (m_CodeSize ?\<rho>)" "?cs + 16 < 2 ^ 32" using cs(1) by simp_all
  let ?g = "\<lambda>v. instr_at l (next_addr ?\<rho>) ?cs (unat (v :: 32 word))"
  from ImportIL_decodes [OF h sz(1) cs(2) sz(2) cs(3)] obtain \<sigma> where
    s: "ImportIL (drop c m) ?\<rho> = Inr (S_OK, \<sigma>)" "holds \<sigma> [?a0..<?a0 + length l]" "m_pEH \<sigma> = []" "next_addr \<sigma> = ?a0 + length l"
    "\<forall>i < length l. content_of (heap \<sigma>) (?a0 + i) = (case l ! i of (_, op, arg) \<Rightarrow> Some (op, 0, resolve_arg ?g op arg))"
    using \<rho>(2) by auto
  let ?\<sigma> = "\<sigma>\<lparr>m_nEH := 0\<rparr>"
  have imp: "Import (S_OK, a, m) \<rho> = Inr (S_OK, ?\<sigma>)" using s(1) d by (simp add: Import_def ImportEH_def Let_def)
  note shape = decode_from_shape [OF cs(3)] and ops = decode_from_operands [OF cs(3)]
  have len: "length l \<le> ?cs"
  proof -
    have "set (map fst l) \<subseteq> {0..<?cs}" using decode_from_offsets [of "drop c m" ?cs 0] cs(3) by auto
    then have "card (set (map fst l)) \<le> card {0..<?cs}" by (intro card_mono) simp_all
    then show ?thesis using shape distinct_card [of "map fst l"] by simp
  qed
  have hs: "holds ?\<sigma> [?a0..<?a0 + length l]" by (rule holds_cong [OF s(2)]) simp_all
  have "exportable (heap ?\<sigma>) [?a0..<?a0 + length l]"
    unfolding exportable_iff [OF hs]
  proof
    fix y assume "y \<in> set [?a0..<?a0 + length l]"
    then have i: "y = ?a0 + (y - ?a0)" "y - ?a0 < length l" by auto
    obtain off op arg where x: "l ! (y - ?a0) = (off, op, arg)" by (cases "l ! (y - ?a0)")
    then have xl: "(off, op, arg) \<in> set l" using nth_mem [OF i(2)] by simp
    have "content_of (heap \<sigma>) (?a0 + (y - ?a0)) = Some (op, 0, resolve_arg ?g op arg)" using s(5) i(2) x by simp
    then have c: "content_of (heap ?\<sigma>) y = Some (op, 0, resolve_arg ?g op arg)" using i(1) by simp
    have "op < CEE_COUNT" using shape xl by auto
    moreover obtain o' where "arg = decode_operand (drop c m) o' (flags_of op)" "flags_of op \<noteq> 0x20" using ops xl by force
    then have "arg_fits (flags_of op) (resolve_arg ?g op arg)" by (rule operand_fits)
    moreover have "(case resolve_arg ?g op arg of m_pTarget t \<Rightarrow> t | _ \<Rightarrow> NULL) \<in> set (IL # [?a0..<?a0 + length l])"
      if br: "is_branch op"
    proof -
      have "is_branch op \<longrightarrow> (\<exists>v. arg = m_Arg32 v)" using shape xl by force
      then obtain v where v: "arg = m_Arg32 v" using br by blast
      then have "unat v = ?cs \<or> unat v \<in> fst ` set l" using tg xl br by force
      from instr_at_in_list [OF this, of ?a0] show ?thesis using br v by simp
    qed
    ultimately show "case content_of (heap ?\<sigma>) y of None \<Rightarrow> False | Some (op, _, arg) \<Rightarrow> op < CEE_COUNT \<and>
        arg_fits (flags_of op) arg \<and>
        (is_branch op \<longrightarrow> (case arg of m_pTarget t \<Rightarrow> t | _ \<Rightarrow> NULL) \<in> set (IL # [?a0..<?a0 + length l]))"
      unfolding c by simp
  qed
  moreover have "next_addr ?\<sigma> < 2 ^ 26" using s(4) \<rho>(3) len cs(1) by simp
  ultimately have "export_ready ?\<sigma> [?a0..<?a0 + length l]" using hs s(3) by (simp add: export_ready_def)
  moreover have "case l ! i of (_, op, arg) \<Rightarrow>
       \<exists>arg'. content_of (heap ?\<sigma>) (?a0 + i) = Some (op, 0, arg') \<and> (\<not> is_branch op \<longrightarrow> arg' = arg)" if "i < length l" for i
  proof -
    obtain off op arg where x: "l ! i = (off, op, arg)" by (cases "l ! i")
    have "\<not> is_branch op \<longrightarrow> resolve_arg ?g op arg = arg" by (cases arg) simp_all
    then show ?thesis using s(5) that x by simp
  qed
  ultimately show ?thesis using imp \<open>next_addr ?\<sigma> < 2 ^ 26\<close> by (intro exI [of _ ?\<sigma>]) simp
qed

section \<open>The first method of an application domain\<close>

text \<open>The rewriting of a list that is ready, and its export.\<close>

lemma Rewrite_exports:
  assumes rw: "pi_GetModuleMetaData info w moduleId = (hr, md)" "SUCCEEDED hr" "GetModuleInfo info w moduleId = Inr m" "holds \<sigma> xs"
      "\<forall>q \<in> set xs. resolves fuel md F (content_of (heap \<sigma>) q)" "generates info moduleId F (as_name (mod_assembly m)) p"
    and r: "export_ready \<sigma> xs" "next_addr \<sigma> \<le> 2 ^ 26"
    and fat: "\<not> m_fGenerateTinyHeader \<sigma>" "m_flags \<sigma> AND 0xF = 0"
    and alloc: "\<And>w n. pi_allocator info w moduleId n" and a: "a mod 4 = 0"
  shows "\<exists>\<sigma>2 ys b \<sigma>3 p' w'.
    Rewrite fuel info moduleId tk \<sigma> True p w =
      (case pi_SetILFunctionBody info moduleId tk b w' of (hr, w'') \<Rightarrow> Inr (if FAILED hr then hr else S_OK, \<sigma>3, p', w'')) \<and>
    rewriting (interceptor_of info moduleId F (as_name (mod_assembly m))) (p, w) (map (content_of (heap \<sigma>)) xs) =
      (map (content_of (heap \<sigma>2)) ys, (p', w')) \<and>
    rewrote (intercepted F p (as_name (mod_assembly m))) \<sigma> xs \<sigma>2 ys \<and> same_lists p p' \<and> holds \<sigma>3 ys \<and>
    relaxed (heap \<sigma>2) (heap \<sigma>3) \<and>
    decodes_to a b (code_of (heap \<sigma>3) ys) (m_tkLocalVarSig \<sigma>) (map (clause_of (heap \<sigma>3)) (m_pEH \<sigma>))"
proof -
  let ?name = "as_name (mod_assembly m)"
  from Rewrite_list [OF rw, of tk True] obtain changed p' w' \<sigma>2 ys where
    x: "Rewrite fuel info moduleId tk \<sigma> True p w =
      (if changed then bindO (Export_method info moduleId tk \<sigma>2 w') (\<lambda>(hr, \<sigma>, w).
         Inr (if FAILED hr then hr else S_OK, \<sigma>, p', w)) else Inr (S_OK, \<sigma>2, p', w'))" "changed"
    "holds \<sigma>2 ys" "same_lists p p'" "rewrote (intercepted F p ?name) \<sigma> xs \<sigma>2 ys"
    "rewriting (interceptor_of info moduleId F ?name) (p, w) (map (content_of (heap \<sigma>)) xs) = (map (content_of (heap \<sigma>2)) ys, (p', w'))"
    unfolding Let_def by blast
  have "next_addr \<sigma>2 \<le> 2 ^ 27"
    using x(5) r(2) holds_length [OF rw(4)] by (simp add: rewrote_def)
  then have ready: "export_ready \<sigma>2 ys" using rewrote_ready r(1) x(3,5) by blast
  have hd: "header_of \<sigma>2 = header_of \<sigma>" using x(5) by (simp add: rewrote_def)
  then have "\<not> m_fGenerateTinyHeader \<sigma>2" "m_flags \<sigma>2 AND 0xF = 0" using fat by (simp_all add: header_of_def)
  from Export_method_ready [OF ready this alloc a, where w = w' and tk = tk] obtain b \<sigma>3 where
    e: "Export_method info moduleId tk \<sigma>2 w' =
      (case pi_SetILFunctionBody info moduleId tk b w' of (hr, w') \<Rightarrow> Inr (if FAILED hr then hr else S_OK, \<sigma>3, w'))"
    "holds \<sigma>3 ys" "relaxed (heap \<sigma>2) (heap \<sigma>3)"
    "decodes_to a b (code_of (heap \<sigma>3) ys) (m_tkLocalVarSig \<sigma>2) (map (clause_of (heap \<sigma>3)) (m_pEH \<sigma>2))" by blast
  have "m_tkLocalVarSig \<sigma>2 = m_tkLocalVarSig \<sigma>" "m_pEH \<sigma>2 = m_pEH \<sigma>" using hd by (simp_all add: header_of_def)
  moreover have "Rewrite fuel info moduleId tk \<sigma> True p w =
      (case pi_SetILFunctionBody info moduleId tk b w' of (hr, w'') \<Rightarrow> Inr (if FAILED hr then hr else S_OK, \<sigma>3, p', w''))"
    using x(1,2) e(1) by (simp add: split_beta)
  ultimately show ?thesis using x(4-6) e(2-4)
    by (intro exI [of _ \<sigma>2] exI [of _ ys] exI [of _ b] exI [of _ \<sigma>3] exI [of _ p'] exI [of _ w']) simp
qed

text \<open>C4: The first method that is compiled in an application domain is given a body that calls the load method before
  anything else. Its compilation ends, and the body the runtime is handed decodes to the encodings (short branches may
  have become long ones) of: the call of the load method \<open>GenerateLoadMethod\<close> returned, then the instructions of the
  method, with every intercepted call replaced as \<open>rewriting\<close> describes, by the call of the interceptor
  \<open>GenerateInterceptMethod\<close> returned for it and a no-operation; with the locals of the method and its exception clauses
  around the same instructions. The answer is the runtime's, and the domain is marked as loaded. Assumed are that the
  method is well formed, of less than \<open>2 ^ 26\<close> nodes, that the runtime delivers the metadata and the memory, that the
  load method could be generated, that the metadata describe the function of every call of the method and of the call of
  the load method (\<open>resolves\<close>), and that an interceptor is generated for each function with interceptions
  (\<open>generates\<close>).\<close>

theorem first_compilation_loads:
  assumes "reaches info f p w moduleId tk d \<sigma>" and "d \<notin> set (loadedIntoAppDomains p)"
    and "export_ready \<sigma> xs" and "next_addr \<sigma> < 2 ^ 26"
    and "pi_GetModuleMetaData info w moduleId = (hr0, md0)" and "SUCCEEDED hr0" and "GetFunctionInfo fuel md0 w tk = Inr fi"
    and "GenerateLoadMethod info moduleId (p\<lparr>loadedIntoAppDomains := List.insert d (loadedIntoAppDomains p)\<rparr>) w =
      Inr (hr1, Some loader, w1)" and "SUCCEEDED hr1"
    and "pi_GetModuleMetaData info w1 moduleId = (hr2, md)" and "SUCCEEDED hr2" and "GetModuleInfo info w1 moduleId = Inr m"
    and "resolves fuel md F (Some (CEE_CALL, 0, m_Arg32 loader))"
    and "\<forall>q \<in> set xs. resolves fuel md F (content_of (heap \<sigma>) q)"
    and "generates info moduleId F (as_name (mod_assembly m)) (p\<lparr>loadedIntoAppDomains := List.insert d (loadedIntoAppDomains p)\<rparr>)"
    and "\<And>w n. pi_allocator info w moduleId n" and "a mod 4 = 0"
  shows "\<exists>x \<sigma>1 \<sigma>2 ys h b p' w'.
    injected loader \<sigma> xs x \<sigma>1 \<and> rewrote (intercepted F p (as_name (mod_assembly m))) \<sigma>1 (x # xs) \<sigma>2 ys \<and>
    rewriting (interceptor_of info moduleId F (as_name (mod_assembly m)))
        (p\<lparr>loadedIntoAppDomains := List.insert d (loadedIntoAppDomains p)\<rparr>, w1)
        (Some (CEE_CALL, 0, m_Arg32 loader) # map (content_of (heap \<sigma>)) xs) =
      (map (content_of (heap \<sigma>2)) ys, (p', w')) \<and>
    relaxed (heap \<sigma>2) h \<and> decodes_to a b (code_of h ys) (m_tkLocalVarSig \<sigma>) (map (clause_of h) (m_pEH \<sigma>)) \<and>
    JITCompilationStarted fuel info f p w =
      (case pi_SetILFunctionBody info moduleId tk b w' of (hr, w'') \<Rightarrow> Inr (if FAILED hr then hr else S_OK, p', w'')) \<and>
    d \<in> set (loadedIntoAppDomains p')"
proof -
  let ?p = "p\<lparr>loadedIntoAppDomains := List.insert d (loadedIntoAppDomains p)\<rparr>"
  let ?name = "as_name (mod_assembly m)"
  have hs: "holds \<sigma> xs" using assms(3) by (simp add: export_ready_def)
  from InjectLoadMethod_injects [OF hs assms(8,9)] obtain x \<sigma>1 where
    i: "InjectLoadMethod info moduleId ?p \<sigma> w = Inr (S_OK, \<sigma>1, w1)" "injected loader \<sigma> xs x \<sigma>1" by blast
  have load: "load_into_domain fuel info moduleId tk d \<sigma> p w = Inr (S_OK, \<sigma>1, ?p, w1)"
    using assms(5-7) i(1) by (simp add: load_into_domain_def Let_def)
  have h1: "holds \<sigma>1 (x # xs)" "next_addr \<sigma>1 = next_addr \<sigma> + 1" "header_of \<sigma>1 = header_of \<sigma>"
    using i(2) by (simp_all add: injected_def)
  note c1 = injected_contents [OF i(2) hs]
  then have res: "\<forall>q \<in> set (x # xs). resolves fuel md F (content_of (heap \<sigma>1) q)" using assms(13,14) by simp
  have "intercepted F ?p ?name = intercepted F p ?name" by (simp add: intercepted_def [abs_def] FindInterceptions_def)
  note hit = this
  have ready: "export_ready \<sigma>1 (x # xs)" by (rule injected_ready [OF assms(3) i(2)]) (use assms(4) in simp)
  obtain hr3 where "Import_method info moduleId tk (CreateILRewriter info) w = Inr (hr3, \<sigma>)" "SUCCEEDED hr3"
    using assms(1) by (auto simp: reaches_def split: sum.splits)
  note fl = Import_flags [OF this [unfolded Import_method_def]]
  then have fat: "\<not> m_fGenerateTinyHeader \<sigma>1" "m_flags \<sigma>1 AND 0xF = 0"
    using h1(3) by (simp_all add: header_of_def CreateILRewriter_def ILRewriter_new_def)
  have "next_addr \<sigma>1 \<le> 2 ^ 26" using h1(2) assms(4) by simp
  from Rewrite_exports [OF assms(10-12) h1(1) res assms(15) ready this fat assms(16,17), of tk, unfolded hit c1]
  obtain \<sigma>2 ys b \<sigma>3 p' w' where r: "Rewrite fuel info moduleId tk \<sigma>1 True ?p w1 =
      (case pi_SetILFunctionBody info moduleId tk b w' of (hr, w'') \<Rightarrow> Inr (if FAILED hr then hr else S_OK, \<sigma>3, p', w''))"
    "rewriting (interceptor_of info moduleId F ?name) (?p, w1) (Some (CEE_CALL, 0, m_Arg32 loader) # map (content_of (heap \<sigma>)) xs) =
      (map (content_of (heap \<sigma>2)) ys, (p', w'))"
    "rewrote (intercepted F p ?name) \<sigma>1 (x # xs) \<sigma>2 ys" "same_lists ?p p'" "holds \<sigma>3 ys" "relaxed (heap \<sigma>2) (heap \<sigma>3)"
    "decodes_to a b (code_of (heap \<sigma>3) ys) (m_tkLocalVarSig \<sigma>1) (map (clause_of (heap \<sigma>3)) (m_pEH \<sigma>1))"
    by (elim exE conjE) (rule that)
  have "JITCompilationStarted fuel info f p w =
      (case pi_SetILFunctionBody info moduleId tk b w' of (hr, w'') \<Rightarrow> Inr (if FAILED hr then hr else S_OK, p', w''))"
    unfolding reaches_JIT [OF assms(1)] using assms(2) r(1) load delete_list [OF r(5)] by (simp add: split_beta)
  moreover have "d \<in> set (loadedIntoAppDomains p')" using r(4) by (simp add: same_lists_def)
  moreover have "m_tkLocalVarSig \<sigma>1 = m_tkLocalVarSig \<sigma>" "m_pEH \<sigma>1 = m_pEH \<sigma>" using h1(3) by (simp_all add: header_of_def)
  ultimately show ?thesis using i(2) r(2,3,6,7)
    by (intro exI [of _ x] exI [of _ \<sigma>1] exI [of _ \<sigma>2] exI [of _ ys] exI [of _ "heap \<sigma>3"] exI [of _ b] exI [of _ p'] exI [of _ w'])
      simp
qed

text \<open>A method that calls an intercepted function and returns, in the runtime \<open>one_info\<close>.\<close>

definition intercepting :: CorProfiler where
  "intercepting = one_profiler\<lparr>corProfilerInfo := True, enabledModules := [1]\<rparr>"

definition one_functions :: "mdToken \<Rightarrow> FunctionInfo" where
  "one_functions = (\<lambda>_. FunctionInfo_default)(0x0A000001 := example_target)"

definition calling_body :: "BYTE list" where
  "calling_body = [0x1A, 0x28, 1, 0, 0, 0x0A, 0x2A]"

lemma calling_valid: "valid_method 0 calling_body [(0, CEE_CALL, m_Arg32 0x0A000001), (5, CEE_RET, m_pTarget NULL)]"
proof -
  have "case DecoderInit 0 calling_body of Inl _ \<Rightarrow> False | Inr d \<Rightarrow> dec_Code d = Some 1 \<and> decoder_EHCount calling_body d = Inr 0 \<and>
      fat_GetCodeSize (dec_fat d) = 6" by code_simp
  then obtain d where d: "DecoderInit 0 calling_body = Inr d" "dec_Code d = Some 1" "decoder_EHCount calling_body d = Inr 0"
    "fat_GetCodeSize (dec_fat d) = 6" by (auto split: sum.splits)
  have "decode_from (drop 1 calling_body) 6 0 = ([(0, CEE_CALL, m_Arg32 0x0A000001), (5, CEE_RET, m_pTarget NULL)], Complete)"
    by code_simp
  moreover have "\<not> is_branch CEE_RET" "\<not> is_branch CEE_CALL" by code_simp+
  ultimately show ?thesis unfolding valid_method_def using d
    by (intro exI [of _ d] exI [of _ 1]) (simp add: Let_def calling_body_def)
qed

lemma calling_reaches:
  "\<exists>\<sigma>. reaches one_info 7 intercepting [] 1 0x06000001 1 \<sigma> \<and> export_ready \<sigma> [2, 3] \<and> next_addr \<sigma> < 2 ^ 26 \<and>
    content_of (heap \<sigma>) 2 = Some (CEE_CALL, 0, m_Arg32 0x0A000001) \<and> content_of (heap \<sigma>) 3 = Some (CEE_RET, 0, m_pTarget NULL) \<and>
    m_tkLocalVarSig \<sigma> = 0 \<and> m_pEH \<sigma> = []"
proof -
  let ?\<rho> = "CreateILRewriter one_info"
  have \<rho>: "holds ?\<rho> []" "m_pEH ?\<rho> = []" "next_addr ?\<rho> = 2"
    by (simp_all add: CreateILRewriter_def ILRewriter_new_def holds_def dll_def next_of_def prev_of_def IL_def)
  have "\<not> is_branch CEE_RET" "\<not> is_branch CEE_CALL" by code_simp+
  with Import_ready [OF calling_valid \<rho>(1,2)] \<rho>(3) obtain \<sigma> where \<sigma>: "Import (S_OK, 0, calling_body) ?\<rho> = Inr (S_OK, \<sigma>)"
    "export_ready \<sigma> [2, 3]" "next_addr \<sigma> < 2 ^ 26" "content_of (heap \<sigma>) 2 = Some (CEE_CALL, 0, m_Arg32 0x0A000001)"
    "content_of (heap \<sigma>) 3 = Some (CEE_RET, 0, m_pTarget NULL)"
    by (auto simp: upt_rec All_less_Suc numeral_2_eq_2 numeral_3_eq_3)
  have "case Import (S_OK, 0, calling_body) ?\<rho> of Inl _ \<Rightarrow> False | Inr (_, \<sigma>) \<Rightarrow> m_tkLocalVarSig \<sigma> = 0 \<and> m_pEH \<sigma> = []"
    by code_simp
  then have t: "m_tkLocalVarSig \<sigma> = 0" "m_pEH \<sigma> = []" using \<sigma>(1) by simp_all
  have "case GetModuleInfo one_info [] 1 of Inl _ \<Rightarrow> False | Inr m \<Rightarrow> as_appDomainId (mod_assembly m) = 1" by code_simp
  then have "reaches one_info 7 intercepting [] 1 0x06000001 1 \<sigma>"
    using \<sigma>(1) by (auto simp: reaches_def intercepting_def one_profiler_def CorProfiler_new_def SkipAssembly_def Configuration_default_def
        Import_method_def split: sum.splits) (simp_all add: one_info_def example_info_def calling_body_def)
  then show ?thesis using \<sigma>(2-5) t by blast
qed

lemma calling_loader:
  "\<exists>w. GenerateLoadMethod one_info 1 (intercepting\<lparr>loadedIntoAppDomains := [1]\<rparr>) [] = Inr (S_OK, Some 0x06000002, w)"
proof -
  have "case GenerateLoadMethod one_info 1 (intercepting\<lparr>loadedIntoAppDomains := [1]\<rparr>) [] of Inl _ \<Rightarrow> False
    | Inr (hr, tk, _) \<Rightarrow> hr = S_OK \<and> tk = Some 0x06000002" by code_simp
  then show ?thesis by (auto split: sum.splits)
qed

lemma calling_finds:
  assumes "configuration p = configuration one_profiler"
  shows "FindInterceptions p name (one_functions tk) = (if tk = 0x0A000001 then [ConfigTypeInfo_default] else [])"
proof -
  have "FindInterceptions p = FindInterceptions one_profiler" using assms by (intro ext) (simp add: FindInterceptions_def)
  moreover have "W ''F'' \<noteq> []" by code_simp
  then have "FindInterceptions one_profiler name FunctionInfo_default = []"
    by (auto simp: FindInterceptions_def one_profiler_def CorProfiler_new_def Configuration_default_def StrictInterception_default_def
        TargetMethod_default_def target_matches_def FunctionInfo_default_def map_filter_simps TypeInfo_default_def)
  ultimately show ?thesis by (simp add: one_functions_def one_profiler_finds)
qed

text \<open>The method becomes \<open>call 06000002; call interceptor; nop; ret\<close>.\<close>

lemma first_compilation_loads_witness:
  "\<exists>b w p' w1 hr token. JITCompilationStarted 6 one_info 7 intercepting [] = Inr (S_OK, p', w @ [b]) \<and>
     GenerateInterceptMethod one_info 1 example_target [ConfigTypeInfo_default] 0x0A000001
       (intercepting\<lparr>loadedIntoAppDomains := [1]\<rparr>) w1 = Inr (hr, Some token, p', w) \<and>
     decodes_to 0 b ([0x28, 2, 0, 0, 6] @ [0x28] @ put_le 4 token @ [0x00, 0x2A]) 0 [] \<and> 1 \<in> set (loadedIntoAppDomains p')"
proof -
  let ?p = intercepting and ?F = one_functions and ?q = "intercepting\<lparr>loadedIntoAppDomains := [1]\<rparr>"
  obtain \<sigma> where r: "reaches one_info 7 ?p [] 1 0x06000001 1 \<sigma>" "export_ready \<sigma> [2, 3]" "next_addr \<sigma> < 2 ^ 26"
    "content_of (heap \<sigma>) 2 = Some (CEE_CALL, 0, m_Arg32 0x0A000001)" "content_of (heap \<sigma>) 3 = Some (CEE_RET, 0, m_pTarget NULL)"
    "m_tkLocalVarSig \<sigma> = 0" "m_pEH \<sigma> = []"
    using calling_reaches by blast
  have q: "?p\<lparr>loadedIntoAppDomains := List.insert 1 (loadedIntoAppDomains ?p)\<rparr> = ?q" "1 \<notin> set (loadedIntoAppDomains ?p)"
    "configuration ?q = configuration one_profiler"
    by (simp_all add: intercepting_def one_profiler_def CorProfiler_new_def)
  obtain w1 where load: "GenerateLoadMethod one_info 1 ?q [] = Inr (S_OK, Some 0x06000002, w1)" using calling_loader by blast
  have m: "pi_GetModuleMetaData one_info w 1 = (S_OK, one_scope)" "SUCCEEDED S_OK"
    "pi_allocator one_info w 1 n" for w n by (simp_all add: one_info_def example_info_def)
  have "case GetModuleInfo one_info w1 1 of Inl _ \<Rightarrow> False | Inr _ \<Rightarrow> True" by code_simp
  then obtain mi where mi: "GetModuleInfo one_info w1 1 = Inr mi" by (auto split: sum.splits)
  let ?name = "as_name (mod_assembly mi)"
  have "GetFunctionInfo (Suc n) one_scope w 0x06000001 = Inr FunctionInfo_default"
    "GetFunctionInfo (Suc n) one_scope w 0x06000002 = Inr FunctionInfo_default" for n w
    by (simp_all add: one_scope_def one_signature_def example_metadata_def TypeFromToken_def mdt_defs mdtMethodDef_def
        mdtMemberRef_def mdtMethodSpec_def)
  from this [of 5] have F: "GetFunctionInfo 6 one_scope w 0x06000001 = Inr FunctionInfo_default"
    "GetFunctionInfo 6 one_scope w 0x06000002 = Inr FunctionInfo_default" for w
    by (simp_all del: GetFunctionInfo.simps)
  have res: "resolves 6 one_scope ?F (Some (CEE_CALL, 0, m_Arg32 0x06000002))"
    "\<forall>q \<in> set [2, 3]. resolves 6 one_scope ?F (content_of (heap \<sigma>) q)"
    using F(2) one_scope_target r(4,5) by (auto simp: resolves_def one_functions_def)
  have g: "\<exists>hr token r. GenerateInterceptMethod one_info 1 example_target [ConfigTypeInfo_default] 0x0A000001 p w = Inr (hr, Some token, r)"
    if "configuration p = configuration one_profiler" for p w using one_interceptor_generated [OF that] .
  have gen: "generates one_info 1 ?F ?name ?q"
    unfolding generates_def calling_finds [OF q(3)]
    using g q(3) by (auto simp: same_lists_def one_functions_def split: if_splits)
  obtain hr token p1 w2 where i: "GenerateInterceptMethod one_info 1 example_target [ConfigTypeInfo_default] 0x0A000001 ?q w1 =
      Inr (hr, Some token, p1, w2)" using g [OF q(3), of w1] by auto
  have zero: "(0 :: nat) mod 4 = 0" by simp
  note first_compilation_loads [OF r(1) q(2) r(2,3) m(1,2) F(1) load [folded q(1)] m(2) m(1,2) mi res gen [folded q(1)] m(3) zero, unfolded q(1)]
  then obtain \<sigma>2 :: ILRewriter and ys h b p' w' where
    j: "rewriting (interceptor_of one_info 1 ?F ?name) (?q, w1)
        (Some (CEE_CALL, 0, m_Arg32 0x06000002) # map (content_of (heap \<sigma>)) [2, 3]) = (map (content_of (heap \<sigma>2)) ys, (p', w'))"
    "relaxed (heap \<sigma>2) h" "decodes_to 0 b (code_of h ys) (m_tkLocalVarSig \<sigma>) (map (clause_of h) (m_pEH \<sigma>))"
    "JITCompilationStarted 6 one_info 7 ?p [] =
      (case pi_SetILFunctionBody one_info 1 0x06000001 b w' of (hr, w'') \<Rightarrow> Inr (if FAILED hr then hr else S_OK, p', w''))"
    "1 \<in> set (loadedIntoAppDomains p')"
    by (elim exE conjE) (rule that)
  have "interceptor_of one_info 1 ?F ?name (?q, w1) (Some (CEE_CALL, 0, m_Arg32 0x06000002)) = None"
    "interceptor_of one_info 1 ?F ?name (?q, w1) (Some (CEE_CALL, 0, m_Arg32 0x0A000001)) = Some (token, p1, w2)"
    "interceptor_of one_info 1 ?F ?name s (Some (CEE_RET, 0, m_pTarget NULL)) = None" for s
    using i calling_finds [OF q(3), of _ "0x06000002"] calling_finds [OF q(3), of _ "0x0A000001"]
    by (simp_all add: interceptor_of_def one_functions_def split: prod.splits)
  then have c: "map (content_of (heap \<sigma>2)) ys = map (\<lambda>(op, a). Some (op, 0, a)) [(CEE_CALL, m_Arg32 0x06000002), (CEE_CALL, m_Arg32 token),
      (CEE_NOP, m_Arg32 0x0A000001), (CEE_RET, m_pTarget NULL)]" "p' = p1" "w' = w2"
    using j(1) r(4,5) by simp_all
  have lin: "linear [(CEE_CALL, m_Arg32 0x06000002), (CEE_CALL, m_Arg32 token), (CEE_NOP, m_Arg32 0x0A000001), (CEE_RET, m_pTarget NULL)]"
    by (simp add: arg_fits_def is_branch_def flags_of_def CEE_COUNT_def)
  have "put_le 4 (0x06000002 :: 32 word) = [2, 0, 0, 6]" by code_simp
  then have "code_of h ys = [0x28, 2, 0, 0, 6] @ [0x28] @ put_le 4 token @ [0x00, 0x2A]"
    using linear_heap(2) [OF c(1) lin j(2)] by (simp add: opcode_bytes_def flags_of_def)
  then show ?thesis using j(3-5) r(6,7) i c(2,3)
    by (intro exI [of _ b] exI [of _ w2] exI [of _ p1] exI [of _ w1] exI [of _ hr] exI [of _ token])
      (simp add: one_info_def example_info_def)
qed

end
