(* ===== verification/ClassFactory.thy ===== *)
theory ClassFactory
  imports Profiler
begin

text \<open>
  The COM server (\<^verbatim>\<open>ClassFactory.cpp\<close>, \<^verbatim>\<open>dllmain.cpp\<close> and the \<open>IUnknown\<close> methods of \<open>CorProfiler\<close>): class factories and
  profilers with their reference counts, in a store that forgets an object when it is deleted. An access to a deleted
  object is a fault. The counts are atomic, so each method that changes one is a single step. \<open>new\<close> throws rather than
  answer null, so the tests for null behind it never hold.
\<close>

section \<open>Identifiers\<close>

definition IID_IUnknown :: GUID where
  "IID_IUnknown = \<lparr>Data1 = 0, Data2 = 0, Data3 = 0, Data4 = [0xC0, 0, 0, 0, 0, 0, 0, 0x46]\<rparr>"

definition IID_IClassFactory :: GUID where
  "IID_IClassFactory = \<lparr>Data1 = 1, Data2 = 0, Data3 = 0, Data4 = [0xC0, 0, 0, 0, 0, 0, 0, 0x46]\<rparr>"

definition CLSID_CorProfiler :: GUID where
  "CLSID_CorProfiler = \<lparr>Data1 = 0x585022b6, Data2 = 0x31e9, Data3 = 0x4ddf,
     Data4 = [0xb3, 0x5d, 0x3c, 0x25, 0x6d, 0x0a, 0x16, 0xf3]\<rparr>"

definition uuid_ICorProfilerCallback :: GUID where
  "uuid_ICorProfilerCallback = \<lparr>Data1 = 0x176FBED1, Data2 = 0xA55C, Data3 = 0x4796,
     Data4 = [0x98, 0xCA, 0xA9, 0xDA, 0x0E, 0xF8, 0x83, 0xE7]\<rparr>"

definition uuid_ICorProfilerCallback2 :: GUID where
  "uuid_ICorProfilerCallback2 = \<lparr>Data1 = 0x8A8CC829, Data2 = 0xCCF2, Data3 = 0x49fe,
     Data4 = [0xBB, 0xAE, 0x0F, 0x02, 0x22, 0x28, 0x07, 0x1A]\<rparr>"

definition uuid_ICorProfilerCallback3 :: GUID where
  "uuid_ICorProfilerCallback3 = \<lparr>Data1 = 0x4FD2ED52, Data2 = 0x7731, Data3 = 0x4b8d,
     Data4 = [0x94, 0x69, 0x03, 0xD2, 0xCC, 0x30, 0x86, 0xC5]\<rparr>"

definition uuid_ICorProfilerCallback4 :: GUID where
  "uuid_ICorProfilerCallback4 = \<lparr>Data1 = 0x7B63B2E3, Data2 = 0x107D, Data3 = 0x4d48,
     Data4 = [0xB2, 0xF6, 0xF6, 0x1E, 0x22, 0x94, 0x70, 0xD2]\<rparr>"

definition uuid_ICorProfilerCallback5 :: GUID where
  "uuid_ICorProfilerCallback5 = \<lparr>Data1 = 0x8DFBA405, Data2 = 0x8C9F, Data3 = 0x45F8,
     Data4 = [0xBF, 0xFA, 0x83, 0xB1, 0x4C, 0xEF, 0x78, 0xB5]\<rparr>"

definition uuid_ICorProfilerCallback6 :: GUID where
  "uuid_ICorProfilerCallback6 = \<lparr>Data1 = 0xFC13DF4B, Data2 = 0x4448, Data3 = 0x4F4F,
     Data4 = [0x95, 0x0C, 0xBA, 0x8D, 0x19, 0xD0, 0x0C, 0x36]\<rparr>"

definition uuid_ICorProfilerCallback7 :: GUID where
  "uuid_ICorProfilerCallback7 = \<lparr>Data1 = 0xF76A2DBA, Data2 = 0x1D52, Data3 = 0x4539,
     Data4 = [0x86, 0x6C, 0x2A, 0xA5, 0x18, 0xF9, 0xEF, 0xC3]\<rparr>"

definition uuid_ICorProfilerCallback8 :: GUID where
  "uuid_ICorProfilerCallback8 = \<lparr>Data1 = 0x5BED9B15, Data2 = 0xC079, Data3 = 0x4D47,
     Data4 = [0xBF, 0xE2, 0x21, 0x5A, 0x14, 0x0C, 0x07, 0xE0]\<rparr>"

section \<open>The objects\<close>

text \<open>The methods that count. \<open>Release\<close> answers no object when it deleted it, and the deletion of a profiler the number of
  references to the runtime's interface it let go.\<close>

definition ClassFactory_new :: INT32 where
  "ClassFactory_new = 0"

definition ClassFactory_AddRef :: "INT32 \<Rightarrow> ULONG \<times> INT32" where
  "ClassFactory_AddRef n = (n + 1, n + 1)"

definition ClassFactory_Release :: "INT32 \<Rightarrow> ULONG \<times> INT32 option" where
  "ClassFactory_Release n =
     (let count = n - 1 in (count, if sint count \<le> 0 then None else Some count))"

definition CorProfiler_AddRef :: "CorProfiler \<Rightarrow> ULONG \<times> CorProfiler" where
  "CorProfiler_AddRef p = (refCount p + 1, p\<lparr>refCount := refCount p + 1\<rparr>)"

definition CorProfiler_Release :: "CorProfiler \<Rightarrow> ULONG \<times> CorProfiler option \<times> nat" where
  "CorProfiler_Release p =
     (let count = refCount p - 1 in
      (count, if sint count \<le> 0 then None else Some (p\<lparr>refCount := count\<rparr>),
       if sint count \<le> 0 then CorProfiler_delete p else 0))"

definition ClassFactory_offers :: "GUID \<Rightarrow> bool" where
  "ClassFactory_offers riid \<longleftrightarrow> riid = IID_IUnknown \<or> riid = IID_IClassFactory"

definition CorProfiler_offers :: "GUID \<Rightarrow> bool" where
  "CorProfiler_offers riid \<longleftrightarrow>
     riid = uuid_ICorProfilerCallback8 \<or> riid = uuid_ICorProfilerCallback7 \<or> riid = uuid_ICorProfilerCallback6 \<or>
     riid = uuid_ICorProfilerCallback5 \<or> riid = uuid_ICorProfilerCallback4 \<or> riid = uuid_ICorProfilerCallback3 \<or>
     riid = uuid_ICorProfilerCallback2 \<or> riid = uuid_ICorProfilerCallback \<or> riid = IID_IUnknown"

datatype server_object = Factory INT32 | Profiler CorProfiler

record server =
  objects :: "nat \<Rightarrow> server_object option"
  next_object :: nat
  DllHandle :: nat

fun count_of :: "server_object \<Rightarrow> INT32" where
  "count_of (Factory n) = n"
| "count_of (Profiler p) = refCount p"

definition new_object :: "server_object \<Rightarrow> server \<Rightarrow> nat \<times> server" where
  "new_object o' s =
     (next_object s, s\<lparr>objects := (objects s)(next_object s \<mapsto> o'), next_object := next_object s + 1\<rparr>)"

definition object_AddRef :: "nat \<Rightarrow> server \<Rightarrow> (ULONG \<times> server) outcome" where
  "object_AddRef x s =
     (case objects s x of
        None \<Rightarrow> Inl NullDeref
      | Some (Factory n) \<Rightarrow>
          (case ClassFactory_AddRef n of (r, n) \<Rightarrow> Inr (r, s\<lparr>objects := (objects s)(x \<mapsto> Factory n)\<rparr>))
      | Some (Profiler p) \<Rightarrow>
          (case CorProfiler_AddRef p of (r, p) \<Rightarrow> Inr (r, s\<lparr>objects := (objects s)(x \<mapsto> Profiler p)\<rparr>)))"

definition object_Release :: "nat \<Rightarrow> server \<Rightarrow> (ULONG \<times> nat \<times> server) outcome" where
  "object_Release x s =
     (case objects s x of
        None \<Rightarrow> Inl NullDeref
      | Some (Factory n) \<Rightarrow>
          (case ClassFactory_Release n of (r, n) \<Rightarrow>
             Inr (r, 0, s\<lparr>objects := (objects s)(x := map_option Factory n)\<rparr>))
      | Some (Profiler p) \<Rightarrow>
          (case CorProfiler_Release p of (r, p, released) \<Rightarrow>
             Inr (r, released, s\<lparr>objects := (objects s)(x := map_option Profiler p)\<rparr>)))"

text \<open>The pointer the caller gets back: none when it is null or not written.\<close>

definition ClassFactory_QueryInterface :: "GUID \<Rightarrow> nat \<Rightarrow> server \<Rightarrow> (HRESULT \<times> nat option \<times> server) outcome" where
  "ClassFactory_QueryInterface riid x s =
     (if ClassFactory_offers riid then bindO (object_AddRef x s) (\<lambda>(_, s). Inr (S_OK, Some x, s))
      else Inr (E_NOINTERFACE, None, s))"

definition CorProfiler_QueryInterface :: "GUID \<Rightarrow> nat \<Rightarrow> server \<Rightarrow> (HRESULT \<times> nat option \<times> server) outcome" where
  "CorProfiler_QueryInterface riid x s =
     (if CorProfiler_offers riid then bindO (object_AddRef x s) (\<lambda>(_, s). Inr (S_OK, Some x, s))
      else Inr (E_NOINTERFACE, None, s))"

text \<open>\<open>aggregated\<close> is whether there is an outer object.\<close>

definition ClassFactory_CreateInstance :: "bool \<Rightarrow> GUID \<Rightarrow> server \<Rightarrow> (HRESULT \<times> nat option \<times> server) outcome" where
  "ClassFactory_CreateInstance aggregated riid s =
     (if aggregated then Inr (CLASS_E_NOAGGREGATION, None, s)
      else case new_object (Profiler CorProfiler_new) s of (p, s) \<Rightarrow> CorProfiler_QueryInterface riid p s)"

definition ClassFactory_LockServer :: "bool \<Rightarrow> HRESULT" where
  "ClassFactory_LockServer fLock = S_OK"

section \<open>The entry points\<close>

definition DllMain :: "nat \<Rightarrow> server \<Rightarrow> bool \<times> server" where
  "DllMain hModule s = (True, s\<lparr>DllHandle := hModule\<rparr>)"

text \<open>\<open>ppv\<close> is whether the caller passes a place for the pointer.\<close>

definition DllGetClassObject :: "GUID \<Rightarrow> GUID \<Rightarrow> bool \<Rightarrow> server \<Rightarrow> (HRESULT \<times> nat option \<times> server) outcome" where
  "DllGetClassObject rclsid riid ppv s =
     (if \<not> ppv \<or> rclsid \<noteq> CLSID_CorProfiler then Inr (E_FAIL, None, s)
      else case new_object (Factory ClassFactory_new) s of (factory, s) \<Rightarrow> ClassFactory_QueryInterface riid factory s)"

definition DllCanUnloadNow :: HRESULT where
  "DllCanUnloadNow = S_OK"

section \<open>Clients\<close>

text \<open>What the runtime may do with the server: it calls an object it holds a reference of, and gives back only references
  it holds. The second component of the state counts the references it holds.\<close>

datatype server_op =
    GetClassObject GUID GUID bool | CreateInstance nat bool GUID | LockServer nat bool
  | QueryInterfaceOf nat GUID | AddRefOf nat | ReleaseOf nat | CanUnloadNow | LoadDll nat

type_synonym server_state = "server \<times> (nat \<Rightarrow> nat)"

definition handed :: "nat option \<Rightarrow> (nat \<Rightarrow> nat) \<Rightarrow> nat \<Rightarrow> nat" where
  "handed r held = (case r of None \<Rightarrow> held | Some x \<Rightarrow> held(x := held x + 1))"

definition server_exec :: "server_op \<Rightarrow> server_state \<Rightarrow> server_state outcome" where
  "server_exec op = (\<lambda>(s, held).
     case op of
       GetClassObject rclsid riid ppv \<Rightarrow>
         bindO (DllGetClassObject rclsid riid ppv s) (\<lambda>(_, r, s). Inr (s, handed r held))
     | CreateInstance x aggregated riid \<Rightarrow>
         bindO (ClassFactory_CreateInstance aggregated riid s) (\<lambda>(_, r, s). Inr (s, handed r held))
     | LockServer x fLock \<Rightarrow> Inr (s, held)
     | QueryInterfaceOf x riid \<Rightarrow>
         (case objects s x of
            None \<Rightarrow> Inl NullDeref
          | Some (Factory _) \<Rightarrow> bindO (ClassFactory_QueryInterface riid x s) (\<lambda>(_, r, s). Inr (s, handed r held))
          | Some (Profiler _) \<Rightarrow> bindO (CorProfiler_QueryInterface riid x s) (\<lambda>(_, r, s). Inr (s, handed r held)))
     | AddRefOf x \<Rightarrow> bindO (object_AddRef x s) (\<lambda>(_, s). Inr (s, handed (Some x) held))
     | ReleaseOf x \<Rightarrow> bindO (object_Release x s) (\<lambda>(_, _, s). Inr (s, held(x := held x - 1)))
     | CanUnloadNow \<Rightarrow> Inr (s, held)
     | LoadDll hModule \<Rightarrow> Inr (snd (DllMain hModule s), held))"

fun server_allowed :: "server_op \<Rightarrow> server_state \<Rightarrow> bool" where
  "server_allowed (CreateInstance x _ _) (s, held) \<longleftrightarrow>
     0 < held x \<and> (case objects s x of Some (Factory _) \<Rightarrow> True | _ \<Rightarrow> False)"
| "server_allowed (LockServer x _) (s, held) \<longleftrightarrow> 0 < held x"
| "server_allowed (QueryInterfaceOf x _) (s, held) \<longleftrightarrow> 0 < held x \<and> held x + 1 < 2 ^ 31"
| "server_allowed (AddRefOf x) (s, held) \<longleftrightarrow> 0 < held x \<and> held x + 1 < 2 ^ 31"
| "server_allowed (ReleaseOf x) (s, held) \<longleftrightarrow> 0 < held x"
| "server_allowed _ _ \<longleftrightarrow> True"

definition server_initial :: "server_state \<Rightarrow> bool" where
  "server_initial = (\<lambda>(s, held). objects s = Map.empty \<and> held = (\<lambda>_. 0))"

section \<open>The counts\<close>

text \<open>Every object counts the references the runtime holds, and nothing is beyond the next address.\<close>

definition counts :: "server_object option \<Rightarrow> nat \<Rightarrow> bool" where
  "counts r n = (case r of None \<Rightarrow> n = 0 | Some o' \<Rightarrow> count_of o' = word_of_nat n \<and> n < 2 ^ 31)"

lemma counts_simps [simp]:
  "counts None n \<longleftrightarrow> n = 0" "counts (Some o') n \<longleftrightarrow> count_of o' = word_of_nat n \<and> n < 2 ^ 31"
  by (simp_all add: counts_def)

definition counted :: "server_state \<Rightarrow> bool" where
  "counted = (\<lambda>(s, held). (\<forall>x. counts (objects s x) (held x)) \<and> (\<forall>x \<ge> next_object s. objects s x = None))"

lemma countedD: "counted (s, held) \<Longrightarrow> counts (objects s x) (held x)"
  by (simp add: counted_def)

lemma sint_of_small: "n < 2 ^ 31 \<Longrightarrow> sint (word_of_nat n :: INT32) = int n"
  by (simp add: signed_of_nat signed_take_bit_int_eq_self)

lemma counted_object:
  assumes "counted (s, held)" and "0 < held x"
  obtains o' where "objects s x = Some o'" "count_of o' = word_of_nat (held x)" "held x < 2 ^ 31" "x < next_object s"
proof -
  obtain o' where o': "objects s x = Some o'" "count_of o' = word_of_nat (held x)" "held x < 2 ^ 31"
    using countedD [OF assms(1), of x] assms(2) by (cases "objects s x") auto
  moreover have "x < next_object s" using assms(1) o'(1) by (fastforce simp: counted_def not_le [symmetric])
  ultimately show thesis by (rule that)
qed

text \<open>A change of one object and of the references to it.\<close>

lemma counted_upd:
  assumes "counted (s, held)" and "x < next_object s"
    and "counts r n"
  shows "counted (s\<lparr>objects := (objects s)(x := r)\<rparr>, held(x := n))"
  using assms by (auto simp: counted_def)

lemma counted_new:
  assumes "counted (s, held)" and "new_object o' s = (x, s')" and "count_of o' = 0"
  shows "counted (s', held)" "objects s' x = Some o'" "held x = 0" "x < next_object s'" "x = next_object s"
proof -
  have n: "objects s (next_object s) = None" using assms(1) by (auto simp: counted_def)
  then have h: "held (next_object s) = 0" using countedD [OF assms(1), of "next_object s"] by simp
  show "counted (s', held)" "objects s' x = Some o'" "held x = 0" "x < next_object s'" "x = next_object s"
    using assms n h by (auto simp: new_object_def counted_def)
qed

lemma AddRef_one:
  assumes "counted (s, held)" and "objects s x = Some o'" and "held x + 1 < 2 ^ 31"
  shows "\<exists>r s'. object_AddRef x s = Inr (r, s') \<and> counted (s', handed (Some x) held) \<and>
    (\<forall>y. y \<noteq> x \<longrightarrow> objects s' y = objects s y)"
proof -
  have c: "count_of o' = word_of_nat (held x)" using countedD [OF assms(1), of x] assms(2) by simp
  have x: "x < next_object s" using assms(1,2) by (fastforce simp: counted_def not_le [symmetric])
  show ?thesis
  proof (cases o')
    case (Factory n)
    then show ?thesis using c assms(2,3) counted_upd [OF assms(1) x, where r = "Some (Factory (n + 1))" and n = "held x + 1"]
      by (simp add: object_AddRef_def ClassFactory_AddRef_def handed_def)
  next
    case (Profiler p)
    then show ?thesis
      using c assms(2,3) counted_upd [OF assms(1) x, where r = "Some (Profiler (p\<lparr>refCount := refCount p + 1\<rparr>))" and n = "held x + 1"]
      by (simp add: object_AddRef_def CorProfiler_AddRef_def handed_def)
  qed
qed

lemma Release_one:
  assumes "counted (s, held)" and "0 < held x"
  shows "\<exists>r n s'. object_Release x s = Inr (r, n, s') \<and> counted (s', held(x := held x - 1)) \<and>
    (objects s' x = None \<longleftrightarrow> held x = 1) \<and> (\<forall>y. y \<noteq> x \<longrightarrow> objects s' y = objects s y)"
proof -
  obtain o' where o': "objects s x = Some o'" "count_of o' = word_of_nat (held x)" "held x < 2 ^ 31" "x < next_object s"
    by (rule counted_object [OF assms])
  have c: "count_of o' - 1 = word_of_nat (held x - 1)" using o'(2) assms(2) by (simp add: of_nat_diff)
  have z: "sint (count_of o' - 1) \<le> 0 \<longleftrightarrow> held x = 1"
    unfolding c using sint_of_small [of "held x - 1"] o'(3) assms(2) by auto
  show ?thesis
  proof (cases o')
    case (Factory n)
    let ?r = "if held x = 1 then None else Some (Factory (n - 1))"
    have "counted (s\<lparr>objects := (objects s)(x := ?r)\<rparr>, held(x := held x - 1))"
      using c o'(3) Factory by (intro counted_upd [OF assms(1) o'(4)]) auto
    then show ?thesis using z o'(1) Factory
      by (auto simp: object_Release_def ClassFactory_Release_def Let_def)
  next
    case (Profiler p)
    let ?r = "if held x = 1 then None else Some (Profiler (p\<lparr>refCount := refCount p - 1\<rparr>))"
    have "counted (s\<lparr>objects := (objects s)(x := ?r)\<rparr>, held(x := held x - 1))"
      using c o'(3) Profiler by (intro counted_upd [OF assms(1) o'(4)]) auto
    then show ?thesis using z o'(1) Profiler
      by (auto simp: object_Release_def CorProfiler_Release_def Let_def)
  qed
qed

text \<open>Asking a live object for an interface, or creating one and asking it, keeps the counts and every other object.\<close>

definition keeps_others :: "server_state \<Rightarrow> server_state \<Rightarrow> bool" where
  "keeps_others = (\<lambda>(s, held) (s', held').
     \<forall>y. held y = 0 \<longrightarrow> objects s y \<noteq> None \<longrightarrow> objects s' y = objects s y \<and> held' y = 0)"

definition asks :: "(server \<Rightarrow> (HRESULT \<times> nat option \<times> server) outcome) \<Rightarrow> server_state \<Rightarrow> bool" where
  "asks f = (\<lambda>(s, held). \<exists>hr r s'. f s = Inr (hr, r, s') \<and> counted (s', handed r held) \<and>
     keeps_others (s, held) (s', handed r held))"

lemma QueryInterface_asks:
  assumes "counted (s, held)" and "objects s x = Some o'" and "held x + 1 < 2 ^ 31"
  shows "\<exists>hr r s'. ClassFactory_QueryInterface riid x s = Inr (hr, r, s') \<and> counted (s', handed r held) \<and>
      (r = None \<and> s' = s \<or> r = Some x \<and> (\<forall>y. y \<noteq> x \<longrightarrow> objects s' y = objects s y))" (is ?F)
    and "\<exists>hr r s'. CorProfiler_QueryInterface riid x s = Inr (hr, r, s') \<and> counted (s', handed r held) \<and>
      (r = None \<and> s' = s \<or> r = Some x \<and> (\<forall>y. y \<noteq> x \<longrightarrow> objects s' y = objects s y))" (is ?P)
proof -
  obtain c s' where s': "object_AddRef x s = Inr (c, s')" "counted (s', handed (Some x) held)"
      "\<forall>y. y \<noteq> x \<longrightarrow> objects s' y = objects s y"
    using AddRef_one [OF assms] by blast
  show ?F
    using s' assms(1) by (cases "ClassFactory_offers riid") (auto simp: ClassFactory_QueryInterface_def handed_def)
  show ?P
    using s' assms(1) by (cases "CorProfiler_offers riid") (auto simp: CorProfiler_QueryInterface_def handed_def)
qed

lemma creation_asks:
  assumes "counted (s, held)"
  shows "asks (ClassFactory_CreateInstance aggregated riid) (s, held)"
    and "asks (DllGetClassObject rclsid riid ppv) (s, held)"
proof -
  have none: "counted (s, handed None held)" "keeps_others (s, held) (s, handed None held)"
    using assms by (simp_all add: handed_def keeps_others_def)
  have fresh: "y \<noteq> next_object s" if "objects s y = Some o'" for y o' using assms that by (auto simp: counted_def)
  obtain p t where p: "new_object (Profiler CorProfiler_new) s = (p, t)" by fastforce
  note pc = counted_new [OF assms p] and ot = p [unfolded new_object_def, simplified]
  have pt: "counted (t, held)" "objects t p = Some (Profiler CorProfiler_new)" "held p + 1 < 2 ^ 31" "p = next_object s"
    using pc by (simp_all add: CorProfiler_new_def)
  obtain hr r t' where "CorProfiler_QueryInterface riid p t = Inr (hr, r, t')" "counted (t', handed r held)"
      "r = None \<and> t' = t \<or> r = Some p \<and> (\<forall>y. y \<noteq> p \<longrightarrow> objects t' y = objects t y)"
    using QueryInterface_asks(2) [OF pt(1-3)] by blast
  then show "asks (ClassFactory_CreateInstance aggregated riid) (s, held)"
    using none p ot
    by (auto simp: asks_def ClassFactory_CreateInstance_def keeps_others_def handed_def dest: fresh)
  obtain f u where f: "new_object (Factory ClassFactory_new) s = (f, u)" by fastforce
  note fc = counted_new [OF assms f] and ou = f [unfolded new_object_def, simplified]
  have fu: "counted (u, held)" "objects u f = Some (Factory ClassFactory_new)" "held f + 1 < 2 ^ 31" "f = next_object s"
    using fc by (simp_all add: ClassFactory_new_def)
  obtain hr r u' where "ClassFactory_QueryInterface riid f u = Inr (hr, r, u')" "counted (u', handed r held)"
      "r = None \<and> u' = u \<or> r = Some f \<and> (\<forall>y. y \<noteq> f \<longrightarrow> objects u' y = objects u y)"
    using QueryInterface_asks(1) [OF fu(1-3)] by blast
  then show "asks (DllGetClassObject rclsid riid ppv) (s, held)"
    using none f ou by (auto simp: asks_def DllGetClassObject_def keeps_others_def handed_def dest: fresh)
qed

text \<open>Every operation used as allowed completes, keeps the counts, and leaves alone the objects nobody holds.\<close>

lemma server_step:
  assumes "counted st" and "server_allowed op st"
  shows "\<exists>st'. server_exec op st = Inr st' \<and> counted st' \<and> keeps_others st st'"
proof -
  obtain s held where st: "st = (s, held)" by fastforce
  note c = assms(1) [unfolded st]
  show ?thesis
  proof (cases op)
    case (GetClassObject rclsid riid ppv)
    then show ?thesis using creation_asks(2) [OF c, of rclsid riid ppv] by (auto simp: st asks_def server_exec_def)
  next
    case (CreateInstance x aggregated riid)
    then show ?thesis using creation_asks(1) [OF c, of aggregated riid] by (auto simp: st asks_def server_exec_def)
  next
    case (LockServer x fLock)
    then show ?thesis using c by (auto simp: st server_exec_def keeps_others_def)
  next
    case (QueryInterfaceOf x riid)
    with assms(2) have h: "0 < held x" "held x + 1 < 2 ^ 31" by (simp_all add: st)
    obtain o' where o': "objects s x = Some o'" using counted_object [OF c h(1)] by blast
    show ?thesis using QueryInterface_asks [OF c o' h(2), of riid] h(1) o' QueryInterfaceOf
      by (cases o') (auto simp: st server_exec_def keeps_others_def handed_def)
  next
    case (AddRefOf x)
    with assms(2) have h: "0 < held x" "held x + 1 < 2 ^ 31" by (simp_all add: st)
    obtain o' where o': "objects s x = Some o'" using counted_object [OF c h(1)] by blast
    show ?thesis using AddRef_one [OF c o' h(2)] h(1) AddRefOf
      by (auto simp: st server_exec_def keeps_others_def handed_def)
  next
    case (ReleaseOf x)
    with assms(2) have h: "0 < held x" by (simp add: st)
    show ?thesis using Release_one [OF c h] h ReleaseOf
      by (auto simp: st server_exec_def keeps_others_def)
  next
    case CanUnloadNow
    then show ?thesis using c by (auto simp: st server_exec_def keeps_others_def)
  next
    case (LoadDll hModule)
    then show ?thesis using c by (auto simp: st server_exec_def keeps_others_def DllMain_def counted_def)
  qed
qed

text \<open>Giving back all the references held of an object.\<close>

lemma releases_free:
  "counted (s, held) \<Longrightarrow> held x = Suc n \<Longrightarrow>
    \<exists>s'. foldO server_exec (replicate (Suc n) (ReleaseOf x)) (s, held) = Inr (s', held(x := 0)) \<and> objects s' x = None \<and>
      (\<forall>y. y \<noteq> x \<longrightarrow> objects s' y = objects s y)"
proof (induction n arbitrary: s held)
  case 0
  obtain r k t where t: "object_Release x s = Inr (r, k, t)" "objects t x = None" "\<forall>y. y \<noteq> x \<longrightarrow> objects t y = objects s y"
    using Release_one [OF 0(1), of x] 0(2) by auto
  have "held(x := held x - 1) = held(x := 0)" using 0(2) by simp
  then have "server_exec (ReleaseOf x) (s, held) = Inr (t, held(x := 0))" using t(1) by (simp add: server_exec_def)
  then have "foldO server_exec (replicate (Suc 0) (ReleaseOf x)) (s, held) = Inr (t, held(x := 0))" by simp
  then show ?case using t(2,3) by blast
next
  case (Suc n)
  obtain r k t where t: "object_Release x s = Inr (r, k, t)" "counted (t, held(x := held x - 1))"
    "\<forall>y. y \<noteq> x \<longrightarrow> objects t y = objects s y"
    using Release_one [OF Suc.prems(1), of x] Suc.prems(2) by auto
  have e: "server_exec (ReleaseOf x) (s, held) = Inr (t, held(x := held x - 1))" using t(1) by (simp add: server_exec_def)
  have "(held(x := held x - 1)) x = Suc n" using Suc.prems(2) by simp
  from Suc.IH [OF t(2) this] obtain s' where s': "foldO server_exec (replicate (Suc n) (ReleaseOf x)) (t, held(x := held x - 1)) =
      Inr (s', held(x := held x - 1, x := 0))" "objects s' x = None" "\<forall>y. y \<noteq> x \<longrightarrow> objects s' y = objects t y" by blast
  have "held(x := held x - 1, x := 0) = held(x := 0)" by (rule fun_upd_upd)
  then have "foldO server_exec (replicate (Suc (Suc n)) (ReleaseOf x)) (s, held) = Inr (s', held(x := 0))"
    using s'(1) unfolding replicate_Suc [of "Suc n"] foldO.simps(2) [of _ _ "replicate (Suc n) _"] e bindO_simps by metis
  moreover have "\<forall>y. y \<noteq> x \<longrightarrow> objects s' y = objects s y" using s'(3) t(3) by simp
  ultimately show ?case using s'(2) by blast
qed

interpretation com_server: machine server_initial server_allowed server_exec counted
proof unfold_locales
  show "counted s" if "server_initial s" for s using that by (auto simp: server_initial_def counted_def)
  show "\<exists>s'. server_exec op s = Inr s' \<and> counted s'" if "counted s" "server_allowed op s" for s op
    using server_step [OF that] by blast
qed

text \<open>An object nobody holds, though it lives.\<close>

definition unheld :: "nat \<Rightarrow> server_object \<Rightarrow> server_state \<Rightarrow> bool" where
  "unheld x o' = (\<lambda>(s, held). counted (s, held) \<and> objects s x = Some o' \<and> held x = 0)"

interpretation leaked: machine "unheld x o'" server_allowed server_exec "unheld x o'" for x o'
proof unfold_locales
  show "\<exists>s'. server_exec op s = Inr s' \<and> unheld x o' s'" if "unheld x o' s" "server_allowed op s" for s op
    using server_step [of s op] that by (auto simp: unheld_def keeps_others_def)
qed

text \<open>C8: Whatever the runtime did with the server as allowed, whatever it may do next completes without touching a
  deleted object, and every object it then holds a reference of is alive and counts exactly the references it holds.\<close>

theorem server_counts_references:
  assumes "reachable server_initial server_allowed server_exec st" and "server_allowed op st"
  shows "\<exists>s' held'. server_exec op st = Inr (s', held') \<and>
    (\<forall>x. 0 < held' x \<longrightarrow> (\<exists>o'. objects s' x = Some o' \<and> count_of o' = word_of_nat (held' x)))"
proof -
  obtain s' held' where s': "server_exec op st = Inr (s', held')" "counted (s', held')"
    using com_server.reachable_progress [OF assms] by auto
  then show ?thesis by (blast elim: counted_object)
qed

text \<open>C36: A profiler created for an interface it does not offer is lost: the caller gets no pointer, and whatever the
  runtime does with the server afterwards, the object stays where it is, with a count of nought that no release reaches.\<close>

theorem failed_creation_leaks:
  assumes "reachable server_initial server_allowed server_exec (s, held)" and "\<not> CorProfiler_offers riid"
  shows "\<exists>x s'. ClassFactory_CreateInstance False riid s = Inr (E_NOINTERFACE, None, s') \<and> objects s x = None \<and>
    (\<forall>ops. allowed_run server_allowed server_exec ops (s', held) \<longrightarrow>
       (\<exists>t held'. foldO server_exec ops (s', held) = Inr (t, held') \<and> objects t x = Some (Profiler CorProfiler_new)))"
proof -
  obtain x s' where x: "new_object (Profiler CorProfiler_new) s = (x, s')" by fastforce
  have c: "counted (s, held)" by (rule com_server.reachable_inv [OF assms(1)])
  have u: "unheld x (Profiler CorProfiler_new) (s', held)"
    using counted_new [OF c x] by (simp add: unheld_def CorProfiler_new_def)
  have "objects s x = None" using c counted_new(5) [OF c x] by (auto simp: counted_def CorProfiler_new_def)
  then show ?thesis
    using x assms(2) leaked.run_completes [OF u]
    by (fastforce simp: ClassFactory_CreateInstance_def CorProfiler_QueryInterface_def unheld_def)
qed

text \<open>C9: Nothing the runtime holds is kept from it: in every state it can bring about, giving back all the references
  it holds of an object completes, and with the last of them the object is deleted, while every other object and what
  the runtime holds of it stay as they are.\<close>

theorem released_objects_die:
  assumes "reachable server_initial server_allowed server_exec (s, held)" and "0 < held x"
  shows "\<exists>s'. foldO server_exec (replicate (held x) (ReleaseOf x)) (s, held) = Inr (s', held(x := 0)) \<and>
    objects s' x = None \<and> (\<forall>y. y \<noteq> x \<longrightarrow> objects s' y = objects s y)"
  using releases_free [OF com_server.reachable_inv [OF assms(1)], of x "held x - 1"] assms(2) by simp

definition no_server :: server_state where
  "no_server = (\<lparr>objects = Map.empty, next_object = 0, DllHandle = 0\<rparr>, \<lambda>_. 0)"

lemma no_server_reachable: "reachable server_initial server_allowed server_exec no_server"
  by (rule reach_initial) (simp add: server_initial_def no_server_def)

lemma server_counts_references_witness:
  "\<exists>s' held'. server_exec (GetClassObject CLSID_CorProfiler IID_IClassFactory True) no_server = Inr (s', held') \<and>
    (\<forall>x. 0 < held' x \<longrightarrow> (\<exists>o'. objects s' x = Some o' \<and> count_of o' = word_of_nat (held' x)))"
  by (rule server_counts_references [OF no_server_reachable]) simp

lemma failed_creation_leaks_witness:
  "\<exists>x s'. ClassFactory_CreateInstance False IID_IClassFactory (fst no_server) = Inr (E_NOINTERFACE, None, s') \<and>
    objects (fst no_server) x = None \<and>
    (\<forall>ops. allowed_run server_allowed server_exec ops (s', snd no_server) \<longrightarrow>
       (\<exists>t held'. foldO server_exec ops (s', snd no_server) = Inr (t, held') \<and>
          objects t x = Some (Profiler CorProfiler_new)))"
  by (rule failed_creation_leaks)
    (use no_server_reachable in \<open>simp_all add: CorProfiler_offers_def IID_IClassFactory_def IID_IUnknown_def
       uuid_ICorProfilerCallback_def uuid_ICorProfilerCallback2_def uuid_ICorProfilerCallback3_def
       uuid_ICorProfilerCallback4_def uuid_ICorProfilerCallback5_def uuid_ICorProfilerCallback6_def
       uuid_ICorProfilerCallback7_def uuid_ICorProfilerCallback8_def\<close>)

text \<open>The runtime creates the class factory, a profiler, asks it for an interface and lets it go.\<close>

lemma released_objects_die_witness:
  "\<exists>s held s'. foldO server_exec [GetClassObject CLSID_CorProfiler IID_IClassFactory True,
      CreateInstance 0 False uuid_ICorProfilerCallback8, QueryInterfaceOf 1 IID_IUnknown] no_server = Inr (s, held) \<and>
    held 1 = 2 \<and> objects s 1 \<noteq> None \<and>
    foldO server_exec [ReleaseOf 1, ReleaseOf 1] (s, held) = Inr (s', held(1 := 0)) \<and> objects s' 1 = None"
proof -
  let ?ops = "[GetClassObject CLSID_CorProfiler IID_IClassFactory True,
      CreateInstance 0 False uuid_ICorProfilerCallback8, QueryInterfaceOf 1 IID_IUnknown]"
  note d = no_server_def server_exec_def DllGetClassObject_def ClassFactory_QueryInterface_def ClassFactory_CreateInstance_def
    CorProfiler_QueryInterface_def object_AddRef_def ClassFactory_AddRef_def CorProfiler_AddRef_def new_object_def handed_def
    ClassFactory_offers_def CorProfiler_offers_def ClassFactory_new_def Let_def split_beta
  have a: "allowed_run server_allowed server_exec ?ops no_server" by (simp add: d)
  have "case foldO server_exec ?ops no_server of Inl _ \<Rightarrow> False | Inr (s, held) \<Rightarrow> held 1 = 2 \<and> objects s 1 \<noteq> None"
    by (simp add: d)
  then obtain s held where s: "foldO server_exec ?ops no_server = Inr (s, held)" "held 1 = 2" "objects s 1 \<noteq> None"
    by (auto split: sum.splits)
  have "replicate 2 (ReleaseOf 1) = [ReleaseOf 1, ReleaseOf 1]" by (simp add: eval_nat_numeral)
  then obtain s' where "foldO server_exec [ReleaseOf 1, ReleaseOf 1] (s, held) = Inr (s', held(1 := 0))" "objects s' 1 = None"
    using released_objects_die [OF reachable_run [OF no_server_reachable a s(1)], of 1, unfolded s(2), OF zero_less_numeral] by metis
  with s show ?thesis by blast
qed

end
