(* ===== verification/Spec2Isabelle.thy ===== *)
theory Spec2Isabelle
  imports Prelude CorSig ElementType SigParser TypeParser Opcode ILMethod ILList ILExport ILLayout ILBody ILImport ILDecode
    ILRoundtrip Miniutf UnicodeTables Normalize Hangul Util Metadata RewriterHelper Info Config Machine ComPtr Profiler
    LoadMethod Interceptor InterceptorBody HelperTyping Jit Compile ClassFactory
begin

text \<open>
  \<^bold>\<open>The native profiler of DotNetCoreProfiler\<close>

  The profiler is a COM library the .NET runtime loads. It follows the loading of modules, and when the runtime compiles a
  method it rewrites the method's IL: the first method compiled in an application domain is made to load the assemblies of
  the interceptors, and every call of a configured target is replaced by the call of a generated interceptor. This
  development translates the C++ under \<^verbatim>\<open>src/src/profiler\<close>, and what it runs of the CoreCLR headers under
  \<^verbatim>\<open>src/lib/coreclr/src/inc\<close>, into definitions that compute, and proves what makes the parts and their composition correct.

  \<^bold>\<open>How the parts interact\<close>

  \<open>DllGetClassObject\<close> hands the runtime a class factory, which creates the profiler. \<open>Initialize\<close> reads the configuration.
  \<open>ModuleLoadFinished\<close> records the module. \<open>JITCompilationStarted\<close> imports the body of the method into the rewriter's list
  of instructions, injects the call of the load method if the domain has none yet, and runs \<open>Rewrite\<close>; that looks at each
  call, reads the callee's metadata through \<open>FunctionInfo\<close>, \<open>TypeInfo\<close> and \<open>MethodSignature\<close>, which parse signatures with
  \<open>parser.cpp\<close>, compares it with the configured targets, generates an interceptor with a rewriter and helper of its own, and
  exports the changed list to a new method body.

  \<^bold>\<open>Conventions\<close>

  A machine integer is a word of its width. A structure is a record, an enumeration a datatype or its values. A function that
  may execute an operation C++ leaves undefined (a null or freed pointer, an index out of bounds, a member of a union that was
  not written) has a result of type \<open>outcome\<close>, whose left summand is the \<open>fault\<close>; an \<open>HRESULT\<close> is a value, with every early
  return. Mutable objects are explicit state: the instructions of the rewriter are a store from addresses to nodes, smart
  pointers and COM objects a store with reference counts. Interfaces of the runtime (\<open>ICorProfilerInfo8\<close>, the metadata
  interfaces, the allocator of method bodies), the JSON parser and \<open>getenv\<close> are parameters: records of functions that take
  the runtime's state, of an arbitrary type \<open>'w\<close>, and return it. No definition is given for code that is not in the
  repository; what a theorem needs of it is one of its hypotheses, and its witness instantiates the parameter.

  \<^bold>\<open>Theories\<close>

  \<^item> \<open>Prelude\<close>: words, faults, the bind \<open>bindO\<close>, loops over lists \<open>foldO\<close>, the rule style \<open>ensures\<close>, little-endian bytes.
    \<open>Machine\<close>: reachable states of a machine, with the locales \<open>machine\<close> (an invariant every allowed operation keeps while it
    completes) and \<open>stable\<close> (one every completed operation keeps).
  \<^item> \<open>CorSig\<close>, \<open>ElementType\<close>, \<open>SigParser\<close>: \<^verbatim>\<open>cor.h\<close>, \<^verbatim>\<open>corhdr.h\<close>, \<^verbatim>\<open>sigparser.h\<close>. The locale \<open>sig_read\<close> is the contract of a
    method that reads from a signature; it is interpreted on seven of them.
  \<^item> \<open>TypeParser\<close>: \<^verbatim>\<open>info/parser.cpp\<close>, with the grammar of types as a datatype and the encoding of its values.
  \<^item> \<open>Opcode\<close>, \<open>ILMethod\<close>: \<^verbatim>\<open>opcode.def\<close> row by row and the tables derived from it; \<^verbatim>\<open>corhlpr.h\<close> and \<^verbatim>\<open>corhlpr.cpp\<close>, the method
    headers, sections and exception clauses and the runtime's decoder of them.
  \<^item> \<open>ILList\<close>, \<open>ILImport\<close>, \<open>ILExport\<close>: \<^verbatim>\<open>rewriter/ILRewriter.cpp\<close>. \<open>holds\<close> relates the store to the list it threads; the
    locale \<open>instr_sequence\<close> is what a client of insertion relies on, interpreted on \<open>InsertBefore\<close>. \<open>ILLayout\<close> proves the two
    loops of the export, with the widening of short branches; \<open>ILBody\<close> the bodies it writes; \<open>ILDecode\<close> that the import
    follows a reference decoder; \<open>ILRoundtrip\<close> that the import undoes the export.
  \<^item> \<open>RewriterHelper\<close>: \<^verbatim>\<open>rewriter/ILRewriterHelper.cpp\<close>. \<open>emits f code\<close> says what a method inserts, wherever the helper stands, and
    composes. \<open>HelperTyping\<close>: the helper as a \<open>machine\<close> that keeps a list well typed.
  \<^item> \<open>Miniutf\<close>, \<open>UnicodeTables\<close>, \<open>Normalize\<close>, \<open>Hangul\<close>: \<^verbatim>\<open>miniutf/\<close>, with its generated tables.
  \<^item> \<open>Util\<close>, \<open>Metadata\<close>, \<open>Info\<close>, \<open>Config\<close>: \<^verbatim>\<open>util/\<close>, \<^verbatim>\<open>const/\<close>, the levels of \<^verbatim>\<open>logging/\<close>, \<^verbatim>\<open>info/\<close> and \<^verbatim>\<open>configuration/\<close>.
  \<^item> \<open>ComPtr\<close>: \<^verbatim>\<open>util/ComPtr.h\<close>, a \<open>machine\<close> over pointers, reference counts and clients. \<open>ClassFactory\<close>: \<^verbatim>\<open>ClassFactory.cpp\<close>,
    \<^verbatim>\<open>dllmain.cpp\<close> and the counting methods of \<open>CorProfiler\<close>, a \<open>machine\<close> interpreted for the counts and for a lost object.
  \<^item> \<open>Profiler\<close>, \<open>LoadMethod\<close>, \<open>Interceptor\<close>, \<open>Jit\<close>: \<^verbatim>\<open>profiler/CorProfiler.cpp\<close>, with \<open>stable\<close> interpreted on the callbacks.
    \<open>InterceptorBody\<close> proves what an interceptor's body is, \<open>Compile\<close> composes the parts from the bytes of a method to the
    bytes the runtime is handed.

  \<^bold>\<open>What the lemmas show\<close>

  \<^item> Encodings: compressed integers and tokens, type signatures, method sections and clauses, UTF-8 and UTF-16, configurations
    survive writing and reading; the parsers end on every input and stay inside it, except where a theorem shows they do not.
  \<^item> The list: insertion refines insertion into a list, the destructor frees every node once.
  \<^item> Import and export: the import builds the list the code decodes to; the export ends, every branch reaches its target,
    the decoder of the runtime finds the instructions, header and clauses; importing an exported body gives the list back, for code without \<open>switch\<close>, whose import faults.
  \<^item> Generated code: the load method and the interceptors are exactly the code of a specification computed from the tokens
    the runtime answers (\<open>load_method_tokens\<close>, \<open>path_tokens\<close>, \<open>load_instrs\<close>, \<open>intercept_code\<close>).
  \<^item> The compilation: \<open>Rewrite\<close> replaces the intercepted calls and nothing else, each by the call of the interceptor generated
    for it (\<open>rewriting\<close>); the first compilation in a domain installs a
    body that calls the load method, then does what the rewritten method does; no later one loads again.
  \<^item> Objects: counts equal the references held through every allowed sequence of operations; released objects are deleted.
  \<^item> Unicode: lookups stay inside the generated tables, normal forms are canonically ordered, Hangul round trips, and one
    composition loses a character.

  \<^bold>\<open>Bounds and fuel\<close>

  A loop over the rewriter's list is bounded by the number of addresses handed out, which exceeds the length of a list that
  \<open>holds\<close>. The readers of types and functions call each other: from a type specification the recursion ends
  exactly when the chain of specifications it follows (\<open>spec_chain\<close>) ends, and a method needs six calls more than the chain
  of its class has steps; the specification of a certain array is its own successor, and no fuel is enough for it. The export theorems ask for at most \<open>2 ^ 27\<close> addresses, so that ten bytes for each instruction fit a signed 32-bit length, and
  for clauses that fit a section of \<open>2 ^ 24\<close> bytes; the first compilation in a domain for \<open>2 ^ 26\<close>, since
  rewriting at most doubles a list; the interceptor for fewer than \<open>2 ^ 20\<close> interceptions.

  \<^bold>\<open>Not modelled\<close>

  Log messages and their formatting (\<^verbatim>\<open>fmt/\<close>), the JSON parser and everything of \<^verbatim>\<open>nlohmann/json.hpp\<close> but the access functions the
  loader calls, and the interfaces of the runtime are third-party code. The profiler takes no locks; a
  callback is a single step here, so callbacks that run at the same time, which race on its sets, are not modelled.
  The CoreCLR platform layer is only compiled against. The managed interceptors (C#),
  the Kubernetes admission hook (Go), samples and tests are other programs.
\<close>

end
